(* ===== verification/Prelude.thy ===== *)
theory Prelude
  imports Main "HOL-Library.Sublist" "HOL-Library.AList" "HOL-Library.Char_ord" "HOL-Library.List_Lexorder"
    "HOL-Library.Multiset"
begin

text \<open>
  What every component shares: the text and container operations of Python's standard
  library that the source calls, as executable functions on \<^typ>\<open>string\<close>, and the lemma
  collections the component proofs use.

  A Python \<open>str\<close> is modelled as a \<^typ>\<open>string\<close> whose characters are the code points 0 to 255
  (Latin-1). White space, line breaks, letter case and digits are Python's own for these code
  points; code points above 255 cannot be represented (the two places where the source's
  literals hold an arrow or an ellipsis write \<open>->\<close> and \<open>...\<close>).

  A Python \<open>dict\<close> whose order matters is an association list: \<^const>\<open>AList.update\<close> keeps a
  key's place or appends it, as Python's insertion order does.
\<close>

named_theorems text_simps "facts about Python's text operations"
named_theorems judge_simps "unfolding facts of the judge"
named_theorems trace_intros "compositional rules for effect traces"
named_theorems policy_intros "what keeps a policy on the calls of a run"
named_theorems answer_intros "computations that end without an exception"

section \<open>Characters\<close>

type_synonym word_text = string
type_synonym path = "string list"

definition code_point :: "char \<Rightarrow> nat" where
  "code_point c = of_char c"

text \<open>\<open>str.isspace\<close> on Latin-1.\<close>

definition is_space :: "char \<Rightarrow> bool" where
  "is_space c \<longleftrightarrow> (let n = code_point c in
     9 \<le> n \<and> n \<le> 13 \<or> 28 \<le> n \<and> n \<le> 32 \<or> n = 133 \<or> n = 160)"

text \<open>A character \<open>str.splitlines\<close> breaks at.\<close>

definition is_break :: "char \<Rightarrow> bool" where
  "is_break c \<longleftrightarrow> (let n = code_point c in 10 \<le> n \<and> n \<le> 13 \<or> 28 \<le> n \<and> n \<le> 30 \<or> n = 133)"

text \<open>A decimal digit of the regular expressions' \<open>\d\<close>, and \<open>str.isdigit\<close>, which also
  takes the superscripts one, two and three.\<close>

definition is_dec :: "char \<Rightarrow> bool" where
  "is_dec c \<longleftrightarrow> (let n = code_point c in 48 \<le> n \<and> n \<le> 57)"

definition is_digit_char :: "char \<Rightarrow> bool" where
  "is_digit_char c \<longleftrightarrow> is_dec c \<or> code_point c \<in> {178, 179, 185}"

definition is_lower_az :: "char \<Rightarrow> bool" where
  "is_lower_az c \<longleftrightarrow> (let n = code_point c in 97 \<le> n \<and> n \<le> 122)"

definition is_upper_az :: "char \<Rightarrow> bool" where
  "is_upper_az c \<longleftrightarrow> (let n = code_point c in 65 \<le> n \<and> n \<le> 90)"

text \<open>\<open>str.lower\<close> on Latin-1: A to Z and the accented capitals move up by 32.\<close>

definition lower_char :: "char \<Rightarrow> char" where
  "lower_char c = (let n = code_point c in
     if 65 \<le> n \<and> n \<le> 90 \<or> 192 \<le> n \<and> n \<le> 222 \<and> n \<noteq> 215 then char_of (n + 32) else c)"

definition lower :: "string \<Rightarrow> string" where
  "lower s = map lower_char s"

definition newline :: char where "newline = CHR 0x0A"
definition dquote :: char where "dquote = CHR 0x22"
definition squote :: char where "squote = CHR 0x27"

section \<open>Splitting and stripping\<close>

text \<open>\<open>str.split()\<close> when \<open>p\<close> is white space; \<open>re.split\<close> on a class, its empty pieces
  dropped, in general.\<close>

function fields :: "(char \<Rightarrow> bool) \<Rightarrow> string \<Rightarrow> string list" where
  "fields p [] = []"
| "fields p (c # cs) =
     (if p c then fields p cs
      else (c # takeWhile (\<lambda>x. \<not> p x) cs) # fields p (dropWhile (\<lambda>x. \<not> p x) cs))"
  by pat_completeness auto
termination
  by (relation "measure (\<lambda>(p, s). length s)")
    (auto simp: less_Suc_eq_le intro: length_dropWhile_le)

definition split_ws :: "string \<Rightarrow> string list" where
  "split_ws s = fields is_space s"

text \<open>\<open>s.split(c)\<close> for a one-character separator: the empty pieces stay.\<close>

fun split_char :: "char \<Rightarrow> string \<Rightarrow> string list" where
  "split_char c [] = [[]]"
| "split_char c (x # xs) =
     (if x = c then [] # split_char c xs
      else (case split_char c xs of [] \<Rightarrow> [[x]] | p # ps \<Rightarrow> (x # p) # ps))"

definition lstrip_p :: "(char \<Rightarrow> bool) \<Rightarrow> string \<Rightarrow> string" where
  "lstrip_p p s = dropWhile p s"

definition rstrip_p :: "(char \<Rightarrow> bool) \<Rightarrow> string \<Rightarrow> string" where
  "rstrip_p p s = rev (dropWhile p (rev s))"

definition strip_p :: "(char \<Rightarrow> bool) \<Rightarrow> string \<Rightarrow> string" where
  "strip_p p s = rstrip_p p (lstrip_p p s)"

definition strip :: "string \<Rightarrow> string" where
  "strip s = strip_p is_space s"

fun join :: "string \<Rightarrow> string list \<Rightarrow> string" where
  "join sep [] = []"
| "join sep [x] = x"
| "join sep (x # y # ys) = x @ sep @ join sep (y # ys)"

text \<open>\<open>str.splitlines\<close>: a carriage return with the line feed after it is one break, a
  final break opens no line.\<close>

function splitlines :: "string \<Rightarrow> string list" where
  "splitlines [] = []"
| "splitlines (c # cs) =
     (case dropWhile (\<lambda>x. \<not> is_break x) (c # cs) of
        [] \<Rightarrow> [c # cs]
      | b # rest \<Rightarrow> takeWhile (\<lambda>x. \<not> is_break x) (c # cs) #
          splitlines (if b = CHR 0x0D \<and> take 1 rest = [newline] then drop 1 rest else rest))"
  by pat_completeness auto
termination
proof (relation "measure length", goal_cases)
  case (2 c cs b rest)
  have "length (b # rest) \<le> length (c # cs)"
    using length_dropWhile_le [of "\<lambda>x. \<not> is_break x" "c # cs"] 2 by simp
  then show ?case by auto
qed simp

text \<open>\<open>s.replace(old, new)\<close>.\<close>

function replace_text :: "string \<Rightarrow> string \<Rightarrow> string \<Rightarrow> string" where
  "replace_text old new s =
     (if old = [] then new @ concat (map (\<lambda>c. c # new) s)
      else if s = [] then []
      else if prefix old s then new @ replace_text old new (drop (length old) s)
      else hd s # replace_text old new (tl s))"
  by pat_completeness auto
termination
  by (relation "measure (\<lambda>(old, new, s). length s)") (auto simp: prefix_def)

declare replace_text.simps [simp del]

text \<open>\<open>sub in s\<close> and \<open>s.partition(c)\<close>.\<close>

definition occurs_in :: "string \<Rightarrow> string \<Rightarrow> bool" where
  "occurs_in sub s \<longleftrightarrow> list_ex (prefix sub) (suffixes s)"

definition partition_char :: "char \<Rightarrow> string \<Rightarrow> string \<times> bool \<times> string" where
  "partition_char c s =
     (case dropWhile (\<lambda>x. x \<noteq> c) s of
        [] \<Rightarrow> (s, False, [])
      | _ # rest \<Rightarrow> (takeWhile (\<lambda>x. x \<noteq> c) s, True, rest))"

definition is_digits :: "string \<Rightarrow> bool" where
  "is_digits s \<longleftrightarrow> s \<noteq> [] \<and> list_all is_digit_char s"

section \<open>Numbers as text\<close>

fun show_nat :: "nat \<Rightarrow> string" where
  "show_nat n =
     (if n < 10 then [char_of (48 + n)] else show_nat (n div 10) @ [char_of (48 + n mod 10)])"

declare show_nat.simps [simp del]

definition show_int :: "int \<Rightarrow> string" where
  "show_int i = (if i < 0 then ''-'' @ show_nat (nat (- i)) else show_nat (nat i))"

fun digits_value :: "nat \<Rightarrow> string \<Rightarrow> nat" where
  "digits_value acc [] = acc"
| "digits_value acc (c # cs) = digits_value (10 * acc + (code_point c - 48)) cs"

text \<open>\<open>repr\<close> of a text: single quotes, or double ones when the text holds a single quote and
  no double one; backslash, the quote in use and what cannot be printed are escaped.\<close>

definition hex_digit :: "nat \<Rightarrow> char" where
  "hex_digit n = (if n < 10 then char_of (48 + n) else char_of (87 + n))"

definition repr_char :: "char \<Rightarrow> char \<Rightarrow> string" where
  "repr_char q c =
     (let n = code_point c in
      if c = q \<or> n = 92 then [CHR 0x5C, c]
      else if n = 10 then [CHR 0x5C, CHR ''n'']
      else if n = 13 then [CHR 0x5C, CHR ''r'']
      else if n = 9 then [CHR 0x5C, CHR ''t'']
      else if n < 32 \<or> 127 \<le> n \<and> n \<le> 160 \<or> n = 173
        then [CHR 0x5C, CHR ''x'', hex_digit (n div 16), hex_digit (n mod 16)]
      else [c])"

definition py_repr :: "string \<Rightarrow> string" where
  "py_repr s =
     (let q = (if squote \<in> set s \<and> dquote \<notin> set s then dquote else squote)
      in [q] @ concat (map (repr_char q) s) @ [q])"

section \<open>Lists and dictionaries\<close>

fun find_from :: "nat \<Rightarrow> ('a \<Rightarrow> bool) \<Rightarrow> 'a list \<Rightarrow> (nat \<times> 'a) option" where
  "find_from i p [] = None"
| "find_from i p (x # xs) = (if p x then Some (i, x) else find_from (Suc i) p xs)"

text \<open>\<open>enumerate\<close> and the first element of a loop that satisfies a test.\<close>

definition find_index :: "('a \<Rightarrow> bool) \<Rightarrow> 'a list \<Rightarrow> (nat \<times> 'a) option" where
  "find_index p xs = find_from 0 p xs"

text \<open>\<open>d.setdefault(k, []).append(v)\<close> and \<open>d.get(k, ())\<close>.\<close>

definition dict_append :: "'k \<Rightarrow> 'v \<Rightarrow> ('k \<times> 'v list) list \<Rightarrow> ('k \<times> 'v list) list" where
  "dict_append k v d = AList.update k (case map_of d k of None \<Rightarrow> [v] | Some vs \<Rightarrow> vs @ [v]) d"

definition dict_get :: "('k \<times> 'v list) list \<Rightarrow> 'k \<Rightarrow> 'v list" where
  "dict_get d k = (case map_of d k of None \<Rightarrow> [] | Some vs \<Rightarrow> vs)"

section \<open>Lemmas\<close>

lemma find_from_SomeD:
  "find_from i p xs = Some (j, x) \<Longrightarrow> i \<le> j \<and> j - i < length xs \<and> xs ! (j - i) = x \<and> p x"
  by (induction i p xs rule: find_from.induct) (auto split: if_splits simp: nth_Cons')

lemma find_index_SomeD:
  assumes "find_index p xs = Some (j, x)"
  shows "j < length xs" "xs ! j = x" "p x" "x \<in> set xs"
proof -
  have "j < length xs \<and> xs ! j = x \<and> p x"
    using find_from_SomeD [of 0 p xs j x] assms by (simp add: find_index_def)
  then show "j < length xs" "xs ! j = x" "p x" "x \<in> set xs" by auto
qed

lemma find_from_None_iff: "find_from i p xs = None \<longleftrightarrow> (\<forall>x\<in>set xs. \<not> p x)"
  by (induction i p xs rule: find_from.induct) auto

lemma find_index_None_iff: "find_index p xs = None \<longleftrightarrow> (\<forall>x\<in>set xs. \<not> p x)"
  by (simp add: find_index_def find_from_None_iff)

lemma find_SomeD: "List.find p xs = Some x \<Longrightarrow> x \<in> set xs \<and> p x"
  by (induction xs) (auto split: if_splits)

lemma map_of_dict_append [simp]:
  "map_of (dict_append k v d) k' =
     (if k' = k then Some (dict_get d k @ [v]) else map_of d k')"
  by (simp add: dict_append_def dict_get_def update_conv' split: option.splits)

lemma dict_get_dict_append [simp]:
  "dict_get (dict_append k v d) k' = (if k' = k then dict_get d k @ [v] else dict_get d k')"
  by (simp add: dict_get_def split: option.splits)

lemma keys_dict_append [simp]: "fst ` set (dict_append k v d) = insert k (fst ` set d)"
  by (simp add: dict_append_def dom_update)

lemma distinct_dict_append:
  "distinct (map fst d) \<Longrightarrow> distinct (map fst (dict_append k v d))"
  by (simp add: dict_append_def distinct_update)

lemma set_alist_update: "set (AList.update k v d) \<subseteq> insert (k, v) (set d)"
  by (induction d) auto

lemma dict_append_eq: "dict_append k v d = AList.update k (dict_get d k @ [v]) d"
  by (simp add: dict_append_def dict_get_def split: option.splits)

lemma set_dict_append: "set (dict_append k v d) \<subseteq> insert (k, dict_get d k @ [v]) (set d)"
  unfolding dict_append_eq by (rule set_alist_update)

lemma dict_get_memD: "x \<in> set (dict_get d k) \<Longrightarrow> \<exists>vs. map_of d k = Some vs \<and> x \<in> set vs"
  by (cases "map_of d k") (auto simp: dict_get_def)

lemma fields_parts:
  "w \<in> set (fields p s) \<Longrightarrow> w \<noteq> [] \<and> (\<forall>c\<in>set w. \<not> p c) \<and> set w \<subseteq> set s"
proof (induction p s rule: fields.induct)
  case (1 p)
  then show ?case by simp
next
  case (2 p c cs)
  show ?case
  proof (cases "p c")
    case True
    with 2 show ?thesis by auto
  next
    case False
    then consider "w = c # takeWhile (\<lambda>x. \<not> p x) cs"
      | "w \<in> set (fields p (dropWhile (\<lambda>x. \<not> p x) cs))"
      using "2.prems" by auto
    then show ?thesis
    proof cases
      case 1
      then show ?thesis using False by (auto dest: set_takeWhileD)
    next
      case 2
      with "2.IH"(2) [OF False] show ?thesis by (auto dest: set_dropWhileD)
    qed
  qed
qed

lemma fields_word:
  assumes "w \<noteq> []" "\<forall>c\<in>set w. \<not> p c"
  shows "fields p w = [w]"
proof (cases w)
  case (Cons a l)
  with assms have t: "takeWhile (\<lambda>x. \<not> p x) l = l" and d: "dropWhile (\<lambda>x. \<not> p x) l = []"
    by (simp_all add: takeWhile_eq_all_conv dropWhile_eq_Nil_conv)
  show ?thesis using Cons assms by (simp add: t d)
qed (use assms in simp)

lemma fields_word_sep:
  assumes "w \<noteq> []" "\<forall>c\<in>set w. \<not> p c" "p b"
  shows "fields p (w @ b # s) = w # fields p s"
  using assms by (cases w) (auto simp: takeWhile_append dropWhile_append)

lemma fields_join:
  assumes "\<forall>w\<in>set ws. w \<noteq> [] \<and> (\<forall>c\<in>set w. \<not> p c)" "p b"
  shows "fields p (join [b] ws) = ws"
  using assms by (induction "[b]" ws rule: join.induct) (auto simp: fields_word fields_word_sep)

lemma set_join: "set (join sep ws) \<subseteq> set sep \<union> (\<Union>w\<in>set ws. set w)"
  by (induction sep ws rule: join.induct) auto

lemma map_join: "map f (join sep ws) = join (map f sep) (map (map f) ws)"
  by (induction sep ws rule: join.induct) auto

lemma code_point_less: "code_point c < 256"
  by (simp add: code_point_def)

text \<open>Decimal texts: what \<open>str(n)\<close> writes reads back.\<close>

lemma show_nat_decimal: "show_nat n \<noteq> [] \<and> list_all is_dec (show_nat n)"
proof (induction n rule: show_nat.induct)
  case (1 n)
  have d: "is_dec (char_of (48 + k))" if "k < 10" for k :: nat
    using that by (simp add: is_dec_def code_point_def)
  show ?case using 1 d [of n] d [of "n mod 10"] by (subst (1 2) show_nat.simps) auto
qed

lemma is_digits_show_nat: "is_digits (show_nat n)"
  using show_nat_decimal [of n] by (auto simp: is_digits_def is_digit_char_def list_all_iff)

lemma digits_value_append: "digits_value acc (a @ b) = digits_value (digits_value acc a) b"
  by (induction acc a rule: digits_value.induct) auto

lemma digits_value_show_nat: "digits_value 0 (show_nat n) = n"
proof (induction n rule: show_nat.induct)
  case (1 n)
  have v: "code_point (char_of (48 + k)) - 48 = k" if "k < 10" for k :: nat
    using that by (simp add: code_point_def)
  show ?case
    using 1 v [of n] v [of "n mod 10"]
    by (subst show_nat.simps) (auto simp: digits_value_append)
qed

lemma strip_no_space: "(\<And>c. c \<in> set s \<Longrightarrow> \<not> is_space c) \<Longrightarrow> strip s = s"
proof -
  assume h: "\<And>c. c \<in> set s \<Longrightarrow> \<not> is_space c"
  have keep: "(\<And>c. c \<in> set t \<Longrightarrow> \<not> is_space c) \<Longrightarrow> dropWhile is_space t = t" for t
    by (cases t) auto
  show ?thesis using h keep [of s] keep [of "rev s"] by (simp add: strip_def strip_p_def lstrip_p_def rstrip_p_def)
qed

end
