(* ===== verification/Evidence_Lines.thy ===== *)
theory Evidence_Lines
  imports Prelude
begin

text \<open>
  \<open>src/rollout/evidence.py\<close>, its first half: how a command and a configuration line are
  compared (words, abbreviations), and how a printed configuration is read into lines with
  the section each is in (\<open>parse\<close>).
\<close>

section \<open>Verdicts and words\<close>

text \<open>\<open>class Verdict(StrEnum)\<close>, with the stored values.\<close>

datatype verdict = TookEffect | InPlace | Removed | Navigation | Review | Rejected | Exec

fun verdict_value :: "verdict \<Rightarrow> string" where
  "verdict_value TookEffect = ''took effect''"
| "verdict_value InPlace = ''already in place''"
| "verdict_value Removed = ''removed''"
| "verdict_value Navigation = ''navigation''"
| "verdict_value Review = ''review''"
| "verdict_value Rejected = ''rejected''"
| "verdict_value Exec = ''not a configuration command''"

definition all_navigation :: "string list" where
  "all_navigation = [''exit'', ''end'', ''next'', ''abort'', ''quit'', ''return'', ''top'', ''up'',
     ''root'', ''end-policy'', ''end-set'', ''end-group'']"

definition all_negation :: "string list" where
  "all_negation = [''no'', ''undo'', ''unset'', ''delete'']"

definition normalize :: "string \<Rightarrow> string" where
  "normalize line = lower (join '' '' (split_ws (filter (\<lambda>c. c \<noteq> dquote) line)))"

definition first_word :: "string \<Rightarrow> string" where
  "first_word command = (case split_ws (normalize command) of [] \<Rightarrow> [] | w # _ \<Rightarrow> w)"

definition navigates :: "string \<Rightarrow> string list \<Rightarrow> bool" where
  "navigates word navigation \<longleftrightarrow> word \<in> set navigation \<or> prefix ''exit-'' word"

definition words :: "string \<Rightarrow> string list" where
  "words text = fields (\<lambda>c. is_space c \<or> c = CHR '','') (normalize text)"

text \<open>The pattern \<open>([a-z]*)(.*)\<close>: the letters a word starts with, and the rest.\<close>

definition split_letters :: "string \<Rightarrow> string \<times> string" where
  "split_letters word = (takeWhile is_lower_az word, dropWhile is_lower_az word)"

definition same_word :: "string \<Rightarrow> string \<Rightarrow> bool" where
  "same_word typed device \<longleftrightarrow>
     typed = device \<or>
     (let (t_letters, t_rest) = split_letters typed; (d_letters, d_rest) = split_letters device
      in 2 \<le> length t_letters \<and> prefix t_letters d_letters \<and> t_rest = d_rest)"

definition names :: "string \<Rightarrow> string \<Rightarrow> bool" where
  "names typed device \<longleftrightarrow>
     same_word typed device \<or> typed = fst (partition_char (CHR ''-'') device)"

text \<open>The scan of \<open>contains\<close>: skip the line's words up to the first one the typed word is,
  then go on after it.\<close>

fun contains_by :: "(string \<Rightarrow> string \<Rightarrow> bool) \<Rightarrow> string list \<Rightarrow> string list \<Rightarrow> bool" where
  "contains_by same [] line = True"
| "contains_by same (typed # command) line =
     (case dropWhile (\<lambda>d. \<not> same typed d) line of
        [] \<Rightarrow> False
      | _ # rest \<Rightarrow> contains_by same command rest)"

definition contains :: "string list \<Rightarrow> string list \<Rightarrow> bool" where
  "contains = contains_by same_word"

definition matches :: "string list \<Rightarrow> string list \<Rightarrow> bool" where
  "matches command line \<longleftrightarrow> length command = length line \<and> list_all2 same_word command line"

section \<open>Configuration lines\<close>

record line =
  path_of :: path
  text_of :: string
  raw_of :: string

definition key :: "line \<Rightarrow> path \<times> string" where
  "key l = (path_of l, text_of l)"

definition line_words :: "line \<Rightarrow> string list" where
  "line_words l = words (text_of l)"

definition inside :: "line \<Rightarrow> path" where
  "inside l = path_of l @ [text_of l]"

type_synonym stack = "(nat \<times> string) list"

definition indent_of :: "string \<Rightarrow> nat" where
  "indent_of row = length row - length (lstrip_p is_space row)"

definition pop_stack :: "nat \<Rightarrow> stack \<Rightarrow> stack" where
  "pop_stack indent stack = rev (dropWhile (\<lambda>e. indent \<le> fst e) (rev stack))"

text \<open>The loop of \<open>parse\<close> over the rows; the stack's last entry is the innermost open
  section.\<close>

fun parse_rows :: "bool \<Rightarrow> string list \<Rightarrow> stack \<Rightarrow> string list \<Rightarrow> line list" where
  "parse_rows flat navigation stack [] = []"
| "parse_rows flat navigation stack (row # rows) =
     (let raw = strip row in
      if raw = [] then parse_rows flat navigation stack rows
      else if hd raw \<in> {CHR ''!'', CHR ''#''} then
        parse_rows flat navigation (if is_space (hd row) then stack else []) rows
      else if flat then
        \<lparr>path_of = [], text_of = normalize raw, raw_of = raw\<rparr>
          # parse_rows flat navigation stack rows
      else
        let indent = indent_of row; open_stack = pop_stack indent stack; text = normalize raw in
        if navigates (first_word raw) navigation then
          parse_rows flat navigation open_stack rows
        else
          \<lparr>path_of = map snd open_stack, text_of = text, raw_of = raw\<rparr>
            # parse_rows flat navigation (open_stack @ [(indent, text)]) rows)"

definition parse :: "string \<Rightarrow> bool \<Rightarrow> string list \<Rightarrow> line list" where
  "parse config flat navigation = parse_rows flat navigation [] (splitlines config)"

section \<open>Words: what the comparison means\<close>

lemma same_word_refl [simp]: "same_word w w"
  by (simp add: same_word_def)

lemma takeWhile_letters_append:
  assumes "\<forall>c\<in>set l. is_lower_az c" "r = [] \<or> \<not> is_lower_az (hd r)"
  shows "takeWhile is_lower_az (l @ r) = l" "dropWhile is_lower_az (l @ r) = r"
proof -
  have "takeWhile is_lower_az r = []" "dropWhile is_lower_az r = r"
    using assms(2) by (cases r; simp)+
  then show "takeWhile is_lower_az (l @ r) = l" "dropWhile is_lower_az (l @ r) = r"
    using assms(1) by (simp_all add: takeWhile_append dropWhile_append)
qed

text \<open>An abbreviation: the typed letters, at least two, start the device's letters, and what
  follows the letters is the same text.\<close>

definition abbreviates :: "string \<Rightarrow> string \<Rightarrow> bool" where
  "abbreviates typed device \<longleftrightarrow>
     (\<exists>l m r. typed = l @ r \<and> device = l @ m @ r \<and> 2 \<le> length l \<and>
        (\<forall>c\<in>set (l @ m). is_lower_az c) \<and> (r = [] \<or> \<not> is_lower_az (hd r)))"

lemma split_letters_prefix_iff:
  "(case split_letters t of (ta, tb) \<Rightarrow> case split_letters d of (da, db) \<Rightarrow>
      2 \<le> length ta \<and> prefix ta da \<and> tb = db) \<longleftrightarrow> abbreviates t d" (is "?L \<longleftrightarrow> ?R")
proof
  assume ?L
  then obtain m where m: "takeWhile is_lower_az d = takeWhile is_lower_az t @ m"
    and r: "dropWhile is_lower_az t = dropWhile is_lower_az d"
    and n: "2 \<le> length (takeWhile is_lower_az t)"
    by (auto simp: split_letters_def prefix_def)
  have az: "\<forall>c\<in>set (takeWhile is_lower_az t @ m). is_lower_az c"
    using set_takeWhileD [of _ is_lower_az d] m by auto
  have "d = takeWhile is_lower_az t @ m @ dropWhile is_lower_az t"
    using takeWhile_dropWhile_id [of is_lower_az d] m r by simp
  moreover have "t = takeWhile is_lower_az t @ dropWhile is_lower_az t" by simp
  moreover have "dropWhile is_lower_az t = [] \<or> \<not> is_lower_az (hd (dropWhile is_lower_az t))"
    using hd_dropWhile by blast
  ultimately show ?R unfolding abbreviates_def using n az by blast
next
  assume ?R
  then obtain l m r where *: "t = l @ r" "d = l @ m @ r" "2 \<le> length l"
    "\<forall>c\<in>set (l @ m). is_lower_az c" "r = [] \<or> \<not> is_lower_az (hd r)"
    by (auto simp: abbreviates_def)
  have "takeWhile is_lower_az t = l" "dropWhile is_lower_az t = r"
    using takeWhile_letters_append [of l r] * by auto
  moreover have "takeWhile is_lower_az d = l @ m" "dropWhile is_lower_az d = r"
    using takeWhile_letters_append [of "l @ m" r] * by auto
  ultimately show ?L using * by (simp add: split_letters_def)
qed

lemma same_word_iff: "same_word typed device \<longleftrightarrow> typed = device \<or> abbreviates typed device"
  by (simp only: same_word_def Let_def split_letters_prefix_iff)

lemma same_word_no_letter:
  assumes "w = [] \<or> \<not> is_lower_az (hd w)"
  shows "same_word w d \<longleftrightarrow> w = d"
proof -
  have "\<not> abbreviates w d"
  proof
    assume "abbreviates w d"
    then obtain l r where "w = l @ r" "2 \<le> length l" "\<forall>c\<in>set l. is_lower_az c"
      by (auto simp: abbreviates_def)
    then show False using assms by (cases l) auto
  qed
  then show ?thesis by (simp add: same_word_iff)
qed

text \<open>The greedy scan finds the words in order exactly when some subsequence of the line has
  them.\<close>

lemma contains_by_subseq:
  "contains_by same command line \<longleftrightarrow> (\<exists>sub. subseq sub line \<and> list_all2 same command sub)"
proof (induction command arbitrary: line)
  case Nil
  then show ?case by (auto intro: exI [of _ "[]"])
next
  case (Cons t ts)
  define rest where "rest = dropWhile (\<lambda>d. \<not> same t d) line"
  have line: "line = takeWhile (\<lambda>d. \<not> same t d) line @ rest" by (simp add: rest_def)
  show ?case
  proof (cases rest)
    case Nil
    then have "\<forall>d\<in>set line. \<not> same t d" by (simp add: rest_def dropWhile_eq_Nil_conv)
    then have "\<not> (\<exists>sub. subseq sub line \<and> list_all2 same (t # ts) sub)"
      by (auto simp: list_all2_Cons1 dest: list_emb_set)
    moreover have "\<not> contains_by same (t # ts) line" by (simp add: Nil [unfolded rest_def])
    ultimately show ?thesis by blast
  next
    case (Cons d ds)
    then have d: "same t d" using hd_dropWhile [of "\<lambda>d. \<not> same t d" line] by (simp add: rest_def)
    have "contains_by same (t # ts) line \<longleftrightarrow> contains_by same ts ds"
      by (simp add: Cons [unfolded rest_def])
    also have "\<dots> \<longleftrightarrow> (\<exists>sub. subseq sub ds \<and> list_all2 same ts sub)" by (rule Cons.IH)
    also have "\<dots> \<longleftrightarrow> (\<exists>sub. subseq sub line \<and> list_all2 same (t # ts) sub)"
    proof
      assume "\<exists>sub. subseq sub ds \<and> list_all2 same ts sub"
      then obtain sub where s: "subseq sub ds" "list_all2 same ts sub" by blast
      have "subseq (d # sub) (takeWhile (\<lambda>d. \<not> same t d) line @ rest)"
        using s(1) Cons by (simp add: list_emb_append2)
      then have "subseq (d # sub) line" using line by simp
      then show "\<exists>sub. subseq sub line \<and> list_all2 same (t # ts) sub"
        using s(2) d by (intro exI [of _ "d # sub"]) simp
    next
      assume "\<exists>sub. subseq sub line \<and> list_all2 same (t # ts) sub"
      then obtain e sub where s: "subseq (e # sub) line" "same t e" "list_all2 same ts sub"
        by (auto simp: list_all2_Cons1)
      have "subseq (e # sub) rest"
      proof -
        have skip: "subseq (e # sub) (xs @ ys) \<Longrightarrow> \<forall>x\<in>set xs. \<not> same t x \<Longrightarrow> subseq (e # sub) ys"
          for xs ys using s(2) by (induction xs) (auto split: if_splits)
        show ?thesis
          using skip [of "takeWhile (\<lambda>d. \<not> same t d) line" rest] s(1) line
          by (auto dest: set_takeWhileD)
      qed
      then have "subseq sub ds" using Cons by (auto split: if_splits dest: subseq_Cons')
      then show "\<exists>sub. subseq sub ds \<and> list_all2 same ts sub" using s(3) by blast
    qed
    finally show ?thesis .
  qed
qed

lemma matches_contains: "matches command line \<Longrightarrow> contains command line"
  unfolding contains_def contains_by_subseq matches_def
  by (blast intro: subseq_order.order_refl)

section \<open>Normal forms\<close>

lemma code_point_lower_char:
  "code_point (lower_char c) =
     (if 65 \<le> code_point c \<and> code_point c \<le> 90
         \<or> 192 \<le> code_point c \<and> code_point c \<le> 222 \<and> code_point c \<noteq> 215
      then code_point c + 32 else code_point c)"
  by (auto simp: lower_char_def Let_def code_point_def of_char_mod_256)

lemma code_point_inject: "code_point c = code_point d \<longleftrightarrow> c = d"
  by (simp add: code_point_def)

lemma lower_char_idem [simp]: "lower_char (lower_char c) = lower_char c"
  by (auto simp: code_point_inject [symmetric] code_point_lower_char)

lemma is_space_lower_char [simp]: "is_space (lower_char c) \<longleftrightarrow> is_space c"
  by (auto simp: is_space_def Let_def code_point_lower_char)

lemma lower_char_eq_dquote [simp]: "lower_char c = dquote \<longleftrightarrow> c = dquote"
  by (auto simp: code_point_inject [symmetric] code_point_lower_char)
    (auto simp: dquote_def code_point_def)

lemma lower_char_space [simp]: "lower_char (CHR '' '') = CHR '' ''"
  by (simp add: code_point_inject [symmetric] code_point_lower_char) (simp add: code_point_def)

lemma is_space_blank [simp]: "is_space (CHR '' '')"
  by (simp add: is_space_def code_point_def)

lemma lower_join: "lower (join '' '' ws) = join '' '' (map lower ws)"
  unfolding lower_def map_join by simp

lemma split_ws_normalize:
  "split_ws (normalize s) = map lower (split_ws (filter (\<lambda>c. c \<noteq> dquote) s))"
  unfolding normalize_def lower_join
  by (subst split_ws_def, subst fields_join)
    (auto simp: lower_def split_ws_def dest!: fields_parts)

lemma normalize_no_dquote: "dquote \<notin> set (normalize s)"
proof -
  let ?t = "filter (\<lambda>c. c \<noteq> dquote) s"
  have "set (join '' '' (split_ws ?t)) \<subseteq> {CHR '' ''} \<union> set ?t"
    using set_join [of "'' ''" "split_ws ?t"] fields_parts [of _ is_space ?t]
    by (fastforce simp: split_ws_def)
  then have "dquote \<notin> set (join '' '' (split_ws ?t))" by (auto simp: dquote_def)
  then show ?thesis by (auto simp: normalize_def lower_def dest: sym)
qed

lemma normalize_join_words:
  "normalize s = join '' '' (split_ws (normalize s))"
  unfolding split_ws_normalize by (simp add: normalize_def lower_join)

text \<open>Normalizing is a projection: what is compared does not change when it is normalized
  again, and neither do its words.\<close>

lemma normalize_idem [simp]: "normalize (normalize s) = normalize s"
proof -
  have f: "filter (\<lambda>c. c \<noteq> dquote) (normalize s) = normalize s"
    using normalize_no_dquote [of s] by (auto simp: filter_id_conv)
  have l: "lower (normalize s) = normalize s"
    by (simp add: normalize_def lower_def comp_def)
  show ?thesis
    by (subst normalize_def) (simp add: f l normalize_join_words [symmetric])
qed

lemma words_normalize [simp]: "words (normalize s) = words s"
  by (simp add: words_def)

lemma words_nonempty: "w \<in> set (words s) \<Longrightarrow> w \<noteq> []"
  by (auto simp: words_def dest: fields_parts)

end
