(* ===== verification/Evidence_Parse.thy ===== *)
theory Evidence_Parse
  imports Evidence_Lines
begin

text \<open>
  What \<open>parse\<close> (\<open>src/rollout/evidence.py\<close>) promises: the lines it keeps and the sections it
  puts them in, and, as its specification, that it reads back the section tree a printed
  configuration shows (\<open>parse_print\<close>).
\<close>

section \<open>The lines a configuration is read into\<close>

lemma parse_rows_line:
  assumes "l \<in> set (parse_rows flat navigation stack rows)"
  shows "\<exists>row\<in>set rows. raw_of l = strip row \<and> strip row \<noteq> [] \<and> hd (strip row) \<notin> {CHR ''!'', CHR ''#''}
           \<and> text_of l = normalize (strip row)
           \<and> (flat \<or> \<not> navigates (first_word (strip row)) navigation)"
  using assms
proof (induction flat navigation stack rows rule: parse_rows.induct)
  case (2 flat navigation stack row rows)
  consider "strip row = []" | "strip row \<noteq> []" "hd (strip row) \<in> {CHR ''!'', CHR ''#''}"
    | "strip row \<noteq> []" "hd (strip row) \<notin> {CHR ''!'', CHR ''#''}" flat
    | "strip row \<noteq> []" "hd (strip row) \<notin> {CHR ''!'', CHR ''#''}" "\<not> flat"
    by blast
  then show ?case
  proof cases
    case 1
    with 2 show ?thesis by auto
  next
    case 2
    with "2.prems" "2.IH"(2) show ?thesis by (auto simp: Let_def)
  next
    case 3
    with "2.prems" "2.IH"(3) show ?thesis by (auto simp: Let_def)
  next
    case 4
    with "2.prems" "2.IH"(4,5) show ?thesis by (auto simp: Let_def split: if_splits)
  qed
qed simp

lemma parse_rows_flat_paths:
  "l \<in> set (parse_rows True navigation stack rows) \<Longrightarrow> path_of l = []"
  by (induction True navigation stack rows rule: parse_rows.induct)
    (auto simp: Let_def split: if_splits)

text \<open>The open sections are lines already read, each directly under the ones before it.\<close>

definition opened_by :: "line list \<Rightarrow> stack \<Rightarrow> bool" where
  "opened_by seen stack \<longleftrightarrow> (\<forall>k<length stack. \<exists>l\<in>set seen.
     path_of l = map snd (take k stack) \<and> text_of l = snd (stack ! k))"

lemma pop_stack_take: "\<exists>k\<le>length stack. pop_stack indent stack = take k stack"
proof -
  let ?p = "\<lambda>e :: nat \<times> string. indent \<le> fst e"
  have "pop_stack indent stack = take (length stack - length (takeWhile ?p (rev stack))) stack"
    unfolding pop_stack_def dropWhile_eq_drop by (simp add: drop_rev)
  then show ?thesis by (metis diff_le_self)
qed

lemma opened_by_take: "opened_by seen stack \<Longrightarrow> opened_by seen (take k stack)"
  by (auto simp: opened_by_def min_def)

lemma opened_by_pop: "opened_by seen stack \<Longrightarrow> opened_by seen (pop_stack indent stack)"
  using pop_stack_take [of stack indent] opened_by_take by force

lemma opened_by_push:
  assumes "opened_by seen stack" "l \<in> set seen" "path_of l = map snd stack" "text_of l = text"
  shows "opened_by seen (stack @ [(indent, text)])"
  using assms by (auto simp: opened_by_def nth_append less_Suc_eq)

lemma opened_by_mono: "opened_by seen stack \<Longrightarrow> opened_by (seen @ extra) stack"
  by (fastforce simp: opened_by_def)

text \<open>A line's path names, level by level, lines read before it.\<close>

definition well_nested :: "line list \<Rightarrow> bool" where
  "well_nested ls \<longleftrightarrow> (\<forall>i<length ls. \<forall>k<length (path_of (ls ! i)). \<exists>j<i.
     path_of (ls ! j) = take k (path_of (ls ! i)) \<and> text_of (ls ! j) = path_of (ls ! i) ! k)"

lemma well_nested_snoc:
  assumes "well_nested seen" "opened_by seen stack" "path_of l = map snd stack"
  shows "well_nested (seen @ [l])"
proof -
  have "\<exists>j<length seen. path_of (seen ! j) = take k (map snd stack)
      \<and> text_of (seen ! j) = map snd stack ! k" if k: "k < length stack" for k
  proof -
    obtain m where "m \<in> set seen" "path_of m = map snd (take k stack)" "text_of m = snd (stack ! k)"
      using assms(2) k by (auto simp: opened_by_def)
    then show ?thesis using k by (auto simp: in_set_conv_nth take_map)
  qed
  then show ?thesis
    using assms(1,3) by (auto simp: well_nested_def nth_append less_Suc_eq) (metis less_trans)+
qed

lemma parse_rows_nested:
  assumes "well_nested seen" "opened_by seen stack"
  shows "well_nested (seen @ parse_rows flat navigation stack rows)"
  using assms
proof (induction flat navigation stack rows arbitrary: seen rule: parse_rows.induct)
  case (2 flat navigation stack row rows)
  let ?raw = "strip row" and ?open = "pop_stack (indent_of row) stack"
  have nil: "opened_by seen []" by (simp add: opened_by_def)
  consider "?raw = []" | "?raw \<noteq> []" "hd ?raw \<in> {CHR ''!'', CHR ''#''}"
    | "?raw \<noteq> []" "hd ?raw \<notin> {CHR ''!'', CHR ''#''}" flat
    | "?raw \<noteq> []" "hd ?raw \<notin> {CHR ''!'', CHR ''#''}" "\<not> flat" "navigates (first_word ?raw) navigation"
    | "?raw \<noteq> []" "hd ?raw \<notin> {CHR ''!'', CHR ''#''}" "\<not> flat" "\<not> navigates (first_word ?raw) navigation"
    by blast
  then show ?case
  proof cases
    case 1
    with 2 show ?thesis by simp
  next
    case 2
    with "2.IH"(2) [where seen = seen] "2.prems" nil show ?thesis by (auto simp: Let_def)
  next
    case 3
    define l where "l = \<lparr>path_of = [], text_of = normalize ?raw, raw_of = ?raw\<rparr>"
    have "well_nested (seen @ [l])"
      using "2.prems"(1) nil by (rule well_nested_snoc) (simp add: l_def)
    with 3 "2.IH"(3) [where seen = "seen @ [l]"] "2.prems" show ?thesis
      by (simp add: Let_def l_def opened_by_mono)
  next
    case 4
    with "2.IH"(4) [where seen = seen] "2.prems" show ?thesis by (simp add: Let_def opened_by_pop)
  next
    case 5
    define l where "l = \<lparr>path_of = map snd ?open, text_of = normalize ?raw, raw_of = ?raw\<rparr>"
    have w: "well_nested (seen @ [l])"
      using "2.prems"(1) opened_by_pop [OF "2.prems"(2)] by (rule well_nested_snoc) (simp add: l_def)
    have "opened_by (seen @ [l]) (?open @ [(indent_of row, normalize ?raw)])"
      by (rule opened_by_push [where l = l])
        (use "2.prems" in \<open>auto simp: l_def opened_by_mono opened_by_pop\<close>)
    with 5 "2.IH"(5) [where seen = "seen @ [l]"] w show ?thesis
      by (simp add: Let_def l_def)
  qed
qed simp

lemma parse_well_nested: "well_nested (parse config flat navigation)"
  using parse_rows_nested [of "[]" "[]" flat navigation "splitlines config"]
  by (simp add: parse_def well_nested_def opened_by_def)

section \<open>Specification: the section tree\<close>

text \<open>A configuration as a tree: each setting with the settings under it; printed with each
  level indented \<open>w\<close> columns further.\<close>

datatype config_tree = Section string "config_tree list"

fun print_rows :: "nat \<Rightarrow> nat \<Rightarrow> config_tree list \<Rightarrow> string list" where
  "print_rows w d [] = []"
| "print_rows w d (Section t children # rest) =
     (replicate d (CHR '' '') @ t) # print_rows w (d + w) children @ print_rows w d rest"

fun flatten :: "path \<Rightarrow> config_tree list \<Rightarrow> line list" where
  "flatten p [] = []"
| "flatten p (Section t children # rest) =
     \<lparr>path_of = p, text_of = normalize t, raw_of = t\<rparr>
       # flatten (p @ [normalize t]) children @ flatten p rest"

definition plain_text :: "string list \<Rightarrow> string \<Rightarrow> bool" where
  "plain_text navigation t \<longleftrightarrow>
     t \<noteq> [] \<and> strip t = t \<and> hd t \<notin> {CHR ''!'', CHR ''#''} \<and> \<not> navigates (first_word t) navigation
     \<and> (\<forall>c\<in>set t. \<not> is_break c)"

fun plain_tree :: "string list \<Rightarrow> config_tree list \<Rightarrow> bool" where
  "plain_tree navigation [] = True"
| "plain_tree navigation (Section t children # rest) =
     (plain_text navigation t \<and> plain_tree navigation children \<and> plain_tree navigation rest)"

lemma dropWhile_fixed: "length xs \<le> length (dropWhile p xs) \<Longrightarrow> dropWhile p xs = xs"
  using takeWhile_dropWhile_id [of p xs] by (metis append_self_conv2 le_add2 le_antisym length_0_conv
      length_append add_cancel_left_left length_dropWhile_le)

lemma strip_ends:
  assumes "strip t = t" "t \<noteq> []"
  shows "\<not> is_space (hd t)" "\<not> is_space (last t)"
proof -
  have t: "t = rev (dropWhile is_space (rev (dropWhile is_space t)))"
    using assms(1) by (simp add: strip_def strip_p_def rstrip_p_def lstrip_p_def)
  have "length t \<le> length (dropWhile is_space t)"
    using arg_cong [OF t, of length] length_dropWhile_le [of is_space "rev (dropWhile is_space t)"]
    by simp
  then have l: "dropWhile is_space t = t" by (rule dropWhile_fixed)
  show "\<not> is_space (hd t)" using l assms(2) hd_dropWhile [of is_space t] by metis
  have "dropWhile is_space (rev t) = rev t" using t l by (metis rev_rev_ident)
  then show "\<not> is_space (last t)"
    using assms(2) hd_dropWhile [of is_space "rev t"] by (metis hd_rev rev_is_Nil_conv)
qed

lemma strip_indented:
  assumes "strip t = t" "t \<noteq> []"
  shows "strip (replicate d (CHR '' '') @ t) = t"
    and "indent_of (replicate d (CHR '' '') @ t) = d"
proof -
  have l: "lstrip_p is_space (replicate d (CHR '' '') @ t) = t"
    using strip_ends(1) [OF assms] assms(2)
    by (cases t) (auto simp: lstrip_p_def dropWhile_append)
  have "lstrip_p is_space t = t"
    using strip_ends(1) [OF assms] assms(2) by (cases t) (auto simp: lstrip_p_def)
  then show "strip (replicate d (CHR '' '') @ t) = t"
    using l assms(1) by (simp add: strip_def strip_p_def)
  show "indent_of (replicate d (CHR '' '') @ t) = d" by (simp add: indent_of_def l)
qed

lemma pop_stack_idem [simp]: "pop_stack d (pop_stack d stack) = pop_stack d stack"
  by (simp add: pop_stack_def)

lemma pop_stack_weaker:
  assumes "d \<le> e"
  shows "pop_stack d (pop_stack e stack) = pop_stack d stack"
proof -
  have "dropWhile (\<lambda>x. d \<le> fst x) (dropWhile (\<lambda>x. e \<le> fst x) s) = dropWhile (\<lambda>x. d \<le> fst x) s"
    for s :: "(nat \<times> string) list"
    using assms by (induction s) auto
  then show ?thesis by (simp add: pop_stack_def)
qed

lemma pop_stack_push:
  "d < e \<Longrightarrow> pop_stack e (stack @ [(d, t)]) = stack @ [(d, t)]"
  "pop_stack d (stack @ [(d, t)]) = pop_stack d stack"
  by (simp_all add: pop_stack_def)

lemma parse_print_rows:
  assumes "plain_tree navigation forest" "0 < w" "pop_stack d stack = open_stack"
  shows "\<exists>stack'. parse_rows False navigation stack (print_rows w d forest @ rows) =
           flatten (map snd open_stack) forest @ parse_rows False navigation stack' rows
           \<and> pop_stack d stack' = open_stack"
  using assms
proof (induction w d forest arbitrary: stack open_stack rows rule: print_rows.induct)
  case (2 w d t children rest)
  let ?row = "replicate d (CHR '' '') @ t" and ?pushed = "open_stack @ [(d, normalize t)]"
  from "2.prems"(1) have t: "plain_text navigation t" and c: "plain_tree navigation children"
    and r: "plain_tree navigation rest" by auto
  have s: "strip ?row = t" "indent_of ?row = d"
    using t strip_indented by (auto simp: plain_text_def)
  have first: "parse_rows False navigation stack (?row # extra) =
      \<lparr>path_of = map snd open_stack, text_of = normalize t, raw_of = t\<rparr>
        # parse_rows False navigation ?pushed extra" for extra
    using t "2.prems"(3) s by (auto simp: Let_def plain_text_def)
  have "pop_stack (d + w) ?pushed = ?pushed" using "2.prems"(2) by (simp add: pop_stack_push)
  from "2.IH"(1) [OF c "2.prems"(2) this, of "print_rows w d rest @ rows"]
  obtain st1 where one: "parse_rows False navigation ?pushed
        (print_rows w (d + w) children @ print_rows w d rest @ rows) =
      flatten (map snd ?pushed) children @ parse_rows False navigation st1 (print_rows w d rest @ rows)"
    and p1: "pop_stack (d + w) st1 = ?pushed" by auto
  have "pop_stack d st1 = pop_stack d ?pushed"
    using p1 pop_stack_weaker [of d "d + w" st1] by simp
  also have "\<dots> = open_stack" using "2.prems"(3) by (auto simp: pop_stack_push)
  finally have "pop_stack d st1 = open_stack" .
  from "2.IH"(2) [OF r "2.prems"(2) this, of rows]
  obtain st2 where two: "parse_rows False navigation st1 (print_rows w d rest @ rows) =
      flatten (map snd open_stack) rest @ parse_rows False navigation st2 rows"
    and p2: "pop_stack d st2 = open_stack" by blast
  show ?case using first [of "print_rows w (d + w) children @ print_rows w d rest @ rows"] one two p2
    by auto
qed auto

lemma print_rows_plain:
  "plain_tree navigation forest \<Longrightarrow> row \<in> set (print_rows w d forest)
     \<Longrightarrow> row \<noteq> [] \<and> (\<forall>c\<in>set row. \<not> is_break c)"
  by (induction w d forest rule: print_rows.induct)
    (auto simp: plain_text_def is_break_def code_point_def)

lemma splitlines_one:
  assumes "row \<noteq> []" "\<forall>c\<in>set row. \<not> is_break c"
  shows "splitlines row = [row]" "splitlines (row @ newline # s) = row # splitlines s"
proof -
  have d: "dropWhile (\<lambda>x. \<not> is_break x) row = []" using assms by (simp add: dropWhile_eq_Nil_conv)
  have nl: "is_break newline" by (simp add: is_break_def newline_def code_point_def)
  show "splitlines row = [row]"
    using assms(1) splitlines.simps(2) [of "hd row" "tl row"] by (simp add: d)
  have d2: "dropWhile (\<lambda>x. \<not> is_break x) (row @ newline # s) = newline # s"
    using assms nl by (simp add: dropWhile_append)
  have t2: "takeWhile (\<lambda>x. \<not> is_break x) (row @ newline # s) = row"
    using assms nl by (simp add: takeWhile_append)
  obtain c cs where row: "row = c # cs" using assms(1) by (cases row) auto
  have "splitlines (c # (cs @ newline # s)) = row # splitlines s"
    by (subst splitlines.simps(2), subst append_Cons [symmetric], subst row [symmetric],
        subst d2, subst append_Cons [symmetric], subst row [symmetric], subst t2)
      (simp add: newline_def)
  then show "splitlines (row @ newline # s) = row # splitlines s" using row by simp
qed

lemma splitlines_join:
  assumes "\<forall>row\<in>set rows. row \<noteq> [] \<and> (\<forall>c\<in>set row. \<not> is_break c)"
  shows "splitlines (join [newline] rows) = rows"
  using assms by (induction "[newline]" rows rule: join.induct) (auto simp: splitlines_one)

text \<open>Reading back a printed section tree gives its settings in order, each under the headers
  above it.\<close>

lemma parse_print:
  assumes "plain_tree navigation forest" "0 < w"
  shows "parse (join [newline] (print_rows w 0 forest)) False navigation = flatten [] forest"
proof -
  have "pop_stack 0 [] = []" by (simp add: pop_stack_def)
  from parse_print_rows [OF assms this, of "[]"] show ?thesis
    using splitlines_join [of "print_rows w 0 forest"] print_rows_plain [OF assms(1)]
    by (auto simp: parse_def)
qed

end
