(* ===== verification/Evidence_Diff.thy ===== *)
theory Evidence_Diff
  imports Evidence_Parse
begin

text \<open>
  \<open>src/rollout/evidence.py\<close>: two snapshots of one configuration compared (\<open>compare\<close>), and the
  device's own churn learned from two snapshots with nothing pushed in between (\<open>noise\<close>). The
  specification of \<open>compare\<close> is the difference of the two multisets of lines; that of
  \<open>noise\<close> is that it explains every change between the two snapshots it is learned from.
\<close>

section \<open>Comparing two snapshots\<close>

record diff =
  added_lines :: "line list"
  removed_lines :: "line list"
  unchanged_lines :: "line list"

text \<open>One loop of \<open>compare\<close>: \<open>stock\<close> is the \<open>Counter\<close>; a line still in stock is used up and
  known, any other is new.\<close>

fun take_known :: "(path \<times> string) multiset \<Rightarrow> line list \<Rightarrow> line list \<times> line list" where
  "take_known stock [] = ([], [])"
| "take_known stock (l # ls) =
     (if key l \<in># stock
      then (let (known, fresh) = take_known (stock - {#key l#}) ls in (l # known, fresh))
      else (let (known, fresh) = take_known stock ls in (known, l # fresh)))"

definition compare :: "line list \<Rightarrow> line list \<Rightarrow> diff" where
  "compare prior after =
     (let (unchanged, added) = take_known (mset (map key prior)) after;
          removed = snd (take_known (mset (map key unchanged)) prior)
      in \<lparr>added_lines = added, removed_lines = removed, unchanged_lines = unchanged\<rparr>)"

section \<open>The device's own churn\<close>

type_synonym noise = "(path \<times> string list) list"

fun common_prefix :: "string list \<Rightarrow> string list \<Rightarrow> string list" where
  "common_prefix (x # a) (y # b) = (if x \<noteq> y then [] else x # common_prefix a b)"
| "common_prefix _ _ = []"

definition is_noise :: "line \<Rightarrow> noise \<Rightarrow> bool" where
  "is_noise l churn \<longleftrightarrow>
     list_ex (\<lambda>(p, lead). path_of l = p \<and> take (length lead) (line_words l) = lead) churn"

text \<open>The inner loop for one line that is gone: the longest start it shares with a new line of
  its section.\<close>

fun best_lead :: "line \<Rightarrow> string list \<Rightarrow> nat \<Rightarrow> line list \<Rightarrow> string list" where
  "best_lead gone best longest [] = best"
| "best_lead gone best longest (new # news) =
     (if path_of new \<noteq> path_of gone then best_lead gone best longest news
      else let common = common_prefix (line_words gone) (line_words new) in
        if longest < length common then best_lead gone common (length common) news
        else best_lead gone best longest news)"

fun noise_gone :: "line list \<Rightarrow> line list \<Rightarrow> noise \<Rightarrow> noise" where
  "noise_gone [] news found = found"
| "noise_gone (gone # rest) news found =
     noise_gone rest news
       (List.insert (path_of gone, best_lead gone (line_words gone) 0 news) found)"

fun noise_new :: "line list \<Rightarrow> noise \<Rightarrow> noise" where
  "noise_new [] found = found"
| "noise_new (new # news) found =
     noise_new news
       (if is_noise new found then found else List.insert (path_of new, line_words new) found)"

definition noise :: "line list \<Rightarrow> line list \<Rightarrow> noise" where
  "noise after again =
     (let d = compare after again
      in noise_new (added_lines d) (noise_gone (removed_lines d) (added_lines d) []))"

section \<open>The comparison is the multiset difference\<close>

lemma take_known_mset:
  assumes "take_known stock ls = (known, fresh)"
  shows "mset known + mset fresh = mset ls"
    and "mset (map key known) = stock \<inter># mset (map key ls)"
    and "mset (map key fresh) = mset (map key ls) - stock"
proof -
  have "mset known + mset fresh = mset ls \<and> mset (map key known) = stock \<inter># mset (map key ls)
      \<and> mset (map key fresh) = mset (map key ls) - stock"
    using assms
  proof (induction stock ls arbitrary: known fresh rule: take_known.induct)
    case (2 stock l ls)
    show ?case
    proof (cases "key l \<in># stock")
      case True
      then obtain s where s: "stock = add_mset (key l) s" by (metis multi_member_split)
      obtain k f where kf: "take_known (stock - {#key l#}) ls = (k, f)" by fastforce
      with "2.prems" True have e: "known = l # k" "fresh = f" by auto
      from "2.IH"(1) [OF True kf] s have
        "mset k + mset f = mset ls" "mset (map key k) = s \<inter># mset (map key ls)"
        "mset (map key f) = mset (map key ls) - s" by auto
      then show ?thesis using e s by simp
    next
      case False
      obtain k f where kf: "take_known stock ls = (k, f)" by fastforce
      with "2.prems" False have e: "known = k" "fresh = l # f" by auto
      from "2.IH"(2) [OF False kf] have
        "mset k + mset f = mset ls" "mset (map key k) = stock \<inter># mset (map key ls)"
        "mset (map key f) = mset (map key ls) - stock" by auto
      then show ?thesis using e False
        by (auto simp: inter_add_right1 multiset_eq_iff not_in_iff)
    qed
  qed simp
  then show "mset known + mset fresh = mset ls"
    "mset (map key known) = stock \<inter># mset (map key ls)"
    "mset (map key fresh) = mset (map key ls) - stock" by blast+
qed

lemma take_known_subseq:
  "take_known stock ls = (known, fresh) \<Longrightarrow> subseq known ls \<and> subseq fresh ls"
  by (induction stock ls arbitrary: known fresh rule: take_known.induct)
    (auto split: if_splits prod.splits)

lemma compare_mset:
  shows "mset (map key (unchanged_lines (compare prior after))) =
           mset (map key prior) \<inter># mset (map key after)"
    and "mset (map key (added_lines (compare prior after))) =
           mset (map key after) - mset (map key prior)"
    and "mset (map key (removed_lines (compare prior after))) =
           mset (map key prior) - mset (map key after)"
proof -
  obtain u a where ua: "take_known (mset (map key prior)) after = (u, a)" by fastforce
  obtain x r where xr: "take_known (mset (map key u)) prior = (x, r)" by fastforce
  have c: "compare prior after =
      \<lparr>added_lines = a, removed_lines = r, unchanged_lines = u\<rparr>"
    by (simp add: compare_def ua xr del: mset_map)
  note u = take_known_mset [OF ua] and r = take_known_mset [OF xr]
  show "mset (map key (unchanged_lines (compare prior after))) =
      mset (map key prior) \<inter># mset (map key after)"
    using u(2) by (simp add: c)
  show "mset (map key (added_lines (compare prior after))) =
      mset (map key after) - mset (map key prior)"
    using u(3) by (simp add: c)
  show "mset (map key (removed_lines (compare prior after))) =
      mset (map key prior) - mset (map key after)"
    using r(3) u(2) by (auto simp: c multiset_eq_iff)
qed

lemma compare_subseq:
  shows "subseq (unchanged_lines (compare prior after)) after"
    and "subseq (added_lines (compare prior after)) after"
    and "subseq (removed_lines (compare prior after)) prior"
  by (auto simp: compare_def split: prod.splits dest: take_known_subseq)
    (metis take_known_subseq prod.collapse)

lemma compare_partition:
  shows "mset (unchanged_lines (compare prior after)) + mset (added_lines (compare prior after)) =
           mset after"
  by (auto simp: compare_def split: prod.splits dest: take_known_mset(1))

lemma compare_sets:
  shows "set (added_lines (compare prior after)) \<subseteq> set after"
    and "set (unchanged_lines (compare prior after)) \<subseteq> set after"
    and "set (removed_lines (compare prior after)) \<subseteq> set prior"
  using compare_subseq [of prior after] by (auto dest: list_emb_set)

text \<open>A setting of the configuration is added or removed, never both.\<close>

lemma compare_disjoint:
  assumes "a \<in> set (added_lines (compare prior after))" "r \<in> set (removed_lines (compare prior after))"
  shows "key a \<noteq> key r"
proof
  assume k: "key a = key r"
  have "key a \<in># mset (map key (added_lines (compare prior after)))" using assms(1) by auto
  then have 1: "count (mset (map key prior)) (key a) < count (mset (map key after)) (key a)"
    by (simp only: compare_mset in_diff_count)
  have "key a \<in># mset (map key (removed_lines (compare prior after)))" using assms(2) k by auto
  then have "count (mset (map key after)) (key a) < count (mset (map key prior)) (key a)"
    by (simp only: compare_mset in_diff_count)
  with 1 show False by simp
qed

lemma compare_same:
  assumes "mset (map key prior) = mset (map key after)"
  shows "added_lines (compare prior after) = []" "removed_lines (compare prior after) = []"
proof -
  have "mset (map key (added_lines (compare prior after))) = {#}"
    "mset (map key (removed_lines (compare prior after))) = {#}"
    using assms by (simp_all only: compare_mset) simp_all
  then show "added_lines (compare prior after) = []" "removed_lines (compare prior after) = []"
    by simp_all
qed

section \<open>Churn is explained\<close>

lemma common_prefix_prefix:
  "prefix (common_prefix a b) a" "prefix (common_prefix a b) b"
  by (induction a b rule: common_prefix.induct) auto

lemma common_prefix_greatest: "prefix p a \<Longrightarrow> prefix p b \<Longrightarrow> prefix p (common_prefix a b)"
  by (induction a b arbitrary: p rule: common_prefix.induct)
    (auto simp: prefix_Cons split: list.splits)

lemma take_length_iff_prefix: "take (length xs) ys = xs \<longleftrightarrow> prefix xs ys"
  by (metis append_eq_conv_conj prefix_def take_is_prefix)

lemma is_noise_iff:
  "is_noise l churn \<longleftrightarrow> (\<exists>lead. (path_of l, lead) \<in> set churn \<and> prefix lead (line_words l))"
  by (auto simp: is_noise_def list_ex_iff take_length_iff_prefix)

lemma is_noise_mono: "is_noise l churn \<Longrightarrow> set churn \<subseteq> set churn' \<Longrightarrow> is_noise l churn'"
  by (auto simp: is_noise_iff)

lemma best_lead_prefix:
  "prefix best (line_words gone) \<Longrightarrow> prefix (best_lead gone best longest news) (line_words gone)"
  by (induction gone best longest news rule: best_lead.induct)
    (auto simp: Let_def common_prefix_prefix)

lemma noise_gone_mono: "set found \<subseteq> set (noise_gone rest news found)"
  by (induction rest news found rule: noise_gone.induct) auto

lemma noise_gone_explains: "g \<in> set rest \<Longrightarrow> is_noise g (noise_gone rest news found)"
proof (induction rest news found rule: noise_gone.induct)
  case (2 gone rest news found)
  let ?e = "(path_of gone, best_lead gone (line_words gone) 0 news)"
  have "is_noise gone (List.insert ?e found)"
    by (auto simp: is_noise_iff intro!: exI best_lead_prefix)
  then have "is_noise gone (noise_gone rest news (List.insert ?e found))"
    using noise_gone_mono by (rule is_noise_mono)
  with 2 show ?case by auto
qed simp

lemma noise_new_mono: "set found \<subseteq> set (noise_new news found)"
  by (induction news found rule: noise_new.induct) auto

lemma noise_new_explains: "n \<in> set news \<Longrightarrow> is_noise n (noise_new news found)"
proof (induction news found rule: noise_new.induct)
  case (2 new news found)
  let ?f = "if is_noise new found then found else List.insert (path_of new, line_words new) found"
  have "is_noise new ?f" by (auto simp: is_noise_iff)
  then have "is_noise new (noise_new news ?f)" using noise_new_mono by (rule is_noise_mono)
  with 2 show ?case by auto
qed simp

lemma noise_explains:
  assumes "l \<in> set (added_lines (compare after again)) \<union> set (removed_lines (compare after again))"
  shows "is_noise l (noise after again)"
  using assms noise_new_explains noise_gone_explains is_noise_mono [OF _ noise_new_mono]
  by (auto simp: noise_def Let_def)

end
