(* ===== verification/Evidence_Judge.thy ===== *)
theory Evidence_Judge
  imports Evidence_Diff
begin

text \<open>
  \<open>src/rollout/evidence.py\<close>: the judge. The commands as judged (\<open>_typed\<close>), the passes of
  \<open>_Judge.run\<close> over an explicit state (the claims, the section being judged, the commands in
  review), and \<open>judge\<close>. The theory \<open>Judge_Soundness\<close> proves what a verdict may claim.
\<close>

section \<open>Results\<close>

record judgement =
  j_command :: string
  j_verdict :: verdict
  j_evidence :: "string list"
  j_note :: string
  j_section :: "path option"

record change =
  c_sign :: string
  c_line :: string
  c_section :: string
  c_by :: "nat list"
  c_device :: bool
  c_review :: "nat list"

record outcome =
  o_commands :: "judgement list"
  o_other :: "string list"
  o_added :: "(path \<times> string) list"
  o_removed :: "(path \<times> string) list"
  o_changes :: "change list"

definition needs_review :: "outcome \<Rightarrow> bool" where
  "needs_review out \<longleftrightarrow> list_ex (\<lambda>j. j_verdict j = Review) (o_commands out)"

definition rejected :: "outcome \<Rightarrow> bool" where
  "rejected out \<longleftrightarrow> list_ex (\<lambda>j. j_verdict j = Rejected) (o_commands out)"

fun unproven_from :: "path list \<Rightarrow> judgement list \<Rightarrow> path list" where
  "unproven_from sections [] = sections"
| "unproven_from sections (j # js) =
     unproven_from
       (case j_section j of
          Some s \<Rightarrow> if j_verdict j \<in> {Review, Rejected} \<and> s \<notin> set sections
                    then sections @ [s] else sections
        | None \<Rightarrow> sections) js"

definition unproven :: "outcome \<Rightarrow> path list" where
  "unproven out = unproven_from [] (o_commands out)"

definition conflict_note :: string where
  "conflict_note = ''the same change matches another command too''"

definition unproven_note :: string where
  "unproven_note = ''not proven by the configuration''"

section \<open>The commands as judged\<close>

record typed =
  t_sent :: string
  t_words :: "string list"
  t_nav :: bool
  t_exec :: bool

fun typed_from ::
    "bool \<Rightarrow> string list \<Rightarrow> string list \<Rightarrow> string list list option \<Rightarrow> string list \<Rightarrow> typed list" where
  "typed_from flat exec_words navigation prefix_path [] = []"
| "typed_from flat exec_words navigation prefix_path (command # rest_commands) =
     (let ws = words command;
          word = (case ws of [] \<Rightarrow> [] | w # _ \<Rightarrow> w);
          entry = (\<lambda>ws nav. \<lparr>t_sent = command, t_words = ws, t_nav = nav, t_exec = False\<rparr>);
          continue = (\<lambda>p. typed_from flat exec_words navigation p rest_commands)
      in
      if word \<noteq> [] \<and> word \<in> set exec_words then
        \<lparr>t_sent = command, t_words = ws, t_nav = False, t_exec = True\<rparr> # continue prefix_path
      else if \<not> flat \<or> ws = [] then
        entry ws (ws = [] \<or> navigates word navigation) # continue prefix_path
      else if word \<in> {''top'', ''up''} \<and> 1 < length ws
          \<and> \<not> (word = ''up'' \<and> length ws = 2 \<and> is_digits (ws ! 1)) then
        (let rest = (if word = ''up'' \<and> is_digits (ws ! 1) then drop 2 ws else drop 1 ws)
         in entry rest (rest = []) # continue prefix_path)
      else if word = ''edit'' then
        entry ws True # continue (map_option (\<lambda>p. p @ [drop 1 ws]) prefix_path)
      else if word \<in> {''top'', ''end''} then entry ws True # continue (Some [])
      else if word = ''up'' then entry ws True # continue None
      else if navigates word navigation then
        entry ws True # continue (map_option butlast prefix_path)
      else if word \<in> {''set'', ''delete''} then
        entry (word # (case prefix_path of Some p \<Rightarrow> concat p | None \<Rightarrow> []) @ drop 1 ws) False
          # continue prefix_path
      else entry ws False # continue prefix_path)"

definition typed_commands :: "string list \<Rightarrow> bool \<Rightarrow> string list \<Rightarrow> string list \<Rightarrow> typed list" where
  "typed_commands commands flat exec_words navigation =
     typed_from flat exec_words navigation (Some []) commands"

section \<open>The judge's data\<close>

text \<open>What \<open>_Judge.__init__\<close> fixes for the run, and what the run changes.\<close>

record judge_env =
  e_negation :: "string list"
  e_replied :: "bool list"
  e_view :: "line list"
  e_added :: "line list"
  e_removed :: "line list"
  e_churned :: "(string \<times> line) list"
  e_unchanged :: "line list"
  e_both :: "line list"
  e_blocks :: bool
  e_sections :: "path list"
  e_raw :: "(path \<times> string) list"

type_synonym claims = "(nat \<times> nat list) list"

record judge_state =
  s_added :: claims
  s_removed :: claims
  s_context :: "path option"
  s_reviews :: "(nat \<times> path option) list"
  s_ev_added :: claims
  s_ev_removed :: claims

definition judge_env_of ::
    "line list \<Rightarrow> line list \<Rightarrow> noise \<Rightarrow> bool \<Rightarrow> bool list \<Rightarrow> line list \<Rightarrow> string list \<Rightarrow> judge_env" where
  "judge_env_of prior after churn blocks replied view negation =
     (let d = compare prior after; both = prior @ after in
      \<lparr>e_negation = negation, e_replied = replied, e_view = view,
       e_added = filter (\<lambda>l. \<not> is_noise l churn) (added_lines d),
       e_removed = filter (\<lambda>l. \<not> is_noise l churn) (removed_lines d),
       e_churned = map (Pair ''+'') (filter (\<lambda>l. is_noise l churn) (added_lines d))
                 @ map (Pair ''-'') (filter (\<lambda>l. is_noise l churn) (removed_lines d)),
       e_unchanged = unchanged_lines d, e_both = both, e_blocks = blocks,
       e_sections = map path_of (both @ view),
       e_raw = rev (map (\<lambda>l. (inside l, raw_of l)) both)\<rparr>)"

definition judge_start :: judge_state where
  "judge_start = \<lparr>s_added = [], s_removed = [], s_context = Some [], s_reviews = [],
     s_ev_added = [], s_ev_removed = []\<rparr>"

definition claim_added :: "nat \<Rightarrow> nat \<Rightarrow> judge_state \<Rightarrow> judge_state" where
  "claim_added index i st = st\<lparr>s_added := dict_append index i (s_added st)\<rparr>"

definition claim_removed :: "nat \<Rightarrow> nat \<Rightarrow> judge_state \<Rightarrow> judge_state" where
  "claim_removed index i st = st\<lparr>s_removed := dict_append index i (s_removed st)\<rparr>"

definition judged :: "typed \<Rightarrow> verdict \<Rightarrow> string list \<Rightarrow> string \<Rightarrow> judgement" where
  "judged c v ev note =
     \<lparr>j_command = t_sent c, j_verdict = v, j_evidence = ev, j_note = note, j_section = Some []\<rparr>"

section \<open>Where a command is looked for\<close>

definition navigate :: "judge_env \<Rightarrow> typed \<Rightarrow> judge_state \<Rightarrow> judge_state" where
  "navigate env c st =
     (case t_words c of
        [] \<Rightarrow> st
      | word # _ \<Rightarrow>
          if word \<in> {''return'', ''root''} \<or> word = ''end'' \<and> \<not> e_blocks env
          then st\<lparr>s_context := Some []\<rparr>
          else (case s_context st of
                  Some (p # ps) \<Rightarrow> st\<lparr>s_context := Some (butlast (p # ps))\<rparr>
                | _ \<Rightarrow> st))"

definition levels :: "judge_state \<Rightarrow> path option list" where
  "levels st = (case s_context st of
      None \<Rightarrow> [None]
    | Some c \<Rightarrow> map (\<lambda>level. Some (take level c)) (rev [0..<Suc (length c)]))"

definition at_path :: "line \<Rightarrow> path option \<Rightarrow> bool" where
  "at_path l p \<longleftrightarrow> p = None \<or> Some (path_of l) = p"

definition is_header :: "judge_env \<Rightarrow> line \<Rightarrow> bool" where
  "is_header env l \<longleftrightarrow> inside l \<in> set (e_sections env)"

definition enter :: "judge_env \<Rightarrow> line \<Rightarrow> path option \<Rightarrow> judge_state \<Rightarrow> judge_state" where
  "enter env l p st =
     st\<lparr>s_context := Some (if is_header env l then inside l
                           else case p of None \<Rightarrow> path_of l | Some q \<Rightarrow> q)\<rparr>"

definition said :: "judge_env \<Rightarrow> nat \<Rightarrow> bool" where
  "said env i \<longleftrightarrow> i < length (e_replied env) \<and> e_replied env ! i"

datatype found = InAdded nat line "path option" | InUnchanged line "path option"

text \<open>The loop both \<open>_setting\<close> and \<open>_removal\<close> run: level by level, the first added line that
  passes the first test, else the first unchanged line that passes the second.\<close>

fun search_levels ::
    "judge_env \<Rightarrow> (line \<Rightarrow> bool) \<Rightarrow> (line \<Rightarrow> bool) \<Rightarrow> path option list \<Rightarrow> found option" where
  "search_levels env p_added p_unchanged [] = None"
| "search_levels env p_added p_unchanged (p # ps) =
     (case find_index (\<lambda>l. at_path l p \<and> p_added l) (e_added env) of
        Some (index, l) \<Rightarrow> Some (InAdded index l p)
      | None \<Rightarrow>
          (case List.find (\<lambda>l. at_path l p \<and> p_unchanged l) (e_unchanged env) of
             Some l \<Rightarrow> Some (InUnchanged l p)
           | None \<Rightarrow> search_levels env p_added p_unchanged ps))"

fun search_removed ::
    "judge_env \<Rightarrow> (line \<Rightarrow> bool) \<Rightarrow> path option list \<Rightarrow> (nat \<times> line) option" where
  "search_removed env p_removed [] = None"
| "search_removed env p_removed (p # ps) =
     (case find_index (\<lambda>l. at_path l p \<and> p_removed l) (e_removed env) of
        Some found_line \<Rightarrow> Some found_line
      | None \<Rightarrow> search_removed env p_removed ps)"

section \<open>One command\<close>

text \<open>\<open>_review\<close>: the section is named by its headers as the device printed them.\<close>

definition section_names :: "judge_env \<Rightarrow> path \<Rightarrow> path" where
  "section_names env here = map (\<lambda>k. case map_of (e_raw env) (take (Suc k) here) of
      Some r \<Rightarrow> r | None \<Rightarrow> here ! k) [0..<length here]"

definition review :: "judge_env \<Rightarrow> nat \<Rightarrow> typed \<Rightarrow> judge_state \<Rightarrow> judgement \<times> judge_state" where
  "review env i c st =
     (\<lparr>j_command = t_sent c, j_verdict = Review, j_evidence = [], j_note = [],
       j_section = map_option (section_names env) (s_context st)\<rparr>,
      st\<lparr>s_reviews := AList.update i (s_context st) (s_reviews st)\<rparr>)"

definition opens_block :: "judge_env \<Rightarrow> string list \<Rightarrow> judge_state \<Rightarrow> nat \<Rightarrow> line \<Rightarrow> bool" where
  "opens_block env following st index header \<longleftrightarrow>
     index \<notin> fst ` set (s_added st) \<and> at_path header (s_context st) \<and> is_header env header \<and>
     list_ex (\<lambda>l. path_of l = inside header \<and> contains following (line_words l)) (e_added env)"

definition opened_block ::
    "judge_env \<Rightarrow> string list option \<Rightarrow> judge_state \<Rightarrow> (nat \<times> line) option" where
  "opened_block env following st =
     (case following of
        None \<Rightarrow> None
      | Some [] \<Rightarrow> None
      | Some (f # fs) \<Rightarrow>
          List.find (\<lambda>(index, header). opens_block env (f # fs) st index header)
            (enumerate 0 (e_added env)))"

definition negates :: "judge_env \<Rightarrow> string list \<Rightarrow> line \<Rightarrow> bool" where
  "negates env ws l \<longleftrightarrow>
     (case line_words l of [] \<Rightarrow> False | w # rest \<Rightarrow> w \<in> set (e_negation env) \<and> matches ws rest)"

definition setting ::
    "judge_env \<Rightarrow> nat \<Rightarrow> typed \<Rightarrow> string list option \<Rightarrow> judge_state \<Rightarrow> judgement \<times> judge_state" where
  "setting env i c following st =
     (case search_levels env (\<lambda>l. contains (t_words c) (line_words l))
             (\<lambda>l. matches (t_words c) (line_words l)) (levels st) of
        Some (InAdded index l p) \<Rightarrow>
          (judged c TookEffect [''+ '' @ raw_of l] [], enter env l p (claim_added index i st))
      | Some (InUnchanged l p) \<Rightarrow>
          (judged c InPlace [''  '' @ raw_of l] [], enter env l p st)
      | None \<Rightarrow>
          (case search_removed env (negates env (t_words c)) (levels st) of
             Some (index, l) \<Rightarrow>
               (judged c TookEffect [''- '' @ raw_of l] ''its negation was removed'',
                claim_removed index i st)
           | None \<Rightarrow>
               (case opened_block env following st of
                  Some (index, header) \<Rightarrow>
                    (judged c TookEffect [''+ '' @ raw_of header]
                       (''the device named it '' @ py_repr (raw_of header)),
                     (claim_added index i st)\<lparr>s_context := Some (inside header)\<rparr>)
                | None \<Rightarrow> review env i c st)))"

definition absent :: "judge_env \<Rightarrow> string list \<Rightarrow> path option list \<Rightarrow> bool" where
  "absent env target ps \<longleftrightarrow>
     \<not> list_ex (\<lambda>p. list_ex (\<lambda>l. at_path l p \<and> contains target (line_words l)) (e_both env)) ps"

definition removal :: "judge_env \<Rightarrow> nat \<Rightarrow> typed \<Rightarrow> judge_state \<Rightarrow> judgement \<times> judge_state" where
  "removal env i c st =
     (let target = drop 1 (t_words c) in
      case search_removed env (\<lambda>l. contains_by names target (line_words l)) (levels st) of
        Some (index, l) \<Rightarrow> (judged c Removed [''- '' @ raw_of l] [], claim_removed index i st)
      | None \<Rightarrow>
          (case search_levels env (\<lambda>l. contains (t_words c) (line_words l))
                  (\<lambda>l. matches (t_words c) (line_words l)) (levels st) of
             Some (InAdded index l p) \<Rightarrow>
               (judged c TookEffect [''+ '' @ raw_of l] [], claim_added index i st)
           | Some (InUnchanged l p) \<Rightarrow> (judged c InPlace [''  '' @ raw_of l] [], st)
           | None \<Rightarrow>
               if target \<noteq> [] \<and> \<not> said env i \<and> absent env target (levels st)
               then (judged c InPlace [] ''already absent'', st)
               else review env i c st))"

text \<open>The words of the next command that is judged.\<close>

definition next_words :: "typed list \<Rightarrow> string list option" where
  "next_words cs = map_option t_words (List.find (\<lambda>c. \<not> t_nav c \<and> \<not> t_exec c) cs)"

definition starts_removal :: "judge_env \<Rightarrow> typed \<Rightarrow> bool" where
  "starts_removal env c \<longleftrightarrow> (case t_words c of [] \<Rightarrow> False | w # _ \<Rightarrow> w \<in> set (e_negation env))"

definition judge_one ::
    "judge_env \<Rightarrow> nat \<Rightarrow> typed \<Rightarrow> typed list \<Rightarrow> judge_state \<Rightarrow> judgement \<times> judge_state" where
  "judge_one env i c rest st =
     (if t_exec c then (judged c Exec [] [], st)
      else if t_nav c then (judged c Navigation [] [], navigate env c st)
      else if starts_removal env c then removal env i c st
      else setting env i c (next_words rest) st)"

fun judge_loop ::
    "judge_env \<Rightarrow> nat \<Rightarrow> typed list \<Rightarrow> judge_state \<Rightarrow> judgement list \<times> judge_state" where
  "judge_loop env i [] st = ([], st)"
| "judge_loop env i (c # cs) st =
     (let (j, st1) = judge_one env i c cs st; (js, st2) = judge_loop env (Suc i) cs st1
      in (j # js, st2))"

section \<open>The passes over the results\<close>

definition in_review :: "judgement \<Rightarrow> string list \<Rightarrow> string \<Rightarrow> judgement" where
  "in_review j ev note = j\<lparr>j_verdict := Review, j_evidence := ev, j_note := note\<rparr>"

fun mark_conflict :: "string \<Rightarrow> nat list \<Rightarrow> judgement list \<Rightarrow> judgement list" where
  "mark_conflict ev [] js = js"
| "mark_conflict ev (c # cs) js =
     mark_conflict ev cs (js[c := in_review (js ! c) [ev] conflict_note])"

fun conflict_pass :: "string \<Rightarrow> line list \<Rightarrow> claims \<Rightarrow> judgement list \<Rightarrow> judgement list" where
  "conflict_pass sign ls [] js = js"
| "conflict_pass sign ls ((index, claimants) # rest) js =
     conflict_pass sign ls rest
       (if 1 < length (remdups (map (\<lambda>c. normalize (j_command (js ! c))) claimants))
        then mark_conflict (sign @ '' '' @ raw_of (ls ! index)) claimants js else js)"

definition conflicts :: "judge_env \<Rightarrow> judge_state \<Rightarrow> judgement list \<Rightarrow> judgement list" where
  "conflicts env st js =
     conflict_pass ''-'' (e_removed env) (s_removed st)
       (conflict_pass ''+'' (e_added env) (s_added st) js)"

fun defaults_pass ::
    "judge_env \<Rightarrow> typed list \<Rightarrow> (nat \<times> path option) list
      \<Rightarrow> judgement list \<times> judge_state \<Rightarrow> judgement list \<times> judge_state" where
  "defaults_pass env cs [] (js, st) = (js, st)"
| "defaults_pass env cs ((i, p) # rest) (js, st) =
     (case p of
        None \<Rightarrow> defaults_pass env cs rest (js, st)
      | Some q \<Rightarrow>
          if j_note (js ! i) = conflict_note then defaults_pass env cs rest (js, st)
          else
            (case List.find (\<lambda>l. path_of l = q \<and> matches (t_words (cs ! i)) (line_words l))
                    (e_view env) of
               None \<Rightarrow> defaults_pass env cs rest (js, st)
             | Some l \<Rightarrow>
                 defaults_pass env cs rest
                   (js[i := \<lparr>j_command = j_command (js ! i), j_verdict = InPlace,
                       j_evidence = [''  '' @ raw_of l],
                       j_note = ''shown with the device's defaults'', j_section = Some []\<rparr>],
                    st\<lparr>s_reviews := AList.delete i (s_reviews st)\<rparr>)))"

text \<open>\<open>_replaced_by\<close>: the commands whose added line took the place of this removed one.\<close>

definition replaced_by :: "judge_env \<Rightarrow> judge_state \<Rightarrow> line \<Rightarrow> nat list" where
  "replaced_by env st gone =
     remdups (concat (map (\<lambda>(index, who).
       let new = e_added env ! index; common = common_prefix (line_words gone) (line_words new)
       in if path_of new = path_of gone \<and> (2 \<le> length common \<or> common = line_words gone)
          then who else []) (s_added st)))"

definition free_added :: "judge_env \<Rightarrow> judge_state \<Rightarrow> nat list" where
  "free_added env st = filter (\<lambda>i. i \<notin> fst ` set (s_added st)) [0..<length (e_added env)]"

definition free_removed :: "judge_env \<Rightarrow> judge_state \<Rightarrow> nat list" where
  "free_removed env st =
     filter (\<lambda>i. i \<notin> fst ` set (s_removed st) \<and> replaced_by env st (e_removed env ! i) = [])
       [0..<length (e_removed env)]"

definition shown :: "line list \<Rightarrow> nat list \<Rightarrow> path option \<Rightarrow> nat list" where
  "shown ls free p = take 10 (filter (\<lambda>a. at_path (ls ! a) p) free)"

definition evidence_lines :: "judge_env \<Rightarrow> nat list \<Rightarrow> nat list \<Rightarrow> string list" where
  "evidence_lines env added removed =
     map (\<lambda>a. ''+ '' @ raw_of (e_added env ! a)) added
     @ map (\<lambda>r. ''- '' @ raw_of (e_removed env ! r)) removed"

fun evidence_pass ::
    "judge_env \<Rightarrow> nat list \<Rightarrow> nat list \<Rightarrow> (nat \<times> path option) list
      \<Rightarrow> judgement list \<times> judge_state \<Rightarrow> judgement list \<times> judge_state" where
  "evidence_pass env free_a free_r [] (js, st) = (js, st)"
| "evidence_pass env free_a free_r ((i, p) # rest) (js, st) =
     (let a = shown (e_added env) free_a p; r = shown (e_removed env) free_r p;
          lines = evidence_lines env a r
      in evidence_pass env free_a free_r rest
           (js[i := in_review (js ! i) lines (if lines = [] then ''no change in its section'' else [])],
            st\<lparr>s_ev_added := fold (\<lambda>x. dict_append x i) a (s_ev_added st),
               s_ev_removed := fold (\<lambda>x. dict_append x i) r (s_ev_removed st)\<rparr>))"

definition review_evidence ::
    "judge_env \<Rightarrow> judgement list \<times> judge_state \<Rightarrow> judgement list \<times> judge_state" where
  "review_evidence env r =
     evidence_pass env (free_added env (snd r)) (free_removed env (snd r)) (s_reviews (snd r)) r"

definition reject :: "string \<Rightarrow> judgement \<Rightarrow> judgement" where
  "reject note j =
     (if j_verdict j = Review then j\<lparr>j_verdict := Rejected, j_note := note\<rparr> else j)"

definition own_reply_pass :: "judge_env \<Rightarrow> judgement list \<Rightarrow> judgement list" where
  "own_reply_pass env js =
     map (\<lambda>(i, j). if said env i then reject unproven_note j else j) (enumerate 0 js)"

definition closing_note :: "typed \<Rightarrow> string" where
  "closing_note c = unproven_note @ ''; the device replied when its block closed ('' @ [squote]
     @ strip (t_sent c) @ [squote] @ '')''"

text \<open>The replies to the commands that closed a block: \<open>start\<close> is the first command since the
  previous closing one.\<close>

fun closing_reply_pass :: "judge_env \<Rightarrow> nat \<Rightarrow> nat \<Rightarrow> typed list \<Rightarrow> judgement list \<Rightarrow> judgement list" where
  "closing_reply_pass env start k [] js = js"
| "closing_reply_pass env start k (c # cs) js =
     (if \<not> t_nav c then closing_reply_pass env start (Suc k) cs js
      else closing_reply_pass env (Suc k) (Suc k) cs
        (if said env k
         then map (\<lambda>(i, j). if start \<le> i \<and> i < k then reject (closing_note c) j else j) (enumerate 0 js)
         else js))"

definition replied_pass :: "judge_env \<Rightarrow> typed list \<Rightarrow> judgement list \<Rightarrow> judgement list" where
  "replied_pass env cs js = closing_reply_pass env 0 0 cs (own_reply_pass env js)"

section \<open>The changes and who made them\<close>

definition where_text :: "line \<Rightarrow> string" where
  "where_text l = (if path_of l = [] then [] else join '' > '' (path_of l) @ '' > '')"

text \<open>The blocks the commands opened or removed, with the commands (the source merges equal
  blocks in a dict; only their union is read).\<close>

definition owners :: "judge_env \<Rightarrow> judge_state \<Rightarrow> (path \<times> nat list) list" where
  "owners env st =
     map (\<lambda>(index, who). (inside (e_added env ! index), who)) (s_added st)
     @ map (\<lambda>(index, who). (inside (e_removed env ! index), who)) (s_removed st)"

definition by_block :: "judge_env \<Rightarrow> judge_state \<Rightarrow> line \<Rightarrow> nat list" where
  "by_block env st l =
     concat (map snd (filter (\<lambda>(block, who). take (length block) (path_of l) = block) (owners env st)))"

definition first_claimed :: "nat list list \<Rightarrow> nat list" where
  "first_claimed groups =
     (case filter (\<lambda>g. g \<noteq> []) groups of [] \<Rightarrow> [] | g # _ \<Rightarrow> sort (remdups g))"

definition changes :: "judge_env \<Rightarrow> judge_state \<Rightarrow> change list" where
  "changes env st =
     map (\<lambda>(index, l). \<lparr>c_sign = ''+'', c_line = raw_of l, c_section = where_text l,
            c_by = first_claimed [dict_get (s_added st) index, by_block env st l],
            c_device = False, c_review = dict_get (s_ev_added st) index\<rparr>)
       (enumerate 0 (e_added env))
     @ map (\<lambda>(index, l). \<lparr>c_sign = ''-'', c_line = raw_of l, c_section = where_text l,
            c_by = first_claimed [dict_get (s_removed st) index, by_block env st l,
                                  replaced_by env st l],
            c_device = False, c_review = dict_get (s_ev_removed st) index\<rparr>)
       (enumerate 0 (e_removed env))
     @ map (\<lambda>(sign, l). \<lparr>c_sign = sign, c_line = raw_of l, c_section = where_text l,
            c_by = [], c_device = True, c_review = []\<rparr>) (e_churned env)"

section \<open>The judge\<close>

definition judge_passes :: "judge_env \<Rightarrow> typed list \<Rightarrow> judgement list \<times> judge_state" where
  "judge_passes env cs =
     (let (js0, st0) = judge_loop env 0 cs judge_start;
          js1 = conflicts env st0 js0;
          r2 = (if e_view env = [] then (js1, st0) else defaults_pass env cs (s_reviews st0) (js1, st0));
          (js3, st3) = review_evidence env r2
      in (replied_pass env cs js3, st3))"

definition run_judge :: "judge_env \<Rightarrow> typed list \<Rightarrow> outcome" where
  "run_judge env cs =
     (let (js, st) = judge_passes env cs; cg = changes env st in
      \<lparr>o_commands = js,
       o_other = map (\<lambda>c. c_sign c @ '' '' @ c_section c @ c_line c)
                   (filter (\<lambda>c. c_by c = [] \<and> \<not> c_device c) cg),
       o_added = map (\<lambda>(i, _). key (e_added env ! i)) (s_added st),
       o_removed = map (\<lambda>(i, _). key (e_removed env ! i)) (s_removed st),
       o_changes = cg\<rparr>)"

text \<open>The judge's grammar arguments (\<open>Platform.grammar\<close>).\<close>

record grammar =
  g_flat :: bool
  g_blocks :: bool
  g_exec_words :: "string list"
  g_navigation :: "string list"
  g_negation :: "string list"

definition plain_grammar :: grammar where
  "plain_grammar = \<lparr>g_flat = False, g_blocks = False, g_exec_words = [],
     g_navigation = all_navigation, g_negation = all_negation\<rparr>"

text \<open>What \<open>judge\<close> reads from its arguments.\<close>

definition judge_env_for ::
    "grammar \<Rightarrow> string \<Rightarrow> string \<Rightarrow> string option \<Rightarrow> bool list \<Rightarrow> string option \<Rightarrow> judge_env" where
  "judge_env_for g prior after again replied defaults =
     (let read = (\<lambda>config. parse config (g_flat g) (g_navigation g));
          b = read prior; a = read after;
          churn = (case again of None \<Rightarrow> [] | Some x \<Rightarrow> noise a (read x));
          view = (case defaults of None \<Rightarrow> [] | Some d \<Rightarrow> if d = [] then [] else read d)
      in judge_env_of b a churn (g_blocks g) replied view (g_negation g))"

definition typed_for :: "grammar \<Rightarrow> string list \<Rightarrow> typed list" where
  "typed_for g commands = typed_commands commands (g_flat g) (g_exec_words g) (g_navigation g)"

definition judge ::
    "grammar \<Rightarrow> string list \<Rightarrow> string \<Rightarrow> string \<Rightarrow> string option \<Rightarrow> bool list \<Rightarrow> string option \<Rightarrow> outcome" where
  "judge g commands prior after again replied defaults =
     run_judge (judge_env_for g prior after again replied defaults) (typed_for g commands)"

end
