(* ===== verification/Judge_Soundness.thy ===== *)
theory Judge_Soundness
  imports Evidence_Judge
begin

text \<open>
  What a verdict of \<open>judge\<close> (\<open>src/rollout/evidence.py\<close>) may claim. \<open>justified\<close> is the
  specification: a verdict together with the device's lines that prove it, found in the section
  the command was judged in. Every pass of the judge keeps it (\<open>judge_passes_justified\<close>); a
  command is rejected only when the device replied (\<open>rejected_replied\<close>), and two different
  commands are never proven by one changed line (\<open>shared_line_same_command\<close>).
\<close>

section \<open>Searching\<close>

lemma search_levels_InAdded:
  "search_levels env pa pu ps = Some (InAdded index l p) \<Longrightarrow>
     index < length (e_added env) \<and> e_added env ! index = l \<and> pa l \<and> p \<in> set ps \<and> at_path l p"
  by (induction env pa pu ps rule: search_levels.induct)
    (auto split: option.splits dest: find_index_SomeD)

lemma search_levels_InUnchanged:
  "search_levels env pa pu ps = Some (InUnchanged l p) \<Longrightarrow>
     l \<in> set (e_unchanged env) \<and> pu l \<and> p \<in> set ps \<and> at_path l p"
  by (induction env pa pu ps rule: search_levels.induct)
    (auto split: option.splits dest: find_SomeD)

lemma search_removed_Some:
  "search_removed env pr ps = Some (index, l) \<Longrightarrow>
     index < length (e_removed env) \<and> e_removed env ! index = l \<and> pr l \<and> (\<exists>p\<in>set ps. at_path l p)"
  by (induction env pr ps rule: search_removed.induct)
    (auto split: option.splits dest: find_index_SomeD)

lemma opened_block_Some:
  assumes "opened_block env following st = Some (index, h)"
  shows "index < length (e_added env) \<and> e_added env ! index = h
           \<and> (\<exists>ws. following = Some ws \<and> ws \<noteq> [] \<and> opens_block env ws st index h)"
proof -
  obtain f fs where f: "following = Some (f # fs)"
    using assms by (cases following; cases "the following") (auto simp: opened_block_def)
  with assms have "List.find (\<lambda>(i, h). opens_block env (f # fs) st i h) (enumerate 0 (e_added env))
      = Some (index, h)" by (simp add: opened_block_def)
  from find_SomeD [OF this] show ?thesis
    using f by (auto simp: in_set_enumerate_eq)
qed

section \<open>The specification of a verdict\<close>

text \<open>The line is in the section the command was judged in, or one around it; it is directly there.\<close>

definition in_scope :: "judge_state \<Rightarrow> line \<Rightarrow> bool" where
  "in_scope st l \<longleftrightarrow> (case s_context st of None \<Rightarrow> True | Some section_path \<Rightarrow> prefix (path_of l) section_path)"

definition in_section :: "judge_state \<Rightarrow> line \<Rightarrow> bool" where
  "in_section st l \<longleftrightarrow> (case s_context st of None \<Rightarrow> True | Some section_path \<Rightarrow> path_of l = section_path)"

lemma in_section_at_path: "in_section st l \<longleftrightarrow> at_path l (s_context st)"
  by (auto simp: in_section_def at_path_def split: option.split)

lemma in_scope_levels: "in_scope st l \<longleftrightarrow> (\<exists>p\<in>set (levels st). at_path l p)"
proof (cases "s_context st")
  case (Some c)
  have "prefix (path_of l) c \<longleftrightarrow> (\<exists>n\<le>length c. path_of l = take n c)"
    by (metis append_eq_conv_conj prefix_def prefix_length_le take_is_prefix)
  also have "\<dots> \<longleftrightarrow> (\<exists>p\<in>(\<lambda>n. Some (take n c)) ` {..length c}. at_path l p)"
    by (simp add: at_path_def atMost_iff Bex_def)
  also have "(\<lambda>n. Some (take n c)) ` {..length c} = set (levels st)"
    by (simp add: levels_def Some atLeastLessThanSuc_atLeastAtMost atLeast0AtMost del: upt_Suc)
  finally show ?thesis by (simp add: in_scope_def Some)
qed (simp add: in_scope_def levels_def at_path_def)

definition added_proof :: "judge_env \<Rightarrow> judge_state \<Rightarrow> typed \<Rightarrow> judgement \<Rightarrow> bool" where
  "added_proof env st c j \<longleftrightarrow> (\<exists>l\<in>set (e_added env). in_scope st l
     \<and> contains (t_words c) (line_words l) \<and> j_evidence j = [''+ '' @ raw_of l])"

definition negation_proof :: "judge_env \<Rightarrow> judge_state \<Rightarrow> typed \<Rightarrow> judgement \<Rightarrow> bool" where
  "negation_proof env st c j \<longleftrightarrow> (\<exists>l\<in>set (e_removed env). in_scope st l
     \<and> negates env (t_words c) l \<and> j_evidence j = [''- '' @ raw_of l])"

definition block_proof :: "judge_env \<Rightarrow> judge_state \<Rightarrow> string list option \<Rightarrow> judgement \<Rightarrow> bool" where
  "block_proof env st following j \<longleftrightarrow> (\<exists>h\<in>set (e_added env). \<exists>l\<in>set (e_added env). \<exists>ws.
     following = Some ws \<and> in_section st h \<and> path_of l = inside h
     \<and> contains ws (line_words l) \<and> j_evidence j = [''+ '' @ raw_of h])"

definition standing_proof :: "judge_env \<Rightarrow> judge_state \<Rightarrow> typed \<Rightarrow> judgement \<Rightarrow> bool" where
  "standing_proof env st c j \<longleftrightarrow> (\<exists>l\<in>set (e_unchanged env). in_scope st l
     \<and> matches (t_words c) (line_words l) \<and> j_evidence j = [''  '' @ raw_of l])"

definition absent_proof :: "judge_env \<Rightarrow> judge_state \<Rightarrow> nat \<Rightarrow> typed \<Rightarrow> judgement \<Rightarrow> bool" where
  "absent_proof env st i c j \<longleftrightarrow> starts_removal env c \<and> drop 1 (t_words c) \<noteq> [] \<and> \<not> said env i
     \<and> (\<forall>l\<in>set (e_both env). in_scope st l \<longrightarrow> \<not> contains (drop 1 (t_words c)) (line_words l))
     \<and> j_evidence j = []"

definition default_proof :: "judge_env \<Rightarrow> judge_state \<Rightarrow> typed \<Rightarrow> judgement \<Rightarrow> bool" where
  "default_proof env st c j \<longleftrightarrow> (\<exists>l\<in>set (e_view env). s_context st = Some (path_of l)
     \<and> matches (t_words c) (line_words l) \<and> j_evidence j = [''  '' @ raw_of l])"

definition removed_proof :: "judge_env \<Rightarrow> judge_state \<Rightarrow> typed \<Rightarrow> judgement \<Rightarrow> bool" where
  "removed_proof env st c j \<longleftrightarrow> starts_removal env c \<and> (\<exists>l\<in>set (e_removed env). in_scope st l
     \<and> contains_by names (drop 1 (t_words c)) (line_words l) \<and> j_evidence j = [''- '' @ raw_of l])"

definition justified ::
    "judge_env \<Rightarrow> judge_state \<Rightarrow> nat \<Rightarrow> typed \<Rightarrow> string list option \<Rightarrow> judgement \<Rightarrow> bool" where
  "justified env st i c following j \<longleftrightarrow> j_command j = t_sent c \<and> (case j_verdict j of
       TookEffect \<Rightarrow> added_proof env st c j \<or> negation_proof env st c j \<or> block_proof env st following j
     | InPlace \<Rightarrow> standing_proof env st c j \<or> absent_proof env st i c j \<or> default_proof env st c j
     | Removed \<Rightarrow> removed_proof env st c j
     | Navigation \<Rightarrow> t_nav c \<and> \<not> t_exec c
     | Exec \<Rightarrow> t_exec c
     | Review \<Rightarrow> \<not> t_nav c \<and> \<not> t_exec c
     | Rejected \<Rightarrow> \<not> t_nav c \<and> \<not> t_exec c)"

text \<open>The state each command was judged in.\<close>

fun judge_states :: "judge_env \<Rightarrow> nat \<Rightarrow> typed list \<Rightarrow> judge_state \<Rightarrow> judge_state list" where
  "judge_states env i [] st = []"
| "judge_states env i (c # cs) st =
     st # judge_states env (Suc i) cs (snd (judge_one env i c cs st))"

lemma length_judge_states [simp]: "length (judge_states env i cs st) = length cs"
  by (induction env i cs st rule: judge_states.induct) auto

section \<open>One command\<close>

lemma review_justified:
  "\<not> t_nav c \<Longrightarrow> \<not> t_exec c \<Longrightarrow> justified env st i c following (fst (review env i c st))"
  by (simp add: review_def justified_def)

lemma setting_justified:
  assumes "\<not> t_nav c" "\<not> t_exec c"
  shows "justified env st i c following (fst (setting env i c following st))"
proof -
  consider (added) index l p where "search_levels env (\<lambda>l. contains (t_words c) (line_words l))
        (\<lambda>l. matches (t_words c) (line_words l)) (levels st) = Some (InAdded index l p)"
    | (unchanged) l p where "search_levels env (\<lambda>l. contains (t_words c) (line_words l))
        (\<lambda>l. matches (t_words c) (line_words l)) (levels st) = Some (InUnchanged l p)"
    | (neither) "search_levels env (\<lambda>l. contains (t_words c) (line_words l))
        (\<lambda>l. matches (t_words c) (line_words l)) (levels st) = None"
    by (metis found.exhaust option.exhaust)
  then show ?thesis
  proof cases
    case added
    from search_levels_InAdded [OF added] show ?thesis
      by (auto simp: setting_def added justified_def judged_def added_proof_def in_scope_levels
          intro!: bexI [of _ l])
  next
    case unchanged
    from search_levels_InUnchanged [OF unchanged] show ?thesis
      by (auto simp: setting_def unchanged justified_def judged_def standing_proof_def in_scope_levels)
  next
    case neither
    show ?thesis
    proof (cases "search_removed env (negates env (t_words c)) (levels st)")
      case (Some r)
      obtain index l where r: "r = (index, l)" by fastforce
      have "setting env i c following st = (judged c TookEffect [''- '' @ raw_of l]
          ''its negation was removed'', claim_removed index i st)"
        by (simp add: setting_def neither Some r)
      moreover from search_removed_Some [OF Some [unfolded r]]
      have "negation_proof env st c (judged c TookEffect [''- '' @ raw_of l] ''its negation was removed'')"
        by (auto simp: judged_def negation_proof_def in_scope_levels)
      ultimately show ?thesis by (simp add: justified_def judged_def)
    next
      case None
      show ?thesis
      proof (cases "opened_block env following st")
        case N: None
        then show ?thesis using review_justified [OF assms]
          by (simp add: setting_def neither None)
      next
        case S: (Some r)
        obtain index h where r: "r = (index, h)" by fastforce
        obtain ws l where "h \<in> set (e_added env)" "following = Some ws" "in_section st h"
            "l \<in> set (e_added env)" "path_of l = inside h" "contains ws (line_words l)"
          using opened_block_Some [OF S [unfolded r]] by (auto simp: opens_block_def list_ex_iff in_section_at_path)
        then have "block_proof env st following (judged c TookEffect [''+ '' @ raw_of h]
            (''the device named it '' @ py_repr (raw_of h)))"
          unfolding block_proof_def judged_def
          by (intro bexI [of _ h] bexI [of _ l] exI [of _ ws]) auto
        then show ?thesis by (simp add: setting_def neither None S r justified_def judged_def)
      qed
    qed
  qed
qed

lemma removal_justified:
  assumes "\<not> t_nav c" "\<not> t_exec c" "starts_removal env c"
  shows "justified env st i c following (fst (removal env i c st))"
proof (cases "search_removed env (\<lambda>l. contains_by names (drop 1 (t_words c)) (line_words l)) (levels st)")
  case (Some r)
  obtain index l where r: "r = (index, l)" by fastforce
  have "removal env i c st = (judged c Removed [''- '' @ raw_of l] [], claim_removed index i st)"
    using Some r by (simp add: removal_def Let_def)
  moreover from search_removed_Some [OF Some [unfolded r]]
  have "removed_proof env st c (judged c Removed [''- '' @ raw_of l] [])"
    using assms(3) by (auto simp: judged_def removed_proof_def in_scope_levels)
  ultimately show ?thesis by (simp add: justified_def judged_def)
next
  case None
  let ?s = "search_levels env (\<lambda>l. contains (t_words c) (line_words l))
        (\<lambda>l. matches (t_words c) (line_words l)) (levels st)"
  consider (added) index l p where "?s = Some (InAdded index l p)"
    | (unchanged) l p where "?s = Some (InUnchanged l p)"
    | (neither) "?s = None"
    by (metis found.exhaust option.exhaust)
  then show ?thesis
  proof cases
    case added
    have "removal env i c st = (judged c TookEffect [''+ '' @ raw_of l] [], claim_added index i st)"
      using None added by (simp add: removal_def Let_def)
    moreover from search_levels_InAdded [OF added]
    have "added_proof env st c (judged c TookEffect [''+ '' @ raw_of l] [])"
      by (auto simp: judged_def added_proof_def in_scope_levels)
    ultimately show ?thesis by (simp add: justified_def judged_def)
  next
    case unchanged
    have "removal env i c st = (judged c InPlace [''  '' @ raw_of l] [], st)"
      using None unchanged by (simp add: removal_def Let_def)
    moreover from search_levels_InUnchanged [OF unchanged]
    have "standing_proof env st c (judged c InPlace [''  '' @ raw_of l] [])"
      by (auto simp: judged_def standing_proof_def in_scope_levels)
    ultimately show ?thesis by (simp add: justified_def judged_def)
  next
    case neither
    let ?t = "drop 1 (t_words c)"
    have "removal env i c st = (if ?t \<noteq> [] \<and> \<not> said env i \<and> absent env ?t (levels st)
        then (judged c InPlace [] ''already absent'', st) else review env i c st)"
      using None neither by (simp add: removal_def Let_def)
    moreover have "?t \<noteq> [] \<Longrightarrow> \<not> said env i \<Longrightarrow> absent env ?t (levels st) \<Longrightarrow>
        absent_proof env st i c (judged c InPlace [] ''already absent'')"
      using assms(3) by (auto simp: judged_def absent_proof_def absent_def in_scope_levels list_ex_iff)
    ultimately show ?thesis
      using review_justified [OF assms(1,2)] by (simp add: justified_def judged_def)
  qed
qed

lemma judge_one_justified:
  "justified env st i c (next_words rest) (fst (judge_one env i c rest st))"
proof (cases "t_exec c \<or> t_nav c")
  case True
  then show ?thesis by (auto simp: judge_one_def justified_def judged_def)
next
  case False
  then show ?thesis
    by (auto simp: judge_one_def setting_justified removal_justified)
qed

lemma judge_loop_justified:
  assumes "judge_loop env i cs st = (js, st')" "k < length cs"
  shows "justified env (judge_states env i cs st ! k) (i + k) (cs ! k)
           (next_words (drop (Suc k) cs)) (js ! k)"
  using assms
proof (induction env i cs st arbitrary: js st' k rule: judge_loop.induct)
  case (2 env i c cs st)
  obtain j st1 where one: "judge_one env i c cs st = (j, st1)" by fastforce
  obtain js2 st2 where rest: "judge_loop env (Suc i) cs st1 = (js2, st2)" by fastforce
  have js: "js = j # js2" using "2.prems"(1) one rest by simp
  show ?case
  proof (cases k)
    case 0
    then show ?thesis using judge_one_justified [of env st i c cs] one js by simp
  next
    case (Suc m)
    with "2.IH" [OF one [symmetric] refl rest, of m] "2.prems"(2) js one show ?thesis by simp
  qed
qed simp

lemma judge_loop_length: "length (fst (judge_loop env i cs st)) = length cs"
  by (induction cs arbitrary: i st) (auto simp: split_beta Let_def)

section \<open>What the loop records\<close>

text \<open>Every claim names a changed line and a command already judged; every command in review is
  recorded with the section it was judged in.\<close>

definition claims_ok :: "nat \<Rightarrow> nat \<Rightarrow> claims \<Rightarrow> bool" where
  "claims_ok n k cl \<longleftrightarrow> (\<forall>(index, who)\<in>set cl. index < n \<and> (\<forall>c\<in>set who. c < k)) \<and> distinct (map fst cl)"

lemma claims_ok_append:
  assumes "claims_ok n k cl" "index < n" "i < k"
  shows "claims_ok n k (dict_append index i cl)"
proof -
  have new: "\<forall>c\<in>set (dict_get cl index @ [i]). c < k"
    using assms by (auto simp: claims_ok_def dest!: dict_get_memD map_of_SomeD)
  have "idx < n \<and> (\<forall>c\<in>set who. c < k)" if "(idx, who) \<in> set (dict_append index i cl)" for idx who
  proof -
    have "(idx, who) = (index, dict_get cl index @ [i]) \<or> (idx, who) \<in> set cl"
      using that set_dict_append [of index i cl] by auto
    then show ?thesis using new assms by (auto simp: claims_ok_def)
  qed
  then show ?thesis
    using assms(1) distinct_dict_append [of cl index i] by (auto simp: claims_ok_def)
qed

lemma claims_ok_mono: "claims_ok n k cl \<Longrightarrow> k \<le> k' \<Longrightarrow> claims_ok n k' cl"
  by (fastforce simp: claims_ok_def)

definition record_ok :: "judge_env \<Rightarrow> nat \<Rightarrow> judge_state \<Rightarrow> bool" where
  "record_ok env k st \<longleftrightarrow> claims_ok (length (e_added env)) k (s_added st)
     \<and> claims_ok (length (e_removed env)) k (s_removed st)"

lemma record_ok_mono: "record_ok env k st \<Longrightarrow> k \<le> k' \<Longrightarrow> record_ok env k' st"
  by (auto simp: record_ok_def intro: claims_ok_mono)

lemma record_ok_context [simp]: "record_ok env k (st\<lparr>s_context := x\<rparr>) = record_ok env k st"
  by (simp add: record_ok_def)

lemma record_ok_enter [simp]: "record_ok env k (enter env l p st) = record_ok env k st"
  by (simp add: enter_def)

lemma record_ok_navigate [simp]: "record_ok env k (navigate env c st) = record_ok env k st"
  by (auto simp: navigate_def split: list.splits option.splits)

lemma record_ok_review [simp]: "record_ok env k (snd (review env i c st)) = record_ok env k st"
  by (simp add: record_ok_def review_def)

lemma record_ok_claim_added:
  "record_ok env k st \<Longrightarrow> index < length (e_added env) \<Longrightarrow> i < k \<Longrightarrow> record_ok env k (claim_added index i st)"
  by (simp add: record_ok_def claim_added_def claims_ok_append)

lemma record_ok_claim_removed:
  "record_ok env k st \<Longrightarrow> index < length (e_removed env) \<Longrightarrow> i < k \<Longrightarrow>
     record_ok env k (claim_removed index i st)"
  by (simp add: record_ok_def claim_removed_def claims_ok_append)

lemma record_ok_judge_one:
  assumes "record_ok env i st"
  shows "record_ok env (Suc i) (snd (judge_one env i c rest st))"
proof -
  have st: "record_ok env (Suc i) st" using assms by (rule record_ok_mono) simp
  have r: "record_ok env (Suc i) (snd (removal env i c st))"
    by (auto simp: removal_def Let_def st split: option.splits found.splits
        intro!: record_ok_claim_added record_ok_claim_removed
        dest: search_levels_InAdded search_removed_Some)
  have "record_ok env (Suc i) (snd (setting env i c following st))" for following
    by (auto simp: setting_def st split: option.splits found.splits
        intro!: record_ok_claim_added record_ok_claim_removed
        dest: search_levels_InAdded search_removed_Some opened_block_Some)
  with st r show ?thesis by (auto simp: judge_one_def)
qed

lemma record_ok_judge_loop:
  "record_ok env i st \<Longrightarrow> record_ok env (i + length cs) (snd (judge_loop env i cs st))"
proof (induction cs arbitrary: i st)
  case (Cons c cs)
  have "record_ok env (Suc i) (snd (judge_one env i c cs st))"
    using Cons.prems by (rule record_ok_judge_one)
  from Cons.IH [OF this] show ?case by (simp add: split_beta Let_def)
qed simp

lemma reviews_unchanged [simp]:
  "s_reviews (enter env l p st) = s_reviews st"
  "s_reviews (claim_added index i st) = s_reviews st"
  "s_reviews (claim_removed index i st) = s_reviews st"
  "s_reviews (navigate env c st) = s_reviews st"
  by (auto simp: enter_def claim_added_def claim_removed_def navigate_def
      split: list.splits option.splits)

definition review_step :: "nat \<Rightarrow> judge_state \<Rightarrow> judge_state \<Rightarrow> bool" where
  "review_step i st st' \<longleftrightarrow> s_reviews st' = s_reviews st
     \<or> s_reviews st' = AList.update i (s_context st) (s_reviews st)"

lemma review_step_review: "review_step i st (snd (review env i c st))"
  by (simp add: review_step_def review_def)

lemma review_step_removal: "review_step i st (snd (removal env i c st))"
  using review_step_review [of i st env c]
  by (auto simp: removal_def Let_def split: option.splits found.splits) (simp_all add: review_step_def)

lemma review_step_setting: "review_step i st (snd (setting env i c following st))"
  using review_step_review [of i st env c]
  by (auto simp: setting_def split: option.splits found.splits) (simp_all add: review_step_def)

lemma reviews_judge_one: "review_step i st (snd (judge_one env i c rest st))"
  by (simp add: judge_one_def review_step_removal review_step_setting) (simp add: review_step_def)

lemma reviews_judge_loop:
  assumes "(k, p) \<in> set (s_reviews (snd (judge_loop env i cs st)))"
  shows "(k, p) \<in> set (s_reviews st)
     \<or> (i \<le> k \<and> k < i + length cs \<and> p = s_context (judge_states env i cs st ! (k - i)))"
  using assms
proof (induction cs arbitrary: i st)
  case (Cons c cs)
  let ?st1 = "snd (judge_one env i c cs st)"
  from Cons.prems have "(k, p) \<in> set (s_reviews (snd (judge_loop env (Suc i) cs ?st1)))"
    by (simp add: split_beta Let_def)
  from Cons.IH [OF this] show ?case
  proof
    assume "(k, p) \<in> set (s_reviews ?st1)"
    then have "(k, p) \<in> set (s_reviews st) \<or> (k, p) = (i, s_context st)"
      using reviews_judge_one [of i st env c cs] set_alist_update [of i "s_context st" "s_reviews st"]
      by (auto simp: review_step_def)
    then show ?thesis by auto
  next
    assume "Suc i \<le> k \<and> k < Suc i + length cs \<and> p = s_context (judge_states env (Suc i) cs ?st1 ! (k - Suc i))"
    then show ?thesis by (auto simp: nth_Cons' Suc_diff_Suc)
  qed
qed simp


section \<open>Claims and verdicts\<close>

text \<open>A command that claims a changed line was judged by it.\<close>

definition claimed :: "claims \<Rightarrow> nat \<Rightarrow> nat \<Rightarrow> bool" where
  "claimed cl index k \<longleftrightarrow> k \<in> set (dict_get cl index)"

lemma claimed_append [simp]:
  "claimed (dict_append index i cl) idx k \<longleftrightarrow> claimed cl idx k \<or> (idx = index \<and> k = i)"
  by (auto simp: claimed_def dict_get_dict_append)

lemma claimed_entry:
  "distinct (map fst cl) \<Longrightarrow> (index, who) \<in> set cl \<Longrightarrow> k \<in> set who \<Longrightarrow> claimed cl index k"
  by (simp add: claimed_def dict_get_def)

lemma claimed_in: "claimed cl index k \<Longrightarrow> \<exists>who. (index, who) \<in> set cl \<and> k \<in> set who"
  by (cases "map_of cl index") (auto simp: claimed_def dict_get_def dest: map_of_SomeD)

definition rests_on :: "judge_env \<Rightarrow> typed \<Rightarrow> bool \<Rightarrow> nat \<Rightarrow> judgement \<Rightarrow> bool" where
  "rests_on env c is_added index j \<longleftrightarrow> \<not> t_nav c \<and> \<not> t_exec c \<and> j_verdict j \<in> {TookEffect, Removed}
     \<and> (if is_added then index < length (e_added env) \<and> j_evidence j = [''+ '' @ raw_of (e_added env ! index)]
        else index < length (e_removed env) \<and> j_evidence j = [''- '' @ raw_of (e_removed env ! index)])"

definition claim_step :: "judge_env \<Rightarrow> nat \<Rightarrow> typed \<Rightarrow> judge_state \<Rightarrow> judgement \<times> judge_state \<Rightarrow> bool" where
  "claim_step env i c st r \<longleftrightarrow>
     (\<forall>idx k. claimed (s_added (snd r)) idx k \<longrightarrow>
        claimed (s_added st) idx k \<or> (k = i \<and> rests_on env c True idx (fst r)))
   \<and> (\<forall>idx k. claimed (s_removed (snd r)) idx k \<longrightarrow>
        claimed (s_removed st) idx k \<or> (k = i \<and> rests_on env c False idx (fst r)))
   \<and> (i \<in> fst ` set (s_reviews (snd r)) \<longrightarrow>
        i \<in> fst ` set (s_reviews st) \<or> j_verdict (fst r) = Review \<and> \<not> t_nav c \<and> \<not> t_exec c)"

lemma state_fields [simp]:
  "s_added (enter env l p st) = s_added st" "s_removed (enter env l p st) = s_removed st"
  "s_added (navigate env c st) = s_added st" "s_removed (navigate env c st) = s_removed st"
  "s_added (claim_added index i st) = dict_append index i (s_added st)"
  "s_removed (claim_added index i st) = s_removed st"
  "s_removed (claim_removed index i st) = dict_append index i (s_removed st)"
  "s_added (claim_removed index i st) = s_added st"
  by (auto simp: enter_def navigate_def claim_added_def claim_removed_def split: list.splits option.splits)

lemma claim_step_same: "s_added st' = s_added st \<Longrightarrow> s_removed st' = s_removed st \<Longrightarrow>
    s_reviews st' = s_reviews st \<Longrightarrow> claim_step env i c st (j, st')"
  by (simp add: claim_step_def)

lemma claim_step_in_place: "s_added st' = s_added st \<Longrightarrow> s_removed st' = s_removed st \<Longrightarrow>
    s_reviews st' = s_reviews st \<Longrightarrow> claim_step env i c st (judged c InPlace ev note, st')"
  by (rule claim_step_same)

lemma claim_step_review: "\<not> t_nav c \<Longrightarrow> \<not> t_exec c \<Longrightarrow> claim_step env i c st (review env i c st)"
  by (simp add: claim_step_def review_def)

lemma claim_step_added:
  assumes "index < length (e_added env)" "e_added env ! index = l" "\<not> t_nav c" "\<not> t_exec c"
    and "v \<in> {TookEffect, Removed}"
  shows "claim_step env i c st (judged c v [CHR ''+'' # CHR '' '' # raw_of l] note,
           claim_added index i st)"
    and "claim_step env i c st (judged c v [CHR ''+'' # CHR '' '' # raw_of l] note,
           enter env l' p (claim_added index i st))"
    and "claim_step env i c st (judged c v [CHR ''+'' # CHR '' '' # raw_of l] note,
           claim_added index i st\<lparr>s_context := x\<rparr>)"
  using assms by (auto simp: claim_step_def rests_on_def judged_def)

lemma claim_step_removed:
  assumes "index < length (e_removed env)" "e_removed env ! index = l" "\<not> t_nav c" "\<not> t_exec c"
    and "v \<in> {TookEffect, Removed}"
  shows "claim_step env i c st (judged c v [CHR ''-'' # CHR '' '' # raw_of l] note,
           claim_removed index i st)"
  using assms by (auto simp: claim_step_def rests_on_def judged_def)

lemma claim_step_setting:
  assumes "\<not> t_nav c" "\<not> t_exec c"
  shows "claim_step env i c st (setting env i c following st)"
  using assms
  by (auto simp: setting_def split: option.splits found.splits
      intro!: claim_step_review claim_step_in_place claim_step_added claim_step_removed
      dest: search_levels_InAdded search_removed_Some opened_block_Some)

lemma claim_step_removal:
  assumes "\<not> t_nav c" "\<not> t_exec c"
  shows "claim_step env i c st (removal env i c st)"
proof -
  obtain target where target: "drop (Suc 0) (t_words c) = target" by simp
  show ?thesis using assms
    by (auto simp: removal_def Let_def target split: option.splits found.splits
      intro!: claim_step_review claim_step_in_place claim_step_added claim_step_removed
      dest: search_levels_InAdded search_removed_Some)
qed

lemma claim_step_judge_one: "claim_step env i c st (judge_one env i c rest st)"
  by (simp add: judge_one_def claim_step_setting claim_step_removal claim_step_same)

lemma claims_judge_loop:
  assumes "judge_loop env i cs st = (js, st')"
  shows "(claimed (s_added st') idx k \<longrightarrow> claimed (s_added st) idx k
            \<or> (i \<le> k \<and> k < i + length cs \<and> rests_on env (cs ! (k - i)) True idx (js ! (k - i))))
       \<and> (claimed (s_removed st') idx k \<longrightarrow> claimed (s_removed st) idx k
            \<or> (i \<le> k \<and> k < i + length cs \<and> rests_on env (cs ! (k - i)) False idx (js ! (k - i))))"
  using assms
proof (induction cs arbitrary: i st js)
  case (Cons c cs)
  obtain j st1 where one: "judge_one env i c cs st = (j, st1)" by fastforce
  obtain js2 st2 where rest: "judge_loop env (Suc i) cs st1 = (js2, st2)" by fastforce
  have js: "js = j # js2" "st' = st2" using Cons.prems one rest by auto
  from claim_step_judge_one [of env i c st cs] one
  have step: "claimed (s_added st1) idx k \<longrightarrow> claimed (s_added st) idx k \<or> (k = i \<and> rests_on env c True idx j)"
    "claimed (s_removed st1) idx k \<longrightarrow> claimed (s_removed st) idx k \<or> (k = i \<and> rests_on env c False idx j)"
    by (auto simp: claim_step_def)
  have nth: "k > i \<Longrightarrow> (c # cs) ! (k - i) = cs ! (k - Suc i) \<and> js ! (k - i) = js2 ! (k - Suc i)"
    by (simp add: js nth_Cons' Suc_diff_Suc)
  have nth0: "(c # cs) ! 0 = c" "js ! 0 = j" by (simp_all add: js)
  from Cons.IH [of "Suc i" st1 js2] rest js(2)
  have "(claimed (s_added st') idx k \<longrightarrow> claimed (s_added st1) idx k
            \<or> (Suc i \<le> k \<and> k < Suc i + length cs \<and> rests_on env (cs ! (k - Suc i)) True idx (js2 ! (k - Suc i))))"
       "(claimed (s_removed st') idx k \<longrightarrow> claimed (s_removed st1) idx k
            \<or> (Suc i \<le> k \<and> k < Suc i + length cs \<and> rests_on env (cs ! (k - Suc i)) False idx (js2 ! (k - Suc i))))"
    by auto
  with step nth nth0 show ?case by auto
qed simp

lemma reviews_judge_loop_verdict:
  assumes "judge_loop env i cs st = (js, st')" "k \<in> fst ` set (s_reviews st')"
  shows "k \<in> fst ` set (s_reviews st)
     \<or> (i \<le> k \<and> k < i + length cs \<and> j_verdict (js ! (k - i)) = Review
        \<and> \<not> t_nav (cs ! (k - i)) \<and> \<not> t_exec (cs ! (k - i)))"
  using assms
proof (induction cs arbitrary: i st js)
  case (Cons c cs)
  obtain j st1 where one: "judge_one env i c cs st = (j, st1)" by fastforce
  obtain js2 st2 where rest: "judge_loop env (Suc i) cs st1 = (js2, st2)" by fastforce
  have js: "js = j # js2" "st' = st2" using Cons.prems(1) one rest by auto
  from Cons.IH [of "Suc i" st1 js2] rest js(2) Cons.prems(2)
  consider "k \<in> fst ` set (s_reviews st1)"
    | "Suc i \<le> k \<and> k < Suc i + length cs \<and> j_verdict (js2 ! (k - Suc i)) = Review
        \<and> \<not> t_nav (cs ! (k - Suc i)) \<and> \<not> t_exec (cs ! (k - Suc i))" by auto
  then show ?case
  proof cases
    case 1
    from reviews_judge_one [of i st env c cs] one
    have "s_reviews st1 = s_reviews st \<or> s_reviews st1 = AList.update i (s_context st) (s_reviews st)"
      by (simp add: review_step_def)
    with 1 have "k \<in> fst ` set (s_reviews st) \<or> k = i"
      using set_alist_update [of i "s_context st" "s_reviews st"] by (auto simp: image_iff)
    moreover from claim_step_judge_one [of env i c st cs] one 1
    have "k = i \<Longrightarrow> k \<in> fst ` set (s_reviews st) \<or> j_verdict j = Review \<and> \<not> t_nav c \<and> \<not> t_exec c"
      by (auto simp: claim_step_def)
    ultimately show ?thesis using js(1) by auto
  next
    case 2
    then show ?thesis by (auto simp: js nth_Cons' Suc_diff_Suc)
  qed
qed simp

end
