(* ===== verification/Judge_Passes.thy ===== *)
theory Judge_Passes
  imports Judge_Soundness
begin

text \<open>
  The passes of \<open>_Judge.run\<close> (\<open>src/rollout/evidence.py\<close>) after its loop: the conflicts, the
  defaults view, the reviews' evidence and the device's replies. Each pass may change a verdict
  only in the way its relation says; together they keep every verdict justified.
\<close>

section \<open>A run so far\<close>

definition all_justified :: "judge_env \<Rightarrow> typed list \<Rightarrow> judgement list \<Rightarrow> bool" where
  "all_justified env cs js \<longleftrightarrow> length js = length cs \<and>
     (\<forall>k<length cs. justified env (judge_states env 0 cs judge_start ! k) k (cs ! k)
        (next_words (drop (Suc k) cs)) (js ! k))"

definition judged_command :: "typed \<Rightarrow> bool" where
  "judged_command c \<longleftrightarrow> \<not> t_nav c \<and> \<not> t_exec c"

definition reviewed_only :: "(nat \<Rightarrow> bool) \<Rightarrow> (judgement \<Rightarrow> bool) \<Rightarrow> judgement list \<Rightarrow> judgement list \<Rightarrow> bool" where
  "reviewed_only may_change result js js' \<longleftrightarrow> length js' = length js \<and>
     (\<forall>k<length js. j_command (js' ! k) = j_command (js ! k)
        \<and> (js' ! k = js ! k \<or> may_change k \<and> result (js' ! k)))"

lemma reviewed_only_refl [intro]: "reviewed_only P Q js js"
  by (simp add: reviewed_only_def)

lemma reviewed_only_trans:
  "reviewed_only P Q js js' \<Longrightarrow> reviewed_only P Q js' js'' \<Longrightarrow> reviewed_only P Q js js''"
  unfolding reviewed_only_def by metis

lemma reviewed_only_update:
  "P k \<Longrightarrow> Q j \<Longrightarrow> j_command j = j_command (js ! k) \<Longrightarrow> reviewed_only P Q js (js[k := j])"
  unfolding reviewed_only_def by (metis length_list_update nth_list_update_eq nth_list_update_neq)

lemma reviewed_only_mono:
  "reviewed_only P Q js js' \<Longrightarrow> (\<And>k. P k \<Longrightarrow> P' k) \<Longrightarrow> (\<And>j. Q j \<Longrightarrow> Q' j) \<Longrightarrow> reviewed_only P' Q' js js'"
  by (auto simp: reviewed_only_def)

lemma reviewed_only_length: "reviewed_only P Q js js' \<Longrightarrow> length js' = length js"
  by (simp add: reviewed_only_def)

lemma reviewed_only_command:
  "reviewed_only P Q js js' \<Longrightarrow> k < length js \<Longrightarrow> j_command (js' ! k) = j_command (js ! k)"
  by (simp add: reviewed_only_def)

lemma reviewed_only_keeps:
  "reviewed_only P Q js js' \<Longrightarrow> k < length js \<Longrightarrow> Q (js ! k) \<Longrightarrow> Q (js' ! k)"
  unfolding reviewed_only_def by metis

lemma justified_unproven:
  assumes "justified env st k c w j" "judged_command c" "j_command j' = j_command j"
    and "j_verdict j' \<in> {Review, Rejected}"
  shows "justified env st k c w j'"
  using assms by (auto simp: justified_def judged_command_def)

lemma all_justified_reviewed:
  assumes "all_justified env cs js" "reviewed_only P Q js js'"
    and "\<And>k. P k \<Longrightarrow> k < length cs \<Longrightarrow> judged_command (cs ! k)"
    and "\<And>j. Q j \<Longrightarrow> j_verdict j \<in> {Review, Rejected}"
  shows "all_justified env cs js'"
  unfolding all_justified_def
proof (intro conjI allI impI)
  show "length js' = length cs"
    using assms(1,2) by (simp add: all_justified_def reviewed_only_def)
next
  fix k assume k: "k < length cs"
  let ?j = "justified env (judge_states env 0 cs judge_start ! k) k (cs ! k) (next_words (drop (Suc k) cs))"
  from assms(1) k have old: "?j (js ! k)" and len: "k < length js" by (auto simp: all_justified_def)
  from assms(2) len consider "js' ! k = js ! k"
    | "P k" "Q (js' ! k)" "j_command (js' ! k) = j_command (js ! k)"
    unfolding reviewed_only_def by blast
  then show "?j (js' ! k)"
    by cases (use old k assms(3,4) in \<open>auto intro: justified_unproven\<close>)
qed

section \<open>The conflicts\<close>

definition in_conflict :: "judgement \<Rightarrow> bool" where
  "in_conflict j \<longleftrightarrow> j_verdict j = Review \<and> j_note j = conflict_note"

lemma in_review_fields [simp]:
  "j_command (in_review j ev note) = j_command j" "j_verdict (in_review j ev note) = Review"
  "j_note (in_review j ev note) = note"
  by (simp_all add: in_review_def)

lemma mark_conflict_only: "reviewed_only (\<lambda>k. k \<in> set who) in_conflict js (mark_conflict ev who js)"
proof (induction ev who js rule: mark_conflict.induct)
  case (2 ev c cs js)
  have "reviewed_only (\<lambda>k. k \<in> set (c # cs)) in_conflict js (js[c := in_review (js ! c) [ev] conflict_note])"
    by (rule reviewed_only_update) (simp_all add: in_conflict_def)
  moreover have "reviewed_only (\<lambda>k. k \<in> set (c # cs)) in_conflict
      (js[c := in_review (js ! c) [ev] conflict_note]) (mark_conflict ev (c # cs) js)"
    using "2.IH" by (auto intro: reviewed_only_mono)
  ultimately show ?case by (rule reviewed_only_trans)
qed auto

lemma mark_conflict_marks:
  "k \<in> set who \<Longrightarrow> k < length js \<Longrightarrow> in_conflict (mark_conflict ev who js ! k)"
proof (induction ev who js rule: mark_conflict.induct)
  case (2 ev c cs js)
  let ?js = "js[c := in_review (js ! c) [ev] conflict_note]"
  show ?case
  proof (cases "k = c")
    case True
    then have "in_conflict (?js ! k)" using "2.prems" by (simp add: in_conflict_def)
    with reviewed_only_keeps [OF mark_conflict_only, of k ?js] "2.prems" show ?thesis by simp
  next
    case False
    then show ?thesis using "2.IH" "2.prems" by simp
  qed
qed simp

lemma conflict_pass_only:
  "reviewed_only (\<lambda>k. \<exists>index who. (index, who) \<in> set cl \<and> k \<in> set who) in_conflict js
     (conflict_pass sign ls cl js)"
proof (induction sign ls cl js rule: conflict_pass.induct)
  case (2 sign ls index claimants rest js)
  let ?P = "\<lambda>k. \<exists>idx who. (idx, who) \<in> set ((index, claimants) # rest) \<and> k \<in> set who"
  let ?js = "if 1 < length (remdups (map (\<lambda>c. normalize (j_command (js ! c))) claimants))
     then mark_conflict (sign @ '' '' @ raw_of (ls ! index)) claimants js else js"
  have "reviewed_only ?P in_conflict js ?js"
    by (auto intro!: reviewed_only_mono [OF mark_conflict_only])
  moreover have "reviewed_only ?P in_conflict ?js (conflict_pass sign ls rest ?js)"
    by (rule reviewed_only_mono [OF "2.IH"]) auto
  then have "reviewed_only ?P in_conflict ?js (conflict_pass sign ls ((index, claimants) # rest) js)"
    by simp
  ultimately show ?case by (rule reviewed_only_trans)
qed auto

lemma one_distinct:
  assumes "\<not> 1 < length (remdups xs)" "x \<in> set xs" "y \<in> set xs"
  shows "x = y"
proof (rule ccontr)
  assume "x \<noteq> y"
  then have "card {x, y} = 2" by simp
  moreover have "card {x, y} \<le> card (set xs)" using assms by (intro card_mono) auto
  ultimately show False using assms(1) by (simp add: length_remdups_card_conv)
qed

lemma conflict_pass_marks:
  assumes "(index, who) \<in> set cl" "\<forall>(idx, w)\<in>set cl. \<forall>c\<in>set w. c < length js"
    and "a \<in> set who" "b \<in> set who" "normalize (j_command (js ! a)) \<noteq> normalize (j_command (js ! b))"
  shows "in_conflict (conflict_pass sign ls cl js ! a)"
  using assms
proof (induction sign ls cl js rule: conflict_pass.induct)
  case (2 sign ls idx claimants rest js)
  let ?js = "if 1 < length (remdups (map (\<lambda>c. normalize (j_command (js ! c))) claimants))
     then mark_conflict (sign @ '' '' @ raw_of (ls ! idx)) claimants js else js"
  have only: "reviewed_only (\<lambda>k. k \<in> set claimants) in_conflict js ?js"
    by (auto intro: mark_conflict_only)
  then have len: "length ?js = length js" by (rule reviewed_only_length)
  have eq: "conflict_pass sign ls ((idx, claimants) # rest) js = conflict_pass sign ls rest ?js" by simp
  have la: "a < length js" "b < length js" using "2.prems"(1-4) by auto
  show ?case
  proof (cases "(index, who) = (idx, claimants)")
    case True
    then have "1 < length (remdups (map (\<lambda>c. normalize (j_command (js ! c))) claimants))"
      using one_distinct [of "map (\<lambda>c. normalize (j_command (js ! c))) claimants"] "2.prems"(3-5)
      by (metis (no_types, lifting) image_eqI image_set prod.inject)
    then have "in_conflict (?js ! a)"
      using True "2.prems"(3) la by (simp only: if_True) (rule mark_conflict_marks; simp)
    then show ?thesis
      using reviewed_only_keeps [OF conflict_pass_only [of rest ?js sign ls], of a] len la eq by simp
  next
    case False
    have same: "j_command (?js ! a) = j_command (js ! a)" "j_command (?js ! b) = j_command (js ! b)"
      using only la by (auto intro: reviewed_only_command)
    have "in_conflict (conflict_pass sign ls rest ?js ! a)"
    proof (rule "2.IH")
      show "(index, who) \<in> set rest" using False "2.prems"(1) by auto
      show "\<forall>(idx, w)\<in>set rest. \<forall>c\<in>set w. c < length ?js"
        using "2.prems"(2) len by auto
      show "normalize (j_command (?js ! a)) \<noteq> normalize (j_command (?js ! b))"
        using same "2.prems"(5) by simp
    qed (use "2.prems" in auto)
    then show ?thesis using eq by simp
  qed
qed simp

section \<open>The defaults view\<close>

definition shown_default :: "judge_env \<Rightarrow> typed list \<Rightarrow> path \<Rightarrow> nat \<Rightarrow> judgement \<Rightarrow> bool" where
  "shown_default env cs q k j \<longleftrightarrow> j_verdict j = InPlace \<and>
     (\<exists>l\<in>set (e_view env). path_of l = q \<and> matches (t_words (cs ! k)) (line_words l)
        \<and> j_evidence j = [''  '' @ raw_of l])"

definition defaults_rel :: "judge_env \<Rightarrow> typed list \<Rightarrow> (nat \<times> path option) list \<Rightarrow>
    judgement list \<times> judge_state \<Rightarrow> judgement list \<times> judge_state \<Rightarrow> bool" where
  "defaults_rel env cs rs r r' \<longleftrightarrow> length (fst r') = length (fst r)
     \<and> set (s_reviews (snd r')) \<subseteq> set (s_reviews (snd r))
     \<and> s_added (snd r') = s_added (snd r) \<and> s_removed (snd r') = s_removed (snd r)
     \<and> (\<forall>k<length (fst r). j_command (fst r' ! k) = j_command (fst r ! k)
          \<and> (fst r' ! k = fst r ! k \<or>
             (\<exists>q. (k, Some q) \<in> set rs \<and> shown_default env cs q k (fst r' ! k)
                  \<and> j_note (fst r ! k) \<noteq> conflict_note)))"

lemma defaults_rel_skip:
  "defaults_rel env cs rest r r' \<Longrightarrow> defaults_rel env cs (e # rest) r r'"
  unfolding defaults_rel_def by auto

lemma shown_default_note: "''shown with the device's defaults'' \<noteq> conflict_note"
  by (simp add: conflict_note_def)

lemma defaults_pass_rel: "defaults_rel env cs rs r (defaults_pass env cs rs r)"
proof (induction env cs rs r rule: defaults_pass.induct)
  case (1 env cs js st)
  then show ?case by (simp add: defaults_rel_def)
next
  case (2 env cs i p rest js st)
  show ?case
  proof (cases p)
    case None
    then show ?thesis using "2.IH"(1) by (simp add: defaults_rel_skip)
  next
    case (Some q)
    show ?thesis
    proof (cases "j_note (js ! i) = conflict_note")
      case True
      then show ?thesis using Some "2.IH"(2) [OF Some] by (simp add: defaults_rel_skip)
    next
      case free: False
      let ?f = "List.find (\<lambda>l. path_of l = q \<and> matches (t_words (cs ! i)) (line_words l)) (e_view env)"
      show ?thesis
      proof (cases ?f)
        case None
        then show ?thesis using Some free "2.IH"(3) [OF Some free None] by (simp add: defaults_rel_skip)
      next
        case line: (Some l)
        let ?j = "\<lparr>j_command = j_command (js ! i), j_verdict = InPlace, j_evidence = [''  '' @ raw_of l],
                    j_note = ''shown with the device's defaults'', j_section = Some []\<rparr>"
        let ?r = "(js[i := ?j], st\<lparr>s_reviews := AList.delete i (s_reviews st)\<rparr>)"
        have eq: "defaults_pass env cs ((i, p) # rest) (js, st) = defaults_pass env cs rest ?r"
          using Some free line by simp
        have ih: "defaults_rel env cs rest ?r (defaults_pass env cs rest ?r)"
          using "2.IH"(4) [OF Some free line] .
        have proof_i: "shown_default env cs q i ?j"
          using find_SomeD [OF line] by (auto simp: shown_default_def)
        let ?o = "fst (defaults_pass env cs rest ?r)"
        have "j_command (?o ! k) = j_command (js ! k) \<and> (?o ! k = js ! k \<or>
              (\<exists>q'. (k, Some q') \<in> set ((i, p) # rest) \<and> shown_default env cs q' k (?o ! k)
                  \<and> j_note (js ! k) \<noteq> conflict_note))" if k: "k < length js" for k
        proof (cases "k = i")
          case True
          have "j_command (?o ! i) = j_command (js ! i)" "?o ! i = ?j \<or> shown_default env cs q i (?o ! i)
              \<or> (\<exists>q'. (i, Some q') \<in> set rest \<and> shown_default env cs q' i (?o ! i))"
            using ih k True unfolding defaults_rel_def by auto
          then show ?thesis using True proof_i free Some by auto
        next
          case False
          then show ?thesis using ih k unfolding defaults_rel_def by auto
        qed
        moreover have "set (s_reviews (snd (defaults_pass env cs rest ?r))) \<subseteq> set (s_reviews st)"
          using ih unfolding defaults_rel_def by (auto simp: AList.delete_eq)
        ultimately show ?thesis using ih unfolding eq defaults_rel_def by auto
      qed
    qed
  qed
qed

lemma reviews_of_run:
  assumes "judge_loop env 0 cs judge_start = (js, st)" "(k, p) \<in> set (s_reviews st)"
  shows "k < length cs \<and> p = s_context (judge_states env 0 cs judge_start ! k)
           \<and> judged_command (cs ! k) \<and> j_verdict (js ! k) = Review"
proof -
  have "s_reviews judge_start = []" by (simp add: judge_start_def)
  moreover have "(k, p) \<in> set (s_reviews (snd (judge_loop env 0 cs judge_start)))" using assms by simp
  moreover have "k \<in> fst ` set (s_reviews st)" using assms(2) by force
  ultimately show ?thesis
    using reviews_judge_loop [of k p env 0 cs judge_start] reviews_judge_loop_verdict [OF assms(1), of k]
    by (auto simp: judged_command_def)
qed

lemma all_justified_defaults:
  assumes loop: "judge_loop env 0 cs judge_start = (js0, st0)"
    and ok: "all_justified env cs (fst r)"
    and rel: "defaults_rel env cs (s_reviews st0) r r'"
  shows "all_justified env cs (fst r')"
  unfolding all_justified_def
proof (intro conjI allI impI)
  show "length (fst r') = length cs" using ok rel by (simp add: all_justified_def defaults_rel_def)
next
  fix k assume k: "k < length cs"
  let ?st = "judge_states env 0 cs judge_start ! k"
  let ?j = "justified env ?st k (cs ! k) (next_words (drop (Suc k) cs))"
  have old: "?j (fst r ! k)" and len: "k < length (fst r)" using ok k by (auto simp: all_justified_def)
  from rel len have cmd: "j_command (fst r' ! k) = j_command (fst r ! k)"
    by (simp add: defaults_rel_def)
  from rel len consider "fst r' ! k = fst r ! k"
    | q where "(k, Some q) \<in> set (s_reviews st0)" "shown_default env cs q k (fst r' ! k)"
    unfolding defaults_rel_def by blast
  then show "?j (fst r' ! k)"
  proof cases
    case 1
    then show ?thesis using old by simp
  next
    case 2
    then have "s_context ?st = Some q" using reviews_of_run [OF loop] by metis
    with 2(2) have "default_proof env ?st (cs ! k) (fst r' ! k)" "j_verdict (fst r' ! k) = InPlace"
      by (auto simp: shown_default_def default_proof_def)
    then show ?thesis using old cmd by (simp add: justified_def)
  qed
qed

section \<open>The reviews' evidence\<close>

lemma evidence_pass_rel:
  "reviewed_only (\<lambda>k. k \<in> fst ` set rs) (\<lambda>j. j_verdict j = Review) (fst r)
     (fst (evidence_pass env fa fr rs r))
   \<and> s_reviews (snd (evidence_pass env fa fr rs r)) = s_reviews (snd r)
   \<and> s_added (snd (evidence_pass env fa fr rs r)) = s_added (snd r)
   \<and> s_removed (snd (evidence_pass env fa fr rs r)) = s_removed (snd r)"
proof (induction env fa fr rs r rule: evidence_pass.induct)
  case (2 env fa fr i p rest js st)
  let ?a = "shown (e_added env) fa p" and ?r = "shown (e_removed env) fr p"
  let ?lines = "evidence_lines env ?a ?r"
  let ?js = "js[i := in_review (js ! i) ?lines (if ?lines = [] then ''no change in its section'' else [])]"
  let ?st = "st\<lparr>s_ev_added := fold (\<lambda>x. dict_append x i) ?a (s_ev_added st),
               s_ev_removed := fold (\<lambda>x. dict_append x i) ?r (s_ev_removed st)\<rparr>"
  let ?P = "\<lambda>k. k \<in> fst ` set ((i, p) # rest)" and ?Q = "\<lambda>j. j_verdict j = Review"
  have eq: "evidence_pass env fa fr ((i, p) # rest) (js, st) = evidence_pass env fa fr rest (?js, ?st)"
    by (simp add: Let_def)
  have one: "reviewed_only ?P ?Q js ?js" by (rule reviewed_only_update) simp_all
  have ih: "reviewed_only (\<lambda>k. k \<in> fst ` set rest) ?Q ?js (fst (evidence_pass env fa fr rest (?js, ?st)))
      \<and> s_reviews (snd (evidence_pass env fa fr rest (?js, ?st))) = s_reviews st
      \<and> s_added (snd (evidence_pass env fa fr rest (?js, ?st))) = s_added st
      \<and> s_removed (snd (evidence_pass env fa fr rest (?js, ?st))) = s_removed st"
    using "2.IH" [OF refl refl refl] by simp
  then have "reviewed_only ?P ?Q ?js (fst (evidence_pass env fa fr rest (?js, ?st)))"
    by (auto intro: reviewed_only_mono)
  with one have "reviewed_only ?P ?Q js (fst (evidence_pass env fa fr rest (?js, ?st)))"
    by (rule reviewed_only_trans)
  with ih show ?case by (simp add: eq del: evidence_pass.simps)
qed auto

section \<open>The device's replies\<close>

definition rejected_for :: "(nat \<Rightarrow> bool) \<Rightarrow> judgement list \<Rightarrow> judgement list \<Rightarrow> bool" where
  "rejected_for reason js js' \<longleftrightarrow> length js' = length js \<and>
     (\<forall>k<length js. j_command (js' ! k) = j_command (js ! k) \<and>
        (js' ! k = js ! k \<or> j_verdict (js ! k) = Review \<and> j_verdict (js' ! k) = Rejected \<and> reason k))"

lemma rejected_for_trans:
  "rejected_for P js js' \<Longrightarrow> rejected_for P js' js'' \<Longrightarrow> rejected_for P js js''"
  unfolding rejected_for_def by (metis verdict.distinct(41))

lemma rejected_for_mono: "rejected_for P js js' \<Longrightarrow> (\<And>k. P k \<Longrightarrow> P' k) \<Longrightarrow> rejected_for P' js js'"
  by (auto simp: rejected_for_def)

lemma reject_fields [simp]:
  "j_command (reject note j) = j_command j"
  "j_verdict (reject note j) = (if j_verdict j = Review then Rejected else j_verdict j)"
  by (simp_all add: reject_def)

lemma reject_other: "j_verdict j \<noteq> Review \<Longrightarrow> reject note j = j"
  by (simp add: reject_def)

lemma rejected_for_map:
  "rejected_for P js (map (\<lambda>(i, j). if P i then reject (note i) j else j) (enumerate 0 js))"
  by (auto simp: rejected_for_def nth_enumerate_eq reject_other)

text \<open>Command \<open>k\<close> was replied to, or the command that closed its block was.\<close>

definition reply_reason :: "judge_env \<Rightarrow> typed list \<Rightarrow> nat \<Rightarrow> bool" where
  "reply_reason env cs k \<longleftrightarrow> said env k \<or>
     (\<exists>m. k < m \<and> m < length cs \<and> said env m \<and> t_nav (cs ! m) \<and> (\<forall>i. k \<le> i \<and> i < m \<longrightarrow> \<not> t_nav (cs ! i)))"

lemma closing_reply_pass_rel:
  assumes "whole = take k whole @ cs" "k \<le> length whole" "\<forall>i. start \<le> i \<and> i < k \<longrightarrow> \<not> t_nav (whole ! i)"
  shows "rejected_for (reply_reason env whole) js (closing_reply_pass env start k cs js)"
  using assms
proof (induction env start k cs js rule: closing_reply_pass.induct)
  case (1 env start k js)
  then show ?case by (simp add: rejected_for_def)
next
  case (2 env start k c cs js)
  have k: "whole ! k = c" "k < length whole" "whole = take (Suc k) whole @ cs"
  proof -
    have d: "drop k whole = c # cs" using "2.prems"(1) by (metis append_take_drop_id same_append_eq)
    then show "k < length whole" by (metis drop_eq_Nil list.distinct(1) not_le)
    then show "whole ! k = c" using d by (metis nth_via_drop)
    have "drop (Suc k) whole = cs" using d by (metis drop_Suc tl_drop list.sel(3))
    then show "whole = take (Suc k) whole @ cs" by (metis append_take_drop_id)
  qed
  show ?case
  proof (cases "t_nav c")
    case False
    have "rejected_for (reply_reason env whole) js (closing_reply_pass env start (Suc k) cs js)"
    proof (rule "2.IH"(1) [OF False])
      show "\<forall>i. start \<le> i \<and> i < Suc k \<longrightarrow> \<not> t_nav (whole ! i)"
        using "2.prems"(3) k False by (auto simp: less_Suc_eq)
    qed (use k in auto)
    then show ?thesis using False by simp
  next
    case True
    let ?js = "if said env k then map (\<lambda>(i, j). if start \<le> i \<and> i < k then reject (closing_note c) j else j)
        (enumerate 0 js) else js"
    have "rejected_for (reply_reason env whole) js ?js"
    proof (cases "said env k")
      case True
      have "rejected_for (\<lambda>i. start \<le> i \<and> i < k) js ?js"
        using rejected_for_map [of "\<lambda>i. start \<le> i \<and> i < k" js "\<lambda>_. closing_note c"] True by simp
      then show ?thesis
        by (rule rejected_for_mono)
          (use True k \<open>t_nav c\<close> "2.prems"(3) in \<open>auto simp: reply_reason_def intro!: exI [of _ k]\<close>)
    next
      case False
      then show ?thesis by (simp add: rejected_for_def)
    qed
    moreover have "rejected_for (reply_reason env whole) ?js (closing_reply_pass env (Suc k) (Suc k) cs ?js)"
      by (rule "2.IH"(2)) (use True k in auto)
    ultimately have "rejected_for (reply_reason env whole) js (closing_reply_pass env (Suc k) (Suc k) cs ?js)"
      by (rule rejected_for_trans)
    then show ?thesis using True by simp
  qed
qed

lemma replied_pass_rel: "rejected_for (reply_reason env cs) js (replied_pass env cs js)"
proof -
  have "rejected_for (said env) js (own_reply_pass env js)"
    unfolding own_reply_pass_def by (rule rejected_for_map)
  then have "rejected_for (reply_reason env cs) js (own_reply_pass env js)"
    by (rule rejected_for_mono) (simp add: reply_reason_def)
  then show ?thesis
    unfolding replied_pass_def by (rule rejected_for_trans) (rule closing_reply_pass_rel; simp)
qed

lemma replied_pass_silent:
  assumes "k < length js" "j_verdict (replied_pass env cs js ! k) = Review"
  shows "\<not> said env k"
proof
  assume "said env k"
  then have "j_verdict (own_reply_pass env js ! k) \<noteq> Review"
    using assms(1) by (simp add: own_reply_pass_def nth_enumerate_eq)
  moreover have "rejected_for (reply_reason env cs) (own_reply_pass env js) (replied_pass env cs js)"
    unfolding replied_pass_def by (rule closing_reply_pass_rel) simp_all
  moreover have "length (own_reply_pass env js) = length js" by (simp add: own_reply_pass_def)
  ultimately show False using assms unfolding rejected_for_def by (metis verdict.distinct(41))
qed

end
