(* ===== verification/Evidence_Properties.thy ===== *)
theory Evidence_Properties
  imports Judge_Passes Evidence_Parse
begin

text \<open>
  What \<open>src/rollout/evidence.py\<close> promises, as properties of \<open>judge\<close>, \<open>compare\<close>,
  \<open>parse\<close> and the matching of words. The lemmas before them put the passes of
  \<open>Judge_Passes\<close> together.
\<close>

section \<open>The run as a whole\<close>

lemma record_ok_run: "record_ok env (length cs) (snd (judge_loop env 0 cs judge_start))"
  using record_ok_judge_loop [of env 0 judge_start cs]
  by (simp add: record_ok_def claims_ok_def judge_start_def)

lemma run_stages:
  obtains js0 st0 js1 r2 js3 where
    "judge_loop env 0 cs judge_start = (js0, st0)"
    "js1 = conflicts env st0 js0"
    "defaults_rel env cs (s_reviews st0) (js1, st0) r2"
    "reviewed_only (\<lambda>k. k \<in> fst ` set (s_reviews (snd r2))) (\<lambda>j. j_verdict j = Review) (fst r2) js3"
    "fst (judge_passes env cs) = replied_pass env cs js3"
    "s_added (snd (judge_passes env cs)) = s_added st0"
    "s_removed (snd (judge_passes env cs)) = s_removed st0"
proof -
  obtain js0 st0 where loop: "judge_loop env 0 cs judge_start = (js0, st0)" by fastforce
  let ?js1 = "conflicts env st0 js0"
  let ?r2 = "if e_view env = [] then (?js1, st0) else defaults_pass env cs (s_reviews st0) (?js1, st0)"
  let ?r3 = "review_evidence env ?r2"
  have def: "defaults_rel env cs (s_reviews st0) (?js1, st0) ?r2"
  proof (cases "e_view env = []")
    case True
    then show ?thesis by (simp add: defaults_rel_def)
  next
    case False
    then show ?thesis using defaults_pass_rel by (simp only: if_False)
  qed
  have ev: "reviewed_only (\<lambda>k. k \<in> fst ` set (s_reviews (snd ?r2))) (\<lambda>j. j_verdict j = Review)
      (fst ?r2) (fst ?r3) \<and> s_added (snd ?r3) = s_added (snd ?r2) \<and> s_removed (snd ?r3) = s_removed (snd ?r2)"
    unfolding review_evidence_def using evidence_pass_rel by blast
  have run: "judge_passes env cs = (replied_pass env cs (fst ?r3), snd ?r3)"
    unfolding judge_passes_def Let_def loop by (simp only: prod.case split_beta fst_conv snd_conv)
  have "s_added (snd ?r2) = s_added st0" "s_removed (snd ?r2) = s_removed st0"
    using def by (auto simp: defaults_rel_def)
  then show ?thesis
    using that [OF loop refl def, of "fst ?r3"] ev run by simp
qed

lemma claim_of_judged:
  assumes "judge_loop env 0 cs judge_start = (js, st)"
    and "claimed (s_added st) index k \<or> claimed (s_removed st) index k"
  shows "k < length cs \<and> judged_command (cs ! k) \<and> j_verdict (js ! k) \<in> {TookEffect, Removed}"
  using assms(2) claims_judge_loop [OF assms(1), of index k]
  by (auto simp: judge_start_def claimed_def dict_get_def rests_on_def judged_command_def)

lemma conflicts_only:
  assumes "judge_loop env 0 cs judge_start = (js, st)"
  shows "reviewed_only (\<lambda>k. judged_command (cs ! k) \<and> k \<notin> fst ` set (s_reviews st)) in_conflict js
           (conflicts env st js)"
proof -
  have claims: "distinct (map fst (s_added st))" "distinct (map fst (s_removed st))"
    using record_ok_run [of env cs] assms by (auto simp: record_ok_def claims_ok_def)
  have may: "judged_command (cs ! k) \<and> k \<notin> fst ` set (s_reviews st)"
    if "(index, who) \<in> set (s_added st) \<or> (index, who) \<in> set (s_removed st)" "k \<in> set who" for index who k
  proof -
    from that claims have "claimed (s_added st) index k \<or> claimed (s_removed st) index k"
      by (auto intro: claimed_entry)
    from claim_of_judged [OF assms this] show ?thesis
      using reviews_of_run [OF assms] by fastforce
  qed
  have "reviewed_only (\<lambda>k. judged_command (cs ! k) \<and> k \<notin> fst ` set (s_reviews st)) in_conflict js
      (conflict_pass ''+'' (e_added env) (s_added st) js)"
    by (rule reviewed_only_mono [OF conflict_pass_only]) (use may in blast)+
  moreover have "reviewed_only (\<lambda>k. judged_command (cs ! k) \<and> k \<notin> fst ` set (s_reviews st)) in_conflict
      (conflict_pass ''+'' (e_added env) (s_added st) js) (conflicts env st js)"
    unfolding conflicts_def by (rule reviewed_only_mono [OF conflict_pass_only]) (use may in blast)+
  ultimately show ?thesis by (rule reviewed_only_trans)
qed

lemma all_justified_loop:
  assumes "judge_loop env 0 cs judge_start = (js, st)"
  shows "all_justified env cs js"
  using judge_loop_length [of env 0 cs judge_start] judge_loop_justified [OF assms] assms
  by (simp add: all_justified_def)

lemma all_justified_rejected:
  assumes "all_justified env cs js" "rejected_for P js js'"
  shows "all_justified env cs js'"
  unfolding all_justified_def
proof (intro conjI allI impI)
  show "length js' = length cs" using assms by (simp add: all_justified_def rejected_for_def)
next
  fix k assume k: "k < length cs"
  let ?j = "justified env (judge_states env 0 cs judge_start ! k) k (cs ! k) (next_words (drop (Suc k) cs))"
  have old: "?j (js ! k)" and len: "k < length js" using assms(1) k by (auto simp: all_justified_def)
  from assms(2) len consider "js' ! k = js ! k"
    | "j_verdict (js ! k) = Review" "j_verdict (js' ! k) = Rejected" "j_command (js' ! k) = j_command (js ! k)"
    unfolding rejected_for_def by blast
  then show "?j (js' ! k)"
    by cases (use old in \<open>auto simp: justified_def\<close>)
qed

lemma all_justified_run: "all_justified env cs (fst (judge_passes env cs))"
proof (rule run_stages [of env cs])
  fix js0 st0 js1 r2 js3
  assume loop: "judge_loop env 0 cs judge_start = (js0, st0)" and js1: "js1 = conflicts env st0 js0"
    and def: "defaults_rel env cs (s_reviews st0) (js1, st0) r2"
    and ev: "reviewed_only (\<lambda>k. k \<in> fst ` set (s_reviews (snd r2))) (\<lambda>j. j_verdict j = Review) (fst r2) js3"
    and run: "fst (judge_passes env cs) = replied_pass env cs js3"
  have "all_justified env cs js1"
    unfolding js1
    by (rule all_justified_reviewed [OF all_justified_loop [OF loop] conflicts_only [OF loop]])
      (simp_all add: in_conflict_def)
  then have "all_justified env cs (fst r2)"
    using all_justified_defaults [OF loop _ def] by simp
  then have "all_justified env cs js3"
  proof (rule all_justified_reviewed [OF _ ev])
    fix k assume "k \<in> fst ` set (s_reviews (snd r2))"
    then obtain p where "(k, p) \<in> set (s_reviews st0)" using def by (auto simp: defaults_rel_def)
    then show "judged_command (cs ! k)" using reviews_of_run [OF loop] by blast
  qed simp
  then show ?thesis unfolding run by (rule all_justified_rejected) (rule replied_pass_rel)
qed

section \<open>One line proves one command\<close>

definition proven :: "judgement \<Rightarrow> bool" where
  "proven j \<longleftrightarrow> j_verdict j \<in> {TookEffect, Removed}"

lemma conflict_stays:
  assumes loop: "judge_loop env 0 cs judge_start = (js0, st0)"
    and def: "defaults_rel env cs (s_reviews st0) (js1, st0) r2"
    and ev: "reviewed_only (\<lambda>k. k \<in> fst ` set (s_reviews (snd r2))) (\<lambda>j. j_verdict j = Review) (fst r2) js3"
    and k: "k < length js1" "in_conflict (js1 ! k)"
  shows "\<not> proven (replied_pass env cs js3 ! k)"
proof -
  have len: "length (fst r2) = length js1" "length js3 = length js1"
    using def ev by (simp_all add: defaults_rel_def reviewed_only_def)
  have "fst r2 ! k = js1 ! k"
    using def k unfolding defaults_rel_def in_conflict_def by fastforce
  then have "j_verdict (js3 ! k) = Review"
    using reviewed_only_keeps [OF ev, of k] k len by (simp add: in_conflict_def)
  then show ?thesis
    using replied_pass_rel [of env cs js3] k len unfolding rejected_for_def proven_def by fastforce
qed

lemma js1_commands:
  assumes "judge_loop env 0 cs judge_start = (js0, st0)" "k < length cs"
  shows "j_command (js0 ! k) = t_sent (cs ! k)" "length js0 = length cs"
  using all_justified_loop [OF assms(1)] assms(2) by (auto simp: all_justified_def justified_def)

lemma conflicts_mark:
  assumes loop: "judge_loop env 0 cs judge_start = (js0, st0)"
    and "claimed (s_added st0) index a \<and> claimed (s_added st0) index b
       \<or> claimed (s_removed st0) index a \<and> claimed (s_removed st0) index b"
    and "normalize (t_sent (cs ! a)) \<noteq> normalize (t_sent (cs ! b))"
  shows "in_conflict (conflicts env st0 js0 ! a)"
proof -
  have rec: "\<forall>(i, w)\<in>set (s_added st0). \<forall>c\<in>set w. c < length cs" "distinct (map fst (s_added st0))"
    "\<forall>(i, w)\<in>set (s_removed st0). \<forall>c\<in>set w. c < length cs" "distinct (map fst (s_removed st0))"
    using record_ok_run [of env cs] loop by (auto simp: record_ok_def claims_ok_def)
  have ab: "a < length cs" "b < length cs"
    using assms(2) claim_of_judged [OF loop] by blast+
  note cmd = js1_commands [OF loop]
  let ?js1 = "conflict_pass ''+'' (e_added env) (s_added st0) js0"
  have only: "reviewed_only (\<lambda>k. \<exists>index who. (index, who) \<in> set (s_added st0) \<and> k \<in> set who) in_conflict js0 ?js1"
    by (rule conflict_pass_only)
  have len: "length ?js1 = length cs" using reviewed_only_length [OF only] cmd(2) [OF ab(1)] by simp
  from assms(2) show ?thesis
  proof
    assume "claimed (s_added st0) index a \<and> claimed (s_added st0) index b"
    then obtain who where who: "(index, who) \<in> set (s_added st0)" "a \<in> set who" "b \<in> set who"
      using rec(2) claimed_in by (metis eq_key_imp_eq_value)
    have "in_conflict (?js1 ! a)"
      by (rule conflict_pass_marks [OF who(1) _ who(2,3)]) (use rec(1) cmd ab assms(3) in auto)
    then show ?thesis
      unfolding conflicts_def using reviewed_only_keeps [OF conflict_pass_only, of a ?js1] len ab by simp
  next
    assume "claimed (s_removed st0) index a \<and> claimed (s_removed st0) index b"
    then obtain who where who: "(index, who) \<in> set (s_removed st0)" "a \<in> set who" "b \<in> set who"
      using rec(4) claimed_in by (metis eq_key_imp_eq_value)
    have "j_command (?js1 ! a) = t_sent (cs ! a)" "j_command (?js1 ! b) = t_sent (cs ! b)"
      using reviewed_only_command [OF only] cmd ab by auto
    then show ?thesis
      unfolding conflicts_def
      by (intro conflict_pass_marks [OF who(1) _ who(2,3)]) (use rec(3) len assms(3) in auto)
  qed
qed

lemma shared_line:
  assumes "claimed (s_added (snd (judge_passes env cs))) index a
         \<and> claimed (s_added (snd (judge_passes env cs))) index b
       \<or> claimed (s_removed (snd (judge_passes env cs))) index a
         \<and> claimed (s_removed (snd (judge_passes env cs))) index b"
    and "proven (fst (judge_passes env cs) ! a)"
  shows "normalize (t_sent (cs ! a)) = normalize (t_sent (cs ! b))"
proof (rule run_stages [of env cs])
  fix js0 st0 js1 r2 js3
  assume loop: "judge_loop env 0 cs judge_start = (js0, st0)" and js1: "js1 = conflicts env st0 js0"
    and def: "defaults_rel env cs (s_reviews st0) (js1, st0) r2"
    and ev: "reviewed_only (\<lambda>k. k \<in> fst ` set (s_reviews (snd r2))) (\<lambda>j. j_verdict j = Review) (fst r2) js3"
    and run: "fst (judge_passes env cs) = replied_pass env cs js3"
    and st: "s_added (snd (judge_passes env cs)) = s_added st0"
      "s_removed (snd (judge_passes env cs)) = s_removed st0"
  note cl = assms(1) [unfolded st]
  show ?thesis
  proof (rule ccontr)
    assume ne: "normalize (t_sent (cs ! a)) \<noteq> normalize (t_sent (cs ! b))"
    have a: "a < length cs" using cl claim_of_judged [OF loop] by blast
    have "length js1 = length cs"
      using reviewed_only_length [OF conflicts_only [OF loop]] js1_commands(2) [OF loop a] by (simp add: js1)
    with conflict_stays [OF loop def ev] conflicts_mark [OF loop cl ne] a
    have "\<not> proven (fst (judge_passes env cs) ! a)" by (simp add: run js1)
    then show False using assms(2) by simp
  qed
qed

section \<open>What a proven command rests on\<close>

definition types_one :: "bool \<Rightarrow> string list \<Rightarrow> string list \<Rightarrow> string \<Rightarrow> string list \<Rightarrow> typed list \<Rightarrow> bool" where
  "types_one flat exec_words navigation c cs ts \<longleftrightarrow>
     (\<exists>t p. ts = t # typed_from flat exec_words navigation p cs \<and> t_sent t = c
        \<and> (judged_command t \<longrightarrow> t_words t \<noteq> []))"

lemma types_one_if:
  "(b \<Longrightarrow> types_one f e n c cs ts) \<Longrightarrow> (\<not> b \<Longrightarrow> types_one f e n c cs us) \<Longrightarrow>
     types_one f e n c cs (if b then ts else us)"
  by simp

lemma types_one_entry:
  "t_nav t \<or> t_exec t \<or> t_words t \<noteq> [] \<Longrightarrow> t_sent t = c \<Longrightarrow>
     types_one f e n c cs (t # typed_from f e n p cs)"
  by (auto simp: types_one_def judged_command_def)

lemma typed_from_types_one: "types_one f e n c cs (typed_from f e n p (c # cs))"
  unfolding typed_from.simps Let_def by (intro types_one_if types_one_entry) auto

lemma typed_from_sent: "map t_sent (typed_from flat exec_words navigation p commands) = commands"
proof (induction commands arbitrary: p)
  case (Cons c cs)
  then show ?case
    using typed_from_types_one [of flat exec_words navigation c cs p]
    unfolding types_one_def by (elim exE conjE) (simp del: typed_from.simps)
qed simp

lemma length_typed_for [simp]: "length (typed_for g commands) = length commands"
proof -
  have "map t_sent (typed_for g commands) = commands"
    by (simp add: typed_for_def typed_commands_def typed_from_sent)
  then show ?thesis by (metis length_map)
qed

lemma nth_typed_for: "k < length commands \<Longrightarrow> t_sent (typed_for g commands ! k) = commands ! k"
proof -
  assume k: "k < length commands"
  have "map t_sent (typed_for g commands) ! k = commands ! k"
    by (simp add: typed_for_def typed_commands_def typed_from_sent)
  with k show ?thesis by simp
qed

text \<open>A command that is judged has words (\<open>command.words[0]\<close> never fails).\<close>

lemma typed_from_words:
  "c \<in> set (typed_from flat exec_words navigation p commands) \<Longrightarrow> judged_command c \<Longrightarrow> t_words c \<noteq> []"
proof (induction commands arbitrary: p)
  case (Cons d cs)
  then show ?case
    using typed_from_types_one [of flat exec_words navigation d cs p]
    unfolding types_one_def by (elim exE conjE) (auto simp del: typed_from.simps)
qed simp

text \<open>The judge always knows its section: the source's \<open>None\<close> context never occurs.\<close>

definition knows_section :: "judge_state \<Rightarrow> bool" where
  "knows_section st \<longleftrightarrow> s_context st \<noteq> None"

lemma knows_section_simps [simp]:
  "knows_section (enter env l p st)"
  "knows_section (claim_added index i st) = knows_section st"
  "knows_section (claim_removed index i st) = knows_section st"
  "knows_section (snd (review env i c st)) = knows_section st"
  "knows_section (st\<lparr>s_context := Some x\<rparr>)"
  by (simp_all add: knows_section_def enter_def claim_added_def claim_removed_def review_def)

lemma knows_section_navigate: "knows_section st \<Longrightarrow> knows_section (navigate env c st)"
  unfolding navigate_def by (auto split: list.split option.split)

lemma knows_section_setting: "knows_section st \<Longrightarrow> knows_section (snd (setting env i c following st))"
  unfolding setting_def by (auto split: option.split found.split)

lemma knows_section_removal: "knows_section st \<Longrightarrow> knows_section (snd (removal env i c st))"
proof -
  obtain target where target: "drop (Suc 0) (t_words c) = target" by simp
  show "knows_section st \<Longrightarrow> ?thesis"
    by (auto simp: removal_def Let_def target split: option.split found.split)
qed

lemma knows_section_judge_one:
  "knows_section st \<Longrightarrow> knows_section (snd (judge_one env i c rest st))"
  by (simp add: judge_one_def knows_section_navigate knows_section_setting knows_section_removal)

lemma section_known: "knows_section st \<Longrightarrow> list_all knows_section (judge_states env i cs st)"
proof (induction env i cs st rule: judge_states.induct)
  case (2 env i c cs st)
  then show ?case by (simp add: knows_section_judge_one)
qed simp

text \<open>A command proven by the loop has claimed its line.\<close>

definition claims_of :: "judge_state \<Rightarrow> nat \<Rightarrow> bool" where
  "claims_of st k \<longleftrightarrow> (\<exists>index. claimed (s_added st) index k \<or> claimed (s_removed st) index k)"

lemma claims_of_review [simp]: "claims_of (snd (review env i c st)) k = claims_of st k"
  by (simp add: review_def claims_of_def)

lemma claims_of_simps [simp]:
  "claims_of (enter env l p st) k = claims_of st k"
  "claims_of (navigate env c st) k = claims_of st k"
  "claims_of (st\<lparr>s_context := x\<rparr>) k = claims_of st k"
  "claims_of (claim_added index i st) k \<longleftrightarrow> claims_of st k \<or> k = i"
  "claims_of (claim_removed index i st) k \<longleftrightarrow> claims_of st k \<or> k = i"
  by (auto simp: claims_of_def)

definition claims_when_proven :: "nat \<Rightarrow> judge_state \<Rightarrow> judgement \<times> judge_state \<Rightarrow> bool" where
  "claims_when_proven i st r \<longleftrightarrow> (proven (fst r) \<longrightarrow> claims_of (snd r) i)
     \<and> (\<forall>k. claims_of st k \<longrightarrow> claims_of (snd r) k)"

lemma claims_when_proven_judge_one: "claims_when_proven i st (judge_one env i c rest st)"
proof -
  have rev: "claims_when_proven i st (review env i c st)"
    by (simp add: claims_when_proven_def) (simp add: review_def proven_def)
  have set: "claims_when_proven i st (setting env i c following st)" for following
    using rev by (auto simp: setting_def split: option.splits found.splits)
      (auto simp: claims_when_proven_def proven_def judged_def)
  have rem: "claims_when_proven i st (removal env i c st)"
  proof -
    obtain target where target: "drop (Suc 0) (t_words c) = target" by simp
    show ?thesis using rev by (auto simp: removal_def Let_def target split: option.splits found.splits)
      (auto simp: claims_when_proven_def proven_def judged_def)
  qed
  show ?thesis using set rem
    by (auto simp: judge_one_def) (auto simp: claims_when_proven_def proven_def judged_def)
qed

lemma proven_claims_loop:
  assumes "judge_loop env i cs st = (js, st')"
  shows "(\<forall>k. claims_of st k \<longrightarrow> claims_of st' k)
     \<and> (\<forall>k<length cs. proven (js ! k) \<longrightarrow> claims_of st' (i + k))"
  using assms
proof (induction cs arbitrary: i st js)
  case (Cons c cs)
  obtain j st1 where one: "judge_one env i c cs st = (j, st1)" by fastforce
  obtain js2 st2 where rest: "judge_loop env (Suc i) cs st1 = (js2, st2)" by fastforce
  have js: "js = j # js2" "st' = st2" using Cons.prems one rest by auto
  have step: "proven j \<longrightarrow> claims_of st1 i" "\<forall>k. claims_of st k \<longrightarrow> claims_of st1 k"
    using claims_when_proven_judge_one [of i st env c cs] one by (auto simp: claims_when_proven_def)
  have ih: "\<forall>k. claims_of st1 k \<longrightarrow> claims_of st' k"
    "\<forall>k<length cs. proven (js2 ! k) \<longrightarrow> claims_of st' (Suc i + k)"
    using Cons.IH [of "Suc i" st1 js2] rest js(2) by auto
  show ?case
  proof (intro conjI allI impI)
    fix k assume "k < length (c # cs)" "proven (js ! k)"
    then show "claims_of st' (i + k)" using step ih by (cases k) (auto simp: js(1))
  qed (use step ih in auto)
qed simp

lemma proven_at_end:
  assumes "k < length cs" "proven (fst (judge_passes env cs) ! k)"
  shows "claims_of (snd (judge_passes env cs)) k"
proof (rule run_stages [of env cs])
  fix js0 st0 js1 r2 js3
  assume loop: "judge_loop env 0 cs judge_start = (js0, st0)" and js1: "js1 = conflicts env st0 js0"
    and def: "defaults_rel env cs (s_reviews st0) (js1, st0) r2"
    and ev: "reviewed_only (\<lambda>k. k \<in> fst ` set (s_reviews (snd r2))) (\<lambda>j. j_verdict j = Review) (fst r2) js3"
    and run: "fst (judge_passes env cs) = replied_pass env cs js3"
    and st: "s_added (snd (judge_passes env cs)) = s_added st0"
      "s_removed (snd (judge_passes env cs)) = s_removed st0"
  note only = conflicts_only [OF loop]
  have len: "length js0 = length cs" "length js1 = length cs" "length (fst r2) = length cs" "length js3 = length cs"
    using js1_commands(2) [OF loop assms(1)] reviewed_only_length [OF only] def ev
    by (simp_all add: js1 defaults_rel_def reviewed_only_def)
  have "replied_pass env cs js3 ! k = js3 ! k"
    using replied_pass_rel [of env cs js3] assms len by (auto simp: rejected_for_def run proven_def)
  moreover have "js3 ! k = fst r2 ! k \<or> \<not> proven (js3 ! k)"
    using ev assms(1) len by (auto simp: reviewed_only_def proven_def)
  moreover have "fst r2 ! k = js1 ! k \<or> \<not> proven (fst r2 ! k)"
    using def assms(1) len by (fastforce simp: defaults_rel_def proven_def shown_default_def)
  moreover have "js1 ! k = js0 ! k \<or> \<not> proven (js1 ! k)"
    using only assms(1) len by (auto simp: reviewed_only_def proven_def js1 in_conflict_def)
  ultimately have "proven (js0 ! k)" using assms(2) unfolding run by metis
  then have "claims_of st0 k" using proven_claims_loop [OF loop] assms(1) by auto
  then show ?thesis by (simp add: claims_of_def st)
qed

section \<open>Rejections come last\<close>

lemma never_rejected_one: "j_verdict (fst (judge_one env i c rest st)) \<noteq> Rejected"
proof -
  have set: "j_verdict (fst (setting env i c following st)) \<noteq> Rejected" for following
    by (simp add: setting_def judged_def review_def split: option.split found.split)
  have rem: "j_verdict (fst (removal env i c st)) \<noteq> Rejected"
  proof -
    obtain target where target: "drop (Suc 0) (t_words c) = target" by simp
    show ?thesis
      by (simp add: removal_def Let_def target judged_def review_def split: option.split found.split)
  qed
  show ?thesis using set rem by (simp add: judge_one_def) (simp add: judged_def)
qed

lemma never_rejected:
  "judge_loop env i cs st = (js, st') \<Longrightarrow> k < length cs \<Longrightarrow> j_verdict (js ! k) \<noteq> Rejected"
proof (induction cs arbitrary: i st js k)
  case (Cons c cs)
  then show ?case using never_rejected_one [of env i c cs st]
    by (cases k) (auto simp: split_beta Let_def)
qed simp

section \<open>The changes\<close>

lemma split_filter_mset:
  "image_mset f (filter_mset p A) + image_mset f (filter_mset (\<lambda>x. \<not> p x) A) = image_mset f A"
  by (metis image_mset_union multiset_partition)

lemma enumerate_snd: "map (\<lambda>(i, l). f l) (enumerate k ls) = map f ls"
  by (induction ls arbitrary: k) simp_all

lemma changes_lines:
  "map (\<lambda>c. (c_sign c, c_line c)) (changes env st) =
     map (\<lambda>l. (''+'', raw_of l)) (e_added env) @ map (\<lambda>l. (''-'', raw_of l)) (e_removed env)
     @ map (\<lambda>(sign, l). (sign, raw_of l)) (e_churned env)"
proof -
  have "map (\<lambda>c. (c_sign c, c_line c)) (changes env st) =
     map (\<lambda>(i, l). (''+'', raw_of l)) (enumerate 0 (e_added env))
     @ map (\<lambda>(i, l). (''-'', raw_of l)) (enumerate 0 (e_removed env))
     @ map (\<lambda>(sign, l). (sign, raw_of l)) (e_churned env)"
    by (simp add: changes_def case_prod_beta comp_def)
  then show ?thesis by (simp only: enumerate_snd)
qed

lemma changes_account:
  assumes "claims_of st k" "record_ok env n st"
  shows "\<exists>c\<in>set (changes env st). k \<in> set (c_by c) \<and> \<not> c_device c"
proof -
  obtain index where cl: "claimed (s_added st) index k \<or> claimed (s_removed st) index k"
    using assms(1) by (auto simp: claims_of_def)
  then show ?thesis
  proof
    assume a: "claimed (s_added st) index k"
    then have "index < length (e_added env)"
      using assms(2) claimed_in [OF a] by (auto simp: record_ok_def claims_ok_def)
    then have "(index, e_added env ! index) \<in> set (enumerate 0 (e_added env))"
      by (simp add: in_set_enumerate_eq)
    moreover have "k \<in> set (first_claimed (dict_get (s_added st) index # rest))" for rest
      using a by (auto simp: first_claimed_def claimed_def)
    ultimately show ?thesis
      unfolding changes_def set_append set_map bex_Un bex_simps
      by (intro disjI1 bexI [of _ "(index, e_added env ! index)"]) simp_all
  next
    assume a: "claimed (s_removed st) index k"
    then have "index < length (e_removed env)"
      using assms(2) claimed_in [OF a] by (auto simp: record_ok_def claims_ok_def)
    then have "(index, e_removed env ! index) \<in> set (enumerate 0 (e_removed env))"
      by (simp add: in_set_enumerate_eq)
    moreover have "k \<in> set (first_claimed (dict_get (s_removed st) index # rest))" for rest
      using a by (auto simp: first_claimed_def claimed_def)
    ultimately show ?thesis
      unfolding changes_def set_append set_map bex_Un bex_simps
      by (intro disjI2 disjI1 bexI [of _ "(index, e_removed env ! index)"]) simp_all
  qed
qed

lemma record_ok_passes: "record_ok env (length cs) (snd (judge_passes env cs))"
proof (rule run_stages [of env cs])
  fix js0 st0
  assume "judge_loop env 0 cs judge_start = (js0, st0)"
    "s_added (snd (judge_passes env cs)) = s_added st0" "s_removed (snd (judge_passes env cs)) = s_removed st0"
  then show ?thesis using record_ok_run [of env cs] by (simp add: record_ok_def)
qed

lemma judge_fields:
  "o_commands (judge g commands prior after again replied defaults) =
     fst (judge_passes (judge_env_for g prior after again replied defaults) (typed_for g commands))"
  "o_changes (judge g commands prior after again replied defaults) =
     changes (judge_env_for g prior after again replied defaults)
       (snd (judge_passes (judge_env_for g prior after again replied defaults) (typed_for g commands)))"
  by (simp_all add: judge_def run_judge_def Let_def split_beta)

lemma length_judge [simp]: "length (o_commands (judge g commands prior after again replied defaults)) = length commands"
  using all_justified_run [of _ "typed_for g commands"] by (simp add: judge_fields all_justified_def)

definition parsed :: "grammar \<Rightarrow> string \<Rightarrow> line list" where
  "parsed g config = parse config (g_flat g) (g_navigation g)"

lemma judge_env_for_lines:
  fixes g prior after again replied defaults
  defines "d \<equiv> compare (parsed g prior) (parsed g after)"
    and "env \<equiv> judge_env_for g prior after again replied defaults"
  obtains churn where "e_added env = filter (\<lambda>l. \<not> is_noise l churn) (added_lines d)"
    "e_removed env = filter (\<lambda>l. \<not> is_noise l churn) (removed_lines d)"
    "e_churned env = map (Pair ''+'') (filter (\<lambda>l. is_noise l churn) (added_lines d))
                 @ map (Pair ''-'') (filter (\<lambda>l. is_noise l churn) (removed_lines d))"
  by (rule that) (simp_all add: env_def d_def judge_env_for_def judge_env_of_def parsed_def Let_def)

section \<open>Properties of the judge\<close>

text \<open>C2: every verdict of \<open>judge\<close> is justified: took effect, removed, in place and already
  absent each name the device's line that proves them, found in the section the command was
  judged in (or one around it, or the defaults view's same section); navigation and exec words
  get only their own verdict, and no other command does.\<close>

theorem judge_justified:
  "all_justified (judge_env_for g prior after again replied defaults) (typed_for g commands)
     (o_commands (judge g commands prior after again replied defaults))"
  unfolding judge_fields by (rule all_justified_run)

text \<open>the outcome has one verdict per command, in the order the commands were sent.\<close>

theorem judge_answers_each:
  "map j_command (o_commands (judge g commands prior after again replied defaults)) = commands"
proof (rule nth_equalityI)
  fix k assume k: "k < length (map j_command (o_commands (judge g commands prior after again replied defaults)))"
  then have "k < length (typed_for g commands)" by simp
  then show "map j_command (o_commands (judge g commands prior after again replied defaults)) ! k = commands ! k"
    using all_justified_run [of "judge_env_for g prior after again replied defaults" "typed_for g commands"] k
    by (simp add: judge_fields all_justified_def justified_def nth_typed_for)
qed simp

text \<open>C3: a command is rejected only when the device replied to it, or to the navigation command
  that closed its block (with no other closing one between); and a command the device replied to
  never stays in review.\<close>

theorem judge_rejects_replied:
  "{k. k < length commands \<and> j_verdict (o_commands (judge g commands prior after again replied defaults) ! k) = Rejected}
     \<subseteq> {k. reply_reason (judge_env_for g prior after again replied defaults) (typed_for g commands) k}
   \<and> {k. k < length commands \<and> j_verdict (o_commands (judge g commands prior after again replied defaults) ! k) = Review}
     \<inter> {k. said (judge_env_for g prior after again replied defaults) k} = {}"
proof -
  let ?env = "judge_env_for g prior after again replied defaults" and ?cs = "typed_for g commands"
  show ?thesis
  proof (rule run_stages [of ?env ?cs])
    fix js0 st0 js1 r2 js3
    assume loop: "judge_loop ?env 0 ?cs judge_start = (js0, st0)" and js1: "js1 = conflicts ?env st0 js0"
      and def: "defaults_rel ?env ?cs (s_reviews st0) (js1, st0) r2"
      and ev: "reviewed_only (\<lambda>k. k \<in> fst ` set (s_reviews (snd r2))) (\<lambda>j. j_verdict j = Review) (fst r2) js3"
      and run: "fst (judge_passes ?env ?cs) = replied_pass ?env ?cs js3"
    have "length (replied_pass ?env ?cs js3) = length js3"
      using replied_pass_rel [of ?env ?cs js3] by (simp add: rejected_for_def)
    then have len: "length js3 = length commands"
      using length_judge [of g commands prior after again replied defaults] by (simp add: judge_fields run)
    have loop_ok: "j_verdict (js0 ! k) \<noteq> Rejected" if "k < length commands" for k
      using never_rejected [OF loop] that by simp
    have no_reject: "j_verdict (js3 ! k) \<noteq> Rejected" if k: "k < length commands" for k
    proof -
      have l: "length js0 = length commands" "length js1 = length commands" "length (fst r2) = length commands"
        using js1_commands(2) [OF loop, of k] reviewed_only_length [OF conflicts_only [OF loop]] def k
        by (simp_all add: js1 defaults_rel_def)
      have "j_verdict (js1 ! k) \<noteq> Rejected"
        using conflicts_only [OF loop] loop_ok [OF k] k l by (auto simp: reviewed_only_def js1 in_conflict_def)
      then have "j_verdict (fst r2 ! k) \<noteq> Rejected"
        using def k l by (fastforce simp: defaults_rel_def shown_default_def)
      then show ?thesis using ev k l by (auto simp: reviewed_only_def)
    qed
    show ?thesis
      using replied_pass_rel [of ?env ?cs js3] no_reject replied_pass_silent [of _ js3 ?env ?cs] len
      by (auto simp: judge_fields run rejected_for_def)
  qed
qed

definition shares_line :: "judge_state \<Rightarrow> nat \<Rightarrow> nat \<Rightarrow> bool" where
  "shares_line st a b \<longleftrightarrow> (\<exists>index. claimed (s_added st) index a \<and> claimed (s_added st) index b
     \<or> claimed (s_removed st) index a \<and> claimed (s_removed st) index b)"

text \<open>one changed line never proves two different commands: when a command proven by the
  final verdicts shares a claimed line with another, the two are the same command (after
  normalization).\<close>

theorem one_line_one_command:
  "{(a, b). shares_line (snd (judge_passes env cs)) a b \<and> proven (fst (judge_passes env cs) ! a)}
     \<subseteq> {(a, b). normalize (t_sent (cs ! a)) = normalize (t_sent (cs ! b))}"
proof clarify
  fix a b
  assume "shares_line (snd (judge_passes env cs)) a b" and p: "proven (fst (judge_passes env cs) ! a)"
  then obtain index where "claimed (s_added (snd (judge_passes env cs))) index a
         \<and> claimed (s_added (snd (judge_passes env cs))) index b
       \<or> claimed (s_removed (snd (judge_passes env cs))) index a
         \<and> claimed (s_removed (snd (judge_passes env cs))) index b"
    unfolding shares_line_def by blast
  from shared_line [OF this p] show "normalize (t_sent (cs ! a)) = normalize (t_sent (cs ! b))" .
qed

text \<open>the changes of an outcome are exactly the lines the two snapshots differ by, each with
  its sign, the device's own churn included: none is dropped, none is invented.\<close>

theorem judge_changes_complete:
  "mset (map (\<lambda>c. (c_sign c, c_line c)) (o_changes (judge g commands prior after again replied defaults))) =
     image_mset (\<lambda>l. (''+'', raw_of l)) (mset (added_lines (compare (parsed g prior) (parsed g after))))
   + image_mset (\<lambda>l. (''-'', raw_of l)) (mset (removed_lines (compare (parsed g prior) (parsed g after))))"
proof (rule judge_env_for_lines [of g prior after again replied defaults])
  fix churn
  let ?env = "judge_env_for g prior after again replied defaults"
  let ?a = "added_lines (compare (parsed g prior) (parsed g after))"
  let ?r = "removed_lines (compare (parsed g prior) (parsed g after))"
  assume "e_added ?env = filter (\<lambda>l. \<not> is_noise l churn) ?a"
    "e_removed ?env = filter (\<lambda>l. \<not> is_noise l churn) ?r"
    "e_churned ?env = map (Pair ''+'') (filter (\<lambda>l. is_noise l churn) ?a)
                 @ map (Pair ''-'') (filter (\<lambda>l. is_noise l churn) ?r)"
  then have "mset (map (\<lambda>c. (c_sign c, c_line c)) (o_changes (judge g commands prior after again replied defaults))) =
      image_mset (\<lambda>l. (''+'', raw_of l)) (filter_mset (\<lambda>l. is_noise l churn) (mset ?a))
    + image_mset (\<lambda>l. (''+'', raw_of l)) (filter_mset (\<lambda>l. \<not> is_noise l churn) (mset ?a))
    + (image_mset (\<lambda>l. (''-'', raw_of l)) (filter_mset (\<lambda>l. is_noise l churn) (mset ?r))
    + image_mset (\<lambda>l. (''-'', raw_of l)) (filter_mset (\<lambda>l. \<not> is_noise l churn) (mset ?r)))"
    by (simp add: judge_fields changes_lines comp_def)
  then show ?thesis by (simp only: split_filter_mset)
qed

text \<open>a command proven to have changed the configuration is named by a change of the
  outcome that isn't the device's own churn.\<close>

theorem judge_proven_accounted:
  "{k. k < length commands \<and> proven (o_commands (judge g commands prior after again replied defaults) ! k)}
     \<subseteq> (\<Union>c\<in>{c \<in> set (o_changes (judge g commands prior after again replied defaults)). \<not> c_device c}. set (c_by c))"
  using proven_at_end [of _ "typed_for g commands"] changes_account [OF _ record_ok_passes]
  by (fastforce simp: judge_fields)

text \<open>Between two equal snapshots nothing is proven and nothing changed, whatever was sent and
  whatever the device replied.\<close>

theorem judge_unchanged:
  "filter proven (o_commands (judge g commands config config again replied defaults)) = []
   \<and> o_changes (judge g commands config config again replied defaults) = []"
proof (rule judge_env_for_lines [of g config config again replied defaults])
  fix churn
  let ?env = "judge_env_for g config config again replied defaults"
  let ?out = "judge g commands config config again replied defaults"
  assume env: "e_added ?env = filter (\<lambda>l. \<not> is_noise l churn) (added_lines (compare (parsed g config) (parsed g config)))"
    "e_removed ?env = filter (\<lambda>l. \<not> is_noise l churn) (removed_lines (compare (parsed g config) (parsed g config)))"
    "e_churned ?env = map (Pair ''+'') (filter (\<lambda>l. is_noise l churn) (added_lines (compare (parsed g config) (parsed g config))))
                 @ map (Pair ''-'') (filter (\<lambda>l. is_noise l churn) (removed_lines (compare (parsed g config) (parsed g config))))"
  then have none: "e_added ?env = []" "e_removed ?env = []" "e_churned ?env = []"
    by (simp_all add: compare_same)
  have "\<not> proven (o_commands ?out ! k)" if "k < length commands" for k
  proof
    assume "proven (o_commands ?out ! k)"
    then have "claims_of (snd (judge_passes ?env (typed_for g commands))) k"
      using proven_at_end [of k "typed_for g commands" ?env] that by (simp add: judge_fields)
    from changes_account [OF this record_ok_passes] show False
      by (simp add: changes_def none)
  qed
  moreover have "length (o_commands ?out) = length commands" by simp
  ultimately have "\<forall>j\<in>set (o_commands ?out). \<not> proven j"
    by (metis in_set_conv_nth)
  then show ?thesis by (simp add: filter_empty_conv judge_fields changes_def none)
qed

text \<open>a command that is judged always has words (the source's \<open>command.words[0]\<close> cannot fail),
  and the section being judged is always known (its \<open>None\<close> context never occurs).\<close>

theorem judge_total:
  "{c \<in> set (typed_for g commands). judged_command c \<and> t_words c = []} = {}
   \<and> list_all knows_section (judge_states env 0 cs judge_start)"
  using typed_from_words section_known [of judge_start env 0 cs]
  by (auto simp: typed_for_def typed_commands_def knows_section_def judge_start_def)

section \<open>Properties of the reading and the matching\<close>

text \<open>comparing two configurations is multiset difference on the lines' keys: what is unchanged
  is their intersection, what is added and removed the two differences.\<close>

theorem compare_differences:
  "mset (map key (unchanged_lines (compare prior after))) = mset (map key prior) \<inter># mset (map key after)
   \<and> mset (map key (added_lines (compare prior after))) = mset (map key after) - mset (map key prior)
   \<and> mset (map key (removed_lines (compare prior after))) = mset (map key prior) - mset (map key after)"
  by (simp only: compare_mset)

text \<open>C4: reading a configuration printed from a tree of sections with any indent gives back the
  tree's lines, each under its section's path.\<close>

theorem parse_reads_print:
  assumes "plain_tree navigation forest" "0 < w"
  shows "parse (join [newline] (print_rows w 0 forest)) False navigation = flatten [] forest"
  using assms by (rule parse_print)

theorem parse_reads_print_witness:
  "parse (join [newline] (print_rows 1 0 [Section ''a'' [Section ''b'' []]])) False [''end''] =
     flatten [] [Section ''a'' [Section ''b'' []]]"
  by (rule parse_reads_print) code_simp+

text \<open>every line the parser places inside a section comes after a line that opens that section:
  no path names a section that isn't there.\<close>

theorem parse_sections_open: "well_nested (parse config flat navigation)"
  by (rule parse_well_nested)

text \<open>a command's words are in a line exactly when some subsequence of the line's words
  matches them one by one: the greedy search misses no match.\<close>

theorem contains_complete:
  "contains_by same command line \<longleftrightarrow> (\<exists>sub. subseq sub line \<and> list_all2 same command sub)"
  by (rule contains_by_subseq)

text \<open>the device's own churn explains every difference between the two snapshots it was
  learned from.\<close>

theorem noise_covers:
  "set (added_lines (compare after again)) \<union> set (removed_lines (compare after again))
     \<subseteq> {l. is_noise l (noise after again)}"
  using noise_explains by blast

text \<open>normalizing a command is idempotent and keeps its words.\<close>

theorem normalize_stable: "normalize (normalize s) = normalize s \<and> words (normalize s) = words s"
  by simp

end
