(* ===== verification/Log.thy ===== *)
theory Log
  imports Prelude
begin

text \<open>
  \<open>src/rollout/log.py\<close>: the redaction of log lines, the tones and how a line is dressed, the
  live log a page follows, what the logger shows and the clean-up of the logs folder. The Redis
  store is modelled by what the live log uses of it (a list and the messages published); files,
  their times and the clock are arguments.
\<close>

section \<open>Redaction\<close>

definition secret_words :: "string list" where
  "secret_words = [''password'', ''passwd'', ''secret'', ''community'', ''community-string'',
     ''pre-shared-key'', ''psksecret'', ''key-string'', ''authentication-key'',
     ''message-digest-key'', ''encrypted-password'', ''password-hash'', ''phash'']"

definition secret_if_typed :: "string list" where
  "secret_if_typed = [''key'', ''auth'', ''priv'']"

definition secret_after :: "string list" where
  "secret_after = [''plaintext'', ''ciphertext'']"

definition type_words :: "string list" where
  "type_words = [''simple'', ''cipher'', ''plaintext'', ''ciphertext'', ''hash'', ''encrypted'', ''enc'',
     ''md5'', ''sha'', ''sha1'', ''sha256'', ''sha512'', ''aes'', ''aes128'', ''aes-128'',
     ''des'', ''3des'', ''128'', ''192'', ''256'', ''read'', ''write'']"

definition redacted_mark :: string where
  "redacted_mark = ''<redacted>''"

text \<open>The next match of \<open>_TOKEN\<close>: the white space before it, the match (a quoted text when the
  quote is closed, else what reaches to the next white space) and the rest.\<close>

definition next_token :: "string \<Rightarrow> (string \<times> string \<times> string) option" where
  "next_token s =
     (let gap = takeWhile is_space s; r = dropWhile is_space s in
      case r of
        [] \<Rightarrow> None
      | c # cs \<Rightarrow>
          if c = dquote \<and> dquote \<in> set cs then
            (let inner = takeWhile (\<lambda>x. x \<noteq> dquote) cs
             in Some (gap, c # inner @ [dquote], drop (Suc (length inner)) cs))
          else Some (gap, takeWhile (\<lambda>x. \<not> is_space x) r, dropWhile (\<lambda>x. \<not> is_space x) r))"

lemma next_token_shorter:
  assumes "next_token s = Some (gap, t, rest)"
  shows "length rest < length s"
proof -
  obtain c cs where r: "dropWhile is_space s = c # cs"
    using assms by (cases "dropWhile is_space s") (auto simp: next_token_def)
  have nc: "\<not> is_space c" using hd_dropWhile [of is_space s] r by simp
  have "length (c # cs) \<le> length s" unfolding r [symmetric] by (rule length_dropWhile_le)
  moreover have "length rest < length (c # cs)"
    using assms r nc length_dropWhile_le [of "\<lambda>x. \<not> is_space x" cs]
    by (auto simp: next_token_def Let_def split: if_splits)
  ultimately show ?thesis by simp
qed

function tokens_from :: "nat \<Rightarrow> string \<Rightarrow> (nat \<times> string) list" where
  "tokens_from pos s =
     (case next_token s of
        None \<Rightarrow> []
      | Some (gap, t, rest) \<Rightarrow>
          (pos + length gap, t) # tokens_from (pos + length gap + length t) rest)"
  by pat_completeness auto
termination
  by (relation "measure (\<lambda>(pos, s). length s)") (auto dest: next_token_shorter)

declare tokens_from.simps [simp del]

text \<open>\<open>_word\<close> and \<open>_is_type\<close>.\<close>

definition key_word :: "string \<Rightarrow> string" where
  "key_word t = lower (strip_p (\<lambda>c. c = squote \<or> c = dquote \<or> c \<in> set ''(),;:'') t)"

definition is_type :: "string \<Rightarrow> bool" where
  "is_type t \<longleftrightarrow> key_word t \<in> set type_words \<or> (is_digits (key_word t) \<and> length (key_word t) \<le> 2)"

definition names_secret :: "string \<Rightarrow> bool" where
  "names_secret t \<longleftrightarrow> key_word t \<in> set secret_words \<union> set secret_if_typed"

definition is_keyword :: "string \<Rightarrow> bool" where
  "is_keyword t \<longleftrightarrow> names_secret t \<or> key_word t \<in> set secret_after"

text \<open>How much of a value is hidden: all of a quoted one, else up to the punctuation that closes
  the command in the log line.\<close>

definition hidden_length :: "string \<Rightarrow> nat" where
  "hidden_length t =
     (if take 1 t = [dquote] then length t
      else length (rstrip_p (\<lambda>c. c = squote \<or> c = dquote \<or> c = CHR '','' \<or> c = CHR '';'') t))"

function redact_spans :: "(nat \<times> string) list \<Rightarrow> (nat \<times> nat) list" where
  "redact_spans [] = []"
| "redact_spans ((pos, t) # rest) =
     (if \<not> is_keyword t then redact_spans rest
      else
        (let after_names = dropWhile (\<lambda>(_, x). names_secret x) rest;
             typed = (key_word t \<in> set secret_after \<or> takeWhile (\<lambda>(_, x). is_type x) after_names \<noteq> [])
         in case dropWhile (\<lambda>(_, x). is_type x) after_names of
              [] \<Rightarrow> []
            | (start, v) # others \<Rightarrow>
                if key_word t \<in> set secret_if_typed \<and> \<not> typed \<and> take 1 v \<noteq> [dquote]
                then redact_spans rest
                else (start, start + hidden_length v) # redact_spans others))"
  by pat_completeness auto
termination
proof (relation "measure length", goal_cases)
  case (4 pos t rest r typed x others start v)
  have "length (dropWhile (\<lambda>(_, x). is_type x) r) \<le> length rest"
    using length_dropWhile_le [of "\<lambda>(_, x). is_type x" r] length_dropWhile_le [of "\<lambda>(_, x). names_secret x" rest]
      4 by simp
  with 4 show ?case by simp
qed auto

definition cut :: "nat \<times> nat \<Rightarrow> string \<Rightarrow> string" where
  "cut span text = take (fst span) text @ redacted_mark @ drop (snd span) text"

definition redact :: "string \<Rightarrow> string" where
  "redact text = foldr cut (redact_spans (tokens_from 0 text)) text"

section \<open>The tones and the dressing\<close>

datatype tone = Tone_Error | Tone_Warning | Tone_Success | Tone_Info

fun tone_value :: "tone \<Rightarrow> string" where
  "tone_value Tone_Error = ''red''"
| "tone_value Tone_Warning = ''yellow''"
| "tone_value Tone_Success = ''green''"
| "tone_value Tone_Info = []"

definition ansi :: "string \<Rightarrow> string" where
  "ansi code = [CHR 0x1B, CHR ''[''] @ code @ ''m''"

text \<open>\<open>COLORS.get(tone.upper())\<close>: the tables hold the three colour names.\<close>

fun ansi_of :: "tone \<Rightarrow> string option" where
  "ansi_of Tone_Error = Some (ansi ''91'')"
| "ansi_of Tone_Success = Some (ansi ''92'')"
| "ansi_of Tone_Warning = Some (ansi ''93'')"
| "ansi_of Tone_Info = None"

definition div_class :: "string \<Rightarrow> string" where
  "div_class c = ''<div class='' @ [dquote] @ c @ [dquote] @ ''>''"

fun html_of :: "tone \<Rightarrow> string option" where
  "html_of Tone_Error = Some (div_class ''text-danger'')"
| "html_of Tone_Success = Some (div_class ''text-success'')"
| "html_of Tone_Warning = Some (div_class ''text-warning'')"
| "html_of Tone_Info = None"

text \<open>\<open>html.escape\<close> (quotes included).\<close>

definition escape_char :: "char \<Rightarrow> string" where
  "escape_char c =
     (if c = CHR ''&'' then ''&amp;'' else if c = CHR ''<'' then ''&lt;''
      else if c = CHR ''>'' then ''&gt;'' else if c = dquote then ''&quot;''
      else if c = squote then ''&#x27;'' else [c])"

definition html_escape :: "string \<Rightarrow> string" where
  "html_escape s = concat (map escape_char s)"

definition console_dress :: "string \<Rightarrow> tone \<Rightarrow> string" where
  "console_dress message t =
     (case ansi_of t of None \<Rightarrow> message | Some a \<Rightarrow> a @ message @ ansi ''0'')"

definition live_dress :: "string \<Rightarrow> tone \<Rightarrow> string" where
  "live_dress message t =
     (case html_of t of None \<Rightarrow> html_escape message
      | Some opening \<Rightarrow> opening @ html_escape message @ ''</div>'')"

section \<open>The live log\<close>

definition done_mark :: string where
  "done_mark = ''__done__''"

definition tab :: char where "tab = CHR 0x09"

definition live_log_keys :: "string \<Rightarrow> string \<times> string" where
  "live_log_keys job = (''job:'' @ job @ '':history'', ''job:'' @ job @ '':logs'')"

text \<open>What of Redis a live log uses: its history list and the messages published on its channel,
  in the order they were published; \<open>None\<close> is the reply of a Redis that cannot be reached.\<close>

record live_log =
  l_history :: "string list"
  l_published :: "string list"

definition numbered :: "string \<Rightarrow> nat option \<times> string" where
  "numbered d =
     (let (head, found, rest) = partition_char tab d
      in if found \<and> is_digits head then (Some (digits_value 0 head), rest) else (None, d))"

definition push_line :: "string \<Rightarrow> live_log \<Rightarrow> nat \<times> live_log" where
  "push_line l s = (Suc (length (l_history s)), s\<lparr>l_history := l_history s @ [l]\<rparr>)"

definition publish_line :: "nat \<Rightarrow> string \<Rightarrow> live_log \<Rightarrow> live_log" where
  "publish_line n l s = s\<lparr>l_published := l_published s @ [show_nat n @ tab # l]\<rparr>"

text \<open>\<open>LiveLog.append\<close>: \<open>reach\<close> is whether Redis answers each of its two calls; an error ends the
  call without an exception.\<close>

definition append_line :: "bool \<times> bool \<Rightarrow> string \<Rightarrow> live_log \<Rightarrow> live_log" where
  "append_line reach l s =
     (if \<not> fst reach then s
      else let (n, s1) = push_line l s in if snd reach then publish_line n l s1 else s1)"

definition close_log :: "live_log \<Rightarrow> live_log" where
  "close_log s = \<lparr>l_history = [], l_published = l_published s @ [done_mark]\<rparr>"

text \<open>A step of the reader's wait: a message on the channel, or none in time - and then whether
  the job is over.\<close>

datatype heard = Message string | Nothing_Heard bool

text \<open>\<open>LiveLog.follow\<close> after the history, over what the reader hears: what it yields (\<open>None\<close> is a
  heartbeat), and whether it ended (else it still waits).\<close>

fun follow_live :: "nat \<Rightarrow> heard list \<Rightarrow> string option list \<times> bool" where
  "follow_live seen [] = ([], False)"
| "follow_live seen (Message d # events) =
     (if d = done_mark then ([], True)
      else (case numbered d of
              (Some n, l) \<Rightarrow>
                if n \<le> seen then follow_live seen events
                else (let (ls, e) = follow_live n events in (Some l # ls, e))
            | (None, l) \<Rightarrow> (let (ls, e) = follow_live seen events in (Some l # ls, e))))"
| "follow_live seen (Nothing_Heard over # events) =
     (if over then ([], True)
      else (let (ls, e) = follow_live seen events in (None # ls, e)))"

definition follow :: "string list \<Rightarrow> heard list \<Rightarrow> string option list \<times> bool" where
  "follow history events =
     (let (ls, e) = follow_live (length history) events in (map Some history @ ls, e))"

section \<open>The logger\<close>

datatype echo = To_Console | To_Live_Log

record logger =
  g_file :: "string list"
  g_shown :: "string list"
  g_verbose :: bool
  g_echo :: "echo option"

definition new_logger :: "bool \<Rightarrow> bool \<Rightarrow> bool \<Rightarrow> logger" where
  "new_logger webapp verbose has_live_log =
     \<lparr>g_file = [], g_shown = [], g_verbose = verbose,
      g_echo = (if webapp then (if has_live_log then Some To_Live_Log else None) else Some To_Console)\<rparr>"

definition dressed :: "echo \<Rightarrow> string \<Rightarrow> tone \<Rightarrow> string" where
  "dressed e message t = (case e of To_Console \<Rightarrow> console_dress message t | To_Live_Log \<Rightarrow> live_dress message t)"

definition log_line :: "string \<Rightarrow> string \<Rightarrow> logger \<Rightarrow> logger" where
  "log_line timestamp message g = g\<lparr>g_file := g_file g @ [timestamp @ tab # message]\<rparr>"

definition notify_logger :: "string \<Rightarrow> string \<Rightarrow> tone \<Rightarrow> bool \<Rightarrow> logger \<Rightarrow> logger" where
  "notify_logger timestamp message t important g =
     (let message = redact message; g1 = log_line timestamp message g in
      case g_echo g of
        None \<Rightarrow> g1
      | Some e \<Rightarrow>
          if important \<or> g_verbose g \<or> t = Tone_Error
          then g1\<lparr>g_shown := g_shown g1 @ [dressed e message t]\<rparr> else g1)"

section \<open>The logs folder\<close>

record log_file =
  f_name :: string
  f_is_file :: bool
  f_modified :: int
  f_removable :: bool

definition log_retention_days :: int where
  "log_retention_days = 60"

definition prunes :: "int \<Rightarrow> log_file \<Rightarrow> bool" where
  "prunes cutoff f \<longleftrightarrow> suffix ''.log'' (f_name f) \<and> f_is_file f \<and> f_modified f < cutoff \<and> f_removable f"

text \<open>\<open>prune_logs\<close>: the folder's files afterwards and how many were removed; \<open>None\<close> is a folder
  that does not exist.\<close>

definition prune_logs :: "int \<Rightarrow> int \<Rightarrow> log_file list option \<Rightarrow> log_file list option \<times> nat" where
  "prune_logs now retention_days folder =
     (case folder of
        None \<Rightarrow> (None, 0)
      | Some files \<Rightarrow>
          (let cutoff = now - retention_days * 86400
           in (Some (filter (\<lambda>f. \<not> prunes cutoff f) files), length (filter (prunes cutoff) files))))"

text \<open>\<open>prune_once\<close>: the setting is a value, or fails (\<open>Inl\<close>).\<close>

definition prune_once ::
    "int \<Rightarrow> (unit + int) option \<Rightarrow> log_file list option \<Rightarrow> (int \<times> nat) \<times> log_file list option" where
  "prune_once now setting folder =
     (let days = (case setting of None \<Rightarrow> log_retention_days
                  | Some (Inl _) \<Rightarrow> log_retention_days | Some (Inr d) \<Rightarrow> d);
          (left, removed) = prune_logs now days folder
      in ((days, removed), left))"

end
