(* ===== verification/Engine_Tokens.thy ===== *)
theory Engine_Tokens
  imports Prelude
begin

text \<open>
  \<open>src/rollout/engine.py\<close>, the \<open>$$TOKEN$$\<close>s of a command: a device's mappings and attribute
  values, why a token cannot be filled in (\<open>Device.unresolved\<close>, \<open>value_for\<close>) and the commands
  with the values in place (\<open>commands_for\<close>). Every exception the code can raise is an error value:
  the substitution error it means to raise, and the \<open>KeyError\<close> and \<open>IndexError\<close> of a mapping
  that is read without having been checked.
\<close>

section \<open>The data\<close>

text \<open>An attribute value: a text, or a list of texts.\<close>

datatype attribute = Text string | Texts "string list"

record mapping_device =
  var_map_subs :: "(string \<times> (string \<times> int option)) list"
  extra :: "(string \<times> attribute) list"

datatype subst_error = Substitution_Error string | Key_Error string | Index_Error

fun truthy :: "attribute \<Rightarrow> bool" where
  "truthy (Text s) \<longleftrightarrow> s \<noteq> []"
| "truthy (Texts xs) \<longleftrightarrow> xs \<noteq> []"

definition mapping_resolvable :: "(string \<times> attribute) list \<Rightarrow> string \<Rightarrow> int option \<Rightarrow> bool" where
  "mapping_resolvable var_maps property_name index =
     (case map_of var_maps property_name of
        None \<Rightarrow> False
      | Some value \<Rightarrow>
          if \<not> truthy value then False
          else (case index of
                  None \<Rightarrow> True
                | Some i \<Rightarrow> (case value of Text _ \<Rightarrow> False | Texts xs \<Rightarrow> 0 \<le> i \<and> i < int (length xs))))"

definition missing_value :: "(string \<times> attribute) list \<Rightarrow> string \<Rightarrow> int option \<Rightarrow> string option" where
  "missing_value var_maps property_name index =
     (if mapping_resolvable var_maps property_name index then None
      else Some (''no value for '' @ [squote]
        @ (case index of None \<Rightarrow> property_name | Some i \<Rightarrow> property_name @ ''['' @ show_int i @ '']'')
        @ [squote]))"

section \<open>Finding the tokens\<close>

definition token_char :: "char \<Rightarrow> bool" where
  "token_char c \<longleftrightarrow> is_dec c \<or> is_lower_az c \<or> is_upper_az c \<or> c = CHR ''_''"

definition marks :: string where "marks = ''$$''"

text \<open>The name of the token a text starts with: 1 to 64 word characters between two marks.\<close>

definition token_at :: "string \<Rightarrow> string option" where
  "token_at s =
     (if \<not> prefix marks s then None
      else (let name = takeWhile token_char (drop 2 s) in
            if 1 \<le> length name \<and> length name \<le> 64 \<and> prefix marks (drop (2 + length name) s)
            then Some name else None))"

definition token_text :: "string \<Rightarrow> string" where
  "token_text name = marks @ name @ marks"

text \<open>\<open>TOKEN_IN_COMMAND.findall\<close>: the leftmost matches that do not overlap.\<close>

function find_tokens :: "string \<Rightarrow> string list" where
  "find_tokens [] = []"
| "find_tokens (c # cs) =
     (case token_at (c # cs) of
        None \<Rightarrow> find_tokens cs
      | Some name \<Rightarrow> token_text name # find_tokens (drop (length (token_text name)) (c # cs)))"
  by pat_completeness auto
termination
  by (relation "measure length") (auto simp: token_text_def marks_def)

declare find_tokens.simps(2) [simp del]

section \<open>Filling them in\<close>

text \<open>\<open>str(value)\<close>, and a list value as Python writes a list.\<close>

fun value_text :: "attribute \<Rightarrow> string" where
  "value_text (Text s) = s"
| "value_text (Texts xs) = ''['' @ join '', '' (map py_repr xs) @ '']''"

text \<open>\<open>value[index]\<close>: a negative index counts from the end; a text gives one character.\<close>

definition py_index :: "'a list \<Rightarrow> int \<Rightarrow> 'a option" where
  "py_index xs i =
     (let k = (if i < 0 then i + int (length xs) else i)
      in if 0 \<le> k \<and> k < int (length xs) then Some (xs ! nat k) else None)"

definition indexed :: "attribute \<Rightarrow> int \<Rightarrow> string option" where
  "indexed value i = (case value of Text s \<Rightarrow> map_option (\<lambda>c. [c]) (py_index s i) | Texts xs \<Rightarrow> py_index xs i)"

text \<open>\<open>self.extra[property_name]\<close>, indexed, stripped.\<close>

definition read_value ::
    "(string \<times> attribute) list \<Rightarrow> string \<Rightarrow> int option \<Rightarrow> subst_error + string" where
  "read_value values property_name index =
     (case map_of values property_name of
        None \<Rightarrow> Inl (Key_Error property_name)
      | Some value \<Rightarrow>
          (case index of
             None \<Rightarrow> Inr (strip (value_text value))
           | Some i \<Rightarrow> (case indexed value i of None \<Rightarrow> Inl Index_Error | Some t \<Rightarrow> Inr (strip t))))"

definition value_for :: "mapping_device \<Rightarrow> string \<Rightarrow> subst_error + string" where
  "value_for device token =
     (case map_of (var_map_subs device) token of
        None \<Rightarrow> Inl (Substitution_Error ''no mapping on this device'')
      | Some (property_name, index) \<Rightarrow>
          (case missing_value (extra device) property_name index of
             Some missing \<Rightarrow> Inl (Substitution_Error missing)
           | None \<Rightarrow> read_value (extra device) property_name index))"

text \<open>The loop of \<open>unresolved\<close>: every token once, in order, with the reason it cannot be filled in.\<close>

fun unresolved_tokens :: "mapping_device \<Rightarrow> string list \<Rightarrow> string list \<Rightarrow> string list" where
  "unresolved_tokens device seen [] = []"
| "unresolved_tokens device seen (token # rest) =
     (if token \<in> set seen then unresolved_tokens device seen rest
      else (case value_for device token of
              Inl (Substitution_Error e) \<Rightarrow>
                (token @ '': '' @ e) # unresolved_tokens device (token # seen) rest
            | _ \<Rightarrow> unresolved_tokens device (token # seen) rest))"

definition unresolved :: "mapping_device \<Rightarrow> string list \<Rightarrow> string list" where
  "unresolved device commands = unresolved_tokens device [] (concat (map find_tokens commands))"

text \<open>The loop of \<open>commands_for\<close>, mapping by mapping in the order they are bound.\<close>

fun substitute ::
    "(string \<times> attribute) list \<Rightarrow> (string \<times> (string \<times> int option)) list \<Rightarrow> string list
      \<Rightarrow> subst_error + string list" where
  "substitute values [] commands = Inr commands"
| "substitute values ((token, property_name, index) # rest) commands =
     (if \<not> list_ex (occurs_in token) commands then substitute values rest commands
      else (case read_value values property_name index of
              Inl e \<Rightarrow> Inl e
            | Inr v \<Rightarrow> substitute values rest (map (replace_text token v) commands)))"

definition commands_for :: "mapping_device \<Rightarrow> string list \<Rightarrow> subst_error + string list" where
  "commands_for device commands =
     (let problems = unresolved device commands
      in if problems \<noteq> [] then Inl (Substitution_Error (join ''; '' problems))
         else substitute (extra device) (var_map_subs device) commands)"

section \<open>When a token resolves\<close>

lemma resolvable_reads:
  assumes "mapping_resolvable values p index"
  obtains v where "read_value values p index = Inr v"
proof -
  obtain a where v: "map_of values p = Some a" "truthy a"
    using assms by (auto simp: mapping_resolvable_def split: option.splits if_splits)
  show ?thesis
  proof (cases index)
    case None
    then show ?thesis using v that by (simp add: read_value_def)
  next
    case (Some i)
    with assms v obtain xs where "a = Texts xs" "0 \<le> i" "i < int (length xs)"
      by (auto simp: mapping_resolvable_def split: option.splits if_splits attribute.splits)
    then show ?thesis using v Some that by (simp add: read_value_def indexed_def py_index_def)
  qed
qed

lemma value_for_error: "value_for device token = Inl e \<Longrightarrow> \<exists>m. e = Substitution_Error m"
proof -
  assume v: "value_for device token = Inl e"
  have "read_value vs p index \<noteq> Inl e" if "mapping_resolvable vs p index" for vs p index
    using resolvable_reads [OF that] by (metis Inr_not_Inl)
  with v show ?thesis
    by (auto simp: value_for_def missing_value_def split: option.splits prod.splits if_splits)
qed

lemma unresolved_tokens_Nil_iff:
  "unresolved_tokens device seen tokens = [] \<longleftrightarrow>
     (\<forall>t\<in>set tokens. t \<in> set seen \<or> (\<exists>v. value_for device t = Inr v))"
proof (induction device seen tokens rule: unresolved_tokens.induct)
  case (2 device seen token rest)
  show ?case
  proof (cases "token \<in> set seen")
    case True
    then show ?thesis using "2.IH"(1) by auto
  next
    case False
    show ?thesis
    proof (cases "value_for device token")
      case (Inl e)
      then show ?thesis using value_for_error [OF Inl] False by auto
    next
      case (Inr v)
      then show ?thesis using "2.IH" False by auto
    qed
  qed
qed simp

lemma unresolved_Nil_iff:
  "unresolved device commands = [] \<longleftrightarrow>
     (\<forall>c\<in>set commands. \<forall>t\<in>set (find_tokens c). \<exists>v. value_for device t = Inr v)"
  by (auto simp: unresolved_def unresolved_tokens_Nil_iff)

lemma value_for_reads:
  "value_for device t = Inr v \<Longrightarrow>
     \<exists>p index. map_of (var_map_subs device) t = Some (p, index) \<and> read_value (extra device) p index = Inr v"
  by (auto simp: value_for_def split: option.splits)

end
