(* ===== verification/Engine_Token_Properties.thy ===== *)
theory Engine_Token_Properties
  imports Engine_Tokens
begin

text \<open>
  What \<open>Device.commands_for\<close> (\<open>src/rollout/engine.py\<close>) promises: a command read as pieces of
  text and tokens comes out with every token replaced by its value at once, although the code
  replaces mapping by mapping. The condition is that the text between two tokens tells them
  apart; \<open>commands_for_hidden_token\<close> shows what happens when it does not.
\<close>

section \<open>A command as pieces\<close>

datatype piece = Lit string | Tok string

definition dollar :: char where "dollar = CHR ''$''"

fun piece_text :: "piece \<Rightarrow> string" where
  "piece_text (Lit l) = l"
| "piece_text (Tok n) = token_text n"

definition render :: "piece list \<Rightarrow> string" where
  "render ps = concat (map piece_text ps)"

definition valid_name :: "string \<Rightarrow> bool" where
  "valid_name n \<longleftrightarrow> 1 \<le> length n \<and> length n \<le> 64 \<and> list_all token_char n"

text \<open>The text up to the next token has a character no token name can have.\<close>

fun gap_ok :: "piece list \<Rightarrow> bool" where
  "gap_ok [] = True"
| "gap_ok (Lit l # ps) = (list_ex (\<lambda>c. \<not> token_char c) l \<or> gap_ok ps)"
| "gap_ok (Tok n # ps) = False"

fun separated :: "piece list \<Rightarrow> bool" where
  "separated [] = True"
| "separated (Lit l # ps) = (dollar \<notin> set l \<and> separated ps)"
| "separated (Tok n # ps) = (valid_name n \<and> gap_ok ps \<and> separated ps)"

definition fill :: "(string \<Rightarrow> string) \<Rightarrow> piece list \<Rightarrow> string" where
  "fill val ps = concat (map (\<lambda>p. case p of Lit l \<Rightarrow> l | Tok n \<Rightarrow> val n) ps)"

lemma render_simps [simp]:
  "render [] = []"
  "render (Lit l # ps) = l @ render ps"
  "render (Tok n # ps) = token_text n @ render ps"
  by (simp_all add: render_def)

section \<open>Where a token can start\<close>

lemma dollar_not_token [simp]: "\<not> token_char dollar"
  by (simp add: token_char_def dollar_def is_dec_def is_lower_az_def is_upper_az_def code_point_def)

lemma marks_eq: "marks = [dollar, dollar]"
  by (simp add: marks_def dollar_def)

lemma valid_name_chars: "valid_name n \<Longrightarrow> c \<in> set n \<Longrightarrow> token_char c \<and> c \<noteq> dollar"
  using dollar_not_token by (auto simp: valid_name_def list_all_iff)

lemma takeWhile_name:
  "valid_name n \<Longrightarrow> takeWhile token_char (n @ dollar # s) = n"
  "valid_name n \<Longrightarrow> dropWhile token_char (n @ dollar # s) = dollar # s"
  by (auto simp: takeWhile_append dropWhile_append dest: valid_name_chars)

lemma gap_free:
  assumes "gap_ok ps" "separated ps" "list_all token_char w"
  shows "\<not> prefix (w @ [dollar]) (render ps)"
  using assms
proof (induction ps arbitrary: w rule: gap_ok.induct)
  case (2 l ps)
  have no: "dollar \<notin> set l" using "2.prems"(2) by simp
  show ?case
  proof
    assume pre: "prefix (w @ [dollar]) (render (Lit l # ps))"
    show False
    proof (cases "length w < length l")
      case True
      from pre obtain z where "l @ render ps = w @ dollar # z" by (auto simp: prefix_def)
      then have "l ! length w = dollar" using True by (metis nth_append nth_append_length)
      then show False using no True by (metis nth_mem)
    next
      case False
      from pre obtain z where z: "l @ render ps = w @ dollar # z" by (auto simp: prefix_def)
      with False obtain w' where w': "w = l @ w'"
        by (metis append_eq_append_conv_if append_take_drop_id linorder_not_less)
      then have "prefix (w' @ [dollar]) (render ps)" using z by (auto simp: prefix_def)
      moreover have "list_all token_char l" "list_all token_char w'" using "2.prems"(3) w' by auto
      moreover from this(1) have "\<not> list_ex (\<lambda>c. \<not> token_char c) l" by (auto simp: list_ex_iff list_all_iff)
      ultimately show False using "2.IH" "2.prems" by auto
    qed
  qed
qed auto

lemma no_token_in_text:
  "dollar \<notin> set l \<Longrightarrow> k < length l \<Longrightarrow> \<not> prefix (token_text m) (drop k l @ s)"
  by (auto simp: prefix_def token_text_def marks_eq Cons_nth_drop_Suc [symmetric] dest!: nth_mem)

lemma no_token_in_other:
  assumes n: "valid_name n" and m: "valid_name m" and "m \<noteq> n" "gap_ok ps" "separated ps"
    and k: "k < length (token_text n)"
  shows "\<not> prefix (token_text m) (drop k (token_text n) @ render ps)"
proof
  assume pre: "prefix (token_text m) (drop k (token_text n) @ render ps)"
  have free: "\<not> prefix (m @ [dollar]) (render ps)" "\<not> prefix [dollar] (render ps)"
    using gap_free [OF assms(4,5), of m] gap_free [OF assms(4,5), of "[]"] m
    by (auto simp: valid_name_def)
  obtain c n' where c: "n = c # n'" "c \<noteq> dollar"
    using n valid_name_chars [OF n] by (cases n) (auto simp: valid_name_def)
  consider "k = 0" | "k = 1" | "2 \<le> k \<and> k < 2 + length n" | "k = 2 + length n" | "k = 3 + length n"
    using k by (force simp: token_text_def marks_eq)
  then show False
  proof cases
    case 1
    then have "prefix (m @ [dollar, dollar]) (n @ dollar # dollar # render ps)"
      using pre by (simp add: token_text_def marks_eq)
    then obtain z where "n @ dollar # dollar # render ps = m @ dollar # dollar # z" by (auto simp: prefix_def)
    then have "n = m" using takeWhile_name(1) n m by metis
    then show False using assms(3) by simp
  next
    case 2
    then show False using pre c by (simp add: token_text_def marks_eq)
  next
    case 3
    then have "drop k (token_text n) = drop (k - 2) n @ marks"
      by (simp add: token_text_def marks_eq drop_Cons' numeral_2_eq_2)
    moreover have "drop (k - 2) n \<noteq> []" using 3 unfolding drop_eq_Nil by linarith
    then obtain d ds where d: "drop (k - 2) n = d # ds" by (cases "drop (k - 2) n") auto
    then have "d \<in> set n" by (metis in_set_dropD list.set_intros(1))
    ultimately show False using pre d valid_name_chars [OF n, of d] by (simp add: token_text_def marks_eq)
  next
    case 4
    then have "prefix (m @ [dollar, dollar]) (render ps)"
      using pre by (simp add: token_text_def marks_eq)
    then show False using free(1) by (auto simp: prefix_def)
  next
    case 5
    then have "drop k (token_text n) = [dollar]"
      by (simp add: token_text_def marks_eq eval_nat_numeral)
    then show False using pre free(2) by (auto simp: token_text_def marks_eq prefix_def)
  qed
qed

section \<open>Skipping what cannot be a token\<close>

lemma replace_skip:
  assumes "old \<noteq> []" "\<And>k. k < length a \<Longrightarrow> \<not> prefix old (drop k a @ s)"
  shows "replace_text old new (a @ s) = a @ replace_text old new s"
  using assms(2)
proof (induction a)
  case (Cons c a)
  have "\<not> prefix old (c # a @ s)" using Cons.prems [of 0] by simp
  moreover have "replace_text old new (a @ s) = a @ replace_text old new s"
    using Cons.prems [of "Suc k" for k] by (intro Cons.IH) auto
  ultimately show ?case using assms(1) by (subst replace_text.simps) simp
qed simp

lemma occurs_skip:
  assumes "\<And>k. k < length a \<Longrightarrow> \<not> prefix sub (drop k a @ s)"
  shows "occurs_in sub (a @ s) = occurs_in sub s"
  using assms
proof (induction a)
  case (Cons c a)
  have "\<not> prefix sub (c # a @ s)" using Cons.prems [of 0] by simp
  moreover have "occurs_in sub (a @ s) = occurs_in sub s"
    using Cons.prems [of "Suc k" for k] by (intro Cons.IH) auto
  ultimately show ?case by (auto simp: occurs_in_def)
qed simp

lemma token_text_nonempty [simp]: "token_text m \<noteq> []"
  by (simp add: token_text_def marks_def)

lemma replace_token:
  "replace_text (token_text m) v (token_text m @ s) = v @ replace_text (token_text m) v s"
  by (subst replace_text.simps) (auto simp: prefix_def)

section \<open>The three scans on pieces\<close>

definition put :: "string \<Rightarrow> string \<Rightarrow> piece list \<Rightarrow> piece list" where
  "put m v ps = map (\<lambda>p. if p = Tok m then Lit v else p) ps"

lemma replace_render:
  assumes "valid_name m" "separated ps"
  shows "replace_text (token_text m) v (render ps) = render (put m v ps)"
  using assms(2)
proof (induction ps rule: separated.induct)
  case 1
  then show ?case by (simp add: put_def replace_text.simps)
next
  case (2 l ps)
  then show ?case using replace_skip [OF token_text_nonempty no_token_in_text] by (simp add: put_def)
next
  case (3 n ps)
  show ?case
  proof (cases "n = m")
    case True
    then show ?thesis using 3 by (simp add: put_def replace_token)
  next
    case False
    have "replace_text (token_text m) v (token_text n @ render ps) = token_text n @ replace_text (token_text m) v (render ps)"
      using 3 False assms(1) by (intro replace_skip no_token_in_other) auto
    then show ?thesis using 3 False by (simp add: put_def)
  qed
qed

lemma occurs_render:
  assumes "valid_name m" "separated ps"
  shows "occurs_in (token_text m) (render ps) \<longleftrightarrow> Tok m \<in> set ps"
  using assms(2)
proof (induction ps rule: separated.induct)
  case 1
  then show ?case by (simp add: occurs_in_def)
next
  case (2 l ps)
  then show ?case using occurs_skip [OF no_token_in_text] by simp
next
  case (3 n ps)
  show ?case
  proof (cases "n = m")
    case True
    have "prefix (token_text m) (token_text m @ render ps)" by simp
    moreover have "token_text m @ render ps \<in> set (suffixes (token_text m @ render ps))" by simp
    ultimately have "occurs_in (token_text m) (token_text m @ render ps)"
      by (auto simp only: occurs_in_def list_ex_iff)
    then show ?thesis using True by simp
  next
    case False
    have "occurs_in (token_text m) (token_text n @ render ps) = occurs_in (token_text m) (render ps)"
      using 3 False assms(1) by (intro occurs_skip no_token_in_other) auto
    then show ?thesis using 3 False by auto
  qed
qed

lemma token_at_no_dollar: "c \<noteq> dollar \<Longrightarrow> token_at (c # cs) = None"
  by (simp add: token_at_def marks_eq)

lemma find_tokens_text: "dollar \<notin> set l \<Longrightarrow> find_tokens (l @ s) = find_tokens s"
  by (induction l) (auto simp: find_tokens.simps(2) token_at_no_dollar)

lemma token_at_token: "valid_name n \<Longrightarrow> token_at (token_text n @ s) = Some n"
  by (auto simp: token_at_def token_text_def marks_eq takeWhile_name valid_name_def Let_def)

lemma find_tokens_render:
  assumes "separated ps"
  shows "find_tokens (render ps) = concat (map (\<lambda>p. case p of Tok n \<Rightarrow> [token_text n] | _ \<Rightarrow> []) ps)"
  using assms
proof (induction ps rule: separated.induct)
  case (2 l ps)
  then show ?case by (simp add: find_tokens_text)
next
  case (3 n ps)
  obtain c cs where c: "token_text n @ render ps = c # cs" by (metis list.exhaust append_is_Nil_conv token_text_nonempty)
  have "token_at (c # cs) = Some n" "drop (length (token_text n)) (c # cs) = render ps"
    using 3 token_at_token [of n "render ps"] by (auto simp flip: c)
  then show ?case using 3 by (simp add: c find_tokens.simps(2))
qed simp

lemma put_keeps:
  assumes "separated ps" "dollar \<notin> set v"
  shows "separated (put m v ps)"
proof -
  have gap: "gap_ok qs \<Longrightarrow> gap_ok (put m v qs)" for qs
    by (induction qs rule: gap_ok.induct) (auto simp: put_def)
  show ?thesis using assms
    by (induction ps rule: separated.induct) (auto simp: put_def dest: gap [unfolded put_def])
qed

lemma put_absent: "Tok m \<notin> set ps \<Longrightarrow> put m v ps = ps"
  by (induction ps) (auto simp: put_def)

lemma fill_put: "val m = v \<Longrightarrow> fill val (put m v ps) = fill val ps"
  by (induction ps) (auto simp: fill_def put_def)

lemma fill_no_tokens: "(\<forall>n. Tok n \<notin> set ps) \<Longrightarrow> fill val ps = render ps"
  by (induction ps) (auto simp: fill_def render_def split: piece.splits)

section \<open>The loop\<close>

lemma token_text_inject: "valid_name m \<Longrightarrow> valid_name n \<Longrightarrow> token_text m = token_text n \<Longrightarrow> m = n"
  by (simp add: token_text_def)

lemma substitute_fills:
  assumes "\<forall>(t, _)\<in>set subs. \<exists>m. t = token_text m \<and> valid_name m" "distinct (map fst subs)"
    and "\<forall>ps\<in>set pss. separated ps"
    and "\<forall>ps\<in>set pss. \<forall>n. Tok n \<in> set ps \<longrightarrow> (\<exists>p i. map_of subs (token_text n) = Some (p, i)
           \<and> read_value vs p i = Inr (val n) \<and> dollar \<notin> set (val n))"
  shows "substitute vs subs (map render pss) = Inr (map (fill val) pss)"
  using assms
proof (induction subs arbitrary: pss)
  case Nil
  then have "\<forall>ps\<in>set pss. fill val ps = render ps" by (auto intro!: fill_no_tokens)
  then show ?case by simp
next
  case (Cons sub subs)
  obtain t p i where sub: "sub = (t, p, i)" by (cases sub)
  with Cons.prems(1) obtain m where m: "t = token_text m" "valid_name m" by auto
  have occurs: "list_ex (occurs_in t) (map render pss) \<longleftrightarrow> (\<exists>ps\<in>set pss. Tok m \<in> set ps)"
    using Cons.prems(3) m by (auto simp: list_ex_iff occurs_render)
  have rest: "map_of subs (token_text n) = map_of (sub # subs) (token_text n)"
    if "ps \<in> set pss" "Tok n \<in> set ps" "n \<noteq> m" for n ps
  proof -
    have "valid_name n" using Cons.prems(3) that(1,2)
    proof -
      have "separated qs \<Longrightarrow> Tok n \<in> set qs \<Longrightarrow> valid_name n" for qs
        by (induction qs rule: separated.induct) auto
      then show ?thesis using Cons.prems(3) that(1,2) by blast
    qed
    then have "token_text n \<noteq> t" using token_text_inject m that(3) by metis
    then show ?thesis by (simp add: sub)
  qed
  show ?case
  proof (cases "\<exists>ps\<in>set pss. Tok m \<in> set ps")
    case False
    then have "substitute vs subs (map render pss) = Inr (map (fill val) pss)"
    proof (intro Cons.IH ballI allI impI)
      fix ps n assume ps: "ps \<in> set pss" "Tok n \<in> set ps"
      then have "n \<noteq> m" using False by auto
      then show "\<exists>p i. map_of subs (token_text n) = Some (p, i)
           \<and> read_value vs p i = Inr (val n) \<and> dollar \<notin> set (val n)"
        using Cons.prems(4) rest [OF ps] ps by metis
    qed (use Cons.prems in auto)
    then show ?thesis using False occurs by (simp add: sub m)
  next
    case True
    then have "\<exists>p' i'. map_of (sub # subs) (token_text m) = Some (p', i')
        \<and> read_value vs p' i' = Inr (val m) \<and> dollar \<notin> set (val m)"
      using Cons.prems(4) by blast
    then obtain v where v: "read_value vs p i = Inr v" "v = val m" "dollar \<notin> set v"
      by (simp add: sub m)
    have "map (replace_text t v) (map render pss) = map render (map (put m v) pss)"
      using Cons.prems(3) m by (simp add: replace_render)
    moreover have "substitute vs subs (map render (map (put m v) pss)) = Inr (map (fill val) (map (put m v) pss))"
    proof (rule Cons.IH)
      show "\<forall>ps\<in>set (map (put m v) pss). separated ps" using Cons.prems(3) v put_keeps by auto
      show "\<forall>ps\<in>set (map (put m v) pss). \<forall>n. Tok n \<in> set ps \<longrightarrow> (\<exists>p i. map_of subs (token_text n) = Some (p, i)
           \<and> read_value vs p i = Inr (val n) \<and> dollar \<notin> set (val n))"
      proof (intro ballI allI impI)
        fix qs n assume "qs \<in> set (map (put m v) pss)" "Tok n \<in> set qs"
        then obtain ps where ps: "ps \<in> set pss" "Tok n \<in> set ps" "n \<noteq> m"
          by (auto simp: put_def split: if_splits)
        then show "\<exists>p i. map_of subs (token_text n) = Some (p, i) \<and> read_value vs p i = Inr (val n) \<and> dollar \<notin> set (val n)"
          using Cons.prems(4) rest [OF ps] by metis
      qed
    qed (use Cons.prems in auto)
    moreover have "map (fill val) (map (put m v) pss) = map (fill val) pss"
      using v fill_put by simp
    ultimately have "substitute vs subs (map (replace_text t v) (map render pss)) = Inr (map (fill val) pss)"
      by (simp only:)
    then show ?thesis using True occurs v by (simp add: sub m)
  qed
qed

section \<open>Properties\<close>

text \<open>\<open>commands_for\<close> fails with the substitution error exactly when \<open>unresolved\<close> names a
  problem, and its message is those problems.\<close>

theorem commands_for_unresolved:
  "(\<exists>e. commands_for device commands = Inl (Substitution_Error e)) \<longleftrightarrow> unresolved device commands \<noteq> []"
proof -
  have "read_value vs p i \<noteq> Inl (Substitution_Error e)" for vs p i e
    by (simp add: read_value_def split: option.split)
  then have "substitute vs subs cs \<noteq> Inl (Substitution_Error e)" for vs subs cs e
    by (induction vs subs cs rule: substitute.induct) (auto split: sum.split)
  then show ?thesis by (auto simp: commands_for_def Let_def)
qed

text \<open>when every token of the commands resolves, the text between two tokens tells them apart
  and no value holds a dollar sign, \<open>commands_for\<close> replaces every token by its value at once, in
  every command, and nothing else: the order of the mappings does not matter.\<close>

theorem commands_for_fills:
  assumes "\<forall>(t, _)\<in>set (var_map_subs device). \<exists>m. t = token_text m \<and> valid_name m"
    and "distinct (map fst (var_map_subs device))"
    and "\<forall>ps\<in>set pss. separated ps"
    and "unresolved device (map render pss) = []"
    and "\<forall>n v. value_for device (token_text n) = Inr v \<longrightarrow> v = val n \<and> dollar \<notin> set v"
  shows "commands_for device (map render pss) = Inr (map (fill val) pss)"
proof -
  have "substitute (extra device) (var_map_subs device) (map render pss) = Inr (map (fill val) pss)"
  proof (rule substitute_fills [OF assms(1-3)], intro ballI allI impI)
    fix ps n assume ps: "ps \<in> set pss" "Tok n \<in> set ps"
    then have "token_text n \<in> set (find_tokens (render ps))"
      using assms(3) by (auto simp: find_tokens_render split: piece.splits intro!: bexI [of _ "Tok n"])
    then obtain v where v: "value_for device (token_text n) = Inr v"
      using assms(4) ps by (fastforce simp: unresolved_Nil_iff)
    from value_for_reads [OF v] assms(5) v
    show "\<exists>p i. map_of (var_map_subs device) (token_text n) = Some (p, i)
        \<and> read_value (extra device) p i = Inr (val n) \<and> dollar \<notin> set (val n)" by metis
  qed
  then show ?thesis using assms(4) by (simp add: commands_for_def)
qed

definition sample_device :: mapping_device where
  "sample_device = \<lparr>var_map_subs = [(''$$A$$'', ''p'', None)], extra = [(''p'', Text ''x'')]\<rparr>"

theorem commands_for_fills_witness:
  "commands_for sample_device (map render [[Lit ''a '', Tok ''A'']]) = Inr [''a x'']"
proof -
  have "commands_for sample_device (map render [[Lit ''a '', Tok ''A'']]) =
      Inr (map (fill (\<lambda>_. ''x'')) [[Lit ''a '', Tok ''A'']])"
  proof (rule commands_for_fills)
    have "valid_name ''A''" by code_simp
    then show "\<forall>(t, _)\<in>set (var_map_subs sample_device). \<exists>m. t = token_text m \<and> valid_name m"
      by (auto simp: sample_device_def token_text_def marks_def intro!: exI [of _ "''A''"])
    show "distinct (map fst (var_map_subs sample_device))" by (simp add: sample_device_def)
    have "separated [Lit ''a '', Tok ''A'']" by code_simp
    then show "\<forall>ps\<in>set [[Lit ''a '', Tok ''A'']]. separated ps" by simp
    show "unresolved sample_device (map render [[Lit ''a '', Tok ''A'']]) = []" by code_simp
    have "strip ''x'' = ''x''" by code_simp
    then show "\<forall>n v. value_for sample_device (token_text n) = Inr v \<longrightarrow> v = ''x'' \<and> dollar \<notin> set v"
      by (auto simp: value_for_def read_value_def sample_device_def dollar_def split: option.splits if_splits)
  qed
  then show ?thesis by (simp add: fill_def)
qed

text \<open>without text that tells two tokens apart the replacement is wrong: with \<open>$$B$$\<close> bound
  first, the command \<open>$$A$$B$$\<close> - whose one token is \<open>$$A$$\<close> - passes \<open>unresolved\<close>, yet
  \<open>$$B$$\<close> is replaced in it; and when \<open>$$B$$\<close> has no value, the call raises \<open>KeyError\<close>.\<close>

theorem commands_for_hidden_token:
  "let d = \<lparr>var_map_subs = [(''$$B$$'', ''q'', None), (''$$A$$'', ''p'', None)],
            extra = [(''p'', Text ''x''), (''q'', Text ''y'')]\<rparr>
   in find_tokens ''$$A$$B$$'' = [''$$A$$''] \<and> unresolved d [''$$A$$B$$''] = []
      \<and> commands_for d [''$$A$$B$$''] = Inr [''$$Ay'']
      \<and> commands_for (d\<lparr>extra := [(''p'', Text ''x'')]\<rparr>) [''$$A$$B$$''] = Inl (Key_Error ''q'')"
  by code_simp

end
