(* ===== verification/Run_Report.thy ===== *)
theory Run_Report
  imports Log Evidence_Judge
begin

text \<open>
  What a rollout's sessions tell and return (\<open>src/rollout/session.py\<close>): the words of an error,
  the report (\<open>RunReport\<close>: the log lines and what only a person can resolve on each device) and a
  device's push result. The log lines are kept as they are handed to the logger
  (\<open>Log.notify_logger\<close> redacts and shows them).
\<close>

section \<open>The words of an error\<close>

text \<open>An exception: its class, its text, the exception it was raised from, if any (\<open>__context__\<close>), and
  the key a \<open>paramiko.BadHostKeyException\<close> carries ("type base64").\<close>

datatype error = Error (error_class: string) (error_text: string) (error_context: "error option")
  (error_key: "string option")

definition first_line :: "error \<Rightarrow> string" where
  "first_line e =
     (case filter (\<lambda>l. l \<noteq> []) (map strip (splitlines (error_text e))) of
        [] \<Rightarrow> error_class e | l # _ \<Rightarrow> l)"

text \<open>\<open>isinstance(cause, TimeoutError)\<close>: the classes that are timeouts are named.\<close>

definition timeout_classes :: "string list" where
  "timeout_classes = [''TimeoutError'']"

definition connect_failure :: "error \<Rightarrow> string" where
  "connect_failure e =
     (case error_context e of
        None \<Rightarrow> ''timed out''
      | Some cause \<Rightarrow>
          if error_class cause \<in> set timeout_classes then ''timed out''
          else ''couldn't connect: '' @ first_line cause)"

text \<open>\<open>line.find(". ")\<close>, and the text up to and with the full stop.\<close>

fun up_to_stop :: "string \<Rightarrow> string" where
  "up_to_stop [] = []"
| "up_to_stop (c # cs) = (if c = CHR ''.'' \<and> take 1 cs = '' '' then [c] else c # up_to_stop cs)"

definition first_sentence :: "error \<Rightarrow> string" where
  "first_sentence e = up_to_stop (first_line e)"

section \<open>The report\<close>

record log_entry =
  n_text :: string
  n_tone :: tone
  n_important :: bool

record run_report =
  r_lines :: "log_entry list"
  r_actions :: "(string \<times> string list) list"

definition empty_report :: run_report where
  "empty_report = \<lparr>r_lines = [], r_actions = []\<rparr>"

definition notify :: "string \<Rightarrow> tone \<Rightarrow> bool \<Rightarrow> run_report \<Rightarrow> run_report" where
  "notify text t important report =
     report\<lparr>r_lines := r_lines report @ [\<lparr>n_text = text, n_tone = t, n_important = important\<rparr>]\<rparr>"

definition action_needed :: "string \<Rightarrow> string \<Rightarrow> run_report \<Rightarrow> run_report" where
  "action_needed device_endpoint what report =
     (let what = redact what
      in notify (''ACTION NEEDED - '' @ device_endpoint @ '': '' @ what) Tone_Error True
           (report\<lparr>r_actions := dict_append device_endpoint what (r_actions report)\<rparr>))"

definition actions :: "string \<Rightarrow> run_report \<Rightarrow> string option" where
  "actions device_endpoint report =
     (let s = join [newline] (dict_get (r_actions report) device_endpoint)
      in if s = [] then None else Some s)"

section \<open>A push's result\<close>

record push_result =
  p_applied :: bool
  p_sent :: "nat option"
  p_interrupted :: bool
  p_replies :: "string list list"
  p_outcome :: "outcome option"
  p_diff :: "string option"
  p_after :: "string option"

definition not_applied :: push_result where
  "not_applied = \<lparr>p_applied = False, p_sent = None, p_interrupted = False, p_replies = [],
     p_outcome = None, p_diff = None, p_after = None\<rparr>"

section \<open>Lemmas\<close>

lemma r_actions_notify [simp]: "r_actions (notify text t important report) = r_actions report"
  by (simp add: notify_def)

lemma r_lines_notify [simp]:
  "r_lines (notify text t important report) =
     r_lines report @ [\<lparr>n_text = text, n_tone = t, n_important = important\<rparr>]"
  by (simp add: notify_def)

lemma r_actions_action_needed [simp]:
  "r_actions (action_needed e what report) = dict_append e (redact what) (r_actions report)"
  by (simp add: action_needed_def Let_def)

lemma up_to_stop_prefix: "prefix (up_to_stop s) s"
  by (induction s rule: up_to_stop.induct) auto

text \<open>The words of an error stay on one line of the log.\<close>

lemma splitlines_no_break: "l \<in> set (splitlines s) \<Longrightarrow> \<forall>c\<in>set l. \<not> is_break c"
proof (induction s rule: splitlines.induct)
  case (2 c cs)
  show ?case
  proof (cases "dropWhile (\<lambda>x. \<not> is_break x) (c # cs)")
    case Nil
    then have "splitlines (c # cs) = [c # cs]" by (subst splitlines.simps) simp
    moreover from Nil have "\<forall>x\<in>set (c # cs). \<not> is_break x" by (simp only: dropWhile_eq_Nil_conv)
    ultimately show ?thesis using "2.prems" by (simp del: splitlines.simps)
  next
    case (Cons b rest)
    let ?next = "if b = CHR 0x0D \<and> take 1 rest = [newline] then drop 1 rest else rest"
    have "splitlines (c # cs) = takeWhile (\<lambda>x. \<not> is_break x) (c # cs) # splitlines ?next"
      using Cons by (subst splitlines.simps) simp
    with "2.prems" consider "l = takeWhile (\<lambda>x. \<not> is_break x) (c # cs)" | "l \<in> set (splitlines ?next)" by auto
    then show ?thesis
    proof cases
      case 1
      then show ?thesis by (auto dest: set_takeWhileD)
    next
      case 2
      then show ?thesis using "2.IH" [OF Cons] by blast
    qed
  qed
qed simp

lemma strip_subset: "set (strip s) \<subseteq> set s"
  using set_dropWhileD [of _ is_space "rev (dropWhile is_space s)"] set_dropWhileD [of _ is_space s]
  by (auto simp: strip_def strip_p_def rstrip_p_def lstrip_p_def)

lemma first_line_one_line:
  "\<forall>c\<in>set (error_class e). \<not> is_break c \<Longrightarrow> \<forall>c\<in>set (first_line e). \<not> is_break c"
proof -
  assume cls: "\<forall>c\<in>set (error_class e). \<not> is_break c"
  have line: "\<forall>c\<in>set (strip x). \<not> is_break c" if "x \<in> set (splitlines (error_text e))" for x
    using splitlines_no_break [OF that] strip_subset by blast
  have "first_line e = error_class e \<or> first_line e \<in> set (map strip (splitlines (error_text e)))"
  proof (cases "filter (\<lambda>l. l \<noteq> []) (map strip (splitlines (error_text e)))")
    case (Cons l ls)
    then have "l \<in> set (filter (\<lambda>l. l \<noteq> []) (map strip (splitlines (error_text e))))"
      by (simp only: list.set_intros)
    then have "l \<in> set (map strip (splitlines (error_text e)))" by simp
    then show ?thesis using Cons by (simp add: first_line_def del: set_map)
  qed (simp add: first_line_def)
  then show "\<forall>c\<in>set (first_line e). \<not> is_break c" using cls line by auto
qed

end
