(* ===== verification/Address.thy ===== *)
theory Address
  imports Prelude
begin

text \<open>
  \<open>src/rollout/address.py\<close>: IP addresses (as Python's \<open>ipaddress\<close> reads them), hostnames, the
  DNS suffix of a bare name, and the lookup of several names at once. The system's resolver and the
  time it takes are parameters.
\<close>

section \<open>IP addresses\<close>

definition is_hex :: "char \<Rightarrow> bool" where
  "is_hex c \<longleftrightarrow> is_dec c \<or> (let n = code_point c in 97 \<le> n \<and> n \<le> 102 \<or> 65 \<le> n \<and> n \<le> 70)"

definition hex_value :: "char \<Rightarrow> nat" where
  "hex_value c = (let n = code_point c in if n \<le> 57 then n - 48 else if n \<le> 70 then n - 55 else n - 87)"

fun hex_number :: "int \<Rightarrow> string \<Rightarrow> int" where
  "hex_number acc [] = acc"
| "hex_number acc (c # cs) = hex_number (16 * acc + int (hex_value c)) cs"

text \<open>One octet: decimal ASCII digits, three at most, no leading zero, 255 at most.\<close>

definition octet :: "string \<Rightarrow> int option" where
  "octet s =
     (if s = [] \<or> \<not> list_all is_dec s \<or> 3 < length s then None
      else if s \<noteq> ''0'' \<and> hd s = CHR ''0'' then None
      else if 255 < digits_value 0 s then None else Some (int (digits_value 0 s)))"

definition ipv4_value :: "string \<Rightarrow> int option" where
  "ipv4_value s =
     (case map octet (split_char (CHR ''.'') s) of
        [Some a, Some b, Some c, Some d] \<Rightarrow> Some (((a * 256 + b) * 256 + c) * 256 + d)
      | _ \<Rightarrow> None)"

definition hextet :: "string \<Rightarrow> int option" where
  "hextet s = (if s = [] \<or> \<not> list_all is_hex s \<or> 4 < length s then None else Some (hex_number 0 s))"

fun hextets_value :: "int \<Rightarrow> string list \<Rightarrow> int option" where
  "hextets_value acc [] = Some acc"
| "hextets_value acc (p # ps) =
     (case hextet p of None \<Rightarrow> None | Some v \<Rightarrow> hextets_value (acc * 65536 + v) ps)"

text \<open>The positions of the empty pieces strictly inside.\<close>

definition inner_empty :: "string list \<Rightarrow> nat list" where
  "inner_empty parts = filter (\<lambda>i. parts ! i = []) [1..<length parts - 1]"

definition ipv6_parts :: "string list \<Rightarrow> int option" where
  "ipv6_parts parts =
     (if 9 < length parts then None
      else (case inner_empty parts of
         [] \<Rightarrow> if length parts \<noteq> 8 then None else hextets_value 0 parts
       | [skip] \<Rightarrow>
           (let hi = take skip parts; lo = drop (Suc skip) parts;
                hi' = (if hd parts = [] then drop 1 hi else hi);
                lo' = (if last parts = [] then butlast lo else lo)
            in if hd parts = [] \<and> hi' \<noteq> [] \<or> last parts = [] \<and> lo' \<noteq> [] then None
               else if 8 \<le> length hi' + length lo' then None
               else (case (hextets_value 0 hi', hextets_value 0 lo') of
                       (Some a, Some b) \<Rightarrow> Some (a * 65536 ^ (8 - length hi') + b)
                     | _ \<Rightarrow> None))
       | _ \<Rightarrow> None))"

definition four_hex :: "int \<Rightarrow> string" where
  "four_hex v = map (\<lambda>d. hex_digit (nat (v div d mod 16))) [4096, 256, 16, 1]"

definition ipv6_address :: "string \<Rightarrow> int option" where
  "ipv6_address s =
     (let parts = split_char (CHR '':'') s in
      if length parts < 3 then None
      else if CHR ''.'' \<in> set (last parts) then
        (case ipv4_value (last parts) of
           None \<Rightarrow> None
         | Some v \<Rightarrow>
             ipv6_parts (butlast parts @ [four_hex (v div 65536), four_hex (v mod 65536)]))
      else ipv6_parts parts)"

text \<open>A zone (\<open>%eth0\<close>) may follow an IPv6 address: not empty, without a percent sign of its own.\<close>

definition ipv6_value :: "string \<Rightarrow> int option" where
  "ipv6_value s =
     (let (address, found, zone) = partition_char (CHR ''%'') s
      in if CHR ''/'' \<in> set s \<or> found \<and> (zone = [] \<or> CHR ''%'' \<in> set zone) then None
         else ipv6_address address)"

definition is_ip :: "string \<Rightarrow> bool" where
  "is_ip s \<longleftrightarrow> ipv4_value s \<noteq> None \<or> ipv6_value s \<noteq> None"

section \<open>Names\<close>

definition max_name :: nat where "max_name = 253"

definition is_alnum :: "char \<Rightarrow> bool" where
  "is_alnum c \<longleftrightarrow> is_dec c \<or> is_lower_az c \<or> is_upper_az c"

text \<open>\<open>_LABEL.fullmatch\<close>: letters, digits and hyphens, 1 to 63, no hyphen at an end.\<close>

definition is_label :: "string \<Rightarrow> bool" where
  "is_label s \<longleftrightarrow> s \<noteq> [] \<and> length s \<le> 63 \<and> is_alnum (hd s) \<and> is_alnum (last s)
     \<and> list_all (\<lambda>c. is_alnum c \<or> c = CHR ''-'') s"

definition is_hostname :: "string \<Rightarrow> bool" where
  "is_hostname v =
     (let name = (if suffix ''.'' v then butlast v else v) in
      if name = [] \<or> max_name < length name then False
      else (let labels = split_char (CHR ''.'') name
            in list_all is_label labels \<and> \<not> is_digits (last labels)))"

definition is_bare :: "string \<Rightarrow> bool" where
  "is_bare a \<longleftrightarrow> CHR ''.'' \<notin> set a \<and> CHR '':'' \<notin> set a"

definition qualify :: "string \<Rightarrow> string \<Rightarrow> string" where
  "qualify a dns_suffix =
     (let s = strip_p (\<lambda>c. c = CHR ''.'') (strip dns_suffix)
      in if s \<noteq> [] \<and> is_bare a then a @ ''.'' @ s else a)"

definition primary :: "string list \<Rightarrow> string option" where
  "primary addresses =
     (case List.find (\<lambda>a. CHR '':'' \<notin> set a) addresses of
        Some a \<Rightarrow> Some a
      | None \<Rightarrow> (case addresses of [] \<Rightarrow> None | a # _ \<Rightarrow> Some a))"

text \<open>\<open>endpoint\<close> (\<open>src/rollout/engine.py\<close>): an address with a colon in brackets.\<close>

definition endpoint :: "string \<Rightarrow> string \<Rightarrow> string" where
  "endpoint ip port =
     (if CHR '':'' \<in> set ip then ''['' @ ip @ '']:'' @ port else ip @ '':'' @ port)"

section \<open>Lookups\<close>

text \<open>What the resolver answered for a name before the time was over: addresses, or \<open>None\<close> for an
  error or no answer yet. \<open>canonical\<close> is \<open>str(ipaddress.ip_address(host))\<close>.\<close>

definition resolve_many ::
    "(string \<Rightarrow> string) \<Rightarrow> (string \<Rightarrow> string list option) \<Rightarrow> string list \<Rightarrow> (string \<times> string list option) list" where
  "resolve_many canonical look hosts =
     (let unique = rev (remdups (rev hosts));
          ips = filter is_ip unique; names = filter (\<lambda>h. \<not> is_ip h) unique
      in map (\<lambda>h. (h, Some [canonical h])) ips
         @ map (\<lambda>h. (h, case look h of None \<Rightarrow> None | Some [] \<Rightarrow> None | Some found \<Rightarrow> Some found)) names)"

section \<open>Lemmas\<close>

lemma split_char_last_colon:
  "CHR '':'' \<notin> set p \<Longrightarrow> rev (takeWhile (\<lambda>c. c \<noteq> CHR '':'') (rev (a @ '':'' @ p))) = p"
  by (simp add: takeWhile_append takeWhile_eq_all_conv)

text \<open>Two targets written the same are the same target: the text of an endpoint gives back its
  port, and its address.\<close>

lemma endpoint_inject:
  assumes "CHR '':'' \<notin> set p" "CHR '':'' \<notin> set q" "endpoint a p = endpoint b q"
    and "take 1 a \<noteq> ''[''" "take 1 b \<noteq> ''[''"
  shows "a = b \<and> p = q"
proof -
  have tail: "rev (takeWhile (\<lambda>c. c \<noteq> CHR '':'') (rev (endpoint x r))) = r" if "CHR '':'' \<notin> set r" for x r
    using split_char_last_colon [OF that, of x] split_char_last_colon [OF that, of "''['' @ x @ '']''"]
    by (auto simp: endpoint_def)
  have pq: "p = q" using tail [OF assms(1), of a] tail [OF assms(2), of b] assms(3) by simp
  show ?thesis
    using assms(3-5) pq by (auto simp: endpoint_def split: if_splits)
qed

lemma resolve_many_hosts:
  "set (map fst (resolve_many canonical look hosts)) = set hosts"
  "distinct (map fst (resolve_many canonical look hosts))"
proof -
  have d: "distinct (rev (remdups (rev hosts)))" by simp
  have m: "map fst (resolve_many canonical look hosts) =
      filter is_ip (rev (remdups (rev hosts))) @ filter (\<lambda>h. \<not> is_ip h) (rev (remdups (rev hosts)))"
    by (simp add: resolve_many_def Let_def comp_def)
  show "set (map fst (resolve_many canonical look hosts)) = set hosts"
    unfolding m by auto
  show "distinct (map fst (resolve_many canonical look hosts))"
    unfolding m using d by (auto simp del: distinct_rev)
qed

end
