(* ===== verification/Engine.thy ===== *)
theory Engine
  imports Run_Report Engine_Tokens Address
begin

text \<open>
  \<open>src/rollout/engine.py\<close>: how a device's push is classified, what is stored of it, and a rollout
  across the devices. A device's SSH conversation (\<open>NetmikoSession.push\<close>, theory \<open>Session\<close>) is
  a function argument; the thread pool is the order in which the devices' pushes end, and where a
  Ctrl+C falls in it.
\<close>

section \<open>The outcome of a device\<close>

datatype device_status =
  St_Success | St_Review | St_Partial | St_Failed | St_Not_Verified | St_Cancelled

fun status_rank :: "device_status \<Rightarrow> nat" where
  "status_rank St_Success = 0"
| "status_rank St_Review = 1"
| "status_rank St_Partial = 2"
| "status_rank St_Failed = 3"
| "status_rank St_Not_Verified = 4"
| "status_rank St_Cancelled = 5"

lemma status_rank_inject: "status_rank a = status_rank b \<longleftrightarrow> a = b"
  by (cases a; cases b) simp_all

text \<open>The statuses are listed, and so ordered, as they are declared.\<close>

instantiation device_status :: linorder
begin

definition less_eq_device_status :: "device_status \<Rightarrow> device_status \<Rightarrow> bool" where
  "less_eq_device_status a b \<longleftrightarrow> status_rank a \<le> status_rank b"

definition less_device_status :: "device_status \<Rightarrow> device_status \<Rightarrow> bool" where
  "less_device_status a b \<longleftrightarrow> status_rank a < status_rank b"

instance
  by standard
    (auto simp: less_eq_device_status_def less_device_status_def simp flip: status_rank_inject)

end

definition device_statuses :: "device_status list" where
  "device_statuses = [St_Success, St_Review, St_Partial, St_Failed, St_Not_Verified, St_Cancelled]"

fun status_value :: "device_status \<Rightarrow> string" where
  "status_value St_Success = ''success''"
| "status_value St_Review = ''review''"
| "status_value St_Partial = ''partial''"
| "status_value St_Failed = ''failed''"
| "status_value St_Not_Verified = ''not verified''"
| "status_value St_Cancelled = ''cancelled''"

datatype review_outcome = Confirmed | Review_Rejected

definition certain :: "verdict \<Rightarrow> bool" where
  "certain v \<longleftrightarrow> v = TookEffect \<or> v = InPlace \<or> v = Removed"

definition proven_count :: "outcome \<Rightarrow> nat" where
  "proven_count out = length (filter (\<lambda>j. certain (j_verdict j)) (o_commands out))"

definition classify :: "push_result option \<Rightarrow> device_status \<times> nat \<times> nat option" where
  "classify push =
     (case push of
        None \<Rightarrow> (St_Cancelled, 0, None)
      | Some p \<Rightarrow>
          if \<not> p_applied p then (St_Failed, 0, None)
          else let sent = length (p_replies p) in
            if p_interrupted p then
              (St_Partial, (case p_sent p of None \<Rightarrow> sent | Some n \<Rightarrow> if n = 0 then sent else n), None)
            else (case p_outcome p of
                None \<Rightarrow> (St_Not_Verified, sent, None)
              | Some out \<Rightarrow>
                  (if rejected out then (if proven_count out \<noteq> 0 then St_Partial else St_Failed)
                   else if needs_review out then St_Review else St_Success,
                   sent, Some (proven_count out))))"

section \<open>What is stored of it\<close>

text \<open>\<open>replied\<close>: what a device that wasn't judged answered, command by command, redacted.\<close>

definition replied :: "push_result option \<Rightarrow> string list \<Rightarrow> (string \<times> string list) list option" where
  "replied push commands =
     (case push of
        None \<Rightarrow> None
      | Some p \<Rightarrow>
          if p_outcome p \<noteq> None then None
          else
            (let answered = map (\<lambda>(command, lines). (redact command, map redact lines))
                   (filter (\<lambda>(_, lines). lines \<noteq> []) (zip commands (p_replies p)))
             in if answered = [] then None else Some answered))"

record transcript_entry =
  en_command :: string
  en_verdict :: verdict
  en_evidence :: "string list"
  en_note :: string
  en_reply :: "string list"

record stored_change =
  sc_sign :: string
  sc_line :: string
  sc_section :: string
  sc_by :: "nat list"
  sc_review :: "nat list"
  sc_device :: bool

text \<open>\<open>tr_changes = None\<close>: a transcript stored before the changes were kept.\<close>

record transcript =
  tr_commands :: "transcript_entry list"
  tr_other :: "string list"
  tr_changes :: "stored_change list option"

definition needs_decision :: "transcript option \<Rightarrow> bool" where
  "needs_decision t =
     (case t of None \<Rightarrow> False
      | Some t \<Rightarrow> list_ex (\<lambda>c. en_verdict c \<in> {Review, Rejected}) (tr_commands t))"

definition nth_reply :: "string list list \<Rightarrow> nat \<Rightarrow> string list" where
  "nth_reply replies i = (if i < length replies then replies ! i else [])"

definition transcript_of :: "outcome option \<Rightarrow> string list list \<Rightarrow> transcript option" where
  "transcript_of outcome replies = map_option (\<lambda>out.
     \<lparr>tr_commands = map (\<lambda>(i, j).
         \<lparr>en_command = redact (j_command j), en_verdict = j_verdict j,
          en_evidence = map redact (j_evidence j), en_note = j_note j,
          en_reply = map redact (nth_reply replies i)\<rparr>) (enumerate 0 (o_commands out)),
      tr_other = map redact (o_other out),
      tr_changes = Some (map (\<lambda>c.
         \<lparr>sc_sign = c_sign c, sc_line = redact (c_line c), sc_section = redact (c_section c),
          sc_by = c_by c, sc_review = c_review c, sc_device = c_device c\<rparr>) (o_changes out))\<rparr>) outcome"

text \<open>\<open>diff_tags\<close>: the changes wait under their text, in order; each diff line takes the next.\<close>

definition waiting_changes :: "stored_change list \<Rightarrow> (string \<times> stored_change list) list" where
  "waiting_changes cs = fold (\<lambda>c. dict_append (sc_sign c @ strip (sc_line c)) c) cs []"

fun take_tags ::
    "(string \<times> stored_change list) list \<Rightarrow> string list \<Rightarrow> stored_change option list" where
  "take_tags waiting [] = []"
| "take_tags waiting (line # rest) =
     (if take 1 line \<notin> {[], ''+'', ''-''} \<or> take 3 line \<in> {''+++'', ''---''}
      then None # take_tags waiting rest
      else
        (let k = take 1 line @ strip (redact (drop 1 line)) in
         case map_of waiting k of
           Some (c # queue) \<Rightarrow> Some c # take_tags (AList.update k queue waiting) rest
         | _ \<Rightarrow> None # take_tags waiting rest))"

definition diff_tags :: "string \<Rightarrow> transcript option \<Rightarrow> stored_change option list option" where
  "diff_tags diff stored =
     (case stored of None \<Rightarrow> None
      | Some t \<Rightarrow> (case tr_changes t of None \<Rightarrow> None
          | Some cs \<Rightarrow> Some (take_tags (waiting_changes cs) (splitlines diff))))"

section \<open>A device and a rollout\<close>

record rollout_options =
  opt_verify :: bool
  opt_verbose :: bool
  opt_webapp :: bool
  opt_max_workers :: nat

record device =
  d_ip :: string
  d_label :: string
  d_type :: string
  d_port :: nat
  d_dns_suffix :: string
  d_mappings :: mapping_device

definition device_host :: "device \<Rightarrow> string" where
  "device_host d = qualify (d_ip d) (d_dns_suffix d)"

definition device_endpoint :: "device \<Rightarrow> string" where
  "device_endpoint d = endpoint (d_ip d) (show_nat (d_port d))"

definition device_target :: "(string \<times> string) list \<Rightarrow> device \<Rightarrow> string" where
  "device_target addresses d =
     (let host = device_host d
      in endpoint (if is_ip host then host
                   else case map_of addresses (d_ip d) of Some a \<Rightarrow> a | None \<Rightarrow> host)
           (show_nat (d_port d)))"

record device_result =
  x_ip :: string
  x_port :: nat
  x_type :: string
  x_sent :: nat
  x_verified :: "nat option"
  x_fetched :: "string option"
  x_diff :: "string option"
  x_transcript :: "transcript option"
  x_replies :: "(string \<times> string list) list option"
  x_status :: device_status
  x_action :: "string option"

definition cancelled_results :: "device list \<Rightarrow> device_result list" where
  "cancelled_results devices = map (\<lambda>d. \<lparr>x_ip = d_ip d, x_port = d_port d, x_type = d_type d,
     x_sent = 0, x_verified = None, x_fetched = None, x_diff = None, x_transcript = None,
     x_replies = None, x_status = St_Cancelled, x_action = None\<rparr>) devices"

section \<open>One device\<close>

text \<open>\<open>_log_outcome\<close>: a line per command that isn't navigation, then the other changes.\<close>

definition outcome_tone :: "verdict \<Rightarrow> tone" where
  "outcome_tone v = (if v = Rejected then Tone_Error else if v = Review then Tone_Warning
     else if v = Exec then Tone_Info else Tone_Success)"

definition outcome_line :: "device \<Rightarrow> string list list \<Rightarrow> nat \<Rightarrow> judgement \<Rightarrow> log_entry" where
  "outcome_line d replies i j =
     (let unproven = (j_verdict j \<in> {Review, Rejected});
          shown = (case j_evidence j of [] \<Rightarrow> [] | e # _ \<Rightarrow> strip e);
          said = (if i < length replies \<and> (unproven \<or> j_verdict j = Exec)
                  then join '' | '' (replies ! i) else []);
          detail = join ''; '' (filter (\<lambda>p. p \<noteq> [])
                     [shown, j_note j, if said \<noteq> [] then ''the device replied: '' @ said else []])
      in \<lparr>n_text = device_endpoint d @ '': '' @ [squote] @ strip (j_command j) @ [squote] @ '' ''
             @ verdict_value (j_verdict j) @ (if detail \<noteq> [] then '' - '' @ detail else []),
          n_tone = outcome_tone (j_verdict j), n_important = unproven\<rparr>)"

definition log_outcome :: "device \<Rightarrow> outcome \<Rightarrow> string list list \<Rightarrow> run_report \<Rightarrow> run_report" where
  "log_outcome d out replies report =
     report\<lparr>r_lines := r_lines report
       @ map (\<lambda>(i, j). outcome_line d replies i j)
           (filter (\<lambda>(i, j). j_verdict j \<noteq> Navigation) (enumerate 0 (o_commands out)))
       @ map (\<lambda>c. \<lparr>n_text = device_endpoint d @ '': changed, not by these commands: '' @ c,
                   n_tone = Tone_Warning, n_important = False\<rparr>) (o_other out)\<rparr>"

text \<open>How a device's future ends: cancelled before it started, with a result, or with an exception
  that is not the substitution error.\<close>

datatype ran = Not_Started | Ran push_result | Raised subst_error

type_synonym session_push = "device \<Rightarrow> string list \<Rightarrow> bool \<Rightarrow> run_report \<Rightarrow> push_result \<times> run_report"

definition push_device ::
    "session_push \<Rightarrow> bool \<Rightarrow> string list \<Rightarrow> bool \<Rightarrow> device \<Rightarrow> run_report \<Rightarrow> ran \<times> run_report" where
  "push_device session verify commands cancelled d report =
     (if cancelled then (Not_Started, report)
      else (case commands_for (d_mappings d) commands of
          Inl (Substitution_Error e) \<Rightarrow>
            (Ran not_applied, notify (device_endpoint d @ '' skipped - '' @ e) Tone_Error False report)
        | Inl e \<Rightarrow> (Raised e, report)
        | Inr filled \<Rightarrow>
            (let (result, report1) = session d filled verify report in
             (Ran result,
              case p_outcome result of
                None \<Rightarrow> report1
              | Some out \<Rightarrow> log_outcome d out (p_replies result) report1))))"

section \<open>All devices\<close>

text \<open>\<open>collect\<close>: the futures in the order they end. An exception of one of them ends the loop.\<close>

type_synonym collected = "bool \<times> (nat \<times> push_result) list \<times> run_report"

fun collect :: "(nat \<times> ran) list \<Rightarrow> collected \<Rightarrow> subst_error + collected" where
  "collect [] st = Inr st"
| "collect ((idx, Raised e) # ended) st = Inl e"
| "collect ((idx, Not_Started) # ended) (cancelled, results, report) =
     collect ended (True, results,
       if cancelled then report else notify ''Rollout Canceled By User'' Tone_Error False report)"
| "collect ((idx, Ran r) # ended) (cancelled, results, report) =
     collect ended (cancelled, AList.update idx r results, report)"

text \<open>\<open>_push_config\<close>: \<open>ended\<close> are the futures collected before a Ctrl+C, \<open>late\<close> those collected
  after it (none: \<open>None\<close>).\<close>

definition push_config ::
    "(nat \<times> ran) list \<Rightarrow> (nat \<times> ran) list option \<Rightarrow> run_report \<Rightarrow> subst_error + collected" where
  "push_config ended late report =
     (case collect ended (False, [], report) of
        Inl e \<Rightarrow> Inl e
      | Inr (cancelled, results, report1) \<Rightarrow>
          (case late of
             None \<Rightarrow> Inr (cancelled, results, report1)
           | Some others \<Rightarrow>
               collect others (True, results,
                 notify ''Interrupted - the devices being configured now finish, the rest are skipped (Ctrl+C again to quit at once)''
                   Tone_Error True report1)))"

definition sent_commands :: "string list \<Rightarrow> device \<Rightarrow> string list" where
  "sent_commands commands d = (case commands_for (d_mappings d) commands of Inr cs \<Rightarrow> cs | Inl _ \<Rightarrow> [])"

definition make_result ::
    "string list \<Rightarrow> run_report \<Rightarrow> device \<Rightarrow> push_result option \<Rightarrow> device_result" where
  "make_result commands report d push =
     (let (status, sent, verified) = classify push in
      \<lparr>x_ip = d_ip d, x_port = d_port d, x_type = d_type d, x_sent = sent, x_verified = verified,
       x_fetched = (case push of None \<Rightarrow> None
          | Some p \<Rightarrow> (case p_outcome p of None \<Rightarrow> None
              | Some out \<Rightarrow> if needs_review out \<or> rejected out then p_after p else None)),
       x_diff = Option.bind push p_diff,
       x_transcript = Option.bind push (\<lambda>p. transcript_of (p_outcome p) (p_replies p)),
       x_replies = (case push of None \<Rightarrow> None
          | Some p \<Rightarrow> if list_ex (\<lambda>r. r \<noteq> []) (p_replies p)
                      then replied push (sent_commands commands d) else None),
       x_status = status, x_action = actions (device_endpoint d) report\<rparr>)"

text \<open>The summary line of a judged device.\<close>

definition proven_line :: "device \<Rightarrow> outcome \<Rightarrow> log_entry" where
  "proven_line d out =
     (let judged = filter (\<lambda>j. j_verdict j \<notin> {Navigation, Exec}) (o_commands out);
          rejections = length (filter (\<lambda>j. j_verdict j = Rejected) judged);
          reviews = length (filter (\<lambda>j. j_verdict j = Review) judged)
      in \<lparr>n_text = device_endpoint d @ '': '' @ show_nat (length judged - rejections - reviews) @ '' of ''
             @ show_nat (length judged) @ '' commands proven by the configuration''
             @ (if rejections \<noteq> 0 then '', '' @ show_nat rejections @ '' rejected'' else [])
             @ (if reviews \<noteq> 0 then '', '' @ show_nat reviews @ '' for review'' else []),
          n_tone = Tone_Info, n_important = True\<rparr>)"

text \<open>\<open>_results\<close>: the devices in order, each with the push stored under its position.\<close>

fun results_from ::
    "string list \<Rightarrow> (nat \<times> push_result) list \<Rightarrow> nat \<Rightarrow> device list \<Rightarrow> run_report
      \<Rightarrow> device_result list \<times> run_report" where
  "results_from commands pushes idx [] report = ([], report)"
| "results_from commands pushes idx (d # ds) report =
     (let push = map_of pushes idx;
          report1 = (case Option.bind push p_outcome of
              None \<Rightarrow> report
            | Some out \<Rightarrow> report\<lparr>r_lines := r_lines report @ [proven_line d out]\<rparr>);
          (rs, report2) = results_from commands pushes (Suc idx) ds report1
      in (make_result commands report1 d push # rs, report2))"

section \<open>The summary\<close>

definition status_count :: "device_status \<Rightarrow> device_result list \<Rightarrow> nat" where
  "status_count s results = length (filter (\<lambda>r. x_status r = s) results)"

definition plural :: "nat \<Rightarrow> string" where
  "plural n = (if n \<noteq> 1 then ''s'' else [])"

definition complete_line :: "device_result list \<Rightarrow> log_entry" where
  "complete_line results =
     (let parts = map (\<lambda>s. show_nat (status_count s results) @ '' '' @ status_value s)
                    (filter (\<lambda>s. status_count s results \<noteq> 0) device_statuses)
      in \<lparr>n_text = ''Configuration rollout complete: '' @ join '', '' parts @ '' (of ''
             @ show_nat (length results) @ '' devices)'',
          n_tone = (if status_count St_Success results = length results then Tone_Success
            else if status_count St_Failed results + status_count St_Cancelled results = length results
              then Tone_Error else Tone_Warning),
          n_important = True\<rparr>)"

definition result_endpoint :: "device_result \<Rightarrow> string" where
  "result_endpoint r = endpoint (x_ip r) (show_nat (x_port r))"

definition holds_rejected :: "device_result \<Rightarrow> bool" where
  "holds_rejected r \<longleftrightarrow> (case x_transcript r of None \<Rightarrow> False
     | Some t \<Rightarrow> list_ex (\<lambda>c. en_verdict c = Rejected) (tr_commands t))"

definition count_and_names :: "string list \<Rightarrow> string" where
  "count_and_names targets =
     show_nat (length targets) @ '' device'' @ plural (length targets) @ '' ('' @ join '', '' targets @ '')''"

definition action_line :: "run_report \<Rightarrow> log_entry list" where
  "action_line report =
     (if r_actions report = [] then []
      else [\<lparr>n_text = ''ACTION NEEDED on '' @ count_and_names (sort (map fst (r_actions report)))
               @ '' - see the lines marked ACTION NEEDED'', n_tone = Tone_Error, n_important = True\<rparr>])"

definition rejected_line :: "bool \<Rightarrow> device_result list \<Rightarrow> log_entry list" where
  "rejected_line webapp results =
     (let targets = sort (map result_endpoint (filter holds_rejected results)) in
      if targets = [] then []
      else [\<lparr>n_text = ''REJECTED commands on '' @ count_and_names targets
               @ '' - not in the configuration, and the device replied: see the lines marked rejected. ''
               @ ''A command whose effect isn't kept in the configuration (generating keys) is rejected too - ''
               @ (if webapp then ''confirm it in Results -> Verification'' else ''check it on the device''),
             n_tone = Tone_Error, n_important = True\<rparr>])"

definition review_line :: "bool \<Rightarrow> device_result list \<Rightarrow> log_entry list" where
  "review_line webapp results =
     (let targets = sort (map result_endpoint (filter (\<lambda>r. x_status r = St_Review) results)) in
      if targets = [] then []
      else [\<lparr>n_text = ''REVIEW on '' @ count_and_names targets
               @ '' - NetRollout couldn't prove every command there: check the lines marked review, then ''
               @ (if webapp then ''decide them in Results -> Verification'' else ''decide them on the devices''),
             n_tone = Tone_Warning, n_important = True\<rparr>])"

definition unverified_line :: "bool \<Rightarrow> device_result list \<Rightarrow> log_entry list" where
  "unverified_line verify results =
     (if status_count St_Not_Verified results = 0 then []
      else [\<lparr>n_text = ''Not verified: '' @
               (if verify then ''the configuration couldn't be read (the reason is above)''
                else ''verification was off - turn it on (Verify after push; the CLI's -vf) to have NetRollout check the result''),
             n_tone = Tone_Warning, n_important = True\<rparr>])"

definition replied_line :: "string list \<Rightarrow> log_entry list" where
  "replied_line answered =
     (if answered = [] then []
      else [\<lparr>n_text = show_nat (length answered) @ '' device'' @ plural (length answered)
               @ '' not verified replied to some commands ('' @ join '', '' answered
               @ '') - read the lines marked 'the device replied': without Verify NetRollout can't tell a refusal from a notice'',
             n_tone = Tone_Warning, n_important = True\<rparr>])"

definition log_summary ::
    "rollout_options \<Rightarrow> string \<Rightarrow> device_result list \<Rightarrow> string list \<Rightarrow> run_report \<Rightarrow> run_report" where
  "log_summary options logfile results answered report =
     report\<lparr>r_lines := r_lines report @ [complete_line results] @ action_line report
       @ rejected_line (opt_webapp options) results @ review_line (opt_webapp options) results
       @ unverified_line (opt_verify options) results @ replied_line answered
       @ [\<lparr>n_text = ''Please see Execution logs in '' @ logfile, n_tone = Tone_Info, n_important = True\<rparr>]\<rparr>"

section \<open>The run\<close>

definition answered_devices :: "device list \<Rightarrow> (nat \<times> push_result) list \<Rightarrow> string list" where
  "answered_devices devices pushes =
     sort (map (\<lambda>(idx, p). device_endpoint (devices ! idx))
       (filter (\<lambda>(idx, p). p_applied p \<and> p_outcome p = None \<and> list_ex (\<lambda>r. r \<noteq> []) (p_replies p)) pushes))"

text \<open>\<open>RolloutEngine.run\<close>: \<open>schedule\<close> gives, for the report when the pushes start, how the futures
  end before and after a Ctrl+C and what the sessions reported meanwhile.\<close>

definition run_rollout ::
    "rollout_options \<Rightarrow> string \<Rightarrow> device list \<Rightarrow> string list
      \<Rightarrow> (nat \<times> ran) list \<Rightarrow> (nat \<times> ran) list option \<Rightarrow> run_report
      \<Rightarrow> subst_error + device_result list \<times> run_report" where
  "run_rollout options logfile devices commands ended late report =
     (let report0 = notify ''Starting configuration rollout'' Tone_Info True report in
      if devices = [] \<or> commands = []
      then Inr ([], notify ''Device input invalid'' Tone_Error False report0)
      else (case push_config ended late report0 of
          Inl e \<Rightarrow> Inl e
        | Inr (_, pushes, report1) \<Rightarrow>
            (let (results, report2) = results_from commands pushes 0 devices report1
             in Inr (results, log_summary options logfile results (answered_devices devices pushes) report2))))"

end
