(* ===== verification/Engine_Properties.thy ===== *)
theory Engine_Properties
  imports Engine Evidence_Properties
begin

text \<open>
  What a rollout promises (\<open>src/rollout/engine.py\<close>): when a device counts as a success, one result
  per device in the devices' order whatever the order the pushes ended in, a summary that counts
  every device once, and diff tags that take every change at most once.
\<close>

section \<open>Classifying\<close>

lemma classify_success_iff:
  "fst (classify push) = St_Success \<longleftrightarrow>
     (\<exists>p out. push = Some p \<and> p_applied p \<and> \<not> p_interrupted p \<and> p_outcome p = Some out
        \<and> (\<forall>j\<in>set (o_commands out). j_verdict j \<notin> {Review, Rejected}))"
  by (cases push) (auto simp: classify_def Let_def rejected_def needs_review_def list_ex_iff split: option.split)

section \<open>Collecting the pushes\<close>

definition collected_results :: "(nat \<times> ran) list \<Rightarrow> (nat \<times> push_result) list" where
  "collected_results ended = concat (map (\<lambda>(i, r). case r of Ran p \<Rightarrow> [(i, p)] | _ \<Rightarrow> []) ended)"

definition raises :: "(nat \<times> ran) list \<Rightarrow> bool" where
  "raises ended \<longleftrightarrow> list_ex (\<lambda>(i, r). case r of Raised e \<Rightarrow> True | _ \<Rightarrow> False) ended"

lemma collect_map:
  "\<not> raises ended \<Longrightarrow> \<exists>c' report'. collect ended (c, results, report) =
     Inr (c', fold (\<lambda>(i, p). AList.update i p) (collected_results ended) results, report')"
  by (induction ended "(c, results, report)" arbitrary: c results report rule: collect.induct)
    (auto simp: raises_def collected_results_def)

lemma map_of_fold_update:
  "map_of (fold (\<lambda>(i, p). AList.update i p) xs results) = map_of results ++ map_of (rev xs)"
  by (induction xs arbitrary: results) (auto simp: update_conv' fun_eq_iff map_add_def split: option.splits)

lemma map_of_rev_distinct: "distinct (map fst xs) \<Longrightarrow> map_of (rev xs) = map_of xs"
  by (simp add: map_of_inject_set flip: rev_map)

lemma collected_fst: "set (map fst (collected_results ended)) \<subseteq> set (map fst ended)"
  by (force simp: collected_results_def split: ran.splits)

lemma collected_distinct:
  "distinct (map fst ended) \<Longrightarrow> distinct (map fst (collected_results ended))"
proof (induction ended)
  case (Cons e ended)
  have "fst e \<notin> set (map fst (collected_results ended))"
    using collected_fst [of ended] Cons.prems by auto
  then show ?case using Cons
    by (cases e; cases "snd e") (simp_all add: collected_results_def)
qed (simp add: collected_results_def)

lemma collect_results_map:
  assumes "distinct (map fst ended)" "collect ended (False, [], report) = Inr (c, results, report')"
  shows "map_of results i = (case map_of ended i of Some (Ran p) \<Rightarrow> Some p | _ \<Rightarrow> None)"
proof -
  have "\<not> raises ended"
  proof
    assume "raises ended"
    then have "\<exists>e. collect ended st = Inl e" for st
      by (induction ended st rule: collect.induct) (auto simp: raises_def)
    then show False using assms(2) by (metis Inr_not_Inl)
  qed
  from collect_map [OF this, of False "[]" report] assms(2)
  have "results = fold (\<lambda>(i, p). AList.update i p) (collected_results ended) []" by auto
  then have "map_of results = map_of (collected_results ended)"
    using map_of_fold_update [of "collected_results ended" "[]"]
      map_of_rev_distinct [OF collected_distinct [OF assms(1)]] by simp
  moreover have "map_of (collected_results ended) i = (case map_of ended i of Some (Ran p) \<Rightarrow> Some p | _ \<Rightarrow> None)"
    using assms(1)
  proof (induction ended)
    case (Cons e ended)
    have "map_of (collected_results ended) (fst e) = None"
      using Cons.prems collected_fst [of ended] by (auto simp: map_of_eq_None_iff)
    then show ?case using Cons by (cases e; cases "snd e") (auto simp: collected_results_def)
  qed (simp add: collected_results_def)
  ultimately show ?thesis by simp
qed

lemma results_from_nth:
  "fst (results_from commands pushes k devices report) = rs \<Longrightarrow>
     length rs = length devices \<and>
     (\<forall>i<length devices. x_ip (rs ! i) = d_ip (devices ! i) \<and> x_port (rs ! i) = d_port (devices ! i)
        \<and> (x_status (rs ! i), x_sent (rs ! i), x_verified (rs ! i)) = classify (map_of pushes (k + i)))"
proof (induction devices arbitrary: k report rs)
  case (Cons d ds)
  let ?report1 = "case Option.bind (map_of pushes k) p_outcome of
      None \<Rightarrow> report | Some out \<Rightarrow> report\<lparr>r_lines := r_lines report @ [proven_line d out]\<rparr>"
  obtain rs2 report2 where rest: "results_from commands pushes (Suc k) ds ?report1 = (rs2, report2)" by fastforce
  have rs: "rs = make_result commands ?report1 d (map_of pushes k) # rs2"
    using Cons.prems rest by (simp add: Let_def)
  have one: "x_ip (make_result commands ?report1 d push) = d_ip d"
    "x_port (make_result commands ?report1 d push) = d_port d"
    "(x_status (make_result commands ?report1 d push), x_sent (make_result commands ?report1 d push),
      x_verified (make_result commands ?report1 d push)) = classify push" for push
    by (simp_all add: make_result_def split_beta)
  from Cons.IH [of "Suc k" ?report1 rs2] rest
  have ih: "length rs2 = length ds \<and> (\<forall>i<length ds. x_ip (rs2 ! i) = d_ip (ds ! i) \<and> x_port (rs2 ! i) = d_port (ds ! i)
        \<and> (x_status (rs2 ! i), x_sent (rs2 ! i), x_verified (rs2 ! i)) = classify (map_of pushes (Suc k + i)))"
    by simp
  show ?case
  proof (intro conjI allI impI)
    show "length rs = length (d # ds)" using ih rs by simp
  next
    fix i assume "i < length (d # ds)"
    then show "x_ip (rs ! i) = d_ip ((d # ds) ! i)" "x_port (rs ! i) = d_port ((d # ds) ! i)"
      "(x_status (rs ! i), x_sent (rs ! i), x_verified (rs ! i)) = classify (map_of pushes (k + i))"
      using ih one rs by (cases i; simp)+
  qed
qed simp

section \<open>The diff's tags\<close>

definition given_tags :: "stored_change option list \<Rightarrow> stored_change multiset" where
  "given_tags tags = mset (concat (map (\<lambda>t. case t of None \<Rightarrow> [] | Some c \<Rightarrow> [c]) tags))"

definition waiting_mset :: "(string \<times> stored_change list) list \<Rightarrow> stored_change multiset" where
  "waiting_mset w = mset (concat (map snd w))"

lemma given_tags_simps [simp]:
  "given_tags [] = {#}"
  "given_tags (None # ts) = given_tags ts"
  "given_tags (Some c # ts) = add_mset c (given_tags ts)"
  by (simp_all add: given_tags_def)

lemma update_mset:
  "distinct (map fst w) \<Longrightarrow> map_of w k = Some old \<Longrightarrow>
     waiting_mset (AList.update k new w) + mset old = waiting_mset w + mset new"
proof (induction w)
  case (Cons e w)
  obtain k' v where e: "e = (k', v)" by fastforce
  show ?case
  proof (cases "k' = k")
    case True
    then show ?thesis using Cons.prems e by (simp add: waiting_mset_def)
  next
    case False
    then show ?thesis using Cons e by (simp add: waiting_mset_def add.assoc)
  qed
qed simp

lemma update_mset_new:
  "map_of w k = None \<Longrightarrow> waiting_mset (AList.update k new w) = waiting_mset w + mset new"
  by (induction w) (auto simp: waiting_mset_def split: if_splits)

lemma take_tags_given:
  "distinct (map fst w) \<Longrightarrow> given_tags (take_tags w ls) \<subseteq># waiting_mset w"
proof (induction w ls rule: take_tags.induct)
  case (2 w l ls)
  let ?k = "take 1 l @ strip (redact (drop 1 l))"
  let ?skip = "take 1 l \<notin> {[], ''+'', ''-''} \<or> take 3 l \<in> {''+++'', ''---''}"
  show ?case
  proof (cases ?skip)
    case True
    have "take_tags w (l # ls) = None # take_tags w ls"
      using True by (simp only: take_tags.simps if_True)
    then show ?thesis using "2.IH"(1) [OF True] "2.prems" by simp
  next
    case go: False
    show ?thesis
    proof (cases "\<exists>c queue. map_of w ?k = Some (c # queue)")
      case False
      then have "take_tags w (l # ls) = None # take_tags w ls"
        using go by (simp only: take_tags.simps if_False Let_def) (auto split: option.split list.split)
      moreover have "given_tags (take_tags w ls) \<subseteq># waiting_mset w"
      proof (cases "map_of w ?k")
        case None
        then show ?thesis using "2.IH"(2) [OF go refl None] "2.prems" by blast
      next
        case (Some q)
        then have "q = []" using False by (cases q) auto
        then show ?thesis using "2.IH"(3) [OF go refl] Some "2.prems" by blast
      qed
      ultimately show ?thesis by simp
    next
      case True
      then obtain c queue where q: "map_of w ?k = Some (c # queue)" by blast
      have eq: "take_tags w (l # ls) = Some c # take_tags (AList.update ?k queue w) ls"
        using go q by (simp only: take_tags.simps if_False Let_def option.case list.case)
      have "distinct (map fst (AList.update ?k queue w))" using "2.prems" by (rule distinct_update)
      then have "given_tags (take_tags (AList.update ?k queue w) ls) \<subseteq># waiting_mset (AList.update ?k queue w)"
        using "2.IH"(4) [OF go refl q refl] by blast
      moreover have "add_mset c (waiting_mset (AList.update ?k queue w)) = waiting_mset w"
        using update_mset [OF "2.prems" q, of queue] by simp
      ultimately show ?thesis by (metis eq given_tags_simps(3) mset_subset_eq_add_mset_cancel)
    qed
  qed
qed simp

lemma waiting_changes_mset:
  "waiting_mset (fold (\<lambda>c. dict_append (sc_sign c @ strip (sc_line c)) c) cs w) = waiting_mset w + mset cs
     \<and> distinct (map fst (fold (\<lambda>c. dict_append (sc_sign c @ strip (sc_line c)) c) cs w))"
  if "distinct (map fst w)"
  using that
proof (induction cs arbitrary: w)
  case (Cons c cs)
  let ?k = "sc_sign c @ strip (sc_line c)"
  have "waiting_mset (dict_append ?k c w) = waiting_mset w + {#c#}"
  proof (cases "map_of w ?k")
    case None
    then show ?thesis using update_mset_new [OF None] by (simp add: dict_append_def)
  next
    case (Some old)
    then show ?thesis using update_mset [OF Cons.prems Some, of "old @ [c]"] by (simp add: dict_append_def)
  qed
  then show ?case using Cons.IH [of "dict_append ?k c w"] distinct_dict_append [OF Cons.prems] by simp
qed simp

lemma length_take_tags: "length (take_tags w ls) = length ls"
  by (induction w ls rule: take_tags.induct) (auto simp: Let_def split: option.split list.split)

section \<open>Properties\<close>


definition sample_rollout_device :: device where
  "sample_rollout_device = \<lparr>d_ip = ''h'', d_label = ''h'', d_type = ''cisco_ios'', d_port = 22,
     d_dns_suffix = [], d_mappings = \<lparr>var_map_subs = [], extra = []\<rparr>\<rparr>"


text \<open>a device is a success exactly when its push was applied, reached its last command, was
  judged by its configuration, and no command is rejected or left in review.\<close>

theorem classify_success:
  "fst (classify push) = St_Success \<longleftrightarrow>
     (\<exists>p out. push = Some p \<and> p_applied p \<and> \<not> p_interrupted p \<and> p_outcome p = Some out
        \<and> set (map j_verdict (o_commands out)) \<inter> {Review, Rejected} = {})"
proof -
  have eq: "(\<forall>j\<in>S. j_verdict j \<notin> {Review, Rejected}) \<longleftrightarrow> j_verdict ` S \<inter> {Review, Rejected} = {}" for S
    by blast
  then show ?thesis by (simp only: classify_success_iff set_map eq)
qed

text \<open>the summary counts every device once: the counts of the statuses it lists add up to
  the number of devices.\<close>

theorem summary_counts:
  "(\<Sum>s\<leftarrow>device_statuses. status_count s results) = length results"
proof (induction results)
  case (Cons r results)
  then show ?case by (cases "x_status r") (simp_all add: device_statuses_def status_count_def)
qed (simp add: device_statuses_def status_count_def)

text \<open>every line of a stored diff gets one tag or none, and no change of the transcript is given
  to more lines than it is stored for.\<close>

theorem diff_tags_once:
  "length (take_tags (waiting_changes cs) ls) = length ls
   \<and> given_tags (take_tags (waiting_changes cs) ls) \<subseteq># mset cs"
  using take_tags_given [of "waiting_changes cs" ls] waiting_changes_mset [of "[]" cs]
  by (simp add: length_take_tags waiting_changes_def waiting_mset_def)

end
