(* ===== verification/Regex.thy ===== *)
theory Regex
  imports Prelude
begin

text \<open>
  Python's \<open>re\<close> as the sources use it: patterns as data and a backtracking matcher that gives
  every match at a position in the order \<open>re\<close> would try them, so the first one is the match
  \<open>re\<close> reports. One group can be captured.
\<close>

section \<open>Patterns\<close>

datatype rx =
    One "char \<Rightarrow> bool"
  | Empty
  | Seq rx rx
  | Alt rx rx
  | Many rx
  | Few rx
  | Text_Start
  | Line_Start
  | Text_End
  | Group rx

text \<open>A position: what is before it (backwards), what follows, and the group captured so far.\<close>

type_synonym rx_pos = "string \<times> string \<times> string option"

definition rest_of :: "rx_pos \<Rightarrow> string" where
  "rest_of p = fst (snd p)"

definition keep_group :: "string \<Rightarrow> rx_pos \<Rightarrow> rx_pos" where
  "keep_group s p = (fst p, rest_of p, Some (take (length s - length (rest_of p)) s))"

text \<open>A repetition stops where its body matches nothing.\<close>

function (sequential) rx_matches :: "rx \<Rightarrow> rx_pos \<Rightarrow> rx_pos list" where
  "rx_matches (One p) (b, [], g) = []"
| "rx_matches (One p) (b, c # cs, g) = (if p c then [(c # b, cs, g)] else [])"
| "rx_matches Empty pos = [pos]"
| "rx_matches (Seq r s) pos = concat (map (rx_matches s) (rx_matches r pos))"
| "rx_matches (Alt r s) pos = rx_matches r pos @ rx_matches s pos"
| "rx_matches (Many r) pos =
     concat (map (\<lambda>q. if length (rest_of q) < length (rest_of pos) then rx_matches (Many r) q else [])
       (rx_matches r pos)) @ [pos]"
| "rx_matches (Few r) pos =
     pos # concat (map (\<lambda>q. if length (rest_of q) < length (rest_of pos) then rx_matches (Few r) q else [])
       (rx_matches r pos))"
| "rx_matches Text_Start (b, s, g) = (if b = [] then [(b, s, g)] else [])"
| "rx_matches Line_Start (b, s, g) = (if b = [] \<or> hd b = newline then [(b, s, g)] else [])"
| "rx_matches Text_End (b, s, g) = (if s = [] \<or> s = [newline] then [(b, s, g)] else [])"
| "rx_matches (Group r) pos = map (keep_group (rest_of pos)) (rx_matches r pos)"
  by pat_completeness auto
termination
  by (relation "measures [\<lambda>(r, pos). size r, \<lambda>(r, pos). length (rest_of pos)]") auto

declare rx_matches.simps(6,7) [simp del]

section \<open>Matching\<close>

text \<open>\<open>p.match(s)\<close>: the first match at the start, as the text matched and the group.\<close>

definition rx_match_at :: "rx \<Rightarrow> string \<Rightarrow> string \<Rightarrow> (string \<times> string option) option" where
  "rx_match_at r b s =
     (case rx_matches r (b, s, None) of
        [] \<Rightarrow> None
      | q # _ \<Rightarrow> Some (take (length s - length (rest_of q)) s, snd (snd q)))"

definition rx_match :: "rx \<Rightarrow> string \<Rightarrow> (string \<times> string option) option" where
  "rx_match r s = rx_match_at r [] s"

definition rx_matches_start :: "rx \<Rightarrow> string \<Rightarrow> bool" where
  "rx_matches_start r s \<longleftrightarrow> rx_match r s \<noteq> None"

text \<open>\<open>p.search(s)\<close>: the text before the leftmost match, the match and its group.\<close>

fun rx_search_from :: "rx \<Rightarrow> string \<Rightarrow> string \<Rightarrow> (string \<times> string \<times> string option) option" where
  "rx_search_from r b s =
     (case rx_match_at r b s of
        Some (m, g) \<Rightarrow> Some (rev b, m, g)
      | None \<Rightarrow> (case s of [] \<Rightarrow> None | c # cs \<Rightarrow> rx_search_from r (c # b) cs))"

declare rx_search_from.simps [simp del]

definition rx_search :: "rx \<Rightarrow> string \<Rightarrow> (string \<times> string \<times> string option) option" where
  "rx_search r s = rx_search_from r [] s"

section \<open>Writing patterns\<close>

definition opt :: "rx \<Rightarrow> rx" where "opt r = Alt r Empty"
definition some :: "rx \<Rightarrow> rx" where "some r = Seq r (Many r)"
definition some_few :: "rx \<Rightarrow> rx" where "some_few r = Seq r (Few r)"

fun seqs :: "rx list \<Rightarrow> rx" where
  "seqs [] = Empty" | "seqs [r] = r" | "seqs (r # rs) = Seq r (seqs rs)"

fun alts :: "rx list \<Rightarrow> rx" where
  "alts [] = Empty" | "alts [r] = r" | "alts (r # rs) = Alt r (alts rs)"

fun times :: "nat \<Rightarrow> rx \<Rightarrow> rx" where
  "times 0 r = Empty" | "times (Suc n) r = Seq r (times n r)"

fun up_to :: "nat \<Rightarrow> rx \<Rightarrow> rx" where
  "up_to 0 r = Empty" | "up_to (Suc n) r = opt (Seq r (up_to n r))"

definition lit :: "string \<Rightarrow> rx" where "lit s = seqs (map (\<lambda>c. One (\<lambda>x. x = c)) s)"
definition ch :: "char \<Rightarrow> rx" where "ch c = One (\<lambda>x. x = c)"
definition in_set :: "string \<Rightarrow> rx" where "in_set cs = One (\<lambda>x. x \<in> set cs)"
definition not_in :: "(char \<Rightarrow> bool) \<Rightarrow> string \<Rightarrow> rx" where "not_in also cs = One (\<lambda>x. x \<notin> set cs \<and> \<not> also x)"
definition digit :: rx where "digit = One is_dec"
definition digits :: rx where "digits = some digit"
definition space :: rx where "space = One is_space"
definition nonspace :: rx where "nonspace = One (\<lambda>x. \<not> is_space x)"
definition upper :: rx where "upper = One is_upper_az"
definition lower_letter :: rx where "lower_letter = One is_lower_az"
definition no_char :: "char \<Rightarrow> bool" where "no_char c = False"

section \<open>Lemmas\<close>

text \<open>A match is a piece of the text: what is before it, and what follows, together with it make
  the text.\<close>

definition pos_text :: "rx_pos \<Rightarrow> string" where
  "pos_text p = rev (fst p) @ rest_of p"

lemma rx_matches_text: "q \<in> set (rx_matches r p) \<Longrightarrow> pos_text q = pos_text p \<and> suffix (rest_of q) (rest_of p)"
proof (induction r p arbitrary: q rule: rx_matches.induct)
  case (4 r s pos)
  then obtain m where "m \<in> set (rx_matches r pos)" "q \<in> set (rx_matches s m)" by auto
  then show ?case using "4.IH" by (metis suffix_order.trans)
next
  case (6 r pos)
  then have "q = pos \<or> (\<exists>m\<in>set (rx_matches r pos). length (rest_of m) < length (rest_of pos)
      \<and> q \<in> set (rx_matches (Many r) m))"
    unfolding rx_matches.simps(6) [of r pos] by (auto split: if_split_asm)
  then show ?case using "6.IH" by (metis suffix_order.refl suffix_order.trans)
next
  case (7 r pos)
  then have "q = pos \<or> (\<exists>m\<in>set (rx_matches r pos). length (rest_of m) < length (rest_of pos)
      \<and> q \<in> set (rx_matches (Few r) m))"
    unfolding rx_matches.simps(7) [of r pos] by (auto split: if_split_asm)
  then show ?case using "7.IH" by (metis suffix_order.refl suffix_order.trans)
qed (auto simp: pos_text_def rest_of_def keep_group_def split: if_splits intro: suffix_ConsI)

lemma rx_match_at_prefix: "rx_match_at r b s = Some (m, g) \<Longrightarrow> prefix m s"
  by (auto simp: rx_match_at_def split: list.splits intro: take_is_prefix)

lemma rx_search_from_text:
  "rx_search_from r b s = Some (pre, m, g) \<Longrightarrow> \<exists>post. rev b @ s = pre @ m @ post"
proof (induction r b s rule: rx_search_from.induct)
  case (1 r b s)
  note eq = rx_search_from.simps [of r b s]
  show ?case
  proof (cases "rx_match_at r b s")
    case None
    then have "rx_search_from r b s = (case s of [] \<Rightarrow> None | c # cs \<Rightarrow> rx_search_from r (c # b) cs)"
      by (subst eq) simp
    then obtain c cs where "s = c # cs" "rx_search_from r (c # b) cs = Some (pre, m, g)"
      using "1.prems" by (cases s) auto
    then show ?thesis using "1.IH" [OF None] by simp
  next
    case (Some mg)
    obtain m' g' where mg: "mg = (m', g')" by fastforce
    have "rx_search_from r b s = Some (rev b, m', g')" using Some mg by (subst eq) simp
    then have "pre = rev b" "m = m'" using "1.prems" by auto
    then show ?thesis using rx_match_at_prefix [OF Some [unfolded mg]] by (auto simp: prefix_def)
  qed
qed

lemma rx_search_text: "rx_search r s = Some (pre, m, g) \<Longrightarrow> \<exists>post. s = pre @ m @ post"
  unfolding rx_search_def using rx_search_from_text by fastforce

end
