(* ===== verification/Platform_Text.thy ===== *)
theory Platform_Text
  imports Regex Evidence_Judge
begin

text \<open>
  \<open>src/rollout/platforms.py\<close>, what needs no session: the shapes of the lines a device prints, what
  it said to a command (\<open>reply\<close>), the defaults views of FortiOS, how a platform recognises itself
  and its name in a prompt.
\<close>

section \<open>Event lines\<close>

definition blanks :: rx where "blanks = some (ch (CHR '' ''))"
definition year_blank :: rx where "year_blank = opt (Seq (times 4 digit) (ch (CHR '' '')))"
definition clock_time :: rx where
  "clock_time = seqs [times 2 digit, ch (CHR '':''), times 2 digit, ch (CHR '':''), times 2 digit]"
definition month :: rx where "month = Seq upper (times 2 lower_letter)"
definition star_or_dot :: rx where "star_or_dot = opt (in_set ''*.'')"

definition time_stamp :: rx where
  "time_stamp = seqs [star_or_dot, year_blank, month, blanks, digits, ch (CHR '' ''), year_blank, clock_time]"

definition iso_stamp :: rx where
  "iso_stamp = seqs [times 4 digit, ch (CHR ''-''), times 2 digit, ch (CHR ''-''), times 2 digit,
     ch (CHR ''T''), clock_time]"

definition uptime_syslog :: rx where
  "uptime_syslog = seqs [star_or_dot,
     Alt (seqs [digits, ch (CHR '':''), times 2 digit, ch (CHR '':''), times 2 digit])
         (seqs [digits, in_set ''ywdh'', digits, in_set ''wdhm'']),
     opt (Seq (ch (CHR ''.'')) digits), ch (CHR '':''), blanks, ch (CHR ''%'')]"

definition name_chars :: rx where
  "name_chars = One (\<lambda>c. is_upper_az c \<or> is_dec c \<or> c = CHR ''_'')"

definition syslog :: rx where
  "syslog = seqs [ch (CHR ''%''), upper, Many name_chars, ch (CHR ''-''), digit, ch (CHR ''-''),
     some name_chars, ch (CHR '':'')]"

definition shapes :: rx where
  "shapes = alts [Seq (opt (Seq digits (lit '': ''))) (alts [time_stamp, iso_stamp, uptime_syslog, syslog]),
     lit ''Message from syslogd@'', lit ''Broadcast message from '']"

definition events_shape :: rx where
  "events_shape = Seq Text_Start shapes"

definition comware_events :: rx where
  "comware_events = Seq Text_Start (alts [shapes,
     seqs [in_set ''%#*'', month, blanks, digits, ch (CHR '' ''), clock_time],
     seqs [ch (CHR ''%''), digits, ch (CHR ''.''), digits, ch (CHR '' '')]])"

definition two_digits_slash :: rx where
  "two_digits_slash = Seq (times 2 digit) (ch (CHR ''/''))"

definition procurve_events :: rx where
  "procurve_events = Seq Text_Start (alts [shapes,
     seqs [in_set ''IWMDE'', ch (CHR '' ''), two_digits_slash, two_digits_slash, times 2 digit,
       ch (CHR '' ''), clock_time]])"

definition xr_events :: rx where
  "xr_events = Seq Text_Start (alts [shapes,
     seqs [some upper, ch (CHR ''/''), digits, ch (CHR ''/''), some (not_in is_space '':''), ch (CHR '':''),
       year_blank, month, blanks, digits, ch (CHR '' '')]])"

definition bar :: rx where
  "bar = seqs [ch (CHR ''[''), Many (One (\<lambda>c. c \<in> set ''#=*>.-'' \<or> is_space c)), ch (CHR '']''), Many space,
     Seq digit (up_to 2 digit), ch (CHR ''%'')]"

definition progress_shape :: rx where
  "progress_shape = seqs [Text_Start, bar,
     Many (seqs [Many space, opt (ch (CHR ''|'')), Many space, bar]), Text_End]"

definition context_shape :: rx where
  "context_shape = seqs [Text_Start, lit ''[edit'', opt (Seq (ch (CHR '' '')) (Many (One (\<lambda>c. c \<noteq> newline)))),
     ch (CHR '']''), Text_End]"

section \<open>What a device said\<close>

text \<open>One row of a command's output: not an answer (\<open>None\<close>), or its text and whether it is an
  event.\<close>

definition reply_row :: "string \<Rightarrow> string \<Rightarrow> rx \<Rightarrow> string \<Rightarrow> (bool \<times> string) option" where
  "reply_row sent base_name events row =
     (let t = strip row; bare = lstrip_p (\<lambda>c. c \<in> set ''[<'') t in
      if t = [] \<or> list_all (\<lambda>c. c = CHR 0x5E) t \<or> rx_matches_start context_shape t
         \<or> rx_matches_start progress_shape t then None
      else if sent \<noteq> [] \<and> suffix sent t \<and> (t = sent \<or> prefix base_name bare) then None
      else if base_name \<noteq> [] \<and> prefix base_name bare \<and> last t \<in> set ''#>$]'' \<and> \<not> occurs_in sent t then None
      else Some (rx_matches_start events t, t))"

definition reply :: "string \<Rightarrow> string \<Rightarrow> string \<Rightarrow> rx \<Rightarrow> string list \<times> string list" where
  "reply output command prompt events =
     (let rows = List.map_filter (reply_row (strip command) (strip prompt) events) (splitlines output)
      in (map snd (filter (\<lambda>r. \<not> fst r) rows), map snd (filter fst rows)))"

definition one_line :: "string \<Rightarrow> string \<Rightarrow> string" where
  "one_line output command =
     join '' | '' (filter (\<lambda>t. t \<noteq> [] \<and> t \<noteq> command \<and> \<not> rx_matches_start progress_shape t)
       (map strip (splitlines output)))"

definition netmiko_commit_failed :: string where
  "netmiko_commit_failed = ''Commit failed with the following errors:''"

section \<open>The defaults views\<close>

text \<open>\<open>s.split(None, 1)\<close>.\<close>

definition split_once :: "string \<Rightarrow> string list" where
  "split_once s =
     (let t = lstrip_p is_space s; w = takeWhile (\<lambda>c. \<not> is_space c) t;
          rest = lstrip_p is_space (dropWhile (\<lambda>c. \<not> is_space c) t)
      in if t = [] then [] else if rest = [] then [w] else [w, rest])"

text \<open>The command that shows one block of FortiOS's configuration, if there is one.\<close>

definition fortios_block :: "path \<Rightarrow> string option" where
  "fortios_block p =
     (if p = [] \<or> 2 < length p then None
      else (case split_once (hd p) of
          [w, block] \<Rightarrow>
            if lower w \<noteq> ''config'' \<or> hd (split_ws (lower block)) \<in> {''vdom'', ''global''} then None
            else (let command = ''show full-configuration '' @ block in
                  if length p = 2 then
                    (case split_once (p ! 1) of
                       [e, entry] \<Rightarrow> if lower e \<noteq> ''edit'' then None else Some (command @ '' '' @ entry)
                     | _ \<Rightarrow> None)
                  else Some command)
        | _ \<Rightarrow> None))"

definition fortios_blocks :: "path list \<Rightarrow> string list" where
  "fortios_blocks sections = rev (remdups (rev (List.map_filter fortios_block sections)))"

datatype defaults_fetch = No_Defaults | Whole_Config string | Fortios_Blocks

fun defaults_commands :: "defaults_fetch \<Rightarrow> path list \<Rightarrow> string list" where
  "defaults_commands No_Defaults sections = []"
| "defaults_commands (Whole_Config command) sections = [command]"
| "defaults_commands Fortios_Blocks sections = fortios_blocks sections"

section \<open>Recognising a platform\<close>

record shell =
  sh_prompt :: rx
  sh_run :: string

record identity =
  id_probe :: string
  id_marks :: "rx list"
  id_also :: "rx list"
  id_unless :: "rx list"
  id_prompt :: "rx option"
  id_shell :: "shell option"

definition plain_text_rx :: "string list \<Rightarrow> rx list" where
  "plain_text_rx ws = map lit ws"

definition line_start_rx :: "string list \<Rightarrow> rx list" where
  "line_start_rx ws = map (\<lambda>w. seqs [Line_Start, Many (One (\<lambda>c. c = CHR '' '' \<or> c = CHR 0x09)), lit w]) ws"

definition finds :: "string \<Rightarrow> rx \<Rightarrow> bool" where
  "finds answer r \<longleftrightarrow> rx_search r answer \<noteq> None"

text \<open>The answer's line that a match stands on.\<close>

definition line_around :: "string \<Rightarrow> string \<Rightarrow> string \<Rightarrow> string" where
  "line_around answer pre m =
     strip (rev (takeWhile (\<lambda>c. c \<noteq> newline) (rev pre)) @ m
       @ takeWhile (\<lambda>c. c \<noteq> newline) (drop (length pre + length m) answer))"

fun first_mark :: "string \<Rightarrow> rx list \<Rightarrow> string option" where
  "first_mark answer [] = None"
| "first_mark answer (r # rs) =
     (case rx_search r answer of
        Some (pre, m, _) \<Rightarrow> Some (line_around answer pre m)
      | None \<Rightarrow> first_mark answer rs)"

definition identity_evidence :: "identity \<Rightarrow> string \<Rightarrow> string option" where
  "identity_evidence identity answer =
     (if list_ex (finds answer) (id_unless identity) \<or> \<not> list_all (finds answer) (id_also identity) then None
      else first_mark answer (id_marks identity))"

section \<open>The name in a prompt\<close>

definition parenthesised :: rx where
  "parenthesised = seqs [ch (CHR ''(''), Many (not_in no_char '')''), ch (CHR '')'')]"

definition prompt_end :: "string \<Rightarrow> rx" where
  "prompt_end cs = seqs [Many space, in_set cs, Many space, Text_End]"

definition name_cisco :: rx where
  "name_cisco = seqs [Text_Start, opt (Seq (Many nonspace) (ch (CHR '':''))),
     Group (some (not_in is_space '':#>()'')), opt parenthesised, prompt_end ''#>'']"

definition name_at :: rx where
  "name_at = seqs [Text_Start, some (not_in is_space ''@''), ch (CHR ''@''),
     Group (some (not_in is_space '':#>%()'')), opt parenthesised,
     opt (Seq (ch (CHR '':'')) (Many nonspace)), prompt_end ''#>%'']"

definition name_fortios :: rx where
  "name_fortios = seqs [Text_Start, Group (some_few nonspace), opt (Seq (ch (CHR '' '')) parenthesised),
     ch (CHR '' ''), in_set ''#$'', Many space, Text_End]"

definition name_comware :: rx where
  "name_comware = seqs [Text_Start, opt (Seq (lit ''RBM_'') (One (\<lambda>c. c \<noteq> newline))), in_set ''<['',
     Group (some (not_in is_space ''>]'')), in_set ''>]'', Many space, Text_End]"

definition name_procurve :: rx where
  "name_procurve = seqs [Text_Start, Group (some_few (not_in no_char ''#>()'')), opt parenthesised, prompt_end ''#>'']"

definition name_gaia :: rx where
  "name_gaia = seqs [Text_Start, opt (lit ''[Expert@''), Group (some (not_in is_space '':#>]'')),
     opt (Seq (ch (CHR '':'')) digits), opt (ch (CHR '']'')), prompt_end ''#>'']"

definition hostname_in :: "rx \<Rightarrow> string \<Rightarrow> string option" where
  "hostname_in rule prompt = (case rx_match rule (strip prompt) of Some (_, Some n) \<Rightarrow> Some n | _ \<Rightarrow> None)"

end
