(* ===== verification/Host_Keys.thy ===== *)
theory Host_Keys
  imports Run_Report
begin

text \<open>
  \<open>src/rollout/host_keys.py\<close>: what one device's connections check its SSH host key against
  (\<open>HostKeyPolicy\<close>) and one connection's check (\<open>HostKeyCheck\<close>): the keys loaded, one per key type,
  and the keys tried. The temporary file is the list of its lines. The hash of \<open>fingerprint\<close>
  (hashlib, base64) is left out.
\<close>

section \<open>The policy\<close>

record policy =
  hk_known :: "string list"
  hk_learn :: bool

definition checks :: "policy \<Rightarrow> bool" where
  "checks pol \<longleftrightarrow> hk_known pol \<noteq> [] \<or> hk_learn pol"

definition pinned :: "policy \<Rightarrow> string \<Rightarrow> policy" where
  "pinned pol k = pol\<lparr>hk_known := [k], hk_learn := False\<rparr>"

definition checks_off :: policy where
  "checks_off = \<lparr>hk_known = [], hk_learn = False\<rparr>"

definition refused_reason :: string where
  "refused_reason = ''its SSH host key changed - not signed in to, nothing was sent. If the device was replaced, an admin accepts its new key in Server Management -> SSH Host Keys.''"

definition unsettled_reason :: string where
  "unsettled_reason = ''its HA units answered in turn and each accepted key was tried - not signed in to, nothing was sent. Try again.''"

definition known_hosts_name :: "string \<Rightarrow> nat \<Rightarrow> string" where
  "known_hosts_name host port = (if port = 22 then host else ''['' @ host @ '']:'' @ show_nat port)"

text \<open>\<open>refused_key\<close>: the first \<open>BadHostKeyException\<close> in the chain of errors.\<close>

fun refused_key :: "error \<Rightarrow> string option" where
  "refused_key (Error cls text ctxt k) =
     (case k of
        Some offered \<Rightarrow> Some offered
      | None \<Rightarrow> (case ctxt of None \<Rightarrow> None | Some e \<Rightarrow> refused_key e))"

section \<open>One connection's check\<close>

text \<open>A key's type: its first word.\<close>

definition key_type :: "string \<Rightarrow> string" where
  "key_type k = (case split_ws k of [] \<Rightarrow> [] | w # _ \<Rightarrow> w)"

record check =
  ck_loaded :: "(string \<times> string) list"
  ck_tried :: "string list"

text \<open>\<open>__enter__\<close>: \<open>setdefault\<close> keeps the first key of each type.\<close>

fun load_known :: "(string \<times> string) list \<Rightarrow> string list \<Rightarrow> (string \<times> string) list" where
  "load_known loaded [] = loaded"
| "load_known loaded (k # ks) =
     load_known (if map_of loaded (key_type k) = None then loaded @ [(key_type k, k)] else loaded) ks"

definition start_check :: "policy \<Rightarrow> check" where
  "start_check pol = (let loaded = load_known [] (hk_known pol)
     in \<lparr>ck_loaded = loaded, ck_tried = map snd loaded\<rparr>)"

text \<open>\<open>_write\<close>, and what Netmiko is handed: \<open>None\<close> when nothing is known.\<close>

definition known_hosts :: "string \<Rightarrow> check \<Rightarrow> string list" where
  "known_hosts host_name ck = map (\<lambda>(_, k). host_name @ '' '' @ k) (ck_loaded ck)"

definition check_args :: "policy \<Rightarrow> string \<Rightarrow> check \<Rightarrow> string list option" where
  "check_args pol host_name ck = (if hk_known pol = [] then None else Some (known_hosts host_name ck))"

definition alternative :: "policy \<Rightarrow> check \<Rightarrow> string \<Rightarrow> check option" where
  "alternative pol ck offered =
     (if offered \<notin> set (hk_known pol) \<or> offered \<in> set (ck_tried ck) then None
      else Some \<lparr>ck_loaded = AList.update (key_type offered) offered (ck_loaded ck),
                 ck_tried = ck_tried ck @ [offered]\<rparr>)"

section \<open>Lemmas\<close>

text \<open>Only accepted keys are ever loaded, one per type, and what is loaded has been tried.\<close>

definition check_ok :: "policy \<Rightarrow> check \<Rightarrow> bool" where
  "check_ok pol ck \<longleftrightarrow>
     snd ` set (ck_loaded ck) \<subseteq> set (ck_tried ck) \<and> set (ck_tried ck) \<subseteq> set (hk_known pol)
     \<and> distinct (ck_tried ck) \<and> distinct (map fst (ck_loaded ck))
     \<and> (\<forall>(t, k) \<in> set (ck_loaded ck). t = key_type k)"

lemma load_known_keys:
  assumes "distinct (map fst loaded)" "\<forall>(t, k) \<in> set loaded. t = key_type k"
  shows "distinct (map fst (load_known loaded ks))
    \<and> (\<forall>(t, k) \<in> set (load_known loaded ks). t = key_type k)
    \<and> snd ` set (load_known loaded ks) \<subseteq> snd ` set loaded \<union> set ks"
  using assms
proof (induction ks arbitrary: loaded)
  case (Cons k ks)
  let ?next = "if map_of loaded (key_type k) = None then loaded @ [(key_type k, k)] else loaded"
  have "distinct (map fst ?next)" "\<forall>(t, k) \<in> set ?next. t = key_type k"
    using Cons.prems by (auto simp: map_of_eq_None_iff)
  from Cons.IH [OF this] show ?case by (auto split: if_splits)
qed auto

lemma distinct_values:
  "distinct (map fst l) \<Longrightarrow> \<forall>(t, k) \<in> set l. t = f k \<Longrightarrow> distinct (map snd l)"
proof (induction l)
  case (Cons p l)
  obtain t k where [simp]: "p = (t, k)" by fastforce
  have "k \<notin> snd ` set l"
  proof
    assume "k \<in> snd ` set l"
    then obtain t' where "(t', k) \<in> set l" by auto
    then have "t' = t" "t' \<in> fst ` set l" using Cons.prems(2) by force+
    then show False using Cons.prems(1) by simp
  qed
  then show ?case using Cons by simp
qed simp

lemma start_check_ok: "check_ok pol (start_check pol)"
proof -
  have keys: "distinct (map fst (load_known [] (hk_known pol)))"
       "\<forall>(t, k) \<in> set (load_known [] (hk_known pol)). t = key_type k"
       "snd ` set (load_known [] (hk_known pol)) \<subseteq> set (hk_known pol)"
    using load_known_keys [of "[]" "hk_known pol"] by auto
  then show ?thesis using distinct_values [OF keys(1,2)] by (simp add: check_ok_def start_check_def Let_def)
qed

lemma alternative_ok:
  assumes "check_ok pol ck" "alternative pol ck k = Some ck'"
  shows "check_ok pol ck'"
proof -
  have k: "k \<in> set (hk_known pol)" "k \<notin> set (ck_tried ck)"
    and ck': "ck_loaded ck' = AList.update (key_type k) k (ck_loaded ck)" "ck_tried ck' = ck_tried ck @ [k]"
    using assms(2) by (auto simp: alternative_def split: if_splits)
  have sub: "set (ck_loaded ck') \<subseteq> insert (key_type k, k) (set (ck_loaded ck))"
    using ck' set_alist_update [of "key_type k" k "ck_loaded ck"] by simp
  have "snd ` set (ck_loaded ck') \<subseteq> insert k (snd ` set (ck_loaded ck))"
    using image_mono [OF sub, of snd] by simp
  moreover have "\<forall>(t, k) \<in> set (ck_loaded ck'). t = key_type k"
    using sub assms(1) unfolding check_ok_def by blast
  moreover have "distinct (map fst (ck_loaded ck'))"
    using assms(1) ck' by (simp add: check_ok_def distinct_update)
  ultimately show ?thesis using assms(1) k ck'(2) unfolding check_ok_def by auto
qed

lemma alternative_left:
  "alternative pol ck k = Some ck' \<Longrightarrow>
     card (set (hk_known pol) - set (ck_tried ck')) < card (set (hk_known pol) - set (ck_tried ck))"
  by (auto simp: alternative_def split: if_splits intro!: psubset_card_mono)

lemma alternative_loads: "alternative pol ck k = Some ck' \<Longrightarrow> map_of (ck_loaded ck') (key_type k) = Some k"
  by (auto simp: alternative_def update_conv' split: if_splits)

end
