(* ===== verification/Session_Io.thy ===== *)
theory Session_Io
  imports Host_Keys
begin

text \<open>
  The effects of a device's session: state with exceptions over an outside world. Netmiko, the
  device behind it, the clock and the resolver are the record \<open>outside\<close> of functions - a parameter
  of every definition that uses a session - and every call made to a session is recorded in a
  trace, so that what is sent, and in which order, can be stated and proved.
\<close>

section \<open>Exceptions and calls\<close>

text \<open>The exceptions the session code tells apart.\<close>

datatype exn_kind =
    Read_Timeout | Value_Error | Auth_Failed | Connect_Timeout | Host_Key_Refused
  | Enable_Failed | Commit_Pending | Other_Exn

datatype exn = Exn (exn_kind: exn_kind) (exn_error: error)

text \<open>The methods of a connection the source calls (\<open>ConfigSession\<close>); \<open>Connect\<close> is Netmiko's
  \<open>ConnectHandler\<close> with the lines of the known hosts it is given, if any.\<close>

datatype call =
    Connect "string list option"
  | Disconnect
  | Find_Prompt
  | Set_Base_Prompt
  | Enable
  | Config_Mode string
  | Exit_Config_Mode
  | Send_Config string bool
  | Send_Command string
  | Send_Timing string
  | Commit_Call
  | Save_Config_Call

record 'w outside =
  o_call :: "nat \<Rightarrow> call \<Rightarrow> 'w \<Rightarrow> (exn + string) \<times> 'w"
  o_late :: "nat \<Rightarrow> int \<Rightarrow> 'w \<Rightarrow> (exn + int \<times> (int \<times> string \<times> int) list) \<times> 'w"
  o_base_prompt :: "nat \<Rightarrow> 'w \<Rightarrow> string"
  o_vdoms :: "nat \<Rightarrow> 'w \<Rightarrow> bool"
  o_session_log :: "nat \<Rightarrow> 'w \<Rightarrow> string"
  o_clear_log :: "nat \<Rightarrow> 'w \<Rightarrow> 'w"
  o_now :: "'w \<Rightarrow> int \<times> 'w"
  o_resolves :: "string \<Rightarrow> 'w \<Rightarrow> bool \<times> 'w"
  o_sleep :: "int \<Rightarrow> 'w \<Rightarrow> 'w"
  o_shown_key :: "nat \<Rightarrow> 'w \<Rightarrow> string"
  o_seen :: "string \<Rightarrow> 'w \<Rightarrow> 'w"
  o_refused :: "string \<Rightarrow> 'w \<Rightarrow> 'w"

record 'w run =
  w_world :: 'w
  w_trace :: "(nat \<times> call) list"
  w_report :: run_report
  w_sessions :: nat
  w_policy :: policy

type_synonym ('w, 'a) io = "'w run \<Rightarrow> (exn + 'a) \<times> 'w run"

section \<open>The operations\<close>

definition ret :: "'a \<Rightarrow> ('w, 'a) io" where
  "ret x = (\<lambda>st. (Inr x, st))"

definition throw :: "exn \<Rightarrow> ('w, 'a) io" where
  "throw e = (\<lambda>st. (Inl e, st))"

definition bind :: "('w, 'a) io \<Rightarrow> ('a \<Rightarrow> ('w, 'b) io) \<Rightarrow> ('w, 'b) io" where
  "bind m f = (\<lambda>st. case m st of (Inl e, st1) \<Rightarrow> (Inl e, st1) | (Inr x, st1) \<Rightarrow> f x st1)"

definition andthen :: "('w, 'a) io \<Rightarrow> ('w, 'b) io \<Rightarrow> ('w, 'b) io" where
  "andthen m k = bind m (\<lambda>_. k)"

text \<open>\<open>try\<close>: the outcome of a block as a value, and with a cleanup that always runs.\<close>

definition attempt :: "('w, 'a) io \<Rightarrow> ('w, exn + 'a) io" where
  "attempt m = (\<lambda>st. case m st of (r, st1) \<Rightarrow> (Inr r, st1))"

definition handle :: "('w, 'a) io \<Rightarrow> (exn \<Rightarrow> ('w, 'a) io) \<Rightarrow> ('w, 'a) io" where
  "handle m h = bind (attempt m) (\<lambda>r. case r of Inl e \<Rightarrow> h e | Inr x \<Rightarrow> ret x)"

definition with_cleanup :: "('w, 'a) io \<Rightarrow> ('w, unit) io \<Rightarrow> ('w, 'a) io" where
  "with_cleanup m c =
     bind (attempt m) (\<lambda>r. andthen c (case r of Inl e \<Rightarrow> throw e | Inr x \<Rightarrow> ret x))"

definition send :: "'w outside \<Rightarrow> nat \<Rightarrow> call \<Rightarrow> ('w, string) io" where
  "send out s c = (\<lambda>st. case o_call out s c (w_world st) of
     (r, w) \<Rightarrow> (r, st\<lparr>w_world := w, w_trace := w_trace st @ [(s, c)]\<rparr>))"

definition say :: "string \<Rightarrow> tone \<Rightarrow> bool \<Rightarrow> ('w, unit) io" where
  "say text t important = (\<lambda>st. (Inr (), st\<lparr>w_report := notify text t important (w_report st)\<rparr>))"

definition need_action :: "string \<Rightarrow> string \<Rightarrow> ('w, unit) io" where
  "need_action ep what = (\<lambda>st. (Inr (), st\<lparr>w_report := action_needed ep what (w_report st)\<rparr>))"

definition base_prompt :: "'w outside \<Rightarrow> nat \<Rightarrow> ('w, string) io" where
  "base_prompt out s = (\<lambda>st. (Inr (o_base_prompt out s (w_world st)), st))"

definition vdoms :: "'w outside \<Rightarrow> nat \<Rightarrow> ('w, bool) io" where
  "vdoms out s = (\<lambda>st. (Inr (o_vdoms out s (w_world st)), st))"

definition session_log :: "'w outside \<Rightarrow> nat \<Rightarrow> ('w, string) io" where
  "session_log out s = (\<lambda>st. (Inr (o_session_log out s (w_world st)), st))"

definition clear_log :: "'w outside \<Rightarrow> nat \<Rightarrow> ('w, unit) io" where
  "clear_log out s = (\<lambda>st. (Inr (), st\<lparr>w_world := o_clear_log out s (w_world st)\<rparr>))"

definition now :: "'w outside \<Rightarrow> ('w, int) io" where
  "now out = (\<lambda>st. case o_now out (w_world st) of (t, w) \<Rightarrow> (Inr t, st\<lparr>w_world := w\<rparr>))"

definition resolves :: "'w outside \<Rightarrow> string \<Rightarrow> ('w, bool) io" where
  "resolves out host = (\<lambda>st. case o_resolves out host (w_world st) of (b, w) \<Rightarrow> (Inr b, st\<lparr>w_world := w\<rparr>))"

definition sleep_io :: "'w outside \<Rightarrow> int \<Rightarrow> ('w, unit) io" where
  "sleep_io out t = (\<lambda>st. (Inr (), st\<lparr>w_world := o_sleep out t (w_world st)\<rparr>))"

section \<open>Connecting\<close>

text \<open>\<open>_connect\<close> (\<open>src/rollout/session.py\<close>): a new session gets the next number; a session setup
  that timed out waiting for a prompt is tried once more, and a refused key that is an accepted one
  of the same type is loaded and tried, each key once. \<open>w_policy\<close> is \<open>device.host_keys\<close>; the
  callbacks \<open>seen\<close> and \<open>refused\<close> are functions of the outside.\<close>

definition new_number :: "('w, nat) io" where
  "new_number = (\<lambda>st. (Inr (w_sessions st), st\<lparr>w_sessions := Suc (w_sessions st)\<rparr>))"

definition connect_twice :: "'w outside \<Rightarrow> nat \<Rightarrow> string list option \<Rightarrow> ('w, string) io" where
  "connect_twice out s args =
     handle (send out s (Connect args))
       (\<lambda>e. if exn_kind e = Read_Timeout then send out s (Connect args) else throw e)"

definition refuse :: "'w outside \<Rightarrow> policy \<Rightarrow> string \<Rightarrow> string \<Rightarrow> error \<Rightarrow> ('w, unit) io" where
  "refuse out pol ep offered e =
     (if offered \<in> set (hk_known pol) then
        throw (Exn Other_Exn (Error ''ConnectionError'' (ep @ '': '' @ unsettled_reason) (Some e) None))
      else (\<lambda>st. (Inl (Exn Host_Key_Refused
                      (Error ''HostKeyRefused'' (ep @ '': '' @ refused_reason) (Some e) None)),
                 st\<lparr>w_world := o_refused out offered (w_world st)\<rparr>)))"

function connect_loop ::
    "'w outside \<Rightarrow> policy \<Rightarrow> string \<Rightarrow> string \<Rightarrow> nat \<Rightarrow> check \<Rightarrow> ('w, unit) io" where
  "connect_loop out pol host_name ep s ck st =
     (case connect_twice out s (check_args pol host_name ck) st of
        (Inr _, st1) \<Rightarrow> (Inr (), st1)
      | (Inl e, st1) \<Rightarrow>
          (case refused_key (exn_error e) of
             None \<Rightarrow> (Inl e, st1)
           | Some offered \<Rightarrow>
               (case alternative pol ck offered of
                  Some ck1 \<Rightarrow> connect_loop out pol host_name ep s ck1 st1
                | None \<Rightarrow> refuse out pol ep offered (exn_error e) st1)))"
  by pat_completeness auto
termination
  by (relation "measure (\<lambda>(_, pol, _, _, _, ck, _). card (set (hk_known pol) - set (ck_tried ck)))")
     (auto simp: alternative_left)

declare connect_loop.simps [simp del]

text \<open>After a checked connection: the key the device showed is handed over, and a key learned pins the
  device's later connections to it.\<close>

definition after_connect :: "'w outside \<Rightarrow> policy \<Rightarrow> nat \<Rightarrow> ('w, unit) io" where
  "after_connect out pol s = (\<lambda>st.
     if \<not> checks pol then (Inr (), st)
     else let shown = o_shown_key out s (w_world st) in
       (Inr (), st\<lparr>w_world := o_seen out shown (w_world st),
                   w_policy := (if hk_learn pol then pinned pol shown else w_policy st)\<rparr>))"

definition open_session :: "'w outside \<Rightarrow> string \<Rightarrow> string \<Rightarrow> ('w, nat) io" where
  "open_session out host_name ep = (\<lambda>st.
     bind new_number (\<lambda>s.
       andthen (connect_loop out (w_policy st) host_name ep s (start_check (w_policy st)))
         (andthen (after_connect out (w_policy st) s) (ret s))) st)"

section \<open>Late output\<close>

text \<open>\<open>late_output\<close> (\<open>src/rollout/platforms.py\<close>) over what its loop observed: the time at the
  loop's test, the chunk read and the time after the read (tenths of a second). The clock passes
  \<open>rest_limit\<close>, so the observations are finitely many.\<close>

definition rest_limit :: int where "rest_limit = 600"
definition quiet_time :: int where "quiet_time = 10"

fun late_chunks :: "int \<Rightarrow> int \<Rightarrow> int \<Rightarrow> (int \<times> string \<times> int) list \<Rightarrow> string list" where
  "late_chunks quiet started last_heard [] = []"
| "late_chunks quiet started last_heard ((tested, chunk, after) # rest) =
     (if \<not> tested - started < rest_limit then []
      else if chunk \<noteq> [] then chunk # late_chunks quiet started after rest
      else if quiet \<le> after - last_heard then []
      else late_chunks quiet started last_heard rest)"

definition late_output :: "'w outside \<Rightarrow> nat \<Rightarrow> int \<Rightarrow> ('w, string) io" where
  "late_output out s quiet = (\<lambda>st. case o_late out s quiet (w_world st) of
     (Inl e, w) \<Rightarrow> (Inl e, st\<lparr>w_world := w\<rparr>)
   | (Inr (started, seen), w) \<Rightarrow> (Inr (concat (late_chunks quiet started started seen)), st\<lparr>w_world := w\<rparr>))"

section \<open>What a computation sends\<close>

text \<open>\<open>emits P m\<close>: whatever the state, \<open>m\<close> only adds calls to the trace, and only ones that
  satisfy \<open>P\<close>.\<close>

definition emits :: "(nat \<times> call \<Rightarrow> bool) \<Rightarrow> ('w, 'a) io \<Rightarrow> bool" where
  "emits P m \<longleftrightarrow> (\<forall>st. \<exists>new. w_trace (snd (m st)) = w_trace st @ new \<and> list_all P new)"

lemma emits_silent: "(\<And>st. w_trace (snd (m st)) = w_trace st) \<Longrightarrow> emits P m"
  by (simp add: emits_def)

lemma emits_ret [trace_intros]: "emits P (ret x)"
  by (simp add: emits_def ret_def)

lemma emits_throw [trace_intros]: "emits P (throw e)"
  by (simp add: emits_def throw_def)

lemma emits_bind [trace_intros]:
  assumes "emits P m" "\<And>x. emits P (f x)"
  shows "emits P (bind m f)"
  unfolding emits_def
proof
  fix st
  obtain r st1 where m: "m st = (r, st1)" by fastforce
  from assms(1) obtain new where n: "w_trace st1 = w_trace st @ new" "list_all P new"
    unfolding emits_def using m by (metis snd_conv)
  show "\<exists>new. w_trace (snd (bind m f st)) = w_trace st @ new \<and> list_all P new"
  proof (cases r)
    case (Inl e)
    then show ?thesis using m n by (simp add: bind_def)
  next
    case (Inr x)
    from assms(2) obtain new2 where "w_trace (snd (f x st1)) = w_trace st1 @ new2" "list_all P new2"
      unfolding emits_def by metis
    then show ?thesis using Inr m n by (auto simp: bind_def intro!: exI [of _ "new @ new2"])
  qed
qed

lemma emits_andthen [trace_intros]: "emits P m \<Longrightarrow> emits P k \<Longrightarrow> emits P (andthen m k)"
  unfolding andthen_def by (rule emits_bind)

lemma emits_attempt [trace_intros]: "emits P m \<Longrightarrow> emits P (attempt m)"
  by (simp add: emits_def attempt_def split_beta)

lemma emits_handle [trace_intros]:
  "emits P m \<Longrightarrow> (\<And>e. emits P (h e)) \<Longrightarrow> emits P (handle m h)"
  unfolding handle_def by (intro emits_bind emits_attempt) (auto intro: emits_ret split: sum.split)

lemma emits_with_cleanup [trace_intros]:
  "emits P m \<Longrightarrow> emits P c \<Longrightarrow> emits P (with_cleanup m c)"
  unfolding with_cleanup_def
  by (intro emits_bind emits_attempt emits_andthen) (auto intro: emits_ret emits_throw split: sum.split)

lemma emits_send [trace_intros]: "P (s, c) \<Longrightarrow> emits P (send out s c)"
  by (simp add: emits_def send_def split_beta)

lemma emits_say [trace_intros]: "emits P (say text t important)"
  by (simp add: emits_def say_def)

lemma emits_need_action [trace_intros]: "emits P (need_action ep what)"
  by (simp add: emits_def need_action_def)

lemma emits_reads [trace_intros]:
  "emits P (base_prompt out s)" "emits P (vdoms out s)" "emits P (session_log out s)"
  "emits P (clear_log out s)" "emits P (now out)" "emits P (resolves out host)" "emits P (sleep_io out t)"
  by (simp_all add: emits_def base_prompt_def vdoms_def session_log_def clear_log_def now_def
      resolves_def sleep_io_def split_beta)

lemma emits_late [trace_intros]: "emits P (late_output out s quiet)"
  by (simp add: emits_def late_output_def split: prod.split sum.split)

lemma emits_if [trace_intros]: "(b \<Longrightarrow> emits P m) \<Longrightarrow> (\<not> b \<Longrightarrow> emits P k) \<Longrightarrow> emits P (if b then m else k)"
  by simp

lemma emits_option [trace_intros]:
  "emits P m \<Longrightarrow> (\<And>x. emits P (f x)) \<Longrightarrow> emits P (case v of None \<Rightarrow> m | Some x \<Rightarrow> f x)"
  by (cases v) simp_all

lemma emits_pair [trace_intros]: "(\<And>x y. emits P (f x y)) \<Longrightarrow> emits P (case v of (x, y) \<Rightarrow> f x y)"
  by (cases v) simp_all

lemma emits_sum [trace_intros]:
  "(\<And>x. emits P (f x)) \<Longrightarrow> (\<And>x. emits P (g x)) \<Longrightarrow> emits P (case v of Inl x \<Rightarrow> f x | Inr x \<Rightarrow> g x)"
  by (cases v) simp_all

lemma emits_list [trace_intros]:
  "emits P m \<Longrightarrow> (\<And>x xs. emits P (f x xs)) \<Longrightarrow> emits P (case v of [] \<Rightarrow> m | x # xs \<Rightarrow> f x xs)"
  by (cases v) simp_all

lemma emits_let [trace_intros]: "(\<And>x. emits P (f x)) \<Longrightarrow> emits P (let x = v in f x)"
  by simp

lemma emits_mono: "emits P m \<Longrightarrow> (\<And>c. P c \<Longrightarrow> Q c) \<Longrightarrow> emits Q m"
  unfolding emits_def by (metis (full_types) list.pred_mono_strong)

lemma emits_new_number [trace_intros]: "emits P new_number"
  by (simp add: emits_def new_number_def)

lemma emits_connect_twice [trace_intros]: "P (s, Connect args) \<Longrightarrow> emits P (connect_twice out s args)"
  unfolding connect_twice_def by (intro trace_intros) auto

lemma emits_refuse [trace_intros]: "emits P (refuse out pol ep offered e)"
  by (simp add: refuse_def emits_throw emits_silent)

lemma connect_loop_emits:
  assumes "\<And>args. P (s, Connect args)"
  shows "\<exists>new. w_trace (snd (connect_loop out pol host_name ep s ck st)) = w_trace st @ new \<and> list_all P new"
  using assms
proof (induction out pol host_name ep s ck st rule: connect_loop.induct)
  case (1 out pol host_name ep s ck st)
  obtain r st1 where m: "connect_twice out s (check_args pol host_name ck) st = (r, st1)" by fastforce
  have "emits P (connect_twice out s (check_args pol host_name ck))"
    by (intro trace_intros "1.prems")
  then obtain n where n: "w_trace st1 = w_trace st @ n" "list_all P n"
    unfolding emits_def using m by (metis snd_conv)
  show ?case
  proof (cases r)
    case (Inr x)
    then show ?thesis using m n by (simp add: connect_loop.simps)
  next
    case (Inl e)
    show ?thesis
    proof (cases "refused_key (exn_error e)")
      case None
      then show ?thesis using m n Inl by (simp add: connect_loop.simps)
    next
      case (Some offered)
      show ?thesis
      proof (cases "alternative pol ck offered")
        case None
        obtain n2 where "w_trace (snd (refuse out pol ep offered (exn_error e) st1)) = w_trace st1 @ n2"
            "list_all P n2"
          using emits_refuse [of P out pol ep offered "exn_error e"] unfolding emits_def by blast
        then show ?thesis using m n Inl Some None
          by (auto simp: connect_loop.simps intro!: exI [of _ "n @ n2"])
      next
        case (Some ck1)
        from "1.IH" [OF m [symmetric] _ \<open>refused_key (exn_error e) = Some offered\<close> Some] Inl "1.prems"
        obtain n2 where "w_trace (snd (connect_loop out pol host_name ep s ck1 st1)) = w_trace st1 @ n2"
            "list_all P n2" by blast
        then show ?thesis using m n Inl Some \<open>refused_key (exn_error e) = Some offered\<close>
          by (auto simp: connect_loop.simps [of out pol host_name ep s ck st] intro!: exI [of _ "n @ n2"])
      qed
    qed
  qed
qed

lemma emits_connect_loop [trace_intros]:
  "(\<And>args. P (s, Connect args)) \<Longrightarrow> emits P (connect_loop out pol host_name ep s ck)"
  unfolding emits_def by (blast intro: connect_loop_emits)

lemma emits_after_connect [trace_intros]: "emits P (after_connect out pol s)"
  by (simp add: emits_def after_connect_def Let_def)

lemma emits_at: "(\<And>x. emits P (f x)) \<Longrightarrow> emits P (\<lambda>st. f (g st) st)"
  unfolding emits_def by blast

lemma emits_open_session [trace_intros]:
  "(\<And>s args. P (s, Connect args)) \<Longrightarrow> emits P (open_session out host_name ep)"
  unfolding open_session_def
  by (rule emits_at [where f = "\<lambda>pol. bind new_number (\<lambda>s. andthen (connect_loop out pol host_name ep s (start_check pol))
        (andthen (after_connect out pol s) (ret s)))"]) (intro trace_intros)

end
