(* ===== verification/Platforms.thy ===== *)
theory Platforms
  imports Platform_Text Session_Io
begin

text \<open>
  \<open>src/rollout/platforms.py\<close>: how a push finishes (the \<open>Finish\<close> family), the platforms' dialects
  (\<open>Platform\<close> and its subclasses, a tag with one equation per class that overrides a method) and the
  table of platforms. The table's documentation columns (\<open>about\<close>, \<open>sources\<close>) are left out.
\<close>

section \<open>Reading whole outputs\<close>

text \<open>A redrawn prompt: the base prompt, a closing mark, white space around them.\<close>

definition redrawn_prompt :: "string \<Rightarrow> rx" where
  "redrawn_prompt base_name = seqs [lit (strip base_name), Many space, opt (in_set ''#>$%''), Many space]"

text \<open>\<open>prompt.sub("", line, count=1)\<close>.\<close>

definition drop_first :: "rx \<Rightarrow> string \<Rightarrow> string" where
  "drop_first r l = (case rx_search r l of
      None \<Rightarrow> l | Some (pre, m, _) \<Rightarrow> pre @ drop (length pre + length m) l)"

definition without_prompts :: "string \<Rightarrow> string \<Rightarrow> string list" where
  "without_prompts base_name rest =
     filter (\<lambda>l. strip l \<noteq> [])
       (map (\<lambda>raw. let l = strip_p (\<lambda>c. c = CHR 0x0D) raw in
               if rx_matches_start (redrawn_prompt base_name) (strip l)
               then drop_first (redrawn_prompt base_name) l else l) (splitlines rest))"

definition read_whole :: "'w outside \<Rightarrow> nat \<Rightarrow> string \<Rightarrow> ('w, string) io" where
  "read_whole out s command =
     bind (send out s (Send_Command command)) (\<lambda>output.
     bind (late_output out s quiet_time) (\<lambda>rest.
       if strip rest = [] then ret output
       else bind (base_prompt out s) (\<lambda>prompt.
         ret (rstrip_p (\<lambda>c. c = newline) output @ [newline]
              @ join [newline] (without_prompts prompt rest)))))"

section \<open>Finishing a push\<close>

record commit_options =
  co_discard :: "string list"
  co_pending :: string
  co_reverts_on_failure :: bool
  co_by_pending :: bool
  co_why_failed :: string

datatype finish = Save_Config | Run_Command string | No_Finish | Commit commit_options

definition interruptible :: "finish \<Rightarrow> bool" where
  "interruptible f = (case f of Commit _ \<Rightarrow> False | _ \<Rightarrow> True)"

text \<open>\<open>Commit._left\<close>: what the candidate holds; \<open>None\<close>: no command for it, or it couldn't be sent.\<close>

definition commit_left :: "'w outside \<Rightarrow> nat \<Rightarrow> commit_options \<Rightarrow> string \<Rightarrow> ('w, string list option) io" where
  "commit_left out s c prompt =
     (if co_pending c = [] then ret None
      else bind (attempt (send out s (Send_Config (co_pending c) True))) (\<lambda>r.
        ret (case r of Inl _ \<Rightarrow> None
             | Inr output \<Rightarrow> Some (fst (reply output (co_pending c) prompt events_shape)))))"

definition quoted :: "string \<Rightarrow> string" where
  "quoted t = [squote] @ t @ [squote]"

definition commit_why :: "'w outside \<Rightarrow> nat \<Rightarrow> commit_options \<Rightarrow> string \<Rightarrow> ('w, string) io" where
  "commit_why out s c prompt =
     (if co_why_failed c = [] then ret []
      else bind (attempt (send out s (Send_Config (co_why_failed c) True))) (\<lambda>r.
        ret (case r of Inl _ \<Rightarrow> []
             | Inr output \<Rightarrow>
                 (let told = fst (reply output (co_why_failed c) prompt events_shape) in
                  if told = [] then []
                  else '' - '' @ quoted (co_why_failed c) @ '' shows: '' @ join '' | '' told))))"

definition plain_error :: "string \<Rightarrow> string \<Rightarrow> error" where
  "plain_error cls text = Error cls text None None"

definition commit_by_pending :: "'w outside \<Rightarrow> nat \<Rightarrow> commit_options \<Rightarrow> ('w, unit) io" where
  "commit_by_pending out s c =
     bind (base_prompt out s) (\<lambda>prompt.
     bind (send out s (Send_Command ''commit'')) (\<lambda>answer.
     bind (commit_left out s c prompt) (\<lambda>left.
       case left of
         None \<Rightarrow> throw (Exn Commit_Pending (plain_error ''CommitPending'' []))
       | Some [] \<Rightarrow> ret ()
       | Some _ \<Rightarrow>
           throw (Exn Value_Error (plain_error ''ValueError''
             (let told = one_line answer ''commit'' in
              if told \<noteq> [] then told
              else quoted (co_pending c) @ '' still shows the change after the commit''))))))"

text \<open>The discard of a failed commit: every command in order, what the device replied to each.\<close>

fun send_discards :: "'w outside \<Rightarrow> nat \<Rightarrow> string \<Rightarrow> string list \<Rightarrow> ('w, string list) io" where
  "send_discards out s prompt [] = ret []"
| "send_discards out s prompt (command # rest) =
     bind (send out s (Send_Config command True)) (\<lambda>output.
     bind (send_discards out s prompt rest) (\<lambda>others.
       let told = fst (reply output command prompt events_shape) in
       ret ((quoted command @ (if told \<noteq> [] then '' (the device replied: '' @ join '' '' told @ '')'' else []))
            # others)))"

definition report_left :: "string \<Rightarrow> commit_options \<Rightarrow> string \<Rightarrow> string list option \<Rightarrow> ('w, unit) io" where
  "report_left ep c discarded left =
     (case left of
        None \<Rightarrow> need_action ep (discarded @ '' - check that the candidate configuration is empty'')
      | Some [] \<Rightarrow> say (ep @ '': '' @ discarded @ ''; '' @ quoted (co_pending c)
                       @ '' shows nothing left in the candidate'') Tone_Warning False
      | Some ls \<Rightarrow> need_action ep (discarded @ '', but '' @ quoted (co_pending c) @ '' still shows: ''
                    @ join '' | '' (take 10 ls) @ '' - check the candidate configuration on the device''))"

definition discard_candidate :: "'w outside \<Rightarrow> nat \<Rightarrow> string \<Rightarrow> commit_options \<Rightarrow> string \<Rightarrow> ('w, unit) io" where
  "discard_candidate out s ep c prompt =
     (if co_discard c \<noteq> [] then
        bind (send_discards out s prompt (co_discard c)) (\<lambda>replies.
        bind (commit_left out s c prompt) (\<lambda>left.
          report_left ep c (''the commit failed and the failed changes were discarded with ''
            @ join '', then '' replies) left))
      else if \<not> co_reverts_on_failure c then
        need_action ep ''the failed changes may still be in the candidate configuration - discard them on the device''
      else ret ())"

definition failed_commit :: "'w outside \<Rightarrow> nat \<Rightarrow> string \<Rightarrow> commit_options \<Rightarrow> error \<Rightarrow> ('w, bool) io" where
  "failed_commit out s ep c e =
     bind (base_prompt out s) (\<lambda>prompt.
     bind (commit_why out s c prompt) (\<lambda>why.
       let told = fst (reply (error_text e) ''commit'' prompt events_shape);
           reason = join '' | '' (filter (\<lambda>l. l \<noteq> netmiko_commit_failed) told)
       in andthen (say (ep @ '': commit failed - nothing was applied''
                     @ (if reason \<noteq> [] then ''. '' @ reason else []) @ why) Tone_Error False)
          (andthen (discard_candidate out s ep c prompt)
          (andthen (send out s Exit_Config_Mode) (ret False)))))"

definition commit_now :: "'w outside \<Rightarrow> nat \<Rightarrow> commit_options \<Rightarrow> ('w, unit) io" where
  "commit_now out s c =
     (if co_by_pending c then commit_by_pending out s c else andthen (send out s Commit_Call) (ret ()))"

text \<open>\<open>Commit.before_leave\<close> (the "still committing" lines a timer adds are left out).\<close>

definition commit_before_leave :: "'w outside \<Rightarrow> nat \<Rightarrow> string \<Rightarrow> commit_options \<Rightarrow> ('w, bool) io" where
  "commit_before_leave out s ep c =
     bind (base_prompt out s) (\<lambda>prompt.
     bind (commit_left out s c prompt) (\<lambda>left.
       if left = Some [] then
         andthen (say (ep @ '': nothing to commit - '' @ quoted (co_pending c)
                     @ '' shows no change in the candidate'') Tone_Info False) (ret True)
       else
         andthen (say (ep @ '': committing - the device applies the change now'') Tone_Info False)
           (bind (attempt (commit_now out s c)) (\<lambda>r.
              case r of
                Inr _ \<Rightarrow> ret True
              | Inl e \<Rightarrow>
                  if exn_kind e = Read_Timeout
                  then throw (Exn Commit_Pending (plain_error ''CommitPending'' []))
                  else if exn_kind e = Value_Error then failed_commit out s ep c (exn_error e)
                  else throw e))))"

definition before_leave :: "'w outside \<Rightarrow> nat \<Rightarrow> string \<Rightarrow> finish \<Rightarrow> ('w, bool) io" where
  "before_leave out s ep f = (case f of Commit c \<Rightarrow> commit_before_leave out s ep c | _ \<Rightarrow> ret True)"

text \<open>The device's reply, and the command it answers (none: nothing was sent).\<close>

definition after_leave :: "'w outside \<Rightarrow> nat \<Rightarrow> finish \<Rightarrow> ('w, string \<times> string) io" where
  "after_leave out s f = (case f of
      Save_Config \<Rightarrow> bind (send out s Save_Config_Call) (\<lambda>answer. ret (answer, ''save''))
    | Run_Command text \<Rightarrow> bind (send out s (Send_Command text)) (\<lambda>answer. ret (answer, text))
    | No_Finish \<Rightarrow> ret ([], [])
    | Commit _ \<Rightarrow> ret ([], []))"

section \<open>The platforms\<close>

datatype kind = K_Base | K_PanOS | K_IosXr | K_Comware | K_Gaia | K_Junos | K_AosCx | K_FortiOS

record platform =
  pl_kind :: kind
  pl_finish :: finish
  pl_show_config :: "string list"
  pl_grammar :: grammar
  pl_framing :: "rx option"
  pl_show_saved :: string
  pl_defaults :: defaults_fetch
  pl_events :: rx
  pl_echo_whole :: bool
  pl_identity :: "identity option"
  pl_prompt_name :: rx
  pl_answer_name :: "rx option"

definition platform_config :: "platform \<Rightarrow> string \<Rightarrow> string" where
  "platform_config p output =
     (case pl_framing p of
        None \<Rightarrow> output
      | Some r \<Rightarrow> join [newline] (filter (\<lambda>l. \<not> rx_matches_start r (strip l)) (splitlines output)))"

text \<open>Gaia: whether a prompt is the expert shell's.\<close>

definition in_bash :: "string \<Rightarrow> bool" where
  "in_bash prompt = (let p = lower (strip prompt) in occurs_in ''expert@'' p \<or> suffix ''#'' p)"

definition gaia_prepare :: "'w outside \<Rightarrow> nat \<Rightarrow> ('w, string option) io" where
  "gaia_prepare out s =
     bind (send out s Find_Prompt) (\<lambda>prompt.
       if \<not> in_bash prompt then ret None
       else andthen (send out s (Send_Timing ''clish'')) (andthen (send out s Set_Base_Prompt)
         (bind (send out s Find_Prompt) (\<lambda>again.
            if \<not> in_bash again then ret None
            else ret (Some (''the account logs in to the wrong shell and 'clish' didn't leave it - set its shell to clish''))))))"

definition enable_session :: "'w outside \<Rightarrow> nat \<Rightarrow> ('w, string option) io" where
  "enable_session out s =
     bind (attempt (send out s Enable)) (\<lambda>r.
       case r of
         Inr _ \<Rightarrow> ret None
       | Inl e \<Rightarrow>
           if exn_kind e \<in> {Value_Error, Read_Timeout}
           then throw (Exn Enable_Failed (Error ''EnableFailed'' (error_text (exn_error e)) (Some (exn_error e)) None))
           else throw e)"

definition prepare :: "'w outside \<Rightarrow> nat \<Rightarrow> platform \<Rightarrow> ('w, string option) io" where
  "prepare out s p = (case pl_kind p of
      K_PanOS \<Rightarrow> andthen (send out s (Send_Command ''set cli config-output-format set'')) (ret None)
    | K_IosXr \<Rightarrow> andthen (send out s (Send_Command ''terminal exec prompt no-timestamp'')) (ret None)
    | K_Comware \<Rightarrow> ret None
    | K_Gaia \<Rightarrow> gaia_prepare out s
    | _ \<Rightarrow> enable_session out s)"

text \<open>The last of the commands that show the configuration answers.\<close>

fun read_commands :: "'w outside \<Rightarrow> nat \<Rightarrow> string \<Rightarrow> string list \<Rightarrow> ('w, string) io" where
  "read_commands out s output [] = ret output"
| "read_commands out s output (command # rest) =
     bind (read_whole out s command) (\<lambda>o1. read_commands out s o1 rest)"

definition read_config :: "'w outside \<Rightarrow> nat \<Rightarrow> platform \<Rightarrow> ('w, string) io" where
  "read_config out s p =
     bind (if pl_kind p = K_PanOS
           then andthen (send out s (Config_Mode []))
                  (with_cleanup (read_whole out s ''show'') (andthen (send out s Exit_Config_Mode) (ret ())))
           else read_commands out s [] (pl_show_config p))
       (\<lambda>output. ret (platform_config p output))"

definition read_saved :: "'w outside \<Rightarrow> nat \<Rightarrow> platform \<Rightarrow> ('w, string) io" where
  "read_saved out s p = read_whole out s (pl_show_saved p)"

fun read_views :: "'w outside \<Rightarrow> nat \<Rightarrow> platform \<Rightarrow> string list \<Rightarrow> ('w, string list) io" where
  "read_views out s p [] = ret []"
| "read_views out s p (fetch # rest) =
     bind (read_whole out s fetch) (\<lambda>output.
     bind (read_views out s p rest) (\<lambda>others. ret (platform_config p output # others)))"

definition read_defaults :: "'w outside \<Rightarrow> nat \<Rightarrow> platform \<Rightarrow> string list \<Rightarrow> ('w, string) io" where
  "read_defaults out s p fetches =
     bind (read_views out s p fetches) (\<lambda>views. ret (join [newline] views))"

definition enter_config :: "'w outside \<Rightarrow> nat \<Rightarrow> platform \<Rightarrow> ('w, string option) io" where
  "enter_config out s p =
     (if pl_kind p = K_Junos then
        bind (attempt (send out s (Config_Mode ''configure private''))) (\<lambda>r.
          case r of
            Inr _ \<Rightarrow> ret None
          | Inl e \<Rightarrow>
              if exn_kind e \<in> {Value_Error, Read_Timeout} then
                ret (Some (quoted ''configure private'' @ '' was refused - usually another session has uncommitted changes in the shared configuration: commit or discard them (they're someone else's work), then rerun. Nothing was sent.''))
              else throw e)
      else andthen (send out s (Config_Mode [])) (ret None))"

text \<open>FortiOS: the open blocks are closed, at most ten.\<close>

fun close_open_blocks :: "'w outside \<Rightarrow> nat \<Rightarrow> nat \<Rightarrow> ('w, unit) io" where
  "close_open_blocks out s 0 = ret ()"
| "close_open_blocks out s (Suc n) =
     bind (send out s Find_Prompt) (\<lambda>prompt.
       if CHR ''('' \<notin> set prompt then ret ()
       else andthen (send out s (Send_Timing ''end'')) (close_open_blocks out s n))"

definition fortios_save :: "'w outside \<Rightarrow> nat \<Rightarrow> string \<Rightarrow> ('w, unit) io" where
  "fortios_save out s ep =
     bind (send out s (Send_Timing ''get system global | grep cfg-save'')) (\<lambda>mode.
       if occurs_in ''manual'' mode \<or> occurs_in ''revert'' mode then
         bind (send out s (Send_Timing ''execute cfg save'')) (\<lambda>output.
           let answer = one_line output ''execute cfg save'' in
           say (ep @ '': cfg-save is not automatic - saved with '' @ quoted ''execute cfg save''
             @ (if answer \<noteq> [] then '' (the device replied: '' @ answer @ '')'' else [])) Tone_Warning False)
       else ret ())"

definition before_finish :: "'w outside \<Rightarrow> nat \<Rightarrow> string \<Rightarrow> platform \<Rightarrow> ('w, unit) io" where
  "before_finish out s ep p =
     (if pl_kind p \<noteq> K_FortiOS then ret ()
      else andthen (close_open_blocks out s 10)
        (bind (vdoms out s) (\<lambda>v.
           andthen (if v then andthen (send out s (Send_Timing ''config global'')) (ret ()) else ret ())
             (andthen (fortios_save out s ep)
                (if v then andthen (send out s (Send_Timing ''end'')) (ret ()) else ret ())))))"

definition leave_config :: "'w outside \<Rightarrow> nat \<Rightarrow> platform \<Rightarrow> ('w, unit) io" where
  "leave_config out s p =
     andthen (if pl_kind p = K_AosCx then andthen (send out s (Send_Timing ''end'')) (ret ()) else ret ())
       (andthen (send out s Exit_Config_Mode) (ret ()))"

definition unsaved :: "'w outside \<Rightarrow> nat \<Rightarrow> platform \<Rightarrow> ('w, (string \<times> string) option) io" where
  "unsaved out s p =
     (if pl_kind p \<noteq> K_Gaia then ret None
      else bind (send out s (Send_Command ''show config-state'')) (\<lambda>output.
        let ls = splitlines (strip output); state = (if ls = [] then [] else strip (last ls))
        in ret (if lower state = ''saved'' then None else Some (''show config-state'', state))))"

end
