(* ===== verification/Platform_Table.thy ===== *)
theory Platform_Table
  imports Platforms
begin

text \<open>
  The table \<open>PLATFORMS\<close> of \<open>src/rollout/platforms.py\<close>: one row per platform, its grammar, how it
  finishes, what frames its output and how it recognises itself. The documentation columns of a row
  (\<open>about\<close>, \<open>sources\<close>) say nothing about behaviour and are left out.
\<close>

section \<open>Words and shapes the rows share\<close>

definition cisco_nav :: "string list" where "cisco_nav = [''exit'', ''end'', ''quit'']"
definition xr_nav :: "string list" where
  "xr_nav = [''exit'', ''end'', ''root'', ''abort'', ''end-policy'', ''end-set'', ''end-group'']"
definition comware_nav :: "string list" where "comware_nav = [''quit'', ''return'']"
definition set_nav :: "string list" where "set_nav = [''exit'', ''quit'', ''top'', ''up'']"
definition fortios_nav :: "string list" where "fortios_nav = [''next'', ''end'', ''abort'']"

definition config_exec :: "string list" where
  "config_exec = [''do'', ''show'', ''copy'', ''write'', ''ping'', ''traceroute'', ''clear'']"

definition run_all :: defaults_fetch where "run_all = Whole_Config ''show running-config all''"

definition ios_framing :: rx where
  "ios_framing = alts [lit ''Building configuration'', lit ''Current configuration :'', lit ''ntp clock-period '']"

definition xr_framing :: rx where
  "xr_framing = alts [lit ''Building configuration'',
     seqs [month, ch (CHR '' ''), month, blanks, digits, ch (CHR '' ''), clock_time,
       opt (Seq (ch (CHR ''.'')) digits), ch (CHR '' ''), some nonspace, Text_End]]"

definition user_at :: rx where
  "user_at = seqs [Text_Start, some (not_in is_space ''@''), ch (CHR ''@''), some_few nonspace,
     in_set ''>#%'', Many space, Text_End]"

definition uptime_name :: rx where
  "uptime_name = seqs [Line_Start, Group (some nonspace), lit '' uptime is '']"

definition junos_root_shell :: rx where
  "junos_root_shell = seqs [Text_Start,
     Alt (seqs [lit ''root@'', Many (not_in is_space ''>''),
            Alt (seqs [ch (CHR '':''), Many nonspace, Many space, ch (CHR ''#'')])
                (Seq (Many space) (ch (CHR ''%'')))])
         (ch (CHR ''%'')),
     Many space, Text_End]"

definition hostname_after :: "string \<Rightarrow> rx" where
  "hostname_after label = seqs [Line_Start, Many (One (\<lambda>c. c = CHR '' '' \<or> c = CHR 0x09)), lit label,
     Group (some nonspace)]"

definition grammar_of :: "bool \<Rightarrow> bool \<Rightarrow> string list \<Rightarrow> string list \<Rightarrow> string list \<Rightarrow> grammar" where
  "grammar_of flat blocks exec_words navigation negation =
     \<lparr>g_flat = flat, g_blocks = blocks, g_exec_words = exec_words, g_navigation = navigation,
      g_negation = negation\<rparr>"

definition identity_of :: "string \<Rightarrow> rx list \<Rightarrow> identity" where
  "identity_of probe marks_of = \<lparr>id_probe = probe, id_marks = marks_of, id_also = [], id_unless = [],
     id_prompt = None, id_shell = None\<rparr>"

text \<open>A \<open>Platform\<close> with the fields' default values.\<close>

definition platform_of :: "kind \<Rightarrow> finish \<Rightarrow> grammar \<Rightarrow> identity \<Rightarrow> platform" where
  "platform_of k f g i =
     \<lparr>pl_kind = k, pl_finish = f, pl_show_config = [''show running-config''], pl_grammar = g,
      pl_framing = None, pl_show_saved = [], pl_defaults = No_Defaults, pl_events = events_shape,
      pl_echo_whole = (k \<noteq> K_Junos), pl_identity = Some i, pl_prompt_name = name_cisco,
      pl_answer_name = None\<rparr>"

definition commit_plain :: commit_options where
  "commit_plain = \<lparr>co_discard = [], co_pending = [], co_reverts_on_failure = False,
     co_by_pending = False, co_why_failed = []\<rparr>"

section \<open>The rows\<close>

definition cisco_ios :: platform where
  "cisco_ios = (platform_of K_Base Save_Config (grammar_of False False [''do''] cisco_nav [''no''])
       ((identity_of ''show version'' (plain_text_rx [''Cisco IOS Software'',
          ''Cisco Internetwork Operating System Software'', ''IOS (tm)'']))
        \<lparr>id_unless := plain_text_rx [''IOS XE'', ''IOS-XE'', ''IOS XR'']\<rparr>))
     \<lparr>pl_framing := Some ios_framing, pl_show_saved := ''show startup-config'', pl_defaults := run_all,
      pl_answer_name := Some uptime_name\<rparr>"

definition cisco_xe :: platform where
  "cisco_xe = (platform_of K_Base Save_Config (grammar_of False False [''do''] cisco_nav [''no''])
       (identity_of ''show version'' (plain_text_rx [''Cisco IOS XE Software'', ''IOS-XE Software'',
          ''Cisco IOS-XE software''])))
     \<lparr>pl_framing := Some ios_framing, pl_show_saved := ''show startup-config'', pl_defaults := run_all,
      pl_answer_name := Some uptime_name\<rparr>"

definition cisco_nxos :: platform where
  "cisco_nxos = (platform_of K_Base Save_Config (grammar_of False False config_exec cisco_nav [''no''])
       ((identity_of ''show version'' (plain_text_rx [''Cisco Nexus Operating System (NX-OS) Software'']))
        \<lparr>id_unless := plain_text_rx [''aci-n9000'']\<rparr>))
     \<lparr>pl_show_saved := ''show startup-config'', pl_defaults := run_all,
      pl_answer_name := Some (Seq (lit ''Device name: '') (Group (some nonspace)))\<rparr>"

definition cisco_xr :: platform where
  "cisco_xr = (platform_of K_IosXr
       (Commit (commit_plain\<lparr>co_reverts_on_failure := True, co_why_failed := ''show configuration failed''\<rparr>))
       (grammar_of False False [''do'', ''show''] xr_nav [''no''])
       (identity_of ''show version'' (plain_text_rx [''Cisco IOS XR Software''])))
     \<lparr>pl_framing := Some xr_framing, pl_events := xr_events, pl_answer_name := Some uptime_name\<rparr>"

definition arista_eos :: platform where
  "arista_eos = (platform_of K_Base Save_Config (grammar_of False False config_exec cisco_nav [''no''])
       ((identity_of ''show version'' (plain_text_rx [''Arista'']))
        \<lparr>id_also := plain_text_rx [''Software image version'']\<rparr>))
     \<lparr>pl_show_saved := ''show startup-config'', pl_defaults := run_all\<rparr>"

definition aruba_aoscx :: platform where
  "aruba_aoscx = (platform_of K_AosCx Save_Config (grammar_of False False config_exec cisco_nav [''no''])
       (identity_of ''show version'' (plain_text_rx [''ArubaOS-CX'', ''AOS-CX''])))
     \<lparr>pl_show_saved := ''show startup-config'', pl_defaults := run_all\<rparr>"

definition hp_procurve :: platform where
  "hp_procurve = (platform_of K_Base Save_Config
       (grammar_of False False [''show'', ''write'', ''ping'', ''copy'', ''traceroute'', ''boot'', ''reload'']
          cisco_nav [''no''])
       (identity_of ''show version'' (plain_text_rx [''Image stamp:''])))
     \<lparr>pl_show_saved := ''show config'', pl_events := procurve_events, pl_prompt_name := name_procurve\<rparr>"

definition comware_prompt :: rx where
  "comware_prompt = seqs [Text_Start, opt (Seq (lit ''RBM_'') (One (\<lambda>c. c \<noteq> newline))), ch (CHR ''<''),
     some (not_in is_space ''>''), ch (CHR ''>''), Many space, Text_End]"

definition hp_comware :: platform where
  "hp_comware = (platform_of K_Comware Save_Config
       (grammar_of False False [''display'', ''save'', ''ping'', ''tracert''] comware_nav [''undo''])
       ((identity_of ''display version''
           (plain_text_rx [''Comware Software, Version'', ''Software Version 5.20 Release'']))
        \<lparr>id_prompt := Some comware_prompt\<rparr>))
     \<lparr>pl_show_config := [''display current-configuration''], pl_show_saved := ''display saved-configuration'',
      pl_events := comware_events, pl_prompt_name := name_comware\<rparr>"

definition juniper_junos :: platform where
  "juniper_junos = (platform_of K_Junos
       (Commit (commit_plain\<lparr>co_discard := [''rollback 0''], co_pending := ''show | compare''\<rparr>))
       (grammar_of True False [''run'', ''show'', ''status'', ''help'', ''save''] set_nav [''delete''])
       ((identity_of ''show version''
           (plain_text_rx [''JUNOS Software Release'', ''JUNOS OS Kernel'', ''JUNOS Base OS'', ''JUNOS-EVO'']
            @ line_start_rx [''Junos: '', ''JUNOS '']))
        \<lparr>id_prompt := Some user_at,
         id_shell := Some \<lparr>sh_prompt = junos_root_shell, sh_run = ''cli -c '' @ [dquote] @ ''{}'' @ [dquote]\<rparr>\<rparr>))
     \<lparr>pl_show_config := [''show configuration | display set''], pl_prompt_name := name_at,
      pl_answer_name := Some (hostname_after ''Hostname: '')\<rparr>"

definition paloalto_panos :: platform where
  "paloalto_panos = (platform_of K_PanOS
       (Commit (commit_plain\<lparr>co_discard := [''revert config'', ''load config from running-config.xml''],
          co_pending := ''run show config diff'', co_by_pending := True\<rparr>))
       (grammar_of True False [''run'', ''show'', ''check'', ''validate'', ''find'', ''save''] set_nav [''delete''])
       ((identity_of ''show system info'' (line_start_rx [''model: PA-'', ''model: Panorama'', ''model: M-'']))
        \<lparr>id_prompt := Some user_at\<rparr>))
     \<lparr>pl_show_config := [''show''], pl_framing := Some (lit ''[edit''), pl_prompt_name := name_at,
      pl_answer_name := Some (hostname_after ''hostname: '')\<rparr>"

definition gaia_prompt :: rx where
  "gaia_prompt = seqs [Text_Start, some (not_in is_space '':>''), ch (CHR '':''), digits, ch (CHR ''>''),
     Many space, Text_End]"

definition checkpoint_gaia :: platform where
  "checkpoint_gaia = (platform_of K_Gaia (Run_Command ''save config'')
       (grammar_of True False [''show'', ''lock'', ''unlock'', ''save''] [] [''delete''])
       ((identity_of ''show version all'' (plain_text_rx [''Product version Check Point Gaia'']))
        \<lparr>id_prompt := Some gaia_prompt,
         id_shell := Some \<lparr>sh_prompt = Seq Text_Start (lit ''[Expert@''),
           sh_run = ''clish -c '' @ [dquote] @ ''{}'' @ [dquote]\<rparr>\<rparr>))
     \<lparr>pl_show_config := [''show configuration''], pl_prompt_name := name_gaia\<rparr>"

definition fortinet :: platform where
  "fortinet = (platform_of K_FortiOS No_Finish
       (grammar_of False True [''get'', ''show'', ''execute'', ''diagnose'', ''tree'', ''sudo'', ''fnsysctl'']
          fortios_nav [''unset'', ''delete''])
       ((identity_of ''get system status''
           (line_start_rx [''Version: FortiGate'', ''Version: FortiWiFi'', ''Version: Fortigate'']))
        \<lparr>id_prompt := Some name_fortios\<rparr>))
     \<lparr>pl_show_config := [''show''], pl_defaults := Fortios_Blocks, pl_prompt_name := name_fortios,
      pl_answer_name := Some (Seq Line_Start (Seq (lit ''Hostname: '') (Group (some nonspace))))\<rparr>"

definition platforms :: "(string \<times> platform) list" where
  "platforms =
     [(''cisco_ios'', cisco_ios), (''cisco_xe'', cisco_xe), (''cisco_nxos'', cisco_nxos),
      (''cisco_xr'', cisco_xr), (''arista_eos'', arista_eos), (''aruba_aoscx'', aruba_aoscx),
      (''hp_procurve'', hp_procurve), (''hp_comware'', hp_comware), (''juniper_junos'', juniper_junos),
      (''paloalto_panos'', paloalto_panos), (''checkpoint_gaia'', checkpoint_gaia), (''fortinet'', fortinet)]"

section \<open>What holds of every row\<close>

lemmas rows = cisco_ios_def cisco_xe_def cisco_nxos_def cisco_xr_def arista_eos_def aruba_aoscx_def
  hp_procurve_def hp_comware_def juniper_junos_def paloalto_panos_def checkpoint_gaia_def fortinet_def

lemmas row_parts = platform_of_def grammar_of_def identity_of_def commit_plain_def cisco_nav_def xr_nav_def
  comware_nav_def set_nav_def fortios_nav_def config_exec_def run_all_def

text \<open>No platform's removal words open or leave a section, and none of them runs an exec command: the
  judge's three readings of a first word never overlap.\<close>

definition grammar_disjoint :: "grammar \<Rightarrow> bool" where
  "grammar_disjoint g \<longleftrightarrow>
     list_all (\<lambda>w. w \<notin> set (g_navigation g) \<and> w \<notin> set (g_exec_words g)) (g_negation g)
     \<and> list_all (\<lambda>w. w \<notin> set (g_exec_words g)) (g_navigation g)"

lemma rows_disjoint: "list_all (\<lambda>(_, p). grammar_disjoint (pl_grammar p)) platforms"
  by (simp add: platforms_def rows row_parts grammar_disjoint_def)

text \<open>A platform whose candidate must be committed has no saved configuration to check, and its
  finish sends nothing after leaving configuration mode.\<close>

definition commit_is_the_save :: "platform \<Rightarrow> bool" where
  "commit_is_the_save p \<longleftrightarrow> interruptible (pl_finish p) \<or> pl_show_saved p = []"

lemma rows_commit_is_the_save: "list_all (\<lambda>(_, p). commit_is_the_save p) platforms"
  by (simp add: platforms_def rows row_parts commit_is_the_save_def interruptible_def)

end
