(* ===== verification/Session.thy ===== *)
theory Session
  imports Platform_Table Engine
begin

text \<open>
  \<open>src/rollout/session.py\<close>: \<open>NetmikoSession\<close>, one device's SSH conversation in a rollout. \<open>out\<close> is
  the outside world (theory \<open>Session_Io\<close>), \<open>d\<close> the device, \<open>p\<close> its platform, \<open>s\<close> a session's
  number. The unified diff of two configurations (\<open>difflib\<close>) is the argument \<open>diff_of\<close>.
\<close>

section \<open>Telling\<close>

definition ep :: "device \<Rightarrow> string" where
  "ep d = device_endpoint d"

fun say_all :: "string list \<Rightarrow> ('w, unit) io" where
  "say_all [] = ret ()"
| "say_all (l # ls) = andthen (say l Tone_Info False) (say_all ls)"

definition say_events :: "device \<Rightarrow> string list \<Rightarrow> ('w, unit) io" where
  "say_events d events = say_all (map (\<lambda>e. ep d @ '': device event: '' @ e) events)"

section \<open>New sessions\<close>

definition close_session :: "'w outside \<Rightarrow> nat \<Rightarrow> ('w, unit) io" where
  "close_session out s = andthen (send out s Disconnect) (ret ())"

text \<open>\<open>_new_session\<close>: connected, ready for commands, closed after the block.\<close>

definition connect_device :: "'w outside \<Rightarrow> device \<Rightarrow> ('w, nat) io" where
  "connect_device out d = open_session out (known_hosts_name (device_host d) (d_port d)) (ep d)"

definition new_session :: "'w outside \<Rightarrow> device \<Rightarrow> platform \<Rightarrow> (nat \<Rightarrow> ('w, 'a) io) \<Rightarrow> ('w, 'a) io" where
  "new_session out d p body =
     bind (connect_device out d) (\<lambda>s.
       with_cleanup
         (bind (prepare out s p) (\<lambda>problem.
            case problem of
              Some text \<Rightarrow> throw (Exn Other_Exn (plain_error ''RuntimeError'' text))
            | None \<Rightarrow> body s))
         (close_session out s))"

section \<open>Reading the configuration\<close>

definition snapshot :: "'w outside \<Rightarrow> device \<Rightarrow> platform \<Rightarrow> nat \<Rightarrow> string \<Rightarrow> ('w, string option) io" where
  "snapshot out d p s why =
     bind (attempt (read_config out s p)) (\<lambda>r.
       case r of
         Inl e \<Rightarrow> andthen (say (ep d @ '': couldn't read the configuration '' @ why @ '' - not verified (''
                     @ first_line (exn_error e) @ '')'') Tone_Error False) (ret None)
       | Inr config \<Rightarrow>
           if strip config = [] then
             andthen (say (ep d @ '': the configuration read '' @ why @ '' came back empty - not verified'')
               Tone_Error False) (ret None)
           else ret (Some config))"

definition fetch_new :: "'w outside \<Rightarrow> device \<Rightarrow> platform \<Rightarrow> string \<Rightarrow> ('w, string option) io" where
  "fetch_new out d p why =
     bind (attempt (new_session out d p (\<lambda>s. snapshot out d p s why))) (\<lambda>r.
       case r of
         Inl e \<Rightarrow> andthen (say (ep d @ '': couldn't read the configuration '' @ why @ '' - not verified (''
                     @ first_line (exn_error e) @ '')'') Tone_Error False) (ret None)
       | Inr config \<Rightarrow> ret config)"

definition defaults_max_lines :: nat where "defaults_max_lines = 50000"

text \<open>\<open>_defaults\<close>: \<open>conn = None\<close> is a new session.\<close>

definition defaults_view :: "'w outside \<Rightarrow> device \<Rightarrow> platform \<Rightarrow> nat option \<Rightarrow> string list \<Rightarrow> ('w, string option) io" where
  "defaults_view out d p conn fetches =
     bind (attempt (case conn of
             Some s \<Rightarrow> read_defaults out s p fetches
           | None \<Rightarrow> new_session out d p (\<lambda>s. read_defaults out s p fetches))) (\<lambda>r.
       case r of
         Inl e \<Rightarrow> andthen (say (ep d @ '': couldn't read the configuration with its defaults (''
                     @ first_line (exn_error e) @ '') - unproven commands stay so'') Tone_Warning False) (ret None)
       | Inr view \<Rightarrow>
           if defaults_max_lines < length (splitlines view) then
             andthen (say (ep d @ '': the configuration with its defaults is over '' @ show_nat defaults_max_lines
               @ '' lines - not judged'') Tone_Warning False) (ret None)
           else andthen (say (ep d @ '': read the configuration with its defaults for the unproven commands (''
               @ join '' / '' fetches @ '')'') Tone_Info False) (ret (Some view)))"

section \<open>Judging\<close>

definition saved_key :: "line list \<Rightarrow> path \<times> string \<Rightarrow> bool" where
  "saved_key saved k \<longleftrightarrow> k \<in> set (map key saved)"

definition check_saved :: "'w outside \<Rightarrow> device \<Rightarrow> platform \<Rightarrow> nat \<Rightarrow> outcome \<Rightarrow> ('w, unit) io" where
  "check_saved out d p s result =
     (if pl_show_saved p = [] \<or> o_added result = [] \<and> o_removed result = [] then ret ()
      else bind (attempt (read_saved out s p)) (\<lambda>r.
        case r of
          Inl e \<Rightarrow> say (ep d @ '': couldn't read the saved configuration to check the save (''
                     @ first_line (exn_error e) @ '')'') Tone_Error False
        | Inr text \<Rightarrow>
            (let saved = parse text (g_flat (pl_grammar p)) (g_navigation (pl_grammar p));
                 missing = map snd (filter (\<lambda>k. \<not> saved_key saved k) (o_added result));
                 kept = map snd (filter (saved_key saved) (o_removed result))
             in if missing = [] \<and> kept = [] then ret ()
                else need_action (ep d) (''the change is live but NOT saved - the saved configuration differs: ''
                  @ join '', '' (map (\<lambda>t. quoted t @ '' missing'') (take 5 missing)
                                 @ map (\<lambda>t. quoted t @ '' still there'') (take 5 kept))
                  @ ''. Save it on the device''))))"

text \<open>\<open>_judge\<close>: \<open>snap\<close> reads the configuration after the push, \<open>snap_again\<close> once more.\<close>

definition judge_push ::
    "'w outside \<Rightarrow> (string \<Rightarrow> string \<Rightarrow> string) \<Rightarrow> device \<Rightarrow> platform \<Rightarrow> string list \<Rightarrow> string
      \<Rightarrow> string list list \<Rightarrow> ('w, string option) io \<Rightarrow> ('w, string option) io \<Rightarrow> nat option
      \<Rightarrow> ('w, outcome option \<times> string option \<times> string option) io" where
  "judge_push out diff_of d p commands prior replies snap snap_again conn =
     bind snap (\<lambda>after_opt.
       case after_opt of
         None \<Rightarrow> ret (None, None, None)
       | Some after \<Rightarrow>
           (let g = pl_grammar p; said_to = map (\<lambda>r. r \<noteq> []) replies;
                first_outcome = judge g commands prior after None said_to None
            in bind (if o_other first_outcome = [] then ret None else snap_again) (\<lambda>again.
               let second = (if again = None then first_outcome else judge g commands prior after again said_to None);
                   fetches = (if unproven second = [] then [] else defaults_commands (pl_defaults p) (unproven second))
               in bind (if fetches = [] then ret None else defaults_view out d p conn fetches) (\<lambda>view.
                  let last_outcome = (if view = None then second else judge g commands prior after again said_to view)
                  in andthen (case conn of None \<Rightarrow> ret () | Some s \<Rightarrow> check_saved out d p s last_outcome)
                       (ret (Some last_outcome, Some (diff_of prior after), Some after))))))"

definition judged_result ::
    "string list list \<Rightarrow> outcome option \<times> string option \<times> string option \<Rightarrow> push_result" where
  "judged_result replies r = \<lparr>p_applied = True, p_sent = None, p_interrupted = False, p_replies = replies,
     p_outcome = fst r, p_diff = fst (snd r), p_after = snd (snd r)\<rparr>"

definition applied_result :: "string list list \<Rightarrow> push_result" where
  "applied_result replies = judged_result replies (None, None, None)"

definition failed_result :: "string list list \<Rightarrow> push_result" where
  "failed_result replies = not_applied\<lparr>p_replies := replies\<rparr>"

section \<open>A slow commit\<close>

definition commit_checks :: nat where "commit_checks = 5"
definition commit_check_every :: int where "commit_check_every = 300"

definition waited_text :: string where
  "waited_text = ''the commit didn't finish within 300s''"

definition config_keys :: "platform \<Rightarrow> string \<Rightarrow> (path \<times> string) list" where
  "config_keys p config = map key (parse config (g_flat (pl_grammar p)) (g_navigation (pl_grammar p)))"

text \<open>The checks from the \<open>k\<close>-th on, \<open>n\<close> of them left.\<close>

fun slow_checks ::
    "'w outside \<Rightarrow> (string \<Rightarrow> string \<Rightarrow> string) \<Rightarrow> device \<Rightarrow> platform \<Rightarrow> string list \<Rightarrow> string
      \<Rightarrow> string list list \<Rightarrow> nat \<Rightarrow> nat \<Rightarrow> ('w, push_result) io" where
  "slow_checks out diff_of d p commands prior replies k 0 =
     andthen (need_action (ep d) (waited_text @ '' and the configuration still hadn't changed 120s later - it failed or is still running: check on the device (reported as failed)''))
       (ret (failed_result replies))"
| "slow_checks out diff_of d p commands prior replies k (Suc n) =
     andthen (if k = 0 then ret () else sleep_io out commit_check_every)
       (bind (fetch_new out d p ''after the slow commit'') (\<lambda>after_opt.
          case after_opt of
            None \<Rightarrow> andthen (need_action (ep d) (waited_text @ '' - check on the device whether it went through (reported as failed)''))
                      (ret (failed_result replies))
          | Some after \<Rightarrow>
              if config_keys p after \<noteq> config_keys p prior then
                andthen (say (ep d @ '': '' @ waited_text @ '', and the configuration has changed since - judged by it'') Tone_Warning False)
                  (bind (judge_push out diff_of d p commands prior replies (ret (Some after))
                           (fetch_new out d p ''again, to tell the device's own changes apart'') None)
                     (\<lambda>r. ret (judged_result replies r)))
              else slow_checks out diff_of d p commands prior replies (Suc k) n))"

definition after_slow_commit ::
    "'w outside \<Rightarrow> (string \<Rightarrow> string \<Rightarrow> string) \<Rightarrow> device \<Rightarrow> platform \<Rightarrow> string list \<Rightarrow> string option
      \<Rightarrow> string list list \<Rightarrow> ('w, push_result) io" where
  "after_slow_commit out diff_of d p commands prior replies =
     (case prior of
        None \<Rightarrow> andthen (need_action (ep d) (waited_text @ '' - check on the device whether it went through (reported as failed)''))
                  (ret (failed_result replies))
      | Some b \<Rightarrow> slow_checks out diff_of d p commands b replies 0 commit_checks)"

section \<open>Finishing\<close>

definition finish_push :: "'w outside \<Rightarrow> device \<Rightarrow> platform \<Rightarrow> nat \<Rightarrow> ('w, bool) io" where
  "finish_push out d p s =
     andthen (before_finish out s (ep d) p)
       (bind (before_leave out s (ep d) (pl_finish p)) (\<lambda>took_effect.
          if \<not> took_effect then ret False
          else andthen (leave_config out s p)
            (bind (after_leave out s (pl_finish p)) (\<lambda>(answer, command).
               let told = (if command = [] then [] else one_line answer command) in
               andthen (if told = [] then ret ()
                        else say (ep d @ '': '' @ quoted command @ '' - the device replied: '' @ told) Tone_Info False)
                 (bind (unsaved out s p) (\<lambda>u.
                    andthen (case u of
                        None \<Rightarrow> ret ()
                      | Some (ask, state) \<Rightarrow>
                          need_action (ep d) (''the change is live but NOT saved - '' @ quoted ask @ '' answers ''
                            @ py_repr state @ (if told = [] then [] else '' after '' @ quoted command @ '' replied: '' @ told)
                            @ '' - save it on the device''))
                      (ret True)))))))"

definition finish_in_new_session :: "'w outside \<Rightarrow> device \<Rightarrow> platform \<Rightarrow> ('w, unit) io" where
  "finish_in_new_session out d p =
     bind (attempt (if pl_finish p = No_Finish then ret None
                    else bind (new_session out d p (\<lambda>s. after_leave out s (pl_finish p))) (\<lambda>r. ret (Some r)))) (\<lambda>r.
       case r of
         Inr None \<Rightarrow> say (ep d @ '': prompt changed after the push (e.g. a new hostname)'') Tone_Warning False
       | Inr (Some (answer, command)) \<Rightarrow>
           (let told = one_line answer command in
            say (ep d @ '': prompt changed after the push (e.g. a new hostname) - '' @ quoted command
              @ '' sent from a new session'' @ (if told = [] then [] else '' (the device replied: '' @ told @ '')''))
              Tone_Warning False)
       | Inl e \<Rightarrow>
           need_action (ep d) (''the change is live but NOT saved - save it on the device (the prompt changed after the push and saving from a new session failed: ''
             @ error_text (exn_error e) @ '')''))"

section \<open>Sending the commands\<close>

text \<open>\<open>_late_reply\<close>: what was printed after a command's prompt joins that command's reply.\<close>

definition late_reply ::
    "'w outside \<Rightarrow> device \<Rightarrow> platform \<Rightarrow> nat \<Rightarrow> string list list \<Rightarrow> string \<Rightarrow> int \<Rightarrow> ('w, string list list) io" where
  "late_reply out d p s replies command quiet =
     bind (late_output out s quiet) (\<lambda>late.
       if strip late = [] \<or> replies = [] then ret replies
       else bind (base_prompt out s) (\<lambda>prompt.
         let (told, events) = reply late command prompt (pl_events p) in
         andthen (say_events d events)
           (if told = [] then ret replies
            else andthen (say (ep d @ '': '' @ quoted (strip command) @ '' - the device replied: '' @ join '' | '' told) Tone_Warning False)
              (ret (butlast replies @ [last replies @ told])))))"

definition last_output :: "'w outside \<Rightarrow> device \<Rightarrow> platform \<Rightarrow> nat \<Rightarrow> string \<Rightarrow> ('w, string list) io" where
  "last_output out d p s command =
     bind (session_log out s) (\<lambda>log.
     bind (base_prompt out s) (\<lambda>prompt.
       let told = fst (reply log command prompt (pl_events p)) in
       andthen (if told = [] then ret ()
                else say (ep d @ '': '' @ quoted (strip command) @ '' - no prompt came back; the device's last output: ''
                       @ join '' | '' told) Tone_Warning False)
         (ret told)))"

text \<open>How far the push is: the commands sent, what was replied to them, the configuration before.\<close>

record progress =
  pg_sent :: nat
  pg_replies :: "string list list"
  pg_before :: "string option"

text \<open>One command: sent as typed; its reply, or - no prompt came back - its last output and the
  exception.\<close>

definition send_one ::
    "'w outside \<Rightarrow> device \<Rightarrow> platform \<Rightarrow> nat \<Rightarrow> bool \<Rightarrow> string \<Rightarrow> ('w, string list \<times> exn option) io" where
  "send_one out d p s verify command =
     andthen (clear_log out s)
       (bind (attempt (send out s (Send_Config (strip command) (pl_echo_whole p)))) (\<lambda>r.
          case r of
            Inl e \<Rightarrow>
              if exn_kind e = Read_Timeout
              then bind (last_output out d p s command) (\<lambda>told. ret (told, Some e))
              else throw e
          | Inr output \<Rightarrow>
              bind (base_prompt out s) (\<lambda>prompt.
                let (told, events) = reply output command prompt (pl_events p) in
                andthen (if told = [] then ret ()
                         else say (ep d @ '': '' @ quoted (strip command) @ '' - the device replied: '' @ join '' | '' told)
                                Tone_Warning (\<not> verify))
                  (andthen (say_events d events) (ret (told, None))))))"

text \<open>Between two commands: the late reply to the one before, and a progress line every five
  seconds (the clock in tenths of a second).\<close>

definition between ::
    "'w outside \<Rightarrow> device \<Rightarrow> platform \<Rightarrow> nat \<Rightarrow> nat \<Rightarrow> string option \<Rightarrow> progress \<Rightarrow> int \<times> nat
      \<Rightarrow> ('w, string list list \<times> int \<times> nat) io" where
  "between out d p s planned previous pg clock =
     (case previous of
        None \<Rightarrow> ret (pg_replies pg, clock)
      | Some command \<Rightarrow>
          bind (late_reply out d p s (pg_replies pg) command 0) (\<lambda>replies.
          bind (now out) (\<lambda>t.
            if 50 \<le> t - fst clock \<and> pg_sent pg \<noteq> snd clock then
              andthen (say (ep d @ '': pushing - '' @ show_nat (pg_sent pg) @ '' of '' @ show_nat planned @ '' sent'') Tone_Info False)
                (bind (now out) (\<lambda>t2. ret (replies, t2, pg_sent pg)))
            else ret (replies, clock))))"

text \<open>The loop over the commands: how far it got, and the exception that ended it, if any.\<close>

fun send_commands ::
    "'w outside \<Rightarrow> device \<Rightarrow> platform \<Rightarrow> nat \<Rightarrow> bool \<Rightarrow> nat \<Rightarrow> string list \<Rightarrow> string option \<Rightarrow> progress
      \<Rightarrow> int \<times> nat \<Rightarrow> ('w, progress \<times> exn option) io" where
  "send_commands out d p s verify planned [] previous pg clock = ret (pg, None)"
| "send_commands out d p s verify planned (command # rest) previous pg clock =
     bind (attempt (between out d p s planned previous pg clock)) (\<lambda>r.
       case r of
         Inl e \<Rightarrow> ret (pg, Some e)
       | Inr (replies, clock1) \<Rightarrow>
           (let pg1 = pg\<lparr>pg_sent := Suc (pg_sent pg), pg_replies := replies\<rparr> in
            bind (attempt (send_one out d p s verify command)) (\<lambda>r1.
              case r1 of
                Inl e \<Rightarrow> ret (pg1, Some e)
              | Inr (told, Some e) \<Rightarrow> ret (pg1\<lparr>pg_replies := replies @ [told]\<rparr>, Some e)
              | Inr (told, None) \<Rightarrow>
                  send_commands out d p s verify planned rest (Some command)
                    (pg1\<lparr>pg_replies := replies @ [told]\<rparr>) clock1)))"

section \<open>The push\<close>

text \<open>What the push ended with when no exception did.\<close>

definition judged_by ::
    "'w outside \<Rightarrow> (string \<Rightarrow> string \<Rightarrow> string) \<Rightarrow> device \<Rightarrow> platform \<Rightarrow> string list \<Rightarrow> progress
      \<Rightarrow> (string \<Rightarrow> ('w, string option) io) \<Rightarrow> nat option \<Rightarrow> ('w, push_result) io" where
  "judged_by out diff_of d p commands pg snap conn =
     (case pg_before pg of
        None \<Rightarrow> ret (applied_result (pg_replies pg))
      | Some prior \<Rightarrow>
          bind (judge_push out diff_of d p commands prior (pg_replies pg) (snap ''after the push'')
                  (snap ''again, to tell the device's own changes apart'') conn)
            (\<lambda>r. ret (judged_result (pg_replies pg) r)))"

text \<open>After every command was sent: finished, then judged.\<close>

definition finish_and_judge ::
    "'w outside \<Rightarrow> (string \<Rightarrow> string \<Rightarrow> string) \<Rightarrow> device \<Rightarrow> platform \<Rightarrow> nat \<Rightarrow> string list \<Rightarrow> progress
      \<Rightarrow> ('w, push_result) io" where
  "finish_and_judge out diff_of d p s commands pg =
     bind (attempt (finish_push out d p s)) (\<lambda>r.
       case r of
         Inl e \<Rightarrow>
           if exn_kind e = Commit_Pending
           then after_slow_commit out diff_of d p commands (pg_before pg) (pg_replies pg)
           else throw e
       | Inr took_effect \<Rightarrow>
           if \<not> took_effect then ret (failed_result (pg_replies pg))
           else judged_by out diff_of d p commands pg (snapshot out d p s) (Some s))"

text \<open>What happens in the open session: the progress, with the result or the exception.\<close>

definition keeping :: "progress \<Rightarrow> ('w, push_result) io \<Rightarrow> ('w, progress \<times> (exn + push_result)) io" where
  "keeping pg m = bind (attempt m) (\<lambda>r. ret (pg, r))"

definition after_commands ::
    "'w outside \<Rightarrow> (string \<Rightarrow> string \<Rightarrow> string) \<Rightarrow> device \<Rightarrow> platform \<Rightarrow> nat \<Rightarrow> string list \<Rightarrow> progress
      \<Rightarrow> ('w, progress \<times> (exn + push_result)) io" where
  "after_commands out diff_of d p s commands pg =
     bind (attempt (if commands = [] then ret (pg_replies pg)
                    else late_reply out d p s (pg_replies pg) (last commands) quiet_time)) (\<lambda>r.
       case r of
         Inl e \<Rightarrow> ret (pg, Inl e)
       | Inr replies \<Rightarrow>
           (let pg1 = pg\<lparr>pg_replies := replies\<rparr> in
            andthen (say (ep d @ '': pushed '' @ show_nat (pg_sent pg1) @ '' command''
                        @ (if pg_sent pg1 \<noteq> 1 then ''s'' else [])) Tone_Info False)
              (keeping pg1 (finish_and_judge out diff_of d p s commands pg1))))"

definition start_progress :: "string option \<Rightarrow> progress" where
  "start_progress prior = \<lparr>pg_sent = 0, pg_replies = [], pg_before = prior\<rparr>"

definition push_commands ::
    "'w outside \<Rightarrow> (string \<Rightarrow> string \<Rightarrow> string) \<Rightarrow> device \<Rightarrow> platform \<Rightarrow> nat \<Rightarrow> string list \<Rightarrow> bool
      \<Rightarrow> string option \<Rightarrow> ('w, progress \<times> (exn + push_result)) io" where
  "push_commands out diff_of d p s commands verify prior =
     bind (now out) (\<lambda>t.
     bind (send_commands out d p s verify (length commands) commands None (start_progress prior) (t, 0)) (\<lambda>(pg, stopped).
       case stopped of
         Some e \<Rightarrow> ret (pg, Inl e)
       | None \<Rightarrow> after_commands out diff_of d p s commands pg))"

text \<open>The session made ready, the configuration read, configuration mode entered; \<open>Inr (Some r)\<close>: the
  push ends there with \<open>r\<close>.\<close>

definition read_prior :: "'w outside \<Rightarrow> device \<Rightarrow> platform \<Rightarrow> nat \<Rightarrow> bool \<Rightarrow> ('w, string option) io" where
  "read_prior out d p s verify = (if verify then snapshot out d p s ''before the push'' else ret None)"

definition enter_or_stop ::
    "'w outside \<Rightarrow> device \<Rightarrow> platform \<Rightarrow> nat \<Rightarrow> string option \<Rightarrow> ('w, push_result option \<times> string option) io" where
  "enter_or_stop out d p s prior =
     bind (enter_config out s p) (\<lambda>refused.
       case refused of
         Some text \<Rightarrow> andthen (need_action (ep d) text) (ret (Some not_applied, prior))
       | None \<Rightarrow> ret (None, prior))"

definition make_ready ::
    "'w outside \<Rightarrow> device \<Rightarrow> platform \<Rightarrow> nat \<Rightarrow> bool \<Rightarrow> ('w, push_result option \<times> string option) io" where
  "make_ready out d p s verify =
     andthen (say (d_ip d @ '' connected successfully'') Tone_Success False)
     (bind (prepare out s p) (\<lambda>problem.
       case problem of
         Some text \<Rightarrow> andthen (need_action (ep d) (text @ '' (nothing was sent)'')) (ret (Some not_applied, None))
       | None \<Rightarrow> bind (read_prior out d p s verify) (enter_or_stop out d p s)))"

text \<open>An exception while the session is made ready leaves nothing sent: the progress is the start's.\<close>

definition push_session ::
    "'w outside \<Rightarrow> (string \<Rightarrow> string \<Rightarrow> string) \<Rightarrow> device \<Rightarrow> platform \<Rightarrow> nat \<Rightarrow> string list \<Rightarrow> bool
      \<Rightarrow> ('w, progress \<times> (exn + push_result)) io" where
  "push_session out diff_of d p s commands verify =
     bind (attempt (make_ready out d p s verify)) (\<lambda>r.
       case r of
         Inl e \<Rightarrow> ret (start_progress None, Inl e)
       | Inr (Some early, prior) \<Rightarrow> ret (start_progress prior, Inr early)
       | Inr (None, prior) \<Rightarrow> push_commands out diff_of d p s commands verify prior)"

definition stopped_answering :: "string list \<Rightarrow> progress \<Rightarrow> string" where
  "stopped_answering commands pg =
     (let sent = pg_sent pg; answered = sent - 1;
          last_said = (if pg_replies pg \<noteq> [] \<and> last (pg_replies pg) \<noteq> [] then join '' | '' (last (pg_replies pg)) else [])
      in ''stopped answering after '' @ quoted (strip (commands ! (sent - 1)))
         @ '' (command '' @ show_nat sent @ '' of '' @ show_nat (length commands)
         @ (if last_said \<noteq> [] then ''; its last output: '' @ last_said else []) @ ''): ''
         @ (if answered \<noteq> 0 then ''the '' @ show_nat answered @ '' before it ''
              @ (if answered = 1 then ''is'' else ''are'') @ '' live but NOT saved, '' else [])
         @ ''the '' @ show_nat (length commands - sent)
         @ '' after it weren't sent - check the device, then save the change or remove it'')"

definition interrupted_result :: "progress \<Rightarrow> push_result" where
  "interrupted_result pg = (failed_result (pg_replies pg))
     \<lparr>p_applied := 0 < pg_sent pg - 1, p_sent := Some (pg_sent pg), p_interrupted := True\<rparr>"

text \<open>The handlers of \<open>push\<close>, by the exception's class.\<close>

definition on_error ::
    "'w outside \<Rightarrow> (string \<Rightarrow> string \<Rightarrow> string) \<Rightarrow> device \<Rightarrow> platform \<Rightarrow> string list \<Rightarrow> progress \<Rightarrow> exn
      \<Rightarrow> ('w, push_result) io" where
  "on_error out diff_of d p commands pg e =
     (case exn_kind e of
        Host_Key_Refused \<Rightarrow> andthen (need_action (ep d) refused_reason) (ret not_applied)
      | Auth_Failed \<Rightarrow> andthen (say (d_ip d @ '' authentication failed'') Tone_Error False) (ret not_applied)
      | Connect_Timeout \<Rightarrow>
          andthen (say (d_ip d @ '' '' @ connect_failure (exn_error e)) Tone_Error False) (ret not_applied)
      | Enable_Failed \<Rightarrow>
          andthen (say (d_ip d @ '' couldn't enter enable mode ('' @ first_sentence (exn_error e)
              @ '') - check the security profile's enable secret'') Tone_Error False) (ret not_applied)
      | Read_Timeout \<Rightarrow>
          if 0 < pg_sent pg \<and> interruptible (pl_finish p) then
            (if pg_sent pg = length commands then
               andthen (finish_in_new_session out d p)
                 (judged_by out diff_of d p commands pg (fetch_new out d p) None)
             else andthen (need_action (ep d) (stopped_answering commands pg)) (ret (interrupted_result pg)))
          else andthen (say (d_ip d @ '' failed: '' @ first_line (exn_error e)) Tone_Error False)
                 (ret (failed_result (pg_replies pg)))
      | _ \<Rightarrow> andthen (say (d_ip d @ '' failed: '' @ first_line (exn_error e)) Tone_Error False)
               (ret (failed_result (pg_replies pg))))"

definition push_connected ::
    "'w outside \<Rightarrow> (string \<Rightarrow> string \<Rightarrow> string) \<Rightarrow> device \<Rightarrow> platform \<Rightarrow> string list \<Rightarrow> bool
      \<Rightarrow> ('w, push_result) io" where
  "push_connected out diff_of d p commands verify =
     bind (attempt (connect_device out d)) (\<lambda>r.
       case r of
         Inl e \<Rightarrow> on_error out diff_of d p commands (start_progress None) e
       | Inr s \<Rightarrow>
           bind (push_session out diff_of d p s commands verify) (\<lambda>(pg, ended).
             andthen (bind (attempt (send out s Disconnect)) (\<lambda>_. ret ()))
               (case ended of
                  Inr result \<Rightarrow> ret result
                | Inl e \<Rightarrow> on_error out diff_of d p commands pg e)))"

definition push ::
    "'w outside \<Rightarrow> (string \<Rightarrow> string \<Rightarrow> string) \<Rightarrow> device \<Rightarrow> platform \<Rightarrow> string list \<Rightarrow> bool
      \<Rightarrow> ('w, push_result) io" where
  "push out diff_of d p commands verify =
     andthen (say (''connecting to '' @ ep d) Tone_Warning False)
     (bind (if is_ip (device_host d) then ret True else resolves out (device_host d)) (\<lambda>known.
        if \<not> known then
          andthen (say (ep d @ '': can't resolve '' @ device_host d @ '' - check the name and the DNS this server uses'')
            Tone_Error False) (ret not_applied)
        else push_connected out diff_of d p commands verify))"

end
