(* ===== verification/Session_Policy.thy ===== *)
theory Session_Policy
  imports Session
begin

text \<open>
  Policies on the calls of a run: a reflexive, transitive relation between the runs before and
  after a computation that the quiet operations keep and the allowed calls extend. The locales state
  what a policy promises; their lemmas give, once for every policy, that the operations of the
  platforms and of the session keep it.
\<close>

definition keeps :: "('w run \<Rightarrow> 'w run \<Rightarrow> bool) \<Rightarrow> ('w, 'a) io \<Rightarrow> bool" where
  "keeps R m \<longleftrightarrow> (\<forall>st. R st (snd (m st)))"

lemma keepsD: "keeps R m \<Longrightarrow> m st = (r, st1) \<Longrightarrow> R st st1"
  unfolding keeps_def by (metis snd_conv)

lemma keeps_fst: "keeps R m \<Longrightarrow> R st (snd (m st))"
  unfolding keeps_def by blast

text \<open>The configuration lines a finish sends of its own: what shows the candidate, why a commit failed, and
  what discards it.\<close>

definition finish_words :: "finish \<Rightarrow> string set" where
  "finish_words f = (case f of
      Commit c \<Rightarrow> {co_pending c, co_why_failed c} \<union> set (co_discard c) | _ \<Rightarrow> {})"

abbreviation is_connect :: "call \<Rightarrow> bool" where
  "is_connect c \<equiv> \<exists>args. c = Connect args"

abbreviation no_config :: "call \<Rightarrow> bool" where
  "no_config c \<equiv> \<forall>x b. c \<noteq> Send_Config x b"

section \<open>Policies for the calls of open sessions\<close>

locale run_policy =
  fixes R :: "'w run \<Rightarrow> 'w run \<Rightarrow> bool"
    and ok :: "nat \<Rightarrow> call \<Rightarrow> bool"
  assumes quiet: "w_trace st' = w_trace st \<Longrightarrow> w_sessions st' = w_sessions st \<Longrightarrow> R st st'"
    and sends: "ok s c \<Longrightarrow> w_trace st' = w_trace st @ [(s, c)] \<Longrightarrow> w_sessions st' = w_sessions st \<Longrightarrow> R st st'"
    and steps: "R st st' \<Longrightarrow> R st' st'' \<Longrightarrow> R st st''"
begin

lemma keeps_quiet:
  "(\<And>st. w_trace (snd (m st)) = w_trace st \<and> w_sessions (snd (m st)) = w_sessions st) \<Longrightarrow> keeps R m"
  unfolding keeps_def by (blast intro: quiet)

lemma keeps_ret [policy_intros]: "keeps R (ret x)"
  by (rule keeps_quiet) (simp add: ret_def)

lemma keeps_throw [policy_intros]: "keeps R (throw e)"
  by (rule keeps_quiet) (simp add: throw_def)

lemma keeps_bind [policy_intros]:
  assumes "keeps R m" "\<And>x. keeps R (f x)"
  shows "keeps R (bind m f)"
  unfolding keeps_def
proof
  fix st
  obtain r st1 where m: "m st = (r, st1)" by fastforce
  show "R st (snd (bind m f st))"
  proof (cases r)
    case (Inl e)
    then show ?thesis using m keepsD [OF assms(1) m] by (simp add: bind_def)
  next
    case (Inr x)
    then show ?thesis using m steps [OF keepsD [OF assms(1) m] keeps_fst [OF assms(2), of st1 x]]
      by (simp add: bind_def)
  qed
qed

lemma keeps_andthen [policy_intros]: "keeps R m \<Longrightarrow> keeps R k \<Longrightarrow> keeps R (andthen m k)"
  unfolding andthen_def by (rule keeps_bind)

lemma keeps_attempt [policy_intros]: "keeps R m \<Longrightarrow> keeps R (attempt m)"
  by (simp add: keeps_def attempt_def split_beta)

lemma keeps_handle [policy_intros]:
  "keeps R m \<Longrightarrow> (\<And>e. keeps R (h e)) \<Longrightarrow> keeps R (handle m h)"
  unfolding handle_def by (intro keeps_bind keeps_attempt) (auto intro: keeps_ret split: sum.split)

lemma keeps_with_cleanup [policy_intros]:
  "keeps R m \<Longrightarrow> keeps R c \<Longrightarrow> keeps R (with_cleanup m c)"
  unfolding with_cleanup_def
  by (intro keeps_bind keeps_attempt keeps_andthen) (auto intro: keeps_ret keeps_throw split: sum.split)

lemma keeps_send [policy_intros]: "ok s c \<Longrightarrow> keeps R (send out s c)"
  unfolding keeps_def by (auto simp: send_def split_beta intro!: sends [of s c])

lemma keeps_reads [policy_intros]:
  "keeps R (say text t important)" "keeps R (need_action e what)"
  "keeps R (base_prompt out s)" "keeps R (vdoms out s)" "keeps R (session_log out s)"
  "keeps R (clear_log out s)" "keeps R (now out)" "keeps R (resolves out host)" "keeps R (sleep_io out time)"
  by (rule keeps_quiet; simp add: say_def need_action_def base_prompt_def vdoms_def session_log_def
      clear_log_def now_def resolves_def sleep_io_def split_beta)+

lemma keeps_late [policy_intros]: "keeps R (late_output out s quiet)"
  by (rule keeps_quiet) (simp add: late_output_def split: prod.split sum.split)

lemma keeps_if [policy_intros]: "(b \<Longrightarrow> keeps R m) \<Longrightarrow> (\<not> b \<Longrightarrow> keeps R k) \<Longrightarrow> keeps R (if b then m else k)"
  by simp

lemma keeps_option [policy_intros]:
  "keeps R m \<Longrightarrow> (\<And>x. keeps R (f x)) \<Longrightarrow> keeps R (case v of None \<Rightarrow> m | Some x \<Rightarrow> f x)"
  by (cases v) simp_all

lemma keeps_pair [policy_intros]: "(\<And>x y. keeps R (f x y)) \<Longrightarrow> keeps R (case v of (x, y) \<Rightarrow> f x y)"
  by (cases v) simp_all

lemma keeps_sum [policy_intros]:
  "(\<And>x. keeps R (f x)) \<Longrightarrow> (\<And>x. keeps R (g x)) \<Longrightarrow> keeps R (case v of Inl x \<Rightarrow> f x | Inr x \<Rightarrow> g x)"
  by (cases v) simp_all

lemma keeps_list [policy_intros]:
  "keeps R m \<Longrightarrow> (\<And>x xs. keeps R (f x xs)) \<Longrightarrow> keeps R (case v of [] \<Rightarrow> m | x # xs \<Rightarrow> f x xs)"
  by (cases v) simp_all

lemma keeps_let [policy_intros]: "(\<And>x. keeps R (f x)) \<Longrightarrow> keeps R (let x = v in f x)"
  by simp

lemma keeps_finish [policy_intros]:
  "keeps R a \<Longrightarrow> (\<And>x. keeps R (b x)) \<Longrightarrow> keeps R k \<Longrightarrow> (\<And>x. keeps R (c x))
   \<Longrightarrow> keeps R (case v of Save_Config \<Rightarrow> a | Run_Command x \<Rightarrow> b x | No_Finish \<Rightarrow> k | Commit x \<Rightarrow> c x)"
  by (cases v) simp_all

lemma keeps_kind [policy_intros]:
  "keeps R a \<Longrightarrow> keeps R b \<Longrightarrow> keeps R c \<Longrightarrow> keeps R k \<Longrightarrow> keeps R e \<Longrightarrow> keeps R f \<Longrightarrow> keeps R g \<Longrightarrow> keeps R h
   \<Longrightarrow> keeps R (case v of K_Base \<Rightarrow> a | K_PanOS \<Rightarrow> b | K_IosXr \<Rightarrow> c | K_Comware \<Rightarrow> k | K_Gaia \<Rightarrow> e
          | K_Junos \<Rightarrow> f | K_AosCx \<Rightarrow> g | K_FortiOS \<Rightarrow> h)"
  by (cases v) simp_all

text \<open>The platforms' operations: what they send decides.\<close>

lemma keeps_read_whole [policy_intros]:
  "(\<And>x. ok s (Send_Command x)) \<Longrightarrow> keeps R (read_whole out s command)"
  unfolding read_whole_def by (intro policy_intros)

lemma keeps_read_commands [policy_intros]:
  "(\<And>x. ok s (Send_Command x)) \<Longrightarrow> keeps R (read_commands out s o1 cs)"
  by (induction cs arbitrary: o1) (simp_all add: policy_intros)

lemma keeps_read_config [policy_intros]:
  "\<lbrakk>\<And>x. ok s (Send_Command x); \<And>x. ok s (Config_Mode x); ok s Exit_Config_Mode\<rbrakk> \<Longrightarrow> keeps R (read_config out s p)"
  unfolding read_config_def by (intro policy_intros)

lemma keeps_read_saved [policy_intros]:
  "(\<And>x. ok s (Send_Command x)) \<Longrightarrow> keeps R (read_saved out s p)"
  unfolding read_saved_def by (intro policy_intros)

lemma keeps_read_defaults [policy_intros]:
  assumes "\<And>x. ok s (Send_Command x)"
  shows "keeps R (read_defaults out s p fetches)"
proof -
  have "keeps R (read_views out s p fetches)"
    by (induction fetches) (auto intro!: policy_intros assms)
  then show ?thesis unfolding read_defaults_def by (intro policy_intros)
qed

lemma keeps_prepare [policy_intros]:
  "\<lbrakk>\<And>x. ok s (Send_Command x); \<And>x. ok s (Send_Timing x); ok s Find_Prompt; ok s Set_Base_Prompt; ok s Enable\<rbrakk>
   \<Longrightarrow> keeps R (prepare out s p)"
  unfolding prepare_def gaia_prepare_def enable_session_def by (intro policy_intros)

lemma keeps_enter_config [policy_intros]:
  "(\<And>x. ok s (Config_Mode x)) \<Longrightarrow> keeps R (enter_config out s p)"
  unfolding enter_config_def by (intro policy_intros)

lemma keeps_commit [policy_intros]:
  assumes "\<And>x. x \<in> finish_words (Commit c) \<Longrightarrow> ok s (Send_Config x True)" "\<And>q. no_config q \<Longrightarrow> ok s q"
  shows "keeps R (commit_before_leave out s e c)"
proof -
  have own: "ok s (Send_Config (co_pending c) True)" "ok s (Send_Config (co_why_failed c) True)"
      "x \<in> set (co_discard c) \<Longrightarrow> ok s (Send_Config x True)"
      "ok s (Send_Command t)" "ok s Commit_Call" "ok s Exit_Config_Mode" for x t
    by (auto intro: assms simp: finish_words_def)
  have "keeps R (send_discards out s prompt cs)" if "set cs \<subseteq> set (co_discard c)" for prompt cs
    using that by (induction cs) (auto intro!: policy_intros own)
  moreover have "keeps R (report_left e c discarded left)" for discarded left
    unfolding report_left_def by (cases left) (auto intro!: policy_intros)
  ultimately have "keeps R (discard_candidate out s e c prompt)" for prompt
    unfolding discard_candidate_def commit_left_def by (intro policy_intros own) auto
  then have "keeps R (failed_commit out s e c er)" for er
    unfolding failed_commit_def commit_why_def by (intro policy_intros own)
  moreover have "keeps R (commit_now out s c)"
    unfolding commit_now_def commit_by_pending_def commit_left_def by (intro policy_intros own)
  ultimately show ?thesis
    unfolding commit_before_leave_def commit_left_def by (intro policy_intros own)
qed

lemma keeps_before_leave [policy_intros]:
  assumes "\<And>x. x \<in> finish_words f \<Longrightarrow> ok s (Send_Config x True)" "\<And>q. no_config q \<Longrightarrow> ok s q"
  shows "keeps R (before_leave out s e f)"
  unfolding before_leave_def using assms by (cases f) (auto intro!: policy_intros)

lemma keeps_after_leave [policy_intros]:
  "(\<And>x. ok s (Send_Command x)) \<Longrightarrow> ok s Save_Config_Call \<Longrightarrow> keeps R (after_leave out s f)"
  unfolding after_leave_def by (intro policy_intros)

lemma keeps_close_open_blocks [policy_intros]:
  "ok s Find_Prompt \<Longrightarrow> (\<And>x. ok s (Send_Timing x)) \<Longrightarrow> keeps R (close_open_blocks out s n)"
  by (induction n) (auto intro!: policy_intros)

lemma keeps_before_finish [policy_intros]:
  "ok s Find_Prompt \<Longrightarrow> (\<And>x. ok s (Send_Timing x)) \<Longrightarrow> keeps R (before_finish out s e p)"
  unfolding before_finish_def fortios_save_def by (intro policy_intros)

lemma keeps_leave_config [policy_intros]:
  "(\<And>x. ok s (Send_Timing x)) \<Longrightarrow> ok s Exit_Config_Mode \<Longrightarrow> keeps R (leave_config out s p)"
  unfolding leave_config_def by (intro policy_intros)

lemma keeps_unsaved [policy_intros]: "(\<And>x. ok s (Send_Command x)) \<Longrightarrow> keeps R (unsaved out s p)"
  unfolding unsaved_def by (intro policy_intros)

text \<open>The session's operations in an open session \<open>s\<close>.\<close>

lemma keeps_say_events [policy_intros]: "keeps R (say_events d events)"
proof -
  have "keeps R (say_all ls)" for ls by (induction ls) (auto intro!: policy_intros)
  then show ?thesis unfolding say_events_def .
qed

lemma keeps_close_session [policy_intros]: "ok s Disconnect \<Longrightarrow> keeps R (close_session out s)"
  unfolding close_session_def by (intro policy_intros)

lemma keeps_snapshot [policy_intros]:
  "\<lbrakk>\<And>x. ok s (Send_Command x); \<And>x. ok s (Config_Mode x); ok s Exit_Config_Mode\<rbrakk> \<Longrightarrow> keeps R (snapshot out d p s why)"
  unfolding snapshot_def by (intro policy_intros)

lemma keeps_check_saved [policy_intros]:
  "(\<And>x. ok s (Send_Command x)) \<Longrightarrow> keeps R (check_saved out d p s result)"
  unfolding check_saved_def by (intro policy_intros)

lemma keeps_finish_push [policy_intros]:
  "\<lbrakk>\<And>x. x \<in> finish_words (pl_finish p) \<Longrightarrow> ok s (Send_Config x True); \<And>q. no_config q \<Longrightarrow> ok s q\<rbrakk>
   \<Longrightarrow> keeps R (finish_push out d p s)"
  unfolding finish_push_def by (intro policy_intros) auto

lemma keeps_late_reply [policy_intros]: "keeps R (late_reply out d p s replies command quiet_for)"
  unfolding late_reply_def by (intro policy_intros)

lemma keeps_last_output [policy_intros]: "keeps R (last_output out d p s command)"
  unfolding last_output_def by (intro policy_intros)

lemma keeps_send_one [policy_intros]:
  "(\<And>x b. ok s (Send_Config x b)) \<Longrightarrow> keeps R (send_one out d p s verify command)"
  unfolding send_one_def by (intro policy_intros)

lemma keeps_between [policy_intros]: "keeps R (between out d p s planned previous pg clock)"
  unfolding between_def by (intro policy_intros)

lemma keeps_send_commands [policy_intros]:
  assumes "\<And>x b. ok s (Send_Config x b)"
  shows "keeps R (send_commands out d p s verify planned commands previous pg clock)"
proof (induction commands arbitrary: previous pg clock)
  case (Cons command commands)
  show ?case unfolding send_commands.simps by (intro policy_intros assms Cons.IH)
qed (simp add: policy_intros)

lemma keeps_make_ready [policy_intros]:
  "\<lbrakk>\<And>x. ok s (Send_Command x); \<And>x. ok s (Send_Timing x); ok s Find_Prompt; ok s Set_Base_Prompt; ok s Enable;
    \<And>x. ok s (Config_Mode x); ok s Exit_Config_Mode\<rbrakk> \<Longrightarrow> keeps R (make_ready out d p s verify)"
  unfolding make_ready_def read_prior_def enter_or_stop_def by (intro policy_intros)

end

section \<open>Policies for computations that open sessions\<close>

text \<open>The calls of one session from its opening: it couldn't be opened, or it is closed at the end.\<close>

definition whole_session :: "call list \<Rightarrow> bool" where
  "whole_session cs \<longleftrightarrow> list_all (\<lambda>c. \<exists>args. c = Connect args) cs \<or> cs \<noteq> [] \<and> last cs = Disconnect"

locale session_policy = run_policy +
  assumes whole: "whole_session cs \<Longrightarrow> list_all (\<lambda>c. \<forall>x b. c \<noteq> Send_Config x b) cs
    \<Longrightarrow> w_trace st' = w_trace st @ map (Pair (w_sessions st)) cs
    \<Longrightarrow> w_sessions st' = Suc (w_sessions st) \<Longrightarrow> R st st'"

text \<open>The calls of one session \<open>s\<close>, of kind \<open>Q\<close>, and no other.\<close>

definition only_calls :: "nat \<Rightarrow> (call \<Rightarrow> bool) \<Rightarrow> 'w run \<Rightarrow> 'w run \<Rightarrow> bool" where
  "only_calls s Q st st' \<longleftrightarrow> w_sessions st' = w_sessions st
     \<and> (\<exists>cs. w_trace st' = w_trace st @ map (Pair s) cs \<and> list_all Q cs)"

interpretation only: run_policy "only_calls s Q" "\<lambda>n c. n = s \<and> Q c" for s Q
proof
  fix st st' :: "'w run"
  assume "w_trace st' = w_trace st" "w_sessions st' = w_sessions st"
  then show "only_calls s Q st st'" by (auto simp: only_calls_def intro!: exI [of _ "[]"])
next
  fix n c and st st' :: "'w run"
  assume "n = s \<and> Q c" "w_trace st' = w_trace st @ [(n, c)]" "w_sessions st' = w_sessions st"
  then show "only_calls s Q st st'" by (auto simp: only_calls_def intro!: exI [of _ "[c]"])
next
  fix st st' st'' :: "'w run"
  assume "only_calls s Q st st'" "only_calls s Q st' st''"
  then obtain cs cs' where "w_sessions st'' = w_sessions st"
      "w_trace st'' = w_trace st @ map (Pair s) (cs @ cs')" "list_all Q (cs @ cs')"
    unfolding only_calls_def by auto
  then show "only_calls s Q st st''" unfolding only_calls_def by blast
qed

text \<open>Opening a session: only connection attempts, under the next number.\<close>

lemma connect_twice_only: "keeps (only_calls s is_connect) (connect_twice out s args)"
  unfolding connect_twice_def by (intro policy_intros) auto

lemma refuse_only: "keeps (only_calls s Q) (refuse out pol e offered er)"
  by (rule only.keeps_quiet) (simp add: refuse_def throw_def)

lemma connect_loop_only: "only_calls s is_connect st (snd (connect_loop out pol host_name e s ck st))"
proof (induction out pol host_name e s ck st rule: connect_loop.induct)
  case (1 out pol host_name e s ck st)
  obtain r st1 where m: "connect_twice out s (check_args pol host_name ck) st = (r, st1)" by fastforce
  from keepsD [OF connect_twice_only m] have first: "only_calls s is_connect st st1" .
  show ?case
  proof (cases r)
    case (Inl er)
    show ?thesis
    proof (cases "refused_key (exn_error er)")
      case (Some offered)
      show ?thesis
      proof (cases "alternative pol ck offered")
        case None
        then show ?thesis using first m Inl Some
            only.steps [OF first keeps_fst [OF refuse_only, where st = st1]]
          by (simp add: connect_loop.simps)
      next
        case ck1: (Some ck1)
        from "1.IH" [OF m [symmetric] Inl Some ck1] only.steps [OF first] m Inl Some ck1 show ?thesis
          by (simp add: connect_loop.simps [of out pol host_name e s ck st])
      qed
    qed (use first m Inl in \<open>simp add: connect_loop.simps\<close>)
  qed (use first m in \<open>simp add: connect_loop.simps\<close>)
qed

lemma connect_loop_keeps [policy_intros]: "keeps (only_calls s is_connect) (connect_loop out pol host_name e s ck)"
  unfolding keeps_def by (blast intro: connect_loop_only)

lemma after_connect_keeps [policy_intros]: "keeps (only_calls s Q) (after_connect out pol s)"
  by (rule only.keeps_quiet) (simp add: after_connect_def Let_def)

lemma open_session_calls:
  assumes "open_session out host_name e st = (r, st1)"
  shows "w_sessions st1 = Suc (w_sessions st)
    \<and> (\<exists>cs. w_trace st1 = w_trace st @ map (Pair (w_sessions st)) cs \<and> list_all is_connect cs)
    \<and> (\<forall>s. r = Inr s \<longrightarrow> s = w_sessions st)"
proof -
  let ?s = "w_sessions st" and ?pol = "w_policy st" and ?st0 = "st\<lparr>w_sessions := Suc (w_sessions st)\<rparr>"
  let ?m = "andthen (connect_loop out ?pol host_name e ?s (start_check ?pol))
              (andthen (after_connect out ?pol ?s) (ret ?s))"
  have run: "?m ?st0 = (r, st1)" using assms by (simp add: open_session_def bind_def new_number_def)
  have "keeps (only_calls ?s is_connect) ?m" by (intro policy_intros)
  from keepsD [OF this run] have "only_calls ?s is_connect ?st0 st1" .
  moreover have "\<forall>s. r = Inr s \<longrightarrow> s = ?s"
    using run by (auto simp: andthen_def bind_def ret_def split: prod.splits sum.splits)
  ultimately show ?thesis by (auto simp: only_calls_def)
qed

lemma list_all_impI: "list_all P cs \<Longrightarrow> (\<And>c. P c \<Longrightarrow> Q c) \<Longrightarrow> list_all Q cs"
  by (simp add: list_all_iff)

lemma close_session_run:
  "\<exists>r w. close_session out s st = (r, st\<lparr>w_world := w, w_trace := w_trace st @ [(s, Disconnect)]\<rparr>)"
proof -
  obtain r w where "o_call out s Disconnect (w_world st) = (r, w)" by fastforce
  then show ?thesis
    by (cases r) (auto simp: close_session_def andthen_def bind_def ret_def send_def)
qed

lemma cleanup_state: "snd (with_cleanup m c st) = snd (c (snd (m st)))"
proof -
  obtain r st1 where "m st = (r, st1)" by fastforce
  moreover obtain r2 st2 where "c st1 = (r2, st2)" by fastforce
  ultimately show ?thesis
    by (auto simp: with_cleanup_def bind_def attempt_def andthen_def throw_def ret_def split: sum.split)
qed

lemma new_session_calls:
  assumes "\<And>s. keeps (only_calls s no_config) (body s)"
  shows "\<exists>cs. whole_session cs \<and> list_all no_config cs
    \<and> w_trace (snd (new_session out d p body st)) = w_trace st @ map (Pair (w_sessions st)) cs
    \<and> w_sessions (snd (new_session out d p body st)) = Suc (w_sessions st)"
proof -
  obtain r st1 where o1: "connect_device out d st = (r, st1)" by fastforce
  from open_session_calls [OF o1 [unfolded connect_device_def]] obtain cs where
    cs: "w_sessions st1 = Suc (w_sessions st)" "w_trace st1 = w_trace st @ map (Pair (w_sessions st)) cs"
      "list_all is_connect cs" "\<forall>s. r = Inr s \<longrightarrow> s = w_sessions st" by blast
  have quiet_cs: "list_all no_config cs" by (rule list_all_impI [OF cs(3)]) auto
  show ?thesis
  proof (cases r)
    case (Inl e)
    then have "new_session out d p body st = (Inl e, st1)" using o1 by (simp add: new_session_def bind_def)
    then show ?thesis using cs quiet_cs by (auto simp: whole_session_def)
  next
    case (Inr s)
    let ?m = "bind (prepare out s p) (\<lambda>problem.
            case problem of
              Some text \<Rightarrow> throw (Exn Other_Exn (plain_error ''RuntimeError'' text))
            | None \<Rightarrow> body s)"
    have "keeps (only_calls s no_config) ?m" by (intro policy_intros assms) auto
    then have "only_calls s no_config st1 (snd (?m st1))" by (rule keeps_fst)
    then obtain us where us: "w_sessions (snd (?m st1)) = w_sessions st1"
        "w_trace (snd (?m st1)) = w_trace st1 @ map (Pair s) us" "list_all no_config us"
      unfolding only_calls_def by auto
    obtain st2 where st2: "snd (?m st1) = st2" by simp
    obtain r2 w where fin: "close_session out s st2 = (r2, st2\<lparr>w_world := w, w_trace := w_trace st2 @ [(s, Disconnect)]\<rparr>)"
      using close_session_run [of out s st2] by blast
    have "snd (new_session out d p body st)
        = st2\<lparr>w_world := w, w_trace := w_trace st2 @ [(s, Disconnect)]\<rparr>"
      using o1 Inr fin st2 by (simp add: new_session_def bind_def [of "connect_device out d"] cleanup_state)
    then show ?thesis using cs us [unfolded st2] quiet_cs Inr
      by (auto simp: whole_session_def intro!: exI [of _ "cs @ us @ [Disconnect]"])
  qed
qed

context session_policy
begin

lemma keeps_new_session [policy_intros]:
  assumes "\<And>s. keeps (only_calls s no_config) (body s)"
  shows "keeps R (new_session out d p body)"
  unfolding keeps_def using new_session_calls [OF assms] whole by metis

lemma keeps_fetch_new [policy_intros]: "keeps R (fetch_new out d p why)"
  unfolding fetch_new_def by (intro policy_intros) auto

lemma keeps_defaults_view [policy_intros]:
  assumes "\<And>s x. conn = Some s \<Longrightarrow> ok s (Send_Command x)"
  shows "keeps R (defaults_view out d p conn fetches)"
  unfolding defaults_view_def by (cases conn; simp only: option.case; intro policy_intros) (auto intro: assms)

lemma keeps_finish_in_new_session [policy_intros]: "keeps R (finish_in_new_session out d p)"
  unfolding finish_in_new_session_def by (intro policy_intros) auto

lemma keeps_judge_push [policy_intros]:
  assumes "keeps R snap" "keeps R snap_again" "\<And>s x. conn = Some s \<Longrightarrow> ok s (Send_Command x)"
  shows "keeps R (judge_push out diff_of d p commands prior replies snap snap_again conn)"
  unfolding judge_push_def
  by (cases conn; simp only: option.case; intro policy_intros assms(1,2)) (auto intro: assms(3))

lemma keeps_after_slow_commit [policy_intros]:
  "keeps R (after_slow_commit out diff_of d p commands prior replies)"
proof -
  have "keeps R (slow_checks out diff_of d p commands b replies k n)" for b k n
  proof (induction n arbitrary: k)
    case (Suc n)
    show ?case unfolding slow_checks.simps by (intro policy_intros Suc.IH) auto
  qed (auto intro!: policy_intros)
  then show ?thesis unfolding after_slow_commit_def by (intro policy_intros)
qed

lemma keeps_judged_by [policy_intros]:
  assumes "\<And>why. keeps R (snap why)" "\<And>s x. conn = Some s \<Longrightarrow> ok s (Send_Command x)"
  shows "keeps R (judged_by out diff_of d p commands pg snap conn)"
  unfolding judged_by_def by (intro policy_intros assms)

lemma keeps_finish_and_judge [policy_intros]:
  assumes "\<And>x. x \<in> finish_words (pl_finish p) \<Longrightarrow> ok s (Send_Config x True)" "\<And>q. no_config q \<Longrightarrow> ok s q"
  shows "keeps R (finish_and_judge out diff_of d p s commands pg)"
  unfolding finish_and_judge_def by (intro policy_intros assms) (auto intro: assms)

lemma keeps_after_commands [policy_intros]:
  assumes "\<And>x. x \<in> finish_words (pl_finish p) \<Longrightarrow> ok s (Send_Config x True)" "\<And>q. no_config q \<Longrightarrow> ok s q"
  shows "keeps R (after_commands out diff_of d p s commands pg)"
  unfolding after_commands_def keeping_def by (intro policy_intros assms) auto

lemma keeps_push_session [policy_intros]:
  assumes "\<And>c. ok s c"
  shows "keeps R (push_session out diff_of d p s commands verify)"
  unfolding push_session_def push_commands_def by (intro policy_intros assms)

lemma keeps_on_error [policy_intros]: "keeps R (on_error out diff_of d p commands pg e)"
proof -
  have "keeps R (judged_by out diff_of d p commands pg (fetch_new out d p) None)"
    by (intro policy_intros) auto
  then show ?thesis unfolding on_error_def by (cases "exn_kind e") (auto intro!: policy_intros)
qed

end

end
