(* ===== verification/Platform_Properties.thy ===== *)
theory Platform_Properties
  imports Session_Policy
begin

text \<open>What holds of the platforms: what counts as a device's answer, what the rows of the table agree on,
  what a commit with nothing to commit sends, and which keys a connection is tried with.\<close>

section \<open>What counts as an answer\<close>

lemma reply_row_Some:
  "reply_row sent base_name events row = Some (e, t) \<Longrightarrow>
     t = strip row \<and> t \<noteq> [] \<and> e = rx_matches_start events t \<and> (t = sent \<longrightarrow> sent = [])
     \<and> \<not> rx_matches_start context_shape t \<and> \<not> rx_matches_start progress_shape t
     \<and> \<not> list_all (\<lambda>c. c = CHR 0x5E) t"
  by (auto simp: reply_row_def Let_def split: if_splits)

text \<open>What a device is said to have answered to a command are lines it printed, stripped, none of them
  blank, the command's own echo, a progress bar, a context banner or an error pointer; the lines that have
  the shape of a device event are the events, and only those.\<close>

theorem reply_only_answers:
  "let (told, events) = reply printed command prompt shapes in
     list_all (\<lambda>l. l \<in> strip ` set (splitlines printed) \<and> l \<noteq> [] \<and> l \<noteq> strip command
       \<and> \<not> rx_matches_start context_shape l \<and> \<not> rx_matches_start progress_shape l
       \<and> \<not> list_all (\<lambda>c. c = CHR 0x5E) l \<and> (l \<in> set events \<longleftrightarrow> rx_matches_start shapes l)
       \<and> (l \<in> set told \<longleftrightarrow> \<not> rx_matches_start shapes l)) (told @ events)"
proof -
  let ?row = "reply_row (strip command) (strip prompt) shapes"
  have row: "t \<in> strip ` set (splitlines printed) \<and> t \<noteq> [] \<and> t \<noteq> strip command
       \<and> \<not> rx_matches_start context_shape t \<and> \<not> rx_matches_start progress_shape t
       \<and> \<not> list_all (\<lambda>c. c = CHR 0x5E) t \<and> e = rx_matches_start shapes t"
    if "(e, t) \<in> set (List.map_filter ?row (splitlines printed))" for e t
  proof -
    from that obtain r where "r \<in> set (splitlines printed)" "?row r = Some (e, t)"
      by (auto simp: List.map_filter_def)
    then show ?thesis using reply_row_Some [of "strip command" "strip prompt" shapes r e t] by auto
  qed
  then show ?thesis unfolding reply_def Let_def prod.case list_all_iff by fastforce
qed

section \<open>The table\<close>

text \<open>The first word of a command that only shows something.\<close>

definition shows_only :: "string \<Rightarrow> bool" where
  "shows_only command \<longleftrightarrow> (case split_ws command of w # _ \<Rightarrow> w = ''show'' \<or> w = ''display'' | [] \<Rightarrow> False)"

definition fetch_shows_only :: "defaults_fetch \<Rightarrow> bool" where
  "fetch_shows_only f = (case f of Whole_Config c \<Rightarrow> shows_only c | _ \<Rightarrow> True)"

lemma shows_onlyI: "prefix ''show '' c \<or> prefix ''display '' c \<Longrightarrow> shows_only c"
proof -
  have "shows_only (w @ CHR '' '' # rest)" if "w \<in> {''show'', ''display''}" for w rest
  proof -
    have "split_ws (w @ CHR '' '' # rest) = w # split_ws rest"
      unfolding split_ws_def using that by (intro fields_word_sep) (auto simp: is_space_def code_point_def Let_def)
    then show ?thesis using that by (simp add: shows_only_def)
  qed
  from this [of "''show''"] this [of "''display''"] show "prefix ''show '' c \<or> prefix ''display '' c \<Longrightarrow> shows_only c"
    by (auto simp: prefix_def)
qed

lemma shows_only_show: "shows_only ''show''"
proof -
  have "split_ws ''show'' = [''show'']" unfolding split_ws_def by (rule fields_word) (auto simp: is_space_def code_point_def Let_def)
  then show ?thesis by (simp add: shows_only_def)
qed

lemma fortios_block_shows: "fortios_block sec = Some c \<Longrightarrow> shows_only c"
  by (rule shows_onlyI) (auto simp: fortios_block_def Let_def prefix_def split: if_splits list.splits)

lemma defaults_show_only: "fetch_shows_only f \<Longrightarrow> c \<in> set (defaults_commands f sections) \<Longrightarrow> shows_only c"
  by (cases f) (auto simp: fetch_shows_only_def fortios_blocks_def List.map_filter_def
      intro: fortios_block_shows)

lemma rows_fetch_shows: "list_all (\<lambda>(_, p). fetch_shows_only (pl_defaults p)
    \<and> list_all shows_only (pl_show_config p) \<and> (pl_show_saved p = [] \<or> shows_only (pl_show_saved p))) platforms"
  by (simp add: platforms_def rows row_parts fetch_shows_only_def shows_onlyI shows_only_show)

text \<open>Of every supported platform: whatever is sent to read its configuration, its saved configuration
  or its defaults view starts with a show or display command; its removal words are neither navigation nor
  exec words; and one that must commit has no separate saved configuration to check.\<close>

theorem platform_rows_sound:
  "list_all (\<lambda>(n, p).
     list_all shows_only (pl_show_config p) \<and> (pl_show_saved p = [] \<or> shows_only (pl_show_saved p))
     \<and> (\<forall>sections. list_all shows_only (defaults_commands (pl_defaults p) sections))
     \<and> grammar_disjoint (pl_grammar p) \<and> commit_is_the_save p) platforms"
proof -
  have "list_all shows_only (pl_show_config p) \<and> (pl_show_saved p = [] \<or> shows_only (pl_show_saved p))
     \<and> (\<forall>sections. list_all shows_only (defaults_commands (pl_defaults p) sections))
     \<and> grammar_disjoint (pl_grammar p) \<and> commit_is_the_save p" if "(n, p) \<in> set platforms" for n p
  proof -
    from that have "fetch_shows_only (pl_defaults p)" "list_all shows_only (pl_show_config p)"
      "pl_show_saved p = [] \<or> shows_only (pl_show_saved p)" "grammar_disjoint (pl_grammar p)" "commit_is_the_save p"
      using rows_fetch_shows rows_disjoint rows_commit_is_the_save by (auto simp: list_all_iff)
    then show ?thesis using defaults_show_only by (auto simp: list_all_iff)
  qed
  then show ?thesis unfolding list_all_iff by auto
qed

end
