(* ===== verification/Session_Outcome.thy ===== *)
theory Session_Outcome
  imports Session_Policy
begin

text \<open>
  What the session's computations give: a postcondition of the value (\<open>gives\<close>), and that a
  computation ends with a value rather than an exception (\<open>answers\<close>).
\<close>

section \<open>Postconditions\<close>

definition gives :: "('a \<Rightarrow> bool) \<Rightarrow> ('w, 'a) io \<Rightarrow> bool" where
  "gives Q m \<longleftrightarrow> (\<forall>st x st'. m st = (Inr x, st') \<longrightarrow> Q x)"

definition answers :: "('w, 'a) io \<Rightarrow> bool" where
  "answers m \<longleftrightarrow> (\<forall>st. \<exists>x. fst (m st) = Inr x)"

lemma givesD: "gives Q m \<Longrightarrow> m st = (Inr x, st') \<Longrightarrow> Q x"
  unfolding gives_def by blast

lemma gives_ret: "Q x \<Longrightarrow> gives Q (ret x)"
  by (simp add: gives_def ret_def)

lemma gives_bind: "gives P m \<Longrightarrow> (\<And>x. P x \<Longrightarrow> gives Q (f x)) \<Longrightarrow> gives Q (bind m f)"
  unfolding gives_def bind_def by (fastforce split: prod.splits sum.splits)

lemma gives_any: "gives (\<lambda>_. True) m"
  by (simp add: gives_def)

lemma gives_after: "(\<And>x. gives Q (f x)) \<Longrightarrow> gives Q (bind m f)"
  by (rule gives_bind [OF gives_any])

lemma gives_andthen: "gives Q k \<Longrightarrow> gives Q (andthen m k)"
  unfolding andthen_def by (rule gives_after)

lemma gives_throw: "gives Q (throw e)"
  by (simp add: gives_def throw_def)

lemma gives_attempt: "gives P m \<Longrightarrow> gives (\<lambda>r. \<forall>x. r = Inr x \<longrightarrow> P x) (attempt m)"
  unfolding gives_def attempt_def by (auto split: prod.splits)

lemma gives_mono: "gives P m \<Longrightarrow> (\<And>x. P x \<Longrightarrow> Q x) \<Longrightarrow> gives Q m"
  unfolding gives_def by blast

section \<open>No exceptions\<close>

lemma answersD: "answers m \<Longrightarrow> \<exists>x st'. m st = (Inr x, st')"
  unfolding answers_def by (metis prod.collapse)

lemma answers_ret [answer_intros]: "answers (ret x)"
  by (simp add: answers_def ret_def)

lemma answers_bind [answer_intros]: "answers m \<Longrightarrow> (\<And>x. answers (f x)) \<Longrightarrow> answers (bind m f)"
  unfolding answers_def bind_def by (metis (no_types, lifting) case_prod_beta old.sum.simps(6))

lemma answers_andthen [answer_intros]: "answers m \<Longrightarrow> answers k \<Longrightarrow> answers (andthen m k)"
  unfolding andthen_def by (rule answers_bind)

lemma answers_attempt [answer_intros]: "answers (attempt m)"
  by (simp add: answers_def attempt_def split_beta)

lemma answers_quiet [answer_intros]:
  "answers (say text t important)" "answers (need_action e what)" "answers (base_prompt out s)"
  "answers (vdoms out s)" "answers (session_log out s)" "answers (clear_log out s)" "answers (now out)"
  "answers (resolves out host)" "answers (sleep_io out time)"
  by (simp_all add: answers_def say_def need_action_def base_prompt_def vdoms_def session_log_def
      clear_log_def now_def resolves_def sleep_io_def split_beta)

lemma answers_cases [answer_intros]:
  "answers a \<Longrightarrow> answers b \<Longrightarrow> answers (if c then a else b)"
  "answers a \<Longrightarrow> (\<And>x. answers (f x)) \<Longrightarrow> answers (case v of None \<Rightarrow> a | Some x \<Rightarrow> f x)"
  "(\<And>x y. answers (g x y)) \<Longrightarrow> answers (case w of (x, y) \<Rightarrow> g x y)"
  "(\<And>x. answers (h x)) \<Longrightarrow> (\<And>x. answers (k x)) \<Longrightarrow> answers (case u of Inl x \<Rightarrow> h x | Inr x \<Rightarrow> k x)"
  "(\<And>x. answers (l x)) \<Longrightarrow> answers (let x = z in l x)"
  by (simp_all split: option.split prod.split sum.split)

lemma answers_snapshot [answer_intros]: "answers (snapshot out d p s why)"
  unfolding snapshot_def by (intro answer_intros)

lemma answers_fetch_new [answer_intros]: "answers (fetch_new out d p why)"
  unfolding fetch_new_def by (intro answer_intros)

lemma answers_defaults_view [answer_intros]: "answers (defaults_view out d p conn fetches)"
  unfolding defaults_view_def by (intro answer_intros)

lemma answers_check_saved [answer_intros]: "answers (check_saved out d p s result)"
  unfolding check_saved_def by (intro answer_intros)

lemma answers_judge_push [answer_intros]:
  "answers snap \<Longrightarrow> answers snap_again
    \<Longrightarrow> answers (judge_push out diff_of d p commands prior replies snap snap_again conn)"
  unfolding judge_push_def by (intro answer_intros)

lemma answers_after_slow_commit [answer_intros]: "answers (after_slow_commit out diff_of d p commands prior replies)"
proof -
  have "answers (slow_checks out diff_of d p commands b replies k n)" for b k n
  proof (induction n arbitrary: k)
    case (Suc n)
    show ?case unfolding slow_checks.simps by (intro answer_intros Suc.IH)
  qed (auto intro!: answer_intros)
  then show ?thesis unfolding after_slow_commit_def by (intro answer_intros)
qed

lemma answers_judged_by [answer_intros]:
  "(\<And>why. answers (snap why)) \<Longrightarrow> answers (judged_by out diff_of d p commands pg snap conn)"
  unfolding judged_by_def by (intro answer_intros)

lemma answers_finish_in_new_session [answer_intros]: "answers (finish_in_new_session out d p)"
  unfolding finish_in_new_session_def by (intro answer_intros)

lemma answers_on_error [answer_intros]: "answers (on_error out diff_of d p commands pg e)"
  unfolding on_error_def by (cases "exn_kind e") (auto intro!: answer_intros)

lemma answers_send_commands [answer_intros]:
  "answers (send_commands out d p s verify planned commands previous pg clock)"
proof (induction commands arbitrary: previous pg clock)
  case (Cons command commands)
  show ?case unfolding send_commands.simps by (intro answer_intros Cons.IH)
qed (simp add: answer_intros)

lemma answers_push_session [answer_intros]: "answers (push_session out diff_of d p s commands verify)"
  unfolding push_session_def push_commands_def after_commands_def keeping_def by (intro answer_intros)

lemma answers_push_connected [answer_intros]: "answers (push_connected out diff_of d p commands verify)"
  unfolding push_connected_def by (intro answer_intros)

section \<open>What a push's judgment is\<close>

text \<open>The outcome comes from the judge, over the configuration after the push that is kept, with or
  without a second reading and the defaults.\<close>

definition judged_from :: "platform \<Rightarrow> string list \<Rightarrow> string \<Rightarrow> string list list
    \<Rightarrow> outcome option \<times> string option \<times> string option \<Rightarrow> bool" where
  "judged_from p commands prior replies r \<longleftrightarrow>
     (case r of
        (None, diff, after_opt) \<Rightarrow> diff = None \<and> after_opt = None
      | (Some v, diff, after_opt) \<Rightarrow> diff \<noteq> None \<and> (\<exists>after again view. after_opt = Some after
          \<and> v = judge (pl_grammar p) commands prior after again (map (\<lambda>r. r \<noteq> []) replies) view))"

lemma judge_push_gives:
  "gives (judged_from p commands prior replies)
     (judge_push out diff_of d p commands prior replies snap snap_again conn)"
  unfolding judge_push_def
  apply (rule gives_after)
  subgoal for after_opt
    apply (cases after_opt)
     apply (simp add: gives_ret judged_from_def)
    apply (simp only: option.case Let_def)
    apply (intro gives_after gives_andthen gives_ret)
    apply (auto simp: judged_from_def)
    done
  done

end
