(* ===== verification/Session_Properties.thy ===== *)
theory Session_Properties
  imports Session_Outcome
begin

text \<open>
  What holds of a device's push (\<open>NetmikoSession.push\<close>): the commands go out in order, each once, to
  a session in configuration mode; every session opened is closed; the push ends with a result, never
  an exception; a result's judgment is the judge's over the configurations read.
\<close>

section \<open>Sending the commands\<close>

lemma late_reply_length: "gives (\<lambda>r. length r = length replies) (late_reply out d p s replies command quiet_for)"
proof -
  have "length (butlast replies @ [x]) = length replies" if "replies \<noteq> []" for x
    using that by (cases replies rule: rev_cases) simp_all
  then show ?thesis
    unfolding late_reply_def by (intro gives_after) (auto intro!: gives_ret gives_after gives_andthen split: prod.split)
qed

lemma between_length:
  "gives (\<lambda>r. length (fst r) = length (pg_replies pg)) (between out d p s planned previous pg clock)"
proof (cases previous)
  case (Some command)
  show ?thesis unfolding between_def Some option.case
    by (rule gives_bind [OF late_reply_length]) (auto intro!: gives_after gives_andthen gives_ret)
qed (simp add: between_def gives_ret)

lemma silent_run: "keeps (only_calls s (\<lambda>_. False)) m \<Longrightarrow> m st = (r, st1) \<Longrightarrow> w_trace st1 = w_trace st \<and> w_sessions st1 = w_sessions st"
  using keepsD [of "only_calls s (\<lambda>_. False)" m st r st1] unfolding only_calls_def
  by (auto simp: list_all_iff)

lemma between_run:
  assumes "between out d p s planned previous pg clock st = (r, st1)"
  shows "w_trace st1 = w_trace st \<and> w_sessions st1 = w_sessions st"
proof -
  have "keeps (only_calls s (\<lambda>_. False)) (between out d p s planned previous pg clock)" by (intro policy_intros)
  from silent_run [OF this assms] show ?thesis .
qed

lemma send_run:
  "send out s c st = (r, st1) \<Longrightarrow>
     \<exists>w. st1 = st\<lparr>w_world := w, w_trace := w_trace st @ [(s, c)]\<rparr>"
  by (auto simp: send_def split: prod.splits)

text \<open>One command: the call is made exactly once, whatever comes back; a read timeout still gives a
  reply.\<close>

lemma send_one_run:
  assumes "send_one out d p s verify command st = (r, st1)"
  shows "w_trace st1 = w_trace st @ [(s, Send_Config (strip command) (pl_echo_whole p))]
    \<and> w_sessions st1 = w_sessions st \<and> (\<forall>e. r = Inl e \<longrightarrow> exn_kind e \<noteq> Read_Timeout)"
proof -
  let ?c = "Send_Config (strip command) (pl_echo_whole p)"
  obtain w where w: "clear_log out s st = (Inr (), st\<lparr>w_world := w\<rparr>)" by (simp add: clear_log_def)
  obtain a st2 where a: "send out s ?c (st\<lparr>w_world := w\<rparr>) = (a, st2)" by fastforce
  from send_run [OF a] have st2: "w_trace st2 = w_trace st @ [(s, ?c)]" "w_sessions st2 = w_sessions st" by auto
  show ?thesis
  proof (cases a)
    case (Inl e)
    show ?thesis
    proof (cases "exn_kind e = Read_Timeout")
      case True
      let ?m = "bind (last_output out d p s command) (\<lambda>told. ret (told, Some e))"
      have "?m st2 = (r, st1)" using assms w a Inl True
        by (simp add: send_one_def andthen_def bind_def attempt_def)
      moreover have "keeps (only_calls s (\<lambda>_. False)) ?m" by (intro policy_intros)
      moreover have "answers ?m" unfolding last_output_def by (intro answer_intros)
      ultimately show ?thesis using silent_run [of s ?m st2 r st1] answersD [of ?m st2] st2 by auto
    next
      case False
      then show ?thesis using assms w a Inl st2
        by (auto simp: send_one_def andthen_def bind_def attempt_def throw_def)
    qed
  next
    case (Inr printed)
    let ?m = "\<lambda>_::unit. bind (base_prompt out s) (\<lambda>prompt.
                let (told, events) = reply printed command prompt (pl_events p) in
                andthen (if told = [] then ret ()
                         else say (ep d @ '': '' @ quoted (strip command) @ '' - the device replied: '' @ join '' | '' told)
                                Tone_Warning (\<not> verify))
                  (andthen (say_events d events) (ret (told, None :: exn option))))"
    have "?m () st2 = (r, st1)" using assms w a Inr
      by (simp add: send_one_def andthen_def bind_def attempt_def)
    moreover have "keeps (only_calls s (\<lambda>_. False)) (?m ())" by (intro policy_intros)
    moreover have "answers (say_all ls :: ('a, unit) io)" for ls
      by (induction ls) (auto intro!: answer_intros)
    then have "answers (?m () :: ('a, string list \<times> exn option) io)" unfolding say_events_def by (intro answer_intros)
    ultimately show ?thesis using silent_run [of s "?m ()" st2 r st1] answersD [of "?m ()" st2] st2 by auto
  qed
qed

text \<open>The loop: the commands' prefix, in order, each once, and nothing else; a loop that wasn't stopped has
  sent them all, with a reply for each.\<close>

definition sent_calls :: "platform \<Rightarrow> nat \<Rightarrow> string list \<Rightarrow> (nat \<times> call) list" where
  "sent_calls p s commands = map (\<lambda>c. (s, Send_Config (strip c) (pl_echo_whole p))) commands"

definition replies_kept :: "progress \<Rightarrow> exn option \<Rightarrow> bool" where
  "replies_kept pg stopped \<longleftrightarrow>
     ((stopped = None \<or> (\<exists>e. stopped = Some e \<and> exn_kind e = Read_Timeout))
        \<longrightarrow> length (pg_replies pg) = pg_sent pg)"

lemma send_commands_run:
  assumes "length (pg_replies pg) = pg_sent pg"
    and "send_commands out d p s verify planned commands previous pg clock st = (Inr (pg', stopped), st1)"
  shows "\<exists>n \<le> length commands. pg_sent pg' = pg_sent pg + n \<and> pg_before pg' = pg_before pg
    \<and> w_trace st1 = w_trace st @ sent_calls p s (take n commands) \<and> w_sessions st1 = w_sessions st
    \<and> (stopped = None \<longrightarrow> n = length commands) \<and> replies_kept pg' stopped"
  using assms
proof (induction commands arbitrary: previous pg clock st)
  case Nil
  then show ?case by (simp add: ret_def sent_calls_def replies_kept_def)
next
  case (Cons command commands)
  obtain b stb where b: "between out d p s planned previous pg clock st = (b, stb)" by fastforce
  from between_run [OF b] have stb: "w_trace stb = w_trace st" "w_sessions stb = w_sessions st" by auto
  show ?case
  proof (cases b)
    case (Inl e)
    then have "pg' = pg" "stopped = Some e" "st1 = stb"
      using Cons.prems(2) b by (auto simp: Let_def bind_def attempt_def ret_def)
    then show ?thesis using stb Cons.prems(1)
      by (intro exI [of _ 0]) (simp add: sent_calls_def replies_kept_def)
  next
    case (Inr v)
    obtain replies clock1 where v: "v = (replies, clock1)" by (rule prod.exhaust)
    have replies: "length replies = length (pg_replies pg)"
      using givesD [OF between_length] b Inr v by fastforce
    let ?pg1 = "pg\<lparr>pg_sent := Suc (pg_sent pg), pg_replies := replies\<rparr>"
    obtain o1 sto where o1: "send_one out d p s verify command stb = (o1, sto)" by fastforce
    from send_one_run [OF o1] stb have sto: "w_trace sto = w_trace st @ sent_calls p s [command]"
        "w_sessions sto = w_sessions st" "\<forall>e. o1 = Inl e \<longrightarrow> exn_kind e \<noteq> Read_Timeout"
      by (simp_all add: sent_calls_def)
    show ?thesis
    proof (cases o1)
      case (Inl e)
      then have "pg' = ?pg1" "stopped = Some e" "st1 = sto"
        using Cons.prems(2) b o1 \<open>b = Inr v\<close> v by (auto simp: Let_def bind_def attempt_def ret_def)
      then show ?thesis using sto Inl
        by (intro exI [of _ 1]) (simp add: sent_calls_def replies_kept_def)
    next
      case o2: (Inr w)
      obtain told stop where w: "w = (told, stop)" by (rule prod.exhaust)
      let ?pg2 = "?pg1\<lparr>pg_replies := replies @ [told]\<rparr>"
      show ?thesis
      proof (cases stop)
        case (Some e)
        then have "pg' = ?pg2" "stopped = Some e" "st1 = sto"
          using Cons.prems(2) b o1 Inr v o2 w by (auto simp: Let_def bind_def attempt_def ret_def)
        then show ?thesis using sto replies Cons.prems(1)
          by (intro exI [of _ 1]) (simp add: sent_calls_def replies_kept_def)
      next
        case None
        then have "send_commands out d p s verify planned commands (Some command) ?pg2 clock1 sto
            = (Inr (pg', stopped), st1)"
          using Cons.prems(2) b o1 Inr v o2 w by (auto simp: Let_def bind_def attempt_def)
        from Cons.IH [OF _ this] replies Cons.prems(1) obtain n where
          "n \<le> length commands" "pg_sent pg' = Suc (pg_sent pg + n)" "pg_before pg' = pg_before pg"
          "w_trace st1 = w_trace sto @ sent_calls p s (take n commands)" "w_sessions st1 = w_sessions sto"
          "stopped = None \<longrightarrow> n = length commands" "replies_kept pg' stopped" by auto
        then show ?thesis using sto
          by (intro exI [of _ "Suc n"]) (simp add: sent_calls_def)
      qed
    qed
  qed
qed

section \<open>What a push's result says\<close>

text \<open>A result agrees with itself: a judgment only of an applied push that was to be verified, by the
  judge, with a reply list per command; an interrupted push says how many commands it sent and judges
  nothing.\<close>

definition result_ok :: "platform \<Rightarrow> string list \<Rightarrow> bool \<Rightarrow> push_result \<Rightarrow> bool" where
  "result_ok p commands verify r \<longleftrightarrow>
     (\<forall>v. p_outcome r = Some v \<longrightarrow> verify \<and> p_applied r \<and> \<not> p_interrupted r
        \<and> length (p_replies r) = length commands
        \<and> (\<exists>prior. judged_from p commands prior (p_replies r) (p_outcome r, p_diff r, p_after r)))
     \<and> (if p_interrupted r
        then \<exists>n. p_sent r = Some n \<and> 0 < n \<and> n < length commands \<and> p_applied r = (1 < n)
               \<and> p_outcome r = None \<and> length (p_replies r) = n
        else p_sent r = None)"

lemma result_ok_not_applied: "result_ok p commands verify not_applied"
  by (simp add: result_ok_def not_applied_def)

lemma result_ok_failed: "result_ok p commands verify (failed_result replies)"
  by (simp add: result_ok_def failed_result_def not_applied_def)

lemma result_ok_judged:
  assumes "judged_from p commands prior replies r" "verify" "length replies = length commands"
  shows "result_ok p commands verify (judged_result replies r)"
  using assms by (cases r) (auto simp: result_ok_def judged_result_def)

lemma result_ok_applied: "result_ok p commands verify (applied_result replies)"
  by (simp add: result_ok_def applied_result_def judged_result_def)

text \<open>A result given where no exception ended the push isn't an interrupted one.\<close>

definition final_ok :: "platform \<Rightarrow> string list \<Rightarrow> bool \<Rightarrow> push_result \<Rightarrow> bool" where
  "final_ok p commands verify r \<longleftrightarrow> result_ok p commands verify r \<and> \<not> p_interrupted r"

lemma final_ok_results:
  "final_ok p commands verify not_applied" "final_ok p commands verify (failed_result replies)"
  "final_ok p commands verify (applied_result replies)"
  using result_ok_not_applied result_ok_failed result_ok_applied
  by (simp_all add: final_ok_def) (simp_all add: not_applied_def failed_result_def applied_result_def judged_result_def)

lemma final_ok_judged:
  "judged_from p commands prior replies r \<Longrightarrow> verify \<Longrightarrow> length replies = length commands
    \<Longrightarrow> final_ok p commands verify (judged_result replies r)"
  by (simp add: final_ok_def result_ok_judged) (simp add: judged_result_def)

definition progress_ok :: "string list \<Rightarrow> bool \<Rightarrow> progress \<Rightarrow> bool" where
  "progress_ok commands verify pg \<longleftrightarrow>
     pg_sent pg \<le> length commands \<and> (pg_before pg \<noteq> None \<longrightarrow> verify)"

lemma after_slow_commit_gives:
  assumes "prior \<noteq> None \<longrightarrow> verify" "length replies = length commands"
  shows "gives (final_ok p commands verify) (after_slow_commit out diff_of d p commands prior replies)"
proof -
  have "gives (final_ok p commands verify) (slow_checks out diff_of d p commands b replies k n)"
    if verify for b k n
  proof (induction n arbitrary: k)
    case 0
    show ?case by (auto intro!: gives_andthen gives_ret final_ok_results)
  next
    case (Suc n)
    show ?case unfolding slow_checks.simps
      by (intro gives_andthen gives_after)
         (auto split: option.split intro!: gives_andthen gives_ret final_ok_results Suc.IH
            gives_bind [OF judge_push_gives] final_ok_judged [OF _ that assms(2)])
  qed
  then show ?thesis using assms(1) unfolding after_slow_commit_def
    by (cases prior) (auto intro!: gives_andthen gives_ret final_ok_results)
qed

lemma judged_by_gives:
  assumes "progress_ok commands verify pg" "length (pg_replies pg) = length commands"
  shows "gives (final_ok p commands verify) (judged_by out diff_of d p commands pg snap conn)"
  using assms unfolding judged_by_def progress_ok_def
  by (cases "pg_before pg") (auto intro!: gives_ret final_ok_results gives_bind [OF judge_push_gives] final_ok_judged)

lemma finish_and_judge_gives:
  assumes "progress_ok commands verify pg" "length (pg_replies pg) = length commands"
  shows "gives (final_ok p commands verify) (finish_and_judge out diff_of d p s commands pg)"
  unfolding finish_and_judge_def using assms
  by (intro gives_after)
     (auto split: sum.split simp: progress_ok_def
       intro!: gives_ret gives_throw final_ok_results judged_by_gives after_slow_commit_gives)

definition ended_ok :: "platform \<Rightarrow> string list \<Rightarrow> bool \<Rightarrow> progress \<times> (exn + push_result) \<Rightarrow> bool" where
  "ended_ok p commands verify r \<longleftrightarrow> (case r of (pg, ended) \<Rightarrow>
     progress_ok commands verify pg
     \<and> (\<forall>e. ended = Inl e \<and> exn_kind e = Read_Timeout \<longrightarrow> length (pg_replies pg) = pg_sent pg)
     \<and> (\<forall>x. ended = Inr x \<longrightarrow> final_ok p commands verify x \<and> (p_applied x \<longrightarrow> pg_sent pg = length commands)))"

lemma send_commands_gives:
  assumes "prior \<noteq> None \<longrightarrow> verify"
  shows "gives (\<lambda>(pg, stopped). progress_ok commands verify pg \<and> replies_kept pg stopped
           \<and> (stopped = None \<longrightarrow> pg_sent pg = length commands))
         (send_commands out d p s verify planned commands None (start_progress prior) clock)"
  unfolding gives_def
proof (intro allI impI)
  fix st x st'
  assume run: "send_commands out d p s verify planned commands None (start_progress prior) clock st = (Inr x, st')"
  obtain pg stopped where x: "x = (pg, stopped)" by (rule prod.exhaust)
  from send_commands_run [OF _ run [unfolded x]] assms show "case x of (pg, stopped) \<Rightarrow>
      progress_ok commands verify pg \<and> replies_kept pg stopped \<and> (stopped = None \<longrightarrow> pg_sent pg = length commands)"
    by (auto simp: x start_progress_def progress_ok_def)
qed

lemma keeping_gives:
  assumes "progress_ok commands verify pg" "length (pg_replies pg) = pg_sent pg" "pg_sent pg = length commands"
    "gives (final_ok p commands verify) m"
  shows "gives (ended_ok p commands verify) (keeping pg m)"
  unfolding keeping_def
  by (rule gives_bind [OF gives_attempt [OF assms(4)]]) (auto intro!: gives_ret simp: ended_ok_def assms(1,2,3))

lemma after_commands_gives:
  assumes pg: "progress_ok commands verify pg" "length (pg_replies pg) = pg_sent pg" "pg_sent pg = length commands"
  shows "gives (ended_ok p commands verify) (after_commands out diff_of d p s commands pg)"
proof -
  have late: "gives (\<lambda>r. length r = length commands)
      (if commands = [] then ret (pg_replies pg) else late_reply out d p s (pg_replies pg) (last commands) quiet_time)"
    using late_reply_length [of "pg_replies pg"] pg by (auto intro: gives_ret)
  show ?thesis
    unfolding after_commands_def Let_def
  proof (rule gives_bind [OF gives_attempt [OF late]], goal_cases)
    case (1 r)
    show ?case
    proof (cases r)
      case (Inl e)
      then show ?thesis using pg by (auto intro!: gives_ret simp: ended_ok_def)
    next
      case (Inr replies)
      then show ?thesis using 1 pg
        by (auto intro!: gives_andthen keeping_gives finish_and_judge_gives simp: progress_ok_def)
    qed
  qed
qed

lemma push_session_gives: "gives (ended_ok p commands verify) (push_session out diff_of d p s commands verify)"
proof -
  have snap: "gives (\<lambda>prior. prior \<noteq> None \<longrightarrow> verify)
      (read_prior out d p s verify)"
    unfolding read_prior_def by (cases verify) (auto intro: gives_ret gives_mono [OF gives_any])
  have ready: "gives (\<lambda>(early, prior). (prior \<noteq> None \<longrightarrow> verify) \<and> (\<forall>r. early = Some r \<longrightarrow> r = not_applied))
      (make_ready out d p s verify)"
    unfolding make_ready_def
  proof (rule gives_andthen, rule gives_after, goal_cases)
    case (1 problem)
    show ?case
    proof (cases problem)
      case None
      show ?thesis unfolding None option.case
        by (rule gives_bind [OF snap], unfold enter_or_stop_def) (auto intro!: gives_after gives_andthen gives_ret split: option.split)
    qed (simp add: gives_andthen gives_ret)
  qed
  have start: "ended_ok p commands verify (start_progress prior, ended)"
    if "prior \<noteq> None \<longrightarrow> verify" "\<forall>x. ended = Inr x \<longrightarrow> x = not_applied" for prior ended
  proof -
    have no: "\<not> p_applied not_applied" by (simp add: not_applied_def)
    show ?thesis
    proof (cases ended)
      case (Inl e)
      then show ?thesis using that(1) by (simp add: ended_ok_def start_progress_def progress_ok_def)
    next
      case (Inr x)
      then have "ended = Inr not_applied" using that(2) by simp
      then show ?thesis using that(1) no final_ok_results(1)
        by (simp add: ended_ok_def start_progress_def progress_ok_def)
    qed
  qed
  have commands: "gives (ended_ok p commands verify) (push_commands out diff_of d p s commands verify prior)"
    if "prior \<noteq> None \<longrightarrow> verify" for prior
    unfolding push_commands_def
  proof (rule gives_after, rule gives_bind [OF send_commands_gives [OF that]], goal_cases)
    case (1 t x)
    then show ?case
      by (cases x; cases "snd x") (auto simp: replies_kept_def ended_ok_def intro!: gives_ret after_commands_gives)
  qed
  show ?thesis
    unfolding push_session_def
  proof (rule gives_bind [OF gives_attempt [OF ready]], goal_cases)
    case (1 r)
    then show ?case
      by (auto split: sum.split option.split intro!: gives_ret start commands)
  qed
qed

lemma on_error_gives:
  assumes "progress_ok commands verify pg" "exn_kind e = Read_Timeout \<longrightarrow> length (pg_replies pg) = pg_sent pg"
  shows "gives (result_ok p commands verify) (on_error out diff_of d p commands pg e)"
proof -
  have stopped: "result_ok p commands verify (interrupted_result pg)"
    if "exn_kind e = Read_Timeout" "0 < pg_sent pg" "pg_sent pg \<noteq> length commands"
    using that assms by (auto simp: result_ok_def interrupted_result_def failed_result_def not_applied_def progress_ok_def)
  show ?thesis
    using assms unfolding on_error_def
    by (cases "exn_kind e")
       (auto intro!: gives_andthen gives_ret result_ok_failed result_ok_not_applied stopped
          gives_mono [OF judged_by_gives] simp: final_ok_def)
qed

text \<open>How many commands were sent, as the result of a handler tells it.\<close>

definition tells_sent :: "string list \<Rightarrow> nat \<Rightarrow> push_result \<Rightarrow> bool" where
  "tells_sent commands n r \<longleftrightarrow>
     (p_applied r \<and> \<not> p_interrupted r \<longrightarrow> n = length commands) \<and> (p_interrupted r \<longrightarrow> p_sent r = Some n)"

lemma on_error_tells: "gives (tells_sent commands (pg_sent pg)) (on_error out diff_of d p commands pg e)"
proof -
  have refusals: "tells_sent commands n not_applied" "tells_sent commands n (failed_result replies)" for n replies
    by (simp_all add: tells_sent_def not_applied_def failed_result_def)
  have none: "tells_sent [] 0 (failed_result replies)" for replies
    by (simp add: tells_sent_def not_applied_def failed_result_def)
  have stopped: "tells_sent commands (pg_sent pg) (interrupted_result pg)"
    by (simp add: tells_sent_def interrupted_result_def)
  have judged: "gives (tells_sent commands (length commands)) (judged_by out diff_of d p commands pg snap conn)" for snap conn
    unfolding judged_by_def
    by (auto split: option.split intro!: gives_ret gives_after simp: tells_sent_def applied_result_def judged_result_def)
  show ?thesis
    unfolding on_error_def using judged
    by (cases "exn_kind e") (auto intro!: gives_andthen gives_ret refusals [simplified] refusals stopped none)
qed

lemma push_gives: "gives (result_ok p commands verify) (push out diff_of d p commands verify)"
proof -
  have "gives (result_ok p commands verify) (push_connected out diff_of d p commands verify)"
    unfolding push_connected_def
  proof (rule gives_after, goal_cases)
    case (1 r)
    show ?case
    proof (cases r)
      case (Inl e)
      then show ?thesis
        by (auto intro!: on_error_gives simp: start_progress_def progress_ok_def)
    next
      case (Inr s)
      show ?thesis unfolding Inr sum.case
        by (rule gives_bind [OF push_session_gives])
           (auto simp: ended_ok_def final_ok_def intro!: gives_andthen gives_ret on_error_gives split: prod.split sum.split)
    qed
  qed
  then show ?thesis
    unfolding push_def by (auto intro!: gives_andthen gives_after gives_ret result_ok_not_applied)
qed

lemma push_ends_ok:
  obtains r where "fst (push out diff_of d p commands verify st) = Inr r" "result_ok p commands verify r"
proof -
  have "answers (push out diff_of d p commands verify)"
    unfolding push_def by (intro answer_intros)
  then obtain r st' where run: "push out diff_of d p commands verify st = (Inr r, st')" by (meson answersD)
  have "result_ok p commands verify r" by (rule givesD [OF push_gives run])
  moreover have "fst (push out diff_of d p commands verify st) = Inr r" by (simp add: run)
  ultimately show thesis by (intro that)
qed

text \<open>C8: Whatever the device does, a push's result agrees with itself: a judgment is given only for an
  applied push that was to be verified, it is the judge's over the configuration read before and the one
  kept as the configuration after, with one list of replies per command; an interrupted push says how
  many of its commands were sent (at least one, not all), counts as applied only when more than one was,
  and judges nothing.\<close>

theorem push_result_sound:
  "case fst (push out diff_of d p commands verify st) of
     Inl e \<Rightarrow> False
   | Inr r \<Rightarrow> result_ok p commands verify r"
  by (rule push_ends_ok [of out diff_of d p commands verify st]) simp

end
