(* ===== verification/Session_Calls.thy ===== *)
theory Session_Calls
  imports Session_Properties
begin

text \<open>
  The calls of a whole push: the sessions it opens are closed, and the configuration lines a device
  gets are the commands in order, after configuration mode was entered, and then only what the
  platform's commit asks or discards.
\<close>

section \<open>The policy of a push\<close>

definition calls_of :: "nat \<Rightarrow> (nat \<times> call) list \<Rightarrow> call list" where
  "calls_of n tr = map snd (filter (\<lambda>x. fst x = n) tr)"

lemma calls_of_append [simp]: "calls_of n (a @ b) = calls_of n a @ calls_of n b"
  by (simp add: calls_of_def)

lemma calls_of_map [simp]: "calls_of n (map (Pair s) cs) = (if n = s then cs else [])"
  by (induction cs) (auto simp: calls_of_def simp del: map_map)

lemma calls_of_none: "(\<And>c. (n, c) \<notin> set tr) \<Longrightarrow> calls_of n tr = []"
  by (auto simp: calls_of_def filter_empty_conv)

text \<open>Calls to the sessions \<open>S\<close>, of kind \<open>Q\<close>, and whole sessions of its own that configure nothing.\<close>

definition scoped :: "nat set \<Rightarrow> (call \<Rightarrow> bool) \<Rightarrow> 'w run \<Rightarrow> 'w run \<Rightarrow> bool" where
  "scoped S Q st st' \<longleftrightarrow> ((\<forall>n\<in>S. n < w_sessions st) \<longrightarrow>
     w_sessions st \<le> w_sessions st' \<and>
     (\<exists>new. w_trace st' = w_trace st @ new
        \<and> (\<forall>(n, c) \<in> set new. n \<in> S \<and> Q c \<or> w_sessions st \<le> n \<and> n < w_sessions st' \<and> no_config c)
        \<and> (\<forall>n \<ge> w_sessions st. whole_session (calls_of n new))))"

lemma whole_session_Nil [simp]: "whole_session []"
  by (simp add: whole_session_def)

lemma scoped_trans:
  assumes "scoped S Q a b" "scoped S Q b c"
  shows "scoped S Q a c"
  unfolding scoped_def
proof
  assume S: "\<forall>n\<in>S. n < w_sessions a"
  from assms(1) S obtain new1 where ab: "w_sessions a \<le> w_sessions b" "w_trace b = w_trace a @ new1"
      and n1: "\<forall>(n, c) \<in> set new1. n \<in> S \<and> Q c \<or> w_sessions a \<le> n \<and> n < w_sessions b \<and> no_config c"
      and w1: "\<forall>n \<ge> w_sessions a. whole_session (calls_of n new1)"
    unfolding scoped_def by blast
  from S ab(1) have "\<forall>n\<in>S. n < w_sessions b" by fastforce
  with assms(2) obtain new2 where bc: "w_sessions b \<le> w_sessions c" "w_trace c = w_trace b @ new2"
      and n2: "\<forall>(n, x) \<in> set new2. n \<in> S \<and> Q x \<or> w_sessions b \<le> n \<and> n < w_sessions c \<and> no_config x"
      and w2: "\<forall>n \<ge> w_sessions b. whole_session (calls_of n new2)"
    unfolding scoped_def by blast
  have "whole_session (calls_of n (new1 @ new2))" if "w_sessions a \<le> n" for n
  proof (cases "n < w_sessions b")
    case True
    then have "calls_of n new2 = []" using n2 S that by (intro calls_of_none) fastforce
    then show ?thesis using w1 that by simp
  next
    case False
    then have "calls_of n new1 = []" using n1 S that ab(1) by (intro calls_of_none) fastforce
    then show ?thesis using w2 False by simp
  qed
  moreover have "\<forall>(n, x) \<in> set (new1 @ new2). n \<in> S \<and> Q x \<or> w_sessions a \<le> n \<and> n < w_sessions c \<and> no_config x"
    using n1 n2 ab(1) bc(1) by fastforce
  ultimately show "w_sessions a \<le> w_sessions c \<and> (\<exists>new. w_trace c = w_trace a @ new
        \<and> (\<forall>(n, x) \<in> set new. n \<in> S \<and> Q x \<or> w_sessions a \<le> n \<and> n < w_sessions c \<and> no_config x)
        \<and> (\<forall>n \<ge> w_sessions a. whole_session (calls_of n new)))"
    using ab bc by auto
qed

lemma scoped_whole:
  assumes "whole_session cs" "list_all no_config cs"
    "w_trace st' = w_trace st @ map (Pair (w_sessions st)) cs" "w_sessions st' = Suc (w_sessions st)"
  shows "scoped S Q st st'"
  unfolding scoped_def using assms
  by (auto simp: list_all_iff intro!: exI [of _ "map (Pair (w_sessions st)) cs"])

interpretation scoped: session_policy "scoped S Q" "\<lambda>n c. n \<in> S \<and> Q c" for S Q
proof
  fix st st' :: "'w run"
  assume "w_trace st' = w_trace st" "w_sessions st' = w_sessions st"
  then show "scoped S Q st st'" by (auto simp: scoped_def calls_of_def)
next
  fix n c and st st' :: "'w run"
  assume "n \<in> S \<and> Q c" "w_trace st' = w_trace st @ [(n, c)]" "w_sessions st' = w_sessions st"
  then show "scoped S Q st st'" by (auto simp: scoped_def calls_of_def)
qed (fact scoped_trans, rule scoped_whole)

section \<open>The push, part by part\<close>

lemma scopedD:
  assumes "scoped S Q st st'" "\<forall>n\<in>S. n < w_sessions st"
  obtains new where "w_sessions st \<le> w_sessions st'" "w_trace st' = w_trace st @ new"
    "\<forall>n c. (n, c) \<in> set new \<longrightarrow> n \<in> S \<and> Q c \<or> w_sessions st \<le> n \<and> n < w_sessions st' \<and> no_config c"
    "\<forall>n. w_sessions st \<le> n \<longrightarrow> whole_session (calls_of n new)"
proof -
  from assms obtain new where "w_sessions st \<le> w_sessions st'" "w_trace st' = w_trace st @ new"
    "\<forall>(n, c) \<in> set new. n \<in> S \<and> Q c \<or> w_sessions st \<le> n \<and> n < w_sessions st' \<and> no_config c"
    "\<forall>n \<ge> w_sessions st. whole_session (calls_of n new)"
    unfolding scoped_def by (elim impE) auto
  then show ?thesis by (intro that [of new]) blast+
qed

lemma first_session:
  assumes "connect_device out d st = (Inr s, st1)"
  obtains cs where "w_trace st1 = w_trace st @ map (Pair s) cs" "list_all is_connect cs"
    "w_sessions st1 = Suc s" "s = w_sessions st"
proof -
  from open_session_calls [OF assms [unfolded connect_device_def]] obtain cs where
    "w_sessions st1 = Suc (w_sessions st)" "w_trace st1 = w_trace st @ map (Pair (w_sessions st)) cs"
    "list_all is_connect cs" and s: "s = w_sessions st" by blast
  then show ?thesis using that [of cs] by (simp only: s)
qed

text \<open>The first session: connecting, what happens in it, its end, and what the handlers do after it.\<close>

lemma push_connected_run:
  assumes "push_connected out diff_of d p commands verify st = (r, st')"
  obtains e st1 where "connect_device out d st = (Inl e, st1)"
      "on_error out diff_of d p commands (start_progress None) e st1 = (r, st')"
  | s st1 pg ended st2 st3 where "connect_device out d st = (Inr s, st1)"
      "push_session out diff_of d p s commands verify st1 = (Inr (pg, ended), st2)"
      "w_trace st3 = w_trace st2 @ [(s, Disconnect)]" "w_sessions st3 = w_sessions st2"
      "(case ended of Inr x \<Rightarrow> ret x | Inl e \<Rightarrow> on_error out diff_of d p commands pg e) st3 = (r, st')"
proof -
  obtain c st1 where c: "connect_device out d st = (c, st1)" by fastforce
  show ?thesis
  proof (cases c)
    case (Inl e)
    then show ?thesis using that(1) [of e st1] assms c by (simp add: push_connected_def bind_def attempt_def)
  next
    case (Inr s)
    from answersD [OF answers_push_session] obtain pg ended st2 where
      body: "push_session out diff_of d p s commands verify st1 = (Inr (pg, ended), st2)" by fastforce
    obtain q st3 where bye: "send out s Disconnect st2 = (q, st3)" by fastforce
    from send_run [OF bye] have "w_trace st3 = w_trace st2 @ [(s, Disconnect)]" "w_sessions st3 = w_sessions st2" by auto
    moreover from assms c Inr body bye
    have "(case ended of Inr x \<Rightarrow> ret x | Inl e \<Rightarrow> on_error out diff_of d p commands pg e) st3 = (r, st')"
      by (simp add: push_connected_def bind_def attempt_def andthen_def ret_def)
    ultimately show ?thesis using that(2) c Inr body by blast
  qed
qed

lemma on_error_scoped:
  "scoped {} Q st3 (snd ((case ended of Inr x \<Rightarrow> ret x | Inl e \<Rightarrow> on_error out diff_of d p commands pg e) st3))"
proof -
  have "keeps (scoped {} Q) (case ended of Inr x \<Rightarrow> ret x | Inl e \<Rightarrow> on_error out diff_of d p commands pg e)"
    by (cases ended) (auto intro!: policy_intros)
  then show ?thesis by (rule keeps_fst)
qed

text \<open>Every session a push opens is closed: of a session number, the push either only tried to connect,
  or its last call is the disconnect.\<close>

lemma push_connected_whole:
  "\<exists>new. w_trace (snd (push_connected out diff_of d p commands verify st)) = w_trace st @ new
     \<and> (\<forall>n. whole_session (calls_of n new))"
proof -
  obtain r st' where run: "push_connected out diff_of d p commands verify st = (r, st')" by fastforce
  from run show ?thesis
  proof (cases rule: push_connected_run)
    case (1 e st1)
    from open_session_calls [OF 1(1) [unfolded connect_device_def]] obtain cs where
      cs: "w_trace st1 = w_trace st @ map (Pair (w_sessions st)) cs" "list_all is_connect cs"
        "w_sessions st1 = Suc (w_sessions st)" by blast
    from on_error_scoped [where Q = "\<lambda>_. False" and ?st3.0 = st1 and ended = "Inl e" and out = out and diff_of = diff_of and d = d and p = p and commands = commands and pg = "start_progress None"] 1(2)
    have "scoped {} (\<lambda>_. False) st1 st'" by simp
    then obtain new where new: "w_trace st' = w_trace st1 @ new"
        "\<And>n c. (n, c) \<in> set new \<Longrightarrow> w_sessions st1 \<le> n"
        "\<And>n. w_sessions st1 \<le> n \<Longrightarrow> whole_session (calls_of n new)"
      by (auto elim!: scopedD)
    have "whole_session (calls_of n (map (Pair (w_sessions st)) cs @ new))" for n
    proof (cases "w_sessions st1 \<le> n")
      case True
      then show ?thesis using new(3) cs(3) by simp
    next
      case False
      then have "calls_of n new = []" using new(2) by (intro calls_of_none) fastforce
      then show ?thesis using cs(2) by (simp add: whole_session_def)
    qed
    then show ?thesis using run cs(1) new(1) by (intro exI [of _ "map (Pair (w_sessions st)) cs @ new"]) simp
  next
    case (2 s st1 pg ended st2 st3)
    from first_session [OF 2(1)] obtain cs where
      cs: "w_trace st1 = w_trace st @ map (Pair s) cs" "list_all is_connect cs"
        "w_sessions st1 = Suc s" "s = w_sessions st" .
    have "keeps (scoped {s} (\<lambda>_. True)) (push_session out diff_of d p s commands verify)"
      by (intro policy_intros) simp
    from keepsD [OF this 2(2)] have "scoped {s} (\<lambda>_. True) st1 st2" .
    moreover have "\<forall>n\<in>{s}. n < w_sessions st1" using cs(3) by simp
    ultimately obtain body where body: "w_sessions st1 \<le> w_sessions st2" "w_trace st2 = w_trace st1 @ body"
        "\<forall>n c. (n, c) \<in> set body \<longrightarrow>
           n \<in> {s} \<and> True \<or> w_sessions st1 \<le> n \<and> n < w_sessions st2 \<and> no_config c"
        "\<forall>n. w_sessions st1 \<le> n \<longrightarrow> whole_session (calls_of n body)"
      by (rule scopedD)
    from on_error_scoped [where Q = "\<lambda>_. False" and ?st3.0 = st3 and ended = ended and out = out and diff_of = diff_of and d = d and p = p and commands = commands and pg = pg] 2(5)
    have "scoped {} (\<lambda>_. False) st3 st'" by simp
    then obtain new where new: "w_trace st' = w_trace st3 @ new"
        "\<And>n c. (n, c) \<in> set new \<Longrightarrow> w_sessions st3 \<le> n"
        "\<And>n. w_sessions st3 \<le> n \<Longrightarrow> whole_session (calls_of n new)"
      by (auto elim!: scopedD)
    have "whole_session (calls_of n (map (Pair s) cs @ body @ [(s, Disconnect)] @ new))" for n
    proof (cases "w_sessions st3 \<le> n")
      case True
      then have "calls_of n body = []" using body(1,3) cs(3) 2(4) by (intro calls_of_none) fastforce
      moreover have "n \<noteq> s" using True body(1) cs(3) 2(4) by simp
      ultimately show ?thesis using new(3) True by (simp add: calls_of_def)
    next
      case False
      then have none: "calls_of n new = []" using new(2) by (intro calls_of_none) fastforce
      show ?thesis
      proof (cases "n = s")
        case True
        then show ?thesis using none by (simp add: whole_session_def calls_of_def)
      next
        case False
        show ?thesis
        proof (cases "w_sessions st1 \<le> n")
          case True
          then show ?thesis using none False body(4) by (simp add: calls_of_def)
        next
          case low: False
          then have "calls_of n body = []" using body(3) False by (intro calls_of_none) fastforce
          then show ?thesis using none False by (simp add: calls_of_def)
        qed
      qed
    qed
    then show ?thesis using run cs(1) body(2) 2(3) new(1)
      by (intro exI [of _ "map (Pair s) cs @ body @ [(s, Disconnect)] @ new"]) simp
  qed
qed

lemma push_quiet_start:
  "\<exists>st1. w_trace st1 = w_trace st \<and> w_sessions st1 = w_sessions st
     \<and> (push out diff_of d p commands verify st = push_connected out diff_of d p commands verify st1
        \<or> push out diff_of d p commands verify st = (Inr not_applied, st1))"
proof -
  let ?m = "andthen (say (''connecting to '' @ ep d) Tone_Warning False)
              (if is_ip (device_host d) then ret True else resolves out (device_host d))"
  obtain r st1 where m: "?m st = (r, st1)" by fastforce
  have "keeps (only_calls 0 (\<lambda>_. False)) ?m" by (intro policy_intros)
  from silent_run [OF this m] have quiet: "w_trace st1 = w_trace st" "w_sessions st1 = w_sessions st" by auto
  have "answers ?m" by (intro answer_intros)
  then obtain known where r: "r = Inr known" using answersD [of ?m st] m by auto
  have run: "push out diff_of d p commands verify st = (bind ?m (\<lambda>known.
        if \<not> known then
          andthen (say (ep d @ '': can't resolve '' @ device_host d @ '' - check the name and the DNS this server uses'')
            Tone_Error False) (ret not_applied)
        else push_connected out diff_of d p commands verify)) st"
    by (simp add: push_def bind_def andthen_def say_def)
  show ?thesis
  proof (cases known)
    case True
    then show ?thesis using run m r quiet by (auto simp: bind_def)
  next
    case False
    let ?say = "say (ep d @ '': can't resolve '' @ device_host d @ '' - check the name and the DNS this server uses'')
            Tone_Error False"
    obtain st2 where st2: "?say st1 = (Inr (), st2)" "w_trace st2 = w_trace st1" "w_sessions st2 = w_sessions st1"
      by (simp add: say_def)
    then have "push out diff_of d p commands verify st = (Inr not_applied, st2)"
      using run m r False by (simp add: bind_def andthen_def ret_def)
    then show ?thesis using st2 quiet by auto
  qed
qed

text \<open>Every session a push opens is closed, whatever the device does and whichever exception ends
  the push: for every session number, the push's calls on it are either only connection attempts or end
  with the disconnect.\<close>

theorem push_closes_sessions:
  "\<exists>new. w_trace (snd (push out diff_of d p commands verify st)) = w_trace st @ new
     \<and> (\<forall>n. whole_session (calls_of n new))"
proof -
  obtain st1 where st1: "w_trace st1 = w_trace st"
      "push out diff_of d p commands verify st = push_connected out diff_of d p commands verify st1
        \<or> push out diff_of d p commands verify st = (Inr not_applied, st1)"
    using push_quiet_start by blast
  then show ?thesis
    using push_connected_whole [of out diff_of d p commands verify st1] by (auto simp: calls_of_def)
qed

section \<open>What is sent\<close>

lemma bind_cases:
  assumes "bind m f st = (Inr y, st')"
  obtains x st1 where "m st = (Inr x, st1)" "f x st1 = (Inr y, st')"
  using assms by (auto simp: bind_def split: prod.splits sum.splits)

lemma andthen_cases:
  assumes "andthen m k st = (Inr y, st')"
  obtains x st1 where "m st = (Inr x, st1)" "k st1 = (Inr y, st')"
  using assms unfolding andthen_def by (rule bind_cases)

lemma enter_config_run:
  assumes "enter_config out s p st = (Inr None, st')"
  shows "\<exists>m. w_trace st' = w_trace st @ [(s, Config_Mode m)]"
proof -
  have sent: "w_trace st2 = w_trace st @ [(s, c)]" if "send out s c st = (r, st2)" for c r st2
    using send_run [OF that] by auto
  show ?thesis
  proof (cases "pl_kind p = K_Junos")
    case True
    obtain r st2 where r: "send out s (Config_Mode ''configure private'') st = (r, st2)" by fastforce
    have "st' = st2"
      using assms r by (auto simp: True enter_config_def bind_def attempt_def ret_def throw_def
          split: sum.splits if_splits)
    then show ?thesis using sent [OF r] by auto
  next
    case False
    obtain r st2 where r: "send out s (Config_Mode []) st = (r, st2)" by fastforce
    have "st' = st2"
      using assms r by (auto simp: False enter_config_def andthen_def bind_def ret_def split: sum.splits)
    then show ?thesis using sent [OF r] by auto
  qed
qed

lemma make_ready_run:
  assumes "make_ready out d p s verify st = (Inr (None, prior), st')"
  shows "\<exists>pre m. w_trace st' = w_trace st @ pre @ [(s, Config_Mode m)]"
proof -
  have grow: "\<exists>pre. w_trace st2 = w_trace st1 @ pre" if "keeps (only_calls s (\<lambda>_. True)) k" "k st1 = (r, st2)"
    for k :: "('a, 'c) io" and st1 r st2
    using keepsD [OF that] by (auto simp: only_calls_def)
  from assms obtain u st0 where u: "say (d_ip d @ '' connected successfully'') Tone_Success False st = (Inr u, st0)"
    and rest: "bind (prepare out s p) (\<lambda>problem.
       case problem of
         Some text \<Rightarrow> andthen (need_action (ep d) (text @ '' (nothing was sent)'')) (ret (Some not_applied, None))
       | None \<Rightarrow> bind (read_prior out d p s verify) (enter_or_stop out d p s)) st0 = (Inr (None, prior), st')"
    unfolding make_ready_def by (elim andthen_cases)
  from u have st0: "w_trace st0 = w_trace st" by (auto simp: say_def)
  from rest obtain problem sta where a: "prepare out s p st0 = (Inr problem, sta)"
    and "(case problem of
         Some text \<Rightarrow> andthen (need_action (ep d) (text @ '' (nothing was sent)'')) (ret (Some not_applied, None))
       | None \<Rightarrow> bind (read_prior out d p s verify) (enter_or_stop out d p s)) sta = (Inr (None, prior), st')"
    by (elim bind_cases)
  then have "bind (read_prior out d p s verify) (enter_or_stop out d p s) sta = (Inr (None, prior), st')"
    by (cases problem) (auto simp: andthen_def bind_def ret_def need_action_def)
  then obtain c stb where b: "read_prior out d p s verify sta = (Inr c, stb)"
    and e0: "enter_or_stop out d p s c stb = (Inr (None, prior), st')"
    by (elim bind_cases)
  from e0 obtain refused stc where e: "enter_config out s p stb = (Inr refused, stc)"
    and k: "(case refused of
               Some text \<Rightarrow> andthen (need_action (ep d) text) (ret (Some not_applied, c))
             | None \<Rightarrow> ret (None, c)) stc = (Inr (None, prior), st')"
    unfolding enter_or_stop_def by (elim bind_cases)
  have "refused = None" "stc = st'"
    using k by (cases refused; auto simp: andthen_def bind_def ret_def need_action_def)+
  with enter_config_run e obtain m where m: "w_trace st' = w_trace stb @ [(s, Config_Mode m)]" by blast
  have "keeps (only_calls s (\<lambda>_. True)) (prepare out s p)" by (intro policy_intros) auto
  from grow [OF this a] st0 obtain pre1 where p1: "w_trace sta = w_trace st @ pre1" by auto
  have "keeps (only_calls s (\<lambda>_. True)) (read_prior out d p s verify)"
    unfolding read_prior_def by (intro policy_intros) auto
  from grow [OF this b] obtain pre2 where "w_trace stb = w_trace sta @ pre2" by auto
  then show ?thesis using m p1 by auto
qed

text \<open>The configuration lines of a push are the first \<open>n\<close> commands, in order, to one session after it
  entered configuration mode, between calls that configure nothing and what the finish sends of its own.\<close>

definition own_words :: "finish \<Rightarrow> call \<Rightarrow> bool" where
  "own_words f c \<longleftrightarrow> (\<forall>x b. c = Send_Config x b \<longrightarrow> x \<in> finish_words f)"

definition sends_in_order ::
    "platform \<Rightarrow> string list \<Rightarrow> nat \<Rightarrow> nat \<Rightarrow> (nat \<times> call) list \<Rightarrow> bool" where
  "sends_in_order p commands s n new \<longleftrightarrow>
     n \<le> length commands \<and>
     (\<exists>pre post. new = pre @ sent_calls p s (take n commands) @ post
        \<and> (\<forall>x\<in>set pre. no_config (snd x)) \<and> (n = 0 \<or> (\<exists>m. (s, Config_Mode m) \<in> set pre))
        \<and> (\<forall>x\<in>set post. own_words (pl_finish p) (snd x)))"

lemma sends_in_orderI:
  assumes "n \<le> length commands" "new = pre @ sent_calls p s (take n commands) @ post"
    "\<forall>x\<in>set pre. no_config (snd x)" "n = 0 \<or> (\<exists>m. (s, Config_Mode m) \<in> set pre)"
    "\<forall>x\<in>set post. own_words (pl_finish p) (snd x)"
  shows "sends_in_order p commands s n new"
  unfolding sends_in_order_def using assms by blast

lemma sends_in_order_around:
  assumes "sends_in_order p commands s n new" "\<forall>x\<in>set a. no_config (snd x)" "\<forall>x\<in>set b. own_words (pl_finish p) (snd x)"
  shows "sends_in_order p commands s n (a @ new @ b)"
proof -
  from assms(1) obtain pre post where "n \<le> length commands" "new = pre @ sent_calls p s (take n commands) @ post"
      "\<forall>x\<in>set pre. no_config (snd x)" "n = 0 \<or> (\<exists>m. (s, Config_Mode m) \<in> set pre)"
      "\<forall>x\<in>set post. own_words (pl_finish p) (snd x)"
    unfolding sends_in_order_def by blast
  then show ?thesis using assms(2,3) by (intro sends_in_orderI [where pre = "a @ pre" and post = "post @ b"]) (simp_all add: ball_Un, blast+)
qed

lemma sends_nothing: "\<forall>x\<in>set new. no_config (snd x) \<Longrightarrow> sends_in_order p commands s 0 new"
  by (rule sends_in_orderI [where pre = new and post = "[]"]) (simp_all add: sent_calls_def)

lemma sends_then:
  assumes "\<forall>x\<in>set a. no_config (snd x)" "(s, Config_Mode m) \<in> set a" "n \<le> length commands"
    "\<forall>x\<in>set b. own_words (pl_finish p) (snd x)"
  shows "sends_in_order p commands s n (a @ sent_calls p s (take n commands) @ b)"
  using assms by (intro sends_in_orderI [where pre = a and post = b]) blast+

lemma push_commands_calls:
  assumes "push_commands out diff_of d p s commands verify prior st = (Inr (pg, ended), st')" "s < w_sessions st"
  shows "\<exists>b. w_trace st' = w_trace st @ sent_calls p s (take (pg_sent pg) commands) @ b
    \<and> pg_sent pg \<le> length commands \<and> (\<forall>x\<in>set b. own_words (pl_finish p) (snd x))"
proof -
  from assms(1) obtain c sta pg1 stopped stb where
    a: "now out st = (Inr c, sta)" and
    b: "send_commands out d p s verify (length commands) commands None (start_progress prior) (c, 0) sta
          = (Inr (pg1, stopped), stb)" and
    k: "(case stopped of Some e \<Rightarrow> ret (pg1, Inl e)
        | None \<Rightarrow> after_commands out diff_of d p s commands pg1) stb = (Inr (pg, ended), st')"
    unfolding push_commands_def by (elim bind_cases) (auto split: prod.splits)
  have sta: "w_trace sta = w_trace st" "w_sessions sta = w_sessions st"
    using a by (auto simp: now_def split: prod.splits)
  from send_commands_run [OF _ b] obtain n where n: "n \<le> length commands" "pg_sent pg1 = n"
      "w_trace stb = w_trace sta @ sent_calls p s (take n commands)" "w_sessions stb = w_sessions sta"
    by (auto simp: start_progress_def)
  show ?thesis
  proof (cases stopped)
    case (Some e)
    then have "pg = pg1" "st' = stb" using k by (auto simp: ret_def)
    then show ?thesis using n sta by auto
  next
    case None
    then have k: "after_commands out diff_of d p s commands pg1 stb = (Inr (pg, ended), st')" using k by simp
    then have pg: "pg_sent pg = pg_sent pg1"
      unfolding after_commands_def keeping_def Let_def
      by (auto simp: bind_def attempt_def andthen_def ret_def say_def split: prod.splits sum.splits)
    have "keeps (scoped {s} (own_words (pl_finish p))) (after_commands out diff_of d p s commands pg1)"
      by (intro policy_intros) (auto simp: own_words_def)
    from keepsD [OF this k] have "scoped {s} (own_words (pl_finish p)) stb st'" .
    moreover have "\<forall>n\<in>{s}. n < w_sessions stb" using assms(2) n(4) sta by simp
    ultimately obtain new where new: "w_trace st' = w_trace stb @ new"
        "\<forall>t c. (t, c) \<in> set new \<longrightarrow> t \<in> {s} \<and> own_words (pl_finish p) c
           \<or> w_sessions stb \<le> t \<and> t < w_sessions st' \<and> no_config c"
      by (rule scopedD)
    then have "\<forall>x\<in>set new. own_words (pl_finish p) (snd x)" by (fastforce simp: own_words_def)
    then show ?thesis using new(1) n sta pg by auto
  qed
qed

lemma push_session_calls:
  assumes "push_session out diff_of d p s commands verify st = (Inr (pg, ended), st')" "s < w_sessions st"
  shows "\<exists>new. w_trace st' = w_trace st @ new \<and> sends_in_order p commands s (pg_sent pg) new"
proof -
  obtain r sta where r: "make_ready out d p s verify st = (r, sta)" by fastforce
  have "keeps (only_calls s no_config) (make_ready out d p s verify)" by (intro policy_intros) auto
  from keepsD [OF this r] obtain cs where cs: "w_trace sta = w_trace st @ map (Pair s) cs" "list_all no_config cs"
      "w_sessions sta = w_sessions st" by (auto simp: only_calls_def)
  have quiet: "\<forall>x\<in>set (map (Pair s) cs). no_config (snd x)" using cs(2) by (auto simp: list_all_iff)
  show ?thesis
  proof (cases "\<exists>prior. r = Inr (None, prior)")
    case True
    then obtain prior where p: "r = Inr (None, prior)" by blast
    have "push_commands out diff_of d p s commands verify prior sta = (Inr (pg, ended), st')"
      using assms(1) r p by (simp add: push_session_def bind_def attempt_def)
    from push_commands_calls [OF this] assms(2) cs(3) obtain b where
      b: "w_trace st' = w_trace sta @ sent_calls p s (take (pg_sent pg) commands) @ b"
        "pg_sent pg \<le> length commands" "\<forall>x\<in>set b. own_words (pl_finish p) (snd x)" by auto
    from make_ready_run [OF r [unfolded p]] cs(1) obtain pre m where
      "map (Pair s) cs = pre @ [(s, Config_Mode m)]" by (metis same_append_eq)
    then have "(s, Config_Mode m) \<in> set (map (Pair s) cs)" by simp
    from sends_then [OF quiet this b(2,3)] b(1) cs(1) show ?thesis by auto
  next
    case False
    then have "pg_sent pg = 0 \<and> st' = sta"
      using assms(1) r by (auto simp: push_session_def bind_def attempt_def ret_def start_progress_def
          split: sum.splits option.splits prod.splits)
    then show ?thesis using cs(1) sends_nothing [OF quiet] by auto
  qed
qed

lemma push_connected_calls:
  "\<exists>s n new. w_trace (snd (push_connected out diff_of d p commands verify st)) = w_trace st @ new
     \<and> sends_in_order p commands s n new
     \<and> (\<forall>r. fst (push_connected out diff_of d p commands verify st) = Inr r \<longrightarrow> tells_sent commands n r)"
proof -
  obtain r st' where run: "push_connected out diff_of d p commands verify st = (r, st')" by fastforce
  from run show ?thesis
  proof (cases rule: push_connected_run)
    case (1 e st1)
    from open_session_calls [OF 1(1) [unfolded connect_device_def]] obtain cs where
      cs: "w_trace st1 = w_trace st @ map (Pair (w_sessions st)) cs" "list_all is_connect cs" by blast
    from on_error_scoped [where Q = "\<lambda>_. False" and ?st3.0 = st1 and ended = "Inl e" and out = out
        and diff_of = diff_of and d = d and p = p and commands = commands and pg = "start_progress None"] 1(2)
    have "scoped {} (\<lambda>_. False) st1 st'" by simp
    then obtain new where new: "w_trace st' = w_trace st1 @ new"
        "\<forall>t c. (t, c) \<in> set new \<longrightarrow> no_config c"
      by (rule scopedD) auto
    have "\<forall>x\<in>set (map (Pair (w_sessions st)) cs @ new). no_config (snd x)"
      using cs(2) new(2) by (fastforce simp: list_all_iff)
    from sends_nothing [OF this] have "sends_in_order p commands 0 0 (map (Pair (w_sessions st)) cs @ new)" .
    moreover have "\<forall>x. r = Inr x \<longrightarrow> tells_sent commands 0 x"
      using givesD [OF on_error_tells] 1(2) by (fastforce simp: start_progress_def)
    ultimately show ?thesis using run cs(1) new(1) by auto
  next
    case (2 s st1 pg ended st2 st3)
    from first_session [OF 2(1)] obtain cs where
      cs: "w_trace st1 = w_trace st @ map (Pair s) cs" "list_all is_connect cs" "w_sessions st1 = Suc s"
        "s = w_sessions st" .
    from push_session_calls [OF 2(2)] cs(3) obtain body where
      body: "w_trace st2 = w_trace st1 @ body" "sends_in_order p commands s (pg_sent pg) body" by auto
    from on_error_scoped [where Q = "\<lambda>_. False" and ?st3.0 = st3 and ended = ended and out = out
        and diff_of = diff_of and d = d and p = p and commands = commands and pg = pg] 2(5)
    have "scoped {} (\<lambda>_. False) st3 st'" by simp
    then obtain new where new: "w_trace st' = w_trace st3 @ new"
        "\<forall>t c. (t, c) \<in> set new \<longrightarrow> no_config c"
      by (rule scopedD) auto
    have "\<forall>x\<in>set (map (Pair s) cs). no_config (snd x)" using cs(2) by (auto simp: list_all_iff)
    moreover have "\<forall>x\<in>set ([(s, Disconnect)] @ new). own_words (pl_finish p) (snd x)"
      using new(2) by (auto simp: own_words_def)
    ultimately have "sends_in_order p commands s (pg_sent pg) (map (Pair s) cs @ body @ [(s, Disconnect)] @ new)"
      by (rule sends_in_order_around [OF body(2)])
    moreover have "\<forall>x. r = Inr x \<longrightarrow> tells_sent commands (pg_sent pg) x"
    proof (cases ended)
      case (Inl e)
      then show ?thesis using givesD [OF on_error_tells] 2(5) by fastforce
    next
      case (Inr x)
      have "ended_ok p commands verify (pg, ended)" by (rule givesD [OF push_session_gives 2(2)])
      then show ?thesis using Inr 2(5) by (auto simp: ret_def ended_ok_def final_ok_def tells_sent_def)
    qed
    ultimately show ?thesis using run cs(1) body(1) 2(3) new(1)
      by (intro exI [of _ s] exI [of _ "pg_sent pg"] exI [of _ "map (Pair s) cs @ body @ [(s, Disconnect)] @ new"]) simp
  qed
qed

text \<open>C9: The configuration lines a push sends are its first \<open>n\<close> commands, in order and each once, to a
  session that entered configuration mode before - and after them only what the platform's commit asks or
  discards. A result that says the push was applied and not interrupted means all of them were sent; an
  interrupted one says exactly how many were.\<close>

theorem push_sends_in_order:
  "\<exists>s n new. w_trace (snd (push out diff_of d p commands verify st)) = w_trace st @ new
     \<and> sends_in_order p commands s n new
     \<and> (case fst (push out diff_of d p commands verify st) of Inl e \<Rightarrow> False | Inr r \<Rightarrow> tells_sent commands n r)"
proof -
  obtain st1 where st1: "w_trace st1 = w_trace st"
      "push out diff_of d p commands verify st = push_connected out diff_of d p commands verify st1
        \<or> push out diff_of d p commands verify st = (Inr not_applied, st1)"
    using push_quiet_start by blast
  have "tells_sent commands 0 not_applied" "sends_in_order p commands 0 0 []"
    by (simp_all add: tells_sent_def not_applied_def sends_nothing)
  moreover obtain r st2 where "push_connected out diff_of d p commands verify st1 = (Inr r, st2)"
    using answersD [OF answers_push_connected] by blast
  ultimately show ?thesis
    using push_connected_calls [of out diff_of d p commands verify st1] st1 by fastforce
qed

end
