(* ===== verification/Host_Key_Properties.thy ===== *)
theory Host_Key_Properties
  imports Session_Policy
begin

text \<open>Which keys a connection is tried with, and how often (\<open>_connect\<close>, \<open>HostKeyCheck\<close>).\<close>

lemma send_trace:
  "send out s c st = (r, st1) \<Longrightarrow> w_trace st1 = w_trace st @ [(s, c)]"
  by (auto simp: send_def split: prod.splits)

lemma connect_twice_calls:
  assumes "connect_twice out s args st = (r, st1)"
  shows "\<exists>k \<le> 2. w_trace st1 = w_trace st @ map (Pair s) (replicate k (Connect args))"
proof -
  obtain a sta where a: "send out s (Connect args) st = (a, sta)" by fastforce
  note ta = send_trace [OF a]
  have once: ?thesis if "st1 = sta" using ta that by (intro exI [of _ 1]) simp
  show ?thesis
  proof (cases a)
    case (Inl e)
    show ?thesis
    proof (cases "exn_kind e = Read_Timeout")
      case True
      then have "send out s (Connect args) sta = (r, st1)"
        using assms a Inl by (simp add: connect_twice_def handle_def bind_def attempt_def)
      from send_trace [OF this] ta show ?thesis by (intro exI [of _ 2]) (simp add: numeral_2_eq_2)
    next
      case False
      then show ?thesis using assms a Inl
        by (intro once) (simp add: connect_twice_def handle_def bind_def attempt_def throw_def)
    qed
  next
    case (Inr x)
    then show ?thesis using assms a
      by (intro once) (simp add: connect_twice_def handle_def bind_def attempt_def ret_def)
  qed
qed

lemma refuse_trace: "w_trace (snd (refuse out pol e offered er st)) = w_trace st"
  by (simp add: refuse_def throw_def)

text \<open>What each attempt is given: the lines of a check that holds accepted keys only.\<close>

definition accepted_attempt :: "policy \<Rightarrow> string \<Rightarrow> call \<Rightarrow> bool" where
  "accepted_attempt pol host_name c \<longleftrightarrow> (\<exists>ck. check_ok pol ck \<and> c = Connect (check_args pol host_name ck))"

lemma connect_loop_tries:
  assumes "check_ok pol ck"
  shows "\<exists>cs. w_trace (snd (connect_loop out pol host_name e s ck st)) = w_trace st @ map (Pair s) cs
    \<and> length cs \<le> 2 * Suc (card (set (hk_known pol) - set (ck_tried ck)))
    \<and> list_all (accepted_attempt pol host_name) cs"
  using assms
proof (induction out pol host_name e s ck st rule: connect_loop.induct)
  case (1 out pol host_name e s ck st)
  let ?c = "Connect (check_args pol host_name ck)"
  obtain r st1 where m: "connect_twice out s (check_args pol host_name ck) st = (r, st1)" by fastforce
  from connect_twice_calls [OF m] obtain k where k: "k \<le> 2" "w_trace st1 = w_trace st @ map (Pair s) (replicate k ?c)"
    by blast
  have this_ck: "list_all (accepted_attempt pol host_name) (replicate k ?c)"
    using "1.prems" by (auto simp: list_all_iff accepted_attempt_def)
  have here: ?case if "w_trace (snd (connect_loop out pol host_name e s ck st)) = w_trace st1"
    using that k this_ck by (intro exI [of _ "replicate k ?c"]) simp
  show ?case
  proof (cases r)
    case (Inr x)
    then show ?thesis using m by (intro here) (simp add: connect_loop.simps)
  next
    case (Inl er)
    show ?thesis
    proof (cases "refused_key (exn_error er)")
      case None
      then show ?thesis using m Inl by (intro here) (simp add: connect_loop.simps)
    next
      case (Some offered)
      show ?thesis
      proof (cases "alternative pol ck offered")
        case None
        then show ?thesis using m Inl Some by (intro here) (simp add: connect_loop.simps refuse_trace)
      next
        case ck1: (Some ck1)
        from "1.IH" [OF m [symmetric] Inl Some ck1 alternative_ok [OF "1.prems" ck1]] obtain cs where
          cs: "w_trace (snd (connect_loop out pol host_name e s ck1 st1)) = w_trace st1 @ map (Pair s) cs"
            "length cs \<le> 2 * Suc (card (set (hk_known pol) - set (ck_tried ck1)))"
            "list_all (accepted_attempt pol host_name) cs" by blast
        have "length (replicate k ?c @ cs) \<le> 2 * Suc (card (set (hk_known pol) - set (ck_tried ck)))"
          using cs(2) k(1) alternative_left [OF ck1] by simp
        then show ?thesis using cs k this_ck m Inl Some ck1
          by (intro exI [of _ "replicate k ?c @ cs"]) (simp add: connect_loop.simps [of out pol host_name e s ck st])
      qed
    qed
  qed
qed

text \<open>C10: Connecting ends after at most two attempts per accepted key and two more, however the device's
  units take turns; every attempt is given accepted keys only, at most one per key type, each line under
  the name the host is known by (and, when the device has no known key, no known hosts at all).\<close>

theorem connect_tries_accepted:
  "\<exists>cs. w_trace (snd (open_session out host_name e st)) = w_trace st @ map (Pair (w_sessions st)) cs
     \<and> length cs \<le> 2 * Suc (length (hk_known (w_policy st)))
     \<and> list_all (accepted_attempt (w_policy st) host_name) cs"
proof -
  let ?pol = "w_policy st" and ?s = "w_sessions st"
  let ?st0 = "st\<lparr>w_sessions := Suc (w_sessions st)\<rparr>"
  obtain r st1 where l: "connect_loop out ?pol host_name e ?s (start_check ?pol) ?st0 = (r, st1)" by fastforce
  from connect_loop_tries [OF start_check_ok [of ?pol], where out = out and host_name = host_name and e = e and s = ?s and st = ?st0] l obtain cs where
    cs: "w_trace st1 = w_trace st @ map (Pair ?s) cs"
      "length cs \<le> 2 * Suc (card (set (hk_known ?pol) - set (ck_tried (start_check ?pol))))"
      "list_all (accepted_attempt ?pol host_name) cs" by auto
  have "w_trace (snd (open_session out host_name e st)) = w_trace st1"
    using l by (cases r) (simp_all add: open_session_def bind_def new_number_def andthen_def after_connect_def
        ret_def Let_def)
  moreover have "card (set (hk_known ?pol) - set (ck_tried (start_check ?pol))) \<le> length (hk_known ?pol)"
    by (meson Diff_subset List.finite_set card_length card_mono le_trans)
  ultimately show ?thesis using cs by (intro exI [of _ cs]) auto
qed

end
