(* ===== verification/Jobs.thy ===== *)
theory Jobs
  imports Prelude "HOL-Library.List_Lexorder" "HOL-Library.Char_ord"
begin

text \<open>
  \<open>src/jobs.py\<close>, what needs no thread: a job's status and row (\<open>JobStatus\<close>, \<open>RolloutRow\<close>), its hash
  as read from Redis (\<open>JobMeta\<close>), the keys a job has in Redis (\<open>JobStore\<close>, the client an explicit
  state) and the texts for people. Job and user ids are their texts; times are ISO texts handed in.
\<close>

section \<open>A job's status and row\<close>

datatype job_status = Pending | Active | Cancelling

definition status_text :: "job_status \<Rightarrow> string" where
  "status_text s = (case s of Pending \<Rightarrow> ''pending'' | Active \<Rightarrow> ''active'' | Cancelling \<Rightarrow> ''cancelling'')"

definition job_statuses :: "job_status list" where
  "job_statuses = [Pending, Active, Cancelling]"

definition status_of_text :: "string \<Rightarrow> job_status option" where
  "status_of_text t = List.find (\<lambda>s. status_text s = t) job_statuses"

definition state_word :: "job_status \<Rightarrow> string" where
  "state_word s = (case s of Pending \<Rightarrow> ''queued'' | Active \<Rightarrow> ''running'' | Cancelling \<Rightarrow> ''cancelling'')"

record rollout_row =
  rr_job :: string
  rr_user :: string
  rr_devices :: int
  rr_state :: string
  rr_started :: "string option"

text \<open>\<open>started[:19] if started else None\<close>: an empty text is no time.\<close>

definition row_of :: "string \<Rightarrow> string \<Rightarrow> int \<Rightarrow> job_status option \<Rightarrow> string option \<Rightarrow> rollout_row" where
  "row_of job user devices status started =
     \<lparr>rr_job = job, rr_user = user, rr_devices = devices,
      rr_state = (case status of Some s \<Rightarrow> state_word s | None \<Rightarrow> ''running''),
      rr_started = (case started of None \<Rightarrow> None | Some t \<Rightarrow> if t = [] then None else Some (take 19 t))\<rparr>"

definition row_clock :: "rollout_row \<Rightarrow> string" where
  "row_clock r = (case rr_started r of None \<Rightarrow> ''-''
     | Some t \<Rightarrow> if t = [] then ''-'' else take 8 (drop 11 t))"

section \<open>A job's hash\<close>

record job_meta =
  jm_user :: string
  jm_status :: "job_status option"
  jm_devices :: int
  jm_created :: string
  jm_started :: "string option"

text \<open>Python's \<open>int(text)\<close>: white space around, a sign, digits with single underscores between them;
  \<open>None\<close> is \<open>ValueError\<close>.\<close>

fun int_digits :: "bool \<Rightarrow> string \<Rightarrow> string option" where
  "int_digits after_digit [] = (if after_digit then Some [] else None)"
| "int_digits after_digit (c # cs) =
     (if is_dec c then map_option ((#) c) (int_digits True cs)
      else if c = CHR ''_'' \<and> after_digit then int_digits False cs
      else None)"

definition py_int :: "string \<Rightarrow> int option" where
  "py_int t = (let s = strip t;
       signed = s \<noteq> [] \<and> hd s \<in> set ''+-'';
       body = (if signed then drop 1 s else s)
     in map_option (\<lambda>ds. (if signed \<and> hd s = CHR ''-'' then - int (digits_value 0 ds) else int (digits_value 0 ds)))
          (int_digits False body))"

type_synonym hash = "(string \<times> string) list"

definition field_or :: "hash \<Rightarrow> string \<Rightarrow> string \<Rightarrow> string" where
  "field_or pairs name fallback = (case map_of pairs name of Some v \<Rightarrow> v | None \<Rightarrow> fallback)"

definition meta_from_hash :: "hash \<Rightarrow> job_meta" where
  "meta_from_hash pairs =
     \<lparr>jm_user = field_or pairs ''user_id'' [],
      jm_status = status_of_text (field_or pairs ''status'' []),
      jm_devices = (let t = field_or pairs ''device_count'' [] in
        if t = [] then 0 else (case py_int t of Some n \<Rightarrow> n | None \<Rightarrow> 0)),
      jm_created = field_or pairs ''created_at'' [],
      jm_started = (let t = field_or pairs ''started_at'' [] in if t = [] then None else Some t)\<rparr>"

section \<open>The keys in Redis\<close>

text \<open>\<open>job:{id}:meta\<close>, \<open>user_jobs:{user}\<close>, the queue, the two counters, the stop request, and whose
  live log histories are there. A missing counter reads as 0, an empty set is a missing key.\<close>

record store =
  k_meta :: "(string \<times> hash) list"
  k_user_jobs :: "(string \<times> string list) list"
  k_queue :: "string list"
  k_pending :: int
  k_active :: int
  k_stop_now :: bool
  k_histories :: "string list"

definition empty_store :: store where
  "empty_store = \<lparr>k_meta = [], k_user_jobs = [], k_queue = [], k_pending = 0, k_active = 0,
     k_stop_now = False, k_histories = []\<rparr>"

definition hash_of :: "store \<Rightarrow> string \<Rightarrow> hash" where
  "hash_of st job = (case map_of (k_meta st) job of Some h \<Rightarrow> h | None \<Rightarrow> [])"

definition hset :: "string \<Rightarrow> (string \<times> string) list \<Rightarrow> store \<Rightarrow> store" where
  "hset job pairs st =
     st\<lparr>k_meta := AList.update job (fold (\<lambda>(f, v). AList.update f v) pairs (hash_of st job)) (k_meta st)\<rparr>"

definition sadd :: "string \<Rightarrow> string \<Rightarrow> store \<Rightarrow> store" where
  "sadd user job st = (let js = dict_get (k_user_jobs st) user in
     st\<lparr>k_user_jobs := AList.update user (if job \<in> set js then js else js @ [job]) (k_user_jobs st)\<rparr>)"

definition srem :: "string \<Rightarrow> string \<Rightarrow> store \<Rightarrow> store" where
  "srem user job st = (let js = removeAll job (dict_get (k_user_jobs st) user) in
     st\<lparr>k_user_jobs := (if js = [] then AList.delete user (k_user_jobs st)
                        else AList.update user js (k_user_jobs st))\<rparr>)"

definition store_add :: "string \<Rightarrow> string \<Rightarrow> nat \<Rightarrow> string \<Rightarrow> store \<Rightarrow> store" where
  "store_add job user device_count created st =
     (let st1 = sadd user job (hset job
        [(''user_id'', user), (''status'', status_text Pending),
         (''device_count'', show_nat device_count), (''created_at'', created)] st)
      in st1\<lparr>k_pending := k_pending st1 + 1\<rparr>)"

definition store_enqueue :: "string \<Rightarrow> store \<Rightarrow> store" where
  "store_enqueue job st = st\<lparr>k_queue := k_queue st @ [job]\<rparr>"

definition store_next :: "store \<Rightarrow> string option \<times> store" where
  "store_next st = (case k_queue st of [] \<Rightarrow> (None, st) | j # js \<Rightarrow> (Some j, st\<lparr>k_queue := js\<rparr>))"

definition store_unqueue :: "string \<Rightarrow> store \<Rightarrow> store" where
  "store_unqueue job st = st\<lparr>k_queue := removeAll job (k_queue st)\<rparr>"

definition store_set_status :: "string \<Rightarrow> job_status \<Rightarrow> store \<Rightarrow> store" where
  "store_set_status job s st =
     (if map_of (k_meta st) job = None then st else hset job [(''status'', status_text s)] st)"

definition store_started :: "string \<Rightarrow> string \<Rightarrow> store \<Rightarrow> store" where
  "store_started job time st =
     (let st1 = hset job [(''status'', status_text Active), (''started_at'', time)] st
      in st1\<lparr>k_pending := k_pending st1 - 1, k_active := k_active st1 + 1\<rparr>)"

definition store_forget :: "string \<Rightarrow> string \<Rightarrow> store \<Rightarrow> store" where
  "store_forget job user st = srem user job (st\<lparr>k_meta := AList.delete job (k_meta st)\<rparr>)"

definition store_finished :: "string \<Rightarrow> string \<Rightarrow> bool \<Rightarrow> store \<Rightarrow> store" where
  "store_finished job user was_running st =
     (let st1 = store_forget job user st
      in if was_running then st1\<lparr>k_active := k_active st1 - 1\<rparr> else st1\<lparr>k_pending := k_pending st1 - 1\<rparr>)"

definition store_reset :: "store \<Rightarrow> nat \<times> store" where
  "store_reset st = (length (k_meta st), empty_store)"

definition request_stop_now :: "store \<Rightarrow> store" where
  "request_stop_now st = st\<lparr>k_stop_now := True\<rparr>"

definition clear_stop_now :: "store \<Rightarrow> store" where
  "clear_stop_now st = st\<lparr>k_stop_now := False\<rparr>"

text \<open>\<open>None\<close>: Redis can't say.\<close>

definition stop_now_requested :: "store option \<Rightarrow> bool" where
  "stop_now_requested reached = (case reached of None \<Rightarrow> False | Some st \<Rightarrow> k_stop_now st)"

definition store_meta :: "store \<Rightarrow> string \<Rightarrow> job_meta option" where
  "store_meta st job = (let h = hash_of st job in if h = [] then None else Some (meta_from_hash h))"

definition store_job_ids :: "store \<Rightarrow> string option \<Rightarrow> string list" where
  "store_job_ids st user = (case user of
      None \<Rightarrow> map fst (k_meta st) | Some u \<Rightarrow> dict_get (k_user_jobs st) u)"

definition store_counts :: "store \<Rightarrow> int \<times> int" where
  "store_counts st = (k_active st, k_pending st)"

definition store_row :: "string \<Rightarrow> job_meta \<Rightarrow> rollout_row" where
  "store_row job m = row_of job (jm_user m) (jm_devices m) (jm_status m) (jm_started m)"

definition store_rollouts :: "store \<Rightarrow> rollout_row list" where
  "store_rollouts st =
     map snd (sort_key fst (List.map_filter (\<lambda>job. map_option (\<lambda>m. (jm_created m, store_row job m)) (store_meta st job))
       (store_job_ids st None)))"

section \<open>For people\<close>

definition waited_words :: "nat \<Rightarrow> string" where
  "waited_words seconds =
     (let minutes = seconds div 60; rest = seconds mod 60
      in if minutes = 0 then show_nat rest @ '' s''
         else if rest \<noteq> 0 then show_nat minutes @ '' min '' @ show_nat rest @ '' s''
         else show_nat minutes @ '' min'')"

definition pad_left :: "nat \<Rightarrow> string \<Rightarrow> string" where
  "pad_left n s = replicate (n - length s) (CHR '' '') @ s"

definition pad_right :: "nat \<Rightarrow> string \<Rightarrow> string" where
  "pad_right n s = s @ replicate (n - length s) (CHR '' '')"

text \<open>\<open>with_owners\<close>: each row with its owner's name, \<open>usernames\<close> being what the database answers for the
  ids that are ids; and \<open>rollouts_text\<close>.\<close>

definition with_owners :: "(string \<Rightarrow> bool) \<Rightarrow> (string \<Rightarrow> string option) \<Rightarrow> rollout_row list \<Rightarrow> (rollout_row \<times> string) list" where
  "with_owners is_id usernames rows =
     map (\<lambda>r. (r, case (if is_id (rr_user r) then usernames (rr_user r) else None) of Some n \<Rightarrow> n | None \<Rightarrow> ''?'')) rows"

definition owner_line :: "rollout_row \<times> string \<Rightarrow> string" where
  "owner_line x = (case x of (r, user) \<Rightarrow>
     (let started = map (\<lambda>c. if c = CHR ''T'' then CHR '' '' else c)
            (case rr_started r of Some t \<Rightarrow> if t = [] then ''-'' else t | None \<Rightarrow> ''-'')
      in ''   '' @ pad_right 20 (take 20 user) @ '' '' @ pad_left 7 (show_int (rr_devices r)) @ ''  ''
         @ pad_right 10 (rr_state r) @ ''  '' @ started))"

definition rollouts_text :: "(rollout_row \<times> string) list \<Rightarrow> string" where
  "rollouts_text rows =
     (if rows = [] then []
      else join [newline]
        ((show_nat (length rows) @ '' rollout'' @ (if length rows \<noteq> 1 then ''s'' else []) @ '' running or queued:'')
         # (''   '' @ pad_right 20 ''By'' @ '' '' @ pad_left 7 ''Devices'' @ ''  '' @ pad_right 10 ''State'' @ ''  Started'')
         # map owner_line rows) @ [newline])"

end
