(* ===== verification/Orchestrator.thy ===== *)
theory Orchestrator
  imports Jobs
begin

text \<open>
  \<open>src/jobs.py\<close>: \<open>RolloutJob\<close>, \<open>ResultRecorder\<close> and \<open>RolloutOrchestrator\<close>. Every block the source runs
  under the orchestrator's lock is one definition on the orchestrator's state; the threads that run
  them - submits, cancels, the dispatcher, the rollouts themselves, a drain - are the theory
  \<open>Orchestrator_Steps\<close>.
\<close>

section \<open>A rollout job\<close>

record job =
  b_user :: string
  b_devices :: nat
  b_targets :: "string list"
  b_started :: "string option"
  b_cancel :: bool

text \<open>\<open>RolloutJob.claim\<close>: whether it was queued, and the job after.\<close>

definition claim :: "string \<Rightarrow> job \<Rightarrow> bool \<times> job" where
  "claim time j = (if b_started j \<noteq> None then (False, j) else (True, j\<lparr>b_started := Some time\<rparr>))"

definition current_status :: "job \<Rightarrow> job_status" where
  "current_status j =
     (if b_cancel j then Cancelling else if b_started j \<noteq> None then Active else Pending)"

definition job_row :: "string \<Rightarrow> job \<Rightarrow> rollout_row" where
  "job_row i j = row_of i (b_user j) (int (b_devices j)) (Some (current_status j)) (b_started j)"

definition ask_to_stop :: "job \<Rightarrow> job" where
  "ask_to_stop j = j\<lparr>b_cancel := True\<rparr>"

section \<open>The orchestrator's state\<close>

record orch =
  q_jobs :: "(string \<times> job) list"
  q_held :: "(string \<times> string) list"
  q_draining :: bool
  q_paused :: bool
  q_saving :: nat

definition start_orch :: orch where
  "start_orch = \<lparr>q_jobs = [], q_held = [], q_draining = False, q_paused = False, q_saving = 0\<rparr>"

datatype refusal = Is_Draining | Is_Paused

definition refusal :: "orch \<Rightarrow> refusal option" where
  "refusal q = (if q_draining q then Some Is_Draining else if q_paused q then Some Is_Paused else None)"

definition remove_job :: "string \<Rightarrow> orch \<Rightarrow> job option \<times> orch" where
  "remove_job i q =
     (map_of (q_jobs q) i,
      q\<lparr>q_held := filter (\<lambda>(t, holder). holder \<noteq> i) (q_held q), q_jobs := AList.delete i (q_jobs q)\<rparr>)"

text \<open>\<open>_conflicts\<close>: the targets held, each with the row of the job that holds it; \<open>None\<close> is the
  \<open>KeyError\<close> of a holder that isn't in the table.\<close>

fun conflict_rows :: "orch \<Rightarrow> string list \<Rightarrow> (string \<times> rollout_row) list option" where
  "conflict_rows q [] = Some []"
| "conflict_rows q (t # ts) =
     (case map_of (q_held q) t of
        None \<Rightarrow> conflict_rows q ts
      | Some holder \<Rightarrow>
          (case map_of (q_jobs q) holder of
             None \<Rightarrow> None
           | Some j \<Rightarrow> map_option ((#) (t, job_row holder j)) (conflict_rows q ts)))"

definition busy_rows :: "orch \<Rightarrow> (string \<times> rollout_row) list option" where
  "busy_rows q = conflict_rows q (map fst (q_held q))"

definition pause_orch :: "orch \<Rightarrow> orch" where
  "pause_orch q = q\<lparr>q_paused := True\<rparr>"

definition resume_orch :: "orch \<Rightarrow> orch" where
  "resume_orch q = q\<lparr>q_paused := False\<rparr>"

definition idle :: "orch \<Rightarrow> bool" where
  "idle q \<longleftrightarrow> q_jobs q = [] \<and> \<not> 0 < q_saving q"

definition running_count :: "orch \<Rightarrow> nat" where
  "running_count q = length (filter (\<lambda>(_, j). b_started j \<noteq> None) (q_jobs q))"

definition queued_count :: "orch \<Rightarrow> nat" where
  "queued_count q = length (q_jobs q) - running_count q"

definition job_rows :: "orch \<Rightarrow> rollout_row list" where
  "job_rows q = map (\<lambda>(i, j). job_row i j) (q_jobs q)"

section \<open>What runs under the lock\<close>

datatype submit_error = Closed refusal | Device_Busy "(string \<times> rollout_row) list" | Key_Missing

text \<open>\<open>submit\<close>, its locked block: refused while closed or when a device is held, else the job is in the
  table and holds its devices.\<close>

definition submit_claim :: "string \<Rightarrow> job \<Rightarrow> orch \<Rightarrow> submit_error + orch" where
  "submit_claim i j q =
     (case refusal q of
        Some r \<Rightarrow> Inl (Closed r)
      | None \<Rightarrow>
          (case conflict_rows q (b_targets j) of
             None \<Rightarrow> Inl Key_Missing
           | Some (c # cs) \<Rightarrow> Inl (Device_Busy (c # cs))
           | Some [] \<Rightarrow> Inr (q\<lparr>q_jobs := AList.update i j (q_jobs q),
                              q_held := fold (\<lambda>t. AList.update t i) (b_targets j) (q_held q)\<rparr>)))"

definition set_job :: "string \<Rightarrow> job \<Rightarrow> orch \<Rightarrow> orch" where
  "set_job i j q = q\<lparr>q_jobs := AList.update i j (q_jobs q)\<rparr>"

text \<open>\<open>start\<close> and \<open>cancel_before_start\<close> set the job's start time again.\<close>

definition mark_started :: "string \<Rightarrow> string \<Rightarrow> orch \<Rightarrow> orch" where
  "mark_started i time q = (case map_of (q_jobs q) i of
      None \<Rightarrow> q | Some j \<Rightarrow> set_job i (j\<lparr>b_started := Some time\<rparr>) q)"

text \<open>\<open>cancel\<close>: unknown, claimed by the caller (it was queued), or running - then asked to stop.\<close>

datatype cancel_answer = Unknown_Job | Was_Queued | Was_Running

definition cancel_claim :: "string \<Rightarrow> string \<Rightarrow> orch \<Rightarrow> cancel_answer \<times> orch" where
  "cancel_claim i time q =
     (case map_of (q_jobs q) i of
        None \<Rightarrow> (Unknown_Job, q)
      | Some j \<Rightarrow> (case claim time j of
            (True, j1) \<Rightarrow> (Was_Queued, set_job i j1 q)
          | (False, _) \<Rightarrow> (Was_Running, set_job i (ask_to_stop j) q)))"

text \<open>The dispatcher's claim of the job it popped.\<close>

definition dispatch_claim :: "string \<Rightarrow> string \<Rightarrow> orch \<Rightarrow> bool \<times> orch" where
  "dispatch_claim i time q =
     (case map_of (q_jobs q) i of
        None \<Rightarrow> (False, q)
      | Some j \<Rightarrow> if q_draining q then (False, q)
          else (case claim time j of (True, j1) \<Rightarrow> (True, set_job i j1 q) | (False, _) \<Rightarrow> (False, q)))"

text \<open>\<open>drain\<close>, its locked block: the queued jobs, claimed.\<close>

definition drain_claim :: "string \<Rightarrow> orch \<Rightarrow> string list \<times> orch" where
  "drain_claim time q =
     (map fst (filter (\<lambda>(_, j). fst (claim time j)) (q_jobs q)),
      q\<lparr>q_jobs := map (\<lambda>(i, j). (i, snd (claim time j))) (q_jobs q), q_draining := True\<rparr>)"

definition cancel_all :: "orch \<Rightarrow> orch" where
  "cancel_all q = q\<lparr>q_jobs := map (\<lambda>(i, j). (i, ask_to_stop j)) (q_jobs q)\<rparr>"

text \<open>\<open>_finalize\<close>, its locked block, with the recorder's \<open>begin\<close>.\<close>

definition finalize_take :: "string \<Rightarrow> orch \<Rightarrow> job option \<times> orch" where
  "finalize_take i q =
     (case remove_job i q of
        (None, q1) \<Rightarrow> (None, q1)
      | (Some j, q1) \<Rightarrow> (Some j, q1\<lparr>q_saving := Suc (q_saving q1)\<rparr>))"

definition saved_one :: "orch \<Rightarrow> orch" where
  "saved_one q = q\<lparr>q_saving := q_saving q - 1\<rparr>"

section \<open>Recording the results\<close>

datatype kept = In_Database | In_File | On_Console

definition save_tries :: nat where "save_tries = 3"

text \<open>\<open>ResultRecorder._write\<close>: \<open>tries k\<close> is whether the \<open>k\<close>-th attempt at the database succeeds.\<close>

fun write_from :: "(nat \<Rightarrow> bool) \<Rightarrow> bool \<Rightarrow> nat \<Rightarrow> nat \<Rightarrow> kept \<times> nat" where
  "write_from tries file_ok k 0 = (if file_ok then In_File else On_Console, k)"
| "write_from tries file_ok k (Suc n) =
     (if tries k then (In_Database, Suc k) else write_from tries file_ok (Suc k) n)"

definition write_results :: "(nat \<Rightarrow> bool) \<Rightarrow> bool \<Rightarrow> kept \<times> nat" where
  "write_results tries file_ok = write_from tries file_ok 0 save_tries"

section \<open>Waiting in a drain\<close>

definition drain_report_every :: int where "drain_report_every = 30"

text \<open>The wait for running jobs, over what each round observes: how many run, the clock, whether a stop
  now was asked for. The reports it makes, and the rounds left.\<close>

fun drain_wait :: "int \<Rightarrow> int \<Rightarrow> (nat \<times> int \<times> bool) list \<Rightarrow> (nat \<times> int) list \<times> (nat \<times> int \<times> bool) list" where
  "drain_wait deadline report_at [] = ([], [])"
| "drain_wait deadline report_at ((running, clock, stop_now) # rounds) =
     (if running = 0 \<or> \<not> clock < deadline \<or> stop_now then ([], (running, clock, stop_now) # rounds)
      else if report_at \<le> clock then
        (case drain_wait deadline (clock + drain_report_every) rounds of
           (said, left) \<Rightarrow> ((running, deadline - clock) # said, left))
      else drain_wait deadline report_at rounds)"

definition backoff_start :: nat where "backoff_start = 1"
definition backoff_max :: nat where "backoff_max = 30"

definition next_backoff :: "nat \<Rightarrow> nat" where
  "next_backoff b = min (b * 2) backoff_max"

section \<open>Lemmas\<close>

lemma claim_simps [simp]:
  "b_targets (snd (claim time j)) = b_targets j" "b_started (snd (claim time j)) \<noteq> None"
  "fst (claim time j) \<longleftrightarrow> b_started j = None" "b_user (snd (claim time j)) = b_user j"
  by (auto simp: claim_def)

lemma ask_to_stop_simps [simp]:
  "b_targets (ask_to_stop j) = b_targets j" "b_started (ask_to_stop j) = b_started j"
  "b_user (ask_to_stop j) = b_user j"
  by (simp_all add: ask_to_stop_def)

lemma next_backoff_bounds: "1 \<le> b \<Longrightarrow> b \<le> backoff_max \<Longrightarrow> 1 \<le> next_backoff b \<and> next_backoff b \<le> backoff_max"
  by (auto simp: next_backoff_def backoff_max_def)

text \<open>No conflicts: none of the targets is held.\<close>

lemma conflict_rows_none: "conflict_rows q ts = Some [] \<longleftrightarrow> (\<forall>t\<in>set ts. map_of (q_held q) t = None)"
  by (induction ts) (auto split: option.splits)

lemma write_from_bounds: "snd (write_from tries file_ok k n) \<le> k + n"
  by (induction n arbitrary: k) (simp_all, metis add_Suc)

end
