(* ===== verification/Lock_Table.thy ===== *)
theory Lock_Table
  imports Orchestrator
begin

text \<open>
  The contract of the table of held devices: what its holder is after an acquire and after a release.
  A client that asks for free targets only, and releases a whole owner, keeps the table in step with
  what each owner holds - so two owners never hold the same target.
\<close>

definition holds_exactly :: "('t \<Rightarrow> 'i option) \<Rightarrow> ('i \<Rightarrow> 't set) \<Rightarrow> bool" where
  "holds_exactly h owned \<longleftrightarrow> (\<forall>t i. h t = Some i \<longleftrightarrow> t \<in> owned i)"

lemma holds_exactly_disjoint: "holds_exactly h owned \<Longrightarrow> i \<noteq> j \<Longrightarrow> owned i \<inter> owned j = {}"
  unfolding holds_exactly_def by (metis disjoint_iff option.inject)

locale lock_table =
  fixes valid :: "'s \<Rightarrow> bool"
    and holder :: "'s \<Rightarrow> 't \<Rightarrow> 'i option"
    and release :: "'i \<Rightarrow> 's \<Rightarrow> 's"
  assumes valid_release: "valid s \<Longrightarrow> valid (release i s)"
    and holder_release: "valid s \<Longrightarrow> holder (release i s) t = (if holder s t = Some i then None else holder s t)"
begin

lemma release_exact:
  "valid s \<Longrightarrow> holds_exactly (holder s) owned \<Longrightarrow> holds_exactly (holder (release i s)) (owned(i := {}))"
  by (auto simp: holds_exactly_def holder_release) (metis option.inject)

lemma release_unknown:
  "valid s \<Longrightarrow> holds_exactly (holder s) owned \<Longrightarrow> owned i = {} \<Longrightarrow> holder (release i s) = holder s"
  by (rule ext) (auto simp: holds_exactly_def holder_release)

end

text \<open>With acquiring.\<close>

locale claim_table = lock_table +
  fixes acquire :: "'i \<Rightarrow> 't list \<Rightarrow> 's \<Rightarrow> 's"
  assumes valid_acquire: "valid s \<Longrightarrow> valid (acquire i ts s)"
    and holder_acquire: "valid s \<Longrightarrow> holder (acquire i ts s) t = (if t \<in> set ts then Some i else holder s t)"
begin

lemma acquire_exact:
  assumes "valid s" "holds_exactly (holder s) owned" "\<forall>t\<in>set ts. holder s t = None" "owned i = {}"
  shows "holds_exactly (holder (acquire i ts s)) (owned(i := set ts))"
  unfolding holds_exactly_def
proof (intro allI)
  fix t k
  have "holder s t = Some k \<longleftrightarrow> t \<in> owned k" using assms(2) by (simp add: holds_exactly_def)
  then show "holder (acquire i ts s) t = Some k \<longleftrightarrow> t \<in> (owned(i := set ts)) k"
    using assms(1,3,4) by (auto simp: holder_acquire)
qed

end

section \<open>The orchestrator's table\<close>

text \<open>The source's dict, as an association list with distinct keys.\<close>

definition release_held :: "string \<Rightarrow> (string \<times> string) list \<Rightarrow> (string \<times> string) list" where
  "release_held i l = filter (\<lambda>(t, holder). holder \<noteq> i) l"

definition acquire_held :: "string \<Rightarrow> string list \<Rightarrow> (string \<times> string) list \<Rightarrow> (string \<times> string) list" where
  "acquire_held i ts l = fold (\<lambda>t. AList.update t i) ts l"

definition keys_distinct :: "('k \<times> 'v) list \<Rightarrow> bool" where
  "keys_distinct l \<longleftrightarrow> distinct (map fst l)"

lemma keys_distinct_filter: "keys_distinct l \<Longrightarrow> keys_distinct (filter P l)"
  by (induction l) (auto simp: keys_distinct_def)

lemma map_of_filter_value:
  "keys_distinct l \<Longrightarrow> map_of (filter (\<lambda>(t, h). Q h) l) t = (case map_of l t of Some h \<Rightarrow> if Q h then Some h else None | None \<Rightarrow> None)"
proof (induction l)
  case (Cons p l)
  obtain k v where p: "p = (k, v)" by fastforce
  have "map_of l k = None" using Cons.prems p by (simp add: keys_distinct_def map_of_eq_None_iff)
  moreover have "map_of (filter (\<lambda>(t, h). Q h) l) k = None"
    using Cons.prems p by (auto simp: keys_distinct_def map_of_eq_None_iff)
  moreover have "keys_distinct l" using Cons.prems p by (simp add: keys_distinct_def)
  ultimately show ?case using Cons.IH p by auto
qed simp

lemma map_of_acquire: "map_of (acquire_held i ts l) t = (if t \<in> set ts then Some i else map_of l t)"
  unfolding acquire_held_def by (induction ts arbitrary: l) (auto simp: update_conv')

lemma keys_distinct_acquire: "keys_distinct l \<Longrightarrow> keys_distinct (acquire_held i ts l)"
  unfolding acquire_held_def keys_distinct_def by (induction ts arbitrary: l) (auto simp: distinct_update)

interpretation held: claim_table keys_distinct map_of release_held acquire_held
proof
  fix l :: "(string \<times> string) list" and i ts t
  assume l: "keys_distinct l"
  show "keys_distinct (release_held i l)" unfolding release_held_def by (rule keys_distinct_filter [OF l])
  show "map_of (release_held i l) t = (if map_of l t = Some i then None else map_of l t)"
    unfolding release_held_def using map_of_filter_value [OF l, of "\<lambda>h. h \<noteq> i" t] by (auto split: option.splits)
  show "keys_distinct (acquire_held i ts l)" by (rule keys_distinct_acquire [OF l])
  show "map_of (acquire_held i ts l) t = (if t \<in> set ts then Some i else map_of l t)" by (rule map_of_acquire)
qed

end
