(* ===== verification/Orchestrator_Steps.thy ===== *)
theory Orchestrator_Steps
  imports Orchestrator
begin

text \<open>
  The orchestrator's threads, interleaved: one event per step a thread takes between two points where
  another may run. A submit holds the job, then writes Redis, Postgres and the queue, and withdraws
  it when one of those fails; the dispatcher pops, takes a slot, claims and starts; a rollout that ends
  is finalised (its results saved, its keys removed) and gives its slot back; cancels and drains claim
  queued jobs. A call to Redis can be applied, fail, or - with \<open>lost\<close> - be applied and still raise (its
  reply is lost). \<open>is_id\<close> is whether a queue entry reads as a job id.
\<close>

section \<open>Threads\<close>

text \<open>The submit of a job: not begun, between its writes, ended, or undoing.\<close>

datatype submission = Unborn | Held | Added | Recorded | Submitted | Withdrawing bool | Undoing bool | Withdrawn

text \<open>Who has claimed a job, and how far it is: nobody yet, the dispatcher, its own thread, a cancel; then
  it ends (with a slot or without), is saved, its keys go, and it is over.\<close>

datatype owner = Nobody | Claimed | Running | Cancelled | Ending bool | Saving bool | Clearing bool | Leaving bool | Over

datatype dispatcher = Waiting | Popped string | Slotted string | Starting string | Launching string | Returning

datatype fate = Applied | Failed | Reply_Lost

record sys =
  y_orch :: orch
  y_store :: store
  y_sub :: "string \<Rightarrow> submission"
  y_owner :: "string \<Rightarrow> owner"
  y_made :: "string \<Rightarrow> job option"
  y_disp :: dispatcher
  y_slots :: nat
  y_runners :: "string list"
  y_savers :: "string list"
  y_kept :: "string list"
  y_asked :: "string list"

definition start_sys :: "nat \<Rightarrow> sys" where
  "start_sys max_concurrent =
     \<lparr>y_orch = start_orch, y_store = empty_store, y_sub = (\<lambda>_. Unborn), y_owner = (\<lambda>_. Nobody),
      y_made = (\<lambda>_. None), y_disp = Waiting, y_slots = max_concurrent, y_runners = [], y_savers = [],
      y_kept = [], y_asked = []\<rparr>"

datatype event =
    Submit string string nat "string list"
  | Add string string fate
  | Record string bool
  | Enqueue string fate
  | Withdraw string
  | Undo string bool bool
  | Cancel string string
  | Mark_Cancelling string
  | Drain string
  | Drain_Cancel
  | Pause
  | Resume
  | Cancel_Unqueue string string bool
  | Cancel_Broken string
  | Pop
  | Acquire
  | Claim string
  | Started string fate
  | Launch string
  | Give_Back
  | Run_Ends string
  | Finalize string
  | Save string
  | Clear string bool
  | Leave string

section \<open>Small steps\<close>

definition set_sub :: "string \<Rightarrow> submission \<Rightarrow> sys \<Rightarrow> sys" where
  "set_sub i x s = s\<lparr>y_sub := (y_sub s)(i := x)\<rparr>"

definition set_owner :: "string \<Rightarrow> owner \<Rightarrow> sys \<Rightarrow> sys" where
  "set_owner i x s = s\<lparr>y_owner := (y_owner s)(i := x)\<rparr>"

definition set_store :: "store \<Rightarrow> sys \<Rightarrow> sys" where
  "set_store st s = s\<lparr>y_store := st\<rparr>"

definition set_orch :: "orch \<Rightarrow> sys \<Rightarrow> sys" where
  "set_orch q s = s\<lparr>y_orch := q\<rparr>"

definition set_disp :: "dispatcher \<Rightarrow> sys \<Rightarrow> sys" where
  "set_disp x s = s\<lparr>y_disp := x\<rparr>"

definition made_job :: "sys \<Rightarrow> string \<Rightarrow> job" where
  "made_job s i = (case y_made s i of Some j \<Rightarrow> j
     | None \<Rightarrow> \<lparr>b_user = [], b_devices = 0, b_targets = [], b_started = None, b_cancel = False\<rparr>)"

text \<open>A call whose failure is handled: the next thread state when it worked, when it raised, and the
  store after it.\<close>

definition try_store :: "bool \<Rightarrow> fate \<Rightarrow> (store \<Rightarrow> store) \<Rightarrow> (sys \<Rightarrow> sys) \<Rightarrow> (sys \<Rightarrow> sys) \<Rightarrow> sys \<Rightarrow> sys option" where
  "try_store lost how f good bad s =
     (case how of
        Applied \<Rightarrow> Some (good (set_store (f (y_store s)) s))
      | Failed \<Rightarrow> Some (bad s)
      | Reply_Lost \<Rightarrow> if lost then Some (bad (set_store (f (y_store s)) s)) else None)"

definition only_if :: "bool \<Rightarrow> 'a \<Rightarrow> 'a option" where
  "only_if b x = (if b then Some x else None)"

section \<open>The events\<close>

text \<open>\<open>submit\<close> (\<open>targets\<close>: what \<open>Device.target\<close> gives for its devices) and \<open>_withdraw\<close>.\<close>

definition do_submit :: "string \<Rightarrow> string \<Rightarrow> nat \<Rightarrow> string list \<Rightarrow> sys \<Rightarrow> sys option" where
  "do_submit i user devices targets s =
     (let j = \<lparr>b_user = user, b_devices = devices, b_targets = targets, b_started = None, b_cancel = False\<rparr>
      in if y_sub s i \<noteq> Unborn then None
         else (case submit_claim i j (y_orch s) of
           Inl _ \<Rightarrow> None
         | Inr q \<Rightarrow> Some (set_sub i Held (set_orch q (s\<lparr>y_made := (y_made s)(i := Some j)\<rparr>)))))"

definition do_add :: "bool \<Rightarrow> string \<Rightarrow> string \<Rightarrow> fate \<Rightarrow> sys \<Rightarrow> sys option" where
  "do_add lost i created how s =
     (if y_sub s i \<noteq> Held then None
      else try_store lost how (store_add i (b_user (made_job s i)) (b_devices (made_job s i)) created)
             (set_sub i Added) (set_sub i (Withdrawing False)) s)"

definition do_record :: "string \<Rightarrow> bool \<Rightarrow> sys \<Rightarrow> sys option" where
  "do_record i ok s =
     only_if (y_sub s i = Added) (set_sub i (if ok then Recorded else Withdrawing True) s)"

definition do_enqueue :: "bool \<Rightarrow> string \<Rightarrow> fate \<Rightarrow> sys \<Rightarrow> sys option" where
  "do_enqueue lost i how s =
     (if y_sub s i \<noteq> Recorded then None
      else try_store lost how (store_enqueue i) (set_sub i Submitted) (set_sub i (Withdrawing True)) s)"

definition do_withdraw :: "string \<Rightarrow> sys \<Rightarrow> sys option" where
  "do_withdraw i s =
     (case y_sub s i of
        Withdrawing added \<Rightarrow> Some (set_sub i (Undoing added) (set_orch (snd (remove_job i (y_orch s))) s))
      | _ \<Rightarrow> None)"

definition do_undo :: "string \<Rightarrow> bool \<Rightarrow> bool \<Rightarrow> sys \<Rightarrow> sys option" where
  "do_undo i unqueued gone s =
     (case y_sub s i of
        Undoing added \<Rightarrow>
          (let st1 = (if unqueued then store_unqueue i (y_store s) else y_store s);
               user = b_user (made_job s i);
               st2 = (if \<not> gone then st1 else if added then store_finished i user False st1
                      else store_forget i user st1)
           in Some (set_sub i Withdrawn (set_store st2 s)))
      | _ \<Rightarrow> None)"

text \<open>\<open>cancel\<close>, \<open>drain\<close>, \<open>_cancel_queued\<close>.\<close>

definition do_cancel :: "string \<Rightarrow> string \<Rightarrow> sys \<Rightarrow> sys option" where
  "do_cancel i time s =
     (case cancel_claim i time (y_orch s) of
        (Unknown_Job, _) \<Rightarrow> None
      | (Was_Queued, q) \<Rightarrow> Some (set_owner i Cancelled (set_orch q s))
      | (Was_Running, q) \<Rightarrow> Some ((set_orch q s)\<lparr>y_asked := i # y_asked s\<rparr>))"

definition do_mark :: "string \<Rightarrow> sys \<Rightarrow> sys option" where
  "do_mark i s =
     only_if (i \<in> set (y_asked s)) (set_store (store_set_status i Cancelling (y_store s)) s)"

definition do_drain :: "string \<Rightarrow> sys \<Rightarrow> sys option" where
  "do_drain time s =
     (case drain_claim time (y_orch s) of
        (ids, q) \<Rightarrow> Some ((set_orch q s)\<lparr>y_owner := (\<lambda>i. if i \<in> set ids then Cancelled else y_owner s i)\<rparr>))"

definition do_drain_cancel :: "sys \<Rightarrow> sys option" where
  "do_drain_cancel s =
     only_if (q_draining (y_orch s))
       ((set_orch (cancel_all (y_orch s)) s)\<lparr>y_asked := map fst (q_jobs (y_orch s)) @ y_asked s\<rparr>)"

definition do_cancel_unqueue :: "string \<Rightarrow> string \<Rightarrow> bool \<Rightarrow> sys \<Rightarrow> sys option" where
  "do_cancel_unqueue i time reached s =
     only_if (y_owner s i = Cancelled)
       (set_owner i (Ending False)
         (set_store (if reached then store_unqueue i (y_store s) else y_store s)
           (set_orch (mark_started i time (y_orch s)) s)))"

definition do_cancel_broken :: "string \<Rightarrow> sys \<Rightarrow> sys option" where
  "do_cancel_broken i s =
     only_if (y_owner s i = Cancelled) (set_owner i Over (set_orch (snd (remove_job i (y_orch s))) s))"

text \<open>\<open>_dispatcher\<close> and \<open>RolloutJob.start\<close>.\<close>

definition do_pop :: "(string \<Rightarrow> bool) \<Rightarrow> sys \<Rightarrow> sys option" where
  "do_pop is_id s =
     (if y_disp s \<noteq> Waiting then None
      else (case store_next (y_store s) of
          (None, _) \<Rightarrow> None
        | (Some entry, st) \<Rightarrow> Some (set_disp (if is_id entry then Popped entry else Waiting) (set_store st s))))"

definition do_acquire :: "sys \<Rightarrow> sys option" where
  "do_acquire s =
     (case y_disp s of
        Popped i \<Rightarrow> only_if (0 < y_slots s) (set_disp (Slotted i) (s\<lparr>y_slots := y_slots s - 1\<rparr>))
      | _ \<Rightarrow> None)"

definition do_claim :: "string \<Rightarrow> sys \<Rightarrow> sys option" where
  "do_claim time s =
     (case y_disp s of
        Slotted i \<Rightarrow>
          (case dispatch_claim i time (y_orch s) of
             (True, q) \<Rightarrow> Some (set_disp (Starting i) (set_owner i Claimed (set_orch q s)))
           | (False, _) \<Rightarrow> Some (set_disp Returning s))
      | _ \<Rightarrow> None)"

definition do_started :: "bool \<Rightarrow> string \<Rightarrow> fate \<Rightarrow> sys \<Rightarrow> sys option" where
  "do_started lost time how s =
     (case y_disp s of
        Starting i \<Rightarrow> try_store lost how (store_started i time) (set_disp (Launching i)) (set_disp (Launching i)) s
      | _ \<Rightarrow> None)"

definition do_launch :: "string \<Rightarrow> sys \<Rightarrow> sys option" where
  "do_launch time s =
     (case y_disp s of
        Launching i \<Rightarrow> Some ((set_disp Waiting (set_owner i Running
            (set_orch (mark_started i time (y_orch s)) s)))\<lparr>y_runners := i # y_runners s\<rparr>)
      | _ \<Rightarrow> None)"

definition do_give_back :: "sys \<Rightarrow> sys option" where
  "do_give_back s = only_if (y_disp s = Returning) (set_disp Waiting (s\<lparr>y_slots := Suc (y_slots s)\<rparr>))"

text \<open>The end of a rollout: \<open>_cleanup\<close> and \<open>_finalize\<close>.\<close>

definition do_run_ends :: "string \<Rightarrow> sys \<Rightarrow> sys option" where
  "do_run_ends i s = only_if (y_owner s i = Running) (set_owner i (Ending True) s)"

definition do_finalize :: "string \<Rightarrow> sys \<Rightarrow> sys option" where
  "do_finalize i s =
     (case y_owner s i of
        Ending slot \<Rightarrow>
          (case finalize_take i (y_orch s) of
             (None, q) \<Rightarrow> Some (set_owner i (Leaving slot) (set_orch q s))
           | (Some _, q) \<Rightarrow> Some ((set_owner i (Saving slot) (set_orch q s))\<lparr>y_savers := i # y_savers s\<rparr>))
      | _ \<Rightarrow> None)"

definition do_save :: "string \<Rightarrow> sys \<Rightarrow> sys option" where
  "do_save i s =
     (case y_owner s i of
        Saving slot \<Rightarrow> Some ((set_owner i (Clearing slot) (set_orch (saved_one (y_orch s)) s))
                        \<lparr>y_savers := removeAll i (y_savers s), y_kept := y_kept s @ [i]\<rparr>)
      | _ \<Rightarrow> None)"

definition do_clear :: "string \<Rightarrow> bool \<Rightarrow> sys \<Rightarrow> sys option" where
  "do_clear i reached s =
     (case y_owner s i of
        Clearing slot \<Rightarrow> Some (set_owner i (Leaving slot)
          (set_store (if reached then store_finished i (b_user (made_job s i)) slot (y_store s) else y_store s) s))
      | _ \<Rightarrow> None)"

definition do_leave :: "string \<Rightarrow> sys \<Rightarrow> sys option" where
  "do_leave i s =
     (case y_owner s i of
        Leaving slot \<Rightarrow> Some (set_owner i Over
          (if slot then s\<lparr>y_slots := Suc (y_slots s), y_runners := removeAll i (y_runners s)\<rparr> else s))
      | _ \<Rightarrow> None)"

fun act :: "bool \<Rightarrow> (string \<Rightarrow> bool) \<Rightarrow> event \<Rightarrow> sys \<Rightarrow> sys option" where
  "act lost is_id (Submit i user n targets) s = do_submit i user n targets s"
| "act lost is_id (Add i created how) s = do_add lost i created how s"
| "act lost is_id (Record i ok) s = do_record i ok s"
| "act lost is_id (Enqueue i how) s = do_enqueue lost i how s"
| "act lost is_id (Withdraw i) s = do_withdraw i s"
| "act lost is_id (Undo i unqueued gone) s = do_undo i unqueued gone s"
| "act lost is_id (Cancel i time) s = do_cancel i time s"
| "act lost is_id (Mark_Cancelling i) s = do_mark i s"
| "act lost is_id (Drain time) s = do_drain time s"
| "act lost is_id Drain_Cancel s = do_drain_cancel s"
| "act lost is_id Pause s = Some (set_orch (pause_orch (y_orch s)) s)"
| "act lost is_id Resume s = Some (set_orch (resume_orch (y_orch s)) s)"
| "act lost is_id (Cancel_Unqueue i time reached) s = do_cancel_unqueue i time reached s"
| "act lost is_id (Cancel_Broken i) s = do_cancel_broken i s"
| "act lost is_id Pop s = do_pop is_id s"
| "act lost is_id Acquire s = do_acquire s"
| "act lost is_id (Claim time) s = do_claim time s"
| "act lost is_id (Started time how) s = do_started lost time how s"
| "act lost is_id (Launch time) s = do_launch time s"
| "act lost is_id Give_Back s = do_give_back s"
| "act lost is_id (Run_Ends i) s = do_run_ends i s"
| "act lost is_id (Finalize i) s = do_finalize i s"
| "act lost is_id (Save i) s = do_save i s"
| "act lost is_id (Clear i reached) s = do_clear i reached s"
| "act lost is_id (Leave i) s = do_leave i s"

section \<open>Runs\<close>

text \<open>The relation of one step, and the states the threads can reach.\<close>

inductive moves :: "bool \<Rightarrow> (string \<Rightarrow> bool) \<Rightarrow> sys \<Rightarrow> sys \<Rightarrow> bool" for lost is_id where
  moves: "act lost is_id e s = Some s' \<Longrightarrow> moves lost is_id s s'"

inductive_simps moves_iff: "moves lost is_id s s'"

inductive reachable :: "bool \<Rightarrow> (string \<Rightarrow> bool) \<Rightarrow> nat \<Rightarrow> sys \<Rightarrow> bool" for lost is_id n where
  start: "reachable lost is_id n (start_sys n)"
| step: "reachable lost is_id n s \<Longrightarrow> moves lost is_id s s' \<Longrightarrow> reachable lost is_id n s'"

text \<open>The same as a function of a list of events; an event that can't happen changes nothing.\<close>

fun run_events :: "bool \<Rightarrow> (string \<Rightarrow> bool) \<Rightarrow> event list \<Rightarrow> sys \<Rightarrow> sys" where
  "run_events lost is_id [] s = s"
| "run_events lost is_id (e # es) s =
     run_events lost is_id es (case act lost is_id e s of Some s' \<Rightarrow> s' | None \<Rightarrow> s)"

lemma run_events_append: "run_events lost is_id (a @ b) s = run_events lost is_id b (run_events lost is_id a s)"
  by (induction a arbitrary: s) simp_all

lemma run_events_reachable: "reachable lost is_id n s \<Longrightarrow> reachable lost is_id n (run_events lost is_id es s)"
proof (induction es arbitrary: s)
  case (Cons e es)
  have "reachable lost is_id n (case act lost is_id e s of Some s' \<Rightarrow> s' | None \<Rightarrow> s)"
    using Cons.prems by (auto split: option.split intro: reachable.step moves.intros)
  then show ?case by (simp add: Cons.IH)
qed simp

lemma reachable_run: "reachable lost is_id n s \<Longrightarrow> \<exists>es. s = run_events lost is_id es (start_sys n)"
proof (induction rule: reachable.induct)
  case start
  show ?case by (rule exI [of _ "[]"]) simp
next
  case (step s s')
  then obtain es e where "s = run_events lost is_id es (start_sys n)" "act lost is_id e s = Some s'"
    by (auto simp: moves_iff)
  then show ?case by (intro exI [of _ "es @ [e]"]) (simp add: run_events_append)
qed

end
