(* ===== verification/Orchestrator_Invariants.thy ===== *)
theory Orchestrator_Invariants
  imports Lock_Table Orchestrator_Steps
begin

text \<open>
  The invariants of the orchestrator's threads: the table of held devices, the life of each job, the
  slots, the saves under way, and - when a failed call to Redis has no effect - that a job on its way
  to the devices is in the table. Each is kept by every event.
\<close>

section \<open>The table\<close>

definition ids :: "orch \<Rightarrow> string set" where
  "ids q = fst ` set (q_jobs q)"

definition owned_targets :: "orch \<Rightarrow> string \<Rightarrow> string set" where
  "owned_targets q i = (case map_of (q_jobs q) i of None \<Rightarrow> {} | Some j \<Rightarrow> set (b_targets j))"

definition table_ok :: "orch \<Rightarrow> bool" where
  "table_ok q \<longleftrightarrow> keys_distinct (q_jobs q) \<and> keys_distinct (q_held q)
     \<and> holds_exactly (map_of (q_held q)) (owned_targets q)"

lemma table_ok_start: "table_ok start_orch"
  by (simp add: table_ok_def start_orch_def keys_distinct_def holds_exactly_def owned_targets_def)

lemma map_of_delete: "map_of (AList.delete i l) = (map_of l)(i := None)"
  by (rule delete_conv')

lemma keys_distinct_delete: "keys_distinct l \<Longrightarrow> keys_distinct (AList.delete i l)"
  by (simp add: keys_distinct_def distinct_delete)

lemma keys_distinct_update: "keys_distinct l \<Longrightarrow> keys_distinct (AList.update i v l)"
  by (simp add: keys_distinct_def distinct_update)

lemma table_ok_remove:
  assumes "table_ok q"
  shows "table_ok (snd (remove_job i q))"
proof -
  have "owned_targets (snd (remove_job i q)) = (owned_targets q)(i := {})"
    by (rule ext) (simp add: owned_targets_def remove_job_def map_of_delete)
  moreover have "holds_exactly (map_of (release_held i (q_held q))) ((owned_targets q)(i := {}))"
    using assms by (intro held.release_exact) (simp_all add: table_ok_def)
  ultimately show ?thesis using assms held.valid_release [of "q_held q" i]
    by (simp add: table_ok_def remove_job_def release_held_def keys_distinct_delete)
qed

lemma table_ok_claim:
  assumes "table_ok q" "submit_claim i j q = Inr q'" "map_of (q_jobs q) i = None"
  shows "table_ok q'"
proof -
  have free: "\<forall>t\<in>set (b_targets j). map_of (q_held q) t = None" and
    q': "q' = q\<lparr>q_jobs := AList.update i j (q_jobs q), q_held := acquire_held i (b_targets j) (q_held q)\<rparr>"
    using assms(2) conflict_rows_none [of q "b_targets j"]
    by (auto simp: submit_claim_def acquire_held_def split: option.splits list.splits)
  have "owned_targets q' = (owned_targets q)(i := set (b_targets j))"
    by (rule ext) (simp add: q' owned_targets_def update_conv')
  moreover have "holds_exactly (map_of (acquire_held i (b_targets j) (q_held q))) ((owned_targets q)(i := set (b_targets j)))"
    using assms free by (intro held.acquire_exact) (simp_all add: table_ok_def owned_targets_def)
  ultimately show ?thesis using assms(1) held.valid_acquire [of "q_held q" i "b_targets j"]
    by (simp add: table_ok_def q' keys_distinct_update)
qed

text \<open>What changes jobs but neither their number nor their targets keeps the table.\<close>

definition same_targets :: "orch \<Rightarrow> orch \<Rightarrow> bool" where
  "same_targets q q' \<longleftrightarrow> q_held q' = q_held q \<and> map fst (q_jobs q') = map fst (q_jobs q)
     \<and> owned_targets q' = owned_targets q"

lemma table_ok_same: "table_ok q \<Longrightarrow> same_targets q q' \<Longrightarrow> table_ok q'"
  by (simp add: table_ok_def same_targets_def keys_distinct_def)

lemma update_present_keys: "map_of l i \<noteq> None \<Longrightarrow> map fst (AList.update i v l) = map fst l"
  by (simp add: update_keys map_of_eq_None_iff)

lemma same_targets_set_job:
  "map_of (q_jobs q) i = Some j \<Longrightarrow> b_targets j' = b_targets j \<Longrightarrow> same_targets q (set_job i j' q)"
  by (auto simp: same_targets_def set_job_def update_present_keys owned_targets_def update_conv' fun_eq_iff)

lemma map_of_map_values: "map_of (map (\<lambda>(i, j). (i, f j)) l) i = map_option f (map_of l i)"
  by (induction l) auto

lemma same_targets_map:
  assumes "\<And>j. b_targets (f j) = b_targets j"
  shows "same_targets q (q\<lparr>q_jobs := map (\<lambda>(i, j). (i, f j)) (q_jobs q)\<rparr>)"
  by (auto simp: same_targets_def owned_targets_def map_of_map_values fun_eq_iff assms split: option.split)

lemma same_targets_more:
  "same_targets q (q\<lparr>q_draining := d\<rparr>)" "same_targets q (q\<lparr>q_paused := p\<rparr>)" "same_targets q (q\<lparr>q_saving := n\<rparr>)"
  "same_targets q q"
  by (simp_all add: same_targets_def owned_targets_def fun_eq_iff)

lemma same_targets_trans: "same_targets a b \<Longrightarrow> same_targets b c \<Longrightarrow> same_targets a c"
  by (simp add: same_targets_def)

lemma same_cancel_claim: "same_targets q (snd (cancel_claim i time q))"
  by (auto simp: cancel_claim_def same_targets_more claim_def intro!: same_targets_set_job split: option.split)

lemma same_dispatch_claim: "same_targets q (snd (dispatch_claim i time q))"
  by (auto simp: dispatch_claim_def same_targets_more claim_def intro!: same_targets_set_job split: option.split)

lemma same_mark_started: "same_targets q (mark_started i time q)"
  by (auto simp: mark_started_def same_targets_more intro!: same_targets_set_job split: option.split)

lemma same_drain_claim: "same_targets q (snd (drain_claim time q))"
proof -
  have "same_targets q (q\<lparr>q_jobs := map (\<lambda>(i, j). (i, snd (claim time j))) (q_jobs q)\<rparr>)"
    by (rule same_targets_map) simp
  then have "same_targets q (q\<lparr>q_jobs := map (\<lambda>(i, j). (i, snd (claim time j))) (q_jobs q), q_draining := True\<rparr>)"
    using same_targets_more(1) by (rule same_targets_trans)
  then show ?thesis by (simp add: drain_claim_def)
qed

lemma same_cancel_all: "same_targets q (cancel_all q)"
  unfolding cancel_all_def by (rule same_targets_map) simp

lemma table_ok_finalize: "table_ok q \<Longrightarrow> table_ok (snd (finalize_take i q))"
  using table_ok_remove [of q i] same_targets_more(3)
  by (auto simp: finalize_take_def split: prod.split option.split) (metis snd_conv table_ok_same)

text \<open>While the table is right, asking which devices are held never meets a holder that isn't there.\<close>

lemma conflict_rows_total: "table_ok q \<Longrightarrow> conflict_rows q ts \<noteq> None"
proof (induction ts)
  case (Cons t ts)
  have "map_of (q_jobs q) holder \<noteq> None" if "map_of (q_held q) t = Some holder" for holder
  proof -
    have "t \<in> owned_targets q holder" using Cons.prems that by (simp add: table_ok_def holds_exactly_def)
    then show ?thesis by (auto simp: owned_targets_def split: option.splits)
  qed
  then show ?case using Cons by (auto split: option.split)
qed simp

section \<open>The life of a job\<close>

definition in_table :: "sys \<Rightarrow> string \<Rightarrow> bool" where
  "in_table s i \<longleftrightarrow> map_of (q_jobs (y_orch s)) i \<noteq> None"

definition life_ok :: "sys \<Rightarrow> bool" where
  "life_ok s \<longleftrightarrow>
     (\<forall>i. y_sub s i = Unborn \<longrightarrow> y_owner s i = Nobody \<and> \<not> in_table s i)
     \<and> (\<forall>i j. map_of (q_jobs (y_orch s)) i = Some j \<longrightarrow>
          (b_started j = None \<longleftrightarrow> y_owner s i = Nobody)
          \<and> y_owner s i \<in> {Nobody, Claimed, Running, Cancelled, Ending True, Ending False}
          \<and> (\<exists>j0. y_made s i = Some j0 \<and> b_targets j0 = b_targets j))"

lemma life_ok_start: "life_ok (start_sys n)"
  by (simp add: life_ok_def start_sys_def start_orch_def in_table_def)

text \<open>A step that leaves the table's keys, the start times and the threads alone.\<close>

lemmas sys_defs = set_sub_def set_owner_def set_store_def set_orch_def set_disp_def only_if_def try_store_def

lemmas event_defs = do_submit_def do_add_def do_record_def do_enqueue_def do_withdraw_def do_undo_def
  do_cancel_def do_mark_def do_drain_def do_drain_cancel_def do_cancel_unqueue_def do_cancel_broken_def
  do_pop_def do_acquire_def do_claim_def do_started_def do_launch_def do_give_back_def do_run_ends_def
  do_finalize_def do_save_def do_clear_def do_leave_def

lemma submit_claim_jobs:
  "submit_claim i j q = Inr q' \<Longrightarrow> q_jobs q' = AList.update i j (q_jobs q) \<and> q_saving q' = q_saving q
     \<and> q_draining q' = q_draining q \<and> \<not> q_draining q"
  by (auto simp: submit_claim_def refusal_def split: option.splits list.splits if_splits)

lemma cancel_claim_jobs:
  "cancel_claim i time q = (answer, q') \<Longrightarrow>
     q_saving q' = q_saving q \<and> q_draining q' = q_draining q \<and> q_held q' = q_held q \<and>
     (case answer of
        Unknown_Job \<Rightarrow> q' = q
      | Was_Queued \<Rightarrow> (\<exists>j. map_of (q_jobs q) i = Some j \<and> b_started j = None
          \<and> q' = set_job i (j\<lparr>b_started := Some time\<rparr>) q)
      | Was_Running \<Rightarrow> (\<exists>j. map_of (q_jobs q) i = Some j \<and> b_started j \<noteq> None \<and> q' = set_job i (ask_to_stop j) q))"
  by (auto simp: cancel_claim_def claim_def set_job_def split: option.splits if_splits)

lemma dispatch_claim_jobs:
  "dispatch_claim i time q = (True, q') \<Longrightarrow>
     \<exists>j. map_of (q_jobs q) i = Some j \<and> b_started j = None \<and> \<not> q_draining q
       \<and> q' = set_job i (j\<lparr>b_started := Some time\<rparr>) q"
  by (auto simp: dispatch_claim_def claim_def split: option.splits if_splits)

lemma map_of_set_job [simp]: "map_of (q_jobs (set_job i j q)) = (map_of (q_jobs q))(i \<mapsto> j)"
  by (simp add: set_job_def update_conv')

lemma map_of_remove [simp]: "map_of (q_jobs (snd (remove_job i q))) = (map_of (q_jobs q))(i := None)"
  by (simp add: remove_job_def map_of_delete)

lemma map_of_mark_started [simp]:
  "map_of (q_jobs (mark_started i time q)) k =
     (if k = i then map_option (\<lambda>j. j\<lparr>b_started := Some time\<rparr>) (map_of (q_jobs q) i) else map_of (q_jobs q) k)"
  by (auto simp: mark_started_def split: option.split)

lemma finalize_take_jobs:
  "finalize_take i q = (found, q') \<Longrightarrow> found = map_of (q_jobs q) i
     \<and> map_of (q_jobs q') = (map_of (q_jobs q))(i := None)
     \<and> q_saving q' = (if found = None then q_saving q else Suc (q_saving q)) \<and> q_draining q' = q_draining q"
  by (auto simp: finalize_take_def remove_job_def map_of_delete split: option.splits)

lemma act_table:
  assumes "act lost is_id e s = Some s'" "table_ok (y_orch s)" "life_ok s"
  shows "table_ok (y_orch s')"
proof (cases e)
  case (Submit i user m targets)
  from assms(1) Submit obtain j q where q: "submit_claim i j (y_orch s) = Inr q" "y_orch s' = q" "y_sub s i = Unborn"
    by (auto simp: do_submit_def sys_defs Let_def split: if_splits sum.splits)
  moreover have "map_of (q_jobs (y_orch s)) i = None" using assms(3) q(3) by (auto simp: life_ok_def in_table_def)
  ultimately show ?thesis using table_ok_claim [OF assms(2)] by simp
next
  case (Withdraw i)
  with assms table_ok_remove show ?thesis by (auto simp: event_defs sys_defs split: submission.splits)
next
  case (Cancel_Broken i)
  with assms table_ok_remove show ?thesis by (auto simp: event_defs sys_defs split: if_splits)
next
  case (Finalize i)
  from assms(1) Finalize have "y_orch s' = snd (finalize_take i (y_orch s))"
    by (auto simp: event_defs sys_defs split: owner.splits prod.splits option.splits)
  then show ?thesis using table_ok_finalize [OF assms(2)] by simp
next
  case (Cancel i time)
  from assms(1) Cancel have "y_orch s' = snd (cancel_claim i time (y_orch s))"
    by (auto simp: event_defs sys_defs split: prod.splits cancel_answer.splits)
  then show ?thesis using table_ok_same [OF assms(2) same_cancel_claim] by simp
next
  case (Drain time)
  from assms(1) Drain have "y_orch s' = snd (drain_claim time (y_orch s))"
    by (auto simp: event_defs sys_defs split: prod.splits)
  then show ?thesis using table_ok_same [OF assms(2) same_drain_claim] by simp
next
  case (Claim time)
  from assms(1) Claim have "y_orch s' = y_orch s \<or> (\<exists>i. y_orch s' = snd (dispatch_claim i time (y_orch s)))"
    by (auto simp: event_defs sys_defs split: dispatcher.splits prod.splits bool.splits) (metis snd_conv)
  then show ?thesis using table_ok_same [OF assms(2) same_dispatch_claim] assms(2) by auto
qed (use assms(1,2) table_ok_same [OF assms(2) same_mark_started] table_ok_same [OF assms(2) same_cancel_all]
      table_ok_same [OF assms(2) same_targets_more(3)] table_ok_same [OF assms(2) same_targets_more(2)] in
      \<open>auto simp: event_defs sys_defs pause_orch_def resume_orch_def saved_one_def Let_def
         split: if_splits fate.splits submission.splits dispatcher.splits owner.splits prod.splits option.splits\<close>)

text \<open>The jobs in a table, and the threads, after each kind of step.\<close>

lemma life_okI:
  assumes "\<And>i. y_sub s i = Unborn \<Longrightarrow> y_owner s i = Nobody \<and> map_of (q_jobs (y_orch s)) i = None"
    and "\<And>i j. map_of (q_jobs (y_orch s)) i = Some j \<Longrightarrow>
          (b_started j = None \<longleftrightarrow> y_owner s i = Nobody)
          \<and> y_owner s i \<in> {Nobody, Claimed, Running, Cancelled, Ending True, Ending False}
          \<and> (\<exists>j0. y_made s i = Some j0 \<and> b_targets j0 = b_targets j)"
  shows "life_ok s"
  using assms by (auto simp: life_ok_def in_table_def)

lemma life_okD:
  assumes "life_ok s"
  shows "y_sub s i = Unborn \<Longrightarrow> y_owner s i = Nobody \<and> map_of (q_jobs (y_orch s)) i = None"
    and "map_of (q_jobs (y_orch s)) i = Some j \<Longrightarrow>
          (b_started j = None \<longleftrightarrow> y_owner s i = Nobody)
          \<and> y_owner s i \<in> {Nobody, Claimed, Running, Cancelled, Ending True, Ending False}
          \<and> (\<exists>j0. y_made s i = Some j0 \<and> b_targets j0 = b_targets j)"
  using assms by (auto simp: life_ok_def in_table_def)

text \<open>A step that changes neither the table nor who owns which job.\<close>

lemma life_ok_quiet:
  assumes "life_ok s" "q_jobs (y_orch s') = q_jobs (y_orch s)" "y_owner s' = y_owner s" "y_made s' = y_made s"
    "\<And>i. y_sub s' i = Unborn \<Longrightarrow> y_sub s i = Unborn"
  shows "life_ok s'"
  using assms life_okD [OF assms(1)] by (intro life_okI) auto

text \<open>A step that takes one job out of the table, or changes its owner.\<close>

lemma life_ok_owner:
  assumes "life_ok s" "y_sub s i \<noteq> Unborn" "y_made s' = y_made s" "y_owner s' = (y_owner s)(i := x)"
    "\<And>k. y_sub s' k = Unborn \<longleftrightarrow> y_sub s k = Unborn"
    "\<And>k. k \<noteq> i \<Longrightarrow> map_of (q_jobs (y_orch s')) k = map_of (q_jobs (y_orch s)) k"
    "map_of (q_jobs (y_orch s')) i = None
     \<or> x \<in> {Claimed, Running, Cancelled, Ending True, Ending False}
        \<and> rel_option (\<lambda>j' j. b_started j' \<noteq> None \<and> b_targets j' = b_targets j)
            (map_of (q_jobs (y_orch s')) i) (map_of (q_jobs (y_orch s)) i)"
  shows "life_ok s'"
proof (rule life_okI)
  fix k assume "y_sub s' k = Unborn"
  then have "y_sub s k = Unborn" using assms(5) by simp
  from life_okD(1) [OF assms(1) this] have "y_owner s k = Nobody" "map_of (q_jobs (y_orch s)) k = None" by auto
  moreover have "k \<noteq> i" using \<open>y_sub s k = Unborn\<close> assms(2) by auto
  ultimately show "y_owner s' k = Nobody \<and> map_of (q_jobs (y_orch s')) k = None" using assms(4,6) by simp
next
  fix k j assume j: "map_of (q_jobs (y_orch s')) k = Some j"
  show "(b_started j = None \<longleftrightarrow> y_owner s' k = Nobody)
          \<and> y_owner s' k \<in> {Nobody, Claimed, Running, Cancelled, Ending True, Ending False}
          \<and> (\<exists>j0. y_made s' k = Some j0 \<and> b_targets j0 = b_targets j)"
  proof (cases "k = i")
    case True
    then have x: "x \<in> {Claimed, Running, Cancelled, Ending True, Ending False}" and
      "rel_option (\<lambda>j' j. b_started j' \<noteq> None \<and> b_targets j' = b_targets j)
            (Some j) (map_of (q_jobs (y_orch s)) i)" using assms(7) j by auto
    then obtain j1 where "map_of (q_jobs (y_orch s)) i = Some j1" "b_started j \<noteq> None" "b_targets j = b_targets j1"
      by (auto elim: option.rel_cases)
    then show ?thesis using life_okD(2) [OF assms(1), of i j1] True assms(3,4) x by auto
  next
    case False
    then show ?thesis using life_okD(2) [OF assms(1), of k j] assms(3,4,6) j by auto
  qed
qed

lemma owned_not_unborn:
  assumes "life_ok s"
  shows "y_owner s i \<noteq> Nobody \<Longrightarrow> y_sub s i \<noteq> Unborn"
    and "map_of (q_jobs (y_orch s)) i = Some j \<Longrightarrow> y_sub s i \<noteq> Unborn"
  using life_okD(1) [OF assms, of i] by auto

lemma rel_same: "(\<And>j. m = Some j \<Longrightarrow> P j j) \<Longrightarrow> rel_option P m m"
  by (cases m) auto

section \<open>Slots and saves\<close>

definition with_slot :: "owner \<Rightarrow> bool" where
  "with_slot x \<longleftrightarrow> x \<in> {Running, Ending True, Saving True, Clearing True, Leaving True}"

definition disp_slot :: "dispatcher \<Rightarrow> nat" where
  "disp_slot x = (case x of Waiting \<Rightarrow> 0 | Popped _ \<Rightarrow> 0 | _ \<Rightarrow> 1)"

definition slots_ok :: "nat \<Rightarrow> sys \<Rightarrow> bool" where
  "slots_ok n s \<longleftrightarrow> y_slots s + length (y_runners s) + disp_slot (y_disp s) = n
     \<and> distinct (y_runners s) \<and> (\<forall>i. i \<in> set (y_runners s) \<longleftrightarrow> with_slot (y_owner s i))
     \<and> (\<forall>i. y_owner s i = Claimed \<longleftrightarrow> y_disp s = Starting i \<or> y_disp s = Launching i)"

lemma slots_ok_start: "slots_ok n (start_sys n)"
  by (simp add: slots_ok_def start_sys_def disp_slot_def with_slot_def)

definition is_saving :: "owner \<Rightarrow> bool" where
  "is_saving x \<longleftrightarrow> x \<in> {Saving True, Saving False}"

definition is_kept :: "owner \<Rightarrow> bool" where
  "is_kept x \<longleftrightarrow> x \<in> {Clearing True, Clearing False, Leaving True, Leaving False, Over}"

definition saves_ok :: "sys \<Rightarrow> bool" where
  "saves_ok s \<longleftrightarrow> q_saving (y_orch s) = length (y_savers s) \<and> distinct (y_savers s)
     \<and> (\<forall>i. i \<in> set (y_savers s) \<longleftrightarrow> is_saving (y_owner s i))
     \<and> distinct (y_kept s) \<and> list_all (\<lambda>i. is_kept (y_owner s i)) (y_kept s)"

lemma saves_ok_start: "saves_ok (start_sys n)"
  by (simp add: saves_ok_def start_sys_def start_orch_def is_saving_def)

lemma drain_ids_present: "k \<in> set (fst (drain_claim time q)) \<Longrightarrow> map_of (q_jobs q) k \<noteq> None"
  unfolding map_of_eq_None_iff by (auto simp: drain_claim_def intro: rev_image_eqI)

lemma drain_ids_distinct_started:
  assumes "keys_distinct (q_jobs q)" "k \<in> set (fst (drain_claim time q))"
  shows "\<exists>j. map_of (q_jobs q) k = Some j \<and> b_started j = None"
  using assms by (auto simp: drain_claim_def keys_distinct_def intro!: map_of_is_SomeI)

lemma act_life:
  assumes "act lost is_id e s = Some s'" "life_ok s" "slots_ok n s"
  shows "life_ok s'"
proof (cases e)
  case (Submit i user m targets)
  let ?j = "\<lparr>b_user = user, b_devices = m, b_targets = targets, b_started = None, b_cancel = False\<rparr>"
  from assms(1) Submit obtain q where q: "submit_claim i ?j (y_orch s) = Inr q" "y_sub s i = Unborn"
      and s': "s' = set_sub i Held (set_orch q (s\<lparr>y_made := (y_made s)(i := Some ?j)\<rparr>))"
    by (auto simp: do_submit_def Let_def split: if_splits sum.splits)
  from submit_claim_jobs [OF q(1)] have jobs: "map_of (q_jobs q) = (map_of (q_jobs (y_orch s)))(i \<mapsto> ?j)"
    by (simp add: update_conv')
  show ?thesis
  proof (rule life_okI, goal_cases)
    case (1 k)
    then show ?case using life_okD(1) [OF assms(2), of k] by (auto simp: s' sys_defs jobs split: if_splits)
  next
    case (2 k j)
    then show ?case using life_okD(1) [OF assms(2) q(2)] life_okD(2) [OF assms(2), of k j]
      by (auto simp: s' sys_defs jobs split: if_splits)
  qed
next
  case (Withdraw i)
  from assms(1) Withdraw obtain b where b: "y_sub s i = Withdrawing b"
      "s' = set_sub i (Undoing b) (set_orch (snd (remove_job i (y_orch s))) s)"
    by (auto simp: do_withdraw_def split: submission.splits)
  then show ?thesis
    by (intro life_ok_owner [OF assms(2), where i = i and x = "y_owner s i"]) (auto simp: sys_defs)
next
  case (Cancel_Broken i)
  with assms(1) have "y_owner s i = Cancelled" "s' = set_owner i Over (set_orch (snd (remove_job i (y_orch s))) s)"
    by (auto simp: do_cancel_broken_def only_if_def split: if_splits)
  then show ?thesis using owned_not_unborn(1) [OF assms(2), of i]
    by (intro life_ok_owner [OF assms(2), where i = i and x = Over]) (auto simp: sys_defs)
next
  case (Finalize i)
  from assms(1) Finalize obtain slot found q x where f: "y_owner s i = Ending slot"
      "finalize_take i (y_orch s) = (found, q)" "y_orch s' = q" "y_owner s' = (y_owner s)(i := x)"
      "y_made s' = y_made s" "y_sub s' = y_sub s"
    by (auto simp: do_finalize_def sys_defs split: owner.splits prod.splits option.splits)
  then show ?thesis using owned_not_unborn(1) [OF assms(2), of i] finalize_take_jobs [OF f(2)]
    by (intro life_ok_owner [OF assms(2), where i = i and x = x]) auto
next
  case (Cancel i time)
  from assms(1) Cancel obtain answer q where c: "cancel_claim i time (y_orch s) = (answer, q)" "answer \<noteq> Unknown_Job"
      and s': "s' = (if answer = Was_Queued then set_owner i Cancelled (set_orch q s) else (set_orch q s)\<lparr>y_asked := i # y_asked s\<rparr>)"
    by (auto simp: do_cancel_def split: prod.splits cancel_answer.splits)
  show ?thesis
  proof (cases answer)
    case Was_Queued
    with cancel_claim_jobs [OF c(1)] obtain j where "map_of (q_jobs (y_orch s)) i = Some j"
        "q = set_job i (j\<lparr>b_started := Some time\<rparr>) (y_orch s)" by auto
    then show ?thesis using owned_not_unborn(2) [OF assms(2)] s' Was_Queued
      by (intro life_ok_owner [OF assms(2), where i = i and x = Cancelled]) (auto simp: sys_defs)
  next
    case Was_Running
    with cancel_claim_jobs [OF c(1)] obtain j where "map_of (q_jobs (y_orch s)) i = Some j" "b_started j \<noteq> None"
        "q = set_job i (ask_to_stop j) (y_orch s)" by auto
    then show ?thesis using owned_not_unborn(2) [OF assms(2)] s' Was_Running life_okD(2) [OF assms(2), of i j]
      by (intro life_ok_owner [OF assms(2), where i = i and x = "y_owner s i"]) (auto simp: sys_defs)
  qed (use c in simp)
next
  case (Drain time)
  let ?ids = "fst (drain_claim time (y_orch s))"
  from assms(1) Drain have s': "s' = (set_orch (snd (drain_claim time (y_orch s))) s)
      \<lparr>y_owner := (\<lambda>i. if i \<in> set ?ids then Cancelled else y_owner s i)\<rparr>"
    by (auto simp: do_drain_def split: prod.splits)
  have jobs: "map_of (q_jobs (y_orch s')) k = map_option (\<lambda>j. snd (claim time j)) (map_of (q_jobs (y_orch s)) k)" for k
    by (simp add: s' sys_defs drain_claim_def map_of_map_values)
  have claimed: "k \<in> set ?ids \<Longrightarrow> map_of (q_jobs (y_orch s)) k \<noteq> None" for k
    by (rule drain_ids_present)
  show ?thesis
  proof (rule life_okI, goal_cases)
    case (1 k)
    then have "y_sub s k = Unborn" by (simp add: s' sys_defs)
    from life_okD(1) [OF assms(2) this] show ?case using claimed [of k] jobs [of k] by (auto simp: s' sys_defs)
  next
    case (2 k j')
    then obtain j where j: "map_of (q_jobs (y_orch s)) k = Some j" "j' = snd (claim time j)" using jobs by auto
    have "k \<in> set ?ids" if "b_started j = None"
      using that map_of_SomeD [OF j(1)] by (force simp: drain_claim_def)
    then show ?case using life_okD(2) [OF assms(2) j(1)] j(2) by (auto simp: s' sys_defs)
  qed
next
  case Drain_Cancel
  with assms(1) have s': "s' = (set_orch (cancel_all (y_orch s)) s)\<lparr>y_asked := map fst (q_jobs (y_orch s)) @ y_asked s\<rparr>"
    by (auto simp: do_drain_cancel_def only_if_def split: if_splits)
  have "map_of (q_jobs (y_orch s')) k = map_option ask_to_stop (map_of (q_jobs (y_orch s)) k)" for k
    by (simp add: s' sys_defs cancel_all_def map_of_map_values)
  then show ?thesis using life_okD [OF assms(2)] by (intro life_okI) (auto simp: s' sys_defs)
next
  case (Claim time)
  from assms(1) Claim obtain i where i: "y_disp s = Slotted i" and
    s': "s' = set_disp Returning s \<or> (\<exists>q. dispatch_claim i time (y_orch s) = (True, q)
        \<and> s' = set_disp (Starting i) (set_owner i Claimed (set_orch q s)))"
    by (auto simp: do_claim_def split: dispatcher.splits prod.splits bool.splits)
  show ?thesis
  proof (cases "s' = set_disp Returning s")
    case True
    then show ?thesis using assms(2) by (intro life_ok_quiet [OF assms(2)]) (auto simp: sys_defs)
  next
    case False
    then obtain q where q: "dispatch_claim i time (y_orch s) = (True, q)"
        "s' = set_disp (Starting i) (set_owner i Claimed (set_orch q s))" using s' by auto
    from dispatch_claim_jobs [OF q(1)] obtain j where "map_of (q_jobs (y_orch s)) i = Some j"
        "q = set_job i (j\<lparr>b_started := Some time\<rparr>) (y_orch s)" by auto
    then show ?thesis using owned_not_unborn(2) [OF assms(2)] q(2)
      by (intro life_ok_owner [OF assms(2), where i = i and x = Claimed]) (auto simp: sys_defs)
  qed
next
  case (Launch time)
  from assms(1) Launch obtain i where i: "y_disp s = Launching i" "s' = (set_disp Waiting (set_owner i Running
            (set_orch (mark_started i time (y_orch s)) s)))\<lparr>y_runners := i # y_runners s\<rparr>"
    by (auto simp: do_launch_def split: dispatcher.splits)
  then have own: "y_owner s i = Claimed" using assms(3) by (simp add: slots_ok_def)
  then show ?thesis using owned_not_unborn(1) [OF assms(2), of i] i
    by (intro life_ok_owner [OF assms(2), where i = i and x = Running])
       (auto simp: sys_defs option.rel_map intro!: option.rel_refl_strong)
next
  case (Run_Ends i)
  with assms(1) have "y_owner s i = Running" "s' = set_owner i (Ending True) s"
    by (auto simp: do_run_ends_def only_if_def split: if_splits)
  then show ?thesis using owned_not_unborn(1) [OF assms(2), of i] life_okD(2) [OF assms(2), of i]
    by (intro life_ok_owner [OF assms(2), where i = i and x = "Ending True"])
       (auto simp: sys_defs intro!: rel_same)
next
  case (Cancel_Unqueue i time reached)
  with assms(1) have "y_owner s i = Cancelled" "y_owner s' = (y_owner s)(i := Ending False)"
      "y_orch s' = mark_started i time (y_orch s)" "y_made s' = y_made s" "y_sub s' = y_sub s"
    by (auto simp: do_cancel_unqueue_def sys_defs split: if_splits)
  then show ?thesis using owned_not_unborn(1) [OF assms(2), of i]
    by (intro life_ok_owner [OF assms(2), where i = i and x = "Ending False"])
       (auto simp: option.rel_map intro!: option.rel_refl_strong)
next
  case (Save i)
  from assms(1) Save obtain slot where "y_owner s i = Saving slot" "y_owner s' = (y_owner s)(i := Clearing slot)"
      "q_jobs (y_orch s') = q_jobs (y_orch s)" "y_made s' = y_made s" "y_sub s' = y_sub s"
    by (auto simp: do_save_def sys_defs saved_one_def split: owner.splits)
  then show ?thesis using owned_not_unborn(1) [OF assms(2), of i] life_okD(2) [OF assms(2), of i]
    by (intro life_ok_owner [OF assms(2), where i = i and x = "Clearing slot"]) (auto, fastforce)
next
  case (Clear i reached)
  from assms(1) Clear obtain slot where "y_owner s i = Clearing slot" "y_owner s' = (y_owner s)(i := Leaving slot)"
      "y_orch s' = y_orch s" "y_made s' = y_made s" "y_sub s' = y_sub s"
    by (auto simp: do_clear_def sys_defs split: owner.splits)
  then show ?thesis using owned_not_unborn(1) [OF assms(2), of i] life_okD(2) [OF assms(2), of i]
    by (intro life_ok_owner [OF assms(2), where i = i and x = "Leaving slot"]) (auto, fastforce)
next
  case (Leave i)
  from assms(1) Leave obtain slot where "y_owner s i = Leaving slot" "y_owner s' = (y_owner s)(i := Over)"
      "y_orch s' = y_orch s" "y_made s' = y_made s" "y_sub s' = y_sub s"
    by (auto simp: do_leave_def sys_defs split: owner.splits)
  then show ?thesis using owned_not_unborn(1) [OF assms(2), of i] life_okD(2) [OF assms(2), of i]
    by (intro life_ok_owner [OF assms(2), where i = i and x = Over]) (auto, fastforce)
qed (rule life_ok_quiet [OF assms(2)], use assms(1) in \<open>auto simp: event_defs sys_defs pause_orch_def resume_orch_def Let_def
         split: if_splits fate.splits submission.splits dispatcher.splits prod.splits option.splits\<close>)+

text \<open>A change of owner that neither takes nor gives back a slot.\<close>

lemma slots_ok_owner:
  assumes "slots_ok n s" "y_slots s' = y_slots s" "y_runners s' = y_runners s" "y_disp s' = y_disp s"
    "\<And>k. with_slot (y_owner s' k) = with_slot (y_owner s k)" "\<And>k. y_owner s' k = Claimed \<longleftrightarrow> y_owner s k = Claimed"
  shows "slots_ok n s'"
  using assms by (simp add: slots_ok_def)

lemma length_removeAll_once: "i \<in> set l \<Longrightarrow> distinct l \<Longrightarrow> Suc (length (removeAll i l)) = length l"
  by (induction l) (auto simp: removeAll_id)

lemma cancel_queued_owner:
  assumes "life_ok s" "cancel_claim i time (y_orch s) = (Was_Queued, q)"
  shows "y_owner s i = Nobody"
  using cancel_claim_jobs [OF assms(2)] life_okD(2) [OF assms(1)] by auto

lemma drained_owner:
  assumes "life_ok s" "table_ok (y_orch s)" "i \<in> set (fst (drain_claim time (y_orch s)))"
  shows "y_owner s i = Nobody"
  using drain_ids_distinct_started [OF _ assms(3)] assms(1,2) life_okD(2) [OF assms(1), of i]
  by (auto simp: table_ok_def)

lemma act_slots:
  assumes "act lost is_id e s = Some s'" "slots_ok n s" "life_ok s" "table_ok (y_orch s)"
  shows "slots_ok n s'"
proof (cases e)
  case (Cancel i time)
  from assms(1) Cancel obtain answer q where c: "cancel_claim i time (y_orch s) = (answer, q)"
      and s': "s' = (if answer = Was_Queued then set_owner i Cancelled (set_orch q s) else (set_orch q s)\<lparr>y_asked := i # y_asked s\<rparr>)"
    by (auto simp: do_cancel_def split: prod.splits cancel_answer.splits)
  have "answer = Was_Queued \<Longrightarrow> y_owner s i = Nobody" using c cancel_queued_owner [OF assms(3)] by auto
  then show ?thesis by (intro slots_ok_owner [OF assms(2)]) (auto simp: s' sys_defs with_slot_def)
next
  case (Drain time)
  then have s': "s' = (set_orch (snd (drain_claim time (y_orch s))) s)
      \<lparr>y_owner := (\<lambda>i. if i \<in> set (fst (drain_claim time (y_orch s))) then Cancelled else y_owner s i)\<rparr>"
    using assms(1) by (auto simp: do_drain_def split: prod.splits)
  have "k \<in> set (fst (drain_claim time (y_orch s))) \<Longrightarrow> y_owner s k = Nobody" for k
    using drained_owner [OF assms(3,4)] .
  then show ?thesis by (intro slots_ok_owner [OF assms(2)]) (auto simp: s' sys_defs with_slot_def)
next
  case (Claim time)
  from assms(1) Claim obtain i where i: "y_disp s = Slotted i" and
    s': "s' = set_disp Returning s \<or> (\<exists>q. dispatch_claim i time (y_orch s) = (True, q)
        \<and> s' = set_disp (Starting i) (set_owner i Claimed (set_orch q s)))"
    by (auto simp: do_claim_def split: dispatcher.splits prod.splits bool.splits)
  have "y_owner s i = Nobody" if "dispatch_claim i time (y_orch s) = (True, q)" for q
    using dispatch_claim_jobs [OF that] life_okD(2) [OF assms(3)] by auto
  then show ?thesis using s' assms(2) i
    by (auto simp: slots_ok_def sys_defs disp_slot_def with_slot_def split: if_splits)
next
  case (Launch time)
  from assms(1) Launch obtain i where i: "y_disp s = Launching i" "s' = (set_disp Waiting (set_owner i Running
            (set_orch (mark_started i time (y_orch s)) s)))\<lparr>y_runners := i # y_runners s\<rparr>"
    by (auto simp: do_launch_def split: dispatcher.splits)
  have own: "y_owner s k = Claimed \<longleftrightarrow> k = i" for k using assms(2) i(1) by (auto simp: slots_ok_def)
  have "with_slot (y_owner s' k) \<longleftrightarrow> k = i \<or> with_slot (y_owner s k)" for k
    using i(2) by (simp add: sys_defs with_slot_def)
  moreover have "\<not> with_slot Claimed" by (simp add: with_slot_def)
  then have "\<not> with_slot (y_owner s i)" using own [of i] by simp
  then have "i \<notin> set (y_runners s)" using assms(2) by (simp add: slots_ok_def)
  moreover have "y_owner s' k \<noteq> Claimed" for k using own [of k] i(2) by (simp add: sys_defs)
  moreover have "y_slots s' = y_slots s" "y_runners s' = i # y_runners s" "y_disp s' = Waiting"
    using i(2) by (simp_all add: sys_defs)
  ultimately show ?thesis using assms(2) i(1) by (simp add: slots_ok_def disp_slot_def)
next
  case (Leave i)
  from assms(1) Leave obtain slot where l: "y_owner s i = Leaving slot" "s' = set_owner i Over
          (if slot then s\<lparr>y_slots := Suc (y_slots s), y_runners := removeAll i (y_runners s)\<rparr> else s)"
    by (auto simp: do_leave_def split: owner.splits)
  show ?thesis
  proof (cases slot)
    case True
    then have "i \<in> set (y_runners s)" "distinct (y_runners s)" using l assms(2) by (auto simp: slots_ok_def with_slot_def)
    then have "Suc (length (removeAll i (y_runners s))) = length (y_runners s)"
      by (rule length_removeAll_once)
    moreover have "y_owner s i \<noteq> Claimed" using l(1) by simp
    then have "y_disp s \<noteq> Starting i" "y_disp s \<noteq> Launching i" using assms(2) by (simp_all add: slots_ok_def)
    ultimately show ?thesis using True l assms(2)
      by (auto simp: slots_ok_def sys_defs with_slot_def distinct_removeAll)
  next
    case False
    then show ?thesis using l by (intro slots_ok_owner [OF assms(2)]) (auto simp: sys_defs with_slot_def)
  qed
next
  case (Acquire)
  with assms(1,2) show ?thesis
    by (auto simp: do_acquire_def sys_defs slots_ok_def disp_slot_def split: dispatcher.splits if_splits)
next
  case (Give_Back)
  with assms(1,2) show ?thesis
    by (auto simp: do_give_back_def sys_defs slots_ok_def disp_slot_def split: if_splits)
next
  case (Pop)
  with assms(1,2) show ?thesis
    by (auto simp: do_pop_def sys_defs slots_ok_def disp_slot_def split: option.splits if_splits prod.splits)
next
  case (Started time how)
  with assms(1,2) show ?thesis
    by (auto simp: do_started_def sys_defs slots_ok_def disp_slot_def split: dispatcher.splits fate.splits if_splits)
qed (rule slots_ok_owner [OF assms(2)], use assms(1) in
      \<open>auto simp: event_defs sys_defs with_slot_def Let_def
         split: if_splits fate.splits submission.splits owner.splits prod.splits option.splits sum.splits\<close>)+

section \<open>The saves\<close>

lemma saves_ok_owner:
  assumes "saves_ok s" "q_saving (y_orch s') = q_saving (y_orch s)" "y_savers s' = y_savers s" "y_kept s' = y_kept s"
    "\<And>k. is_saving (y_owner s' k) = is_saving (y_owner s k)" "\<And>k. is_kept (y_owner s k) \<Longrightarrow> is_kept (y_owner s' k)"
  shows "saves_ok s'"
  using assms by (auto simp: saves_ok_def list_all_iff)

lemma saving_simps [simp]:
  "q_saving (snd (remove_job i q)) = q_saving q" "q_saving (mark_started i time q) = q_saving q"
  "q_saving (snd (drain_claim time q)) = q_saving q" "q_saving (cancel_all q) = q_saving q"
  "q_saving (pause_orch q) = q_saving q" "q_saving (resume_orch q) = q_saving q"
  by (simp_all add: remove_job_def mark_started_def set_job_def drain_claim_def cancel_all_def pause_orch_def
      resume_orch_def split: option.split)

lemma act_saves:
  assumes "act lost is_id e s = Some s'" "saves_ok s" "slots_ok n s" "life_ok s" "table_ok (y_orch s)"
  shows "saves_ok s'"
proof (cases e)
  case (Submit i user m targets)
  then show ?thesis using assms(1) submit_claim_jobs
    by (intro saves_ok_owner [OF assms(2)]) (auto simp: do_submit_def sys_defs Let_def split: if_splits sum.splits)
next
  case (Cancel i time)
  from assms(1) Cancel obtain answer q where c: "cancel_claim i time (y_orch s) = (answer, q)"
      and s': "s' = (if answer = Was_Queued then set_owner i Cancelled (set_orch q s) else (set_orch q s)\<lparr>y_asked := i # y_asked s\<rparr>)"
    by (auto simp: do_cancel_def split: prod.splits cancel_answer.splits)
  have "answer = Was_Queued \<Longrightarrow> y_owner s i = Nobody" using c cancel_queued_owner [OF assms(4)] by auto
  moreover have "q_saving q = q_saving (y_orch s)" using cancel_claim_jobs [OF c] by simp
  ultimately show ?thesis
    by (intro saves_ok_owner [OF assms(2)]) (auto simp: s' sys_defs is_saving_def is_kept_def)
next
  case (Drain time)
  then have s': "s' = (set_orch (snd (drain_claim time (y_orch s))) s)
      \<lparr>y_owner := (\<lambda>i. if i \<in> set (fst (drain_claim time (y_orch s))) then Cancelled else y_owner s i)\<rparr>"
    using assms(1) by (auto simp: do_drain_def split: prod.splits)
  have "k \<in> set (fst (drain_claim time (y_orch s))) \<Longrightarrow> y_owner s k = Nobody" for k
    using drained_owner [OF assms(4,5)] .
  then show ?thesis by (intro saves_ok_owner [OF assms(2)]) (auto simp: s' sys_defs is_saving_def is_kept_def)
next
  case (Claim time)
  from assms(1) Claim obtain i where
    s': "s' = set_disp Returning s \<or> (\<exists>q. dispatch_claim i time (y_orch s) = (True, q)
        \<and> s' = set_disp (Starting i) (set_owner i Claimed (set_orch q s)))"
    by (auto simp: do_claim_def split: dispatcher.splits prod.splits bool.splits)
  have "y_owner s i = Nobody \<and> q_saving q = q_saving (y_orch s)" if "dispatch_claim i time (y_orch s) = (True, q)" for q
    using dispatch_claim_jobs [OF that] life_okD(2) [OF assms(4)] by (auto simp: set_job_def)
  then show ?thesis using s'
    by (intro saves_ok_owner [OF assms(2)]) (auto simp: sys_defs is_saving_def is_kept_def split: if_splits)
next
  case (Launch time)
  from assms(1) Launch obtain i where i: "y_disp s = Launching i" "s' = (set_disp Waiting (set_owner i Running
            (set_orch (mark_started i time (y_orch s)) s)))\<lparr>y_runners := i # y_runners s\<rparr>"
    by (auto simp: do_launch_def split: dispatcher.splits)
  then have "y_owner s i = Claimed" using assms(3) by (simp add: slots_ok_def)
  then show ?thesis using i
    by (intro saves_ok_owner [OF assms(2)]) (auto simp: sys_defs is_saving_def is_kept_def)
next
  case (Finalize i)
  from assms(1) Finalize obtain slot found q where f: "y_owner s i = Ending slot"
      "finalize_take i (y_orch s) = (found, q)"
      "s' = (case found of None \<Rightarrow> set_owner i (Leaving slot) (set_orch q s)
         | Some _ \<Rightarrow> (set_owner i (Saving slot) (set_orch q s))\<lparr>y_savers := i # y_savers s\<rparr>)"
    by (auto simp: do_finalize_def split: owner.splits prod.splits option.splits)
  have n: "q_saving q = (if found = None then q_saving (y_orch s) else Suc (q_saving (y_orch s)))"
    using finalize_take_jobs [OF f(2)] by simp
  show ?thesis
  proof (cases found)
    case None
    then show ?thesis using f(1,3) n
      by (intro saves_ok_owner [OF assms(2)]) (auto simp: sys_defs is_saving_def is_kept_def)
  next
    case (Some j)
    have "i \<notin> set (y_savers s)" "i \<notin> set (y_kept s)" using assms(2) f(1)
      by (auto simp: saves_ok_def is_saving_def is_kept_def list_all_iff)
    moreover have "is_saving (y_owner s' k) \<longleftrightarrow> k = i \<or> is_saving (y_owner s k)" for k
      using f(3) Some by (cases slot) (simp_all add: sys_defs is_saving_def)
    moreover have "k \<noteq> i \<Longrightarrow> y_owner s' k = y_owner s k" for k using f(3) Some by (simp add: sys_defs)
    ultimately show ?thesis using assms(2) f(3) n Some by (auto simp: saves_ok_def sys_defs list_all_iff)
  qed
next
  case (Save i)
  from assms(1) Save obtain slot where v: "y_owner s i = Saving slot" "s' = (set_owner i (Clearing slot) (set_orch (saved_one (y_orch s)) s))
                        \<lparr>y_savers := removeAll i (y_savers s), y_kept := y_kept s @ [i]\<rparr>"
    by (auto simp: do_save_def split: owner.splits)
  have i: "i \<in> set (y_savers s)" "distinct (y_savers s)" "i \<notin> set (y_kept s)"
    using v(1) assms(2) by (cases slot; auto simp: saves_ok_def is_saving_def is_kept_def list_all_iff)+
  then have "length (removeAll i (y_savers s)) = length (y_savers s) - 1"
    using length_removeAll_once [of i "y_savers s"] by simp
  then show ?thesis using v i assms(2)
    by (cases slot; auto simp: saves_ok_def sys_defs saved_one_def is_saving_def is_kept_def list_all_iff distinct_removeAll)
qed (rule saves_ok_owner [OF assms(2)], use assms(1) in
      \<open>auto simp: event_defs sys_defs is_saving_def is_kept_def Let_def
         split: if_splits fate.splits submission.splits dispatcher.splits owner.splits prod.splits option.splits sum.splits\<close>)+

end
