(* ===== verification/Orchestrator_Flow.thy ===== *)
theory Orchestrator_Flow
  imports Orchestrator_Invariants
begin

text \<open>
  When a call to Redis that raises had no effect: a job on its way to the devices was submitted whole,
  and one that has them - claimed by the dispatcher, running, or about to be finalised - is in the table.
\<close>

definition has_devices :: "owner \<Rightarrow> bool" where
  "has_devices x \<longleftrightarrow> x \<in> {Claimed, Running, Ending True}"

definition on_its_way :: "sys \<Rightarrow> string \<Rightarrow> bool" where
  "on_its_way s i \<longleftrightarrow> i \<in> set (k_queue (y_store s))
     \<or> y_disp s \<in> {Popped i, Slotted i, Starting i, Launching i} \<or> has_devices (y_owner s i)"

definition flow_ok :: "sys \<Rightarrow> bool" where
  "flow_ok s \<longleftrightarrow> (\<forall>i. on_its_way s i \<longrightarrow> y_sub s i = Submitted)
     \<and> (\<forall>i. has_devices (y_owner s i) \<longrightarrow> in_table s i)"

lemma flow_ok_start: "flow_ok (start_sys n)"
  by (simp add: flow_ok_def on_its_way_def has_devices_def start_sys_def empty_store_def)

lemma flow_frame:
  assumes "flow_ok s" "\<And>i. on_its_way s' i \<Longrightarrow> on_its_way s i" "\<And>i. on_its_way s i \<Longrightarrow> y_sub s i = Submitted \<Longrightarrow> y_sub s' i = Submitted"
    "\<And>i. has_devices (y_owner s' i) \<Longrightarrow> has_devices (y_owner s i)"
    "\<And>i. has_devices (y_owner s' i) \<Longrightarrow> in_table s i \<Longrightarrow> in_table s' i"
  shows "flow_ok s'"
  using assms unfolding flow_ok_def by blast

lemma queue_simps [simp]:
  "k_queue (store_add i u n c st) = k_queue st" "k_queue (store_started i t st) = k_queue st"
  "k_queue (store_finished i u b st) = k_queue st" "k_queue (store_forget i u st) = k_queue st"
  "k_queue (store_set_status i x st) = k_queue st" "k_queue (store_unqueue i st) = removeAll i (k_queue st)"
  "k_queue (store_enqueue i st) = k_queue st @ [i]"
  by (simp_all add: store_add_def store_started_def store_finished_def store_forget_def store_set_status_def
      store_unqueue_def store_enqueue_def sadd_def srem_def hset_def Let_def)

lemma in_table_same: "same_targets (y_orch s) (y_orch s') \<Longrightarrow> in_table s' i \<longleftrightarrow> in_table s i"
  unfolding in_table_def same_targets_def map_of_eq_None_iff by (metis image_set)

lemma act_flow:
  assumes "act False is_id e s = Some s'" "flow_ok s" "life_ok s" "slots_ok n s" "table_ok (y_orch s)"
  shows "flow_ok s'"
proof (cases e)
  case (Submit i user m targets)
  from assms(1) Submit obtain j q where q: "submit_claim i j (y_orch s) = Inr q" "y_sub s i = Unborn"
      and s': "s' = set_sub i Held (set_orch q (s\<lparr>y_made := (y_made s)(i := Some j)\<rparr>))"
    by (auto simp: do_submit_def Let_def split: if_splits sum.splits)
  have "\<not> on_its_way s i" using assms(2) q(2) by (auto simp: flow_ok_def)
  then show ?thesis using submit_claim_jobs [OF q(1)] unfolding s'
    by (intro flow_frame [OF assms(2)])
       (auto simp: sys_defs on_its_way_def in_table_def update_conv' split: if_splits)
next
  case (Add i created how)
  then have h: "y_sub s i = Held" using assms(1) by (auto simp: do_add_def split: if_splits)
  then have "\<not> on_its_way s i" using assms(2) by (auto simp: flow_ok_def)
  then show ?thesis using assms(1) Add h
    by (intro flow_frame [OF assms(2)])
       (auto simp: do_add_def sys_defs on_its_way_def in_table_def split: fate.splits if_splits)
next
  case (Record i ok)
  then have h: "y_sub s i = Added" using assms(1) by (auto simp: do_record_def only_if_def split: if_splits)
  then have "\<not> on_its_way s i" using assms(2) by (auto simp: flow_ok_def)
  then show ?thesis using assms(1) Record h
    by (intro flow_frame [OF assms(2)])
       (auto simp: do_record_def sys_defs on_its_way_def in_table_def split: if_splits)
next
  case (Enqueue i how)
  then have h: "y_sub s i = Recorded" using assms(1) by (auto simp: do_enqueue_def split: if_splits)
  then have off: "\<not> on_its_way s i" using assms(2) by (auto simp: flow_ok_def)
  show ?thesis
  proof (cases "how = Applied")
    case True
    then have s': "s' = set_sub i Submitted (set_store (store_enqueue i (y_store s)) s)"
      using assms(1) Enqueue h by (simp add: do_enqueue_def try_store_def)
    show ?thesis using assms(2) unfolding flow_ok_def
      by (auto simp: s' sys_defs on_its_way_def in_table_def)
  next
    case False
    then show ?thesis using assms(1) Enqueue h off
      by (intro flow_frame [OF assms(2)])
         (auto simp: do_enqueue_def sys_defs on_its_way_def in_table_def split: fate.splits if_splits)
  qed
next
  case (Withdraw i)
  from assms(1) Withdraw obtain b where b: "y_sub s i = Withdrawing b"
      "s' = set_sub i (Undoing b) (set_orch (snd (remove_job i (y_orch s))) s)"
    by (auto simp: do_withdraw_def split: submission.splits)
  then have "\<not> on_its_way s i" using assms(2) by (auto simp: flow_ok_def)
  then show ?thesis unfolding b(2)
    by (intro flow_frame [OF assms(2)]) (auto simp: sys_defs on_its_way_def in_table_def split: if_splits)
next
  case (Undo i unqueued gone)
  from assms(1) Undo obtain b st where b: "y_sub s i = Undoing b" "s' = set_sub i Withdrawn (set_store st s)"
      "set (k_queue st) \<subseteq> set (k_queue (y_store s))"
    by (auto simp: do_undo_def Let_def split: submission.splits)
  have "\<not> on_its_way s i" using assms(2) b(1) by (auto simp: flow_ok_def)
  then show ?thesis unfolding b(2) using b(3)
    by (intro flow_frame [OF assms(2)]) (auto simp: sys_defs on_its_way_def in_table_def split: if_splits)
next
  case (Cancel i time)
  from assms(1) Cancel obtain answer q where c: "cancel_claim i time (y_orch s) = (answer, q)"
      and s': "s' = (if answer = Was_Queued then set_owner i Cancelled (set_orch q s) else (set_orch q s)\<lparr>y_asked := i # y_asked s\<rparr>)"
    by (auto simp: do_cancel_def split: prod.splits cancel_answer.splits)
  have "same_targets (y_orch s) (y_orch s')" using same_cancel_claim [of "y_orch s" i time] c s' by (auto simp: sys_defs)
  from in_table_same [OF this] show ?thesis
    by (intro flow_frame [OF assms(2)]) (auto simp: s' sys_defs on_its_way_def has_devices_def split: if_splits)
next
  case (Drain time)
  then have s': "s' = (set_orch (snd (drain_claim time (y_orch s))) s)
      \<lparr>y_owner := (\<lambda>i. if i \<in> set (fst (drain_claim time (y_orch s))) then Cancelled else y_owner s i)\<rparr>"
    using assms(1) by (auto simp: do_drain_def split: prod.splits)
  have "same_targets (y_orch s) (y_orch s')" using same_drain_claim [of "y_orch s" time] s' by (simp add: sys_defs)
  from in_table_same [OF this] show ?thesis
    by (intro flow_frame [OF assms(2)]) (auto simp: s' sys_defs on_its_way_def has_devices_def split: if_splits)
next
  case (Drain_Cancel)
  then have s': "s' = (set_orch (cancel_all (y_orch s)) s)\<lparr>y_asked := map fst (q_jobs (y_orch s)) @ y_asked s\<rparr>"
    using assms(1) by (auto simp: do_drain_cancel_def only_if_def split: if_splits)
  have "same_targets (y_orch s) (y_orch s')" using same_cancel_all [of "y_orch s"] s' by (simp add: sys_defs)
  from in_table_same [OF this] show ?thesis
    by (intro flow_frame [OF assms(2)]) (auto simp: s' sys_defs on_its_way_def)
next
  case (Cancel_Unqueue i time reached)
  then have s': "y_owner s i = Cancelled" "s' = set_owner i (Ending False)
         (set_store (if reached then store_unqueue i (y_store s) else y_store s)
           (set_orch (mark_started i time (y_orch s)) s))"
    using assms(1) by (auto simp: do_cancel_unqueue_def only_if_def split: if_splits)
  have "same_targets (y_orch s) (y_orch s')" using same_mark_started [of "y_orch s" i time] s' by (simp add: sys_defs)
  from in_table_same [OF this] show ?thesis
    by (intro flow_frame [OF assms(2)]) (auto simp: s' sys_defs on_its_way_def has_devices_def split: if_splits)
next
  case (Cancel_Broken i)
  then have s': "y_owner s i = Cancelled" "s' = set_owner i Over (set_orch (snd (remove_job i (y_orch s))) s)"
    using assms(1) by (auto simp: do_cancel_broken_def only_if_def split: if_splits)
  then show ?thesis
    by (intro flow_frame [OF assms(2)]) (auto simp: sys_defs on_its_way_def has_devices_def in_table_def split: if_splits)
next
  case (Pop)
  from assms(1) Pop obtain entry rest where p: "y_disp s = Waiting" "k_queue (y_store s) = entry # rest"
      "s' = set_disp (if is_id entry then Popped entry else Waiting) (set_store ((y_store s)\<lparr>k_queue := rest\<rparr>) s)"
    by (auto simp: do_pop_def store_next_def split: if_splits list.splits)
  then show ?thesis
    by (intro flow_frame [OF assms(2)]) (auto simp: sys_defs on_its_way_def in_table_def split: if_splits)
next
  case (Claim time)
  from assms(1) Claim obtain i where i: "y_disp s = Slotted i" and
    s': "s' = set_disp Returning s \<or> (\<exists>q. dispatch_claim i time (y_orch s) = (True, q)
        \<and> s' = set_disp (Starting i) (set_owner i Claimed (set_orch q s)))"
    by (auto simp: do_claim_def split: dispatcher.splits prod.splits bool.splits)
  show ?thesis
  proof (cases "s' = set_disp Returning s")
    case True
    then show ?thesis by (intro flow_frame [OF assms(2)]) (auto simp: sys_defs on_its_way_def in_table_def)
  next
    case False
    then obtain q where q: "dispatch_claim i time (y_orch s) = (True, q)"
        "s' = set_disp (Starting i) (set_owner i Claimed (set_orch q s))" using s' by auto
    from dispatch_claim_jobs [OF q(1)] obtain j where j: "map_of (q_jobs (y_orch s)) i = Some j"
        "q = set_job i (j\<lparr>b_started := Some time\<rparr>) (y_orch s)" by auto
    have "on_its_way s' k \<Longrightarrow> on_its_way s k" for k
      using i q(2) by (auto simp: sys_defs on_its_way_def split: if_splits)
    then show ?thesis using assms(2) q(2) j
      by (auto simp: flow_ok_def sys_defs in_table_def)
  qed
next
  case (Launch time)
  from assms(1) Launch obtain i where i: "y_disp s = Launching i" "s' = (set_disp Waiting (set_owner i Running
            (set_orch (mark_started i time (y_orch s)) s)))\<lparr>y_runners := i # y_runners s\<rparr>"
    by (auto simp: do_launch_def split: dispatcher.splits)
  have own: "has_devices (y_owner s i)" using assms(4) i(1) by (simp add: slots_ok_def has_devices_def)
  have "same_targets (y_orch s) (y_orch s')" using same_mark_started [of "y_orch s" i time] i by (simp add: sys_defs)
  from in_table_same [OF this] own show ?thesis
    by (intro flow_frame [OF assms(2)]) (auto simp: i sys_defs on_its_way_def split: if_splits)
next
  case (Run_Ends i)
  then have s': "y_owner s i = Running" "s' = set_owner i (Ending True) s"
    using assms(1) by (auto simp: do_run_ends_def only_if_def split: if_splits)
  then show ?thesis
    by (intro flow_frame [OF assms(2)]) (auto simp: sys_defs on_its_way_def has_devices_def in_table_def split: if_splits)
next
  case (Finalize i)
  from assms(1) Finalize obtain slot found q x where f: "y_owner s i = Ending slot"
      "finalize_take i (y_orch s) = (found, q)" "y_orch s' = q" "y_owner s' = (y_owner s)(i := x)" "\<not> has_devices x"
      "y_store s' = y_store s" "y_disp s' = y_disp s" "y_sub s' = y_sub s"
    by (auto simp: do_finalize_def sys_defs has_devices_def split: owner.splits prod.splits option.splits)
  then show ?thesis using finalize_take_jobs [OF f(2)]
    by (intro flow_frame [OF assms(2)]) (auto simp: on_its_way_def in_table_def split: if_splits)
qed (rule flow_frame [OF assms(2)], use assms(1) in
      \<open>auto simp: event_defs sys_defs has_devices_def on_its_way_def in_table_def pause_orch_def resume_orch_def
          saved_one_def Let_def
         split: if_splits fate.splits dispatcher.splits owner.splits prod.splits option.splits\<close>)+

section \<open>All invariants together\<close>

definition sys_ok :: "nat \<Rightarrow> sys \<Rightarrow> bool" where
  "sys_ok n s \<longleftrightarrow> table_ok (y_orch s) \<and> life_ok s \<and> slots_ok n s \<and> saves_ok s"

lemma sys_ok_start: "sys_ok n (start_sys n)"
  using table_ok_start by (simp add: sys_ok_def life_ok_start slots_ok_start saves_ok_start) (simp add: start_sys_def)

lemma moves_ok: "moves lost is_id s s' \<Longrightarrow> sys_ok n s \<Longrightarrow> sys_ok n s'"
  by (auto simp: moves_iff sys_ok_def intro: act_table act_life act_slots act_saves)

lemma reachable_ok: "reachable lost is_id n s \<Longrightarrow> sys_ok n s"
  by (induction rule: reachable.induct) (auto intro: sys_ok_start moves_ok)

lemma reachable_flow: "reachable False is_id n s \<Longrightarrow> flow_ok s"
proof (induction rule: reachable.induct)
  case (step s s')
  from reachable_ok [OF step(1)] step(2,3) show ?case
    by (auto simp: moves_iff sys_ok_def intro: act_flow)
qed (rule flow_ok_start)

lemma run_ok: "sys_ok n (run_events lost is_id es (start_sys n))"
  by (rule reachable_ok [OF run_events_reachable [OF reachable.start]])

lemma run_flow: "flow_ok (run_events False is_id es (start_sys n))"
  by (rule reachable_flow [OF run_events_reachable [OF reachable.start]])

end
