(* ===== verification/Orchestrator_Properties.thy ===== *)
theory Orchestrator_Properties
  imports Orchestrator_Flow
begin

text \<open>What holds of the orchestrator, however its threads interleave.\<close>

section \<open>Devices\<close>

text \<open>Two rollouts that have their devices never share one.\<close>

definition devices_exclusive :: "sys \<Rightarrow> bool" where
  "devices_exclusive s \<longleftrightarrow>
     (\<forall>i j. i \<noteq> j \<and> has_devices (y_owner s i) \<and> has_devices (y_owner s j)
        \<longrightarrow> set (b_targets (made_job s i)) \<inter> set (b_targets (made_job s j)) = {})"

lemma exclusive_if_ok:
  assumes "sys_ok n s" "flow_ok s"
  shows "devices_exclusive s"
  unfolding devices_exclusive_def
proof (intro allI impI)
  have owned: "owned_targets (y_orch s) k = set (b_targets (made_job s k))" if k: "has_devices (y_owner s k)" for k
  proof -
    from assms(2) k obtain jk where jk: "map_of (q_jobs (y_orch s)) k = Some jk"
      by (auto simp: flow_ok_def in_table_def)
    then show ?thesis using life_okD(2) [of s k jk] assms(1)
      by (auto simp: sys_ok_def owned_targets_def made_job_def)
  qed
  fix i j assume "i \<noteq> j \<and> has_devices (y_owner s i) \<and> has_devices (y_owner s j)"
  moreover have "holds_exactly (map_of (q_held (y_orch s))) (owned_targets (y_orch s))"
    using assms(1) by (simp add: sys_ok_def table_ok_def)
  then have "i \<noteq> j \<Longrightarrow> owned_targets (y_orch s) i \<inter> owned_targets (y_orch s) j = {}"
    by (rule holds_exactly_disjoint)
  ultimately show "set (b_targets (made_job s i)) \<inter> set (b_targets (made_job s j)) = {}"
    using owned by auto
qed


definition lost_reply_run :: "event list" where
  "lost_reply_run =
     [Submit ''a'' ''u'' 1 [''r1''], Add ''a'' ''t0'' Applied, Record ''a'' True, Enqueue ''a'' Reply_Lost,
      Pop, Acquire, Claim ''t1'', Started ''t2'' Applied, Launch ''t3'', Withdraw ''a'',
      Submit ''b'' ''v'' 1 [''r1''], Add ''b'' ''t4'' Applied, Record ''b'' True, Enqueue ''b'' Applied,
      Pop, Acquire, Claim ''t5'', Started ''t6'' Applied, Launch ''t7'']"


definition table_exact :: "sys \<Rightarrow> bool" where
  "table_exact s \<longleftrightarrow>
     (\<forall>t i. map_of (q_held (y_orch s)) t = Some i
        \<longleftrightarrow> (\<exists>j. map_of (q_jobs (y_orch s)) i = Some j \<and> t \<in> set (b_targets j)))
     \<and> (\<forall>ts. conflict_rows (y_orch s) ts \<noteq> None) \<and> busy_rows (y_orch s) \<noteq> None
     \<and> (\<forall>i. case map_of (q_jobs (y_orch s)) i of None \<Rightarrow> True
          | Some j \<Rightarrow> (b_started j = None \<longleftrightarrow> y_owner s i = Nobody))"

text \<open>C13: The table of held devices is exact in every state: a device is held by a job exactly when that job
  is in the table and targets it, so asking for conflicts never meets a holder that isn't there (a
  \<open>KeyError\<close>), and a job has a start time exactly when somebody has claimed it.\<close>

theorem held_table_exact: "table_exact (run_events lost is_id es (start_sys n))"
proof -
  let ?s = "run_events lost is_id es (start_sys n)"
  have ok: "table_ok (y_orch ?s)" "life_ok ?s" using run_ok [of n lost is_id es] by (auto simp: sys_ok_def)
  have "map_of (q_held (y_orch ?s)) t = Some i
        \<longleftrightarrow> (\<exists>j. map_of (q_jobs (y_orch ?s)) i = Some j \<and> t \<in> set (b_targets j))" for t i
    using ok(1) by (auto simp: table_ok_def holds_exactly_def owned_targets_def split: option.splits)
  then show ?thesis using conflict_rows_total [OF ok(1)] life_okD(2) [OF ok(2)]
    by (auto simp: table_exact_def busy_rows_def split: option.split)
qed

section \<open>Slots\<close>

text \<open>C14: At most \<open>n\<close> rollouts run at the same time, and no slot is lost or made: the free ones, the ones
  running rollouts hold until they have left, and the one in the dispatcher's hand are always \<open>n\<close>.\<close>

theorem slots_conserved:
  "let s = run_events lost is_id es (start_sys n) in
     card {i. y_owner s i = Running} \<le> n
     \<and> y_slots s + card {i. with_slot (y_owner s i)} + disp_slot (y_disp s) = n"
proof -
  let ?s = "run_events lost is_id es (start_sys n)"
  have ok: "slots_ok n ?s" using run_ok [of n lost is_id es] by (simp add: sys_ok_def)
  then have set_r: "{i. with_slot (y_owner ?s i)} = set (y_runners ?s)" by (auto simp: slots_ok_def)
  have card: "card {i. with_slot (y_owner ?s i)} = length (y_runners ?s)"
    unfolding set_r using ok by (simp add: slots_ok_def distinct_card)
  have "finite {i. with_slot (y_owner ?s i)}" unfolding set_r by (rule finite_set)
  then have "card {i. y_owner ?s i = Running} \<le> card {i. with_slot (y_owner ?s i)}"
    by (rule card_mono) (simp add: Collect_mono with_slot_def)
  then show ?thesis using ok card by (simp add: Let_def slots_ok_def)
qed

section \<open>Results\<close>

definition idle_is_quiet :: "sys \<Rightarrow> bool" where
  "idle_is_quiet s \<longleftrightarrow> (idle (y_orch s) \<longrightarrow> (\<forall>i. \<not> has_devices (y_owner s i) \<and> \<not> is_saving (y_owner s i)))"

text \<open>No rollout's results are recorded twice, and once the orchestrator says it is idle nothing of its
  rollouts writes any more: none is claimed, running, ending or being saved.\<close>

theorem results_recorded_once:
  "let s = run_events False is_id es (start_sys n) in distinct (y_kept s) \<and> idle_is_quiet s"
proof -
  let ?s = "run_events False is_id es (start_sys n)"
  have ok: "saves_ok ?s" "flow_ok ?s" using run_ok [of n False is_id es] run_flow [of is_id es n]
    by (auto simp: sys_ok_def)
  then show ?thesis
    by (auto simp: Let_def saves_ok_def idle_is_quiet_def idle_def flow_ok_def in_table_def)
qed

text \<open>A finished rollout's results are kept: in the database when one of three tries succeeds - no
  further try after it -, else in a file, and only when that fails too they are shown on the console.\<close>

theorem results_kept:
  "write_results tries file_ok =
     (case List.find tries [0, 1, 2] of
        Some k \<Rightarrow> (In_Database, Suc k)
      | None \<Rightarrow> (if file_ok then In_File else On_Console, 3))"
  by (simp add: write_results_def save_tries_def numeral_3_eq_3 numeral_2_eq_2)

section \<open>Draining\<close>

text \<open>Once draining: every job in the table is claimed, and no job comes in.\<close>

definition drained :: "string set \<Rightarrow> sys \<Rightarrow> bool" where
  "drained old s \<longleftrightarrow> q_draining (y_orch s) \<and> ids (y_orch s) \<subseteq> old
     \<and> list_all (\<lambda>(i, j). b_started j \<noteq> None) (q_jobs (y_orch s))"

lemma drained_orch:
  assumes "drained old s" "q_draining (y_orch s') = q_draining (y_orch s)"
    "\<And>i j'. (i, j') \<in> set (q_jobs (y_orch s')) \<Longrightarrow> b_started j' \<noteq> None \<and> i \<in> ids (y_orch s)"
  shows "drained old s'"
  using assms by (force simp: drained_def list_all_iff ids_def)

lemma drained_same:
  "drained old s \<Longrightarrow> q_draining (y_orch s') = q_draining (y_orch s) \<Longrightarrow> q_jobs (y_orch s') = q_jobs (y_orch s) \<Longrightarrow> drained old s'"
  by (simp add: drained_def ids_def)

lemma drainedD: "drained old s \<Longrightarrow> (i, j) \<in> set (q_jobs (y_orch s)) \<Longrightarrow> b_started j \<noteq> None \<and> i \<in> ids (y_orch s)"
  by (force simp: drained_def list_all_iff ids_def)

lemma drained_lookup: "drained old s \<Longrightarrow> map_of (q_jobs (y_orch s)) i = Some j \<Longrightarrow> b_started j \<noteq> None \<and> i \<in> ids (y_orch s)"
  by (rule drainedD [OF _ map_of_SomeD])

lemma drained_set_job:
  assumes "drained old s" "map_of (q_jobs (y_orch s)) k = Some j0" "b_started j \<noteq> None"
    "(i, j') \<in> set (q_jobs (set_job k j (y_orch s)))"
  shows "b_started j' \<noteq> None \<and> i \<in> ids (y_orch s)"
  using assms set_alist_update [of k j "q_jobs (y_orch s)"] drainedD [OF assms(1), of i j'] drained_lookup [OF assms(1,2)]
  by (auto simp: set_job_def)

lemma set_delete: "set (AList.delete i l) \<subseteq> set l"
  by (induction l) auto

lemma drained_remove:
  assumes "drained old s" "q_draining (y_orch s') = q_draining (y_orch s)"
    "q_jobs (y_orch s') = q_jobs (snd (remove_job i (y_orch s)))"
  shows "drained old s'"
proof (rule drained_orch [OF assms(1,2)])
  fix k j assume "(k, j) \<in> set (q_jobs (y_orch s'))"
  then have "(k, j) \<in> set (q_jobs (y_orch s))" using assms(3) set_delete by (fastforce simp: remove_job_def)
  then show "b_started j \<noteq> None \<and> k \<in> ids (y_orch s)" by (rule drainedD [OF assms(1)])
qed

lemma drain_claim_drained:
  "q_draining (snd (drain_claim time q))" "ids (snd (drain_claim time q)) = ids q"
  "list_all (\<lambda>(i, j). b_started j \<noteq> None) (q_jobs (snd (drain_claim time q)))"
  by (auto simp: drain_claim_def list_all_iff ids_def claim_def intro: rev_image_eqI)

lemma act_drained:
  assumes "act lost is_id e s = Some s'" "drained old s"
  shows "drained old s'"
proof -
  have draining: "q_draining (snd (remove_job i q)) = q_draining q"
      "q_draining (mark_started i time q) = q_draining q" for i time q
    by (simp_all add: remove_job_def mark_started_def set_job_def split: option.split)
  have marked: "b_started j \<noteq> None \<and> k \<in> ids (y_orch s)"
    if "(k, j) \<in> set (q_jobs (mark_started i time (y_orch s)))" for i k j time
  proof (cases "map_of (q_jobs (y_orch s)) i")
    case None
    with that drainedD [OF assms(2)] show ?thesis by (simp add: mark_started_def)
  next
    case (Some j0)
    with that have "(k, j) \<in> set (q_jobs (set_job i (j0\<lparr>b_started := Some time\<rparr>) (y_orch s)))"
      by (simp add: mark_started_def)
    from drained_set_job [OF assms(2) Some _ this] show ?thesis by simp
  qed
  show ?thesis
  proof (cases e)
    case (Submit i user m targets)
    then show ?thesis using assms submit_claim_jobs
      by (auto simp: do_submit_def Let_def drained_def split: if_splits sum.splits)
  next
    case (Cancel i time)
    from assms(1) Cancel obtain answer q where c: "cancel_claim i time (y_orch s) = (answer, q)" "answer \<noteq> Unknown_Job"
        and s': "y_orch s' = q"
      by (auto simp: do_cancel_def sys_defs split: prod.splits cancel_answer.splits)
    from c obtain j where j: "map_of (q_jobs (y_orch s)) i = Some j"
      by (cases "map_of (q_jobs (y_orch s)) i") (auto simp: cancel_claim_def)
    from drained_lookup [OF assms(2) j] have "b_started j \<noteq> None" by simp
    with c(1) j have "q = set_job i (ask_to_stop j) (y_orch s)" "b_started (ask_to_stop j) \<noteq> None"
      by (auto simp: cancel_claim_def claim_def ask_to_stop_def)
    moreover from this have "q_draining q = q_draining (y_orch s)" by (simp add: set_job_def)
    ultimately show ?thesis unfolding s' [symmetric]
      by (intro drained_orch [OF assms(2)] drained_set_job [OF assms(2) j]) (simp_all add: s')
  next
    case (Drain time)
    then have "y_orch s' = snd (drain_claim time (y_orch s))"
      using assms(1) by (auto simp: do_drain_def sys_defs split: prod.splits)
    then show ?thesis using assms(2) unfolding drained_def by (simp only: drain_claim_drained simp_thms)
  next
    case Drain_Cancel
    then have "y_orch s' = cancel_all (y_orch s)"
      using assms(1) by (auto simp: do_drain_cancel_def only_if_def sys_defs split: if_splits)
    then show ?thesis using assms(2) drainedD [OF assms(2)]
      by (intro drained_orch [OF assms(2)]) (auto simp: cancel_all_def)
  next
    case (Claim time)
    then have "y_orch s' = y_orch s"
      using assms dispatch_claim_jobs
      by (fastforce simp: do_claim_def sys_defs drained_def split: dispatcher.splits prod.splits bool.splits)
    then show ?thesis using assms(2) by (simp add: drained_def)
  next
    case (Finalize i)
    from assms(1) Finalize obtain found q where f: "finalize_take i (y_orch s) = (found, q)" "y_orch s' = q"
      by (auto simp: do_finalize_def sys_defs split: owner.splits prod.splits option.splits)
    have "q_jobs (snd (finalize_take i q0)) = q_jobs (snd (remove_job i q0))"
        "q_draining (snd (finalize_take i q0)) = q_draining q0" for q0
      by (auto simp: finalize_take_def remove_job_def split: option.splits)
    from this [of "y_orch s"] have "q_jobs q = q_jobs (snd (remove_job i (y_orch s)))" "q_draining q = q_draining (y_orch s)"
      by (simp_all add: f(1))
    then show ?thesis using f(2) by (intro drained_remove [OF assms(2)]) auto
  next
    case (Withdraw i)
    then have "y_orch s' = snd (remove_job i (y_orch s))"
      using assms(1) by (auto simp: do_withdraw_def sys_defs split: submission.splits)
    then show ?thesis using draining by (intro drained_remove [OF assms(2)]) auto
  next
    case (Cancel_Broken i)
    then have "y_orch s' = snd (remove_job i (y_orch s))"
      using assms(1) by (auto simp: do_cancel_broken_def sys_defs split: if_splits)
    then show ?thesis using draining by (intro drained_remove [OF assms(2)]) auto
  next
    case (Launch time)
    from assms(1) Launch obtain i where "y_orch s' = mark_started i time (y_orch s)"
      by (auto simp: do_launch_def sys_defs split: dispatcher.splits)
    then show ?thesis using marked draining(2) by (intro drained_orch [OF assms(2)]) simp_all
  next
    case (Cancel_Unqueue i time reached)
    then have "y_orch s' = mark_started i time (y_orch s)"
      using assms(1) by (auto simp: do_cancel_unqueue_def only_if_def sys_defs split: if_splits)
    then show ?thesis using marked draining(2) by (intro drained_orch [OF assms(2)]) simp_all
  qed (rule drained_same [OF assms(2)], use assms(1) in
        \<open>auto simp: event_defs sys_defs pause_orch_def resume_orch_def saved_one_def Let_def
           split: if_splits fate.splits submission.splits dispatcher.splits owner.splits prod.splits option.splits\<close>)+
qed

lemma run_drained: "drained old s \<Longrightarrow> drained old (run_events lost is_id es s)"
  by (induction es arbitrary: s) (auto split: option.split dest: act_drained)

text \<open>A drain is final: whatever happens after it - a resume included -, NetRollout stays draining, no
  job comes into the table, and no job in it is waiting for a slot.\<close>

theorem drain_is_final:
  "let s = run_events lost is_id es (start_sys n);
       s' = run_events lost is_id (Drain time # more_events) s
   in q_draining (y_orch s') \<and> queued_count (y_orch s') = 0 \<and> ids (y_orch s') \<subseteq> ids (y_orch s)"
proof -
  let ?s = "run_events lost is_id es (start_sys n)"
  obtain s1 where s1: "act lost is_id (Drain time) ?s = Some s1" "y_orch s1 = snd (drain_claim time (y_orch ?s))"
    by (cases "drain_claim time (y_orch ?s)") (simp add: do_drain_def sys_defs)
  have "drained (ids (y_orch ?s)) s1" unfolding drained_def s1(2) by (simp only: drain_claim_drained order_refl simp_thms)
  from run_drained [OF this] have "drained (ids (y_orch ?s)) (run_events lost is_id more_events s1)" .
  moreover have "queued_count q = 0" if "list_all (\<lambda>(i, j). b_started j \<noteq> None) (q_jobs q)" for q
    using that by (simp add: queued_count_def running_count_def list_all_iff)
  ultimately show ?thesis using s1 by (simp add: Let_def drained_def)
qed

section \<open>Progress\<close>

text \<open>The job at the head of the queue starts as soon as the dispatcher waits with a slot free: it pops
  the entry, takes the slot, claims the job and runs it - also when Redis fails while the job's status
  is written.\<close>

theorem queued_head_starts:
  assumes "y_disp s = Waiting" "0 < y_slots s" "k_queue (y_store s) = i # rest" "is_id i"
    "map_of (q_jobs (y_orch s)) i = Some j" "b_started j = None" "\<not> q_draining (y_orch s)"
  shows "let s' = run_events False is_id [Pop, Acquire, Claim t1, Started t2 (if up then Applied else Failed), Launch t3] s
         in y_owner s' i = Running \<and> k_queue (y_store s') = rest \<and> y_slots s' + 1 = y_slots s \<and> y_disp s' = Waiting"
  using assms
  by (simp add: Let_def do_pop_def store_next_def do_acquire_def do_claim_def dispatch_claim_def claim_def
      do_started_def try_store_def do_launch_def sys_defs only_if_def)

definition one_queued :: "event list" where
  "one_queued = [Submit ''a'' ''u'' 1 [''r1''], Add ''a'' ''t0'' Applied, Record ''a'' True, Enqueue ''a'' Applied]"

lemma queued_head_starts_witness:
  "y_owner (run_events False (\<lambda>_. True) [Pop, Acquire, Claim ''t1'', Started ''t2'' Failed, Launch ''t3'']
      (run_events False (\<lambda>_. True) one_queued (start_sys 1))) ''a'' = Running"
proof -
  let ?s = "run_events False (\<lambda>_. True) one_queued (start_sys 1)"
  have s: "y_disp ?s = Waiting" "0 < y_slots ?s" "k_queue (y_store ?s) = [''a'']"
      "map_of (q_jobs (y_orch ?s)) ''a'' = Some \<lparr>b_user = ''u'', b_devices = 1, b_targets = [''r1''], b_started = None, b_cancel = False\<rparr>"
      "\<not> q_draining (y_orch ?s)"
    by code_simp+
  show ?thesis
    using queued_head_starts [OF s(1,2,3) _ s(4) _ s(5), where is_id = "\<lambda>_. True" and up = False and ?t1.0 = "''t1''" and ?t2.0 = "''t2''" and ?t3.0 = "''t3''"]
    by (simp add: Let_def del: run_events.simps)
qed

definition its_end :: "string \<Rightarrow> bool \<Rightarrow> event list" where
  "its_end i up = [Run_Ends i, Finalize i, Save i, Clear i up, Leave i]"

text \<open>A running rollout that ends gives everything back: once its end is handled its results are kept,
  its devices are free, its slot is the next rollout's, and it is in the table no more.\<close>

theorem ended_rollout_gives_back:
  assumes "y_owner (run_events False is_id es (start_sys n)) i = Running"
  shows "let s = run_events False is_id es (start_sys n); s' = run_events False is_id (its_end i up) s in
           y_owner s' i = Over \<and> y_kept s' = y_kept s @ [i] \<and> y_slots s' = y_slots s + 1
           \<and> map_of (q_jobs (y_orch s')) i = None \<and> i \<notin> snd ` set (q_held (y_orch s'))"
proof -
  let ?s = "run_events False is_id es (start_sys n)"
  from assms run_flow [of is_id es n] obtain j where "map_of (q_jobs (y_orch ?s)) i = Some j"
    by (auto simp: flow_ok_def has_devices_def in_table_def)
  then show ?thesis using assms
    by (auto simp: its_end_def Let_def do_run_ends_def do_finalize_def do_save_def do_clear_def do_leave_def
        finalize_take_def remove_job_def sys_defs only_if_def saved_one_def delete_conv')
qed

lemma ended_rollout_gives_back_witness:
  "y_slots (run_events False (\<lambda>_. True) (its_end ''a'' True)
      (run_events False (\<lambda>_. True) (one_queued @ [Pop, Acquire, Claim ''t1'', Started ''t2'' Applied, Launch ''t3'']) (start_sys 1))) = 1"
proof -
  let ?es = "one_queued @ [Pop, Acquire, Claim ''t1'', Started ''t2'' Applied, Launch ''t3'']"
  have "y_owner (run_events False (\<lambda>_. True) ?es (start_sys 1)) ''a'' = Running"
      "y_slots (run_events False (\<lambda>_. True) ?es (start_sys 1)) = 0" by code_simp+
  then show ?thesis
    using ended_rollout_gives_back [where es = ?es and is_id = "\<lambda>_. True" and n = 1 and i = "''a''" and up = True]
    by (simp add: Let_def)
qed

end
