(* ===== verification/Jobs_Properties.thy ===== *)
theory Jobs_Properties
  imports Orchestrator_Steps
begin

text \<open>
  The keys of a job in Redis: what the pages read back is what the orchestrator wrote, from \<open>add\<close> to
  \<open>finished\<close>, the counters come out even, and the row built from the hash is the row built from the job.
\<close>

section \<open>Numbers\<close>

lemma is_dec_not_special: "is_dec c \<Longrightarrow> \<not> is_space c \<and> c \<notin> set ''+-''"
  by (auto simp: is_dec_def is_space_def code_point_def Let_def)

lemma int_digits_decimal: "list_all is_dec t \<Longrightarrow> t \<noteq> [] \<or> b \<Longrightarrow> int_digits b t = Some t"
  by (induction t arbitrary: b) auto

lemma py_int_show_nat: "py_int (show_nat n) = Some (int n)"
proof -
  have d: "list_all is_dec (show_nat n)" "show_nat n \<noteq> []" using show_nat_decimal by auto
  then have "strip (show_nat n) = show_nat n"
    using is_dec_not_special by (intro strip_no_space) (auto simp: list_all_iff)
  moreover have "hd (show_nat n) \<notin> set ''+-''"
    using d is_dec_not_special [of "hd (show_nat n)"] by (simp add: list_all_iff)
  moreover have "int_digits False (show_nat n) = Some (show_nat n)" using d by (simp add: int_digits_decimal)
  ultimately show ?thesis by (simp add: py_int_def Let_def digits_value_show_nat)
qed

section \<open>Statuses\<close>

lemma status_of_status_text [simp]: "status_of_text (status_text s) = Some s"
  by (cases s) (simp_all add: status_of_text_def status_text_def job_statuses_def)

section \<open>The hash of a job\<close>

lemma hash_of_hset: "hash_of (hset i pairs st) j =
    (if j = i then fold (\<lambda>(f, v). AList.update f v) pairs (hash_of st i) else hash_of st j)"
  by (simp add: hash_of_def hset_def update_conv')

lemma k_meta_simps [simp]:
  "k_meta (sadd u i st) = k_meta st" "k_meta (srem u i st) = k_meta st"
  by (simp_all add: sadd_def srem_def Let_def)

lemma hash_of_simps [simp]:
  "hash_of (sadd u i st) j = hash_of st j" "hash_of (srem u i st) j = hash_of st j"
  "hash_of (st\<lparr>k_pending := n\<rparr>) j = hash_of st j" "hash_of (st\<lparr>k_active := m\<rparr>) j = hash_of st j"
  by (simp_all add: hash_of_def)

lemma hash_of_forget: "hash_of (store_forget i u st) j = (if j = i then [] else hash_of st j)"
  by (simp add: store_forget_def) (simp add: hash_of_def delete_conv')

lemma hash_added:
  "hash_of (store_add i u n created st) j =
     (if j = i then fold (\<lambda>(f, v). AList.update f v) [(''user_id'', u), (''status'', status_text Pending),
         (''device_count'', show_nat n), (''created_at'', created)] (hash_of st i) else hash_of st j)"
  by (simp add: store_add_def Let_def hash_of_hset)

lemma hash_started:
  "hash_of (store_started i time st) j =
     (if j = i then AList.update ''started_at'' time (AList.update ''status'' (status_text Active) (hash_of st i))
      else hash_of st j)"
  by (simp add: store_started_def Let_def hash_of_hset)

text \<open>The keys written for a job in each of its states, over whatever a job of this id left.\<close>

definition written :: "string \<Rightarrow> job \<Rightarrow> string \<Rightarrow> store \<Rightarrow> store" where
  "written i j created st =
     (let st1 = store_add i (b_user j) (b_devices j) created (store_forget i (b_user j) st);
          st2 = (case b_started j of None \<Rightarrow> st1 | Some t \<Rightarrow> store_started i t st1)
      in if b_cancel j then store_set_status i Cancelling st2 else st2)"

lemma map_of_status: "hash_of st' i \<noteq> [] \<Longrightarrow> map_of (k_meta st') i \<noteq> None"
  by (auto simp: hash_of_def split: option.splits)

lemma hash_written:
  "hash_of (written i j created st) i =
     [(''user_id'', b_user j), (''status'', status_text (current_status j)),
      (''device_count'', show_nat (b_devices j)), (''created_at'', created)]
     @ (case b_started j of None \<Rightarrow> [] | Some t \<Rightarrow> [(''started_at'', t)])"
proof -
  have base: "hash_of (store_add i (b_user j) (b_devices j) created (store_forget i (b_user j) st)) i =
      [(''user_id'', b_user j), (''status'', status_text Pending),
       (''device_count'', show_nat (b_devices j)), (''created_at'', created)]"
    by (simp add: hash_added hash_of_forget)
  show ?thesis
    by (cases "b_started j"; cases "b_cancel j")
       (simp_all add: written_def store_set_status_def hash_of_hset hash_started base map_of_status current_status_def)
qed

lemma meta_of_hash:
  "n \<noteq> [] \<Longrightarrow> meta_from_hash ([(''user_id'', u), (''status'', status_text x), (''device_count'', n), (''created_at'', c)]
       @ (case started of None \<Rightarrow> [] | Some t \<Rightarrow> [(''started_at'', t)])) =
     \<lparr>jm_user = u, jm_status = Some x, jm_devices = (case py_int n of Some k \<Rightarrow> k | None \<Rightarrow> 0), jm_created = c,
      jm_started = (case started of None \<Rightarrow> None | Some t \<Rightarrow> if t = [] then None else Some t)\<rparr>"
  by (cases started) (simp_all add: meta_from_hash_def field_or_def)

lemma meta_written:
  "store_meta (written i j created st) i = Some \<lparr>jm_user = b_user j, jm_status = Some (current_status j),
     jm_devices = int (b_devices j), jm_created = created,
     jm_started = (case b_started j of None \<Rightarrow> None | Some t \<Rightarrow> if t = [] then None else Some t)\<rparr>"
  using meta_of_hash [of "show_nat (b_devices j)"] show_nat_decimal [of "b_devices j"]
  by (simp add: store_meta_def Let_def hash_written py_int_show_nat)

text \<open>What the pages read of a job in Redis is what the orchestrator knows of it: the row built from its
  hash is the row built from the job, whatever its state, and any device count reads back.\<close>

theorem row_from_hash_is_job_row:
  "map_option (store_row i) (store_meta (written i j created st) i) = Some (job_row i j)"
  by (auto simp: meta_written store_row_def job_row_def row_of_def split: option.split)

definition run_in_redis :: "string \<Rightarrow> string \<Rightarrow> nat \<Rightarrow> string \<Rightarrow> string option \<Rightarrow> store \<Rightarrow> store" where
  "run_in_redis i u n created started st =
     (case started of
        Some t \<Rightarrow> store_finished i u True (store_started i t (store_add i u n created st))
      | None \<Rightarrow> store_finished i u False (store_add i u n created st))"

text \<open>Redis is left as it was: a job added, started and finished - or added and cancelled while queued -
  has no hash and is in no list, the gauges are what they were, other jobs' hashes are untouched, and a
  late status change doesn't bring the ended job back.\<close>

theorem redis_left_clean:
  "let st' = store_set_status i s (run_in_redis i u n created started st) in
     store_meta st' i = None \<and> i \<notin> set (store_job_ids st' None) \<and> i \<notin> set (store_job_ids st' (Some u))
     \<and> store_counts st' = store_counts st \<and> k_queue st' = k_queue st
     \<and> (j = i \<or> store_meta st' j = store_meta st j)"
proof -
  let ?st = "run_in_redis i u n created started st"
  have gone: "map_of (k_meta ?st) i = None"
    by (auto simp: run_in_redis_def store_finished_def store_forget_def Let_def delete_conv' split: option.split)
  then have same: "store_set_status i s ?st = ?st" by (simp add: store_set_status_def)
  have user: "i \<notin> set (dict_get (k_user_jobs (srem u i st2)) u)" for st2
    by (simp add: srem_def Let_def dict_get_def delete_conv' update_conv')
  have "i \<notin> set (store_job_ids ?st (Some u))"
    using user by (auto simp: run_in_redis_def store_job_ids_def store_finished_def store_forget_def Let_def split: option.split)
  moreover have "store_meta ?st i = None" using gone by (simp add: store_meta_def hash_of_def)
  moreover have "i \<notin> set (store_job_ids ?st None)" using gone by (simp add: store_job_ids_def map_of_eq_None_iff)
  moreover have "store_counts ?st = store_counts st" "k_queue ?st = k_queue st"
    by (auto simp: run_in_redis_def store_counts_def store_finished_def store_forget_def store_started_def store_add_def
        srem_def sadd_def hset_def Let_def split: option.split)
  moreover have "j \<noteq> i \<Longrightarrow> hash_of ?st j = hash_of st j"
    by (auto simp: run_in_redis_def store_finished_def Let_def hash_of_forget hash_started hash_added split: option.split)
  then have "j \<noteq> i \<Longrightarrow> store_meta ?st j = store_meta st j" by (simp add: store_meta_def)
  ultimately show ?thesis unfolding Let_def same by blast
qed

definition overtaken_cancel :: "event list" where
  "overtaken_cancel =
     [Submit ''a'' ''u'' 1 [''r1''], Add ''a'' ''t0'' Applied, Record ''a'' True, Enqueue ''a'' Applied,
      Pop, Acquire, Claim ''t1'', Cancel ''a'' ''t2'', Mark_Cancelling ''a'', Started ''t3'' Applied, Launch ''t4'']"

text \<open>The row and the hash part ways when a job is cancelled between its claim by the dispatcher and
  \<open>JobStore.started\<close>: the job is being cancelled, its hash says it is active.\<close>

theorem overtaken_cancel_shows_running:
  "let s = run_events False (\<lambda>_. True) overtaken_cancel (start_sys 1) in
     map rr_state (job_rows (y_orch s)) = [''cancelling'']
     \<and> map rr_state (store_rollouts (y_store s)) = [''running'']"
  by code_simp

end
