(* ===== verification/Results.thy ===== *)
theory Results
  imports Engine "HOL-Library.List_Lexorder" "HOL-Library.Char_ord" "HOL-Library.Product_Lexorder"
begin

text \<open>
  \<open>src/results.py\<close>: the device results a finished rollout leaves in the database, as one user may see
  them. The table is the list of its rows in the order the database answers; a query is a function of
  it, the database's \<open>ILIKE\<close> and the names of users and devices are parameters. Ids are their
  texts, times are seconds.
\<close>

section \<open>Rows\<close>

text \<open>\<open>DeviceResult\<close>: what the engine says of a device, with its job, owner, times and decision.\<close>

record result_row = device_result +
  z_id :: string
  z_job :: string
  z_user :: string
  z_started :: nat
  z_completed :: nat
  z_outcome :: "review_outcome option"
  z_comment :: "string option"
  z_by :: "string option"
  z_at :: "nat option"

fun outcome_text :: "review_outcome \<Rightarrow> string" where
  "outcome_text Confirmed = ''confirmed''"
| "outcome_text Review_Rejected = ''rejected''"

text \<open>\<open>config_expired\<close>: \<open>too_old\<close> is when a result is past the snapshots' retention.\<close>

definition config_expired :: "(nat \<Rightarrow> bool) \<Rightarrow> result_row \<Rightarrow> bool" where
  "config_expired too_old r \<longleftrightarrow> x_transcript r \<noteq> None \<and> x_diff r = None \<and> too_old (z_completed r)"

section \<open>A job's status\<close>

definition job_status_of :: "result_row list \<Rightarrow> device_status" where
  "job_status_of rows =
     (let statuses = map x_status rows in
      if St_Cancelled \<in> set statuses then St_Cancelled
      else if list_all (\<lambda>s. s = St_Failed) statuses then St_Failed
      else if list_ex (\<lambda>s. s \<in> {St_Failed, St_Partial}) statuses then St_Partial
      else if St_Review \<in> set statuses then St_Review
      else if St_Not_Verified \<in> set statuses then St_Not_Verified
      else St_Success)"

text \<open>\<open>job_status_condition\<close>: what its SQL says of the rows of one group.\<close>

definition any_device :: "device_status list \<Rightarrow> result_row list \<Rightarrow> bool" where
  "any_device ss rows \<longleftrightarrow> list_ex (\<lambda>r. x_status r \<in> set ss) rows"

definition all_failed :: "result_row list \<Rightarrow> bool" where
  "all_failed rows \<longleftrightarrow> list_all (\<lambda>r. x_status r = St_Failed) rows"

fun job_status_condition :: "device_status \<Rightarrow> result_row list \<Rightarrow> bool" where
  "job_status_condition St_Cancelled rows = any_device [St_Cancelled] rows"
| "job_status_condition St_Failed rows = (\<not> any_device [St_Cancelled] rows \<and> all_failed rows)"
| "job_status_condition St_Partial rows =
     (\<not> any_device [St_Cancelled] rows \<and> \<not> all_failed rows \<and> any_device [St_Failed, St_Partial] rows)"
| "job_status_condition St_Review rows =
     (\<not> any_device [St_Cancelled, St_Failed, St_Partial] rows \<and> any_device [St_Review] rows)"
| "job_status_condition St_Not_Verified rows =
     (\<not> any_device [St_Cancelled, St_Failed, St_Partial] rows \<and> \<not> any_device [St_Review] rows
      \<and> any_device [St_Not_Verified] rows)"
| "job_status_condition St_Success rows =
     (\<not> any_device [St_Cancelled, St_Failed, St_Partial, St_Review, St_Not_Verified] rows)"

section \<open>Jobs of a list of results\<close>

type_synonym target = "string \<times> nat"

definition target_of :: "result_row \<Rightarrow> target" where
  "target_of r = (x_ip r, x_port r)"

definition device_label_of :: "(target \<Rightarrow> string option) \<Rightarrow> result_row \<Rightarrow> string" where
  "device_label_of labels r =
     (case labels (target_of r) of Some l \<Rightarrow> l
      | None \<Rightarrow> if x_port r = 22 then x_ip r else endpoint (x_ip r) (show_nat (x_port r)))"

text \<open>\<open>itertools.groupby\<close>: runs of the same key.\<close>

function groupby :: "('a \<Rightarrow> 'k) \<Rightarrow> 'a list \<Rightarrow> ('k \<times> 'a list) list" where
  "groupby f [] = []"
| "groupby f (x # xs) =
     (f x, x # takeWhile (\<lambda>y. f y = f x) xs) # groupby f (dropWhile (\<lambda>y. f y = f x) xs)"
  by pat_completeness auto
termination
  by (relation "measure (length \<circ> snd)") (auto simp: le_imp_less_Suc length_dropWhile_le)

definition by_job :: "result_row list \<Rightarrow> (string \<times> result_row list) list" where
  "by_job rows = groupby z_job (sort_key z_job rows)"

record job_numbers =
  jv_completed :: nat
  jv_devices :: nat
  jv_sent :: nat
  jv_status :: device_status
  jv_action :: bool

text \<open>\<open>any(r.action_needed ...)\<close>: an empty text is nothing to do.\<close>

definition has_action :: "result_row \<Rightarrow> bool" where
  "has_action r \<longleftrightarrow> (case x_action r of None \<Rightarrow> False | Some t \<Rightarrow> t \<noteq> [])"

definition job_values :: "result_row list \<Rightarrow> job_numbers" where
  "job_values rows = \<lparr>jv_completed = Max (set (map z_completed rows)), jv_devices = length rows,
     jv_sent = x_sent (hd rows), jv_status = job_status_of rows, jv_action = list_ex has_action rows\<rparr>"

text \<open>Newest first: \<open>sort(reverse=True)\<close> keeps the order of equal ones.\<close>

definition newest_first :: "('a \<Rightarrow> 'k :: linorder) \<Rightarrow> 'a list \<Rightarrow> 'a list" where
  "newest_first f xs = rev (sort_key f (rev xs))"

definition build_job_summaries :: "result_row list \<Rightarrow> (string \<times> job_numbers) list" where
  "build_job_summaries rows =
     newest_first (\<lambda>(_, v). jv_completed v) (map (\<lambda>(job, rs). (job, job_values rs)) (by_job rows))"

section \<open>Decisions\<close>

definition awaiting_decision :: "result_row \<Rightarrow> bool" where
  "awaiting_decision r \<longleftrightarrow> z_outcome r = None \<and> needs_decision (x_transcript r)"

definition decision_signature :: "result_row \<Rightarrow> (string \<times> verdict \<times> string list) list" where
  "decision_signature r = (case x_transcript r of None \<Rightarrow> []
     | Some t \<Rightarrow> map (\<lambda>c. (en_command c, en_verdict c, en_reply c))
         (filter (\<lambda>c. en_verdict c \<in> {Review, Rejected}) (tr_commands t)))"

record review_shown =
  v_outcome :: review_outcome
  v_by :: string
  v_at :: "nat option"
  v_comment :: "string option"

definition review_view :: "(string \<Rightarrow> string option) \<Rightarrow> result_row \<Rightarrow> review_shown option" where
  "review_view reviewers r = map_option (\<lambda>dec.
     \<lparr>v_outcome = dec,
      v_by = (case z_by r of None \<Rightarrow> ''a deleted user''
        | Some u \<Rightarrow> (case reviewers u of Some n \<Rightarrow> n | None \<Rightarrow> ''a deleted user'')),
      v_at = z_at r, v_comment = z_comment r\<rparr>) (z_outcome r)"

record viewer =
  vw_id :: string
  vw_admin :: bool

definition may_see :: "viewer \<Rightarrow> string \<Rightarrow> bool" where
  "may_see v owner_id \<longleftrightarrow> vw_admin v \<or> owner_id = vw_id v"

datatype decide_error = Not_Found string | Refused string

definition review_comment_max :: nat where "review_comment_max = 2000"

text \<open>\<open>ResultReviews\<close>: \<open>_settle\<close> of a row, \<open>alike\<close>, \<open>decide\<close> and \<open>decide_alike\<close> on the table; \<open>now\<close> the
  clock.\<close>

definition settled_status :: "review_outcome \<Rightarrow> result_row \<Rightarrow> device_status" where
  "settled_status dec r = (if dec = Confirmed then St_Success
     else (case x_verified r of None \<Rightarrow> St_Failed | Some n \<Rightarrow> if n = 0 then St_Failed else St_Partial))"

definition settle :: "viewer \<Rightarrow> nat \<Rightarrow> review_outcome \<Rightarrow> string \<Rightarrow> result_row \<Rightarrow> result_row" where
  "settle v now dec comment r = r\<lparr>x_status := settled_status dec r, z_outcome := Some dec,
     z_comment := (if comment = [] then None else Some comment), z_by := Some (vw_id v), z_at := Some now\<rparr>"

definition alike :: "result_row list \<Rightarrow> result_row \<Rightarrow> result_row list" where
  "alike table r =
     (if \<not> needs_decision (x_transcript r) then []
      else sort_key target_of (filter (\<lambda>r'. z_job r' = z_job r \<and> z_id r' \<noteq> z_id r \<and> awaiting_decision r'
             \<and> decision_signature r' = decision_signature r) table))"

definition row_of_device :: "result_row list \<Rightarrow> string \<Rightarrow> string \<Rightarrow> nat option \<Rightarrow> result_row option" where
  "row_of_device table job ip port =
     List.find (\<lambda>r. z_job r = job \<and> x_ip r = ip \<and> (case port of None \<Rightarrow> True | Some p \<Rightarrow> x_port r = p)) table"

definition decide :: "viewer \<Rightarrow> nat \<Rightarrow> result_row list \<Rightarrow> string \<Rightarrow> string \<Rightarrow> nat option \<Rightarrow> review_outcome \<Rightarrow> string
    \<Rightarrow> decide_error + result_row" where
  "decide v now table job ip port dec comment =
     (case row_of_device table job ip port of
        None \<Rightarrow> Inl (Not_Found (''no device '' @ ip @ '' in job '' @ job))
      | Some r \<Rightarrow>
          if \<not> may_see v (z_user r) then Inl (Not_Found (''no device '' @ ip @ '' in job '' @ job))
          else (case z_outcome r of
              Some d \<Rightarrow> Inl (Refused (''This device was already '' @ outcome_text d @ ''.''))
            | None \<Rightarrow>
                if \<not> needs_decision (x_transcript r)
                then Inl (Refused (''This device has nothing to decide (it'' @ [squote] @ ''s '' @ status_value (x_status r) @ '').''))
                else if review_comment_max < length (strip comment)
                then Inl (Refused ''The comment is too long (at most 2000 characters).'')
                else Inr (settle v now dec (strip comment) r)))"

definition update_row :: "result_row \<Rightarrow> result_row list \<Rightarrow> result_row list" where
  "update_row r table = map (\<lambda>r'. if z_id r' = z_id r then r else r') table"

definition decide_alike :: "viewer \<Rightarrow> nat \<Rightarrow> result_row list \<Rightarrow> result_row \<Rightarrow> review_outcome \<Rightarrow> string \<Rightarrow> result_row list" where
  "decide_alike v now table r dec comment = map (settle v now dec (strip comment)) (alike table r)"

end
