(* ===== verification/Results_Queries.thy ===== *)
theory Results_Queries
  imports Results
begin

text \<open>
  \<open>src/results.py\<close>: \<open>JobResults\<close> - the jobs a viewer may see, filtered, paged, exported and counted.
\<close>

section \<open>Who may see a job\<close>

definition get_accessible :: "viewer \<Rightarrow> result_row list \<Rightarrow> string \<Rightarrow> string option" where
  "get_accessible v table job =
     (case List.find (\<lambda>r. z_job r = job) table of
        None \<Rightarrow> None
      | Some r \<Rightarrow> if may_see v (z_user r) then Some (z_user r) else None)"

text \<open>\<open>scope_user\<close>: \<open>as_id\<close> reads a text as an id.\<close>

definition scope_user :: "(string \<Rightarrow> string option) \<Rightarrow> viewer \<Rightarrow> string option \<Rightarrow> string \<times> string" where
  "scope_user as_id v raw =
     (let param = strip (case raw of None \<Rightarrow> ''me'' | Some t \<Rightarrow> if t = [] then ''me'' else t)
      in if vw_admin v \<and> param \<noteq> ''me''
         then (case as_id param of Some i \<Rightarrow> (i, param) | None \<Rightarrow> (vw_id v, ''me''))
         else (vw_id v, ''me''))"

section \<open>Which jobs\<close>

datatype job_scope = Mine | Others | All_Jobs

record job_filter =
  f_status :: "device_status option"
  f_note :: "string option"
  f_device :: "string option"
  f_job :: "string option"
  f_since :: "nat option"
  f_until :: "nat option"
  f_owner :: "string option"

definition no_filter :: job_filter where
  "no_filter = \<lparr>f_status = None, f_note = None, f_device = None, f_job = None, f_since = None,
     f_until = None, f_owner = None\<rparr>"

text \<open>\<open>contains\<close>, the pattern: percent signs, underscores and backslashes escaped.\<close>

definition backslash :: char where "backslash = CHR 0x5C"

definition like_pattern :: "string \<Rightarrow> string" where
  "like_pattern t = ''%'' @ concat (map (\<lambda>c. if c = backslash \<or> c = CHR ''%'' \<or> c = CHR ''_''
      then [backslash, c] else [c]) t) @ ''%''"

text \<open>What the database answers: \<open>ILIKE\<close>, the note of a job's metadata, the endpoints whose name
  contains a text; a day is its number, starting at \<open>day * 86400\<close>.\<close>

record answers_of =
  a_ilike :: "string \<Rightarrow> string \<Rightarrow> bool"
  a_note :: "string \<Rightarrow> string option"
  a_named :: "string \<Rightarrow> target list"

definition seconds_per_day :: nat where "seconds_per_day = 86400"

definition job_rows_of :: "result_row list \<Rightarrow> string \<Rightarrow> result_row list" where
  "job_rows_of rows job = filter (\<lambda>r. z_job r = job) rows"

definition first_start :: "result_row list \<Rightarrow> nat" where
  "first_start rows = Min (set (map z_started rows))"

definition asked :: "string option \<Rightarrow> string option" where
  "asked text = (case text of None \<Rightarrow> None | Some t \<Rightarrow> if t = [] then None else Some t)"

definition in_scope_of :: "viewer \<Rightarrow> job_scope \<Rightarrow> job_filter \<Rightarrow> result_row \<Rightarrow> bool" where
  "in_scope_of v sc fl r \<longleftrightarrow>
     (if sc = Mine \<or> \<not> vw_admin v then z_user r = vw_id v else if sc = Others then z_user r \<noteq> vw_id v else True)
     \<and> (case f_owner fl of None \<Rightarrow> True | Some u \<Rightarrow> z_user r = u)"

definition whole_job :: "job_filter \<Rightarrow> result_row list \<Rightarrow> bool" where
  "whole_job fl rows \<longleftrightarrow>
     (case f_status fl of None \<Rightarrow> True | Some s \<Rightarrow> job_status_condition s rows)
     \<and> (case f_since fl of None \<Rightarrow> True | Some d \<Rightarrow> d * seconds_per_day \<le> first_start rows)
     \<and> (case f_until fl of None \<Rightarrow> True | Some d \<Rightarrow> first_start rows < Suc d * seconds_per_day)"

definition row_asked :: "answers_of \<Rightarrow> job_filter \<Rightarrow> result_row \<Rightarrow> bool" where
  "row_asked db fl r \<longleftrightarrow>
     (case asked (f_note fl) of None \<Rightarrow> True
      | Some t \<Rightarrow> (case a_note db (z_job r) of None \<Rightarrow> False | Some n \<Rightarrow> a_ilike db n (like_pattern t)))
     \<and> (case asked (f_job fl) of None \<Rightarrow> True | Some t \<Rightarrow> a_ilike db (z_job r) (like_pattern t))"

definition device_asked :: "answers_of \<Rightarrow> string \<Rightarrow> result_row \<Rightarrow> bool" where
  "device_asked db t r \<longleftrightarrow> a_ilike db (x_ip r) (like_pattern t) \<or> target_of r \<in> set (a_named db t)"

text \<open>\<open>_where\<close>: the rows left after each of its conditions.\<close>

definition kept_rows :: "answers_of \<Rightarrow> viewer \<Rightarrow> job_scope \<Rightarrow> job_filter \<Rightarrow> result_row list \<Rightarrow> result_row list" where
  "kept_rows db v sc fl table =
     (let rows1 = filter (in_scope_of v sc fl) table;
          rows2 = (if f_status fl = None \<and> f_since fl = None \<and> f_until fl = None then rows1
                   else filter (\<lambda>r. whole_job fl (job_rows_of rows1 (z_job r))) rows1);
          rows3 = filter (row_asked db fl) rows2
      in case asked (f_device fl) of
           None \<Rightarrow> rows3
         | Some t \<Rightarrow> filter (\<lambda>r. list_ex (device_asked db t) (job_rows_of rows3 (z_job r))) rows3)"

section \<open>Pages\<close>

text \<open>The jobs of the rows with their last completion, newest first; the id breaks ties.\<close>

definition done_at :: "result_row list \<Rightarrow> string \<Rightarrow> nat" where
  "done_at rows job = Max (set (map z_completed (job_rows_of rows job)))"

definition jobs_newest :: "result_row list \<Rightarrow> string list" where
  "jobs_newest rows = rev (sort_key (\<lambda>job. (done_at rows job, job)) (remdups (map z_job rows)))"

record job_page =
  pg_results :: "result_row list"
  pg_total :: nat
  pg_page :: nat
  pg_pages :: nat

definition page_count :: "nat \<Rightarrow> nat \<Rightarrow> nat" where
  "page_count n per_page = max 1 ((n + per_page - 1) div per_page)"

definition page_of_job :: "result_row list \<Rightarrow> nat \<Rightarrow> string \<Rightarrow> nat" where
  "page_of_job rows per_page job =
     length (filter (\<lambda>j. done_at rows job < done_at rows j \<or> done_at rows j = done_at rows job \<and> job < j)
       (remdups (map z_job rows))) div per_page + 1"

definition results_page :: "result_row list \<Rightarrow> int \<Rightarrow> nat \<Rightarrow> string option \<Rightarrow> job_page" where
  "results_page rows asked_page per_page focus =
     (let n = length (remdups (map z_job rows)); pages = page_count n per_page;
          wanted = (case focus of None \<Rightarrow> asked_page
                    | Some j \<Rightarrow> if j \<in> set (map z_job rows) then int (page_of_job rows per_page j) else asked_page);
          shown = nat (min (max wanted 1) (int pages));
          jobs = take per_page (drop ((shown - 1) * per_page) (jobs_newest rows))
      in \<lparr>pg_results = filter (\<lambda>r. z_job r \<in> set jobs) rows, pg_total = n, pg_page = shown, pg_pages = pages\<rparr>)"

section \<open>The export\<close>

record export_row =
  e_job :: string
  e_note :: string
  e_owner :: string
  e_job_status :: device_status
  e_started :: nat
  e_completed :: nat
  e_device :: string
  e_ip :: string
  e_port :: nat
  e_platform :: string
  e_status :: device_status
  e_sent :: nat
  e_verified :: "nat option"
  e_replied :: "nat option"
  e_action :: string
  e_review :: "review_shown option"

definition export_cells :: "(target \<Rightarrow> string option) \<Rightarrow> (string \<Rightarrow> string option) \<Rightarrow> (string \<Rightarrow> string option)
    \<Rightarrow> device_status \<Rightarrow> result_row \<Rightarrow> export_row" where
  "export_cells labels notes users job_state r =
     \<lparr>e_job = z_job r, e_note = (case notes (z_job r) of None \<Rightarrow> [] | Some n \<Rightarrow> n),
      e_owner = (case users (z_user r) of None \<Rightarrow> [] | Some n \<Rightarrow> n), e_job_status = job_state,
      e_started = z_started r, e_completed = z_completed r, e_device = device_label_of labels r,
      e_ip = x_ip r, e_port = x_port r, e_platform = x_type r, e_status = x_status r, e_sent = x_sent r,
      e_verified = x_verified r,
      e_replied = (case x_replies r of None \<Rightarrow> None | Some [] \<Rightarrow> None | Some rs \<Rightarrow> Some (length rs)),
      e_action = (case x_action r of None \<Rightarrow> [] | Some t \<Rightarrow> t), e_review = review_view users r\<rparr>"

definition export_jobs :: "(target \<Rightarrow> string option) \<Rightarrow> (string \<Rightarrow> string option) \<Rightarrow> (string \<Rightarrow> string option)
    \<Rightarrow> result_row list \<Rightarrow> export_row list" where
  "export_jobs labels notes users rows =
     concat (map (\<lambda>(job, rs). map (export_cells labels notes users (job_status_of rs))
         (sort_key (\<lambda>r. (device_label_of labels r, x_port r)) rs))
       (newest_first (\<lambda>(job, rs). (Max (set (map z_completed rs)), job)) (by_job rows)))"

section \<open>One job\<close>

record job_summary =
  u_job :: string
  u_comment :: "string option"
  u_status :: device_status
  u_devices :: nat
  u_counts :: "device_status \<Rightarrow> nat"
  u_decide :: nat
  u_actions :: "(string \<times> string) list"

definition summary :: "viewer \<Rightarrow> (target \<Rightarrow> string option) \<Rightarrow> (string \<Rightarrow> string option) \<Rightarrow> result_row list \<Rightarrow> string
    \<Rightarrow> job_summary option" where
  "summary v labels notes table job =
     (let rows = job_rows_of table job in
      if rows = [] \<or> \<not> may_see v (z_user (hd rows)) then None
      else Some \<lparr>u_job = job, u_comment = notes job, u_status = job_status_of rows, u_devices = length rows,
                 u_counts = (\<lambda>s. length (filter (\<lambda>r. x_status r = s) rows)),
                 u_decide = length (filter awaiting_decision rows),
                 u_actions = map (\<lambda>r. (device_label_of labels r, the (x_action r))) (filter has_action rows)\<rparr>)"

text \<open>What a rollback targets.\<close>

definition configured_endpoints :: "result_row list \<Rightarrow> string \<Rightarrow> string \<Rightarrow> target list" where
  "configured_endpoints table job owner_id =
     remdups (map target_of (filter (\<lambda>r. z_user r = owner_id \<and> z_job r = job
       \<and> x_status r \<in> {St_Success, St_Partial}) table))"

section \<open>Totals\<close>

text \<open>\<open>percent a b\<close> is \<open>round(a / b * 100)\<close> in floating point.\<close>

definition rate_of :: "(nat \<Rightarrow> nat \<Rightarrow> nat) \<Rightarrow> nat \<Rightarrow> nat \<Rightarrow> nat option" where
  "rate_of percent part whole = (if whole = 0 then None else Some (percent part whole))"

definition kpi_failed_ips :: "result_row list \<Rightarrow> (string \<times> nat) list" where
  "kpi_failed_ips rows = (let failed = map x_ip (filter (\<lambda>r. x_status r = St_Failed) rows)
     in map (\<lambda>ip. (ip, length (filter (\<lambda>x. x = ip) failed))) (rev (remdups (rev failed))))"

fun first_max :: "('a \<Rightarrow> nat) \<Rightarrow> 'a \<Rightarrow> 'a list \<Rightarrow> 'a" where
  "first_max f best [] = best"
| "first_max f best (x # xs) = first_max f (if f best < f x then x else best) xs"

record kpi =
  i_rate :: "nat option"
  i_jobs :: nat
  i_pushes :: nat
  i_commands :: nat
  i_top_failed :: "(string \<times> string option \<times> nat) option"

definition build_kpi :: "(nat \<Rightarrow> nat \<Rightarrow> nat) \<Rightarrow> (string \<Rightarrow> string option) \<Rightarrow> result_row list \<Rightarrow> kpi" where
  "build_kpi percent label_map rows =
     \<lparr>i_rate = rate_of percent (length (filter (\<lambda>r. x_status r = St_Success) rows)) (length rows),
      i_jobs = length (remdups (map z_job rows)), i_pushes = length rows, i_commands = sum_list (map x_sent rows),
      i_top_failed = (case kpi_failed_ips rows of [] \<Rightarrow> None
        | p # ps \<Rightarrow> let top = first_max snd p ps in Some (fst top, label_map (fst top), snd top))\<rparr>"

record user_totals =
  t_rollouts :: nat
  t_devices :: nat
  t_rate :: "nat option"
  t_platform :: "string option"
  t_commands :: nat

definition totals :: "(nat \<Rightarrow> nat \<Rightarrow> nat) \<Rightarrow> result_row list \<Rightarrow> string \<Rightarrow> user_totals" where
  "totals percent table user =
     (let rows = filter (\<lambda>r. z_user r = user) table; jobs = by_job rows;
          types = map x_type rows; kinds = rev (remdups (rev types))
      in \<lparr>t_rollouts = length jobs, t_devices = length rows,
          t_rate = rate_of percent (length (filter (\<lambda>(_, rs). job_status_of rs = St_Success) jobs)) (length jobs),
          t_platform = (case kinds of [] \<Rightarrow> None
            | k # ks \<Rightarrow> Some (first_max (\<lambda>x. length (filter (\<lambda>y. y = x) types)) k ks)),
          t_commands = sum_list (map x_sent rows)\<rparr>)"

definition query_limit :: nat where "query_limit = 200"

text \<open>\<open>matching\<close>: the newest rows of a user that satisfy a condition; \<open>recent\<close>: the last 30 days'.\<close>

definition matching :: "result_row list \<Rightarrow> string \<Rightarrow> (result_row \<Rightarrow> bool) \<Rightarrow> result_row list" where
  "matching table user condition =
     take query_limit (newest_first z_started (filter (\<lambda>r. z_user r = user \<and> condition r) table))"

definition recent_days :: nat where "recent_days = 30"

definition recent :: "nat \<Rightarrow> result_row list \<Rightarrow> string option \<Rightarrow> result_row list" where
  "recent now table user = filter (\<lambda>r. now \<le> z_started r + recent_days * seconds_per_day
     \<and> (case user of None \<Rightarrow> True | Some u \<Rightarrow> z_user r = u)) table"

end
