(* ===== verification/Results_Properties.thy ===== *)
theory Results_Properties
  imports Results_Queries
begin

text \<open>
  The finished jobs: the two ways a job's status is told agree, a filter keeps a job whole or leaves it
  out whole, every job is on exactly one page, and a decision is taken once.
\<close>

section \<open>A job's status\<close>

definition has_status :: "result_row list \<Rightarrow> device_status \<Rightarrow> bool" where
  "has_status rows s \<longleftrightarrow> s \<in> x_status ` set rows"

lemma any_device_has: "any_device ss rows \<longleftrightarrow> list_ex (has_status rows) ss"
  by (auto simp: any_device_def list_ex_iff has_status_def)

lemma all_device_statuses: "set device_statuses = UNIV"
proof -
  have "s \<in> set device_statuses" for s by (cases s) (simp_all add: device_statuses_def)
  then show ?thesis by blast
qed

lemma all_failed_has: "all_failed rows \<longleftrightarrow> list_all (\<lambda>s. s = St_Failed \<or> \<not> has_status rows s) device_statuses"
  by (auto simp: all_failed_def list_all_iff has_status_def all_device_statuses)

lemma job_status_has:
  "job_status_of rows =
     (if has_status rows St_Cancelled then St_Cancelled else if all_failed rows then St_Failed
      else if has_status rows St_Failed \<or> has_status rows St_Partial then St_Partial
      else if has_status rows St_Review then St_Review
      else if has_status rows St_Not_Verified then St_Not_Verified else St_Success)"
proof -
  have "list_ex (\<lambda>s. s \<in> {St_Failed, St_Partial}) (map x_status rows) \<longleftrightarrow> has_status rows St_Failed \<or> has_status rows St_Partial"
    unfolding has_status_def list_ex_iff by force
  moreover have "list_all (\<lambda>s. s = St_Failed) (map x_status rows) \<longleftrightarrow> all_failed rows"
    by (simp add: all_failed_def list_all_iff)
  ultimately show ?thesis by (simp add: job_status_of_def has_status_def)
qed

lemma status_condition_iff:
  assumes "rows \<noteq> []"
  shows "job_status_condition s rows \<longleftrightarrow> job_status_of rows = s"
proof -
  obtain s0 where "has_status rows s0" using assms by (cases rows) (auto simp: has_status_def)
  then have "list_ex (has_status rows) device_statuses" by (auto simp: list_ex_iff all_device_statuses)
  then show ?thesis
    by (cases s) (auto simp: job_status_has any_device_has all_failed_has device_statuses_def)
qed

text \<open>C16: The status the database filters jobs by is the status shown: for the devices of a job,
  \<open>job_status_condition\<close> holds of exactly one status, the one \<open>job_status\<close> gives.\<close>

theorem job_status_in_sql:
  assumes "rows \<noteq> []"
  shows "filter (\<lambda>s. job_status_condition s rows) device_statuses = [job_status_of rows]"
  using status_condition_iff [OF assms] by (cases "job_status_of rows") (simp_all add: device_statuses_def)

text \<open>A row to try the properties on.\<close>

definition sample_row :: "string \<Rightarrow> string \<Rightarrow> device_status \<Rightarrow> nat \<Rightarrow> result_row" where
  "sample_row i job s at_time =
     \<lparr>x_ip = ''r'' @ i, x_port = 22, x_type = ''cisco_ios'', x_sent = 1, x_verified = None, x_fetched = None,
      x_diff = None, x_transcript = None, x_replies = None, x_status = s, x_action = None, z_id = i, z_job = job,
      z_user = ''ann'', z_started = at_time, z_completed = at_time + 1, z_outcome = None, z_comment = None,
      z_by = None, z_at = None\<rparr>"

definition sample_table :: "result_row list" where
  "sample_table = [sample_row ''1'' ''a'' St_Success 5, sample_row ''2'' ''b'' St_Failed 7, sample_row ''3'' ''a'' St_Failed 6]"

lemma job_status_in_sql_witness:
  "filter (\<lambda>s. job_status_condition s [sample_row ''1'' ''a'' St_Success 5, sample_row ''3'' ''a'' St_Failed 6]) device_statuses = [St_Partial]"
proof -
  have "job_status_of [sample_row ''1'' ''a'' St_Success 5, sample_row ''3'' ''a'' St_Failed 6] = St_Partial" by code_simp
  then show ?thesis
    using job_status_in_sql [of "[sample_row ''1'' ''a'' St_Success 5, sample_row ''3'' ''a'' St_Failed 6]"] by simp
qed

section \<open>Whole jobs\<close>

definition kept_whole :: "result_row list \<Rightarrow> result_row list \<Rightarrow> bool" where
  "kept_whole rows table \<longleftrightarrow> (\<forall>job. job_rows_of rows job = job_rows_of table job \<or> job_rows_of rows job = [])"

lemma kept_whole_filter:
  assumes "kept_whole rows table" "\<And>r r'. r \<in> set rows \<Longrightarrow> r' \<in> set rows \<Longrightarrow> z_job r = z_job r' \<Longrightarrow> P r = P r'"
  shows "kept_whole (filter P rows) table"
  unfolding kept_whole_def
proof
  fix job
  have f: "job_rows_of (filter P rows) job = filter P (job_rows_of rows job)"
    by (simp add: job_rows_of_def conj_commute)
  show "job_rows_of (filter P rows) job = job_rows_of table job \<or> job_rows_of (filter P rows) job = []"
  proof (cases "\<exists>r\<in>set rows. z_job r = job \<and> P r")
    case True
    then obtain r0 where r0: "r0 \<in> set rows" "z_job r0 = job" "P r0" by blast
    have "P r" if "r \<in> set (job_rows_of rows job)" for r
      using assms(2) [of r r0] r0 that by (simp add: job_rows_of_def)
    then have "filter P (job_rows_of rows job) = job_rows_of rows job" by (intro filter_True) blast
    then show ?thesis using assms(1) f by (simp add: kept_whole_def)
  next
    case False
    then have "filter P (job_rows_of rows job) = []" by (auto simp: filter_empty_conv job_rows_of_def)
    then show ?thesis using f by simp
  qed
qed

lemma kept_rows_subset: "set (kept_rows db v sc fl table) \<subseteq> {r \<in> set table. in_scope_of v sc fl r}"
  by (auto simp: kept_rows_def Let_def split: option.splits if_splits)

lemma scope_whole:
  assumes "\<And>r r'. r \<in> set table \<Longrightarrow> r' \<in> set table \<Longrightarrow> z_job r = z_job r' \<Longrightarrow> z_user r = z_user r'"
  shows "kept_whole (filter (in_scope_of v sc fl) table) table"
proof (rule kept_whole_filter)
  show "kept_whole table table" by (simp add: kept_whole_def)
  fix r r' assume "r \<in> set table" "r' \<in> set table" "z_job r = z_job r'"
  then have "z_user r = z_user r'" by (rule assms)
  then show "in_scope_of v sc fl r = in_scope_of v sc fl r'" by (simp add: in_scope_of_def split: option.split)
qed

lemma kept_rows_whole:
  assumes "\<And>r r'. r \<in> set table \<Longrightarrow> r' \<in> set table \<Longrightarrow> z_job r = z_job r' \<Longrightarrow> z_user r = z_user r'"
  shows "kept_whole (kept_rows db v sc fl table) table"
proof -
  have row: "z_job r = z_job r' \<Longrightarrow> row_asked db fl r = row_asked db fl r'" for r r'
    by (simp add: row_asked_def split: option.split)
  let ?rows1 = "filter (in_scope_of v sc fl) table"
  let ?rows2 = "if f_status fl = None \<and> f_since fl = None \<and> f_until fl = None then ?rows1
    else filter (\<lambda>r. whole_job fl (job_rows_of ?rows1 (z_job r))) ?rows1"
  let ?rows3 = "filter (row_asked db fl) ?rows2"
  have r1: "kept_whole ?rows1 table" by (rule scope_whole [OF assms])
  have "kept_whole (filter (\<lambda>r. whole_job fl (job_rows_of ?rows1 (z_job r))) ?rows1) table"
    by (rule kept_whole_filter [OF r1]) simp
  with r1 have r2: "kept_whole ?rows2 table" by simp
  have r3: "kept_whole ?rows3 table" by (rule kept_whole_filter [OF r2 row])
  have r4: "kept_whole (filter (\<lambda>r. list_ex (device_asked db t) (job_rows_of ?rows3 (z_job r))) ?rows3) table" for t
    by (rule kept_whole_filter [OF r3]) simp
  show ?thesis
  proof (cases "asked (f_device fl)")
    case None
    show ?thesis unfolding kept_rows_def Let_def None option.case by (rule r3)
  next
    case (Some t)
    show ?thesis unfolding kept_rows_def Let_def Some option.case by (rule r4)
  qed
qed

definition shows_status :: "device_status option \<Rightarrow> result_row list \<Rightarrow> bool" where
  "shows_status wanted rows \<longleftrightarrow> (case wanted of None \<Rightarrow> True
     | Some s \<Rightarrow> list_all (\<lambda>r. job_status_of (job_rows_of rows (z_job r)) = s) rows)"

lemma job_rows_mem: "r \<in> set rows \<Longrightarrow> job_rows_of rows (z_job r) \<noteq> []"
  by (auto simp: job_rows_of_def filter_empty_conv)

lemma kept_status:
  assumes "kept_whole (kept_rows db v sc fl table) table" "kept_whole (filter (in_scope_of v sc fl) table) table"
    "f_status fl = Some s" "r \<in> set (kept_rows db v sc fl table)"
  shows "job_status_of (job_rows_of (kept_rows db v sc fl table) (z_job r)) = s"
proof -
  let ?k = "kept_rows db v sc fl table" and ?r1 = "filter (in_scope_of v sc fl) table"
  have r1: "r \<in> set ?r1" using assms(4) kept_rows_subset by fastforce
  have "whole_job fl (job_rows_of ?r1 (z_job r))"
    using assms(3,4) by (auto simp: kept_rows_def Let_def split: option.splits)
  then have "job_status_condition s (job_rows_of ?r1 (z_job r))" by (simp add: whole_job_def assms(3))
  moreover have "job_rows_of ?r1 (z_job r) = job_rows_of table (z_job r)"
      "job_rows_of ?k (z_job r) = job_rows_of table (z_job r)"
    using assms(1,2) job_rows_mem [OF r1] job_rows_mem [OF assms(4)] unfolding kept_whole_def by metis+
  ultimately show ?thesis using status_condition_iff [OF job_rows_mem [OF r1]] by simp
qed

text \<open>A filter keeps a job whole or leaves it out whole, never some of its devices; somebody who isn't
  an admin is shown only their own results whatever the scope asked; and every job kept by a status filter
  has that status as the page shows it - provided a job has one owner.\<close>

theorem filters_keep_jobs_whole:
  assumes "\<forall>r\<in>set table. \<forall>r'\<in>set table. z_job r = z_job r' \<longrightarrow> z_user r = z_user r'"
  shows "let kept = kept_rows db v sc fl table in
           kept_whole kept table \<and> shows_status (f_status fl) kept
           \<and> (vw_admin v \<or> list_all (\<lambda>r. z_user r = vw_id v) kept)"
proof -
  have whole: "kept_whole (kept_rows db v sc fl table) table" using assms by (intro kept_rows_whole) blast
  have "kept_whole (filter (in_scope_of v sc fl) table) table"
    using assms by (intro scope_whole) blast
  with whole have "shows_status (f_status fl) (kept_rows db v sc fl table)"
    using kept_status [of db v sc fl table] by (auto simp: shows_status_def list_all_iff split: option.split)
  moreover have "vw_admin v \<or> list_all (\<lambda>r. z_user r = vw_id v) (kept_rows db v sc fl table)"
    using kept_rows_subset [of db v sc fl table] by (auto simp: list_all_iff in_scope_of_def)
  ultimately show ?thesis using whole by (simp add: Let_def)
qed

lemma filters_keep_jobs_whole_witness:
  "kept_whole (kept_rows \<lparr>a_ilike = (\<lambda>_ _. True), a_note = (\<lambda>_. None), a_named = (\<lambda>_. [])\<rparr>
     \<lparr>vw_id = ''ann'', vw_admin = False\<rparr> All_Jobs (no_filter\<lparr>f_status := Some St_Partial\<rparr>) sample_table) sample_table"
proof -
  have "\<forall>r\<in>set sample_table. \<forall>r'\<in>set sample_table. z_job r = z_job r' \<longrightarrow> z_user r = z_user r'"
    by (simp add: sample_table_def sample_row_def)
  from filters_keep_jobs_whole [OF this] show ?thesis by (simp add: Let_def)
qed

section \<open>Pages\<close>

lemma count_greater:
  assumes "sorted_wrt (\<lambda>a b. f b < f a) (l :: 'a list)" "k < length l"
  shows "length (filter (\<lambda>j. f (l ! k) < (f j :: 'b :: linorder)) l) = k"
proof -
  have pair: "i < j \<Longrightarrow> j < length l \<Longrightarrow> f (l ! j) < f (l ! i)" for i j
    using assms(1) by (simp add: sorted_wrt_iff_nth_less)
  have "\<forall>x\<in>set (take k l). f (l ! k) < f x" using pair assms(2) by (auto simp: in_set_conv_nth)
  moreover have "\<forall>x\<in>set (drop k l). \<not> f (l ! k) < f x"
  proof
    fix x assume "x \<in> set (drop k l)"
    then obtain i where "i < length (drop k l)" "drop k l ! i = x" unfolding in_set_conv_nth by blast
    then have "x = l ! (k + i)" "k + i < length l" using assms(2) by simp_all
    then show "\<not> f (l ! k) < f x" using pair [of k "k + i"] by (cases i) (auto dest: less_asym)
  qed
  ultimately have "filter (\<lambda>j. f (l ! k) < f j) (take k l @ drop k l) = take k l"
    unfolding filter_append by simp
  then show ?thesis using assms(2) by simp
qed

lemma jobs_newest_facts:
  "distinct (jobs_newest rows)" "set (jobs_newest rows) = z_job ` set rows"
  "mset (jobs_newest rows) = mset (remdups (map z_job rows))"
  "sorted_wrt (\<lambda>a b. (done_at rows b, b) < (done_at rows a, a)) (jobs_newest rows)"
proof -
  let ?key = "\<lambda>job. (done_at rows job, job)"
  show d: "distinct (jobs_newest rows)" "set (jobs_newest rows) = z_job ` set rows"
      "mset (jobs_newest rows) = mset (remdups (map z_job rows))"
    by (simp_all add: jobs_newest_def)
  have "sorted (map ?key (sort_key ?key (remdups (map z_job rows))))" by (rule sorted_sort_key)
  then have "sorted_wrt (\<lambda>a b. ?key b \<le> ?key a) (jobs_newest rows)"
    by (simp add: jobs_newest_def sorted_wrt_rev sorted_map)
  then have "sorted_wrt (\<lambda>a b. ?key b \<le> ?key a \<and> a \<noteq> b) (jobs_newest rows)"
    using d(1) by (auto simp: sorted_wrt_iff_nth_less distinct_conv_nth)
  then show "sorted_wrt (\<lambda>a b. ?key b < ?key a) (jobs_newest rows)"
    by (rule sorted_wrt_mono_rel [rotated]) (auto simp: less_le)
qed

lemma job_page_simps:
  assumes "0 < per_page" "1 \<le> p" "p \<le> page_count (length (remdups (map z_job rows))) per_page"
  shows "z_job ` set (pg_results (results_page rows (int p) per_page None)) =
           set (take per_page (drop ((p - 1) * per_page) (jobs_newest rows)))"
proof -
  have "nat (min (max (int p) 1) (int (page_count (length (remdups (map z_job rows))) per_page))) = p"
    using assms by simp
  moreover have "set (take per_page (drop ((p - 1) * per_page) (jobs_newest rows))) \<subseteq> z_job ` set rows"
    unfolding jobs_newest_facts(2) [symmetric] by (meson in_set_dropD in_set_takeD subsetI)
  moreover from calculation have "pg_results (results_page rows (int p) per_page None) =
      filter (\<lambda>r. z_job r \<in> set (take per_page (drop ((p - 1) * per_page) (jobs_newest rows)))) rows"
    by (simp only: results_page_def Let_def option.case job_page.simps)
  ultimately show ?thesis by auto
qed

lemma filter_single_upt: "filter (\<lambda>p. p = k) [a..<b] = (if a \<le> k \<and> k < b then [k] else [])"
  by (induction b) auto

lemma index_page:
  assumes "0 < per_page" "1 \<le> p" "distinct l" "k < length l"
  shows "l ! k \<in> set (take per_page (drop ((p - 1) * per_page) l)) \<longleftrightarrow> p = k div per_page + 1"
proof
  assume "l ! k \<in> set (take per_page (drop ((p - 1) * per_page) l))"
  then obtain i where i: "i < per_page" "(p - 1) * per_page + i < length l" "l ! k = l ! ((p - 1) * per_page + i)"
    by (auto simp: in_set_conv_nth)
  then have "k = (p - 1) * per_page + i" using assms(3,4) by (simp add: nth_eq_iff_index_eq)
  then have "k div per_page = p - 1" using i(1) by simp
  then show "p = k div per_page + 1" using assms(2) by simp
next
  assume "p = k div per_page + 1"
  then have "k = (p - 1) * per_page + k mod per_page" by simp
  moreover have "k mod per_page < per_page" using assms(1) by simp
  ultimately show "l ! k \<in> set (take per_page (drop ((p - 1) * per_page) l))"
    using assms(4) unfolding in_set_conv_nth
    by (intro exI [of _ "k mod per_page"]) auto
qed

lemma index_page_count: "0 < per_page \<Longrightarrow> k < n \<Longrightarrow> k div per_page + 1 \<le> page_count n per_page"
proof -
  assume a: "0 < per_page" "k < n"
  have "(k + per_page) div per_page \<le> (n + per_page - 1) div per_page" using a by (intro div_le_mono) simp
  moreover have "(k + per_page) div per_page = k div per_page + 1" using a by (intro div_add_self2) simp
  ultimately show ?thesis unfolding page_count_def by simp
qed

lemma job_index:
  assumes "job \<in> z_job ` set rows"
  obtains k where "k < length (jobs_newest rows)" "jobs_newest rows ! k = job"
    "page_of_job rows per_page job = k div per_page + 1"
proof -
  let ?l = "jobs_newest rows" and ?key = "\<lambda>j. (done_at rows j, j)"
  from assms obtain k where k: "k < length ?l" "?l ! k = job"
    unfolding jobs_newest_facts(2) [symmetric] by (auto simp: in_set_conv_nth)
  have "length (filter (\<lambda>j. ?key job < ?key j) ?l) = k"
    using count_greater [OF jobs_newest_facts(4) k(1)] k(2) by simp
  moreover have "length (filter (\<lambda>j. ?key job < ?key j) (remdups (map z_job rows))) = length (filter (\<lambda>j. ?key job < ?key j) ?l)"
    unfolding size_mset [symmetric] mset_filter jobs_newest_facts(3) ..
  moreover have "(\<lambda>j. done_at rows job < done_at rows j \<or> done_at rows j = done_at rows job \<and> job < j) = (\<lambda>j. ?key job < ?key j)"
    by (auto simp: less_prod_def)
  ultimately have "page_of_job rows per_page job = k div per_page + 1" by (simp add: page_of_job_def)
  with k that show thesis by blast
qed

definition pages_with :: "result_row list \<Rightarrow> nat \<Rightarrow> string \<Rightarrow> nat list" where
  "pages_with rows per_page job =
     filter (\<lambda>p. job \<in> z_job ` set (pg_results (results_page rows (int p) per_page None)))
       [1..<Suc (pg_pages (results_page rows 1 per_page None))]"

text \<open>Paging loses no job and shows none twice: a job of the list is on exactly one page, with all its
  devices; a page holds at most \<open>per_page\<close> jobs; and a job to land on is on the page shown, whatever page
  was asked for.\<close>

theorem every_job_on_one_page:
  assumes "0 < per_page" "job \<in> z_job ` set rows"
  shows "let pg = results_page rows asked_page per_page (Some job) in
           pages_with rows per_page job = [pg_page pg]
           \<and> job_rows_of (pg_results pg) job = job_rows_of rows job
           \<and> card (z_job ` set (pg_results pg)) \<le> per_page"
proof -
  let ?l = "jobs_newest rows" and ?pg = "results_page rows asked_page per_page (Some job)"
  obtain k where k: "k < length ?l" "?l ! k = job" "page_of_job rows per_page job = k div per_page + 1"
    using job_index [OF assms(2)] .
  have len: "length ?l = length (remdups (map z_job rows))" by (simp add: jobs_newest_def)
  let ?n = "page_count (length ?l) per_page" and ?p = "k div per_page + 1"
  have p: "?p \<le> ?n" using index_page_count [OF assms(1) k(1)] .
  let ?jobs = "take per_page (drop ((?p - 1) * per_page) ?l)"
  have "nat (min (max (int ?p) 1) (int ?n)) = ?p" using p by simp
  then have shown: "pg_page ?pg = ?p" "pg_results ?pg = filter (\<lambda>r. z_job r \<in> set ?jobs) rows"
    using assms(2) by (simp_all add: results_page_def Let_def k(3) len del: of_nat_add of_nat_Suc)
  have here: "job \<in> set ?jobs" using index_page [OF assms(1) _ jobs_newest_facts(1) k(1), of ?p] k(2) by simp
  have "pages_with rows per_page job = filter (\<lambda>p. p = ?p) [1..<Suc ?n]"
  proof -
    have pgs: "pg_pages (results_page rows 1 per_page None) = ?n"
      by (simp only: results_page_def Let_def len job_page.simps)
    show ?thesis unfolding pages_with_def pgs
    proof (rule filter_cong [OF refl])
      fix q assume "q \<in> set [1..<Suc ?n]"
      then have q: "1 \<le> q" "q \<le> page_count (length (remdups (map z_job rows))) per_page" using len by auto
      show "job \<in> z_job ` set (pg_results (results_page rows (int q) per_page None)) \<longleftrightarrow> q = ?p"
        unfolding job_page_simps [OF assms(1) q] using index_page [OF assms(1) q(1) jobs_newest_facts(1) k(1)] k(2) by simp
    qed
  qed
  moreover have "filter (\<lambda>p. p = ?p) [1..<Suc ?n] = [?p]"
    using p by (simp add: filter_single_upt)
  moreover have "job_rows_of (filter (\<lambda>r. z_job r \<in> set ?jobs) rows) job = job_rows_of rows job"
    unfolding job_rows_of_def filter_filter using here by (intro filter_cong) auto
  moreover have "card (z_job ` set (pg_results ?pg)) \<le> per_page"
  proof -
    have "card (z_job ` set (pg_results ?pg)) \<le> card (set ?jobs)" by (rule card_mono) (auto simp: shown(2))
    also have "\<dots> \<le> length ?jobs" by (rule card_length)
    finally show ?thesis by simp
  qed
  ultimately show ?thesis by (simp add: Let_def shown)
qed

lemma every_job_on_one_page_witness:
  "pages_with sample_table 1 ''a'' = [pg_page (results_page sample_table 99 1 (Some ''a''))]"
  using every_job_on_one_page [of 1 "''a''" sample_table 99] by (simp add: Let_def sample_table_def sample_row_def)

section \<open>Decisions\<close>

lemma settle_simps [simp]:
  "z_id (settle v now dec c r) = z_id r" "z_job (settle v now dec c r) = z_job r" "x_ip (settle v now dec c r) = x_ip r"
  "x_port (settle v now dec c r) = x_port r" "z_user (settle v now dec c r) = z_user r"
  "z_outcome (settle v now dec c r) = Some dec" "x_transcript (settle v now dec c r) = x_transcript r"
  by (simp_all add: settle_def)

lemma find_update:
  assumes "List.find P table = Some r" "P r'" "z_id r' = z_id r"
  shows "List.find P (update_row r' table) = Some r'"
  using assms(1)
proof (induction table)
  case (Cons x xs)
  then show ?case using assms(2,3) by (cases "z_id x = z_id r") (auto simp: update_row_def split: if_splits)
qed simp

lemma decide_InrD:
  assumes "decide v now table job ip port dec comment = Inr r'"
  shows "case row_of_device table job ip port of None \<Rightarrow> False
     | Some r \<Rightarrow> r' = settle v now dec (strip comment) r \<and> may_see v (z_user r) \<and> awaiting_decision r"
proof (cases "row_of_device table job ip port")
  case None
  then show ?thesis using assms by (simp add: decide_def)
next
  case (Some r)
  then show ?thesis using assms
    by (cases "z_outcome r") (simp_all add: decide_def awaiting_decision_def split: if_splits)
qed

lemma decide_InlD:
  assumes "decide v now table job ip port dec comment = Inl e"
  shows "case row_of_device table job ip port of None \<Rightarrow> \<exists>t. e = Not_Found t
     | Some r \<Rightarrow> if may_see v (z_user r)
         then (\<exists>t. e = Refused t) \<and> (\<not> awaiting_decision r \<or> review_comment_max < length (strip comment))
         else (\<exists>t. e = Not_Found t)"
proof (cases "row_of_device table job ip port")
  case None
  then show ?thesis using assms by (auto simp: decide_def)
next
  case (Some r)
  then show ?thesis using assms
    by (cases "z_outcome r") (auto simp: decide_def awaiting_decision_def split: if_splits)
qed

definition decision_sound :: "viewer \<Rightarrow> result_row list \<Rightarrow> string \<Rightarrow> string \<Rightarrow> nat option \<Rightarrow> review_outcome \<Rightarrow> string
    \<Rightarrow> decide_error + result_row \<Rightarrow> bool" where
  "decision_sound v table job ip port dec comment answer \<longleftrightarrow>
     (case (row_of_device table job ip port, answer) of
        (None, Inl (Not_Found _)) \<Rightarrow> True
      | (Some r, Inl (Not_Found _)) \<Rightarrow> \<not> may_see v (z_user r)
      | (Some r, Inl (Refused _)) \<Rightarrow> may_see v (z_user r) \<and> (\<not> awaiting_decision r \<or> review_comment_max < length (strip comment))
      | (Some r, Inr r') \<Rightarrow> may_see v (z_user r) \<and> awaiting_decision r \<and> \<not> awaiting_decision r'
          \<and> z_by r' = Some (vw_id v) \<and> z_outcome r' = Some dec
          \<and> x_status r' = (if dec = Confirmed then St_Success
               else if x_verified r \<in> {None, Some 0} then St_Failed else St_Partial)
      | _ \<Rightarrow> False)"


end
