(* ===== verification/Discovery_Targets.thy ===== *)
theory Discovery_Targets
  imports Address "HOL-Library.Product_Lexorder"
begin

text \<open>
  \<open>src/discovery/targets.py\<close>: the addresses a discovery scans, read from what was typed. Addresses are
  numbers, as in the source; \<open>rounded_log2\<close> (of a count too big to say in digits) is a parameter.
\<close>

section \<open>Addresses as texts\<close>

definition show_ipv4 :: "int \<Rightarrow> string" where
  "show_ipv4 v = join ''.'' (map (\<lambda>k. show_int (v div 256 ^ k mod 256)) [3, 2, 1, 0])"

text \<open>Python's IPv6: lower case, no leading zeros, the first longest run of two or more zero hextets
  as a double colon.\<close>

fun strip_zeros :: "string \<Rightarrow> string" where
  "strip_zeros (c # d # cs) = (if c = CHR ''0'' then strip_zeros (d # cs) else c # d # cs)"
| "strip_zeros cs = cs"

definition hextets :: "int \<Rightarrow> int list" where
  "hextets v = map (\<lambda>k. v div 65536 ^ k mod 65536) [7, 6, 5, 4, 3, 2, 1, 0]"

definition zeros_at :: "int list \<Rightarrow> nat \<Rightarrow> nat" where
  "zeros_at hs i = length (takeWhile (\<lambda>h. h = 0) (drop i hs))"

fun longest_run :: "int list \<Rightarrow> nat list \<Rightarrow> nat \<times> nat \<Rightarrow> nat \<times> nat" where
  "longest_run hs [] best = best"
| "longest_run hs (i # is) (at_index, n) =
     longest_run hs is (if n < zeros_at hs i then (i, zeros_at hs i) else (at_index, n))"

definition show_ipv6 :: "int \<Rightarrow> string" where
  "show_ipv6 v =
     (let hs = hextets v; ts = map (\<lambda>h. strip_zeros (four_hex h)) hs;
          (i, n) = longest_run hs [0..<8] (0, 1)
      in if n \<le> 1 then join '':'' ts
         else join '':'' (take i ts) @ ''::'' @ join '':'' (drop (i + n) ts))"

definition show_address :: "nat \<Rightarrow> int \<Rightarrow> string" where
  "show_address version v = (if version = 4 then show_ipv4 v else show_ipv6 v)"

definition max_bits :: "nat \<Rightarrow> nat" where
  "max_bits version = (if version = 4 then 32 else 128)"

section \<open>Spans\<close>

record span =
  sp_version :: nat
  sp_first :: int
  sp_last :: int

definition span_of :: "nat \<Rightarrow> int \<Rightarrow> int \<Rightarrow> span" where
  "span_of version a b = \<lparr>sp_version = version, sp_first = a, sp_last = b\<rparr>"

definition span_size :: "span \<Rightarrow> int" where
  "span_size s = sp_last s - sp_first s + 1"

text \<open>Blocks never scanned: version, first, last, how the network is written, what it holds.\<close>

definition refused_blocks :: "(nat \<times> int \<times> int \<times> string \<times> string) list" where
  "refused_blocks =
     [(4, 0, 2 ^ 24 - 1, ''0.0.0.0/8'', ''no device addresses''),
      (4, 127 * 2 ^ 24, 128 * 2 ^ 24 - 1, ''127.0.0.0/8'', ''loopback - NetRollout'' @ [squote] @ ''s own server''),
      (4, 224 * 2 ^ 24, 240 * 2 ^ 24 - 1, ''224.0.0.0/4'', ''multicast, not devices''),
      (4, 240 * 2 ^ 24, 2 ^ 32 - 1, ''240.0.0.0/4'', ''reserved, not devices''),
      (6, 0, 0, ''::/128'', ''no device address''),
      (6, 1, 1, ''::1/128'', ''loopback - NetRollout'' @ [squote] @ ''s own server''),
      (6, 65152 * 2 ^ 112, 65216 * 2 ^ 112 - 1, ''fe80::/10'',
        ''link-local - scan the devices'' @ [squote] @ '' global addresses''),
      (6, 65280 * 2 ^ 112, 2 ^ 128 - 1, ''ff00::/8'', ''multicast, not devices'')]"

section \<open>One entry\<close>

definition not_targets :: "string \<Rightarrow> string" where
  "not_targets entry = dquote # entry @ dquote # '' isn'' @ squote # ''t an address, a subnet (10.0.0.0/24) or a range (10.0.0.10-50)''"

definition quoted_entry :: "string \<Rightarrow> string" where
  "quoted_entry entry = dquote # entry @ [dquote]"

definition read_address :: "string \<Rightarrow> string \<Rightarrow> string + (nat \<times> int)" where
  "read_address t entry =
     (if CHR ''%'' \<in> set t then Inl (not_targets entry)
      else (case ipv4_value t of
          Some v \<Rightarrow> Inr (4, v)
        | None \<Rightarrow> (case ipv6_value t of
            None \<Rightarrow> Inl (not_targets entry)
          | Some v \<Rightarrow>
              if v div 2 ^ 32 = 65535
              then Inl (quoted_entry entry @ '': write an IPv4 address as '' @ show_ipv4 (v mod 2 ^ 32))
              else Inr (6, v))))"

text \<open>\<open>_PREFIX\<close> and \<open>_LAST_OCTET\<close>: one to three digits.\<close>

definition short_number :: "string \<Rightarrow> bool" where
  "short_number t \<longleftrightarrow> t \<noteq> [] \<and> length t \<le> 3 \<and> list_all is_dec t"

definition read_network :: "string \<Rightarrow> string + (span \<times> string list)" where
  "read_network entry =
     (let (address_text, _, prefix_text) = partition_char (CHR ''/'') entry in
      if \<not> short_number prefix_text then Inl (not_targets entry)
      else (case read_address address_text entry of
          Inl e \<Rightarrow> Inl e
        | Inr (version, address) \<Rightarrow>
            (let p = digits_value 0 prefix_text; bits = max_bits version in
             if bits < p then Inl (quoted_entry entry @ '': an IPv'' @ show_nat version @ '' prefix is 0 to '' @ show_nat bits)
             else
               (let block = 2 ^ (bits - p); network = address - address mod block; broadcast = network + block - 1;
                    notes = (if network \<noteq> address
                      then [entry @ '' means '' @ show_address version network @ ''/'' @ show_nat p] else []);
                    a = (if version = 4 \<and> p \<le> 30 \<or> version = 6 \<and> p \<le> 126 then network + 1 else network);
                    b = (if version = 4 \<and> p \<le> 30 then broadcast - 1 else broadcast)
                in Inr (span_of version a b, notes)))))"

definition read_range_end :: "string \<Rightarrow> nat \<times> int \<Rightarrow> string \<Rightarrow> string + (nat \<times> int)" where
  "read_range_end entry start t =
     (if fst start = 4 \<and> short_number t
      then (if 255 < digits_value 0 t then Inl (quoted_entry entry @ '': the range'' @ squote # ''s end is 0 to 255'')
            else Inr (4, snd start - snd start mod 256 + int (digits_value 0 t)))
      else read_address t entry)"

definition read_range :: "string \<Rightarrow> string + span" where
  "read_range entry =
     (let (start_text, _, end_text) = partition_char (CHR ''-'') entry in
      if end_text = [] \<or> CHR ''-'' \<in> set end_text then Inl (not_targets entry)
      else (case read_address start_text entry of
          Inl e \<Rightarrow> Inl e
        | Inr start \<Rightarrow> (case read_range_end entry start end_text of
            Inl e \<Rightarrow> Inl e
          | Inr stop \<Rightarrow>
              if fst stop \<noteq> fst start then Inl (quoted_entry entry @ '' mixes IPv4 and IPv6'')
              else if snd stop < snd start
              then Inl (quoted_entry entry @ '' runs backwards - write the lower address first'')
              else Inr (span_of (fst start) (snd start) (snd stop)))))"

definition meets :: "span \<Rightarrow> nat \<times> int \<times> int \<times> string \<times> string \<Rightarrow> bool" where
  "meets s block = (case block of (version, a, b, _) \<Rightarrow> version = sp_version s \<and> sp_first s \<le> b \<and> a \<le> sp_last s)"

definition refusal_words :: "string \<Rightarrow> span \<Rightarrow> nat \<times> int \<times> int \<times> string \<times> string \<Rightarrow> string" where
  "refusal_words entry s block = (case block of (_, _, _, network, what) \<Rightarrow>
     quoted_entry entry @ (if span_size s = 1 then '' is in '' else '' reaches into '') @ network @ '': '' @ what)"

definition read_span :: "string \<Rightarrow> string + (span \<times> string list)" where
  "read_span entry =
     (if CHR ''/'' \<in> set entry then read_network entry
      else if CHR ''-'' \<in> set entry
      then (case read_range entry of Inl e \<Rightarrow> Inl e | Inr s \<Rightarrow> Inr (s, []))
      else (case read_address entry entry of
          Inl e \<Rightarrow> Inl e | Inr (version, v) \<Rightarrow> Inr (span_of version v v, [])))"

definition read_entry :: "string \<Rightarrow> string + (span \<times> string list)" where
  "read_entry entry =
     (case read_span entry of
        Inl e \<Rightarrow> Inl e
      | Inr (s, notes) \<Rightarrow>
          (case List.find (meets s) refused_blocks of
             Some block \<Rightarrow> Inl (refusal_words entry s block)
           | None \<Rightarrow> Inr (s, notes)))"

fun read_entries :: "string list \<Rightarrow> string + (span list \<times> string list)" where
  "read_entries [] = Inr ([], [])"
| "read_entries (e # es) =
     (case read_entry e of
        Inl err \<Rightarrow> Inl err
      | Inr (s, ns) \<Rightarrow> (case read_entries es of
          Inl err \<Rightarrow> Inl err
        | Inr (ss, notes) \<Rightarrow> Inr (s # ss, ns @ notes)))"

section \<open>All of them\<close>

text \<open>\<open>_merged\<close>: the spans merged so far, the last one first.\<close>

fun merge_spans :: "span list \<Rightarrow> bool \<Rightarrow> span list \<Rightarrow> span list \<times> bool" where
  "merge_spans merged overlapped [] = (rev merged, overlapped)"
| "merge_spans [] overlapped (s # ss) = merge_spans [s] overlapped ss"
| "merge_spans (l # merged) overlapped (s # ss) =
     (if sp_version l = sp_version s \<and> sp_first s \<le> sp_last l + 1
      then merge_spans (span_of (sp_version l) (sp_first l) (max (sp_last l) (sp_last s)) # merged)
             (overlapped \<or> sp_first s \<le> sp_last l) ss
      else merge_spans (s # l # merged) overlapped ss)"

definition merged_spans :: "span list \<Rightarrow> span list \<times> bool" where
  "merged_spans ss = merge_spans [] False (sort_key (\<lambda>s. (sp_version s, sp_first s)) ss)"

text \<open>\<open>f"{count:,}"\<close>.\<close>

function show_thousands :: "nat \<Rightarrow> string" where
  "show_thousands n =
     (if n < 1000 then show_nat n
      else show_thousands (n div 1000) @ '','' @ show_nat (n div 100 mod 10) @ show_nat (n div 10 mod 10) @ show_nat (n mod 10))"
  by pat_completeness auto
termination by (relation "measure id") auto

declare show_thousands.simps [simp del]

definition said_count :: "(int \<Rightarrow> int) \<Rightarrow> int \<Rightarrow> string" where
  "said_count rounded_log2 how_many =
     (if 10 ^ 15 < how_many then ''about 2^'' @ show_int (rounded_log2 how_many) else show_thousands (nat how_many))"

record targets =
  tg_entries :: "string list"
  tg_notes :: "string list"
  tg_spans :: "span list"
  tg_count :: int

definition entries_of :: "string \<Rightarrow> string list" where
  "entries_of t = Prelude.fields (\<lambda>c. is_space c \<or> c \<in> set '',;'') t"

definition parse_targets :: "(int \<Rightarrow> int) \<Rightarrow> string \<Rightarrow> nat \<Rightarrow> string + targets" where
  "parse_targets rounded_log2 t limit =
     (let entries = entries_of t in
      if entries = [] then Inl ''Enter the addresses to scan: a subnet (10.0.0.0/24), a range (10.0.0.10-50) or an address''
      else (case read_entries entries of
          Inl e \<Rightarrow> Inl e
        | Inr (ss, notes) \<Rightarrow>
            (let (spans, overlapped) = merged_spans ss; how_many = sum_list (map span_size spans) in
             if int limit < how_many
             then Inl (said_count rounded_log2 how_many @ '' addresses - one discovery takes at most ''
                  @ show_thousands limit @ ''. Split it, or narrow the subnet.'')
             else Inr \<lparr>tg_entries = entries,
                tg_notes = notes @ (if overlapped then [''overlapping entries counted once''] else []),
                tg_spans = spans, tg_count = how_many\<rparr>)))"

text \<open>\<open>Targets.addresses\<close>, as numbers with their version, and as texts.\<close>

definition span_numbers :: "span \<Rightarrow> (nat \<times> int) list" where
  "span_numbers s = map (Pair (sp_version s)) [sp_first s..sp_last s]"

definition target_numbers :: "targets \<Rightarrow> (nat \<times> int) list" where
  "target_numbers tg = concat (map span_numbers (tg_spans tg))"

definition target_addresses :: "targets \<Rightarrow> string list" where
  "target_addresses tg = map (\<lambda>(version, v). show_address version v) (target_numbers tg)"

end
