(* ===== verification/Discovery_Properties.thy ===== *)
theory Discovery_Properties
  imports Discovery_Targets
begin

text \<open>
  What a discovery scans is what was typed: the spans read from the entries, merged, hold the same
  addresses, each once, in order, none of a block that is never scanned, and as many as were counted.
\<close>

definition span_set :: "span \<Rightarrow> (nat \<times> int) set" where
  "span_set s = {(version, v). version = sp_version s \<and> sp_first s \<le> v \<and> v \<le> sp_last s}"

definition spans_ok :: "span list \<Rightarrow> bool" where
  "spans_ok ss \<longleftrightarrow> (\<forall>s\<in>set ss. sp_first s \<le> sp_last s)"

text \<open>An address of a block never scanned.\<close>

definition never_scanned :: "nat \<times> int \<Rightarrow> bool" where
  "never_scanned x \<longleftrightarrow> (\<exists>(version, a, b, _)\<in>set refused_blocks. fst x = version \<and> a \<le> snd x \<and> snd x \<le> b)"

section \<open>One entry\<close>

lemma span_of_simps [simp]:
  "sp_version (span_of v a b) = v" "sp_first (span_of v a b) = a" "sp_last (span_of v a b) = b"
  by (simp_all add: span_of_def)

lemma read_address_version: "read_address t entry = Inr (version, v) \<Longrightarrow> version = 4 \<or> version = 6"
  by (auto simp: read_address_def split: if_splits option.splits)

lemma block_size: "p \<le> bits \<Longrightarrow> k \<le> bits - p \<Longrightarrow> (2 :: int) ^ k \<le> 2 ^ (bits - p)"
  by (rule power_increasing) simp_all

lemma read_network_nonempty:
  assumes "read_network entry = Inr (s, notes)"
  shows "sp_first s \<le> sp_last s"
proof -
  obtain address_text found prefix_text where parts: "partition_char (CHR ''/'') entry = (address_text, found, prefix_text)"
    by (cases "partition_char (CHR ''/'') entry")
  from assms parts obtain version address where a: "read_address address_text entry = Inr (version, address)"
    by (auto simp: read_network_def split: if_splits sum.splits)
  define p where "p = digits_value 0 prefix_text"
  define block where "block = (2 :: int) ^ (max_bits version - p)"
  define network where "network = address - address mod block"
  have v: "version = 4 \<or> version = 6" by (rule read_address_version [OF a])
  have le: "p \<le> max_bits version"
    using assms by (auto simp: read_network_def parts a p_def [symmetric] Let_def split: if_splits)
  have s: "sp_first s = (if version = 4 \<and> p \<le> 30 \<or> version = 6 \<and> p \<le> 126 then network + 1 else network)"
      "sp_last s = (if version = 4 \<and> p \<le> 30 then network + block - 2 else network + block - 1)"
    using assms by (auto simp: read_network_def parts a Let_def p_def block_def network_def split: if_splits)
  have "1 \<le> block" by (simp add: block_def)
  moreover have "4 \<le> block" if "p + 2 \<le> max_bits version"
    using that block_size [of p "max_bits version" 2] by (simp add: block_def)
  ultimately show ?thesis using s v le by (auto simp: max_bits_def split: if_splits)
qed

lemma read_range_nonempty: "read_range entry = Inr s \<Longrightarrow> sp_first s \<le> sp_last s"
  by (auto simp: read_range_def split: prod.splits if_splits sum.splits)

lemma read_span_nonempty: "read_span entry = Inr (s, notes) \<Longrightarrow> sp_first s \<le> sp_last s"
  using read_network_nonempty read_range_nonempty by (auto simp: read_span_def split: if_splits sum.splits)

lemma find_NoneD: "List.find p xs = None \<Longrightarrow> x \<in> set xs \<Longrightarrow> \<not> p x"
  by (induction xs) (auto split: if_splits)

lemma read_entry_sound:
  assumes "read_entry entry = Inr (s, notes)"
  shows "sp_first s \<le> sp_last s" "x \<in> span_set s \<Longrightarrow> \<not> never_scanned x"
proof -
  from assms have r: "read_span entry = Inr (s, notes)" "List.find (meets s) refused_blocks = None"
    by (auto simp: read_entry_def split: sum.splits option.splits)
  from r(1) show "sp_first s \<le> sp_last s" by (rule read_span_nonempty)
  show "x \<in> span_set s \<Longrightarrow> \<not> never_scanned x"
    using find_NoneD [OF r(2)] by (fastforce simp: never_scanned_def span_set_def meets_def)
qed

lemma read_entries_sound:
  "read_entries es = Inr (ss, told) \<Longrightarrow> spans_ok ss \<and> (\<forall>s\<in>set ss. \<forall>x\<in>span_set s. \<not> never_scanned x)"
proof (induction es arbitrary: ss told)
  case (Cons e es)
  from Cons.prems obtain s ns ss' told' where "read_entry e = Inr (s, ns)" "read_entries es = Inr (ss', told')" "ss = s # ss'"
    by (auto split: sum.splits)
  with Cons.IH [OF this(2)] read_entry_sound [OF this(1)] show ?case by (auto simp: spans_ok_def)
qed (simp add: spans_ok_def)

section \<open>Merging\<close>

definition span_key :: "span \<Rightarrow> nat \<times> int" where
  "span_key s = (sp_version s, sp_first s)"

definition apart :: "span \<Rightarrow> span \<Rightarrow> bool" where
  "apart a b \<longleftrightarrow> sp_version a < sp_version b \<or> sp_version a = sp_version b \<and> sp_last a + 1 < sp_first b"

definition total_size :: "span list \<Rightarrow> int" where
  "total_size ss = sum_list (map span_size ss)"

lemma total_size_simps [simp]:
  "total_size [] = 0" "total_size (s # ss) = span_size s + total_size ss" "total_size (a @ b) = total_size a + total_size b"
  "total_size (rev a) = total_size a"
  by (simp_all add: total_size_def rev_map [symmetric] sum_list_rev)

text \<open>Joining a span with the last one merged.\<close>

lemma join_spans:
  assumes "sp_version l = sp_version s" "sp_first l \<le> sp_first s" "sp_first s \<le> sp_last l + 1"
    "sp_first l \<le> sp_last l" "sp_first s \<le> sp_last s"
  defines "m \<equiv> span_of (sp_version l) (sp_first l) (max (sp_last l) (sp_last s))"
  shows "span_set m = span_set l \<union> span_set s" "sp_first m \<le> sp_last m" "span_key m = span_key l"
    "span_size m \<le> span_size l + span_size s"
    "span_size m < span_size l + span_size s \<longleftrightarrow> sp_first s \<le> sp_last l"
  using assms by (auto simp: span_set_def span_size_def span_key_def)

lemma merge_spans_sound:
  assumes "merge_spans acc ov ss = (out, ov')" "spans_ok acc" "spans_ok ss"
    "sorted_wrt (\<lambda>b a. apart a b) acc" "sorted (map span_key ss)" "acc \<noteq> [] \<Longrightarrow> ss \<noteq> [] \<Longrightarrow> span_key (hd acc) \<le> span_key (hd ss)"
  shows "sorted_wrt apart out \<and> spans_ok out
     \<and> \<Union> (span_set ` set out) = \<Union> (span_set ` set acc) \<union> \<Union> (span_set ` set ss)
     \<and> total_size out \<le> total_size acc + total_size ss
     \<and> (ov' \<longleftrightarrow> ov \<or> total_size out < total_size acc + total_size ss)"
  using assms
proof (induction acc ov ss rule: merge_spans.induct)
  case (1 merged overlapped)
  then show ?case by (auto simp: sorted_wrt_rev spans_ok_def)
next
  case (2 overlapped s ss)
  have "merge_spans [s] overlapped ss = (out, ov')" "spans_ok [s]" "spans_ok ss" "sorted (map span_key ss)"
      "ss \<noteq> [] \<Longrightarrow> span_key s \<le> span_key (hd ss)"
    using "2.prems" by (auto simp: spans_ok_def neq_Nil_conv)
  from "2.IH" [OF this(1-3) _ this(4)] this(5) show ?case by simp
next
  case (3 l merged overlapped s ss)
  have ok: "spans_ok ss" "sorted (map span_key ss)" "sp_first l \<le> sp_last l" "sp_first s \<le> sp_last s" "spans_ok merged"
      "span_key l \<le> span_key s" "ss \<noteq> [] \<Longrightarrow> span_key s \<le> span_key (hd ss)"
      "sorted_wrt (\<lambda>b a. apart a b) merged" "\<forall>a\<in>set merged. apart a l"
    using "3.prems"(2-6) by (auto simp: spans_ok_def neq_Nil_conv)
  show ?case
  proof (cases "sp_version l = sp_version s \<and> sp_first s \<le> sp_last l + 1")
    case True
    let ?m = "span_of (sp_version l) (sp_first l) (max (sp_last l) (sp_last s))"
    have "sp_first l \<le> sp_first s" using ok(6) True by (auto simp: span_key_def less_eq_prod_def)
    note j = join_spans [OF conjunct1 [OF True] this conjunct2 [OF True] ok(3,4)]
    have "merge_spans (?m # merged) (overlapped \<or> sp_first s \<le> sp_last l) ss = (out, ov')"
      using "3.prems"(1) True by simp
    moreover have "spans_ok (?m # merged)" using ok(5) j(2) by (simp add: spans_ok_def)
    moreover have "sorted_wrt (\<lambda>b a. apart a b) (?m # merged)" using ok(8,9) by (auto simp: apart_def)
    moreover have "ss \<noteq> [] \<Longrightarrow> span_key (hd (?m # merged)) \<le> span_key (hd ss)"
      using ok(6,7) j(3) by auto
    ultimately have "sorted_wrt apart out \<and> spans_ok out
       \<and> \<Union> (span_set ` set out) = \<Union> (span_set ` set (?m # merged)) \<union> \<Union> (span_set ` set ss)
       \<and> total_size out \<le> total_size (?m # merged) + total_size ss
       \<and> (ov' \<longleftrightarrow> (overlapped \<or> sp_first s \<le> sp_last l) \<or> total_size out < total_size (?m # merged) + total_size ss)"
      using "3.IH"(1) [OF True _ _ ok(1) _ ok(2)] by blast
    then show ?thesis using j(1,4,5) by auto
  next
    case False
    then have step: "merge_spans (s # l # merged) overlapped ss = (out, ov')" using "3.prems"(1) by auto
    have ls: "apart l s" using ok(6) False by (auto simp: apart_def span_key_def less_eq_prod_def)
    have "apart a s" if "a \<in> set merged" for a
    proof -
      have "apart a l" using ok(9) that by blast
      then show ?thesis using ls ok(3) by (auto simp: apart_def)
    qed
    then have "sorted_wrt (\<lambda>b a. apart a b) (s # l # merged)" using ls ok(8,9) by simp
    moreover have "spans_ok (s # l # merged)" using ok(3,4,5) by (simp add: spans_ok_def)
    ultimately have "sorted_wrt apart out \<and> spans_ok out
       \<and> \<Union> (span_set ` set out) = \<Union> (span_set ` set (s # l # merged)) \<union> \<Union> (span_set ` set ss)
       \<and> total_size out \<le> total_size (s # l # merged) + total_size ss
       \<and> (ov' \<longleftrightarrow> overlapped \<or> total_size out < total_size (s # l # merged) + total_size ss)"
      using "3.IH"(2) [OF False step _ ok(1) _ ok(2)] ok(7) by simp
    then show ?thesis by auto
  qed
qed

lemma merged_spans_sound:
  assumes "merged_spans ss = (out, ov)" "spans_ok ss"
  shows "sorted_wrt apart out" "spans_ok out" "\<Union> (span_set ` set out) = \<Union> (span_set ` set ss)"
    "ov \<longleftrightarrow> total_size out < total_size ss"
proof -
  have k: "(\<lambda>s. (sp_version s, sp_first s)) = span_key" by (simp add: fun_eq_iff span_key_def)
  have m: "total_size (sort_key span_key ss) = total_size ss"
    unfolding total_size_def by (metis mset_map mset_sort sum_mset_sum_list)
  have "sorted_wrt apart out \<and> spans_ok out
     \<and> \<Union> (span_set ` set out) = \<Union> (span_set ` set []) \<union> \<Union> (span_set ` set (sort_key span_key ss))
     \<and> total_size out \<le> total_size [] + total_size (sort_key span_key ss)
     \<and> (ov \<longleftrightarrow> False \<or> total_size out < total_size [] + total_size (sort_key span_key ss))"
    using assms by (intro merge_spans_sound) (auto simp: merged_spans_def k spans_ok_def)
  then show "sorted_wrt apart out" "spans_ok out" "\<Union> (span_set ` set out) = \<Union> (span_set ` set ss)"
      "ov \<longleftrightarrow> total_size out < total_size ss" using m by auto
qed

section \<open>The addresses\<close>

lemma span_numbers_facts:
  "set (span_numbers s) = span_set s" "sorted_wrt (<) (span_numbers s)"
  "sp_first s \<le> sp_last s \<Longrightarrow> int (length (span_numbers s)) = span_size s"
proof -
  show "set (span_numbers s) = span_set s" by (auto simp: span_numbers_def span_set_def)
  have "sorted_wrt (<) [sp_first s..sp_last s]" by simp
  then show "sorted_wrt (<) (span_numbers s)" by (simp add: span_numbers_def sorted_wrt_map less_prod_def)
qed (simp add: span_numbers_def span_size_def)

lemma numbers_sorted: "sorted_wrt apart ss \<Longrightarrow> sorted_wrt (<) (concat (map span_numbers ss))"
proof (induction ss)
  case (Cons s ss)
  have "x < y" if "x \<in> span_set s" "t \<in> set ss" "y \<in> span_set t" for x y t
  proof -
    have "apart s t" using Cons.prems that(2) by simp
    then show ?thesis using that by (auto simp: apart_def span_set_def less_prod_def)
  qed
  with Cons show ?case by (auto simp: sorted_wrt_append span_numbers_facts)
qed simp

lemma numbers_length: "spans_ok ss \<Longrightarrow> int (length (concat (map span_numbers ss))) = total_size ss"
  by (induction ss) (simp_all add: spans_ok_def span_numbers_facts(3))

lemma strictly_sorted: "sorted_wrt (<) (l :: 'a :: linorder list) \<Longrightarrow> distinct l \<and> sorted l"
  by (simp add: strict_sorted_iff)

definition reads_exactly :: "span list \<Rightarrow> string list \<Rightarrow> nat \<Rightarrow> targets \<Rightarrow> bool" where
  "reads_exactly ss told limit tg \<longleftrightarrow>
     set (target_numbers tg) = \<Union> (span_set ` set ss)
     \<and> distinct (target_numbers tg) \<and> sorted (target_numbers tg)
     \<and> tg_count tg = int (card (\<Union> (span_set ` set ss))) \<and> tg_count tg \<le> int limit
     \<and> Collect never_scanned \<inter> set (target_numbers tg) = {}
     \<and> tg_notes tg = told @ (if tg_count tg < sum_list (map span_size ss) then [''overlapping entries counted once''] else [])"

text \<open>C17: A discovery scans exactly the addresses of its entries: each once and in order, however the entries
  overlap; the count - made without listing them - is their number and within the limit; none is in a
  block that is never scanned; and the note about overlaps is there exactly when some address was in
  two entries.\<close>

theorem targets_exact:
  "case parse_targets rounded_log2 t limit of
     Inl _ \<Rightarrow> True
   | Inr tg \<Rightarrow> (case read_entries (entries_of t) of
        Inl _ \<Rightarrow> False
      | Inr (ss, told) \<Rightarrow> reads_exactly ss told limit tg)"
proof (cases "parse_targets rounded_log2 t limit")
  case (Inr tg)
  then obtain ss told where r: "read_entries (entries_of t) = Inr (ss, told)"
    by (auto simp: parse_targets_def Let_def split: if_splits sum.splits)
  obtain out ov where m: "merged_spans ss = (out, ov)" by fastforce
  have tg: "tg_spans tg = out" "tg_count tg = total_size out" "total_size out \<le> int limit"
      "tg_notes tg = told @ (if ov then [''overlapping entries counted once''] else [])"
    using Inr by (auto simp: parse_targets_def Let_def r m total_size_def split: if_splits)
  have ss: "spans_ok ss" "\<forall>s\<in>set ss. \<forall>x\<in>span_set s. \<not> never_scanned x" using read_entries_sound [OF r] by auto
  note out = merged_spans_sound [OF m ss(1)]
  have numbers: "set (target_numbers tg) = \<Union> (span_set ` set ss)" "distinct (target_numbers tg)" "sorted (target_numbers tg)"
      "int (length (target_numbers tg)) = total_size out"
    using out strictly_sorted [OF numbers_sorted [OF out(1)]] numbers_length [OF out(2)]
    by (auto simp: target_numbers_def tg(1) span_numbers_facts)
  have "int (card (\<Union> (span_set ` set ss))) = total_size out"
    using numbers(4) distinct_card [OF numbers(2)] numbers(1) by simp
  moreover have "sum_list (map span_size ss) = total_size ss" by (simp add: total_size_def)
  ultimately have "reads_exactly ss told limit tg"
    using ss(2) numbers(1-3) tg(2-4) out(4) unfolding reads_exactly_def by auto
  then show ?thesis by (simp add: Inr r)
qed simp

section \<open>What an entry means\<close>

lemma block_members:
  assumes "0 < (b :: int)"
  shows "x div b = a div b \<longleftrightarrow> a - a mod b \<le> x \<and> x \<le> a - a mod b + b - 1"
proof -
  have a: "a - a mod b = a div b * b" by (simp add: minus_mod_eq_div_mult)
  show ?thesis
  proof
    assume "x div b = a div b"
    then have "x = a div b * b + x mod b" by (metis div_mult_mod_eq)
    moreover have "0 \<le> x mod b" "x mod b < b" using assms by simp_all
    ultimately show "a - a mod b \<le> x \<and> x \<le> a - a mod b + b - 1" unfolding a by linarith
  next
    assume "a - a mod b \<le> x \<and> x \<le> a - a mod b + b - 1"
    then have "0 \<le> x - a div b * b" "x - a div b * b < b" unfolding a by auto
    then have "(x - a div b * b) div b = 0" by simp
    moreover have "(x + - (a div b) * b) div b = - (a div b) + x div b" using assms by (intro div_mult_self1) simp
    ultimately show "x div b = a div b" by simp
  qed
qed

lemma block_offset:
  assumes "0 < (b :: int)" "a - a mod b \<le> x" "x \<le> a - a mod b + b - 1"
  shows "x mod b = x - (a - a mod b)"
proof -
  have "x div b = a div b" using block_members [OF assms(1)] assms(2,3) by simp
  then have "x mod b = x - a div b * b" by (metis minus_div_mult_eq_mod)
  then show ?thesis by (simp add: minus_mod_eq_div_mult)
qed

definition usable :: "nat \<Rightarrow> nat \<Rightarrow> int \<Rightarrow> bool" where
  "usable version p v \<longleftrightarrow>
     (let block = 2 ^ (max_bits version - p) in
      if version = 4 then block \<le> 2 \<or> v mod block \<notin> {0, block - 1} else block \<le> 2 \<or> v mod block \<noteq> 0)"

text \<open>A subnet entry means the addresses with its prefix - those whose leading bits are the ones
  typed -, less the network and the broadcast address of an IPv4 subnet of more than two, less the first
  of an IPv6 subnet of more than two.\<close>

theorem subnet_means_its_block:
  "case read_network entry of
     Inl _ \<Rightarrow> True
   | Inr (s, _) \<Rightarrow>
       (let (address_text, _, prefix_text) = partition_char (CHR ''/'') entry; p = digits_value 0 prefix_text
        in case read_address address_text entry of
             Inl _ \<Rightarrow> False
           | Inr (version, address) \<Rightarrow>
               span_set s = {version} \<times> {v. v div 2 ^ (max_bits version - p) = address div 2 ^ (max_bits version - p)
                                  \<and> usable version p v})"
proof (cases "read_network entry")
  case (Inr r)
  obtain s told where r: "r = (s, told)" by fastforce
  obtain address_text found prefix_text where parts: "partition_char (CHR ''/'') entry = (address_text, found, prefix_text)"
    by (cases "partition_char (CHR ''/'') entry")
  from Inr r parts obtain version address where a: "read_address address_text entry = Inr (version, address)"
    by (auto simp: read_network_def split: if_splits sum.splits)
  define p where "p = digits_value 0 prefix_text"
  define block where "block = (2 :: int) ^ (max_bits version - p)"
  define network where "network = address - address mod block"
  have v: "version = 4 \<or> version = 6" by (rule read_address_version [OF a])
  have le: "p \<le> max_bits version"
    using Inr r by (auto simp: read_network_def parts a p_def [symmetric] Let_def split: if_splits)
  have s: "sp_version s = version"
      "sp_first s = (if version = 4 \<and> p \<le> 30 \<or> version = 6 \<and> p \<le> 126 then network + 1 else network)"
      "sp_last s = (if version = 4 \<and> p \<le> 30 then network + block - 2 else network + block - 1)"
    using Inr r by (auto simp: read_network_def parts a Let_def p_def block_def network_def split: if_splits)
  have pos: "0 < block" by (simp add: block_def)
  have big: "block \<le> 2 \<longleftrightarrow> max_bits version \<le> p + 1"
  proof
    assume "block \<le> 2"
    then have "(2 :: int) ^ (max_bits version - p) \<le> 2 ^ 1" by (simp add: block_def)
    then have "max_bits version - p \<le> 1" by (rule power_le_imp_le_exp [rotated]) simp
    then show "max_bits version \<le> p + 1" by simp
  next
    assume "max_bits version \<le> p + 1"
    then have "(2 :: int) ^ (max_bits version - p) \<le> 2 ^ 1" by (intro power_increasing) simp_all
    then show "block \<le> 2" by (simp add: block_def)
  qed
  have same: "x div block = address div block \<longleftrightarrow> network \<le> x \<and> x \<le> network + block - 1" for x
    by (rule block_members [OF pos, of x address, folded network_def])
  have in_block: "x mod block = x - network" if "network \<le> x" "x \<le> network + block - 1" for x
    using block_offset [OF pos, of address x] that by (simp add: network_def)
  have usable: "usable version p x \<longleftrightarrow> (if version = 4 then block \<le> 2 \<or> x mod block \<notin> {0, block - 1}
      else block \<le> 2 \<or> x mod block \<noteq> 0)" for x
    unfolding usable_def Let_def block_def by (rule refl)
  have whole: "block \<le> 2 \<longleftrightarrow> \<not> (version = 4 \<and> p \<le> 30 \<or> version = 6 \<and> p \<le> 126)"
    using v big by (auto simp: max_bits_def)
  have "sp_first s \<le> x \<and> x \<le> sp_last s \<longleftrightarrow> network \<le> x \<and> x \<le> network + block - 1 \<and> usable version p x" for x
  proof (cases "block \<le> 2")
    case True
    then show ?thesis using s whole usable by auto
  next
    case False
    then show ?thesis using s whole in_block [of x] unfolding usable by auto
  qed
  then have "(w, x) \<in> span_set s \<longleftrightarrow> w = version \<and> x div block = address div block \<and> usable version p x" for w x
    unfolding same by (auto simp: span_set_def s(1))
  then have "span_set s = {version} \<times> {x. x div block = address div block \<and> usable version p x}" by auto
  then show ?thesis by (simp add: Inr r parts a Let_def p_def block_def)
qed simp

end
