(* ===== verification/Detect.thy ===== *)
theory Detect
  imports Platform_Table
begin

text \<open>
  \<open>src/rollout/detect.py\<close>: which platform a device runs. The session's connection, the clock and the
  pause are the record \<open>channel\<close> of functions on an outside world; a call may raise. Times are in
  nanoseconds. \<open>ask\<close> reads until the prompt is back or the time is up: \<open>fuel\<close> bounds its rounds,
  \<open>None\<close> is not having ended within them.
\<close>

section \<open>The platforms NetRollout doesn't support\<close>

definition probe_identity :: "string \<Rightarrow> rx list \<Rightarrow> rx list \<Rightarrow> rx list \<Rightarrow> identity" where
  "probe_identity probe marks_of also_of unless_of =
     \<lparr>id_probe = probe, id_marks = marks_of, id_also = also_of, id_unless = unless_of, id_prompt = None, id_shell = None\<rparr>"

definition nxos_header :: "rx list" where
  "nxos_header = plain_text_rx [''Cisco Nexus Operating System (NX-OS) Software'']"

definition neighbours :: "(string \<times> identity) list" where
  "neighbours =
     [(''cisco_aci'', probe_identity ''show version'' nxos_header (plain_text_rx [''aci-n9000'']) []),
      (''cisco_ftd'', probe_identity ''show version'' (plain_text_rx [''Cisco Firepower'']) (plain_text_rx [''Threat Defense'']) []),
      (''cisco_asa'', probe_identity ''show version'' (plain_text_rx [''Cisco Adaptive Security Appliance Software'']) []
         (plain_text_rx [''Threat Defense''])),
      (''huawei'', probe_identity ''display version'' (plain_text_rx [''Huawei Versatile Routing Platform'']) [] []),
      (''linux'', probe_identity ''show version'' (plain_text_rx [''command not found'', ''show: not found'',
         ''Command '' @ [squote] @ ''show'' @ [squote] @ '' not found'']) [] [])]"

definition neighbour_names :: "(string \<times> string) list" where
  "neighbour_names =
     [(''cisco_aci'', ''Cisco ACI''), (''cisco_asa'', ''Cisco ASA''),
      (''cisco_ftd'', ''Cisco Firepower Threat Defense''), (''huawei'', ''Huawei VRP''), (''linux'', ''a Linux shell'')]"

section \<open>Patterns\<close>

definition any_case :: "string \<Rightarrow> rx" where
  "any_case s = seqs (map (\<lambda>c. One (\<lambda>x. lower_char x = lower_char c)) s)"

definition dot :: rx where "dot = One (\<lambda>c. c \<noteq> newline)"

definition pager_end :: rx where "pager_end = Seq (Many space) Text_End"

definition pagers :: "(rx \<times> string) list" where
  "pagers =
     [(seqs [lit ''-- MORE --, next page: Space'', Many dot, lit ''quit: Control-C'', pager_end], [CHR 0x03]),
      (Seq (alts
         [seqs [lit ''--'', Many space, any_case ''More'', Many space, lit ''--''],
          seqs [any_case ''---(more'', Many (not_in no_char '')''), lit '')---''],
          seqs [some (lit ''-''), any_case '' More '', some (lit ''-'')],
          seqs [any_case ''-- MORE --'', Many dot],
          seqs [any_case ''lines '', digits, lit ''-'', digits]]) pager_end, ''q'')]"

definition any_key :: rx where "any_key = any_case ''press any key to continue''"

definition disclaimer :: rx where
  "disclaimer = seqs [any_case ''press'', some space, opt (ch squote), any_case ''a'', opt (ch squote), some space,
     any_case ''to'', some space, any_case ''accept'']"

text \<open>\<open>_ESCAPES.sub("", s)\<close>.\<close>

definition escape_code :: rx where
  "escape_code = Alt (seqs [ch (CHR 0x1B), lit ''['', Many (One (\<lambda>c. is_dec c \<or> c \<in> set '';?'')),
       One (\<lambda>c. is_upper_az c \<or> is_lower_az c)])
     (One (\<lambda>c. c = CHR 0x0D \<or> c = CHR 0x08))"

function without_escapes :: "string \<Rightarrow> string" where
  "without_escapes [] = []"
| "without_escapes (c # cs) =
     (case rx_match_at escape_code [] (c # cs) of
        Some (m, _) \<Rightarrow> without_escapes (drop (max 1 (length m)) (c # cs))
      | None \<Rightarrow> c # without_escapes cs)"
  by pat_completeness auto
termination by (relation "measure length") auto

definition probe_time :: int where "probe_time = 15 * 10 ^ 9"
definition detect_time :: int where "detect_time = 45 * 10 ^ 9"
definition poll_time :: int where "poll_time = 10 ^ 8"

section \<open>The session\<close>

record detection =
  dt_platform :: "string option"
  dt_detected :: "string option"
  dt_hostname :: "string option"
  dt_evidence :: "string option"
  dt_problem :: "string option"

definition no_detection :: detection where
  "no_detection = \<lparr>dt_platform = None, dt_detected = None, dt_hostname = None, dt_evidence = None, dt_problem = None\<rparr>"

datatype channel_error = No_Prompt_Shown | Channel_Failed string

record 'w channel =
  ch_return :: string
  ch_find_prompt :: "'w \<Rightarrow> (channel_error + string) \<times> 'w"
  ch_write :: "string \<Rightarrow> 'w \<Rightarrow> (channel_error + unit) \<times> 'w"
  ch_read :: "'w \<Rightarrow> (channel_error + string) \<times> 'w"
  ch_clock :: "'w \<Rightarrow> int \<times> 'w"
  ch_pause :: "int \<Rightarrow> 'w \<Rightarrow> 'w"

text \<open>What the end of an answer is: a pager and its key, with what comes before it.\<close>

fun pager_found :: "(rx \<times> string) list \<Rightarrow> string \<Rightarrow> (string \<times> string) option" where
  "pager_found [] tail = None"
| "pager_found ((r, keys) # ps) tail =
     (case rx_search r tail of Some (pre, _, _) \<Rightarrow> Some (pre, keys) | None \<Rightarrow> pager_found ps tail)"

fun ask_loop :: "nat \<Rightarrow> 'w channel \<Rightarrow> string \<Rightarrow> int \<Rightarrow> string \<Rightarrow> 'w \<Rightarrow> ((channel_error + string) \<times> 'w) option" where
  "ask_loop 0 con prompt until answer w = None"
| "ask_loop (Suc fuel) con prompt until answer w =
     (let (now, w1) = ch_clock con w in
      if \<not> now < until then Some (Inr answer, w1)
      else (case ch_read con w1 of
          (Inl e, w2) \<Rightarrow> Some (Inl e, w2)
        | (Inr chunk, w2) \<Rightarrow>
            if chunk = [] then ask_loop fuel con prompt until answer (ch_pause con poll_time w2)
            else (let sofar = answer @ without_escapes chunk; tail = rstrip_p is_space sofar in
              case pager_found pagers tail of
                Some (pre, keys) \<Rightarrow>
                  (case ch_write con keys w2 of
                     (Inl e, w3) \<Rightarrow> Some (Inl e, w3)
                   | (Inr _, w3) \<Rightarrow> ask_loop fuel con prompt until pre w3)
              | None \<Rightarrow> if suffix prompt tail then Some (Inr sofar, w2) else ask_loop fuel con prompt until sofar w2)))"

definition ask :: "nat \<Rightarrow> 'w channel \<Rightarrow> string \<Rightarrow> string \<Rightarrow> int \<Rightarrow> 'w \<Rightarrow> ((channel_error + string) \<times> 'w) option" where
  "ask fuel con command prompt until w =
     (case ch_write con (command @ ch_return con) w of
        (Inl e, w1) \<Rightarrow> Some (Inl e, w1)
      | (Inr _, w1) \<Rightarrow> ask_loop fuel con prompt until [] w1)"

section \<open>The probes\<close>

definition identities :: "(string \<times> identity) list" where
  "identities = List.map_filter (\<lambda>(n, p). map_option (Pair n) (pl_identity p)) platforms @ neighbours"

definition shell_probes :: "string \<Rightarrow> (string \<times> identity) list \<Rightarrow> (string \<times> string) list" where
  "shell_probes prompt known =
     concat (map (\<lambda>(_, i). case id_shell i of None \<Rightarrow> []
       | Some sh \<Rightarrow> if rx_matches_start (sh_prompt sh) prompt
           then [(replace_text ''{}'' (id_probe i) (sh_run sh), id_probe i)] else []) known)"

definition hinted_probes :: "string \<Rightarrow> (string \<times> identity) list \<Rightarrow> string list" where
  "hinted_probes prompt known =
     map (\<lambda>(_, i). id_probe i) (filter (\<lambda>(_, i). case id_prompt i of None \<Rightarrow> False | Some r \<Rightarrow> rx_matches_start r prompt) known)"

fun add_probes :: "(string \<times> string) list \<Rightarrow> string list \<Rightarrow> (string \<times> string) list" where
  "add_probes order [] = order"
| "add_probes order (p # ps) = add_probes (if (p, p) \<in> set order then order else order @ [(p, p)]) ps"

definition probes :: "string \<Rightarrow> (string \<times> identity) list \<Rightarrow> (string \<times> string) list" where
  "probes prompt known =
     add_probes (shell_probes prompt known) (hinted_probes prompt known @ map (\<lambda>(_, i). id_probe i) known)"

section \<open>Telling the platform\<close>

definition claims :: "(string \<times> identity) list \<Rightarrow> string \<Rightarrow> string \<Rightarrow> (string \<times> string) list" where
  "claims known probe answer = List.map_filter (\<lambda>(n, i).
     if id_probe i \<noteq> probe then None
     else (case identity_evidence i answer of None \<Rightarrow> None | Some l \<Rightarrow> if l = [] then None else Some (n, l))) known"

definition device_name :: "string \<Rightarrow> string \<Rightarrow> string \<Rightarrow> string option" where
  "device_name found answer prompt =
     (case map_of platforms found of
        None \<Rightarrow> hostname_in name_cisco prompt
      | Some p \<Rightarrow>
          (case (case pl_answer_name p of None \<Rightarrow> None | Some r \<Rightarrow> rx_search r answer) of
             Some (_, _, name) \<Rightarrow> name
           | None \<Rightarrow> hostname_in (pl_prompt_name p) prompt))"

definition told_apart :: "(string \<times> string) list \<Rightarrow> string \<Rightarrow> string \<Rightarrow> detection option" where
  "told_apart found answer prompt =
     (case found of
        [] \<Rightarrow> None
      | [(name, line)] \<Rightarrow> Some \<lparr>dt_platform = (if map_of platforms name = None then None else Some name),
            dt_detected = Some name, dt_hostname = device_name name answer prompt, dt_evidence = Some line, dt_problem = None\<rparr>
      | _ \<Rightarrow> Some (no_detection\<lparr>dt_problem := Some (''Its answer fits '' @ join '' and '' (sort (map fst found)))\<rparr>))"

fun run_probes :: "nat \<Rightarrow> 'w channel \<Rightarrow> string \<Rightarrow> int \<Rightarrow> (string \<times> string) list \<Rightarrow> 'w
    \<Rightarrow> ((channel_error + detection) \<times> 'w) option" where
  "run_probes fuel con prompt deadline [] w = Some (Inr no_detection, w)"
| "run_probes fuel con prompt deadline ((command, probe) # ps) w =
     (let (now, w1) = ch_clock con w in
      if deadline \<le> now then Some (Inr no_detection, w1)
      else (let (asked_at, w2) = ch_clock con w1 in
        case ask fuel con command prompt (min deadline (asked_at + probe_time)) w2 of
          None \<Rightarrow> None
        | Some (Inl e, w3) \<Rightarrow> Some (Inl e, w3)
        | Some (Inr answer, w3) \<Rightarrow>
            (case told_apart (claims identities probe answer) answer prompt of
               Some d \<Rightarrow> Some (Inr d, w3)
             | None \<Rightarrow> run_probes fuel con prompt deadline ps w3)))"

definition identify_at :: "nat \<Rightarrow> 'w channel \<Rightarrow> string \<Rightarrow> 'w \<Rightarrow> ((channel_error + detection) \<times> 'w) option" where
  "identify_at fuel con prompt w =
     (if rx_search disclaimer prompt \<noteq> None
      then Some (Inr (no_detection\<lparr>dt_problem := Some ''The device shows a login disclaimer''\<rparr>), w)
      else (let (now, w1) = ch_clock con w
            in run_probes fuel con prompt (now + detect_time) (probes prompt identities) w1))"

definition identify :: "nat \<Rightarrow> 'w channel \<Rightarrow> 'w \<Rightarrow> ((channel_error + detection) \<times> 'w) option" where
  "identify fuel con w =
     (case ch_find_prompt con w of
        (Inl No_Prompt_Shown, w1) \<Rightarrow> Some (Inr (no_detection\<lparr>dt_problem := Some ''The device showed no prompt''\<rparr>), w1)
      | (Inl e, w1) \<Rightarrow> Some (Inl e, w1)
      | (Inr prompt, w1) \<Rightarrow>
          if rx_search any_key prompt = None then identify_at fuel con prompt w1
          else (case ch_write con (ch_return con) w1 of
              (Inl e, w2) \<Rightarrow> Some (Inl e, w2)
            | (Inr _, w2) \<Rightarrow> (case ch_find_prompt con w2 of
                (Inl e, w3) \<Rightarrow> Some (Inl e, w3)
              | (Inr prompt2, w3) \<Rightarrow> identify_at fuel con prompt2 w3)))"

text \<open>\<open>detect\<close>: \<open>connect\<close> signs in (or raises), \<open>disconnect\<close> ends the session, however it went.\<close>

definition detect :: "nat \<Rightarrow> ('w \<Rightarrow> (channel_error + 'w channel) \<times> 'w) \<Rightarrow> ('w \<Rightarrow> 'w) \<Rightarrow> 'w
    \<Rightarrow> ((channel_error + detection) \<times> 'w) option" where
  "detect fuel connect disconnect w =
     (case connect w of
        (Inl e, w1) \<Rightarrow> Some (Inl e, w1)
      | (Inr con, w1) \<Rightarrow> map_option (\<lambda>(r, w2). (r, disconnect w2)) (identify fuel con w1))"

end
