(* ===== verification/Detect_Properties.thy ===== *)
theory Detect_Properties
  imports Detect
begin

text \<open>
  Detecting a platform ends, whatever the device sends, and never guesses: it names a platform only when
  that one's identity alone claims an answer.
\<close>

section \<open>Ending\<close>

text \<open>The clock of a session: no call takes it back, a read takes some time, a pause as long as asked.\<close>

definition ticking :: "'w channel \<Rightarrow> ('w \<Rightarrow> int) \<Rightarrow> bool" where
  "ticking con now_of \<longleftrightarrow>
     (\<forall>w. fst (ch_clock con w) = now_of w \<and> now_of w \<le> now_of (snd (ch_clock con w))
        \<and> now_of w < now_of (snd (ch_read con w)) \<and> now_of w \<le> now_of (snd (ch_find_prompt con w)))
     \<and> (\<forall>t w. now_of w \<le> now_of (snd (ch_write con t w)))
     \<and> (\<forall>n w. 0 \<le> n \<longrightarrow> now_of w + n \<le> now_of (ch_pause con n w))"

lemma ticking_clock: "ticking con now_of \<Longrightarrow> ch_clock con w = (t, w') \<Longrightarrow> t = now_of w \<and> now_of w \<le> now_of w'"
  unfolding ticking_def by (metis fst_conv snd_conv)

lemma ticking_read: "ticking con now_of \<Longrightarrow> ch_read con w = (r, w') \<Longrightarrow> now_of w < now_of w'"
  unfolding ticking_def by (metis snd_conv)

lemma ticking_write: "ticking con now_of \<Longrightarrow> ch_write con t w = (r, w') \<Longrightarrow> now_of w \<le> now_of w'"
  unfolding ticking_def by (metis snd_conv)

lemma ticking_pause: "ticking con now_of \<Longrightarrow> 0 \<le> n \<Longrightarrow> now_of w \<le> now_of (ch_pause con n w)"
  unfolding ticking_def by (metis add_increasing2 add.right_neutral add_left_mono order_trans)

definition ends_later :: "('w \<Rightarrow> int) \<Rightarrow> 'w \<Rightarrow> ('r \<times> 'w) option \<Rightarrow> bool" where
  "ends_later now_of w answer \<longleftrightarrow> (case answer of None \<Rightarrow> False | Some (_, w') \<Rightarrow> now_of w \<le> now_of w')"

lemma ends_later_mono: "ends_later now_of w' a \<Longrightarrow> now_of w \<le> now_of w' \<Longrightarrow> ends_later now_of w a"
  by (auto simp: ends_later_def split: option.splits)

lemma ask_loop_ends:
  assumes "ticking con now_of"
  shows "nat (until - now_of w) < fuel \<Longrightarrow> ends_later now_of w (ask_loop fuel con prompt until answer w)"
proof (induction fuel arbitrary: answer w)
  case (Suc fuel)
  obtain now w1 where c: "ch_clock con w = (now, w1)" by fastforce
  from ticking_clock [OF assms c] have now: "now = now_of w" "now_of w \<le> now_of w1" by auto
  show ?case
  proof (cases "now < until")
    case False
    then show ?thesis using now by (simp add: c ends_later_def)
  next
    case True
    obtain r w2 where r: "ch_read con w1 = (r, w2)" by fastforce
    from ticking_read [OF assms r] now have w2: "now_of w < now_of w2" by simp
    have again: "ends_later now_of w (ask_loop fuel con prompt until sofar w')" if "now_of w2 \<le> now_of w'" for sofar w'
    proof (rule ends_later_mono [OF Suc.IH])
      show "nat (until - now_of w') < fuel" using Suc.prems that w2 True now by linarith
    qed (use that w2 in simp)
    show ?thesis
    proof (cases r)
      case (Inl e)
      then show ?thesis using w2 True by (simp add: c r ends_later_def)
    next
      case (Inr chunk)
      let ?sofar = "answer @ without_escapes chunk"
      show ?thesis
      proof (cases "chunk = []")
        case empty: True
        have "now_of w2 \<le> now_of (ch_pause con poll_time w2)" by (rule ticking_pause [OF assms]) (simp add: poll_time_def)
        from again [OF this] show ?thesis using True Inr empty by (simp add: c r)
      next
        case False
        show ?thesis
        proof (cases "pager_found pagers (rstrip_p is_space ?sofar)")
          case None
          then show ?thesis using True Inr False again [of w2] w2
            by (simp add: c r Let_def) (simp add: ends_later_def)
        next
          case (Some found)
          obtain pre keys where f: "found = (pre, keys)" by fastforce
          obtain a w3 where a: "ch_write con keys w2 = (a, w3)" by fastforce
          from ticking_write [OF assms a] again [of w3] w2 show ?thesis
            using True Inr False Some f by (cases a) (simp_all add: c r a Let_def, simp add: ends_later_def)
        qed
      qed
    qed
  qed
qed simp

lemma ask_ends:
  assumes "ticking con now_of" "nat (until - now_of w) < fuel"
  shows "ends_later now_of w (ask fuel con command prompt until w)"
proof -
  obtain a w1 where a: "ch_write con (command @ ch_return con) w = (a, w1)" by fastforce
  from ticking_write [OF assms(1) a] have w1: "now_of w \<le> now_of w1" .
  have "nat (until - now_of w1) < fuel" using assms(2) w1 by linarith
  from ends_later_mono [OF ask_loop_ends [OF assms(1) this] w1] show ?thesis
    using w1 by (cases a) (simp_all add: ask_def a, simp add: ends_later_def)
qed

section \<open>Never guessing\<close>

text \<open>A detection is sound when it names what alone claims an answer, with the line it was recognised by,
  and names a platform only when NetRollout supports it.\<close>

definition claiming :: "string \<Rightarrow> string \<Rightarrow> (string \<times> string) set" where
  "claiming probe answer = {(name, line). \<exists>i. (name, i) \<in> set identities \<and> id_probe i = probe
     \<and> identity_evidence i answer = Some line \<and> line \<noteq> []}"

definition detection_sound :: "detection \<Rightarrow> bool" where
  "detection_sound d \<longleftrightarrow>
     (case dt_detected d of
        None \<Rightarrow> dt_platform d = None \<and> dt_hostname d = None \<and> dt_evidence d = None
      | Some name \<Rightarrow> (\<exists>probe answer line. claiming probe answer = {(name, line)} \<and> dt_evidence d = Some line
          \<and> dt_platform d = (if name \<in> fst ` set platforms then Some name else None)))"

lemma set_claims: "set (claims identities probe answer) = claiming probe answer"
  by (force simp: claims_def claiming_def List.map_filter_def split: option.splits if_splits)

lemma told_apart_sound:
  assumes "told_apart (claims identities probe answer) answer prompt = Some d"
  shows "detection_sound d"
proof (cases "claims identities probe answer")
  case (Cons c cs)
  obtain name line where c: "c = (name, line)" by fastforce
  show ?thesis
  proof (cases cs)
    case Nil
    have "claiming probe answer = {(name, line)}" using set_claims [of probe answer] Cons Nil c by simp
    moreover have "map_of platforms name = None \<longleftrightarrow> name \<notin> fst ` set platforms" by (simp add: map_of_eq_None_iff)
    ultimately show ?thesis using assms Cons Nil c by (auto simp: told_apart_def detection_sound_def)
  next
    case (Cons c' cs')
    then show ?thesis using assms \<open>claims identities probe answer = c # cs\<close> c
      by (auto simp: told_apart_def detection_sound_def no_detection_def)
  qed
qed (use assms in \<open>simp add: told_apart_def\<close>)

lemma no_detection_sound: "detection_sound no_detection" "detection_sound (no_detection\<lparr>dt_problem := p\<rparr>)"
  by (simp_all add: detection_sound_def no_detection_def)

definition detected_soundly :: "((channel_error + detection) \<times> 'w) option \<Rightarrow> bool" where
  "detected_soundly answer \<longleftrightarrow> (case answer of None \<Rightarrow> False | Some (Inl e, _) \<Rightarrow> True | Some (Inr d, _) \<Rightarrow> detection_sound d)"

lemma run_probes_sound:
  assumes "ticking con now_of"
  shows "nat (deadline - now_of w) < fuel \<Longrightarrow> detected_soundly (run_probes fuel con prompt deadline ps w)"
proof (induction ps arbitrary: w)
  case Nil
  then show ?case by (simp add: detected_soundly_def no_detection_sound)
next
  case (Cons q ps)
  obtain command probe where q: "q = (command, probe)" by fastforce
  obtain now w1 where c1: "ch_clock con w = (now, w1)" by fastforce
  obtain asked_at w2 where c2: "ch_clock con w1 = (asked_at, w2)" by fastforce
  have w2: "now_of w \<le> now_of w2" using ticking_clock [OF assms c1] ticking_clock [OF assms c2] by simp
  let ?until = "min deadline (asked_at + probe_time)"
  have "nat (?until - now_of w2) < fuel" using Cons.prems w2 by linarith
  from ask_ends [OF assms this, of command prompt] obtain r w3 where
      a: "ask fuel con command prompt ?until w2 = Some (r, w3)" and w3: "now_of w2 \<le> now_of w3"
    by (auto simp: ends_later_def split: option.splits)
  have "nat (deadline - now_of w3) < fuel" using Cons.prems w2 w3 by linarith
  from Cons.IH [OF this] have ih: "detected_soundly (run_probes fuel con prompt deadline ps w3)" .
  show ?case
  proof (cases "deadline \<le> now")
    case True
    then show ?thesis by (simp add: q c1 detected_soundly_def no_detection_sound)
  next
    case False
    show ?thesis
    proof (cases r)
      case (Inl e)
      then show ?thesis using False by (simp add: q c1 c2 a detected_soundly_def)
    next
      case (Inr answer)
      show ?thesis
      proof (cases "told_apart (claims identities probe answer) answer prompt")
        case None
        then show ?thesis using False Inr ih by (simp add: q c1 c2 a)
      next
        case (Some d)
        then show ?thesis using False Inr told_apart_sound [OF Some] by (simp add: q c1 c2 a detected_soundly_def)
      qed
    qed
  qed
qed

lemma identify_at_sound:
  assumes "ticking con now_of" "nat detect_time < fuel"
  shows "detected_soundly (identify_at fuel con prompt w)"
proof -
  obtain now w1 where c: "ch_clock con w = (now, w1)" by fastforce
  have "nat (now + detect_time - now_of w1) < fuel"
    using ticking_clock [OF assms(1) c] assms(2) by linarith
  from run_probes_sound [OF assms(1) this] show ?thesis
    by (simp add: identify_at_def c) (simp add: detected_soundly_def no_detection_sound)
qed


text \<open>A device that says nothing more.\<close>

definition silent_channel :: "int channel" where
  "silent_channel = \<lparr>ch_return = [newline], ch_find_prompt = (\<lambda>t. (Inr ''R1#'', t)), ch_write = (\<lambda>_ t. (Inr (), t)),
     ch_read = (\<lambda>t. (Inr [], t + 1)), ch_clock = (\<lambda>t. (t, t)), ch_pause = (\<lambda>n t. t + n)\<rparr>"


end
