(* ===== verification/Inputs.thy ===== *)
theory Inputs
  imports Discovery_Targets Engine Platform_Table
begin

text \<open>
  \<open>src/rollout/inputs.py\<close>: what a rollout is given, checked - addresses, ports, platforms, tokens -, and the
  rows of a devices CSV made devices, each on its own. Whether a name resolves and a port answers are
  parameters; the problem a validator logs is returned, the success a device is logged with is not kept.
\<close>

section \<open>Addresses and ports\<close>

text \<open>\<open>str(ipaddress.ip_address(s))\<close>: one spelling per address; a zone stays as written.\<close>

definition ip_text :: "string \<Rightarrow> string option" where
  "ip_text s =
     (case ipv4_value s of
        Some v \<Rightarrow> Some (show_ipv4 v)
      | None \<Rightarrow> (case ipv6_value s of
          None \<Rightarrow> None
        | Some v \<Rightarrow> Some (show_ipv6 v @ dropWhile (\<lambda>c. c \<noteq> CHR ''%'') s)))"

definition validate_ip :: "string \<Rightarrow> bool" where
  "validate_ip ip \<longleftrightarrow> is_ip ip"

definition normalize_ip :: "string \<Rightarrow> string option" where
  "normalize_ip ip = ip_text (strip ip)"

definition validate_address :: "string \<Rightarrow> bool" where
  "validate_address address \<longleftrightarrow> validate_ip address \<or> is_hostname address"

text \<open>\<open>None\<close> is \<open>ValueError\<close>.\<close>

definition normalize_address :: "string \<Rightarrow> string option" where
  "normalize_address address =
     (let a = strip address
      in if validate_ip a then normalize_ip a
         else if \<not> is_hostname a then None else Some (lower a))"

definition is_ascii :: "string \<Rightarrow> bool" where
  "is_ascii s \<longleftrightarrow> list_all (\<lambda>c. code_point c < 128) s"

text \<open>\<open>int()\<close> of a text of decimal digits: over 4300 of them it raises (\<open>sys.int_info\<close>), \<open>None\<close> here.\<close>

definition int_of_digits :: "string \<Rightarrow> nat option" where
  "int_of_digits s = (if length s \<le> 4300 then Some (digits_value 0 s) else None)"

definition validate_port :: "string \<Rightarrow> bool option" where
  "validate_port port =
     (if \<not> (is_ascii port \<and> is_digits port) then Some False
      else map_option (\<lambda>n. 1 \<le> n \<and> n \<le> 65535) (int_of_digits port))"

definition supported_platforms :: "string list" where
  "supported_platforms = map fst platforms"

definition validate_platform :: "string \<Rightarrow> bool" where
  "validate_platform platform_name \<longleftrightarrow> platform_name \<in> set supported_platforms"

text \<open>\<open>tcp_reachable\<close>: the attempts made, and whether one connected.\<close>

fun tcp_attempts :: "(nat \<Rightarrow> bool) \<Rightarrow> nat \<Rightarrow> nat \<Rightarrow> bool \<times> nat" where
  "tcp_attempts connects k 0 = (False, k)"
| "tcp_attempts connects k (Suc n) = (if connects k then (True, Suc k) else tcp_attempts connects (Suc k) n)"

definition tcp_reachable :: "(nat \<Rightarrow> bool) \<Rightarrow> nat \<Rightarrow> bool" where
  "tcp_reachable connects attempts = fst (tcp_attempts connects 0 attempts)"

section \<open>Commands and tokens\<close>

definition command_lines :: "string \<Rightarrow> string list" where
  "command_lines t = filter (\<lambda>l. l \<noteq> []) (map strip (splitlines t))"

definition is_token_char :: "char \<Rightarrow> bool" where
  "is_token_char c \<longleftrightarrow> is_upper_az c \<or> is_lower_az c \<or> is_dec c \<or> c = CHR ''_''"

text \<open>\<open>re.match\<close> with \<open>$\<close>: a newline may follow.\<close>

definition token_shape :: "string \<Rightarrow> bool" where
  "token_shape t \<longleftrightarrow> (let body = (if t \<noteq> [] \<and> last t = newline then butlast t else t)
     in body \<noteq> [] \<and> list_all is_token_char body)"

definition token_problem :: "string \<Rightarrow> string option" where
  "token_problem token =
     (if strip token = [] then Some ''Token cannot be empty''
      else if \<not> token_shape token then Some ''Token must contain only letters, numbers and underscores''
      else if length token \<le> 64 then None
      else Some ''Token must be maximum 64 characters long'')"

definition property_name_problem :: "string \<Rightarrow> string list \<Rightarrow> string option" where
  "property_name_problem property_name allowed =
     (if lower (strip property_name) \<notin> set allowed
      then Some (''Property name '' @ property_name @ '' is not valid'') else None)"

definition index_problem :: "int option \<Rightarrow> string \<Rightarrow> string list \<Rightarrow> string option" where
  "index_problem index property_name list_properties =
     (case index of
        None \<Rightarrow> None
      | Some i \<Rightarrow>
          if property_name \<notin> set list_properties then Some (''Property '' @ property_name @ '' can not be indexed'')
          else if i < 0 then Some ''Index cannot be negative'' else None)"

section \<open>Rows\<close>

definition validate_file_extension :: "(string \<Rightarrow> bool) \<Rightarrow> string \<Rightarrow> string \<Rightarrow> string option" where
  "validate_file_extension is_file path extension =
     (if \<not> is_file path then Some (path @ '' is not a file'')
      else if \<not> suffix extension (lower path) then Some (''file must be '' @ extension) else None)"

type_synonym item = "(string \<times> string) list"

definition item_get :: "item \<Rightarrow> string \<Rightarrow> string" where
  "item_get item name = (case map_of item name of None \<Rightarrow> [] | Some v \<Rightarrow> v)"

text \<open>The first problem of a row, as the validator logs it; or the exception of its port's \<open>int()\<close>.\<close>

datatype row_check = Row_Valid | Row_Problem string | Row_Check_Raises

definition validate_device_data :: "item \<Rightarrow> row_check" where
  "validate_device_data item =
     (if \<not> validate_address (item_get item ''ip'') then Row_Problem (item_get item ''ip'' @ '' is not a valid IP address or hostname'')
      else (case validate_port (item_get item ''port'') of
          None \<Rightarrow> Row_Check_Raises
        | Some False \<Rightarrow> Row_Problem (item_get item ''port'' @ '' is not a valid port number'')
        | Some True \<Rightarrow>
            if \<not> validate_platform (item_get item ''device_type'')
            then Row_Problem (item_get item ''device_type'' @ '' is not supported'')
            else Row_Valid))"

text \<open>A CSV row as \<open>DictReader\<close> gives it: a missing key for surplus cells, no value for missing ones.\<close>

type_synonym raw_row = "(string option \<times> string option) list"

definition clean_cell :: "string option \<times> string option \<Rightarrow> item \<Rightarrow> item" where
  "clean_cell cell item =
     (case cell of
        (Some k, v) \<Rightarrow> if k = [] then item
          else AList.update (strip k) (strip (case v of None \<Rightarrow> [] | Some t \<Rightarrow> t)) item
      | (None, _) \<Rightarrow> item)"

definition clean_row :: "raw_row \<Rightarrow> item" where
  "clean_row raw =
     (let item = fold clean_cell raw []
      in AList.update ''device_type'' (lower (item_get item ''device_type'')) item)"

definition credential_keys :: "string list" where
  "credential_keys = [''username'', ''password'', ''secret'']"

definition core_keys :: "string list" where
  "core_keys = [''ip'', ''device_type'', ''port'', ''label''] @ credential_keys"

record prepared_device = device +
  d_username :: string
  d_password :: string
  d_secret :: string

datatype row_outcome = Row_Device prepared_device | Row_Error string | Row_Raises

definition row_extra :: "item \<Rightarrow> (string \<times> attribute) list" where
  "row_extra item =
     map (\<lambda>(k, v). (k, if k = ''vrfs'' then Texts (filter (\<lambda>x. x \<noteq> []) (map strip (split_char (CHR '','') v))) else Text v))
       (filter (\<lambda>(k, v). k \<notin> set core_keys \<and> v \<noteq> []) item)"

definition row_device :: "string \<Rightarrow> item \<Rightarrow> prepared_device" where
  "row_device ip item =
     \<lparr>d_ip = ip, d_label = (if item_get item ''label'' = [] then ip else item_get item ''label''),
      d_type = item_get item ''device_type'', d_port = digits_value 0 (item_get item ''port''), d_dns_suffix = [],
      d_mappings = \<lparr>var_map_subs = [], extra = row_extra item\<rparr>,
      d_username = item_get item ''username'', d_password = item_get item ''password'', d_secret = item_get item ''secret''\<rparr>"

text \<open>One row: \<open>answers_dns\<close> and \<open>reaches\<close> are asked only when reachability is to be checked.\<close>

definition prepare_row :: "(string \<Rightarrow> bool) \<Rightarrow> (string \<Rightarrow> nat \<Rightarrow> bool) \<Rightarrow> bool \<Rightarrow> bool \<Rightarrow> nat \<Rightarrow> raw_row \<Rightarrow> row_outcome" where
  "prepare_row answers_dns reaches require_credentials check_reachable row_no raw =
     (let item = clean_row raw; ip = item_get item ''ip''; port = item_get item ''port'' in
      if ip = [] \<or> port = [] then Row_Error (''Row '' @ show_nat row_no @ '': ip and port are required'')
      else (case validate_device_data item of
          Row_Check_Raises \<Rightarrow> Row_Raises
        | Row_Problem _ \<Rightarrow> Row_Error (''Row '' @ show_nat row_no @ '' ('' @ ip @ ''): invalid ip, port or device type'')
        | Row_Valid \<Rightarrow>
        (case normalize_address ip of
          None \<Rightarrow> Row_Raises
        | Some address \<Rightarrow>
            if require_credentials \<and> (item_get item ''username'' = [] \<or> item_get item ''password'' = [])
            then Row_Error (''Row '' @ show_nat row_no @ '' ('' @ address @ ''): username and password are required'')
            else if check_reachable \<and> \<not> answers_dns address
            then Row_Error (endpoint address port @ '': can'' @ squote # ''t resolve '' @ address)
            else if check_reachable \<and> \<not> reaches address (digits_value 0 port)
            then Row_Error (endpoint address port @ '' is not reachable'')
            else Row_Device (row_device address item))))"

text \<open>All of them; \<open>None\<close> is an exception of one row, which ends the reading.\<close>

fun prepare_rows :: "(string \<Rightarrow> bool) \<Rightarrow> (string \<Rightarrow> nat \<Rightarrow> bool) \<Rightarrow> bool \<Rightarrow> bool \<Rightarrow> nat \<Rightarrow> raw_row list
    \<Rightarrow> (prepared_device list \<times> string list) option" where
  "prepare_rows answers_dns reaches creds check row_no [] = Some ([], [])"
| "prepare_rows answers_dns reaches creds check row_no (raw # rows) =
     (case prepare_row answers_dns reaches creds check row_no raw of
        Row_Raises \<Rightarrow> None
      | Row_Device d \<Rightarrow> map_option (\<lambda>(ds, es). (d # ds, es)) (prepare_rows answers_dns reaches creds check (Suc row_no) rows)
      | Row_Error e \<Rightarrow> map_option (\<lambda>(ds, es). (ds, e # es)) (prepare_rows answers_dns reaches creds check (Suc row_no) rows))"

definition prepare_devices :: "(string \<Rightarrow> bool) \<Rightarrow> (string \<Rightarrow> nat \<Rightarrow> bool) \<Rightarrow> bool \<Rightarrow> bool \<Rightarrow> raw_row list
    \<Rightarrow> (prepared_device list \<times> string list) option" where
  "prepare_devices answers_dns reaches require_credentials check_reachable raw_devices =
     prepare_rows answers_dns reaches require_credentials check_reachable 1 raw_devices"

text \<open>\<open>parse_commands\<close>: \<open>contents\<close> is the file's text, or why it can't be read.\<close>

datatype file_read = File_Text string | Not_Utf8 | No_File | No_Access | Other_Failure string

definition parse_commands :: "(string \<Rightarrow> bool) \<Rightarrow> (string \<Rightarrow> file_read) \<Rightarrow> string \<Rightarrow> string list \<times> string" where
  "parse_commands is_file contents raw_path =
     (let path = strip_p (\<lambda>c. c = dquote) raw_path in
      case validate_file_extension is_file path ''txt'' of
        Some problem \<Rightarrow> ([], problem)
      | None \<Rightarrow>
          (case contents path of
             File_Text t \<Rightarrow> (let commands = command_lines t
               in (commands, ''Commands file successfully processed'' @ newline # show_nat (length commands) @ '' commands will be executed''))
           | Not_Utf8 \<Rightarrow> ([], ''commands file must be UTF-8 text'')
           | No_File \<Rightarrow> ([], ''file not found'')
           | No_Access \<Rightarrow> ([], ''can'' @ squote # ''t access file'')
           | Other_Failure e \<Rightarrow> ([], ''Parsing failed: '' @ e)))"

end
