(* ===== verification/Text_Facts.thy ===== *)
theory Text_Facts
  imports Prelude
begin

text \<open>
  Facts about Python's text operations that several components share: stripping and lower case commute and are
  idempotent, splitting at a character that isn't there, the length of a number's text.
\<close>

lemma is_space_lower: "is_space (lower_char c) = is_space c"
proof -
  have "code_point (lower_char c) = code_point c \<or> code_point (lower_char c) = code_point c + 32 \<and>
    (65 \<le> code_point c \<and> code_point c \<le> 90 \<or> 192 \<le> code_point c \<and> code_point c \<le> 222)"
    by (auto simp: lower_char_def Let_def code_point_def)
  then show ?thesis by (auto simp: is_space_def Let_def)
qed

lemma lower_strip: "lower (strip s) = strip (lower s)"
  by (simp add: lower_def strip_def strip_p_def lstrip_p_def rstrip_p_def dropWhile_map rev_map comp_def is_space_lower)

lemma lower_char_lower [simp]: "lower_char (lower_char c) = lower_char c"
proof -
  have "code_point (lower_char c) = code_point c \<and> \<not> (65 \<le> code_point c \<and> code_point c \<le> 90 \<or> 192 \<le> code_point c \<and> code_point c \<le> 222 \<and> code_point c \<noteq> 215)
    \<or> code_point (lower_char c) = code_point c + 32 \<and> (65 \<le> code_point c \<and> code_point c \<le> 90 \<or> 192 \<le> code_point c \<and> code_point c \<le> 222)"
    by (auto simp: lower_char_def Let_def code_point_def)
  then show ?thesis by (auto simp: lower_char_def [of "lower_char c"] Let_def)
qed

lemma lower_lower [simp]: "lower (lower s) = lower s"
  by (simp add: lower_def)

lemma lower_Nil [simp]: "lower [] = []"
  by (simp add: lower_def)

lemma strip_p_idem: "strip_p p (strip_p p s) = strip_p p s"
proof -
  let ?t = "dropWhile p s" let ?r = "rev (dropWhile p (rev ?t))"
  have edge: "dropWhile p ?r = ?r"
  proof (cases ?r)
    case Nil then show ?thesis by (simp only: dropWhile.simps)
  next
    case (Cons c r)
    have "rev ?t = takeWhile p (rev ?t) @ rev ?r" by simp
    then have "?t = ?r @ rev (takeWhile p (rev ?t))" by (metis rev_append rev_rev_ident)
    then have t: "?t = c # r @ rev (takeWhile p (rev ?t))" using Cons by simp
    then have "\<not> p c" using hd_dropWhile [of p s] by (metis list.distinct(1) list.sel(1))
    then show ?thesis using Cons by simp
  qed
  have "dropWhile p (dropWhile p (rev ?t)) = dropWhile p (rev ?t)" by (metis dropWhile_idem)
  then show ?thesis using edge by (simp add: strip_p_def lstrip_p_def rstrip_p_def)
qed

lemma strip_strip [simp]: "strip (strip s) = strip s"
  by (simp add: strip_def strip_p_idem)

lemma strip_Nil [simp]: "strip [] = []"
  by (simp add: strip_def strip_p_def lstrip_p_def rstrip_p_def)

lemma split_char_absent: "c \<notin> set s \<Longrightarrow> split_char c s = [s]"
  by (induction s) auto

lemma length_show_nat: "n < 10 ^ Suc k \<Longrightarrow> length (show_nat n) \<le> Suc k"
proof (induction k arbitrary: n)
  case (Suc k)
  have "n div 10 < 10 ^ Suc k" using Suc.prems by (simp add: less_mult_imp_div_less)
  then have "length (show_nat (n div 10)) \<le> Suc k" by (rule Suc.IH)
  then show ?case by (subst show_nat.simps) simp
qed (subst show_nat.simps, simp)

end
