(* ===== verification/Input_Properties.thy ===== *)
theory Input_Properties
  imports Inputs Text_Facts
begin

text \<open>
  Reading a devices CSV: each row is one device or one error, whatever the other rows hold; a device comes out
  exactly of a valid row. The one exception of the reading is a port cell too long for \<open>int()\<close>.
\<close>

section \<open>Stripped cells\<close>

definition stripped_cells :: "item \<Rightarrow> bool" where
  "stripped_cells item \<longleftrightarrow> list_all (\<lambda>(k, v). strip v = v) item"

lemma stripped_update: "stripped_cells item \<Longrightarrow> strip v = v \<Longrightarrow> stripped_cells (AList.update k v item)"
  unfolding stripped_cells_def by (induction item) auto

lemma stripped_get: "stripped_cells item \<Longrightarrow> strip (item_get item n) = item_get item n"
  unfolding stripped_cells_def item_get_def by (induction item) auto

lemma get_update: "item_get (AList.update k v item) n = (if n = k then v else item_get item n)"
  by (simp add: item_get_def update_conv')

lemma stripped_clean_cell: "stripped_cells item \<Longrightarrow> stripped_cells (clean_cell cell item)"
  by (auto simp: clean_cell_def split: prod.split option.split intro!: stripped_update)

lemma stripped_fold: "stripped_cells item \<Longrightarrow> stripped_cells (fold clean_cell raw item)"
  by (induction raw arbitrary: item) (simp_all add: stripped_clean_cell)

lemma clean_row_stripped:
  assumes "n \<noteq> ''device_type''"
  shows "strip (item_get (clean_row raw) n) = item_get (clean_row raw) n"
proof -
  have "stripped_cells (fold clean_cell raw [])" by (rule stripped_fold) (simp add: stripped_cells_def)
  then show ?thesis using assms by (simp add: clean_row_def Let_def get_update stripped_get)
qed

section \<open>Rows\<close>

lemma normalize_valid: "validate_address a \<Longrightarrow> strip a = a \<Longrightarrow> normalize_address a \<noteq> None"
  by (auto simp: normalize_address_def validate_address_def validate_ip_def is_ip_def normalize_ip_def ip_text_def
      Let_def split: option.split)

text \<open>The row whose reading raises: its address is fine and its port is digits, more than \<open>int()\<close> takes.\<close>

definition endless_port :: "raw_row \<Rightarrow> bool" where
  "endless_port raw \<longleftrightarrow>
     (let item = clean_row raw; port = item_get item ''port'' in
      item_get item ''ip'' \<noteq> [] \<and> validate_address (item_get item ''ip'')
      \<and> is_ascii port \<and> is_digits port \<and> 4300 < length port)"

lemma port_raises: "validate_port p = None \<longleftrightarrow> is_ascii p \<and> is_digits p \<and> 4300 < length p"
  by (auto simp: validate_port_def int_of_digits_def)

lemma port_valid: "validate_port p = Some True \<Longrightarrow> 1 \<le> digits_value 0 p \<and> digits_value 0 p \<le> 65535"
  by (auto simp: validate_port_def int_of_digits_def split: if_splits)

lemma data_raises: "validate_device_data item = Row_Check_Raises \<longleftrightarrow>
    validate_address (item_get item ''ip'') \<and> validate_port (item_get item ''port'') = None"
  by (simp add: validate_device_data_def split: option.split bool.split)

lemma data_valid: "validate_device_data item = Row_Valid \<longleftrightarrow>
    validate_address (item_get item ''ip'') \<and> validate_port (item_get item ''port'') = Some True
    \<and> item_get item ''device_type'' \<in> set supported_platforms"
  by (simp add: validate_device_data_def validate_platform_def split: option.split bool.split)

lemma row_address: "validate_address (item_get (clean_row raw) ''ip'') \<Longrightarrow>
    \<exists>a. normalize_address (item_get (clean_row raw) ''ip'') = Some a"
  using normalize_valid [of "item_get (clean_row raw) ''ip''"] clean_row_stripped [of "''ip''" raw] by auto

lemma prepare_row_raises: "prepare_row ad rc creds check n raw = Row_Raises \<longleftrightarrow> endless_port raw"
proof (cases "validate_device_data (clean_row raw)")
  case Row_Valid
  then obtain a where "normalize_address (item_get (clean_row raw) ''ip'') = Some a" using row_address data_valid by blast
  moreover have "\<not> endless_port raw"
    using Row_Valid port_raises [of "item_get (clean_row raw) ''port''"] by (auto simp: data_valid endless_port_def Let_def)
  ultimately show ?thesis using Row_Valid by (simp add: prepare_row_def Let_def)
next
  case (Row_Problem w)
  then have "\<not> endless_port raw"
    using data_raises [of "clean_row raw"] port_raises [of "item_get (clean_row raw) ''port''"] by (auto simp: endless_port_def Let_def)
  then show ?thesis using Row_Problem by (simp add: prepare_row_def Let_def)
next
  case Row_Check_Raises
  then show ?thesis
    using data_raises [of "clean_row raw"] port_raises [of "item_get (clean_row raw) ''port''"] by (auto simp: prepare_row_def endless_port_def Let_def)
qed

text \<open>What a device of a row is: the row's own address, a supported platform, a port of TCP, and what was asked for.\<close>

definition good_device :: "(string \<Rightarrow> bool) \<Rightarrow> (string \<Rightarrow> nat \<Rightarrow> bool) \<Rightarrow> bool \<Rightarrow> bool \<Rightarrow> raw_row \<Rightarrow> prepared_device \<Rightarrow> bool" where
  "good_device answers_dns reaches creds check raw d \<longleftrightarrow>
     normalize_address (item_get (clean_row raw) ''ip'') = Some (d_ip d)
     \<and> d_type d \<in> set supported_platforms \<and> 1 \<le> d_port d \<and> d_port d \<le> 65535
     \<and> (creds \<longrightarrow> d_username d \<noteq> [] \<and> d_password d \<noteq> [])
     \<and> (check \<longrightarrow> answers_dns (d_ip d) \<and> reaches (d_ip d) (d_port d))"

lemma prepare_row_device:
  assumes "prepare_row ad rc creds check n raw = Row_Device d"
  shows "good_device ad rc creds check raw d"
proof -
  have v: "validate_device_data (clean_row raw) = Row_Valid"
    using assms by (cases "validate_device_data (clean_row raw)") (simp_all add: prepare_row_def Let_def split: if_splits)
  obtain a where a: "normalize_address (item_get (clean_row raw) ''ip'') = Some a" using row_address v data_valid by blast
  have d: "d = row_device a (clean_row raw)"
      "creds \<longrightarrow> item_get (clean_row raw) ''username'' \<noteq> [] \<and> item_get (clean_row raw) ''password'' \<noteq> []"
      "check \<longrightarrow> ad a \<and> rc a (digits_value 0 (item_get (clean_row raw) ''port''))"
    using assms by (simp_all add: prepare_row_def Let_def v a split: if_splits)
  show ?thesis
    using v port_valid [of "item_get (clean_row raw) ''port''"] d a by (simp add: good_device_def data_valid row_device_def)
qed

section \<open>The reading\<close>

text \<open>What each row gives, on its own.\<close>

definition row_outcomes :: "(string \<Rightarrow> bool) \<Rightarrow> (string \<Rightarrow> nat \<Rightarrow> bool) \<Rightarrow> bool \<Rightarrow> bool \<Rightarrow> nat \<Rightarrow> raw_row list \<Rightarrow> row_outcome list" where
  "row_outcomes ad rc creds check n rows = map (\<lambda>(i, raw). prepare_row ad rc creds check i raw) (enumerate n rows)"

definition devices_of :: "row_outcome list \<Rightarrow> prepared_device list" where
  "devices_of outs = concat (map (\<lambda>r. case r of Row_Device d \<Rightarrow> [d] | _ \<Rightarrow> []) outs)"

definition errors_of :: "row_outcome list \<Rightarrow> string list" where
  "errors_of outs = concat (map (\<lambda>r. case r of Row_Error e \<Rightarrow> [e] | _ \<Rightarrow> []) outs)"

lemma prepare_rows_raises: "prepare_rows ad rc creds check n rows = None \<longleftrightarrow> list_ex endless_port rows"
proof (induction rows arbitrary: n)
  case (Cons raw rows)
  then show ?case using prepare_row_raises [of ad rc creds check n raw]
    by (cases "prepare_row ad rc creds check n raw") simp_all
qed simp

lemma prepare_rows_outcomes:
  "prepare_rows ad rc creds check n rows = Some (ds, es) \<Longrightarrow>
    ds = devices_of (row_outcomes ad rc creds check n rows) \<and> es = errors_of (row_outcomes ad rc creds check n rows)
    \<and> length ds + length es = length rows
    \<and> list_all (\<lambda>d. list_ex (\<lambda>raw. good_device ad rc creds check raw d) rows) ds"
proof (induction rows arbitrary: n ds es)
  case Nil then show ?case by (simp add: row_outcomes_def devices_of_def errors_of_def)
next
  case (Cons raw rows)
  show ?case
  proof (cases "prepare_row ad rc creds check n raw")
    case (Row_Device d)
    then obtain ds' where r: "prepare_rows ad rc creds check (Suc n) rows = Some (ds', es)" "ds = d # ds'"
      using Cons.prems by auto
    show ?thesis using Cons.IH [OF r(1)] Row_Device prepare_row_device [OF Row_Device]
      by (auto simp: r(2) row_outcomes_def devices_of_def errors_of_def list_all_iff)
  next
    case (Row_Error e)
    then obtain es' where r: "prepare_rows ad rc creds check (Suc n) rows = Some (ds, es')" "es = e # es'"
      using Cons.prems by auto
    show ?thesis using Cons.IH [OF r(1)] Row_Error
      by (auto simp: r(2) row_outcomes_def devices_of_def errors_of_def list_all_iff)
  next
    case Row_Raises then show ?thesis using Cons.prems by simp
  qed
qed

text \<open>C19: Each row of a devices CSV is handled on its own: unless a row's port is of more digits than \<open>int()\<close> takes
  (then, and only then, the whole reading raises), there is exactly one device or one error per row, in the rows'
  order, each the row's own; and each device is of a row, at the row's address in its one spelling, on a supported
  platform, at a TCP port, with the credentials and the reachability the caller asked for.\<close>

theorem rows_read_independently:
  "(case prepare_devices answers_dns reaches creds check raws of
      None \<Rightarrow> list_ex endless_port raws
    | Some (ds, es) \<Rightarrow>
        \<not> list_ex endless_port raws
        \<and> ds = devices_of (row_outcomes answers_dns reaches creds check 1 raws)
        \<and> es = errors_of (row_outcomes answers_dns reaches creds check 1 raws)
        \<and> length ds + length es = length raws
        \<and> list_all (\<lambda>d. list_ex (\<lambda>raw. good_device answers_dns reaches creds check raw d) raws) ds)"
proof (cases "prepare_devices answers_dns reaches creds check raws")
  case None
  then have "prepare_rows answers_dns reaches creds check 1 raws = None" by (simp only: prepare_devices_def)
  then show ?thesis unfolding None option.case by (simp only: prepare_rows_raises)
next
  case (Some r)
  obtain ds es where r: "r = (ds, es)" by (cases r)
  have p: "prepare_rows answers_dns reaches creds check 1 raws = Some (ds, es)"
    using Some by (simp add: prepare_devices_def r)
  have "\<not> list_ex endless_port raws"
    using p prepare_rows_raises [of answers_dns reaches creds check 1 raws] by simp
  then show ?thesis unfolding Some r option.case prod.case using prepare_rows_outcomes [OF p] by blast
qed

end
