(* ===== verification/Inventory_View.thy ===== *)
theory Inventory_View
  imports Results Inputs
begin

text \<open>
  \<open>src/inventory.py\<close>: the device inventory's rules, as one user - the viewer - sees it. The tables are
  lists of their rows (\<open>src/db/tables.py\<close>) in the order the database answers; an operation returns what it
  answers and the tables after it. Ids are their texts; the id of a new row and the database's collation
  (\<open>collate\<close>: a label's place in its order) are arguments; a \<open>var_maps\<close> of \<open>NULL\<close> is the empty one.
\<close>

section \<open>Properties and values\<close>

record property_def =
  pd_name :: string
  pd_label :: string
  pd_icon :: string
  pd_list :: bool

definition system_properties :: "property_def list" where
  "system_properties =
     [\<lparr>pd_name = ''hostname'', pd_label = ''Hostname'', pd_icon = ''bi-type-h1'', pd_list = False\<rparr>,
      \<lparr>pd_name = ''loopback_ip'', pd_label = ''Loopback IP'', pd_icon = ''bi-hdd-network'', pd_list = False\<rparr>,
      \<lparr>pd_name = ''asn'', pd_label = ''ASN'', pd_icon = ''bi-diagram-3'', pd_list = False\<rparr>,
      \<lparr>pd_name = ''mgmt_vrf'', pd_label = ''Management VRF'', pd_icon = ''bi-box'', pd_list = False\<rparr>,
      \<lparr>pd_name = ''mgmt_interface'', pd_label = ''Management Interface'', pd_icon = ''bi-ethernet'', pd_list = False\<rparr>,
      \<lparr>pd_name = ''site'', pd_label = ''Site'', pd_icon = ''bi-geo-alt'', pd_list = False\<rparr>,
      \<lparr>pd_name = ''domain'', pd_label = ''Domain'', pd_icon = ''bi-globe2'', pd_list = False\<rparr>,
      \<lparr>pd_name = ''timezone'', pd_label = ''Timezone'', pd_icon = ''bi-clock'', pd_list = False\<rparr>,
      \<lparr>pd_name = ''vrfs'', pd_label = ''VRFs'', pd_icon = ''bi-layers'', pd_list = True\<rparr>]"

definition system_names :: "string list" where
  "system_names = map pd_name system_properties"

text \<open>\<open>parse_value\<close> of a typed text, and of a list.\<close>

definition listed :: "string list \<Rightarrow> attribute option" where
  "listed parts = (let items = filter (\<lambda>x. x \<noteq> []) (map strip parts) in if items = [] then None else Some (Texts items))"

definition parse_value :: "attribute \<Rightarrow> bool \<Rightarrow> attribute option" where
  "parse_value raw is_list =
     (if is_list then listed (case raw of Texts parts \<Rightarrow> parts | Text t \<Rightarrow> split_char (CHR '','') t)
      else (let t = strip (case raw of Text t \<Rightarrow> t | Texts parts \<Rightarrow> join '', '' parts)
            in if t = [] then None else Some (Text t)))"

text \<open>The \<open>attr_\<close> fields of a form: of properties with one name, the last counts.\<close>

definition form_values :: "(string \<times> string) list \<Rightarrow> property_def list \<Rightarrow> (string \<times> attribute option) list" where
  "form_values form properties =
     fold (\<lambda>(k, raw) found.
       (case (if prefix ''attr_'' k then map_of (rev (map (\<lambda>p. (pd_name p, p)) properties)) (drop 5 k) else None) of
          None \<Rightarrow> found
        | Some p \<Rightarrow> AList.update (pd_name p) (parse_value (Text raw) (pd_list p)) found)) form []"

section \<open>Tables\<close>

record inventory_device =
  iv_id :: string
  iv_ip :: string
  iv_resolved :: "string option"
  iv_type :: string
  iv_port :: nat
  iv_label :: string
  iv_values :: "(string \<times> attribute) list"
  iv_global :: bool
  iv_user :: "string option"

record security_profile =
  sc_id :: string
  sc_label :: "string option"
  sc_username :: string
  sc_password :: string
  sc_secret :: "string option"
  sc_user :: string

record device_credential =
  cr_device :: string
  cr_user :: string
  cr_profile :: string

record device_attribute =
  da_device :: string
  da_user :: string
  da_name :: string
  da_value :: attribute

record variable_mapping =
  vm_id :: string
  vm_token :: string
  vm_property :: string
  vm_index :: "int option"
  vm_user :: string

record own_property = property_def +
  op_id :: string
  op_user :: string

record tables =
  tb_devices :: "inventory_device list"
  tb_profiles :: "security_profile list"
  tb_credentials :: "device_credential list"
  tb_attributes :: "device_attribute list"
  tb_mappings :: "variable_mapping list"
  tb_bound :: "(string \<times> string) list"
  tb_properties :: "own_property list"

definition system_values :: "inventory_device \<Rightarrow> (string \<times> attribute) list" where
  "system_values d = filter (\<lambda>(k, v). k \<in> set system_names) (iv_values d)"

definition set_system_value :: "string \<times> attribute option \<Rightarrow> (string \<times> attribute) list \<Rightarrow> (string \<times> attribute) list" where
  "set_system_value nv var_maps =
     (let (n, value) = nv in
      if n \<notin> set system_names then var_maps
      else (case value of
          Some v \<Rightarrow> if truthy v then AList.update n v var_maps else AList.delete n var_maps
        | None \<Rightarrow> AList.delete n var_maps))"

definition set_system_values :: "inventory_device \<Rightarrow> (string \<times> attribute option) list \<Rightarrow> inventory_device" where
  "set_system_values d new_values = d\<lparr>iv_values := fold set_system_value new_values (system_values d)\<rparr>"

definition find_device :: "string \<Rightarrow> tables \<Rightarrow> inventory_device option" where
  "find_device i t = List.find (\<lambda>d. iv_id d = i) (tb_devices t)"

definition change_device :: "string \<Rightarrow> (inventory_device \<Rightarrow> inventory_device) \<Rightarrow> tables \<Rightarrow> tables" where
  "change_device i f t = t\<lparr>tb_devices := map (\<lambda>d. if iv_id d = i then f d else d) (tb_devices t)\<rparr>"

section \<open>Which devices\<close>

definition sees :: "viewer \<Rightarrow> inventory_device \<Rightarrow> bool" where
  "sees v d \<longleftrightarrow> iv_user d = Some (vw_id v) \<or> iv_global d"

definition visible :: "(string \<Rightarrow> 'k::linorder) \<Rightarrow> viewer \<Rightarrow> string list option \<Rightarrow> tables \<Rightarrow> inventory_device list" where
  "visible collate v ips t =
     sort_key (\<lambda>d. collate (iv_label d))
       (filter (\<lambda>d. sees v d \<and> (case ips of None \<Rightarrow> True | Some wanted \<Rightarrow> iv_ip d \<in> set wanted)) (tb_devices t))"

definition visible_ids :: "viewer \<Rightarrow> string list \<Rightarrow> tables \<Rightarrow> inventory_device list" where
  "visible_ids v ids t = filter (\<lambda>d. sees v d \<and> iv_id d \<in> set ids) (tb_devices t)"

definition partition_devices :: "inventory_device list \<Rightarrow> inventory_device list \<times> inventory_device list" where
  "partition_devices devices = (filter iv_global devices, filter (\<lambda>d. \<not> iv_global d) devices)"

text \<open>\<open>remember_addresses\<close>: how many addresses changed, and the tables.\<close>

definition remembers :: "viewer \<Rightarrow> string list \<Rightarrow> (string \<Rightarrow> string option) \<Rightarrow> inventory_device \<Rightarrow> bool" where
  "remembers v ids addresses d \<longleftrightarrow> iv_id d \<in> set ids \<and> sees v d
     \<and> addresses (iv_ip d) \<noteq> None \<and> iv_resolved d \<noteq> addresses (iv_ip d)"

definition remember_addresses :: "viewer \<Rightarrow> string list \<Rightarrow> (string \<Rightarrow> string option) \<Rightarrow> tables \<Rightarrow> nat \<times> tables" where
  "remember_addresses v ids addresses t =
     (length (filter (remembers v ids addresses) (tb_devices t)),
      t\<lparr>tb_devices := map (\<lambda>d. if remembers v ids addresses d then d\<lparr>iv_resolved := addresses (iv_ip d)\<rparr> else d) (tb_devices t)\<rparr>)"

definition visible_endpoints :: "viewer \<Rightarrow> tables \<Rightarrow> (string \<times> nat) list" where
  "visible_endpoints v t =
     concat (map (\<lambda>d. (iv_ip d, iv_port d)
         # (case iv_resolved d of None \<Rightarrow> [] | Some a \<Rightarrow> if a = [] then [] else [(a, iv_port d)]))
       (filter (sees v) (tb_devices t)))"

definition get_visible :: "viewer \<Rightarrow> string \<Rightarrow> tables \<Rightarrow> inventory_device option" where
  "get_visible v i t = List.find (\<lambda>d. iv_id d = i \<and> sees v d) (tb_devices t)"

definition can_edit :: "viewer \<Rightarrow> inventory_device \<Rightarrow> bool" where
  "can_edit v d \<longleftrightarrow> iv_user d = Some (vw_id v) \<or> iv_global d \<and> vw_admin v"

definition get_editable :: "viewer \<Rightarrow> string \<Rightarrow> tables \<Rightarrow> inventory_device option" where
  "get_editable v i t = (case find_device i t of None \<Rightarrow> None | Some d \<Rightarrow> if can_edit v d then Some d else None)"

definition same_endpoint :: "(string \<Rightarrow> 'k::linorder) \<Rightarrow> viewer \<Rightarrow> string \<Rightarrow> nat \<Rightarrow> string option \<Rightarrow> string list \<Rightarrow> tables
    \<Rightarrow> inventory_device list" where
  "same_endpoint collate v ip port exclude resolved t =
     (let addresses = ip # resolved in
      sort_key (\<lambda>d. collate (iv_label d))
        (filter (\<lambda>d. sees v d \<and> iv_port d = port
            \<and> (iv_ip d \<in> set addresses \<or> (case iv_resolved d of None \<Rightarrow> False | Some a \<Rightarrow> a \<in> set addresses))
            \<and> exclude \<noteq> Some (iv_id d)) (tb_devices t)))"

definition same_endpoint_warning :: "inventory_device list \<Rightarrow> string \<Rightarrow> nat \<Rightarrow> string list \<Rightarrow> string option" where
  "same_endpoint_warning devices ip port resolved =
     (if devices = [] then None
      else Some (endpoint ip (show_nat port) @ (if resolved = [] then [] else '' ('' @ join '', '' resolved @ '')'')
        @ '' is already used by ''
        @ join '', '' (map (\<lambda>d. if iv_global d then iv_label d @ '' (global)'' else iv_label d) (take 5 devices))
        @ (if 5 < length devices then '', ...'' else [])
        @ ''. That'' @ squote # ''s fine for NAT, VRFs or port-forwarded labs, but they can'' @ squote # ''t be in the same rollout.''))"

section \<open>Names\<close>

datatype label_scope = Scope_Visible | Scope_Anyone

definition scope_rows :: "label_scope \<Rightarrow> viewer \<Rightarrow> tables \<Rightarrow> inventory_device list" where
  "scope_rows scope v t =
     (case scope of
        Scope_Visible \<Rightarrow> filter (sees v) (tb_devices t)
      | Scope_Anyone \<Rightarrow> tb_devices t)"

text \<open>The viewer's own come last: a later row's label replaces an earlier one's.\<close>

definition own_last :: "label_scope \<Rightarrow> viewer \<Rightarrow> inventory_device list \<Rightarrow> inventory_device list" where
  "own_last scope v rows =
     (case scope of
        Scope_Visible \<Rightarrow> filter (\<lambda>d. iv_user d \<noteq> Some (vw_id v)) rows @ filter (\<lambda>d. iv_user d = Some (vw_id v)) rows
      | Scope_Anyone \<Rightarrow> rows)"

definition label_map :: "label_scope \<Rightarrow> viewer \<Rightarrow> string list option \<Rightarrow> tables \<Rightarrow> (string \<times> string) list" where
  "label_map scope v ips t =
     (if ips = Some [] then []
      else fold (\<lambda>d. AList.update (iv_ip d) (iv_label d))
        (own_last scope v (filter (\<lambda>d. case ips of None \<Rightarrow> True | Some wanted \<Rightarrow> iv_ip d \<in> set wanted) (scope_rows scope v t))) [])"

definition endpoint_labels :: "label_scope \<Rightarrow> viewer \<Rightarrow> (string \<times> nat) list option \<Rightarrow> tables \<Rightarrow> ((string \<times> nat) \<times> string) list" where
  "endpoint_labels scope v endpoints t =
     (if endpoints = Some [] then []
      else fold (\<lambda>d. AList.update (iv_ip d, iv_port d)
          (if scope = Scope_Anyone \<and> iv_label d = [] then iv_ip d else iv_label d))
        (own_last scope v (filter (\<lambda>d. case endpoints of None \<Rightarrow> True | Some wanted \<Rightarrow> (iv_ip d, iv_port d) \<in> set wanted)
          (scope_rows scope v t))) [])"

end
