(* ===== verification/Inventory_Rules.thy ===== *)
theory Inventory_Rules
  imports Inventory_View
begin

text \<open>
  \<open>src/inventory.py\<close>: the viewer's credentials, attribute values and mapping bindings on the devices they
  see, the rules for saving a device, and the security profiles. A refused rule is \<open>Inl\<close>: nothing changed.
\<close>

section \<open>Credentials\<close>

datatype rule_refused = Rule_Refused string

definition profile_allowed :: "viewer \<Rightarrow> string option \<Rightarrow> tables \<Rightarrow> bool" where
  "profile_allowed v profile t \<longleftrightarrow>
     (case profile of
        None \<Rightarrow> True
      | Some p \<Rightarrow> list_ex (\<lambda>s. sc_id s = p \<and> sc_user s = vw_id v) (tb_profiles t))"

text \<open>The viewer's profile for a device: their link, joined with its profile.\<close>

definition links_of :: "viewer \<Rightarrow> string \<Rightarrow> tables \<Rightarrow> security_profile list" where
  "links_of v device t =
     concat (map (\<lambda>c. filter (\<lambda>s. sc_id s = cr_profile c) (tb_profiles t))
       (filter (\<lambda>c. cr_user c = vw_id v \<and> cr_device c = device) (tb_credentials t)))"

definition profile_on :: "viewer \<Rightarrow> string \<Rightarrow> tables \<Rightarrow> security_profile option" where
  "profile_on v device t = (let found = links_of v device t in if found = [] then None else Some (last found))"

definition profiles_for :: "viewer \<Rightarrow> inventory_device list \<Rightarrow> tables \<Rightarrow> (string \<times> security_profile option) list" where
  "profiles_for v devices t = map (\<lambda>d. (iv_id d, profile_on v (iv_id d) t)) devices"

definition is_link :: "viewer \<Rightarrow> string \<Rightarrow> device_credential \<Rightarrow> bool" where
  "is_link v device c \<longleftrightarrow> cr_device c = device \<and> cr_user c = vw_id v"

definition link_profile :: "viewer \<Rightarrow> string \<Rightarrow> string option \<Rightarrow> tables \<Rightarrow> rule_refused + tables" where
  "link_profile v device profile t =
     (if \<not> profile_allowed v profile t then Inl (Rule_Refused ''Security profile not found.'')
      else Inr (t\<lparr>tb_credentials :=
        (case profile of
           None \<Rightarrow> filter (\<lambda>c. \<not> is_link v device c) (tb_credentials t)
         | Some p \<Rightarrow>
             if list_ex (is_link v device) (tb_credentials t)
             then map (\<lambda>c. if is_link v device c then c\<lparr>cr_profile := p\<rparr> else c) (tb_credentials t)
             else tb_credentials t @ [\<lparr>cr_device = device, cr_user = vw_id v, cr_profile = p\<rparr>])\<rparr>))"

definition without_profile :: "viewer \<Rightarrow> inventory_device list \<Rightarrow> tables \<Rightarrow> inventory_device list" where
  "without_profile v devices t = filter (\<lambda>d. profile_on v (iv_id d) t = None) devices"

section \<open>Values\<close>

definition property_defs :: "(string \<Rightarrow> 'k::linorder) \<Rightarrow> viewer \<Rightarrow> tables \<Rightarrow> property_def list \<times> own_property list" where
  "property_defs collate v t =
     (system_properties, sort_key (\<lambda>p. collate (pd_name p)) (filter (\<lambda>p. op_user p = vw_id v) (tb_properties t)))"

definition is_own_value :: "viewer \<Rightarrow> string \<Rightarrow> device_attribute \<Rightarrow> bool" where
  "is_own_value v device a \<longleftrightarrow> da_device a = device \<and> da_user a = vw_id v"

definition attributes_on :: "viewer \<Rightarrow> inventory_device \<Rightarrow> tables \<Rightarrow> (string \<times> attribute) list" where
  "attributes_on v d t =
     fold (\<lambda>a. AList.update (da_name a) (da_value a)) (filter (is_own_value v (iv_id d)) (tb_attributes t)) (system_values d)"

definition attributes_for :: "viewer \<Rightarrow> inventory_device list \<Rightarrow> tables \<Rightarrow> (string \<times> (string \<times> attribute) list) list" where
  "attributes_for v devices t = map (\<lambda>d. (iv_id d, attributes_on v d t)) devices"

text \<open>One wanted value: the row removed, changed or added.\<close>

definition set_custom_value :: "viewer \<Rightarrow> string \<Rightarrow> string \<times> attribute option \<Rightarrow> device_attribute list \<Rightarrow> device_attribute list" where
  "set_custom_value v device nv rows =
     (let (n, value) = nv; mine = (\<lambda>a. is_own_value v device a \<and> da_name a = n) in
      case (case value of None \<Rightarrow> None | Some x \<Rightarrow> if truthy x then Some x else None) of
        None \<Rightarrow> filter (\<lambda>a. \<not> mine a) rows
      | Some x \<Rightarrow>
          if list_ex mine rows then map (\<lambda>a. if mine a then a\<lparr>da_value := x\<rparr> else a) rows
          else rows @ [\<lparr>da_device = device, da_user = vw_id v, da_name = n, da_value = x\<rparr>])"

definition set_custom_values :: "viewer \<Rightarrow> string \<Rightarrow> (string \<times> attribute option) list \<Rightarrow> string list \<Rightarrow> tables \<Rightarrow> tables" where
  "set_custom_values v device new_values own t =
     t\<lparr>tb_attributes := fold (set_custom_value v device) (filter (\<lambda>(n, x). n \<in> set own) new_values) (tb_attributes t)\<rparr>"

definition delete_property_values :: "viewer \<Rightarrow> string \<Rightarrow> tables \<Rightarrow> tables" where
  "delete_property_values v n t =
     t\<lparr>tb_attributes := filter (\<lambda>a. \<not> (da_user a = vw_id v \<and> da_name a = n)) (tb_attributes t)\<rparr>"

section \<open>Bindings\<close>

definition mapping_user :: "tables \<Rightarrow> string \<Rightarrow> string option" where
  "mapping_user t m = map_option vm_user (List.find (\<lambda>x. vm_id x = m) (tb_mappings t))"

text \<open>\<open>bind_mappings\<close>: the tokens not bound, and the tables.\<close>

definition bind_mappings :: "viewer \<Rightarrow> inventory_device \<Rightarrow> string list \<Rightarrow> tables \<Rightarrow> string list \<times> tables" where
  "bind_mappings v d mapping_ids t =
     (let selected = filter (\<lambda>m. vm_id m \<in> set mapping_ids \<and> vm_user m = vw_id v) (tb_mappings t);
          found = attributes_on v d t;
          eligible = (\<lambda>m. mapping_resolvable found (vm_property m) (vm_index m))
      in (sort (map vm_token (filter (\<lambda>m. \<not> eligible m) selected)),
          t\<lparr>tb_bound := filter (\<lambda>(m, i). i \<noteq> iv_id d \<or> mapping_user t m \<noteq> Some (vw_id v)) (tb_bound t)
             @ map (\<lambda>m. (vm_id m, iv_id d)) (filter eligible selected)\<rparr>))"

record removed_from_others =
  rm_users :: nat
  rm_links :: nat
  rm_values :: nat
  rm_bindings :: nat

definition drop_other_users :: "inventory_device \<Rightarrow> tables \<Rightarrow> removed_from_others \<times> tables" where
  "drop_other_users d t =
     (let i = iv_id d; others = (\<lambda>u. iv_user d \<noteq> Some u);
          bound = filter (\<lambda>(m, j). j = i \<and> mapping_user t m \<noteq> iv_user d) (tb_bound t);
          links = filter (\<lambda>c. cr_device c = i \<and> others (cr_user c)) (tb_credentials t);
          own_values = filter (\<lambda>a. da_device a = i \<and> others (da_user a)) (tb_attributes t)
      in (\<lparr>rm_users = length (remdups (List.map_filter (\<lambda>(m, j). mapping_user t m) bound
              @ map da_user own_values @ map cr_user links)),
           rm_links = length links, rm_values = length own_values, rm_bindings = length bound\<rparr>,
          t\<lparr>tb_bound := filter (\<lambda>(m, j). \<not> (j = i \<and> mapping_user t m \<noteq> iv_user d)) (tb_bound t),
            tb_credentials := filter (\<lambda>c. \<not> (cr_device c = i \<and> others (cr_user c))) (tb_credentials t),
            tb_attributes := filter (\<lambda>a. \<not> (da_device a = i \<and> others (da_user a))) (tb_attributes t)\<rparr>))"

section \<open>Saving a device\<close>

record device_fields =
  df_ip :: string
  df_port :: nat
  df_type :: string
  df_label :: string
  df_profile :: "string option"
  df_global :: bool
  df_resolved :: "string list"

record saved_device =
  sv_label :: string
  sv_global :: bool
  sv_was_global :: bool
  sv_shared :: "string option"
  sv_unbound :: "string list"
  sv_removed :: "removed_from_others option"

text \<open>The row added or changed, before the link, the values and the bindings: its id, and the warning.\<close>

definition saved_row :: "(string \<Rightarrow> 'k::linorder) \<Rightarrow> viewer \<Rightarrow> string \<Rightarrow> inventory_device option \<Rightarrow> device_fields \<Rightarrow> bool \<Rightarrow> tables
    \<Rightarrow> string \<times> string option \<times> tables" where
  "saved_row collate v new_id dev f global t =
     (let resolved_ip = (if is_ip (df_ip f) then None else primary (df_resolved f)) in
      case dev of
        None \<Rightarrow>
          (new_id, same_endpoint_warning (same_endpoint collate v (df_ip f) (df_port f) None (df_resolved f) t)
             (df_ip f) (df_port f) (df_resolved f),
           t\<lparr>tb_devices := tb_devices t @ [\<lparr>iv_id = new_id, iv_ip = df_ip f, iv_resolved = resolved_ip, iv_type = df_type f,
             iv_port = df_port f, iv_label = df_label f, iv_values = [], iv_global = global, iv_user = Some (vw_id v)\<rparr>]\<rparr>)
      | Some d \<Rightarrow>
          (let moved = change_device (iv_id d) (\<lambda>d. d\<lparr>iv_label := df_label f, iv_ip := df_ip f,
                 iv_resolved := resolved_ip, iv_port := df_port f\<rparr>) t
           in (iv_id d,
               if (df_ip f, df_port f, resolved_ip) \<noteq> (iv_ip d, iv_port d, iv_resolved d)
               then same_endpoint_warning (same_endpoint collate v (df_ip f) (df_port f) (Some (iv_id d)) (df_resolved f) moved)
                 (df_ip f) (df_port f) (df_resolved f)
               else None,
               change_device (iv_id d) (\<lambda>d. d\<lparr>iv_type := df_type f, iv_global := global\<rparr>) moved)))"

definition set_values :: "viewer \<Rightarrow> string \<Rightarrow> (string \<times> attribute option) list option \<Rightarrow> string list \<Rightarrow> tables \<Rightarrow> tables" where
  "set_values v i new_values own t =
     (case new_values of
        None \<Rightarrow> t
      | Some vs \<Rightarrow> set_custom_values v i vs own (change_device i (\<lambda>d. set_system_values d vs) t))"

definition bind_if :: "viewer \<Rightarrow> string \<Rightarrow> string list option \<Rightarrow> tables \<Rightarrow> string list \<times> tables" where
  "bind_if v i mapping_ids t =
     (case (mapping_ids, find_device i t) of
        (Some ms, Some d) \<Rightarrow> bind_mappings v d ms t
      | _ \<Rightarrow> ([], t))"

text \<open>A device made local is the viewer's, and nobody else keeps anything on it.\<close>

definition make_local :: "viewer \<Rightarrow> string \<Rightarrow> tables \<Rightarrow> removed_from_others option \<times> tables" where
  "make_local v i t =
     (let taken = change_device i (\<lambda>d. d\<lparr>iv_user := Some (vw_id v)\<rparr>) t in
      case find_device i taken of
        None \<Rightarrow> (None, taken)
      | Some d \<Rightarrow> (let (removed, cleaned) = drop_other_users d taken in (Some removed, cleaned)))"

definition save_device :: "(string \<Rightarrow> 'k::linorder) \<Rightarrow> viewer \<Rightarrow> string \<Rightarrow> inventory_device option \<Rightarrow> device_fields
    \<Rightarrow> (string \<times> attribute option) list option \<Rightarrow> string list \<Rightarrow> string list option \<Rightarrow> tables
    \<Rightarrow> rule_refused + saved_device \<times> tables" where
  "save_device collate v new_id dev f new_values own mapping_ids t =
     (let was_global = (case dev of None \<Rightarrow> False | Some d \<Rightarrow> iv_global d);
          global = (if vw_admin v then df_global f else was_global) in
      if \<not> profile_allowed v (df_profile f) t then Inl (Rule_Refused ''Security profile not found.'')
      else (let (i, shared, t1) = saved_row collate v new_id dev f global t in
        case link_profile v i (df_profile f) t1 of
          Inl refused \<Rightarrow> Inl refused
        | Inr t2 \<Rightarrow>
            (let (unbound, t3) = bind_if v i mapping_ids (set_values v i new_values own t2);
                 (removed, t4) = (if was_global \<and> \<not> global then make_local v i t3 else (None, t3))
             in Inr (\<lparr>sv_label = df_label f, sv_global = global, sv_was_global = was_global, sv_shared = shared,
                      sv_unbound = unbound, sv_removed = removed\<rparr>, t4))))"

section \<open>Security profiles\<close>

text \<open>\<open>encrypt\<close> (\<open>src/encryption.py\<close>) of a text that isn't empty is the cipher's; of the empty one, empty.\<close>

definition encrypted :: "(string \<Rightarrow> string) \<Rightarrow> string \<Rightarrow> string" where
  "encrypted cipher s = (if s = [] then [] else cipher s)"

definition decrypted :: "(string \<Rightarrow> string option) \<Rightarrow> string option \<Rightarrow> string option" where
  "decrypted decipher stored =
     (case stored of None \<Rightarrow> Some [] | Some s \<Rightarrow> if s = [] then Some [] else decipher s)"

definition create_profile :: "(string \<Rightarrow> string) \<Rightarrow> viewer \<Rightarrow> string \<Rightarrow> string option \<Rightarrow> string \<Rightarrow> string \<Rightarrow> string \<Rightarrow> security_profile" where
  "create_profile cipher v new_id label username password secret =
     \<lparr>sc_id = new_id, sc_label = label, sc_username = username, sc_password = encrypted cipher password,
      sc_secret = (if secret = [] then None else Some (encrypted cipher secret)), sc_user = vw_id v\<rparr>"

definition owned_profile :: "viewer \<Rightarrow> string \<Rightarrow> tables \<Rightarrow> security_profile option" where
  "owned_profile v i t = List.find (\<lambda>s. sc_id s = i \<and> sc_user s = vw_id v) (tb_profiles t)"

definition update_profile :: "(string \<Rightarrow> string) \<Rightarrow> security_profile \<Rightarrow> string option \<Rightarrow> string \<Rightarrow> string \<Rightarrow> string \<Rightarrow> bool
    \<Rightarrow> security_profile" where
  "update_profile cipher s label username password secret clear_secret =
     s\<lparr>sc_label := label, sc_username := username,
       sc_password := (if password = [] then sc_password s else encrypted cipher password),
       sc_secret := (if secret \<noteq> [] then Some (encrypted cipher secret) else if clear_secret then None else sc_secret s)\<rparr>"

end
