(* ===== verification/Inventory_Actions.thy ===== *)
theory Inventory_Actions
  imports Inventory_Rules
begin

text \<open>
  What a request does to the inventory's tables: the database blocks of the handlers in
  \<open>src/webapp/blueprints/inventory.py\<close>, \<open>mappings.py\<close> and \<open>security.py\<close>, and \<open>Accounts.delete_user\<close>
  (\<open>src/accounts/users.py\<close>) - with what the database deletes along (the foreign keys of
  \<open>src/db/tables.py\<close>). \<open>None\<close>: refused, not found, or stopped by a primary key or a unique constraint - the
  tables stay as they are. How a form is read and what the page says is not modelled.
\<close>

section \<open>Devices\<close>

definition inventory_create :: "(string \<Rightarrow> 'k::linorder) \<Rightarrow> viewer \<Rightarrow> string \<Rightarrow> device_fields \<Rightarrow> tables \<Rightarrow> tables option" where
  "inventory_create collate v new_id f t =
     (if new_id \<in> set (map iv_id (tb_devices t)) then None
      else (case save_device collate v new_id None f None [] None t of Inl _ \<Rightarrow> None | Inr (saved, t') \<Rightarrow> Some t'))"

definition inventory_edit :: "(string \<Rightarrow> 'k::linorder) \<Rightarrow> viewer \<Rightarrow> string \<Rightarrow> device_fields \<Rightarrow> (string \<times> string) list \<Rightarrow> string list
    \<Rightarrow> tables \<Rightarrow> tables option" where
  "inventory_edit collate v i f form mapping_ids t =
     (case get_editable v i t of
        None \<Rightarrow> None
      | Some d \<Rightarrow>
          (let (sys_props, user_props) = property_defs collate v t in
           case save_device collate v i (Some d) f
               (Some (form_values form (sys_props @ map property_def.truncate user_props))) (map pd_name user_props) (Some mapping_ids) t of
             Inl _ \<Rightarrow> None
           | Inr (saved, t') \<Rightarrow> Some t'))"

text \<open>\<open>sec_profile_id\<close>: not sent, blank, or one.\<close>

definition inventory_attributes :: "(string \<Rightarrow> 'k::linorder) \<Rightarrow> viewer \<Rightarrow> string \<Rightarrow> string option option \<Rightarrow> (string \<times> string) list
    \<Rightarrow> string list \<Rightarrow> tables \<Rightarrow> tables option" where
  "inventory_attributes collate v i raw_profile form mapping_ids t =
     (case get_visible v i t of
        None \<Rightarrow> None
      | Some d \<Rightarrow>
          (case (case raw_profile of None \<Rightarrow> Inr t | Some p \<Rightarrow> link_profile v i p t) of
             Inl _ \<Rightarrow> None
           | Inr t1 \<Rightarrow>
               (let user_props = snd (property_defs collate v t1);
                    t2 = set_custom_values v i (form_values form (map property_def.truncate user_props)) (map pd_name user_props) t1
                in Some (snd (bind_mappings v d mapping_ids t2)))))"

text \<open>A device goes with its links, its values and its bindings.\<close>

definition remove_devices :: "(inventory_device \<Rightarrow> bool) \<Rightarrow> tables \<Rightarrow> tables" where
  "remove_devices gone t =
     (let ids = map iv_id (filter gone (tb_devices t)) in
      t\<lparr>tb_devices := filter (\<lambda>d. \<not> gone d) (tb_devices t),
        tb_credentials := filter (\<lambda>c. cr_device c \<notin> set ids) (tb_credentials t),
        tb_attributes := filter (\<lambda>a. da_device a \<notin> set ids) (tb_attributes t),
        tb_bound := filter (\<lambda>(m, i). i \<notin> set ids) (tb_bound t)\<rparr>)"

definition inventory_delete :: "viewer \<Rightarrow> string \<Rightarrow> tables \<Rightarrow> tables option" where
  "inventory_delete v i t =
     (case get_editable v i t of None \<Rightarrow> None | Some d \<Rightarrow> Some (remove_devices (\<lambda>x. iv_id x = iv_id d) t))"

text \<open>The devices the viewer doesn't see are skipped.\<close>

fun link_each :: "viewer \<Rightarrow> string option \<Rightarrow> string list \<Rightarrow> tables \<Rightarrow> tables option" where
  "link_each v profile [] t = Some t"
| "link_each v profile (i # is) t =
     (case get_visible v i t of
        None \<Rightarrow> link_each v profile is t
      | Some d \<Rightarrow> (case link_profile v i profile t of Inl _ \<Rightarrow> None | Inr t' \<Rightarrow> link_each v profile is t'))"

definition inventory_bulk_assign :: "viewer \<Rightarrow> string option \<Rightarrow> string list \<Rightarrow> tables \<Rightarrow> tables option" where
  "inventory_bulk_assign v profile device_ids t =
     (if device_ids = [] then None
      else if (case profile of None \<Rightarrow> False | Some p \<Rightarrow> owned_profile v p t = None) then None
      else link_each v profile device_ids t)"

section \<open>Profiles\<close>

definition security_create :: "(string \<Rightarrow> string) \<Rightarrow> viewer \<Rightarrow> string \<Rightarrow> string option \<Rightarrow> string \<Rightarrow> string \<Rightarrow> string \<Rightarrow> tables \<Rightarrow> tables option" where
  "security_create cipher v new_id label username password secret t =
     (if new_id \<in> set (map sc_id (tb_profiles t)) then None
      else Some (t\<lparr>tb_profiles := tb_profiles t @ [create_profile cipher v new_id label username password secret]\<rparr>))"

definition security_edit :: "(string \<Rightarrow> string) \<Rightarrow> viewer \<Rightarrow> string \<Rightarrow> string option \<Rightarrow> string \<Rightarrow> string \<Rightarrow> string \<Rightarrow> bool \<Rightarrow> tables
    \<Rightarrow> tables option" where
  "security_edit cipher v i label username password secret clear_secret t =
     (case owned_profile v i t of
        None \<Rightarrow> None
      | Some s \<Rightarrow> Some (t\<lparr>tb_profiles := map (\<lambda>x. if sc_id x = i
          then update_profile cipher x label username password secret clear_secret else x) (tb_profiles t)\<rparr>))"

definition remove_profiles :: "(security_profile \<Rightarrow> bool) \<Rightarrow> tables \<Rightarrow> tables" where
  "remove_profiles gone t =
     t\<lparr>tb_profiles := filter (\<lambda>s. \<not> gone s) (tb_profiles t),
       tb_credentials := filter (\<lambda>c. \<not> list_ex (\<lambda>s. gone s \<and> sc_id s = cr_profile c \<and> sc_user s = cr_user c) (tb_profiles t))
         (tb_credentials t)\<rparr>"

definition security_delete :: "viewer \<Rightarrow> string \<Rightarrow> tables \<Rightarrow> tables option" where
  "security_delete v i t =
     (case owned_profile v i t of None \<Rightarrow> None | Some s \<Rightarrow> Some (remove_profiles (\<lambda>x. sc_id x = i) t))"

section \<open>Mappings and properties\<close>

text \<open>The first problem of a mapping, as both forms check it: \<open>None\<close> when it may be saved.\<close>

definition mapping_fields_problem :: "property_def list \<Rightarrow> string \<Rightarrow> string \<Rightarrow> int option \<Rightarrow> string option" where
  "mapping_fields_problem props inner_token property index =
     (case token_problem inner_token of
        Some p \<Rightarrow> Some p
      | None \<Rightarrow> (case property_name_problem property (map pd_name props) of
          Some p \<Rightarrow> Some p
        | None \<Rightarrow> index_problem index property (map pd_name (filter pd_list props))))"

definition allowed_properties :: "(string \<Rightarrow> 'k::linorder) \<Rightarrow> viewer \<Rightarrow> tables \<Rightarrow> property_def list" where
  "allowed_properties collate v t =
     (let (sys_props, user_props) = property_defs collate v t in sys_props @ map property_def.truncate user_props)"

definition token_taken :: "viewer \<Rightarrow> string \<Rightarrow> string option \<Rightarrow> tables \<Rightarrow> bool" where
  "token_taken v token except t \<longleftrightarrow>
     list_ex (\<lambda>m. vm_user m = vw_id v \<and> vm_token m = token \<and> except \<noteq> Some (vm_id m)) (tb_mappings t)"

definition mappings_create :: "(string \<Rightarrow> 'k::linorder) \<Rightarrow> viewer \<Rightarrow> string \<Rightarrow> string \<Rightarrow> string \<Rightarrow> int option \<Rightarrow> tables \<Rightarrow> tables option" where
  "mappings_create collate v new_id inner_token property index t =
     (let token = ''$$'' @ inner_token @ ''$$'' in
      if mapping_fields_problem (allowed_properties collate v t) inner_token property index \<noteq> None then None
      else if new_id \<in> set (map vm_id (tb_mappings t)) \<or> token_taken v token None t then None
      else Some (t\<lparr>tb_mappings := tb_mappings t
        @ [\<lparr>vm_id = new_id, vm_token = token, vm_property = property, vm_index = index, vm_user = vw_id v\<rparr>]\<rparr>))"

definition owned_mapping :: "viewer \<Rightarrow> string \<Rightarrow> tables \<Rightarrow> variable_mapping option" where
  "owned_mapping v i t =
     (case List.find (\<lambda>m. vm_id m = i) (tb_mappings t) of
        None \<Rightarrow> None
      | Some m \<Rightarrow> if vm_user m = vw_id v then Some m else None)"

definition mappings_edit :: "(string \<Rightarrow> 'k::linorder) \<Rightarrow> viewer \<Rightarrow> string \<Rightarrow> string \<Rightarrow> string \<Rightarrow> int option \<Rightarrow> tables \<Rightarrow> tables option" where
  "mappings_edit collate v i inner_token property index t =
     (let token = ''$$'' @ inner_token @ ''$$'' in
      if mapping_fields_problem (allowed_properties collate v t) inner_token property index \<noteq> None then None
      else (case owned_mapping v i t of
          None \<Rightarrow> None
        | Some m \<Rightarrow>
            if token_taken v token (Some i) t then None
            else Some (t\<lparr>tb_mappings := map (\<lambda>x. if vm_id x = i
              then x\<lparr>vm_token := token, vm_property := property, vm_index := index\<rparr> else x) (tb_mappings t)\<rparr>)))"

definition remove_mappings :: "(variable_mapping \<Rightarrow> bool) \<Rightarrow> tables \<Rightarrow> tables" where
  "remove_mappings gone t =
     t\<lparr>tb_mappings := filter (\<lambda>m. \<not> gone m) (tb_mappings t),
       tb_bound := filter (\<lambda>(m, i). m \<notin> set (map vm_id (filter gone (tb_mappings t)))) (tb_bound t)\<rparr>"

definition mappings_delete :: "viewer \<Rightarrow> string \<Rightarrow> tables \<Rightarrow> tables option" where
  "mappings_delete v i t =
     (case owned_mapping v i t of None \<Rightarrow> None | Some m \<Rightarrow> Some (remove_mappings (\<lambda>x. vm_id x = i) t))"

text \<open>\<open>assigned_ids\<close> is read before the removals: a device both removed and asked for stays removed.\<close>

definition assignable :: "viewer \<Rightarrow> variable_mapping \<Rightarrow> string list \<Rightarrow> tables \<Rightarrow> string \<Rightarrow> bool" where
  "assignable v m assigned t i \<longleftrightarrow>
     (case get_visible v i t of
        None \<Rightarrow> False
      | Some d \<Rightarrow> mapping_resolvable (attributes_on v d t) (vm_property m) (vm_index m) \<and> i \<notin> set assigned)"

definition mappings_bulk_assign :: "viewer \<Rightarrow> string \<Rightarrow> string list \<Rightarrow> string list \<Rightarrow> tables \<Rightarrow> tables option" where
  "mappings_bulk_assign v i device_ids remove_ids t =
     (if device_ids = [] \<and> remove_ids = [] then None
      else (case owned_mapping v i t of
          None \<Rightarrow> None
        | Some m \<Rightarrow>
            (let assigned = map snd (filter (\<lambda>(x, j). x = i) (tb_bound t));
                 kept = filter (\<lambda>(x, j). \<not> (x = i \<and> j \<in> set remove_ids)) (tb_bound t);
                 added = filter (assignable v m assigned t) device_ids
             in if \<not> distinct added then None
                else Some (t\<lparr>tb_bound := kept @ map (\<lambda>j. (i, j)) added\<rparr>))))"

definition properties_create :: "viewer \<Rightarrow> string \<Rightarrow> property_def \<Rightarrow> tables \<Rightarrow> tables option" where
  "properties_create v new_id p t =
     (if list_ex (\<lambda>x. pd_name x = pd_name p \<and> op_user x = vw_id v) (tb_properties t) then None
      else if pd_name p \<in> set system_names then None
      else Some (t\<lparr>tb_properties := tb_properties t @ [property_def.extend p (own_property.fields new_id (vw_id v))]\<rparr>))"

definition properties_delete :: "viewer \<Rightarrow> string \<Rightarrow> tables \<Rightarrow> tables option" where
  "properties_delete v i t =
     (case List.find (\<lambda>p. op_id p = i \<and> op_user p = vw_id v) (tb_properties t) of
        None \<Rightarrow> None
      | Some p \<Rightarrow> (let t' = delete_property_values v (pd_name p) t
          in Some (t'\<lparr>tb_properties := filter (\<lambda>x. \<not> (op_id x = i \<and> op_user x = vw_id v)) (tb_properties t')\<rparr>)))"

section \<open>Users\<close>

text \<open>The user's private devices, profiles, mappings, properties, values and links go; a global device they
  created stays, without a creator.\<close>

definition delete_user :: "string \<Rightarrow> tables \<Rightarrow> tables" where
  "delete_user u t =
     (let t1 = remove_devices (\<lambda>d. iv_user d = Some u \<and> \<not> iv_global d) t;
          t2 = remove_mappings (\<lambda>m. vm_user m = u) (remove_profiles (\<lambda>s. sc_user s = u) t1)
      in t2\<lparr>tb_devices := map (\<lambda>d. if iv_user d = Some u then d\<lparr>iv_user := None\<rparr> else d) (tb_devices t2),
            tb_credentials := filter (\<lambda>c. cr_user c \<noteq> u) (tb_credentials t2),
            tb_attributes := filter (\<lambda>a. da_user a \<noteq> u) (tb_attributes t2),
            tb_properties := filter (\<lambda>p. op_user p \<noteq> u) (tb_properties t2)\<rparr>)"

section \<open>Requests\<close>

datatype request =
    Create_Device viewer string device_fields
  | Edit_Device viewer string device_fields "(string \<times> string) list" "string list"
  | Own_Attributes viewer string "string option option" "(string \<times> string) list" "string list"
  | Delete_Device viewer string
  | Link_Devices viewer "string option" "string list"
  | Remember viewer "string list" "(string \<times> string) list"
  | Create_Profile viewer string "string option" string string string
  | Edit_Profile viewer string "string option" string string string bool
  | Delete_Profile viewer string
  | Create_Mapping viewer string string string "int option"
  | Edit_Mapping viewer string string string "int option"
  | Delete_Mapping viewer string
  | Assign_Mapping viewer string "string list" "string list"
  | Create_Property viewer string property_def
  | Delete_Property viewer string
  | Delete_User string

fun perform :: "(string \<Rightarrow> 'k::linorder) \<Rightarrow> (string \<Rightarrow> string) \<Rightarrow> request \<Rightarrow> tables \<Rightarrow> tables option" where
  "perform collate cipher (Create_Device v i f) t = inventory_create collate v i f t"
| "perform collate cipher (Edit_Device v i f form ms) t = inventory_edit collate v i f form ms t"
| "perform collate cipher (Own_Attributes v i p form ms) t = inventory_attributes collate v i p form ms t"
| "perform collate cipher (Delete_Device v i) t = inventory_delete v i t"
| "perform collate cipher (Link_Devices v p is) t = inventory_bulk_assign v p is t"
| "perform collate cipher (Remember v is found) t = Some (snd (remember_addresses v is (map_of found) t))"
| "perform collate cipher (Create_Profile v i l u p s) t = security_create cipher v i l u p s t"
| "perform collate cipher (Edit_Profile v i l u p s c) t = security_edit cipher v i l u p s c t"
| "perform collate cipher (Delete_Profile v i) t = security_delete v i t"
| "perform collate cipher (Create_Mapping v i tok p n) t = mappings_create collate v i tok p n t"
| "perform collate cipher (Edit_Mapping v i tok p n) t = mappings_edit collate v i tok p n t"
| "perform collate cipher (Delete_Mapping v i) t = mappings_delete v i t"
| "perform collate cipher (Assign_Mapping v i ds rs) t = mappings_bulk_assign v i ds rs t"
| "perform collate cipher (Create_Property v i p) t = properties_create v i p t"
| "perform collate cipher (Delete_Property v i) t = properties_delete v i t"
| "perform collate cipher (Delete_User u) t = Some (delete_user u t)"

text \<open>A refused request leaves the tables as they are.\<close>

definition perform_all :: "(string \<Rightarrow> 'k::linorder) \<Rightarrow> (string \<Rightarrow> string) \<Rightarrow> request list \<Rightarrow> tables \<Rightarrow> tables" where
  "perform_all collate cipher = fold (\<lambda>r t. case perform collate cipher r t of None \<Rightarrow> t | Some t' \<Rightarrow> t')"

definition no_tables :: tables where
  "no_tables = \<lparr>tb_devices = [], tb_profiles = [], tb_credentials = [], tb_attributes = [], tb_mappings = [],
     tb_bound = [], tb_properties = []\<rparr>"

end
