(* ===== verification/Inventory_Invariants.thy ===== *)
theory Inventory_Invariants
  imports Inventory_Actions
begin

text \<open>
  What holds of the inventory's tables whatever the requests: keys are unique, every link, value and binding
  is on a device its user sees, and a link is to a profile of the link's own user.
\<close>

section \<open>The invariant\<close>

definition seen_by :: "tables \<Rightarrow> string \<Rightarrow> string \<Rightarrow> bool" where
  "seen_by t i u \<longleftrightarrow> (\<exists>d\<in>set (tb_devices t). iv_id d = i \<and> (iv_global d \<or> iv_user d = Some u))"

definition keys_unique :: "tables \<Rightarrow> bool" where
  "keys_unique t \<longleftrightarrow> distinct (map iv_id (tb_devices t)) \<and> distinct (map sc_id (tb_profiles t))
     \<and> distinct (map vm_id (tb_mappings t))
     \<and> distinct (map (\<lambda>c. (cr_device c, cr_user c)) (tb_credentials t))
     \<and> distinct (map (\<lambda>a. (da_device a, da_user a, da_name a)) (tb_attributes t))
     \<and> distinct (tb_bound t)"

text \<open>Everything that hangs on a device is of a user whom \<open>S\<close> lets hold it; a link's profile is its user's.\<close>

definition links_held :: "(string \<Rightarrow> string \<Rightarrow> bool) \<Rightarrow> tables \<Rightarrow> bool" where
  "links_held S t \<longleftrightarrow> (\<forall>c\<in>set (tb_credentials t). S (cr_device c) (cr_user c)
     \<and> (\<exists>s\<in>set (tb_profiles t). sc_id s = cr_profile c \<and> sc_user s = cr_user c))"

definition values_held :: "(string \<Rightarrow> string \<Rightarrow> bool) \<Rightarrow> tables \<Rightarrow> bool" where
  "values_held S t \<longleftrightarrow> (\<forall>a\<in>set (tb_attributes t). S (da_device a) (da_user a))"

definition bound_held :: "(string \<Rightarrow> string \<Rightarrow> bool) \<Rightarrow> tables \<Rightarrow> bool" where
  "bound_held S t \<longleftrightarrow> (\<forall>(m, i)\<in>set (tb_bound t). \<exists>x\<in>set (tb_mappings t). vm_id x = m \<and> S i (vm_user x))"

definition held :: "(string \<Rightarrow> string \<Rightarrow> bool) \<Rightarrow> tables \<Rightarrow> bool" where
  "held S t \<longleftrightarrow> keys_unique t \<and> links_held S t \<and> values_held S t \<and> bound_held S t"

definition tables_ok :: "tables \<Rightarrow> bool" where
  "tables_ok t \<longleftrightarrow> held (seen_by t) t"

lemma held_mono: "held S t \<Longrightarrow> (\<And>i u. S i u \<Longrightarrow> S' i u) \<Longrightarrow> held S' t"
  unfolding held_def links_held_def values_held_def bound_held_def by blast

lemmas held_defs = held_def keys_unique_def links_held_def values_held_def bound_held_def

lemma mapping_user_Some:
  assumes "distinct (map vm_id (tb_mappings t))"
  shows "mapping_user t m = Some u \<longleftrightarrow> (\<exists>x\<in>set (tb_mappings t). vm_id x = m \<and> vm_user x = u)"
proof
  assume "mapping_user t m = Some u"
  then show "\<exists>x\<in>set (tb_mappings t). vm_id x = m \<and> vm_user x = u"
    by (auto simp: mapping_user_def find_Some_iff)
next
  assume "\<exists>x\<in>set (tb_mappings t). vm_id x = m \<and> vm_user x = u"
  then obtain x where x: "x \<in> set (tb_mappings t)" "vm_id x = m" "vm_user x = u" by blast
  then obtain y where y: "List.find (\<lambda>z. vm_id z = m) (tb_mappings t) = Some y"
    by (cases "List.find (\<lambda>z. vm_id z = m) (tb_mappings t)") (auto simp: find_None_iff)
  then have "y \<in> set (tb_mappings t)" "vm_id y = m" by (auto simp: find_Some_iff)
  then have "y = x" using x assms by (metis distinct_map inj_onD)
  then show "mapping_user t m = Some u" using x y by (simp add: mapping_user_def)
qed

lemma find_visible: "get_visible v i t = Some d \<Longrightarrow> d \<in> set (tb_devices t) \<and> iv_id d = i \<and> sees v d"
  by (auto simp: get_visible_def find_Some_iff)

lemma find_editable: "get_editable v i t = Some d \<Longrightarrow> d \<in> set (tb_devices t) \<and> iv_id d = i \<and> can_edit v d"
  by (auto simp: get_editable_def find_device_def find_Some_iff split: option.splits if_splits)

lemma visible_seen: "get_visible v i t = Some d \<Longrightarrow> seen_by t i (vw_id v)"
  using find_visible [of v i t d] by (auto simp: seen_by_def sees_def)

section \<open>What hangs on a device\<close>

lemma allowed_profile: "profile_allowed v (Some p) t \<longleftrightarrow> (\<exists>s\<in>set (tb_profiles t). sc_id s = p \<and> sc_user s = vw_id v)"
  by (auto simp: profile_allowed_def list_ex_iff)

lemma distinct_append_new: "distinct (map f xs) \<Longrightarrow> f x \<notin> f ` set xs \<Longrightarrow> distinct (map f (xs @ [x]))"
  by simp

lemma map_if_same: "(\<And>x. f (if P x then g x else x) = f x) \<Longrightarrow> map f (map (\<lambda>x. if P x then g x else x) xs) = map f xs"
  by simp

lemma bex_map: "(\<exists>x\<in>set (map f xs). P x) \<longleftrightarrow> (\<exists>x\<in>set xs. P (f x))"
  by simp

lemma link_profile_held:
  assumes ok: "held S t" and S: "S i (vw_id v)" and r: "link_profile v i p t = Inr t'"
  shows "held S t'" "tb_devices t' = tb_devices t"
proof -
  let ?link = "is_link v i"
  have allowed: "profile_allowed v p t" using r by (simp add: link_profile_def split: if_splits)
  obtain cs where t': "t' = t\<lparr>tb_credentials := cs\<rparr>" and cs: "cs = (case p of
           None \<Rightarrow> filter (\<lambda>c. \<not> ?link c) (tb_credentials t)
         | Some p \<Rightarrow> if list_ex ?link (tb_credentials t)
             then map (\<lambda>c. if ?link c then c\<lparr>cr_profile := p\<rparr> else c) (tb_credentials t)
             else tb_credentials t @ [\<lparr>cr_device = i, cr_user = vw_id v, cr_profile = p\<rparr>])"
    using r allowed by (simp add: link_profile_def)
  have "distinct (map (\<lambda>c. (cr_device c, cr_user c)) cs) \<and> links_held S t'"
  proof (cases p)
    case None
    then show ?thesis using ok by (auto simp: cs t' held_defs distinct_map_filter)
  next
    case (Some q)
    obtain s where s: "s \<in> set (tb_profiles t)" "sc_id s = q" "sc_user s = vw_id v"
      using allowed Some by (auto simp: allowed_profile)
    show ?thesis
    proof (cases "list_ex ?link (tb_credentials t)")
      case True
      then have c: "cs = map (\<lambda>c. if ?link c then c\<lparr>cr_profile := q\<rparr> else c) (tb_credentials t)" using Some by (simp add: cs)
      have "map (\<lambda>c. (cr_device c, cr_user c)) cs = map (\<lambda>c. (cr_device c, cr_user c)) (tb_credentials t)"
        unfolding c by (rule map_if_same) simp
      then have "distinct (map (\<lambda>c. (cr_device c, cr_user c)) cs)" using ok by (simp only: held_def keys_unique_def)
      moreover have "links_held S t'"
        using ok s S unfolding t' c links_held_def held_def by (force simp: is_link_def)
      ultimately show ?thesis by blast
    next
      case False
      then show ?thesis using ok Some s S by (auto simp: cs t' held_defs list_ex_iff is_link_def)
    qed
  qed
  then show "held S t'" using ok by (simp add: t' held_defs)
  show "tb_devices t' = tb_devices t" by (simp add: t')
qed

lemma set_custom_value_held:
  assumes "distinct (map (\<lambda>a. (da_device a, da_user a, da_name a)) rows)" "\<forall>a\<in>set rows. S (da_device a) (da_user a)"
    and "S i (vw_id v)"
  shows "distinct (map (\<lambda>a. (da_device a, da_user a, da_name a)) (set_custom_value v i nv rows))
      \<and> (\<forall>a\<in>set (set_custom_value v i nv rows). S (da_device a) (da_user a))"
proof -
  obtain n x where nv: "nv = (n, x)" by (cases nv)
  let ?mine = "\<lambda>a. is_own_value v i a \<and> da_name a = n"
  show ?thesis
  proof (cases "case x of None \<Rightarrow> None | Some x \<Rightarrow> if truthy x then Some x else None")
    case None
    then show ?thesis using assms by (simp add: nv set_custom_value_def distinct_map_filter)
  next
    case (Some y)
    have keep: "map (\<lambda>a. (da_device a, da_user a, da_name a)) (map (\<lambda>a. if ?mine a then a\<lparr>da_value := y\<rparr> else a) rows)
        = map (\<lambda>a. (da_device a, da_user a, da_name a)) rows"
      by (rule map_if_same) simp
    show ?thesis
    proof (cases "list_ex ?mine rows")
      case True
      then have r: "set_custom_value v i nv rows = map (\<lambda>a. if ?mine a then a\<lparr>da_value := y\<rparr> else a) rows"
        using Some by (simp add: nv set_custom_value_def)
      show ?thesis unfolding r keep using assms by auto
    next
      case False
      then show ?thesis using Some assms by (auto simp: nv set_custom_value_def list_ex_iff is_own_value_def)
    qed
  qed
qed

lemma set_custom_fold_held:
  assumes "distinct (map (\<lambda>a. (da_device a, da_user a, da_name a)) rows)" "\<forall>a\<in>set rows. S (da_device a) (da_user a)"
    and "S i (vw_id v)"
  shows "distinct (map (\<lambda>a. (da_device a, da_user a, da_name a)) (fold (set_custom_value v i) vs rows))
      \<and> (\<forall>a\<in>set (fold (set_custom_value v i) vs rows). S (da_device a) (da_user a))"
  using assms
proof (induction vs arbitrary: rows)
  case (Cons nv vs)
  note step = set_custom_value_held [OF Cons.prems, of nv]
  show ?case using Cons.IH [OF conjunct1 [OF step] conjunct2 [OF step] Cons.prems(3)] by simp
qed simp

lemma set_custom_values_held:
  assumes "held S t" "S i (vw_id v)"
  shows "held S (set_custom_values v i vs own t)"
  using assms set_custom_fold_held [of "tb_attributes t" S i v "filter (\<lambda>(n, x). n \<in> set own) vs"]
  by (simp add: set_custom_values_def held_defs)

lemma bind_mappings_held:
  assumes ok: "held S t" and S: "S (iv_id d) (vw_id v)"
  shows "held S (snd (bind_mappings v d ms t))"
proof -
  let ?sel = "filter (\<lambda>m. mapping_resolvable (attributes_on v d t) (vm_property m) (vm_index m))
      (filter (\<lambda>m. vm_id m \<in> set ms \<and> vm_user m = vw_id v) (tb_mappings t))"
  let ?kept = "filter (\<lambda>(m, i). i \<noteq> iv_id d \<or> mapping_user t m \<noteq> Some (vw_id v)) (tb_bound t)"
  have b: "snd (bind_mappings v d ms t) = t\<lparr>tb_bound := ?kept @ map (\<lambda>m. (vm_id m, iv_id d)) ?sel\<rparr>"
    by (simp add: bind_mappings_def Let_def)
  have mu: "x \<in> set (tb_mappings t) \<Longrightarrow> mapping_user t (vm_id x) = Some (vm_user x)" for x
    using ok mapping_user_Some [of t "vm_id x" "vm_user x"] by (auto simp: held_def keys_unique_def)
  have new: "distinct (map (\<lambda>m. (vm_id m, iv_id d)) ?sel)"
    using ok unfolding held_def keys_unique_def
    by (intro distinct_map [THEN iffD2] conjI inj_onI distinct_filter) (auto simp: distinct_map inj_on_def)
  have apart: "set ?kept \<inter> set (map (\<lambda>m. (vm_id m, iv_id d)) ?sel) = {}"
    using mu by auto
  have d: "distinct (?kept @ map (\<lambda>m. (vm_id m, iv_id d)) ?sel)"
    using ok new apart unfolding distinct_append by (simp add: held_def keys_unique_def)
  have "bound_held S (snd (bind_mappings v d ms t))"
    using ok S unfolding b bound_held_def held_def by auto
  then show ?thesis using ok d unfolding b held_def keys_unique_def links_held_def values_held_def by simp
qed

lemma bind_mappings_devices: "tb_devices (snd (bind_mappings v d ms t)) = tb_devices t"
  by (simp add: bind_mappings_def Let_def)

lemma set_custom_values_devices: "tb_devices (set_custom_values v i vs own t) = tb_devices t"
  by (simp add: set_custom_values_def)

section \<open>Rows of devices\<close>

text \<open>A change of a device that keeps its id changes no key.\<close>

lemma change_device_ids: "(\<And>d. iv_id (f d) = iv_id d) \<Longrightarrow> map iv_id (tb_devices (change_device i f t)) = map iv_id (tb_devices t)"
  unfolding change_device_def by (simp add: map_if_same)

lemma change_device_same [simp]:
  "tb_profiles (change_device i f t) = tb_profiles t" "tb_credentials (change_device i f t) = tb_credentials t"
  "tb_attributes (change_device i f t) = tb_attributes t" "tb_mappings (change_device i f t) = tb_mappings t"
  "tb_bound (change_device i f t) = tb_bound t" "tb_properties (change_device i f t) = tb_properties t"
  by (simp_all add: change_device_def)

lemma held_change_device: "held S t \<Longrightarrow> (\<And>d. iv_id (f d) = iv_id d) \<Longrightarrow> held S (change_device i f t)"
  unfolding held_defs by (simp add: change_device_ids del: distinct_map)

lemma change_device_twice:
  assumes "\<And>d. iv_id (g d) = iv_id d"
  shows "change_device i h (change_device i g t) = change_device i (\<lambda>d. h (g d)) t"
  using assms by (simp add: change_device_def)

lemma seen_change_device:
  assumes "\<And>d. iv_id (f d) = iv_id d"
  shows "seen_by (change_device i f t) j u \<longleftrightarrow>
    (\<exists>d\<in>set (tb_devices t). iv_id d = j \<and> (if j = i then iv_global (f d) \<or> iv_user (f d) = Some u else iv_global d \<or> iv_user d = Some u))"
  using assms by (auto simp: seen_by_def change_device_def)

lemma set_system_values_keeps [simp]:
  "iv_id (set_system_values d vs) = iv_id d" "iv_global (set_system_values d vs) = iv_global d"
  "iv_user (set_system_values d vs) = iv_user d"
  by (simp_all add: set_system_values_def)

lemma set_values_held:
  assumes "held S t" "S i (vw_id v)"
  shows "held S (set_values v i vs own t)" "seen_by (set_values v i vs own t) = seen_by t"
    "map iv_id (tb_devices (set_values v i vs own t)) = map iv_id (tb_devices t)"
proof -
  show "map iv_id (tb_devices (set_values v i vs own t)) = map iv_id (tb_devices t)"
    by (cases vs) (simp_all add: set_values_def set_custom_values_devices change_device_ids)
  show "held S (set_values v i vs own t)"
    using assms by (cases vs) (simp_all add: set_values_def set_custom_values_held held_change_device)
  show "seen_by (set_values v i vs own t) = seen_by t"
  proof (cases vs)
    case (Some x)
    have "seen_by (set_custom_values v i x own u) = seen_by u" for u
      by (simp add: seen_by_def [abs_def] set_custom_values_devices)
    moreover have "seen_by (change_device i (\<lambda>d. set_system_values d x) t) = seen_by t"
      by (intro ext) (auto simp: seen_change_device, auto simp: seen_by_def)
    ultimately show ?thesis by (simp add: Some set_values_def)
  qed (simp add: set_values_def)
qed

lemma bind_if_held:
  assumes "held S t" "S i (vw_id v)"
  shows "held S (snd (bind_if v i ms t))" "tb_devices (snd (bind_if v i ms t)) = tb_devices t"
  using assms by (auto simp: bind_if_def find_device_def find_Some_iff bind_mappings_devices
      split: option.split intro!: bind_mappings_held)

text \<open>What the operations between the row and the end of a save keep: the row's viewer may hold it.\<close>

definition hang :: "viewer \<Rightarrow> string \<Rightarrow> string option \<Rightarrow> (string \<times> attribute option) list option \<Rightarrow> string list \<Rightarrow> string list option
    \<Rightarrow> tables \<Rightarrow> tables \<Rightarrow> bool" where
  "hang v i profile vs own ms t1 t3 \<longleftrightarrow>
     (\<exists>t2. link_profile v i profile t1 = Inr t2 \<and> t3 = snd (bind_if v i ms (set_values v i vs own t2)))"

lemma hang_held:
  assumes "hang v i profile vs own ms t1 t3" "held S t1" "S i (vw_id v)"
  shows "held S t3" "seen_by t3 = seen_by t1" "map iv_id (tb_devices t3) = map iv_id (tb_devices t1)"
proof -
  obtain t2 where l: "link_profile v i profile t1 = Inr t2" and t3: "t3 = snd (bind_if v i ms (set_values v i vs own t2))"
    using assms(1) by (auto simp: hang_def)
  have h2: "held S t2" "seen_by t2 = seen_by t1" "tb_devices t2 = tb_devices t1"
    using link_profile_held [OF assms(2,3) l] by (simp_all add: seen_by_def [abs_def])
  have h: "held S (set_values v i vs own t2)" by (rule set_values_held [OF h2(1) assms(3)])
  show "held S t3" unfolding t3 by (rule bind_if_held(1) [of S _ i v]) (use h assms(3) in auto)
  have "seen_by t3 = seen_by (set_values v i vs own t2)"
    unfolding t3 by (simp add: seen_by_def [abs_def] bind_if_held(2) [OF h assms(3)])
  then show "seen_by t3 = seen_by t1" using set_values_held(2) [OF h2(1) assms(3)] h2(2) by simp
  have "tb_devices t3 = tb_devices (set_values v i vs own t2)"
    unfolding t3 by (rule bind_if_held(2) [OF h assms(3)])
  then show "map iv_id (tb_devices t3) = map iv_id (tb_devices t1)"
    using set_values_held(3) [OF h2(1) assms(3), of vs own] h2(3) by simp
qed

section \<open>A device made local\<close>

lemma drop_other_users_tables:
  assumes "iv_user d = Some u"
  shows "snd (drop_other_users d t) =
    t\<lparr>tb_bound := filter (\<lambda>(m, j). \<not> (j = iv_id d \<and> mapping_user t m \<noteq> Some u)) (tb_bound t),
      tb_credentials := filter (\<lambda>c. \<not> (cr_device c = iv_id d \<and> u \<noteq> cr_user c)) (tb_credentials t),
      tb_attributes := filter (\<lambda>a. \<not> (da_device a = iv_id d \<and> u \<noteq> da_user a)) (tb_attributes t)\<rparr>"
  unfolding drop_other_users_def Let_def snd_conv assms option.inject by (rule refl)

lemma make_local_tables:
  assumes d: "d \<in> set (tb_devices t)" "iv_id d = i"
  shows "\<exists>e. e \<in> set (tb_devices (change_device i (\<lambda>d. d\<lparr>iv_user := Some (vw_id v)\<rparr>) t)) \<and> iv_id e = i
    \<and> iv_user e = Some (vw_id v)
    \<and> snd (make_local v i t) = snd (drop_other_users e (change_device i (\<lambda>d. d\<lparr>iv_user := Some (vw_id v)\<rparr>) t))"
proof -
  let ?own = "\<lambda>d. d\<lparr>iv_user := Some (vw_id v)\<rparr>" let ?t = "change_device i ?own t"
  have "?own d \<in> set (tb_devices ?t)" using d by (force simp: change_device_def)
  moreover have "iv_id (?own d) = i" using d by simp
  ultimately obtain e where e: "find_device i ?t = Some e"
    by (cases "find_device i ?t") (auto simp: find_device_def find_None_iff)
  then have e_in: "e \<in> set (tb_devices ?t)" "iv_id e = i" by (auto simp: find_device_def find_Some_iff)
  then have "e \<in> (\<lambda>d. if iv_id d = i then ?own d else d) ` set (tb_devices t)" by (simp add: change_device_def)
  then obtain x where x: "e = (if iv_id x = i then ?own x else x)" by blast
  have eu: "iv_user e = Some (vw_id v)" using x e_in(2) by (cases "iv_id x = i") simp_all
  have "snd (make_local v i t) = snd (drop_other_users e ?t)"
    unfolding make_local_def Let_def e option.case prod.case_eq_if snd_conv ..
  then show ?thesis using e_in eu by blast
qed

lemma make_local_held:
  assumes ok: "held S t" and d: "d \<in> set (tb_devices t)" "iv_id d = i"
    and S: "\<And>j u. S j u \<Longrightarrow> j \<noteq> i \<Longrightarrow> seen_by t j u"
  shows "tables_ok (snd (make_local v i t))"
proof -
  let ?own = "\<lambda>d. d\<lparr>iv_user := Some (vw_id v)\<rparr>" let ?t = "change_device i ?own t"
  have keys: "distinct (map iv_id (tb_devices t))" using ok by (simp add: held_def keys_unique_def)
  have held: "held S ?t" by (rule held_change_device [OF ok]) simp
  obtain e where e_in: "e \<in> set (tb_devices ?t)" "iv_id e = i" and eu: "iv_user e = Some (vw_id v)"
      and out: "snd (make_local v i t) = snd (drop_other_users e ?t)"
    using make_local_tables [OF d, of v] by blast
  let ?final = "snd (drop_other_users e ?t)"
  define S' where "S' = (\<lambda>j u. S j u \<and> (j = i \<longrightarrow> u = vw_id v))"
  have devices: "tb_devices ?final = tb_devices ?t" and profiles: "tb_profiles ?final = tb_profiles ?t"
    and mappings: "tb_mappings ?final = tb_mappings ?t"
    and creds: "tb_credentials ?final = filter (\<lambda>c. \<not> (cr_device c = i \<and> vw_id v \<noteq> cr_user c)) (tb_credentials ?t)"
    and attrs: "tb_attributes ?final = filter (\<lambda>a. \<not> (da_device a = i \<and> vw_id v \<noteq> da_user a)) (tb_attributes ?t)"
    and bound: "tb_bound ?final = filter (\<lambda>(m, j). \<not> (j = i \<and> mapping_user ?t m \<noteq> Some (vw_id v))) (tb_bound ?t)"
    unfolding drop_other_users_tables [OF eu] e_in(2) by simp_all
  have mu: "mapping_user ?t m = Some u \<longleftrightarrow> (\<exists>x\<in>set (tb_mappings ?t). vm_id x = m \<and> vm_user x = u)" for m u
    by (rule mapping_user_Some) (use held in \<open>simp add: held_def keys_unique_def\<close>)
  have "held S' ?final"
    unfolding held_def
  proof (intro conjI)
    show "keys_unique ?final"
      using held unfolding held_def keys_unique_def devices profiles mappings creds attrs bound
      by (simp add: distinct_map_filter)
    show "links_held S' ?final"
      using held unfolding held_def links_held_def profiles creds S'_def by auto
    show "values_held S' ?final"
      using held unfolding held_def values_held_def attrs S'_def by auto
    show "bound_held S' ?final"
      unfolding bound_held_def mappings bound
    proof (clarsimp)
      fix m j assume "(m, j) \<in> set (tb_bound t)" and keep: "j = i \<longrightarrow> mapping_user ?t m = Some (vw_id v)"
      then obtain x where x: "x \<in> set (tb_mappings ?t)" "vm_id x = m" "S j (vm_user x)"
        using held unfolding held_def bound_held_def by auto
      have "j = i \<Longrightarrow> vm_user x = vw_id v" using keep x mu [of m "vm_user x"] by auto
      then show "\<exists>x\<in>set (tb_mappings t). vm_id x = m \<and> S' j (vm_user x)" using x by (auto simp: S'_def)
    qed
  qed
  moreover have "S' j u \<Longrightarrow> seen_by ?final j u" for j u
  proof -
    assume s: "S' j u"
    show "seen_by ?final j u"
    proof (cases "j = i")
      case True
      then show ?thesis using s e_in eu by (auto simp: S'_def seen_by_def devices)
    next
      case False
      then have "seen_by t j u" using s S by (auto simp: S'_def)
      then have "seen_by ?t j u" by (subst seen_change_device) (use False in \<open>auto simp: seen_by_def\<close>)
      then show ?thesis by (simp add: seen_by_def devices)
    qed
  qed
  ultimately show ?thesis unfolding out tables_ok_def by (blast intro: held_mono)
qed

section \<open>Saving\<close>

text \<open>The row of a save: who held something still may, and so may the viewer - unless it was global and isn't.\<close>

lemma saved_row_new:
  assumes ok: "tables_ok t" and fresh: "new_id \<notin> set (map iv_id (tb_devices t))"
    and r: "saved_row collate v new_id None f global t = (i, shared, t1)"
  shows "i = new_id" "tables_ok t1" "seen_by t1 i (vw_id v)"
proof -
  show "i = new_id" using r by (simp add: saved_row_def Let_def)
  have seen: "seen_by t j u \<Longrightarrow> seen_by t1 j u" for j u using r by (auto simp: saved_row_def Let_def seen_by_def)
  have "held (seen_by t) t1"
    using ok r fresh unfolding tables_ok_def held_defs by (auto simp: saved_row_def Let_def)
  then show "tables_ok t1" unfolding tables_ok_def using seen by (rule held_mono)
  show "seen_by t1 i (vw_id v)" using r by (auto simp: saved_row_def Let_def seen_by_def)
qed

lemma saved_row_edit:
  assumes ok: "tables_ok t" and d: "d \<in> set (tb_devices t)"
    and r: "saved_row collate v new_id (Some d) f global t = (i, shared, t1)"
  shows "i = iv_id d" "held (seen_by t) t1" "i \<in> set (map iv_id (tb_devices t1))"
    "\<And>j u. seen_by t j u \<Longrightarrow> j \<noteq> i \<or> global \<or> \<not> iv_global d \<Longrightarrow> seen_by t1 j u"
proof -
  show i: "i = iv_id d" using r by (simp add: saved_row_def Let_def)
  let ?g = "\<lambda>d. d\<lparr>iv_label := df_label f, iv_ip := df_ip f,
     iv_resolved := if is_ip (df_ip f) then None else primary (df_resolved f), iv_port := df_port f\<rparr>"
  let ?h = "\<lambda>d. d\<lparr>iv_type := df_type f, iv_global := global\<rparr>"
  have t1: "t1 = change_device i ?h (change_device i ?g t)" using r i by (simp add: saved_row_def Let_def)
  have "held (seen_by t) t" using ok by (simp add: tables_ok_def)
  then show "held (seen_by t) t1" unfolding t1 by (intro held_change_device) simp_all
  have "map iv_id (tb_devices t1) = map iv_id (tb_devices t)" unfolding t1 by (simp add: change_device_ids)
  then have "set (map iv_id (tb_devices t1)) = set (map iv_id (tb_devices t))" by simp
  then show "i \<in> set (map iv_id (tb_devices t1))" using d i by simp
  have keys: "distinct (map iv_id (tb_devices t))" using ok by (simp add: tables_ok_def held_def keys_unique_def)
  fix j u assume s: "seen_by t j u" and c: "j \<noteq> i \<or> global \<or> \<not> iv_global d"
  then obtain e where e: "e \<in> set (tb_devices t)" "iv_id e = j" "iv_global e \<or> iv_user e = Some u"
    by (auto simp: seen_by_def)
  have same: "j = i \<Longrightarrow> e = d" using e d i keys by (metis distinct_map inj_onD)
  have "t1 = change_device i (\<lambda>d. ?h (?g d)) t" unfolding t1 by (rule change_device_twice) simp
  then show "seen_by t1 j u" using e c same by (simp add: seen_change_device) blast
qed

definition was_global :: "inventory_device option \<Rightarrow> bool" where
  "was_global dev \<longleftrightarrow> (case dev of None \<Rightarrow> False | Some d \<Rightarrow> iv_global d)"

definition becomes_global :: "viewer \<Rightarrow> device_fields \<Rightarrow> inventory_device option \<Rightarrow> bool" where
  "becomes_global v f dev \<longleftrightarrow> (if vw_admin v then df_global f else was_global dev)"

lemma save_device_parts:
  assumes "save_device collate v new_id dev f vs own ms t = Inr (saved, t4)"
  shows "\<exists>i shared t1 t3. saved_row collate v new_id dev f (becomes_global v f dev) t = (i, shared, t1)
    \<and> hang v i (df_profile f) vs own ms t1 t3
    \<and> t4 = (if was_global dev \<and> \<not> becomes_global v f dev then snd (make_local v i t3) else t3)"
proof -
  let ?was = "was_global dev" let ?global = "becomes_global v f dev"
  note save = save_device_def [folded was_global_def, unfolded Let_def, folded becomes_global_def]
  obtain i shared t1 where r: "saved_row collate v new_id dev f ?global t = (i, shared, t1)" by (metis prod_cases3)
  obtain t2 where l: "link_profile v i (df_profile f) t1 = Inr t2"
    using assms by (cases "link_profile v i (df_profile f) t1") (simp_all add: save r split: if_splits)
  have "hang v i (df_profile f) vs own ms t1 (snd (bind_if v i ms (set_values v i vs own t2)))"
    using l by (auto simp: hang_def)
  moreover have "t4 = (if ?was \<and> \<not> ?global then snd (make_local v i (snd (bind_if v i ms (set_values v i vs own t2))))
      else snd (bind_if v i ms (set_values v i vs own t2)))"
  proof -
    obtain ub t3 where b: "bind_if v i ms (set_values v i vs own t2) = (ub, t3)" by fastforce
    obtain rm t5 where m: "make_local v i t3 = (rm, t5)" by fastforce
    show ?thesis using assms unfolding save r prod.case l sum.case b m snd_conv
      by (auto split: if_split_asm)
  qed
  ultimately show ?thesis using r by blast
qed

lemma save_new_ok:
  assumes ok: "tables_ok t" and fresh: "new_id \<notin> set (map iv_id (tb_devices t))"
    and r: "save_device collate v new_id None f vs own ms t = Inr (saved, t')"
  shows "tables_ok t'"
proof -
  obtain i shared t1 t3 where p: "saved_row collate v new_id None f (becomes_global v f None) t = (i, shared, t1)"
      "hang v i (df_profile f) vs own ms t1 t3"
      "t' = (if was_global None \<and> \<not> becomes_global v f None then snd (make_local v i t3) else t3)"
    using save_device_parts [OF r] by blast
  note row = saved_row_new [OF ok fresh p(1)]
  have "held (seen_by t1) t1" using row(2) by (simp add: tables_ok_def)
  note h = hang_held [OF p(2) this row(3)]
  show ?thesis using p(3) h(1) unfolding was_global_def tables_ok_def h(2) [symmetric] by simp
qed

lemma save_edit_ok:
  assumes ok: "tables_ok t" and d: "d \<in> set (tb_devices t)" "can_edit v d"
    and r: "save_device collate v new_id (Some d) f vs own ms t = Inr (saved, t')"
  shows "tables_ok t'"
proof -
  let ?global = "becomes_global v f (Some d)"
  obtain i shared t1 t3 where p: "saved_row collate v new_id (Some d) f ?global t = (i, shared, t1)"
      "hang v i (df_profile f) vs own ms t1 t3"
      "t' = (if was_global (Some d) \<and> \<not> ?global then snd (make_local v i t3) else t3)"
    using save_device_parts [OF r] by blast
  note row = saved_row_edit [OF ok d(1) p(1)]
  have "seen_by t i (vw_id v)" using d row(1) by (auto simp: seen_by_def can_edit_def)
  note h = hang_held [OF p(2) row(2) this]
  show ?thesis
  proof (cases "was_global (Some d) \<and> \<not> ?global")
    case False
    then have "?global \<or> \<not> iv_global d" by (auto simp: was_global_def)
    then have "seen_by t j u \<Longrightarrow> seen_by t3 j u" for j u unfolding h(2) using row(4) by blast
    then show ?thesis using h(1) p(3) False unfolding tables_ok_def by (auto intro: held_mono)
  next
    case True
    obtain e where e: "e \<in> set (tb_devices t3)" "iv_id e = i"
      using row(3) unfolding h(3) [symmetric] by auto
    show ?thesis using p(3) True make_local_held [OF h(1) e] row(4) h(2) by simp
  qed
qed

section \<open>The requests\<close>

lemma tables_okI: "held S t \<Longrightarrow> (\<And>i u. S i u \<Longrightarrow> seen_by t i u) \<Longrightarrow> tables_ok t"
  unfolding tables_ok_def by (rule held_mono)

lemma seen_same_devices: "tb_devices t' = tb_devices t \<Longrightarrow> seen_by t' = seen_by t"
  by (simp add: seen_by_def [abs_def])

lemma remove_devices_ok:
  assumes "tables_ok t" shows "tables_ok (remove_devices gone t)"
proof -
  define S where "S = (\<lambda>i u. seen_by t i u \<and> i \<notin> set (map iv_id (filter gone (tb_devices t))))"
  have "held S (remove_devices gone t)"
    using assms unfolding tables_ok_def held_defs S_def by (auto simp: remove_devices_def Let_def distinct_map_filter)
  then show ?thesis by (rule tables_okI) (auto simp: S_def seen_by_def remove_devices_def Let_def)
qed

lemma remove_profiles_ok:
  assumes "tables_ok t" shows "tables_ok (remove_profiles gone t)"
proof -
  have "links_held (seen_by t) (remove_profiles gone t)"
    unfolding links_held_def
  proof
    fix c assume "c \<in> set (tb_credentials (remove_profiles gone t))"
    then have c: "c \<in> set (tb_credentials t)"
      "\<And>s. s \<in> set (tb_profiles t) \<Longrightarrow> gone s \<Longrightarrow> sc_id s = cr_profile c \<Longrightarrow> sc_user s \<noteq> cr_user c"
      by (auto simp: remove_profiles_def list_ex_iff)
    then obtain s where "seen_by t (cr_device c) (cr_user c)" "s \<in> set (tb_profiles t)" "sc_id s = cr_profile c" "sc_user s = cr_user c"
      using assms unfolding tables_ok_def held_def links_held_def by blast
    then show "seen_by t (cr_device c) (cr_user c)
        \<and> (\<exists>s\<in>set (tb_profiles (remove_profiles gone t)). sc_id s = cr_profile c \<and> sc_user s = cr_user c)"
      using c(2) by (auto simp: remove_profiles_def)
  qed
  moreover have "seen_by (remove_profiles gone t) = seen_by t" by (rule seen_same_devices) (simp add: remove_profiles_def)
  ultimately show ?thesis using assms
    unfolding tables_ok_def held_def keys_unique_def bound_held_def values_held_def
    by (simp add: remove_profiles_def distinct_map_filter)
qed

lemma remove_mappings_ok:
  assumes "tables_ok t" shows "tables_ok (remove_mappings gone t)"
proof -
  have "bound_held (seen_by t) (remove_mappings gone t)"
    unfolding bound_held_def
  proof (clarsimp simp: remove_mappings_def)
    fix m i assume b: "(m, i) \<in> set (tb_bound t)" and m: "m \<notin> vm_id ` {x \<in> set (tb_mappings t). gone x}"
    then obtain x where "x \<in> set (tb_mappings t)" "vm_id x = m" "seen_by t i (vm_user x)"
      using assms unfolding tables_ok_def held_def bound_held_def by blast
    then show "\<exists>x. x \<in> set (tb_mappings t) \<and> \<not> gone x \<and> vm_id x = m \<and> seen_by t i (vm_user x)" using m by blast
  qed
  moreover have "seen_by (remove_mappings gone t) = seen_by t" by (rule seen_same_devices) (simp add: remove_mappings_def)
  ultimately show ?thesis using assms
    unfolding tables_ok_def held_def keys_unique_def links_held_def values_held_def
    by (simp add: remove_mappings_def distinct_map_filter)
qed

lemma delete_user_ok:
  assumes "tables_ok t" shows "tables_ok (delete_user u t)"
proof -
  define t2 where "t2 = remove_mappings (\<lambda>m. vm_user m = u) (remove_profiles (\<lambda>s. sc_user s = u)
    (remove_devices (\<lambda>d. iv_user d = Some u \<and> \<not> iv_global d) t))"
  have ok: "tables_ok t2" unfolding t2_def by (intro remove_mappings_ok remove_profiles_ok remove_devices_ok assms)
  have only_global: "d \<in> set (tb_devices t2) \<Longrightarrow> iv_user d = Some u \<Longrightarrow> iv_global d" for d
    by (auto simp: t2_def remove_mappings_def remove_profiles_def remove_devices_def Let_def)
  have mine: "x \<in> set (tb_mappings t2) \<Longrightarrow> vm_user x \<noteq> u" for x by (auto simp: t2_def remove_mappings_def)
  let ?out = "delete_user u t"
  have out: "?out = t2\<lparr>tb_devices := map (\<lambda>d. if iv_user d = Some u then d\<lparr>iv_user := None\<rparr> else d) (tb_devices t2),
            tb_credentials := filter (\<lambda>c. cr_user c \<noteq> u) (tb_credentials t2),
            tb_attributes := filter (\<lambda>a. da_user a \<noteq> u) (tb_attributes t2),
            tb_properties := filter (\<lambda>p. op_user p \<noteq> u) (tb_properties t2)\<rparr>"
    by (simp add: delete_user_def t2_def Let_def)
  have ids: "map iv_id (tb_devices ?out) = map iv_id (tb_devices t2)" unfolding out by (simp add: map_if_same)
  define S where "S = (\<lambda>i w. seen_by t2 i w \<and> w \<noteq> u)"
  have "held S ?out"
    using ok mine unfolding tables_ok_def held_def keys_unique_def ids
    by (auto simp: out S_def links_held_def values_held_def bound_held_def distinct_map_filter)
  then show ?thesis
  proof (rule tables_okI)
    fix i w assume s: "S i w"
    then obtain d where d: "d \<in> set (tb_devices t2)" "iv_id d = i" "iv_global d \<or> iv_user d = Some w" "w \<noteq> u"
      by (auto simp: S_def seen_by_def)
    let ?d = "if iv_user d = Some u then d\<lparr>iv_user := None\<rparr> else d"
    have "?d \<in> set (tb_devices ?out)" using d(1) by (force simp: out)
    moreover have "iv_id ?d = i \<and> (iv_global ?d \<or> iv_user ?d = Some w)" using d only_global [OF d(1)] by auto
    ultimately show "seen_by ?out i w" unfolding seen_by_def by blast
  qed
qed

lemma link_profile_ok: "tables_ok t \<Longrightarrow> seen_by t i (vw_id v) \<Longrightarrow> link_profile v i p t = Inr t' \<Longrightarrow> tables_ok t'"
  unfolding tables_ok_def using link_profile_held [of "seen_by t" t i v p t'] seen_same_devices [of t' t] by simp

lemma link_each_ok: "tables_ok t \<Longrightarrow> link_each v p ids t = Some t' \<Longrightarrow> tables_ok t'"
proof (induction ids arbitrary: t)
  case (Cons i ids)
  then show ?case
    by (auto split: option.splits sum.splits intro: link_profile_ok dest: visible_seen)
qed simp

lemma devices_change_ok:
  assumes "tables_ok t" "map iv_id ds = map iv_id (tb_devices t)" "seen_by (t\<lparr>tb_devices := ds\<rparr>) = seen_by t"
  shows "tables_ok (t\<lparr>tb_devices := ds\<rparr>)"
  using assms(1,2) unfolding tables_ok_def assms(3) held_def keys_unique_def links_held_def values_held_def bound_held_def
  by (simp del: distinct_map)

lemma remember_ok:
  assumes "tables_ok t" shows "tables_ok (snd (remember_addresses v ids found t))"
proof -
  let ?t = "snd (remember_addresses v ids found t)"
  have ids: "map iv_id (tb_devices ?t) = map iv_id (tb_devices t)"
    unfolding remember_addresses_def by (simp add: map_if_same)
  have devices: "tb_devices ?t = map (\<lambda>d. if remembers v ids found d then d\<lparr>iv_resolved := found (iv_ip d)\<rparr> else d) (tb_devices t)"
    by (simp add: remember_addresses_def)
  have "seen_by ?t i w \<longleftrightarrow> seen_by t i w" for i w
    unfolding seen_by_def devices bex_map by (rule bex_cong) auto
  then have "seen_by ?t = seen_by t" by (intro ext)
  moreover have "?t = t\<lparr>tb_devices := tb_devices ?t\<rparr>" by (simp add: remember_addresses_def)
  ultimately show ?thesis using assms ids devices_change_ok by metis
qed

lemma own_attributes_ok:
  assumes ok: "tables_ok t" and r: "inventory_attributes collate v i p form ms t = Some t'"
  shows "tables_ok t'"
proof -
  obtain d where d: "get_visible v i t = Some d" using r by (auto simp: inventory_attributes_def split: option.splits)
  have seen: "seen_by t i (vw_id v)" using visible_seen [OF d] .
  have id: "iv_id d = i" using find_visible [OF d] by simp
  obtain t1 where l: "(case p of None \<Rightarrow> Inr t | Some p \<Rightarrow> link_profile v i p t) = Inr t1"
    using r d by (auto simp: inventory_attributes_def split: sum.splits)
  have ok1: "tables_ok t1" "tb_devices t1 = tb_devices t"
    using l ok seen link_profile_held(2) [of "seen_by t" t i v _ t1]
    by (auto simp: tables_ok_def split: option.splits dest: link_profile_ok [unfolded tables_ok_def])
  obtain vs own where t': "t' = snd (bind_mappings v d ms (set_custom_values v i vs own t1))"
    using r d l by (auto simp: inventory_attributes_def Let_def)
  have "seen_by t1 = seen_by t" by (rule seen_same_devices [OF ok1(2)])
  moreover have "seen_by t' = seen_by t"
    by (rule seen_same_devices) (simp add: t' bind_mappings_devices set_custom_values_devices ok1(2))
  moreover have "held (seen_by t) t1" using ok1(1) calculation(1) by (simp add: tables_ok_def)
  then have "held (seen_by t) (set_custom_values v i vs own t1)" using seen by (rule set_custom_values_held)
  then have "held (seen_by t) t'" unfolding t' by (rule bind_mappings_held) (simp add: id seen)
  ultimately show ?thesis by (simp add: tables_ok_def)
qed

lemma bulk_assign_ok:
  assumes ok: "tables_ok t" and r: "mappings_bulk_assign v i ds rs t = Some t'"
  shows "tables_ok t'"
proof -
  obtain m where m: "owned_mapping v i t = Some m" using r by (auto simp: mappings_bulk_assign_def split: if_splits option.splits)
  then have m_in: "m \<in> set (tb_mappings t)" "vm_id m = i" "vm_user m = vw_id v"
    by (auto simp: owned_mapping_def find_Some_iff split: option.splits if_splits)
  define old where "old = map snd (filter (\<lambda>(x, j). x = i) (tb_bound t))"
  define added where "added = filter (assignable v m old t) ds"
  define kept where "kept = filter (\<lambda>(x, j). \<not> (x = i \<and> j \<in> set rs)) (tb_bound t)"
  have t': "t' = t\<lparr>tb_bound := kept @ map (\<lambda>j. (i, j)) added\<rparr>" and d: "distinct added"
    using r m by (auto simp: mappings_bulk_assign_def Let_def old_def added_def kept_def split: if_splits)
  have "set kept \<inter> set (map (\<lambda>j. (i, j)) added) = {}"
    by (force simp: kept_def added_def old_def assignable_def split: option.splits)
  moreover have "distinct kept" using ok by (simp add: kept_def tables_ok_def held_def keys_unique_def)
  moreover have "distinct (map (\<lambda>j. (i, j)) added)" using d by (simp add: distinct_map inj_on_def)
  ultimately have "distinct (tb_bound t')" by (simp add: t')
  moreover have "bound_held (seen_by t) t'"
    unfolding bound_held_def
  proof (clarsimp simp: t')
    fix x j assume "(x, j) \<in> set kept \<or> (x, j) \<in> (\<lambda>j. (i, j)) ` set added"
    then show "\<exists>xa\<in>set (tb_mappings t). vm_id xa = x \<and> seen_by t j (vm_user xa)"
    proof
      assume "(x, j) \<in> set kept"
      then show ?thesis using ok by (auto simp: kept_def tables_ok_def held_def bound_held_def)
    next
      assume "(x, j) \<in> (\<lambda>j. (i, j)) ` set added"
      then have "x = i" "assignable v m old t j" by (auto simp: added_def)
      then show ?thesis using m_in by (auto simp: assignable_def split: option.splits dest: visible_seen intro!: bexI [of _ m])
    qed
  qed
  moreover have "seen_by t' = seen_by t" by (rule seen_same_devices) (simp add: t')
  ultimately show ?thesis
    using ok unfolding tables_ok_def held_def keys_unique_def links_held_def values_held_def by (simp add: t')
qed

end
