(* ===== verification/Inventory_Properties.thy ===== *)
theory Inventory_Properties
  imports Inventory_Invariants
begin

text \<open>
  What the inventory promises its users: whatever the requests, nobody holds anything on a device they can't
  see, a login is the viewer's own, and a request of one user takes from another only what is on devices that
  one no longer sees.
\<close>

section \<open>Every request keeps the invariant\<close>

lemma distinct_map_eq: "distinct (map f xs) \<Longrightarrow> x \<in> set xs \<Longrightarrow> y \<in> set xs \<Longrightarrow> f x = f y \<Longrightarrow> x = y"
  by (simp add: distinct_map inj_on_def)

text \<open>A change of profiles or mappings that keeps their ids and users.\<close>

lemma change_profiles_ok:
  assumes ok: "tables_ok t" and f: "\<And>x. sc_id (f x) = sc_id x" "\<And>x. sc_user (f x) = sc_user x"
  shows "tables_ok (t\<lparr>tb_profiles := map f (tb_profiles t)\<rparr>)"
proof -
  have "sc_id \<circ> f = sc_id" using f by (intro ext) simp
  moreover have "links_held (seen_by t) (t\<lparr>tb_profiles := map f (tb_profiles t)\<rparr>)"
    using ok f unfolding tables_ok_def held_def links_held_def by simp
  moreover have "seen_by (t\<lparr>tb_profiles := map f (tb_profiles t)\<rparr>) = seen_by t" by (rule seen_same_devices) simp
  ultimately show ?thesis
    using ok unfolding tables_ok_def held_def keys_unique_def values_held_def bound_held_def by simp
qed

lemma change_mappings_ok:
  assumes ok: "tables_ok t" and f: "\<And>x. vm_id (f x) = vm_id x" "\<And>x. vm_user (f x) = vm_user x"
  shows "tables_ok (t\<lparr>tb_mappings := map f (tb_mappings t)\<rparr>)"
proof -
  have "vm_id \<circ> f = vm_id" using f by (intro ext) simp
  moreover have "bound_held (seen_by t) (t\<lparr>tb_mappings := map f (tb_mappings t)\<rparr>)"
    using ok f unfolding tables_ok_def held_def bound_held_def by simp
  moreover have "seen_by (t\<lparr>tb_mappings := map f (tb_mappings t)\<rparr>) = seen_by t" by (rule seen_same_devices) simp
  ultimately show ?thesis
    using ok unfolding tables_ok_def held_def keys_unique_def values_held_def links_held_def by simp
qed

lemma perform_ok: "tables_ok t \<Longrightarrow> perform collate cipher r t = Some t' \<Longrightarrow> tables_ok t'"
proof (cases r)
  case (Create_Device v i f)
  assume "tables_ok t" "perform collate cipher r t = Some t'"
  then show ?thesis
    by (auto simp: Create_Device inventory_create_def split: if_splits sum.splits intro: save_new_ok [unfolded set_map])
next
  case (Edit_Device v i f form ms)
  assume "tables_ok t" "perform collate cipher r t = Some t'"
  then show ?thesis
    by (auto simp: Edit_Device inventory_edit_def Let_def split: option.splits sum.splits prod.splits dest!: find_editable intro: save_edit_ok)
next
  case (Own_Attributes v i p form ms)
  assume "tables_ok t" "perform collate cipher r t = Some t'"
  then show ?thesis by (simp add: Own_Attributes own_attributes_ok)
next
  case (Delete_Device v i)
  assume "tables_ok t" "perform collate cipher r t = Some t'"
  then show ?thesis by (auto simp: Delete_Device inventory_delete_def split: option.splits intro: remove_devices_ok)
next
  case (Link_Devices v p ids)
  assume "tables_ok t" "perform collate cipher r t = Some t'"
  then show ?thesis by (auto simp: Link_Devices inventory_bulk_assign_def split: if_splits intro: link_each_ok)
next
  case (Remember v ids found)
  assume "tables_ok t" "perform collate cipher r t = Some t'"
  then show ?thesis by (auto simp: Remember intro: remember_ok)
next
  case (Create_Profile v i l u p s)
  assume "tables_ok t" "perform collate cipher r t = Some t'"
  then show ?thesis
    by (auto simp: Create_Profile security_create_def create_profile_def tables_ok_def held_defs seen_by_def split: if_splits)
next
  case (Edit_Profile v i l u p s c)
  assume "tables_ok t" "perform collate cipher r t = Some t'"
  then show ?thesis
    by (auto simp: Edit_Profile security_edit_def update_profile_def split: option.splits intro!: change_profiles_ok)
next
  case (Delete_Profile v i)
  assume "tables_ok t" "perform collate cipher r t = Some t'"
  then show ?thesis by (auto simp: Delete_Profile security_delete_def split: option.splits intro: remove_profiles_ok)
next
  case (Create_Mapping v i tok p n)
  assume "tables_ok t" "perform collate cipher r t = Some t'"
  then show ?thesis
    by (auto simp: Create_Mapping mappings_create_def tables_ok_def held_defs seen_by_def Let_def split: if_splits)
next
  case (Edit_Mapping v i tok p n)
  assume "tables_ok t" "perform collate cipher r t = Some t'"
  then show ?thesis
    by (auto simp: Edit_Mapping mappings_edit_def Let_def split: option.splits if_splits intro!: change_mappings_ok)
next
  case (Delete_Mapping v i)
  assume "tables_ok t" "perform collate cipher r t = Some t'"
  then show ?thesis by (auto simp: Delete_Mapping mappings_delete_def split: option.splits intro: remove_mappings_ok)
next
  case (Assign_Mapping v i ds rs)
  assume "tables_ok t" "perform collate cipher r t = Some t'"
  then show ?thesis by (simp add: Assign_Mapping bulk_assign_ok)
next
  case (Create_Property v i p)
  assume "tables_ok t" "perform collate cipher r t = Some t'"
  then show ?thesis
    by (auto simp: Create_Property properties_create_def tables_ok_def held_defs seen_by_def split: if_splits)
next
  case (Delete_Property v i)
  assume "tables_ok t" "perform collate cipher r t = Some t'"
  then show ?thesis
    by (auto simp: Delete_Property properties_delete_def delete_property_values_def tables_ok_def held_defs seen_by_def Let_def
        distinct_map_filter split: option.splits)
next
  case (Delete_User u)
  assume "tables_ok t" "perform collate cipher r t = Some t'"
  then show ?thesis by (auto simp: Delete_User intro: delete_user_ok)
qed

lemma no_tables_ok: "tables_ok no_tables"
  by (simp add: tables_ok_def held_defs no_tables_def)

lemma perform_all_ok: "tables_ok (perform_all collate cipher rs no_tables)"
proof -
  have "tables_ok t \<Longrightarrow> tables_ok (perform_all collate cipher rs t)" for t
    unfolding perform_all_def
  proof (induction rs arbitrary: t)
    case (Cons r rs)
    then show ?case by (auto split: option.split intro: perform_ok)
  qed simp
  then show ?thesis using no_tables_ok by blast
qed

section \<open>Who holds what\<close>

text \<open>Everything on a device - a link, a custom value, a binding of one of one's mappings - is of a user who sees the
  device, there is one of each, and the profile a user logs in with is their own.\<close>

definition holdings_private :: "tables \<Rightarrow> bool" where
  "holdings_private t \<longleftrightarrow>
     list_all (\<lambda>c. list_ex (\<lambda>d. iv_id d = cr_device c \<and> sees \<lparr>vw_id = cr_user c, vw_admin = False\<rparr> d) (tb_devices t)) (tb_credentials t)
     \<and> list_all (\<lambda>a. list_ex (\<lambda>d. iv_id d = da_device a \<and> sees \<lparr>vw_id = da_user a, vw_admin = False\<rparr> d) (tb_devices t)) (tb_attributes t)
     \<and> list_all (\<lambda>(m, i). list_ex (\<lambda>x. vm_id x = m
         \<and> list_ex (\<lambda>d. iv_id d = i \<and> sees \<lparr>vw_id = vm_user x, vw_admin = False\<rparr> d) (tb_devices t)) (tb_mappings t)) (tb_bound t)
     \<and> distinct (map (\<lambda>c. (cr_device c, cr_user c)) (tb_credentials t))
     \<and> distinct (map (\<lambda>a. (da_device a, da_user a, da_name a)) (tb_attributes t)) \<and> distinct (tb_bound t)"

lemma tables_ok_private: "tables_ok t \<Longrightarrow> holdings_private t"
  unfolding tables_ok_def held_defs holdings_private_def seen_by_def sees_def list_all_iff list_ex_iff by fastforce

lemma profile_on_own:
  assumes "tables_ok t" shows "case profile_on v i t of None \<Rightarrow> True | Some s \<Rightarrow> sc_user s = vw_id v"
proof (cases "links_of v i t")
  case Nil then show ?thesis by (simp add: profile_on_def Let_def)
next
  case (Cons x xs)
  then have "last (links_of v i t) \<in> set (links_of v i t)" by simp
  then obtain c s where c: "c \<in> set (tb_credentials t)" "cr_user c = vw_id v"
      and s: "s \<in> set (tb_profiles t)" "sc_id s = cr_profile c" "last (links_of v i t) = s"
    by (auto simp: links_of_def simp del: last_in_set)
  obtain s' where s': "s' \<in> set (tb_profiles t)" "sc_id s' = cr_profile c" "sc_user s' = cr_user c"
    using assms c(1) unfolding tables_ok_def held_def links_held_def by blast
  have "distinct (map sc_id (tb_profiles t))" using assms by (simp add: tables_ok_def held_def keys_unique_def)
  then have "s' = s" by (rule distinct_map_eq [OF _ s'(1) s(1)]) (simp add: s(2) s'(2))
  then show ?thesis using Cons s c s' by (auto simp: profile_on_def Let_def)
qed

text \<open>C20: Whatever requests the users and admins send - devices added, edited, shared, made local, deleted,
  profiles, values, mappings, bindings, users deleted -, nobody holds anything on a device they can't see,
  nothing is there twice, and the profile a user logs in with on a device is one of their own.\<close>

theorem nobody_holds_the_unseen:
  "(let t = perform_all collate cipher rs no_tables in
    holdings_private t \<and> (case profile_on v i t of None \<Rightarrow> True | Some s \<Rightarrow> sc_user s = vw_id v))"
  unfolding Let_def using perform_all_ok tables_ok_private profile_on_own by blast

section \<open>What a request leaves to the others\<close>

definition mappings_of :: "string \<Rightarrow> tables \<Rightarrow> variable_mapping list" where
  "mappings_of u t = filter (\<lambda>m. vm_user m = u) (tb_mappings t)"

definition profiles_of :: "string \<Rightarrow> tables \<Rightarrow> security_profile list" where
  "profiles_of u t = filter (\<lambda>s. sc_user s = u) (tb_profiles t)"

definition links_by :: "string \<Rightarrow> tables \<Rightarrow> device_credential list" where
  "links_by u t = filter (\<lambda>c. cr_user c = u) (tb_credentials t)"

definition values_by :: "string \<Rightarrow> tables \<Rightarrow> device_attribute list" where
  "values_by u t = filter (\<lambda>a. da_user a = u) (tb_attributes t)"

definition bound_by :: "string \<Rightarrow> tables \<Rightarrow> (string \<times> string) list" where
  "bound_by u t = filter (\<lambda>(m, i). m \<in> set (map vm_id (mappings_of u t))) (tb_bound t)"

text \<open>What a user has after is what they had, on the devices \<open>S\<close> keeps.\<close>

definition keeps :: "(string \<Rightarrow> bool) \<Rightarrow> string \<Rightarrow> tables \<Rightarrow> tables \<Rightarrow> bool" where
  "keeps S u t t' \<longleftrightarrow> profiles_of u t' = profiles_of u t \<and> mappings_of u t' = mappings_of u t
     \<and> links_by u t' = filter (\<lambda>c. S (cr_device c)) (links_by u t)
     \<and> values_by u t' = filter (\<lambda>a. S (da_device a)) (values_by u t)
     \<and> bound_by u t' = filter (\<lambda>(m, i). S i) (bound_by u t)"

lemmas keeps_defs = keeps_def profiles_of_def mappings_of_def links_by_def values_by_def bound_by_def

lemma keeps_trans: "keeps S u t t1 \<Longrightarrow> keeps S' u t1 t2 \<Longrightarrow> keeps (\<lambda>i. S i \<and> S' i) u t t2"
  by (auto simp: keeps_def conj_commute case_prod_beta intro!: filter_cong)

abbreviation keeps_all :: "string \<Rightarrow> tables \<Rightarrow> tables \<Rightarrow> bool" where
  "keeps_all u t t' \<equiv> keeps (\<lambda>i. True) u t t'"

lemma keeps_all_refl: "keeps_all u t t"
  by (simp add: keeps_def)

lemma keeps_all_trans: "keeps_all u t t1 \<Longrightarrow> keeps_all u t1 t2 \<Longrightarrow> keeps_all u t t2"
  using keeps_trans [of "\<lambda>_. True" u t t1 "\<lambda>_. True" t2] by simp

lemma keeps_all_devices: "keeps_all u t (t\<lparr>tb_devices := ds\<rparr>)"
  by (simp add: keeps_defs)

lemma keeps_all_change: "keeps_all u t (change_device i f t)"
  by (simp add: keeps_defs)

text \<open>Devices the user doesn't see any more may be left out: everything else is kept.\<close>

lemma keeps_seen:
  assumes "tables_ok t" "tables_ok t'" "keeps S u t t'" "\<And>i. seen_by t i u \<Longrightarrow> seen_by t' i u \<Longrightarrow> S i"
  shows "keeps (\<lambda>i. seen_by t' i u) u t t'"
proof -
  have seen: "c \<in> set (links_by u x) \<Longrightarrow> seen_by x (cr_device c) u"
      "a \<in> set (values_by u x) \<Longrightarrow> seen_by x (da_device a) u" "tables_ok x" if "tables_ok x" for x c a
    using that unfolding tables_ok_def held_def links_held_def values_held_def links_by_def values_by_def by auto
  have seen_b: "(m, i) \<in> set (bound_by u x) \<Longrightarrow> seen_by x i u" if ok: "tables_ok x" for x m i
  proof -
    assume "(m, i) \<in> set (bound_by u x)"
    then obtain y where y: "y \<in> set (tb_mappings x)" "vm_id y = m" "vm_user y = u" "(m, i) \<in> set (tb_bound x)"
      by (auto simp: bound_by_def mappings_of_def)
    then obtain z where z: "z \<in> set (tb_mappings x)" "vm_id z = m" "seen_by x i (vm_user z)"
      using ok unfolding tables_ok_def held_def bound_held_def by blast
    have "distinct (map vm_id (tb_mappings x))" using ok by (simp add: tables_ok_def held_def keys_unique_def)
    then have "z = y" by (rule distinct_map_eq [OF _ z(1) y(1)]) (simp add: y(2) z(2))
    then show ?thesis using z y by simp
  qed
  note k = assms(3) [unfolded keeps_def]
  have "links_by u t' = filter (\<lambda>c. seen_by t' (cr_device c) u) (links_by u t)"
    using k seen(1) [OF assms(1)] seen(1) [OF assms(2)] assms(4) by (auto intro!: filter_cong)
  moreover have "values_by u t' = filter (\<lambda>a. seen_by t' (da_device a) u) (values_by u t)"
    using k seen(2) [OF assms(1)] seen(2) [OF assms(2)] assms(4) by (auto intro!: filter_cong)
  moreover have "bound_by u t' = filter (\<lambda>(m, i). seen_by t' i u) (bound_by u t)"
    using k seen_b [OF assms(1)] seen_b [OF assms(2)] assms(4) by (auto intro!: filter_cong)
  ultimately show ?thesis using k by (simp add: keeps_def)
qed

lemma filter_map_other:
  "(\<And>x. P (f x) = P x) \<Longrightarrow> (\<And>x. P x \<Longrightarrow> f x = x) \<Longrightarrow> filter P (map f xs) = filter P xs"
  by (induction xs) auto

lemma filter_map_none: "(\<And>x. x \<in> set xs \<Longrightarrow> f x \<notin> A) \<Longrightarrow> filter (\<lambda>(m, i). m \<in> A) (map (\<lambda>x. (f x, c)) xs) = []"
  by (induction xs) auto

lemma filter_filter_other: "(\<And>x. x \<in> set xs \<Longrightarrow> P x \<Longrightarrow> Q x) \<Longrightarrow> filter P (filter Q xs) = filter P xs"
  by (induction xs) auto

lemma link_profile_keeps:
  assumes "vw_id v \<noteq> u" "link_profile v i p t = Inr t'"
  shows "keeps_all u t t'"
proof -
  obtain cs where t': "t' = t\<lparr>tb_credentials := cs\<rparr>" and cs: "cs = (case p of
           None \<Rightarrow> filter (\<lambda>c. \<not> is_link v i c) (tb_credentials t)
         | Some p \<Rightarrow> if list_ex (is_link v i) (tb_credentials t)
             then map (\<lambda>c. if is_link v i c then c\<lparr>cr_profile := p\<rparr> else c) (tb_credentials t)
             else tb_credentials t @ [\<lparr>cr_device = i, cr_user = vw_id v, cr_profile = p\<rparr>])"
    using assms(2) by (simp add: link_profile_def split: if_splits)
  have "filter (\<lambda>c. cr_user c = u) cs = filter (\<lambda>c. cr_user c = u) (tb_credentials t)"
    using assms(1) by (auto simp: cs is_link_def split: option.split intro!: filter_map_other filter_cong [OF refl])
  then show ?thesis by (simp add: t' keeps_defs)
qed

lemma set_custom_value_keeps:
  "vw_id v \<noteq> u \<Longrightarrow> filter (\<lambda>a. da_user a = u) (set_custom_value v i nv rows) = filter (\<lambda>a. da_user a = u) rows"
  by (auto simp: set_custom_value_def is_own_value_def Let_def split: prod.split option.split
      intro!: filter_map_other filter_cong [OF refl])

lemma set_custom_values_keeps: "vw_id v \<noteq> u \<Longrightarrow> keeps_all u t (set_custom_values v i vs own t)"
proof -
  assume "vw_id v \<noteq> u"
  then have "filter (\<lambda>a. da_user a = u) (fold (set_custom_value v i) ns rows) = filter (\<lambda>a. da_user a = u) rows" for ns rows
    by (induction ns arbitrary: rows) (simp_all add: set_custom_value_keeps)
  then show ?thesis by (simp add: set_custom_values_def keeps_defs)
qed

lemma mapping_user_of:
  assumes "keys_unique t" "m \<in> set (map vm_id (mappings_of u t))" shows "mapping_user t m = Some u"
  using assms mapping_user_Some [of t m u] by (auto simp: mappings_of_def keys_unique_def)

lemma mapping_id_of:
  assumes "keys_unique t" "x \<in> set (tb_mappings t)" "vm_id x \<in> set (map vm_id (mappings_of u t))" shows "vm_user x = u"
  using mapping_user_of [OF assms(1,3)] mapping_user_Some [of t "vm_id x" "vm_user x"] assms(1,2) by (auto simp: keys_unique_def)

lemma bind_mappings_keeps:
  assumes k: "keys_unique t" and v: "vw_id v \<noteq> u"
  shows "keeps_all u t (snd (bind_mappings v d ms t))"
proof -
  let ?sel = "filter (\<lambda>m. mapping_resolvable (attributes_on v d t) (vm_property m) (vm_index m))
      (filter (\<lambda>m. vm_id m \<in> set ms \<and> vm_user m = vw_id v) (tb_mappings t))"
  let ?kept = "filter (\<lambda>(m, i). i \<noteq> iv_id d \<or> mapping_user t m \<noteq> Some (vw_id v)) (tb_bound t)"
  let ?mine = "\<lambda>(m, i :: string). m \<in> set (map vm_id (mappings_of u t))"
  have b: "snd (bind_mappings v d ms t) = t\<lparr>tb_bound := ?kept @ map (\<lambda>m. (vm_id m, iv_id d)) ?sel\<rparr>"
    by (simp add: bind_mappings_def Let_def)
  have kept: "filter ?mine ?kept = filter ?mine (tb_bound t)"
    using mapping_user_of [OF k] v by (intro filter_filter_other) fastforce
  have other: "vm_id x \<notin> set (map vm_id (mappings_of u t))" if "x \<in> set ?sel" for x
    using that mapping_id_of [OF k, of x u] v by auto
  have none: "filter ?mine (map (\<lambda>m. (vm_id m, iv_id d)) ?sel) = []"
    by (rule filter_map_none) (rule other)
  have "filter ?mine (?kept @ map (\<lambda>m. (vm_id m, iv_id d)) ?sel) = filter ?mine (tb_bound t)"
    unfolding filter_append kept none by simp
  moreover have "mappings_of u (snd (bind_mappings v d ms t)) = mappings_of u t" by (simp add: b mappings_of_def)
  ultimately show ?thesis unfolding keeps_def bound_by_def by (simp add: b profiles_of_def links_by_def values_by_def)
qed

lemma drop_other_users_keeps:
  assumes "iv_user d = Some w" "w \<noteq> u" "keys_unique t"
  shows "keeps (\<lambda>j. j \<noteq> iv_id d) u t (snd (drop_other_users d t))"
proof -
  have "mapping_user t m \<noteq> Some w" if "m \<in> set (map vm_id (mappings_of u t))" for m
    using mapping_user_of [OF assms(3) that] assms(2) by simp
  then show ?thesis
    using assms(2) unfolding keeps_def profiles_of_def mappings_of_def links_by_def values_by_def bound_by_def
    by (auto simp: drop_other_users_tables [OF assms(1)] intro!: filter_cong)
qed

text \<open>Saving a device: what is on it of others goes when it is made local, and only then.\<close>

lemma keys_uniqueD: "held S t \<Longrightarrow> keys_unique t"
  by (simp add: held_def)

lemma hang_keeps:
  assumes v: "vw_id v \<noteq> u" and h: "hang v i profile vs own ms t1 t3" "held S t1" "S i (vw_id v)"
  shows "keeps_all u t1 t3"
proof -
  obtain t2 where l: "link_profile v i profile t1 = Inr t2" and t3: "t3 = snd (bind_if v i ms (set_values v i vs own t2))"
    using h(1) by (auto simp: hang_def)
  have h2: "held S t2" using link_profile_held(1) [OF h(2,3) l] .
  let ?tv = "set_values v i vs own t2"
  have k: "keys_unique ?tv" by (rule keys_uniqueD) (rule set_values_held(1) [OF h2 h(3)])
  have "keeps_all u t1 t2" by (rule link_profile_keeps [OF v l])
  moreover have "keeps_all u t2 ?tv"
    by (cases vs) (auto simp: set_values_def keeps_all_refl intro: keeps_all_trans [OF keeps_all_change set_custom_values_keeps [OF v]])
  moreover have "keeps_all u ?tv t3"
    unfolding t3 by (auto simp: bind_if_def keeps_all_refl split: option.split intro: bind_mappings_keeps [OF k v])
  ultimately show ?thesis by (blast intro: keeps_all_trans)
qed

lemma make_local_keeps:
  assumes k: "held S t" and d: "d \<in> set (tb_devices t)" "iv_id d = i" and v: "vw_id v \<noteq> u"
  shows "keeps (\<lambda>j. j \<noteq> i) u t (snd (make_local v i t))"
    "seen_by (snd (make_local v i t)) i u \<Longrightarrow> seen_by t i w"
proof -
  let ?own = "\<lambda>d. d\<lparr>iv_user := Some (vw_id v)\<rparr>" let ?t = "change_device i ?own t"
  obtain e where e: "e \<in> set (tb_devices ?t)" "iv_id e = i" "iv_user e = Some (vw_id v)"
      and out: "snd (make_local v i t) = snd (drop_other_users e ?t)"
    using make_local_tables [OF d, of v] by blast
  have "keys_unique ?t" by (rule keys_uniqueD) (rule held_change_device [OF k], simp)
  then have "keeps (\<lambda>j. j \<noteq> iv_id e) u ?t (snd (drop_other_users e ?t))"
    by (rule drop_other_users_keeps [OF e(3) v])
  from keeps_trans [OF keeps_all_change this] show "keeps (\<lambda>j. j \<noteq> i) u t (snd (make_local v i t))"
    by (simp add: out e(2))
  assume "seen_by (snd (make_local v i t)) i u"
  then have "seen_by ?t i u" unfolding out drop_other_users_tables [OF e(3)] by (simp add: seen_by_def)
  then show "seen_by t i w" using v by (subst (asm) seen_change_device) (auto simp: seen_by_def)
qed

lemma unseen_local:
  assumes ok: "tables_ok t" and d: "d \<in> set (tb_devices t)"
    and r: "saved_row collate v new_id (Some d) f False t = (i, shared, t1)"
  shows "\<not> (\<forall>w. seen_by t1 i w)"
proof
  assume all: "\<forall>w. seen_by t1 i w"
  let ?g = "\<lambda>d. d\<lparr>iv_label := df_label f, iv_ip := df_ip f,
     iv_resolved := if is_ip (df_ip f) then None else primary (df_resolved f), iv_port := df_port f\<rparr>"
  let ?h = "\<lambda>d. d\<lparr>iv_type := df_type f, iv_global := False\<rparr>"
  have t1: "t1 = change_device i (\<lambda>d. ?h (?g d)) t" and i: "i = iv_id d"
    using r by (auto simp: saved_row_def Let_def change_device_twice)
  have "\<exists>e\<in>set (tb_devices t). iv_id e = i \<and> iv_user e = Some w" for w
    using all [rule_format, of w] unfolding t1 by (subst (asm) seen_change_device) auto
  moreover have "e = d" if "e \<in> set (tb_devices t)" "iv_id e = i" for e
    using ok that d i by (intro distinct_map_eq [of iv_id "tb_devices t"]) (auto simp: tables_ok_def held_def keys_unique_def)
  ultimately have "iv_user d = Some w" for w by blast
  then show False by (metis list.distinct(1) option.inject)
qed

lemma save_edit_keeps:
  assumes ok: "tables_ok t" and d: "d \<in> set (tb_devices t)" "can_edit v d" and v: "vw_id v \<noteq> u"
    and r: "save_device collate v new_id (Some d) f vs own ms t = Inr (saved, t')"
  shows "\<exists>S. keeps S u t t' \<and> (\<forall>i. seen_by t' i u \<longrightarrow> S i)"
proof -
  let ?global = "becomes_global v f (Some d)"
  obtain i shared t1 t3 where p: "saved_row collate v new_id (Some d) f ?global t = (i, shared, t1)"
      "hang v i (df_profile f) vs own ms t1 t3"
      "t' = (if was_global (Some d) \<and> \<not> ?global then snd (make_local v i t3) else t3)"
    using save_device_parts [OF r] by blast
  note row = saved_row_edit [OF ok d(1) p(1)]
  have seen: "seen_by t i (vw_id v)" using d row(1) by (auto simp: seen_by_def can_edit_def)
  note h = hang_held [OF p(2) row(2) seen]
  have "keeps_all u t t1" using p(1) by (auto simp: saved_row_def Let_def intro: keeps_all_trans keeps_all_change)
  then have k3: "keeps_all u t t3" using hang_keeps [OF v p(2) row(2) seen] by (rule keeps_all_trans)
  show ?thesis
  proof (cases "was_global (Some d) \<and> \<not> ?global")
    case False then show ?thesis using k3 p(3) by auto
  next
    case True
    obtain e where e: "e \<in> set (tb_devices t3)" "iv_id e = i"
      using row(3) unfolding h(3) [symmetric] by auto
    have t': "t' = snd (make_local v i t3)" using p(3) True by simp
    have "keeps (\<lambda>j. j \<noteq> i) u t t'" using keeps_trans [OF k3 make_local_keeps(1) [OF h(1) e v]] by (simp add: t')
    moreover have "\<not> seen_by t' i u"
      using make_local_keeps(2) [OF h(1) e v] unseen_local [OF ok d(1)] p(1) True h(2) by (metis t')
    ultimately show ?thesis by blast
  qed
qed

section \<open>Every request keeps the others' own\<close>

fun actor :: "request \<Rightarrow> string" where
  "actor (Create_Device v i f) = vw_id v"
| "actor (Edit_Device v i f form ms) = vw_id v"
| "actor (Own_Attributes v i p form ms) = vw_id v"
| "actor (Delete_Device v i) = vw_id v"
| "actor (Link_Devices v p is) = vw_id v"
| "actor (Remember v is found) = vw_id v"
| "actor (Create_Profile v i l u p s) = vw_id v"
| "actor (Edit_Profile v i l u p s c) = vw_id v"
| "actor (Delete_Profile v i) = vw_id v"
| "actor (Create_Mapping v i tok p n) = vw_id v"
| "actor (Edit_Mapping v i tok p n) = vw_id v"
| "actor (Delete_Mapping v i) = vw_id v"
| "actor (Assign_Mapping v i ds rs) = vw_id v"
| "actor (Create_Property v i p) = vw_id v"
| "actor (Delete_Property v i) = vw_id v"
| "actor (Delete_User u) = u"

lemma remove_devices_keeps: "keeps (\<lambda>i. i \<notin> set (map iv_id (filter gone (tb_devices t)))) u t (remove_devices gone t)"
  unfolding keeps_def profiles_of_def mappings_of_def links_by_def values_by_def bound_by_def
  by (auto simp: remove_devices_def Let_def intro!: filter_cong [OF refl])

lemma removed_unseen:
  assumes "tables_ok t" "seen_by (remove_devices gone t) i u"
  shows "i \<notin> set (map iv_id (filter gone (tb_devices t)))"
proof
  assume "i \<in> set (map iv_id (filter gone (tb_devices t)))"
  then obtain d where d: "d \<in> set (tb_devices t)" "gone d" "iv_id d = i" by auto
  obtain e where e: "e \<in> set (tb_devices t)" "\<not> gone e" "iv_id e = i"
    using assms(2) by (auto simp: seen_by_def remove_devices_def Let_def)
  have "distinct (map iv_id (tb_devices t))" using assms(1) by (simp add: tables_ok_def held_def keys_unique_def)
  then have "d = e" by (rule distinct_map_eq [OF _ d(1) e(1)]) (simp add: d(3) e(3))
  then show False using d e by simp
qed

lemma remove_profiles_keeps:
  assumes "\<And>s. s \<in> set (tb_profiles t) \<Longrightarrow> gone s \<Longrightarrow> sc_user s \<noteq> u"
  shows "keeps_all u t (remove_profiles gone t)"
  unfolding keeps_def profiles_of_def mappings_of_def links_by_def values_by_def bound_by_def
  using assms by (auto simp: remove_profiles_def list_ex_iff intro!: filter_cong [OF refl])

lemma remove_mappings_keeps:
  assumes k: "keys_unique t" and g: "\<And>m. m \<in> set (tb_mappings t) \<Longrightarrow> gone m \<Longrightarrow> vm_user m \<noteq> u"
  shows "keeps_all u t (remove_mappings gone t)"
proof -
  have m: "mappings_of u (remove_mappings gone t) = mappings_of u t"
    using g by (auto simp: mappings_of_def remove_mappings_def intro!: filter_cong [OF refl])
  have "x \<notin> set (map vm_id (filter gone (tb_mappings t)))" if "x \<in> set (map vm_id (mappings_of u t))" for x
  proof
    assume "x \<in> set (map vm_id (filter gone (tb_mappings t)))"
    then obtain y where y: "y \<in> set (tb_mappings t)" "gone y" "x = vm_id y" by auto
    then show False using g [OF y(1,2)] mapping_id_of [OF k y(1), of u] that by simp
  qed
  then have "bound_by u (remove_mappings gone t) = bound_by u t"
    unfolding bound_by_def m by (auto simp: remove_mappings_def intro!: filter_cong [OF refl])
  then show ?thesis using m by (simp add: keeps_def) (simp add: remove_mappings_def profiles_of_def links_by_def values_by_def)
qed

lemma link_each_keeps: "vw_id v \<noteq> u \<Longrightarrow> link_each v p ids t = Some t' \<Longrightarrow> keeps_all u t t'"
proof (induction ids arbitrary: t)
  case (Cons i ids)
  then show ?case
    by (auto split: option.splits sum.splits intro: keeps_all_trans link_profile_keeps)
qed (simp add: keeps_all_refl)

lemma save_new_keeps:
  assumes ok: "tables_ok t" and fresh: "new_id \<notin> set (map iv_id (tb_devices t))" and v: "vw_id v \<noteq> u"
    and r: "save_device collate v new_id None f vs own ms t = Inr (saved, t')"
  shows "keeps_all u t t'"
proof -
  obtain i shared t1 t3 where p: "saved_row collate v new_id None f (becomes_global v f None) t = (i, shared, t1)"
      "hang v i (df_profile f) vs own ms t1 t3" "t' = t3"
    using save_device_parts [OF r] by (auto simp: was_global_def)
  note row = saved_row_new [OF ok fresh p(1)]
  have "keeps_all u t t1" using p(1) by (auto simp: saved_row_def Let_def keeps_all_devices)
  moreover have "keeps_all u t1 t3"
    by (rule hang_keeps [OF v p(2), of "seen_by t1"]) (use row in \<open>simp_all add: tables_ok_def\<close>)
  ultimately show ?thesis unfolding p(3) by (rule keeps_all_trans)
qed

lemma own_attributes_keeps:
  assumes ok: "tables_ok t" and v: "vw_id v \<noteq> u" and r: "inventory_attributes collate v i p form ms t = Some t'"
  shows "keeps_all u t t'"
proof -
  obtain d t1 vs own where d: "get_visible v i t = Some d"
      and l: "(case p of None \<Rightarrow> Inr t | Some p \<Rightarrow> link_profile v i p t) = Inr t1"
      and t': "t' = snd (bind_mappings v d ms (set_custom_values v i vs own t1))"
    using r by (auto simp: inventory_attributes_def Let_def split: option.splits sum.splits)
  have held: "held (seen_by t) t" using ok by (simp add: tables_ok_def)
  have h1: "held (seen_by t) t1" "keeps_all u t t1"
    using l held link_profile_held(1) [OF held visible_seen [OF d]] link_profile_keeps [OF v]
    by (auto simp: keeps_all_refl split: option.splits)
  have "keys_unique (set_custom_values v i vs own t1)"
    by (rule keys_uniqueD) (rule set_custom_values_held [OF h1(1) visible_seen [OF d]])
  then have "keeps_all u (set_custom_values v i vs own t1) t'" unfolding t' by (rule bind_mappings_keeps) (rule v)
  then show ?thesis using h1(2) set_custom_values_keeps [OF v] by (blast intro: keeps_all_trans)
qed

lemma bulk_assign_keeps:
  assumes k: "keys_unique t" and v: "vw_id v \<noteq> u" and r: "mappings_bulk_assign v i ds rs t = Some t'"
  shows "keeps_all u t t'"
proof -
  obtain m where m: "owned_mapping v i t = Some m" using r by (auto simp: mappings_bulk_assign_def split: if_splits option.splits)
  then have m_in: "m \<in> set (tb_mappings t)" "vm_id m = i" "vm_user m = vw_id v"
    by (auto simp: owned_mapping_def find_Some_iff split: option.splits if_splits)
  then have other: "i \<notin> set (map vm_id (mappings_of u t))" using mapping_id_of [OF k m_in(1), of u] v by auto
  obtain added where t': "t' = t\<lparr>tb_bound := filter (\<lambda>(x, j). \<not> (x = i \<and> j \<in> set rs)) (tb_bound t) @ map (\<lambda>j. (i, j)) added\<rparr>"
    using r m by (auto simp: mappings_bulk_assign_def Let_def split: if_splits)
  have "bound_by u t' = bound_by u t"
    using other by (auto simp: bound_by_def t' mappings_of_def filter_empty_conv intro!: filter_cong [OF refl])
  then show ?thesis by (simp add: keeps_def) (simp add: t' profiles_of_def mappings_of_def links_by_def values_by_def)
qed

lemma delete_user_keeps:
  assumes ok: "tables_ok t" and x: "x \<noteq> u"
  shows "\<exists>S. keeps S u t (delete_user x t) \<and> (\<forall>i. seen_by (delete_user x t) i u \<longrightarrow> S i)"
proof -
  let ?gone = "\<lambda>d. iv_user d = Some x \<and> \<not> iv_global d"
  let ?t1 = "remove_devices ?gone t"
  let ?t2 = "remove_mappings (\<lambda>m. vm_user m = x) (remove_profiles (\<lambda>s. sc_user s = x) ?t1)"
  let ?S = "\<lambda>i. i \<notin> set (map iv_id (filter ?gone (tb_devices t)))"
  have "keys_unique (remove_profiles (\<lambda>s. sc_user s = x) ?t1)"
    by (rule keys_uniqueD [of "seen_by (remove_profiles (\<lambda>s. sc_user s = x) ?t1)"])
      (use remove_profiles_ok [OF remove_devices_ok [OF ok]] in \<open>simp add: tables_ok_def\<close>)
  then have "keeps_all u (remove_profiles (\<lambda>s. sc_user s = x) ?t1) ?t2" by (rule remove_mappings_keeps) (use x in simp)
  moreover have "keeps_all u ?t1 (remove_profiles (\<lambda>s. sc_user s = x) ?t1)" by (rule remove_profiles_keeps) (use x in simp)
  ultimately have "keeps_all u ?t1 ?t2" by (blast intro: keeps_all_trans)
  moreover have "keeps_all u ?t2 (delete_user x t)"
    unfolding keeps_def profiles_of_def mappings_of_def links_by_def values_by_def bound_by_def
    using x by (auto simp: delete_user_def Let_def intro!: filter_cong [OF refl])
  ultimately have "keeps_all u ?t1 (delete_user x t)" by (rule keeps_all_trans)
  with remove_devices_keeps [of ?gone t u] have "keeps ?S u t (delete_user x t)" using keeps_trans by fastforce
  moreover have "?S i" if "seen_by (delete_user x t) i u" for i
  proof (rule removed_unseen [OF ok])
    show "seen_by ?t1 i u"
      using that x by (auto simp: seen_by_def delete_user_def Let_def remove_mappings_def remove_profiles_def split: if_splits)
  qed
  ultimately show ?thesis by blast
qed

lemma change_profiles_keeps:
  assumes "\<And>s. sc_user (f s) = sc_user s" "\<And>s. sc_user s = u \<Longrightarrow> f s = s"
  shows "keeps_all u t (t\<lparr>tb_profiles := map f (tb_profiles t)\<rparr>)"
  using filter_map_other [of "\<lambda>s. sc_user s = u" f] assms by (simp add: keeps_defs)

lemma change_mappings_keeps:
  assumes "\<And>m. vm_user (f m) = vm_user m" "\<And>m. m \<in> set (tb_mappings t) \<Longrightarrow> vm_user m = u \<Longrightarrow> f m = m"
  shows "keeps_all u t (t\<lparr>tb_mappings := map f (tb_mappings t)\<rparr>)"
proof -
  have "filter (\<lambda>m. vm_user m = u) (map f xs) = filter (\<lambda>m. vm_user m = u) xs" if "set xs \<subseteq> set (tb_mappings t)" for xs
    using that assms by (induction xs) auto
  then show ?thesis by (simp add: keeps_defs)
qed

lemma new_mapping_keeps: "vm_user m \<noteq> u \<Longrightarrow> keeps_all u t (t\<lparr>tb_mappings := tb_mappings t @ [m]\<rparr>)"
  by (simp add: keeps_defs)

lemma perform_keeps:
  assumes ok: "tables_ok t" and r: "perform collate cipher r t = Some t'" and u: "actor r \<noteq> u"
  shows "\<exists>S. keeps S u t t' \<and> (\<forall>i. seen_by t' i u \<longrightarrow> S i)"
proof -
  have k: "keys_unique t" using ok by (simp add: tables_ok_def held_def)
  have all: "keeps_all u t t' \<Longrightarrow> ?thesis" by blast
  show ?thesis
  proof (cases r)
    case (Create_Device v i f)
    then show ?thesis using r u ok
      by (intro all) (auto simp: inventory_create_def split: if_splits sum.splits intro: save_new_keeps [unfolded set_map])
  next
    case (Edit_Device v i f form ms)
    then obtain d vs own saved where d: "get_editable v i t = Some d"
        and s: "save_device collate v i (Some d) f (Some vs) own (Some ms) t = Inr (saved, t')"
      using r by (auto simp: inventory_edit_def Let_def split: option.splits sum.splits prod.splits)
    show ?thesis using save_edit_keeps [OF ok _ _ _ s] find_editable [OF d] u Edit_Device by simp
  next
    case (Own_Attributes v i p form ms)
    then show ?thesis using r u own_attributes_keeps [OF ok] by (intro all) simp
  next
    case (Delete_Device v i)
    then obtain d where "get_editable v i t = Some d" and t': "t' = remove_devices (\<lambda>x. iv_id x = iv_id d) t"
      using r by (auto simp: inventory_delete_def split: option.splits)
    show ?thesis using remove_devices_keeps removed_unseen [OF ok] unfolding t' by blast
  next
    case (Link_Devices v p ids)
    then show ?thesis using r u
      by (intro all) (auto simp: inventory_bulk_assign_def split: if_splits intro: link_each_keeps)
  next
    case (Remember v ids found)
    then show ?thesis using r by (intro all) (auto simp: remember_addresses_def keeps_all_devices)
  next
    case (Create_Profile v i l w p s)
    then show ?thesis using r u
      by (intro all) (auto simp: security_create_def create_profile_def keeps_defs split: if_splits)
  next
    case (Edit_Profile v i l w p s c)
    then obtain x where x: "owned_profile v i t = Some x"
      and t': "t' = t\<lparr>tb_profiles := map (\<lambda>x. if sc_id x = i then update_profile cipher x l w p s c else x) (tb_profiles t)\<rparr>"
      using r by (auto simp: security_edit_def split: option.splits)
    have x_in: "x \<in> set (tb_profiles t)" "sc_id x = i" "sc_user x = vw_id v"
      using x by (auto simp: owned_profile_def find_Some_iff)
    have other: "sc_id y \<noteq> i" if "y \<in> set (tb_profiles t)" "sc_user y = u" for y
      using distinct_map_eq [of sc_id "tb_profiles t" y x] that x_in k u Edit_Profile by (auto simp: keys_unique_def)
    have "filter (\<lambda>s. sc_user s = u) (map (\<lambda>x. if sc_id x = i then update_profile cipher x l w p s c else x) xs)
        = filter (\<lambda>s. sc_user s = u) xs" if "set xs \<subseteq> set (tb_profiles t)" for xs
      using that other by (induction xs) (auto simp: update_profile_def)
    then have "keeps_all u t t'" by (simp add: t' keeps_defs)
    then show ?thesis by (rule all)
  next
    case (Delete_Profile v i)
    then obtain x where x: "owned_profile v i t = Some x" and t': "t' = remove_profiles (\<lambda>y. sc_id y = i) t"
      using r by (auto simp: security_delete_def split: option.splits)
    have x_in: "x \<in> set (tb_profiles t)" "sc_id x = i" "sc_user x = vw_id v"
      using x by (auto simp: owned_profile_def find_Some_iff)
    have "keeps_all u t t'" unfolding t'
    proof (rule remove_profiles_keeps)
      fix s assume "s \<in> set (tb_profiles t)" "sc_id s = i"
      then have "s = x" using distinct_map_eq [of sc_id "tb_profiles t" s x] x_in k by (simp add: keys_unique_def)
      then show "sc_user s \<noteq> u" using x_in u Delete_Profile by simp
    qed
    then show ?thesis by (rule all)
  next
    case (Create_Mapping v i tok p n)
    then show ?thesis using r u
      by (intro all) (auto simp: mappings_create_def Let_def split: if_splits intro!: new_mapping_keeps)
  next
    case (Edit_Mapping v i tok p n)
    then obtain x where x: "owned_mapping v i t = Some x"
      and t': "t' = t\<lparr>tb_mappings := map (\<lambda>x. if vm_id x = i
        then x\<lparr>vm_token := ''$$'' @ tok @ ''$$'', vm_property := p, vm_index := n\<rparr> else x) (tb_mappings t)\<rparr>"
      using r by (auto simp: mappings_edit_def Let_def split: option.splits if_splits)
    have x_in: "x \<in> set (tb_mappings t)" "vm_id x = i" "vm_user x = vw_id v"
      using x by (auto simp: owned_mapping_def find_Some_iff split: option.splits if_splits)
    have "keeps_all u t t'" unfolding t'
    proof (rule change_mappings_keeps)
      fix m assume "m \<in> set (tb_mappings t)" "vm_user m = u"
      then have "vm_id m \<noteq> i"
        using distinct_map_eq [of vm_id "tb_mappings t" m x] x_in k u Edit_Mapping by (auto simp: keys_unique_def)
      then show "(if vm_id m = i then m\<lparr>vm_token := ''$$'' @ tok @ ''$$'', vm_property := p, vm_index := n\<rparr> else m) = m" by simp
    qed simp
    then show ?thesis by (rule all)
  next
    case (Delete_Mapping v i)
    then obtain x where x: "owned_mapping v i t = Some x" and t': "t' = remove_mappings (\<lambda>y. vm_id y = i) t"
      using r by (auto simp: mappings_delete_def split: option.splits)
    have x_in: "x \<in> set (tb_mappings t)" "vm_id x = i" "vm_user x = vw_id v"
      using x by (auto simp: owned_mapping_def find_Some_iff split: option.splits if_splits)
    have "keeps_all u t t'" unfolding t'
    proof (rule remove_mappings_keeps [OF k])
      fix m assume "m \<in> set (tb_mappings t)" "vm_id m = i"
      then have "m = x" using distinct_map_eq [of vm_id "tb_mappings t" m x] x_in k by (simp add: keys_unique_def)
      then show "vm_user m \<noteq> u" using x_in u Delete_Mapping by simp
    qed
    then show ?thesis by (rule all)
  next
    case (Assign_Mapping v i ds rs)
    then show ?thesis using r u bulk_assign_keeps [OF k] by (intro all) simp
  next
    case (Create_Property v i p)
    then show ?thesis using r by (intro all) (auto simp: properties_create_def keeps_defs split: if_splits)
  next
    case (Delete_Property v i)
    then show ?thesis using r u
      by (intro all) (auto simp: properties_delete_def delete_property_values_def Let_def keeps_defs
        intro!: filter_cong [OF refl] split: option.splits)
  next
    case (Delete_User x)
    then have "x \<noteq> u" "t' = delete_user x t" using r u by simp_all
    then show ?thesis using delete_user_keeps [OF ok] by blast
  qed
qed

text \<open>What a user is left with after somebody else's request.\<close>

definition untouched :: "string \<Rightarrow> tables \<Rightarrow> tables \<Rightarrow> bool" where
  "untouched u t t' \<longleftrightarrow>
     profiles_of u t' = profiles_of u t \<and> mappings_of u t' = mappings_of u t
     \<and> (let still = (\<lambda>i. list_ex (\<lambda>d. iv_id d = i \<and> sees \<lparr>vw_id = u, vw_admin = False\<rparr> d) (tb_devices t'))
        in links_by u t' = filter (\<lambda>c. still (cr_device c)) (links_by u t)
           \<and> values_by u t' = filter (\<lambda>a. still (da_device a)) (values_by u t)
           \<and> bound_by u t' = filter (\<lambda>(m, i). still i) (bound_by u t))"


end
