(* ===== verification/Accounts.thy ===== *)
theory Accounts
  imports Results
begin

text \<open>
  \<open>src/accounts/users.py\<close>: NetRollout's accounts - the password rule, the lockout of wrong passwords and the
  throttle of a name, who may administer, local and directory accounts - and the administrators' actions on them
  (\<open>src/webapp/blueprints/admin_users.py\<close>, \<open>admin_ldap.py\<close>). The state is the table of users, the directories and
  the throttle's keys in Redis; times are microseconds, the throttle's seconds; hashes are parameters.
\<close>

section \<open>Passwords\<close>

definition printable :: "char \<Rightarrow> bool" where
  "printable c \<longleftrightarrow> 32 \<le> code_point c \<and> code_point c \<le> 126"

definition ascii_letter :: "char \<Rightarrow> bool" where
  "ascii_letter c \<longleftrightarrow> is_lower_az c \<or> is_upper_az c"

definition min_length :: nat where "min_length = 8"

definition password_groups :: "string \<Rightarrow> nat" where
  "password_groups new =
     (if list_ex ascii_letter new then 1 else 0) + (if list_ex is_dec new then 1 else 0)
     + (if list_ex (\<lambda>c. \<not> (ascii_letter c \<or> is_dec c)) new then 1 else 0)"

text \<open>The letters and digits are counted once the text is known to be ASCII.\<close>

definition password_problem :: "string \<Rightarrow> string option \<Rightarrow> string option \<Rightarrow> string option" where
  "password_problem new username current =
     (if list_ex (\<lambda>c. \<not> printable c) new then Some ''The password must contain only ASCII characters.''
      else if length new < min_length then Some (''The password must be at least '' @ show_nat min_length @ '' characters.'')
      else if password_groups new < 2
        then Some ''The password must contain at least 2 of: letters, digits, special characters.''
      else if (case username of None \<Rightarrow> False | Some u \<Rightarrow> u \<noteq> [] \<and> occurs_in (lower u) (lower new))
        then Some (''The password can'' @ squote # ''t contain your username.'')
      else if current = Some new then Some ''The new password must differ from the current one.''
      else None)"

definition temp_length :: nat where "temp_length = 14"

definition temp_alphabet :: "char \<Rightarrow> bool" where
  "temp_alphabet c \<longleftrightarrow> ascii_letter c \<or> is_dec c"

text \<open>The loop of \<open>temporary_password\<close> over what \<open>secrets.choice\<close> draws: the candidate it ends with.\<close>

fun temporary_password :: "nat \<Rightarrow> (nat \<Rightarrow> string) \<Rightarrow> string option \<Rightarrow> nat \<Rightarrow> string option" where
  "temporary_password 0 draws username k = None"
| "temporary_password (Suc n) draws username k =
     (if password_problem (draws k) username None = None then Some (draws k)
      else temporary_password n draws username (Suc k))"

section \<open>Accounts\<close>

datatype role = Admin | Operator
datatype auth_type = Local | Ldap
datatype bind_type = Regular | Simple | Anonymous

record user =
  us_id :: string
  us_name :: string
  us_hash :: "string option"
  us_email :: "string option"
  us_full_name :: "string option"
  us_position :: "string option"
  us_role :: role
  us_active :: bool
  us_approved :: bool
  us_otp :: "string option"
  us_must_change :: bool
  us_auth :: auth_type
  us_server :: "string option"
  us_failed :: nat
  us_locked :: "int option"

text \<open>A directory, with whether each of its group rules is active.\<close>

record ldap_server =
  ls_id :: string
  ls_name :: string
  ls_bind :: bind_type
  ls_active :: bool
  ls_rules :: "bool list"

record site =
  si_users :: "user list"
  si_servers :: "ldap_server list"
  si_fails :: "(string \<times> nat \<times> int) list"
  si_stops :: "(string \<times> int) list"

definition factory_username :: string where "factory_username = ''admin''"

definition is_factory_admin :: "user \<Rightarrow> bool" where
  "is_factory_admin u \<longleftrightarrow> us_name u = factory_username \<and> us_auth u = Local"

definition needs_second_factor :: "user \<Rightarrow> bool" where
  "needs_second_factor u \<longleftrightarrow> us_auth u = Local \<and> (\<not> is_factory_admin u \<or> us_otp u \<noteq> None)"

definition grafana_admin :: string where "grafana_admin = ''netrollout-grafana-admin''"

definition is_reserved :: "string \<Rightarrow> bool" where
  "is_reserved username \<longleftrightarrow> lower (strip username) = grafana_admin"

definition server_of :: "user \<Rightarrow> site \<Rightarrow> ldap_server option" where
  "server_of u s = (case us_server u of None \<Rightarrow> None | Some i \<Rightarrow> List.find (\<lambda>x. ls_id x = i) (si_servers s))"

definition directory_sets_role :: "user \<Rightarrow> site \<Rightarrow> bool" where
  "directory_sets_role u s \<longleftrightarrow> us_auth u = Ldap
     \<and> (case server_of u s of None \<Rightarrow> False | Some x \<Rightarrow> ls_bind x = Regular \<and> True \<in> set (ls_rules x))"

definition has_no_directory :: "user \<Rightarrow> bool" where
  "has_no_directory u \<longleftrightarrow> us_auth u = Ldap \<and> us_server u = None"

text \<open>\<open>refuse_without_directory\<close>: the message it raises, if any.\<close>

definition refuse_without_directory :: "user list \<Rightarrow> string option" where
  "refuse_without_directory users =
     (let bad = sort (map us_name (filter has_no_directory users)); one = (length bad = 1) in
      if bad = [] then None
      else Some (join '', '' bad @ '' '' @ (if one then ''has'' else ''have'') @ '' no directory and can'' @ squote # ''t sign in: reconnect ''
        @ (if one then ''it'' else ''them'') @ '' to an LDAP server first (User Management -> Reconnect).''))"

definition find_user :: "string \<Rightarrow> site \<Rightarrow> user option" where
  "find_user i s = List.find (\<lambda>u. us_id u = i) (si_users s)"

definition change_user :: "string \<Rightarrow> (user \<Rightarrow> user) \<Rightarrow> site \<Rightarrow> site" where
  "change_user i f s = s\<lparr>si_users := map (\<lambda>u. if us_id u = i then f u else u) (si_users s)\<rparr>"

definition by_name :: "string \<Rightarrow> site \<Rightarrow> user option" where
  "by_name username s = List.find (\<lambda>u. us_name u = username) (si_users s)"

definition by_name_ci :: "string \<Rightarrow> site \<Rightarrow> user list" where
  "by_name_ci username s = filter (\<lambda>u. lower (us_name u) = lower username) (si_users s)"

definition pending_count :: "site \<Rightarrow> nat" where
  "pending_count s = length (filter (\<lambda>u. \<not> us_approved u) (si_users s))"

definition usernames :: "string list \<Rightarrow> site \<Rightarrow> (string \<times> string) list" where
  "usernames ids s = map (\<lambda>u. (us_id u, us_name u)) (filter (\<lambda>u. us_id u \<in> set ids) (si_users s))"

section \<open>Wrong passwords\<close>

definition max_failed :: nat where "max_failed = 5"
definition lock_minutes :: nat where "lock_minutes = 15"
definition disable_after :: nat where "disable_after = 2 * max_failed"

datatype lockout = Counted | Locked_Out | Disabled

definition clear_lockout :: "user \<Rightarrow> user" where
  "clear_lockout u = u\<lparr>us_failed := 0, us_locked := None\<rparr>"

definition password_ok :: "user \<Rightarrow> user" where
  "password_ok u = (if us_failed u \<noteq> 0 then u\<lparr>us_failed := 0\<rparr> else u)"

definition password_failed :: "int \<Rightarrow> user \<Rightarrow> lockout \<times> user" where
  "password_failed now u =
     (if us_auth u \<noteq> Local \<or> \<not> (us_approved u \<and> us_active u) then (Counted, u)
      else (let count = us_failed u + 1; counted = u\<lparr>us_failed := count\<rparr>;
                until = Some (now + int lock_minutes * 60 * 10 ^ 6) in
        if is_factory_admin u
        then (if count < max_failed then (Counted, counted)
              else (Locked_Out, counted\<lparr>us_failed := 0, us_locked := until\<rparr>))
        else if disable_after \<le> count then (Disabled, counted\<lparr>us_active := False\<rparr>)
        else if count \<noteq> max_failed then (Counted, counted)
        else (Locked_Out, counted\<lparr>us_locked := until\<rparr>)))"

text \<open>\<open>lock_minutes_left\<close>: a lock that has run out is lifted.\<close>

definition lock_minutes_left :: "int \<Rightarrow> user \<Rightarrow> int option \<times> user" where
  "lock_minutes_left now u =
     (case us_locked u of
        None \<Rightarrow> (None, u)
      | Some until \<Rightarrow>
          if until - now \<le> 0 then (None, u\<lparr>us_locked := None\<rparr>)
          else (Some (- ((now - until) div (60 * 10 ^ 6))), u))"

text \<open>\<open>SignInThrottle\<close>: per typed name (its hash), the failures and the stop, each with when it expires. Nothing is
  counted or stopped when Redis doesn't answer.\<close>

definition throttle_key :: "(string \<Rightarrow> string) \<Rightarrow> string \<Rightarrow> string" where
  "throttle_key sha typed = sha (lower (strip typed))"

definition throttle_seconds_left :: "(string \<Rightarrow> string) \<Rightarrow> bool \<Rightarrow> int \<Rightarrow> string \<Rightarrow> site \<Rightarrow> int option" where
  "throttle_seconds_left sha redis_up now typed s =
     (if \<not> redis_up then None
      else (case map_of (si_stops s) (throttle_key sha typed) of
          None \<Rightarrow> None
        | Some until \<Rightarrow> if now < until then Some (until - now) else None))"

definition throttle_count :: "int \<Rightarrow> string \<Rightarrow> site \<Rightarrow> nat" where
  "throttle_count now k s =
     (case map_of (si_fails s) k of None \<Rightarrow> 0 | Some (n, until) \<Rightarrow> if now < until then n else 0)"

definition throttle_failed :: "(string \<Rightarrow> string) \<Rightarrow> bool \<Rightarrow> int \<Rightarrow> string \<Rightarrow> site \<Rightarrow> int option \<times> site" where
  "throttle_failed sha redis_up now typed s =
     (if \<not> redis_up then (None, s)
      else (let k = throttle_key sha typed; n = throttle_count now k s + 1; until = now + int lock_minutes * 60 in
        if n < max_failed then (None, s\<lparr>si_fails := AList.update k (n, until) (si_fails s)\<rparr>)
        else (Some (int lock_minutes * 60),
              s\<lparr>si_stops := AList.update k until (si_stops s), si_fails := AList.delete k (si_fails s)\<rparr>)))"

definition throttle_cleared :: "(string \<Rightarrow> string) \<Rightarrow> bool \<Rightarrow> string \<Rightarrow> site \<Rightarrow> site" where
  "throttle_cleared sha redis_up typed s =
     (if \<not> redis_up then s
      else (let k = throttle_key sha typed
        in s\<lparr>si_fails := AList.delete k (si_fails s), si_stops := AList.delete k (si_stops s)\<rparr>))"

text \<open>Two digits, as \<open>{:02d}\<close>.\<close>

definition two_digits :: "nat \<Rightarrow> string" where
  "two_digits n = (if n < 10 then ''0'' @ show_nat n else show_nat n)"

definition lock_message :: "nat \<Rightarrow> string" where
  "lock_message seconds = ''Too many failed sign-ins. Try again in '' @ two_digits (seconds div 60) @ '':'' @ two_digits (seconds mod 60) @ ''.''"

section \<open>The administrators\<close>

text \<open>Who can sign in to administer: approved and active, local or of an active directory.\<close>

definition administers :: "site \<Rightarrow> user \<Rightarrow> bool" where
  "administers s u \<longleftrightarrow> us_role u = Admin \<and> us_active u \<and> us_approved u
     \<and> (us_auth u = Local \<or> (case server_of u s of None \<Rightarrow> False | Some x \<Rightarrow> ls_active x))"

definition admins_left :: "string list \<Rightarrow> site \<Rightarrow> nat" where
  "admins_left without s = length (filter (\<lambda>u. administers s u \<and> us_id u \<notin> set without) (si_users s))"

text \<open>\<open>True\<close>: refused.\<close>

definition check_admins_left :: "string list \<Rightarrow> site \<Rightarrow> bool" where
  "check_admins_left removing s \<longleftrightarrow> admins_left removing s = 0 \<and> 0 < admins_left [] s"

definition remove_user :: "string \<Rightarrow> site \<Rightarrow> site" where
  "remove_user i s = s\<lparr>si_users := filter (\<lambda>u. us_id u \<noteq> i) (si_users s)\<rparr>"

definition delete_directory :: "string \<Rightarrow> bool \<Rightarrow> site \<Rightarrow> site option" where
  "delete_directory server delete_users s =
     (let theirs = map us_id (filter (\<lambda>u. us_server u = Some server) (si_users s)) in
      if check_admins_left theirs s then None
      else (let s1 = (if delete_users then fold remove_user theirs s
                      else fold (\<lambda>i. change_user i (\<lambda>u. u\<lparr>us_active := False\<rparr>)) theirs s)
        in Some (s1\<lparr>si_servers := filter (\<lambda>x. ls_id x \<noteq> server) (si_servers s1),
             si_users := map (\<lambda>u. if us_server u = Some server then u\<lparr>us_server := None\<rparr> else u) (si_users s1)\<rparr>)))"

datatype role_change = Changed | Kept

definition set_directory_role :: "string \<Rightarrow> role \<Rightarrow> site \<Rightarrow> role_change option \<times> site" where
  "set_directory_role i new_role s =
     (case find_user i s of
        None \<Rightarrow> (None, s)
      | Some u \<Rightarrow>
          if us_role u = new_role then (None, s)
          else if us_role u = Admin \<and> check_admins_left [i] s then (Some Kept, s)
          else (Some Changed, change_user i (\<lambda>u. u\<lparr>us_role := new_role\<rparr>) s))"

text \<open>What the directory says of a name: not there, or their email and full name.\<close>

type_synonym found_user = "(string option \<times> string option) option"

definition email_limit :: nat where "email_limit = 120"
definition name_limit :: nat where "name_limit = 120"

definition reconnected :: "string \<Rightarrow> string option \<times> string option \<Rightarrow> user \<Rightarrow> user list \<Rightarrow> user" where
  "reconnected server details u others =
     (let (email, full) = details;
          fits = (\<lambda>limit x. case x of None \<Rightarrow> False | Some t \<Rightarrow> t \<noteq> [] \<and> length t \<le> limit)
      in u\<lparr>us_email := (if fits email_limit email \<and> \<not> list_ex (\<lambda>w. us_email w = email \<and> us_id w \<noteq> us_id u) others
              then email else us_email u),
           us_full_name := (if fits name_limit full then full else us_full_name u),
           us_server := Some server, us_active := False\<rparr>)"

fun reconnect_each :: "string \<Rightarrow> (string \<Rightarrow> found_user) \<Rightarrow> user list \<Rightarrow> site \<Rightarrow> site" where
  "reconnect_each server look [] s = s"
| "reconnect_each server look (u # us) s =
     (let details = (case look (us_name u) of None \<Rightarrow> (None, None) | Some d \<Rightarrow> d) in
      reconnect_each server look us (change_user (us_id u) (\<lambda>w. reconnected server details w (si_users s)) s))"

definition reconnect :: "string list \<Rightarrow> string \<Rightarrow> (string \<Rightarrow> found_user) \<Rightarrow> site \<Rightarrow> string + string list \<times> site" where
  "reconnect ids server look s =
     (let users = filter (\<lambda>u. us_id u \<in> set ids) (si_users s);
          taken = sort (map us_name (filter (\<lambda>u. \<not> has_no_directory u) users)) in
      case List.find (\<lambda>x. ls_id x = server) (si_servers s) of
        None \<Rightarrow> Inl ''LDAP server not found''
      | Some x \<Rightarrow>
          if taken \<noteq> [] then Inl (''Only accounts whose LDAP server was deleted can be reconnected - not '' @ join '', '' taken @ ''.'')
          else if \<not> ls_active x then Inl (ls_name x @ '' is switched off: switch it on first.'')
          else if ls_bind x \<noteq> Regular then Inl (ls_name x @ '' has no service account, so NetRollout can'' @ squote
            # ''t check the users exist there: add one, or pick another server.'')
          else (let missing = sort (map us_name (filter (\<lambda>u. look (us_name u) = None) users)) in
            if missing \<noteq> [] then Inl (''Not in '' @ ls_name x @ '': '' @ join '', '' missing @ ''.'')
            else Inr (sort (map us_name users), reconnect_each server look users s)))"

text \<open>\<open>netrollout reset-admin\<close>: the factory admin usable again.\<close>

definition reset_factory_admin :: "(string \<Rightarrow> string) \<Rightarrow> string option \<Rightarrow> site \<Rightarrow> site option" where
  "reset_factory_admin hash temporary s =
     (case by_name factory_username s of
        None \<Rightarrow> None
      | Some u \<Rightarrow>
          if \<not> is_factory_admin u then None
          else Some (change_user (us_id u) (\<lambda>u. let r = (clear_lockout u)\<lparr>us_active := True, us_approved := True,
                us_role := Admin, us_otp := None\<rparr>
              in (case temporary of None \<Rightarrow> r | Some t \<Rightarrow> r\<lparr>us_hash := Some (hash t), us_must_change := True\<rparr>)) s))"

section \<open>New accounts\<close>

text \<open>\<open>USERNAME_RE.fullmatch\<close>.\<close>

definition username_shape :: "string \<Rightarrow> bool" where
  "username_shape s \<longleftrightarrow> s \<noteq> [] \<and> (ascii_letter (hd s) \<or> is_dec (hd s))
     \<and> list_all (\<lambda>c. ascii_letter c \<or> is_dec c \<or> c \<in> set ''._-'') s"

text \<open>The first problem of a new account: what \<open>_check_new\<close> raises.\<close>

definition new_problem :: "string \<Rightarrow> string \<Rightarrow> string \<Rightarrow> string option \<Rightarrow> string option \<Rightarrow> site \<Rightarrow> string option" where
  "new_problem username email full_name position password s =
     (let given = [(''Username'', username, 64), (''Email'', email, 120), (''Full name'', full_name, 120)] in
      case List.find (\<lambda>(l, v, n). v = []) given of
        Some (l, _, _) \<Rightarrow> Some (l @ '' is required.'')
      | None \<Rightarrow>
          (case List.find (\<lambda>(l, v, n). n < length v)
              (given @ [(''Position'', case position of None \<Rightarrow> [] | Some p \<Rightarrow> p, 64)]) of
             Some (l, _, n) \<Rightarrow> Some (l @ '' is too long (at most '' @ show_nat n @ '' characters).'')
           | None \<Rightarrow>
               if \<not> username_shape username
               then Some ''A username may contain letters, digits, . _ and - (starting with a letter or digit).''
               else if CHR ''@'' \<notin> set email then Some (''That email address isn'' @ squote # ''t valid.'')
               else (case (case password of None \<Rightarrow> None | Some p \<Rightarrow> password_problem p (Some username) None) of
                   Some problem \<Rightarrow> Some problem
                 | None \<Rightarrow>
                     if is_reserved username then Some (''That username is reserved for NetRollout'' @ squote # ''s own use - choose another.'')
                     else if by_name_ci username s \<noteq> [] then Some ''That username is taken.''
                     else if list_ex (\<lambda>u. us_email u = Some email) (si_users s) then Some ''That email address is already in use.''
                     else None)))"

definition new_local :: "(string \<Rightarrow> string) \<Rightarrow> string \<Rightarrow> string \<Rightarrow> string \<Rightarrow> string \<Rightarrow> string option \<Rightarrow> string \<Rightarrow> role option \<Rightarrow> bool \<Rightarrow> bool
    \<Rightarrow> site \<Rightarrow> string + site" where
  "new_local hash new_id username email full_name position password asked_role approved must_change s =
     (let username = strip username; email = strip email; full_name = strip full_name;
          stripped = strip (case position of None \<Rightarrow> [] | Some p \<Rightarrow> p);
          position = (if stripped = [] then None else Some stripped) in
      case asked_role of
        None \<Rightarrow> Inl ''The role is operator or admin.''
      | Some r \<Rightarrow>
          (case new_problem username email full_name position (if must_change then None else Some password) s of
             Some problem \<Rightarrow> Inl problem
           | None \<Rightarrow> Inr (s\<lparr>si_users := si_users s @ [\<lparr>us_id = new_id, us_name = username, us_hash = Some (hash password),
               us_email = Some email, us_full_name = Some full_name, us_position = position, us_role = r,
               us_active = approved, us_approved = approved, us_otp = None, us_must_change = must_change, us_auth = Local,
               us_server = None, us_failed = 0, us_locked = None\<rparr>]\<rparr>)))"

text \<open>The columns' own rules (\<open>User\<close> of \<open>src/db/tables.py\<close>): unique ids, names and emails, and their sizes.\<close>

definition row_fits :: "string \<Rightarrow> string \<Rightarrow> string option \<Rightarrow> string option \<Rightarrow> site \<Rightarrow> bool" where
  "row_fits new_id username email full_name s \<longleftrightarrow>
     new_id \<notin> set (map us_id (si_users s)) \<and> length username \<le> 64 \<and> username \<notin> set (map us_name (si_users s))
     \<and> (case email of None \<Rightarrow> True | Some e \<Rightarrow> length e \<le> email_limit \<and> email \<notin> set (map us_email (si_users s)))
     \<and> (case full_name of None \<Rightarrow> True | Some n \<Rightarrow> length n \<le> name_limit)"

text \<open>\<open>None\<close>: the database refuses the row (its error is raised).\<close>

definition new_ldap :: "string \<Rightarrow> string \<Rightarrow> string \<Rightarrow> role option \<Rightarrow> string option \<times> string option \<Rightarrow> site \<Rightarrow> (string + site) option" where
  "new_ldap new_id username server given_role details s =
     (if is_reserved username then Some (Inl (''That username is reserved for NetRollout'' @ squote # ''s own use - choose another.''))
      else if \<not> row_fits new_id username (fst details) (snd details) s then None
      else Some (Inr (s\<lparr>si_users := si_users s @ [\<lparr>us_id = new_id, us_name = username, us_hash = None, us_email = fst details,
        us_full_name = snd details, us_position = None, us_role = (case given_role of None \<Rightarrow> Operator | Some r \<Rightarrow> r),
        us_active = True, us_approved = True, us_otp = None, us_must_change = False, us_auth = Ldap, us_server = Some server,
        us_failed = 0, us_locked = None\<rparr>]\<rparr>)))"

end
