(* ===== verification/Account_Actions.thy ===== *)
theory Account_Actions
  imports Accounts
begin

text \<open>
  What administrators and sign-ins do to the accounts: \<open>src/webapp/blueprints/admin_users.py\<close> and
  \<open>admin_ldap.py\<close> (their database blocks; \<open>me\<close> is the administrator who asks), \<open>netrollout reset-admin\<close>, and the
  sessions kept in Redis (\<open>SessionStore\<close> of \<open>src/accounts/users.py\<close>). \<open>None\<close>: refused or not found, nothing changed.
\<close>

section \<open>One action on one user\<close>

datatype user_action = Approve | Enable | Disable | Promote | Demote | Delete_Account | Reset_2fa | Terminate_Session

definition factory_actions :: "user_action list" where "factory_actions = [Enable, Disable, Reset_2fa]"
definition removes_admin :: "user_action list" where "removes_admin = [Disable, Demote, Delete_Account]"
definition role_actions :: "user_action list" where "role_actions = [Promote, Demote]"
definition gives_access :: "user_action list" where "gives_access = [Approve, Enable, Promote]"

definition own_factory_2fa :: "string \<Rightarrow> user \<Rightarrow> user_action \<Rightarrow> bool" where
  "own_factory_2fa me u action \<longleftrightarrow> action = Reset_2fa \<and> is_factory_admin u \<and> us_id u = me"

text \<open>\<open>unlock\<close>: the account's wrong passwords, and the stop of its name.\<close>

definition unlock :: "(string \<Rightarrow> string) \<Rightarrow> bool \<Rightarrow> user \<Rightarrow> site \<Rightarrow> site" where
  "unlock sha redis_up u s = throttle_cleared sha redis_up (us_name u) (change_user (us_id u) clear_lockout s)"

definition apply_action :: "(string \<Rightarrow> string) \<Rightarrow> bool \<Rightarrow> user_action \<Rightarrow> user \<Rightarrow> site \<Rightarrow> site" where
  "apply_action sha redis_up action u s =
     (case action of
        Approve \<Rightarrow> unlock sha redis_up u (change_user (us_id u) (\<lambda>w. w\<lparr>us_approved := True, us_active := True\<rparr>) s)
      | Enable \<Rightarrow> unlock sha redis_up u (change_user (us_id u) (\<lambda>w. w\<lparr>us_active := True\<rparr>) s)
      | Disable \<Rightarrow> change_user (us_id u) (\<lambda>w. w\<lparr>us_active := False\<rparr>) s
      | Promote \<Rightarrow> unlock sha redis_up u (change_user (us_id u)
          (\<lambda>w. w\<lparr>us_role := Admin, us_approved := True, us_active := True\<rparr>) s)
      | Demote \<Rightarrow> change_user (us_id u) (\<lambda>w. w\<lparr>us_role := Operator\<rparr>) s
      | Delete_Account \<Rightarrow> remove_user (us_id u) s
      | Reset_2fa \<Rightarrow> change_user (us_id u) (\<lambda>w. w\<lparr>us_otp := None\<rparr>) s
      | Terminate_Session \<Rightarrow> s)"

definition user_action :: "(string \<Rightarrow> string) \<Rightarrow> bool \<Rightarrow> string \<Rightarrow> user_action \<Rightarrow> string \<Rightarrow> site \<Rightarrow> site option" where
  "user_action sha redis_up me action i s =
     (if action \<in> {Disable, Delete_Account} \<and> i = me then None
      else (case find_user i s of
          None \<Rightarrow> None
        | Some u \<Rightarrow>
            if is_factory_admin u \<and> action \<notin> set factory_actions then None
            else if own_factory_2fa me u action then None
            else if action \<in> set role_actions \<and> directory_sets_role u s then None
            else if action \<in> set gives_access \<and> refuse_without_directory [u] \<noteq> None then None
            else if action \<in> set removes_admin \<and> check_admins_left [i] s then None
            else Some (apply_action sha redis_up action u s)))"

section \<open>Many users\<close>

text \<open>The users an action of several is for: those not left out.\<close>

definition chosen_users :: "string \<Rightarrow> user_action \<Rightarrow> string list \<Rightarrow> site \<Rightarrow> user list" where
  "chosen_users me action ids s =
     List.map_filter (\<lambda>i. case find_user i s of
        None \<Rightarrow> None
      | Some u \<Rightarrow>
          if is_factory_admin u \<and> action \<notin> set factory_actions then None
          else if own_factory_2fa me u action then None
          else if action \<in> {Disable, Delete_Account} \<and> i = me then None
          else Some u) ids"

definition bulk_action :: "(string \<Rightarrow> string) \<Rightarrow> bool \<Rightarrow> string \<Rightarrow> user_action \<Rightarrow> string list \<Rightarrow> site \<Rightarrow> (string list \<times> site) option" where
  "bulk_action sha redis_up me action ids s =
     (let chosen = chosen_users me action ids s in
      if action \<in> set role_actions \<and> list_ex (\<lambda>u. directory_sets_role u s) chosen then None
      else if action \<in> set gives_access \<and> refuse_without_directory chosen \<noteq> None then None
      else if action \<in> set removes_admin \<and> check_admins_left (map us_id chosen) s then None
      else Some (map us_name chosen, fold (apply_action sha redis_up action) chosen s))"

section \<open>Passwords, new accounts, directories\<close>

definition reset_password :: "(string \<Rightarrow> string) \<Rightarrow> (string \<Rightarrow> string) \<Rightarrow> bool \<Rightarrow> string \<Rightarrow> string \<Rightarrow> string \<Rightarrow> site \<Rightarrow> site option" where
  "reset_password hash sha redis_up me i temporary s =
     (if i = me then None
      else (case find_user i s of
          None \<Rightarrow> None
        | Some u \<Rightarrow>
            if is_factory_admin u \<or> us_auth u \<noteq> Local then None
            else Some (unlock sha redis_up u
              (change_user i (\<lambda>w. w\<lparr>us_hash := Some (hash temporary), us_must_change := True\<rparr>) s))))"

definition add_user :: "(string \<Rightarrow> string) \<Rightarrow> string \<Rightarrow> string \<Rightarrow> string \<Rightarrow> string \<Rightarrow> string option \<Rightarrow> string \<Rightarrow> role option \<Rightarrow> site \<Rightarrow> site option" where
  "add_user hash new_id username email full_name position temporary asked_role s =
     (if new_id \<in> set (map us_id (si_users s)) then None
      else (case new_local hash new_id username email full_name position temporary asked_role True True s of
          Inl _ \<Rightarrow> None | Inr s' \<Rightarrow> Some s'))"

definition delete_server :: "string \<Rightarrow> string \<Rightarrow> bool \<Rightarrow> site \<Rightarrow> site option" where
  "delete_server me server delete_users s =
     (if server \<notin> set (map ls_id (si_servers s)) then None
      else if list_ex (\<lambda>u. us_server u = Some server \<and> us_id u = me) (si_users s) then None
      else delete_directory server delete_users s)"

text \<open>The users reconnected, then their roles as the server's rules give them (\<open>Directory.set_roles\<close>: \<open>ruled\<close>).\<close>

definition reconnect_users :: "string list \<Rightarrow> string \<Rightarrow> (string \<Rightarrow> found_user) \<Rightarrow> (string \<Rightarrow> role) \<Rightarrow> site \<Rightarrow> site option" where
  "reconnect_users ids server look ruled s =
     (if ids = [] \<or> \<not> set ids \<subseteq> set (map us_id (si_users s)) then None
      else (case reconnect ids server look s of
          Inl _ \<Rightarrow> None
        | Inr (_, s') \<Rightarrow>
            (let sets_roles = (case List.find (\<lambda>x. ls_id x = server) (si_servers s) of
                 None \<Rightarrow> False | Some x \<Rightarrow> ls_bind x = Regular \<and> True \<in> set (ls_rules x))
             in Some (if sets_roles
               then s'\<lparr>si_users := map (\<lambda>u. if us_id u \<in> set ids then u\<lparr>us_role := ruled (us_name u)\<rparr> else u) (si_users s')\<rparr>
               else s'))))"

text \<open>A directory's form saved: a blank bind type keeps the stored one, active is always taken from the form.\<close>

definition save_server :: "string \<Rightarrow> bind_type option \<Rightarrow> bool \<Rightarrow> site \<Rightarrow> site option" where
  "save_server server bind active s =
     (if server \<notin> set (map ls_id (si_servers s)) then None
      else Some (s\<lparr>si_servers := map (\<lambda>x. if ls_id x = server
        then x\<lparr>ls_bind := (case bind of None \<Rightarrow> ls_bind x | Some b \<Rightarrow> b), ls_active := active\<rparr> else x) (si_servers s)\<rparr>))"

section \<open>What comes in\<close>

text \<open>The requests that are checked for a last administrator, or take nothing from one.\<close>

datatype account_request =
    One_User string user_action string
  | Many_Users string user_action "string list"
  | Set_Password string string string
  | New_Account string string string string "string option" string "role option"
  | Delete_Server string string bool
  | Reconnect "string list" string
  | Role_At_Sign_In string role
  | Reset_Admin "string option"
  | Right_Password string
  | Look_At_Lock string int

definition or_same :: "site \<Rightarrow> site option \<Rightarrow> site" where
  "or_same s r = (case r of None \<Rightarrow> s | Some s' \<Rightarrow> s')"

fun handle :: "(string \<Rightarrow> string) \<Rightarrow> (string \<Rightarrow> string) \<Rightarrow> bool \<Rightarrow> (string \<Rightarrow> found_user) \<Rightarrow> (string \<Rightarrow> role) \<Rightarrow> account_request \<Rightarrow> site \<Rightarrow> site" where
  "handle hash sha up look ruled (One_User me a i) s = or_same s (user_action sha up me a i s)"
| "handle hash sha up look ruled (Many_Users me a ids) s = or_same s (map_option snd (bulk_action sha up me a ids s))"
| "handle hash sha up look ruled (Set_Password me i t) s = or_same s (reset_password hash sha up me i t s)"
| "handle hash sha up look ruled (New_Account i n e f p t r) s = or_same s (add_user hash i n e f p t r s)"
| "handle hash sha up look ruled (Delete_Server me x d) s = or_same s (delete_server me x d s)"
| "handle hash sha up look ruled (Reconnect ids x) s = or_same s (reconnect_users ids x look ruled s)"
| "handle hash sha up look ruled (Role_At_Sign_In i r) s = snd (set_directory_role i r s)"
| "handle hash sha up look ruled (Reset_Admin t) s = or_same s (reset_factory_admin hash t s)"
| "handle hash sha up look ruled (Right_Password i) s = change_user i password_ok s"
| "handle hash sha up look ruled (Look_At_Lock i now) s = change_user i (\<lambda>u. snd (lock_minutes_left now u)) s"

definition handle_all :: "(string \<Rightarrow> string) \<Rightarrow> (string \<Rightarrow> string) \<Rightarrow> bool \<Rightarrow> (string \<Rightarrow> found_user) \<Rightarrow> (string \<Rightarrow> role)
    \<Rightarrow> account_request list \<Rightarrow> site \<Rightarrow> site" where
  "handle_all hash sha up look ruled rs s = fold (handle hash sha up look ruled) rs s"

section \<open>Sessions\<close>

text \<open>A stored session, decoded: whose it is (none before the sign-in) and its clocks, in seconds.\<close>

record session_data =
  ss_user :: "string option"
  ss_signed_in :: "int option"
  ss_last :: "int option"

definition absolute_hours :: int where "absolute_hours = 12"

definition clock_or :: "int \<Rightarrow> int option \<Rightarrow> int" where
  "clock_or now t = (case t of None \<Rightarrow> now | Some x \<Rightarrow> x)"

definition seconds_left :: "session_data \<Rightarrow> int \<Rightarrow> int \<Rightarrow> int \<times> int" where
  "seconds_left d now idle_limit =
     (idle_limit - (now - clock_or now (ss_last d)), absolute_hours * 3600 - (now - clock_or now (ss_signed_in d)))"

text \<open>The store by session id; a session that can't be decoded is \<open>None\<close>: left alone.\<close>

type_synonym sessions = "(string \<times> session_data option) list"

definition ends :: "string \<Rightarrow> string option \<Rightarrow> string \<times> session_data option \<Rightarrow> bool" where
  "ends u keep kd \<longleftrightarrow> (let (sid, d) = kd in
     \<not> (case keep of None \<Rightarrow> False | Some k \<Rightarrow> k \<noteq> [] \<and> sid = k) \<and> (case d of None \<Rightarrow> False | Some x \<Rightarrow> ss_user x = Some u))"

definition end_for :: "string \<Rightarrow> string option \<Rightarrow> sessions \<Rightarrow> nat \<times> sessions" where
  "end_for u keep store = (length (filter (ends u keep) store), filter (\<lambda>kd. \<not> ends u keep kd) store)"

definition live :: "int \<Rightarrow> int \<Rightarrow> session_data \<Rightarrow> bool" where
  "live now idle_limit d \<longleftrightarrow> 0 < fst (seconds_left d now idle_limit) \<and> 0 < snd (seconds_left d now idle_limit)"

definition count_session :: "int \<Rightarrow> int \<Rightarrow> string \<times> session_data option \<Rightarrow> (string \<times> int) list \<Rightarrow> (string \<times> int) list" where
  "count_session now idle_limit kd users =
     (case snd kd of
        None \<Rightarrow> users
      | Some d \<Rightarrow>
          (case ss_user d of
             None \<Rightarrow> users
           | Some u \<Rightarrow>
               if u = [] \<or> \<not> live now idle_limit d then users
               else AList.update u (max (case map_of users u of None \<Rightarrow> 0 | Some t \<Rightarrow> t) (clock_or now (ss_signed_in d))) users))"

definition signed_in :: "int \<Rightarrow> int \<Rightarrow> sessions \<Rightarrow> (string \<times> int) list" where
  "signed_in now idle_limit store = fold (count_session now idle_limit) store []"

end
