(* ===== verification/Account_Properties.thy ===== *)
theory Account_Properties
  imports Account_Actions
begin

text \<open>
  What the rules on the accounts promise: no administrator's action takes the last administrator who can sign in,
  what wrong passwords do, and what a new account looks like.
\<close>

section \<open>The last administrator\<close>

definition has_admin :: "site \<Rightarrow> bool" where
  "has_admin s \<longleftrightarrow> (\<exists>u\<in>set (si_users s). administers s u)"

lemma admins_left_pos:
  "0 < admins_left without s \<longleftrightarrow> (\<exists>u\<in>set (si_users s). administers s u \<and> us_id u \<notin> set without)"
  unfolding admins_left_def by (auto simp: filter_empty_conv)

lemma has_admin_iff: "has_admin s \<longleftrightarrow> 0 < admins_left [] s"
  by (simp add: has_admin_def admins_left_pos)

lemma check_passed:
  "\<not> check_admins_left ids s \<Longrightarrow> has_admin s \<Longrightarrow> \<exists>u\<in>set (si_users s). administers s u \<and> us_id u \<notin> set ids"
  unfolding check_admins_left_def has_admin_iff using admins_left_pos [of ids s] by auto

lemma server_of_servers: "si_servers s' = si_servers s \<Longrightarrow> server_of u s' = server_of u s"
  by (simp add: server_of_def split: option.split)

lemma administers_servers: "si_servers s' = si_servers s \<Longrightarrow> administers s' u = administers s u"
  using server_of_servers [of s' s u] by (simp add: administers_def)

lemma administers_users [simp]: "administers (s\<lparr>si_users := us\<rparr>) u = administers s u"
  by (rule administers_servers) simp

text \<open>A step that only touches the accounts of \<open>ids\<close> and no directory.\<close>

definition only_touches :: "string list \<Rightarrow> site \<Rightarrow> site \<Rightarrow> bool" where
  "only_touches ids s s' \<longleftrightarrow> si_servers s' = si_servers s
     \<and> (\<forall>u\<in>set (si_users s). us_id u \<notin> set ids \<longrightarrow> u \<in> set (si_users s'))"

text \<open>A step after which whoever administers still does.\<close>

definition raises :: "site \<Rightarrow> site \<Rightarrow> bool" where
  "raises s s' \<longleftrightarrow> (has_admin s \<longrightarrow> has_admin s')"

lemma only_touches_trans:
  "only_touches ids s t \<Longrightarrow> only_touches ids t w \<Longrightarrow> only_touches ids s w"
  by (auto simp: only_touches_def)

lemma only_touches_mono: "only_touches ids s t \<Longrightarrow> set ids \<subseteq> set js \<Longrightarrow> only_touches js s t"
  by (auto simp: only_touches_def)

lemma only_touches_refl [simp]: "only_touches ids s s"
  by (simp add: only_touches_def)

lemma only_touches_fold:
  "(\<And>x s. x \<in> set xs \<Longrightarrow> only_touches ids s (f x s)) \<Longrightarrow> only_touches ids s (fold f xs s)"
  by (induction xs arbitrary: s) (auto intro: only_touches_trans)

lemma checked_step_raises:
  assumes "\<not> check_admins_left ids s" "only_touches ids s s'"
  shows "raises s s'"
proof -
  have "has_admin s'" if "has_admin s"
    using check_passed [OF assms(1) that] assms(2) administers_servers [of s' s]
    by (auto simp: has_admin_def only_touches_def)
  then show ?thesis by (simp add: raises_def)
qed

lemma raises_refl [simp]: "raises s s" by (simp add: raises_def)
lemma raises_trans: "raises s t \<Longrightarrow> raises t w \<Longrightarrow> raises s w" by (simp add: raises_def)

lemma raises_fold: "(\<And>x s. x \<in> set xs \<Longrightarrow> raises s (f x s)) \<Longrightarrow> raises s (fold f xs s)"
  by (induction xs arbitrary: s) (auto intro: raises_trans)

lemma change_user_touches: "only_touches [i] s (change_user i f s)"
  by (auto simp: only_touches_def change_user_def)

lemma remove_user_touches: "only_touches [i] s (remove_user i s)"
  by (auto simp: only_touches_def remove_user_def)

lemma change_user_raises:
  assumes "\<And>u. us_id u = i \<Longrightarrow> administers s u \<Longrightarrow> administers s (f u)"
  shows "raises s (change_user i f s)"
  unfolding raises_def has_admin_def change_user_def using assms by auto

lemma throttle_cleared_same: "si_users (throttle_cleared sha up n s) = si_users s"
  "si_servers (throttle_cleared sha up n s) = si_servers s"
  by (simp_all add: throttle_cleared_def Let_def)

lemma throttle_cleared_raises: "raises s (throttle_cleared sha up n s)"
  using administers_servers [OF throttle_cleared_same(2)] by (simp add: raises_def has_admin_def throttle_cleared_same)

lemma unlock_raises: "raises s (unlock sha up u s)"
  unfolding unlock_def
  by (rule raises_trans [OF change_user_raises throttle_cleared_raises])
    (simp add: administers_def server_of_def clear_lockout_def)

lemma change_unlock_raises:
  assumes "\<And>u. us_id u = i \<Longrightarrow> administers s u \<Longrightarrow> administers s (f u)"
  shows "raises s (unlock sha up w (change_user i f s))"
  using raises_trans [OF change_user_raises unlock_raises] assms by blast

lemma apply_action_raises: "a \<notin> set removes_admin \<Longrightarrow> raises s (apply_action sha up a u s)"
  by (cases a)
    (auto simp: apply_action_def removes_admin_def administers_def server_of_def
      intro!: change_unlock_raises change_user_raises)

lemma apply_action_touches: "a \<in> set removes_admin \<Longrightarrow> only_touches [us_id u] s (apply_action sha up a u s)"
  by (auto simp: apply_action_def removes_admin_def change_user_touches remove_user_touches)

lemma find_user_SomeD: "find_user i s = Some u \<Longrightarrow> u \<in> set (si_users s) \<and> us_id u = i"
  unfolding find_user_def by (drule find_SomeD) simp

lemma user_action_raises: "raises s (or_same s (user_action sha up me a i s))"
proof (cases "user_action sha up me a i s")
  case None
  then show ?thesis by (simp add: or_same_def)
next
  case (Some s')
  then obtain u where u: "find_user i s = Some u" and s': "s' = apply_action sha up a u s"
    and c: "a \<in> set removes_admin \<longrightarrow> \<not> check_admins_left [i] s"
    unfolding user_action_def by (auto split: if_splits option.splits)
  have "us_id u = i" using find_user_SomeD [OF u] by simp
  then have "raises s s'"
    using c checked_step_raises [of "[i]" s s'] apply_action_touches [of a u s sha up] apply_action_raises [of a s sha up u] s'
    by (cases "a \<in> set removes_admin") auto
  then show ?thesis using Some by (simp add: or_same_def)
qed

lemma bulk_action_raises: "raises s (or_same s (map_option snd (bulk_action sha up me a ids s)))"
proof (cases "bulk_action sha up me a ids s")
  case None
  then show ?thesis by (simp add: or_same_def)
next
  case (Some r)
  let ?c = "chosen_users me a ids s"
  have s': "snd r = fold (apply_action sha up a) ?c s"
    and c: "a \<in> set removes_admin \<longrightarrow> \<not> check_admins_left (map us_id ?c) s"
    using Some unfolding bulk_action_def Let_def by (auto split: if_splits)
  have "raises s (snd r)"
  proof (cases "a \<in> set removes_admin")
    case True
    have "only_touches (map us_id ?c) s (snd r)"
      unfolding s' by (rule only_touches_fold) (rule only_touches_mono [OF apply_action_touches [OF True]], simp)
    then show ?thesis using c True checked_step_raises by blast
  next
    case False
    then show ?thesis unfolding s' by (intro raises_fold apply_action_raises)
  qed
  then show ?thesis using Some by (simp add: or_same_def)
qed


lemma find_filter_other: "x \<noteq> y \<Longrightarrow> List.find (\<lambda>w. k w = y) (filter (\<lambda>w. k w \<noteq> x) xs) = List.find (\<lambda>w. k w = y) xs"
  by (induction xs) auto

lemma delete_directory_raises:
  assumes "delete_directory server d s = Some s'"
  shows "raises s s'"
proof -
  define theirs where "theirs = map us_id (filter (\<lambda>u. us_server u = Some server) (si_users s))"
  define s1 where "s1 = (if d then fold remove_user theirs s
                         else fold (\<lambda>i. change_user i (\<lambda>u. u\<lparr>us_active := False\<rparr>)) theirs s)"
  have c: "\<not> check_admins_left theirs s"
    and s': "s' = s1\<lparr>si_servers := filter (\<lambda>x. ls_id x \<noteq> server) (si_servers s1),
             si_users := map (\<lambda>u. if us_server u = Some server then u\<lparr>us_server := None\<rparr> else u) (si_users s1)\<rparr>"
    using assms unfolding delete_directory_def theirs_def [symmetric] s1_def by (auto simp: Let_def split: if_splits)
  have one: "only_touches theirs s (remove_user i s)" "only_touches theirs s (change_user i f s)" if "i \<in> set theirs" for i s f
    using that by (auto intro: only_touches_mono [OF remove_user_touches] only_touches_mono [OF change_user_touches])
  have t: "only_touches theirs s s1"
    unfolding s1_def by (auto intro: only_touches_fold one)
  have "has_admin s'" if "has_admin s"
  proof -
    obtain u where u: "u \<in> set (si_users s)" "administers s u" "us_id u \<notin> set theirs"
      using check_passed [OF c \<open>has_admin s\<close>] by blast
    have not: "us_server u \<noteq> Some server" using u(1,3) by (auto simp: theirs_def)
    have u1: "u \<in> set (si_users s1)" and serv: "si_servers s1 = si_servers s"
      using t u by (auto simp: only_touches_def)
    have mem: "u \<in> set (si_users s')"
      unfolding s' using u1 not by (auto intro!: image_eqI [of _ _ u])
    have "server_of u s' = server_of u s"
      unfolding s' server_of_def using not serv by (auto simp: find_filter_other split: option.split)
    then have "administers s' u" using u(2) by (simp add: administers_def)
    then show ?thesis using mem by (auto simp: has_admin_def)
  qed
  then show ?thesis by (simp add: raises_def)
qed

lemma reconnect_each_touches:
  "(\<forall>u\<in>set us. us_id u \<in> set ids) \<Longrightarrow> only_touches ids s (reconnect_each server look us s)"
proof (induction us arbitrary: s)
  case (Cons u us)
  have "only_touches ids s (change_user (us_id u) (\<lambda>w. reconnected server d w (si_users s)) s)" for d
    using Cons.prems by (intro only_touches_mono [OF change_user_touches]) simp
  then show ?case
    using Cons.IH Cons.prems unfolding reconnect_each.simps Let_def by (meson list.set_intros(2) only_touches_trans)
qed simp

lemma sort_Nil: "sort xs = [] \<longleftrightarrow> xs = []"
  by (cases xs) (auto simp flip: length_0_conv)

lemma reconnect_users_raises:
  assumes "reconnect_users ids server look ruled s = Some s'"
  shows "raises s s'"
proof -
  let ?us = "filter (\<lambda>u. us_id u \<in> set ids) (si_users s)"
  obtain shown s1 where r: "reconnect ids server look s = Inr (shown, s1)"
    and s': "s' = s1 \<or> s' = s1\<lparr>si_users := map (\<lambda>u. if us_id u \<in> set ids then u\<lparr>us_role := ruled (us_name u)\<rparr> else u) (si_users s1)\<rparr>"
    using assms unfolding reconnect_users_def by (auto simp: Let_def split: if_splits sum.splits)
  have "sort (map us_name (filter (\<lambda>u. \<not> has_no_directory u) ?us)) = []" and s1: "s1 = reconnect_each server look ?us s"
    using r unfolding reconnect_def Let_def by (auto split: option.splits if_splits)
  then have none: "filter (\<lambda>u. \<not> has_no_directory u) ?us = []"
    unfolding sort_Nil map_is_Nil_conv by blast
  have t: "only_touches ids s s1" unfolding s1 by (rule reconnect_each_touches) simp
  have "only_touches ids s s'"
    using s' t by (auto simp: only_touches_def intro!: image_eqI)
  moreover have "us_id u \<notin> set ids" if "u \<in> set (si_users s)" "administers s u" for u
  proof
    assume "us_id u \<in> set ids"
    then have "has_no_directory u" using none that(1) by (auto simp: filter_empty_conv)
    then show False using that(2) by (simp add: has_no_directory_def administers_def server_of_def)
  qed
  ultimately show ?thesis
    using administers_servers [of s' s] by (auto simp: raises_def has_admin_def only_touches_def)
qed

lemma set_directory_role_raises: "raises s (snd (set_directory_role i r s))"
proof (cases "find_user i s")
  case (Some u)
  have c: "raises s (change_user i (\<lambda>u. u\<lparr>us_role := r\<rparr>) s)" if "r = Admin \<or> \<not> check_admins_left [i] s"
  proof (cases "r = Admin")
    case True
    then show ?thesis by (auto intro!: change_user_raises simp: administers_def server_of_def)
  next
    case False
    then show ?thesis using that checked_step_raises [OF _ change_user_touches] by blast
  qed
  show ?thesis
    using Some c by (cases r; cases "us_role u") (auto simp: set_directory_role_def)
qed (simp add: set_directory_role_def)

lemma reset_factory_admin_raises: "reset_factory_admin hash t s = Some s' \<Longrightarrow> raises s s'"
  unfolding reset_factory_admin_def
  by (auto split: option.splits if_splits intro!: change_user_raises
      simp: administers_def server_of_def clear_lockout_def Let_def)

lemma reset_password_raises: "reset_password hash sha up me i t s = Some s' \<Longrightarrow> raises s s'"
  unfolding reset_password_def
  by (auto split: option.splits if_splits intro!: change_unlock_raises simp: administers_def server_of_def)

lemma add_user_raises: "add_user hash i n e f p t r s = Some s' \<Longrightarrow> raises s s'"
  unfolding add_user_def new_local_def Let_def
  by (auto split: option.splits if_splits sum.splits simp: raises_def has_admin_def)

lemma or_same_raises: "(\<And>s'. r = Some s' \<Longrightarrow> raises s s') \<Longrightarrow> raises s (or_same s r)"
  by (cases r) (simp_all add: or_same_def)

lemma handle_raises: "raises s (handle hash sha up look ruled r s)"
proof (cases r)
  case (Delete_Server me x d)
  have "raises s s'" if "delete_server me x d s = Some s'" for s'
    using that by (auto simp: delete_server_def split: if_splits intro: delete_directory_raises)
  then show ?thesis using Delete_Server by (simp add: or_same_raises)
qed (auto intro!: or_same_raises change_user_raises
    simp: user_action_raises bulk_action_raises reset_password_raises add_user_raises reconnect_users_raises
      set_directory_role_raises reset_factory_admin_raises administers_def server_of_def password_ok_def
      lock_minutes_left_def split: option.split)

lemma handle_all_raises: "raises s (handle_all hash sha up look ruled rs s)"
  unfolding handle_all_def by (rule raises_fold) (rule handle_raises)

end
