(* ===== verification/Sign_In.thy ===== *)
theory Sign_In
  imports Account_Actions
begin

text \<open>
  \<open>src/webapp/blueprints/auth.py\<close>: one browser's way in - the sign-in page, local and directory accounts, the second
  factor and its enrolment, access requests, the password change, the factory admin's own second factor -, behind the
  gates of \<open>src/webapp/hooks.py\<close> (the session's lifetime, a pending password change). The directory, the password and
  code checks and the encryption are the functions of an \<open>env\<close>; times are microseconds.
\<close>

section \<open>The browser, the world around, the answers\<close>

text \<open>What the session holds: the user signed in with its clocks (seconds), and the half-done sign-in.\<close>

record browser =
  br_user :: "string option"
  br_signed_in :: "int option"
  br_last :: "int option"
  br_pending :: "string option"
  br_totp :: "string option"
  br_wrong :: "nat option"
  br_account_totp :: "string option"

definition fresh :: browser where
  "fresh = \<lparr>br_user = None, br_signed_in = None, br_last = None, br_pending = None, br_totp = None, br_wrong = None,
     br_account_totp = None\<rparr>"

text \<open>\<open>en_bind\<close>: whether the directory takes a password; \<open>en_rules\<close>: the roles of the active group rules a user matches;
  \<open>en_member\<close>: the role of an unknown name whose password and groups the directory accepts. \<open>None\<close>: the directory
  couldn't be asked.\<close>

record env =
  en_check :: "string \<Rightarrow> string \<Rightarrow> bool"
  en_hash :: "string \<Rightarrow> string"
  en_code :: "int \<Rightarrow> string \<Rightarrow> string \<Rightarrow> bool"
  en_encrypt :: "string \<Rightarrow> string"
  en_decrypt :: "string \<Rightarrow> string"
  en_sha :: "string \<Rightarrow> string"
  en_redis :: bool
  en_bind :: "string \<Rightarrow> string \<Rightarrow> string \<Rightarrow> bool option"
  en_rules :: "string \<Rightarrow> string \<Rightarrow> role list option"
  en_member :: "string \<Rightarrow> string \<Rightarrow> string \<Rightarrow> role option option"
  en_details :: "string \<Rightarrow> string \<Rightarrow> (string option \<times> string option) option"
  en_idle :: int

datatype page =
    Sign_In_Page | Code_Page | Enrol_Page | Dashboard | Account_Page | Password_Page | Setup_Page | Off_Page
  | Register_Page | The_Page string | Signed_Out | Server_Error

text \<open>Why a sign-in failed: the audit row's reason.\<close>

datatype reason =
    Invalid_Credentials | Account_Disabled | Pending_Approval | Ldap_Bind_Failed | Ldap_Unavailable
  | Ldap_Server_Inactive | Ldap_Server_Missing | Ldap_Groups_Unavailable | Reserved_Username | Account_Locked
  | Too_Many_Attempts

text \<open>What the person sees - a message and where they land - and the failure's reason, for the audit only.\<close>

record reply =
  re_says :: "string option"
  re_to :: page
  re_reason :: "reason option"

definition go :: "page \<Rightarrow> reply" where
  "go p = \<lparr>re_says = None, re_to = p, re_reason = None\<rparr>"

definition say :: "string \<Rightarrow> page \<Rightarrow> reply" where
  "say m p = \<lparr>re_says = Some m, re_to = p, re_reason = None\<rparr>"

type_synonym world = "browser \<times> site"

definition reserved_message :: string where
  "reserved_message = ''That username is reserved for NetRollout'' @ squote # ''s own use - choose another.''"

fun fail_message :: "reason \<Rightarrow> string" where
  "fail_message Invalid_Credentials = ''Invalid credentials''"
| "fail_message Account_Disabled = ''User disabled, please check with administrator''"
| "fail_message Pending_Approval = ''User still pending admin approval''"
| "fail_message Ldap_Bind_Failed = ''Invalid credentials''"
| "fail_message Ldap_Unavailable = ''Invalid credentials''"
| "fail_message Ldap_Server_Inactive = ''Invalid credentials''"
| "fail_message Ldap_Server_Missing = ''Invalid credentials''"
| "fail_message Ldap_Groups_Unavailable = ''LDAP authentication service unavailable''"
| "fail_message Reserved_Username = reserved_message"
| "fail_message Account_Locked = ''Invalid credentials''"
| "fail_message Too_Many_Attempts = ''Too many failed sign-ins - try again later.''"

definition counted_failures :: "reason list" where
  "counted_failures = [Invalid_Credentials, Account_Locked, Ldap_Bind_Failed, Ldap_Unavailable, Ldap_Server_Inactive,
     Ldap_Server_Missing, Reserved_Username]"

definition in_seconds :: "int \<Rightarrow> int" where "in_seconds now = now div 10 ^ 6"

text \<open>\<open>login_fail\<close>: the failure counted for the typed name, its message, and the half-done sign-in dropped.\<close>

definition login_fail :: "env \<Rightarrow> int \<Rightarrow> string \<Rightarrow> reason \<Rightarrow> string option \<Rightarrow> world \<Rightarrow> reply \<times> world" where
  "login_fail e now username reason message w =
     (let (b, s) = w;
          (seconds, s1) = (if reason \<in> set counted_failures
            then throttle_failed (en_sha e) (en_redis e) (in_seconds now) username s else (None, s));
          said = (case seconds of
             Some x \<Rightarrow> lock_message (nat x)
           | None \<Rightarrow> (case message of Some m \<Rightarrow> m | None \<Rightarrow> fail_message reason))
      in (\<lparr>re_says = Some said, re_to = Sign_In_Page, re_reason = Some reason\<rparr>, b\<lparr>br_pending := None\<rparr>, s1))"

text \<open>\<open>_sign_in\<close>: what was half done is dropped, the user signed in - by Flask-Login, which takes active users only -
  and the clocks start.\<close>

definition sign_in :: "int \<Rightarrow> user \<Rightarrow> world \<Rightarrow> reply \<times> world" where
  "sign_in now u w =
     (let (b, s) = w; b1 = b\<lparr>br_pending := None, br_totp := None, br_wrong := None\<rparr>;
          b2 = (if us_active u then b1\<lparr>br_user := Some (us_id u)\<rparr> else b1)
      in (go Dashboard, b2\<lparr>br_signed_in := Some (in_seconds now), br_last := Some (in_seconds now)\<rparr>, s))"

definition has_otp :: "user \<Rightarrow> bool" where
  "has_otp u \<longleftrightarrow> (case us_otp u of None \<Rightarrow> False | Some x \<Rightarrow> x \<noteq> [])"

definition start_otp_flow :: "user \<Rightarrow> world \<Rightarrow> reply \<times> world" where
  "start_otp_flow u w =
     (let (b, s) = w; b1 = b\<lparr>br_pending := Some (us_id u), br_wrong := None\<rparr> in
      (if has_otp u then go Code_Page
       else say ''To complete enrollment, you are referred to OTP set up portal'' Enrol_Page, b1, s))"

section \<open>The sign-in page\<close>

definition login_local :: "env \<Rightarrow> int \<Rightarrow> user \<Rightarrow> string \<Rightarrow> world \<Rightarrow> reply \<times> world" where
  "login_local e now u password w =
     (let (b, s) = w; (minutes, u1) = lock_minutes_left now u; s1 = change_user (us_id u) (\<lambda>_. u1) s in
      case us_hash u of
        None \<Rightarrow> (go Server_Error, b, s)
      | Some h \<Rightarrow>
          if minutes \<noteq> None then login_fail e now (us_name u) Account_Locked None (b, s1)
          else if \<not> en_check e h password
            then login_fail e now (us_name u) Invalid_Credentials None (b, change_user (us_id u) (\<lambda>_. snd (password_failed now u1)) s1)
          else (let s2 = throttle_cleared (en_sha e) (en_redis e) (us_name u) (change_user (us_id u) (\<lambda>_. password_ok u1) s1) in
            if \<not> us_approved u then login_fail e now (us_name u) Pending_Approval None (b, s2)
            else if \<not> us_active u then login_fail e now (us_name u) Account_Disabled None (b, s2)
            else if \<not> needs_second_factor u then sign_in now u (b, s2)
            else start_otp_flow u (b, s2)))"

definition highest_role :: "role list \<Rightarrow> role" where
  "highest_role roles = (if Admin \<in> set roles then Admin else Operator)"

definition login_ldap_existing :: "env \<Rightarrow> int \<Rightarrow> user \<Rightarrow> string \<Rightarrow> world \<Rightarrow> reply \<times> world" where
  "login_ldap_existing e now u password w =
     (let (b, s) = w in
      case server_of u s of
        None \<Rightarrow> login_fail e now (us_name u) Ldap_Server_Missing None w
      | Some srv \<Rightarrow>
          if \<not> ls_active srv then login_fail e now (us_name u) Ldap_Server_Inactive None w
          else (case en_bind e (ls_id srv) (us_name u) password of
              None \<Rightarrow> login_fail e now (us_name u) Ldap_Unavailable None w
            | Some False \<Rightarrow> login_fail e now (us_name u) Ldap_Bind_Failed None w
            | Some True \<Rightarrow>
                (let s1 = throttle_cleared (en_sha e) (en_redis e) (us_name u) s in
                 if \<not> us_approved u then login_fail e now (us_name u) Pending_Approval None (b, s1)
                 else if \<not> us_active u then login_fail e now (us_name u) Account_Disabled None (b, s1)
                 else if directory_sets_role u s
                   then (case en_rules e (ls_id srv) (us_name u) of
                       None \<Rightarrow> login_fail e now (us_name u) Ldap_Groups_Unavailable None (b, s1)
                     | Some roles \<Rightarrow> sign_in now u (b, snd (set_directory_role (us_id u) (highest_role roles) s1)))
                 else sign_in now u (b, s1))))"

text \<open>A name no account has: the active directory's groups decide (\<open>new_id\<close>: the id the database would give).\<close>

definition login_ldap_group :: "env \<Rightarrow> int \<Rightarrow> string \<Rightarrow> string \<Rightarrow> string \<Rightarrow> world \<Rightarrow> reply \<times> world" where
  "login_ldap_group e now new_id username password w =
     (let (b, s) = w in
      if is_reserved username then login_fail e now username Reserved_Username None w
      else (case List.find ls_active (si_servers s) of
          None \<Rightarrow> login_fail e now username Invalid_Credentials None w
        | Some srv \<Rightarrow>
            if True \<notin> set (ls_rules srv) then login_fail e now username Invalid_Credentials None w
            else (case en_member e (ls_id srv) username password of
                None \<Rightarrow> login_fail e now username Ldap_Unavailable None w
              | Some None \<Rightarrow> login_fail e now username Invalid_Credentials None w
              | Some (Some r) \<Rightarrow>
                  (let s1 = throttle_cleared (en_sha e) (en_redis e) username s in
                   case new_ldap new_id username (ls_id srv) (Some r)
                       (case en_details e (ls_id srv) username of None \<Rightarrow> (None, None) | Some d \<Rightarrow> d) s1 of
                     Some (Inr s2) \<Rightarrow>
                       (case by_name username s2 of
                          None \<Rightarrow> (go Server_Error, b, s1)
                        | Some u \<Rightarrow> sign_in now u (b, s2))
                   | _ \<Rightarrow> (go Server_Error, b, s1)))))"

definition login :: "env \<Rightarrow> int \<Rightarrow> bool \<Rightarrow> string \<Rightarrow> string \<Rightarrow> string \<Rightarrow> world \<Rightarrow> reply \<times> world" where
  "login e now foreign new_id username password w =
     (let (b, s) = w in
      if foreign then (go Sign_In_Page, w)
      else (case throttle_seconds_left (en_sha e) (en_redis e) (in_seconds now) username s of
          Some seconds \<Rightarrow> login_fail e now username Too_Many_Attempts (Some (lock_message (nat seconds))) w
        | None \<Rightarrow>
            (case by_name username s of
               Some u \<Rightarrow> (case us_auth u of
                   Local \<Rightarrow> login_local e now u password w
                 | Ldap \<Rightarrow> login_ldap_existing e now u password w)
             | None \<Rightarrow>
                 (let same = by_name_ci username s; ldap = filter (\<lambda>u. us_auth u = Ldap) same in
                  if length ldap = 1 \<and> length same = 1 then login_ldap_existing e now (hd ldap) password w
                  else if same \<noteq> [] then login_fail e now username Invalid_Credentials None w
                  else login_ldap_group e now new_id username password w))))"

section \<open>The second factor\<close>

definition max_wrong_codes :: nat where "max_wrong_codes = 5"

definition pending_user :: "world \<Rightarrow> user option" where
  "pending_user w = (case br_pending (fst w) of None \<Rightarrow> None | Some i \<Rightarrow> find_user i (snd w))"

definition wrong_code :: "page \<Rightarrow> world \<Rightarrow> reply \<times> world" where
  "wrong_code retry w =
     (let (b, s) = w; wrong = (case br_wrong b of None \<Rightarrow> 0 | Some n \<Rightarrow> n) + 1 in
      if max_wrong_codes \<le> wrong
      then (say ''Too many wrong codes - sign in again.'' Sign_In_Page,
            b\<lparr>br_pending := None, br_totp := None, br_wrong := None\<rparr>, s)
      else (say ''invalid code, please try again'' retry, b\<lparr>br_wrong := Some wrong\<rparr>, s))"

text \<open>The enrolment's page: \<open>secret\<close> is a new authenticator's; then a code from it.\<close>

definition otp_enroll_page :: "string \<Rightarrow> world \<Rightarrow> reply \<times> world" where
  "otp_enroll_page secret w =
     (case pending_user w of
        None \<Rightarrow> (go Sign_In_Page, w)
      | Some u \<Rightarrow>
          (let (b, s) = w in
           if has_otp u then (go Code_Page, b\<lparr>br_totp := None\<rparr>, s)
           else (go Enrol_Page, b\<lparr>br_totp := Some (case br_totp b of None \<Rightarrow> secret | Some x \<Rightarrow> if x = [] then secret else x)\<rparr>, s)))"

definition otp_enroll :: "env \<Rightarrow> int \<Rightarrow> string \<Rightarrow> world \<Rightarrow> reply \<times> world" where
  "otp_enroll e now code w =
     (case pending_user w of
        None \<Rightarrow> (go Sign_In_Page, w)
      | Some u \<Rightarrow>
          (let (b, s) = w in
           if has_otp u then (go Code_Page, b\<lparr>br_totp := None\<rparr>, s)
           else (case br_totp b of
               None \<Rightarrow> (go Enrol_Page, w)
             | Some secret \<Rightarrow>
                 if secret = [] then (go Enrol_Page, w)
                 else if \<not> en_code e now secret code then wrong_code Enrol_Page w
                 else sign_in now u (b, change_user (us_id u) (\<lambda>x. x\<lparr>us_otp := Some (en_encrypt e secret)\<rparr>) s))))"

definition otp_verify :: "env \<Rightarrow> int \<Rightarrow> string \<Rightarrow> world \<Rightarrow> reply \<times> world" where
  "otp_verify e now code w =
     (case pending_user w of
        None \<Rightarrow> (go Sign_In_Page, w)
      | Some u \<Rightarrow>
          if \<not> has_otp u then (go Enrol_Page, w)
          else if \<not> en_code e now (en_decrypt e (the (us_otp u))) code then wrong_code Code_Page w
          else sign_in now u w)"

section \<open>Access requests and the signed-in user's own account\<close>

definition signed_in_account :: "world \<Rightarrow> user option" where
  "signed_in_account w = (case br_user (fst w) of None \<Rightarrow> None | Some i \<Rightarrow> find_user i (snd w))"

definition register :: "env \<Rightarrow> string \<Rightarrow> string \<Rightarrow> string \<Rightarrow> string \<Rightarrow> string option \<Rightarrow> string \<Rightarrow> world \<Rightarrow> reply \<times> world" where
  "register e new_id username email full_name position password w =
     (let (b, s) = w in
      if signed_in_account w \<noteq> None then (go Dashboard, w)
      else if new_id \<in> set (map us_id (si_users s)) then (go Server_Error, w)
      else (case new_local (en_hash e) new_id (strip username) email full_name position password (Some Operator) False False s of
          Inl problem \<Rightarrow> (say problem Register_Page, w)
        | Inr s1 \<Rightarrow> (say ''Registration successful - your account is pending admin approval.'' Sign_In_Page, b, s1)))"

definition logout :: "world \<Rightarrow> reply \<times> world" where
  "logout w = (go Sign_In_Page, fresh, snd w)"

text \<open>The pages below are for the signed-in user \<open>u\<close>.\<close>

definition password_change_problem :: "env \<Rightarrow> user \<Rightarrow> string \<Rightarrow> string \<Rightarrow> string \<Rightarrow> string \<Rightarrow> string option" where
  "password_change_problem e u stored current new confirm =
     (if \<not> us_must_change u \<and> \<not> en_check e stored current then Some ''The current password is incorrect.''
      else if new \<noteq> confirm then Some (''The new passwords don'' @ squote # ''t match.'')
      else if us_must_change u \<and> en_check e stored new then Some ''The new password must differ from the current one.''
      else password_problem new (Some (us_name u)) (if us_must_change u then None else Some current))"

definition change_password :: "env \<Rightarrow> user \<Rightarrow> string \<Rightarrow> string \<Rightarrow> string \<Rightarrow> world \<Rightarrow> reply \<times> world" where
  "change_password e u current new confirm w =
     (let (b, s) = w in
      if us_auth u \<noteq> Local
      then (say ''Your password is managed by the directory (LDAP) - change it there.'' Account_Page, w)
      else (case us_hash u of
          None \<Rightarrow> (go Server_Error, w)
        | Some stored \<Rightarrow>
            (case password_change_problem e u stored current new confirm of
               Some problem \<Rightarrow> (say problem Password_Page, w)
             | None \<Rightarrow> (say ''Password changed.'' Dashboard, b,
                 change_user (us_id u) (\<lambda>x. x\<lparr>us_hash := Some (en_hash e new), us_must_change := False\<rparr>) s))))"

definition factory_only :: string where
  "factory_only = ''Two-factor sign-in can be turned on or off only for the factory admin account.''"

definition not_right :: string where
  "not_right = ''That code isn'' @ squote # ''t right - try the one your app shows now.''"

definition account_2fa_page :: "string \<Rightarrow> user \<Rightarrow> world \<Rightarrow> reply \<times> world" where
  "account_2fa_page secret u w =
     (let (b, s) = w in
      if \<not> is_factory_admin u then (say factory_only Account_Page, w)
      else if has_otp u then (go Account_Page, b\<lparr>br_account_totp := None\<rparr>, s)
      else (go Setup_Page, b\<lparr>br_account_totp := Some (case br_account_totp b of
          None \<Rightarrow> secret | Some x \<Rightarrow> if x = [] then secret else x)\<rparr>, s))"

definition account_2fa_setup :: "env \<Rightarrow> int \<Rightarrow> string \<Rightarrow> user \<Rightarrow> world \<Rightarrow> reply \<times> world" where
  "account_2fa_setup e now code u w =
     (let (b, s) = w in
      if \<not> is_factory_admin u then (say factory_only Account_Page, w)
      else if has_otp u then (go Account_Page, b\<lparr>br_account_totp := None\<rparr>, s)
      else (case br_account_totp b of
          None \<Rightarrow> (go Setup_Page, w)
        | Some secret \<Rightarrow>
            if secret = [] then (go Setup_Page, w)
            else if \<not> en_code e now secret code then (say not_right Setup_Page, w)
            else (say (''Two-factor sign-in is on: from your next sign-in, NetRollout asks for ''
                @ ''a code from your authenticator app after the password.'') Account_Page,
              b\<lparr>br_account_totp := None\<rparr>, change_user (us_id u) (\<lambda>x. x\<lparr>us_otp := Some (en_encrypt e secret)\<rparr>) s)))"

definition account_2fa_off :: "env \<Rightarrow> int \<Rightarrow> string \<Rightarrow> string \<Rightarrow> user \<Rightarrow> world \<Rightarrow> reply \<times> world" where
  "account_2fa_off e now password code u w =
     (let (b, s) = w in
      if \<not> is_factory_admin u then (say factory_only Account_Page, w)
      else if \<not> has_otp u then (go Account_Page, w)
      else (case us_hash u of
          None \<Rightarrow> (go Server_Error, w)
        | Some h \<Rightarrow>
            if \<not> en_check e h password then (say ''The password is incorrect.'' Off_Page, w)
            else if \<not> en_code e now (en_decrypt e (the (us_otp u))) code then (say not_right Off_Page, w)
            else (say ''Two-factor sign-in is off: this account signs in with its password alone.'' Account_Page,
              b, change_user (us_id u) (\<lambda>x. x\<lparr>us_otp := None\<rparr>) s)))"

section \<open>The requests, behind the gates\<close>

text \<open>\<open>Page\<close>: any other page for signed-in users.\<close>

datatype request =
    Login bool string string string
  | Enrol_Shown string
  | Enrol_Code string
  | Verify_Code string
  | Register string string string string "string option" string
  | Logout
  | Change_Password string string string
  | Setup_Shown string
  | Setup_Code string
  | Turn_Off string string
  | Page string

text \<open>\<open>enforce_session_lifetime\<close>: \<open>Inl\<close> - the session is over.\<close>

definition clocks :: "browser \<Rightarrow> int \<Rightarrow> browser" where
  "clocks b now = b\<lparr>br_signed_in := Some (clock_or now (br_signed_in b)), br_last := Some (clock_or now (br_last b))\<rparr>"

definition session_of :: "browser \<Rightarrow> session_data" where
  "session_of b = \<lparr>ss_user = br_user b, ss_signed_in = br_signed_in b, ss_last = br_last b\<rparr>"

definition enforce_session_lifetime :: "env \<Rightarrow> int \<Rightarrow> bool \<Rightarrow> world \<Rightarrow> (reply \<times> world) + world" where
  "enforce_session_lifetime e now background w =
     (if signed_in_account w = None then Inr w
      else (let t = in_seconds now; b = clocks (fst w) t; (idle, absolute) = seconds_left (session_of b) t (en_idle e) in
        if 0 < idle \<and> 0 < absolute
        then Inr (if background then b else b\<lparr>br_last := Some t\<rparr>, snd w)
        else Inl (say (if idle \<le> 0
            then ''You were signed out after '' @ show_nat (nat (en_idle e div 60)) @ '' minutes without activity.''
            else ''Signed out: sessions last at most 12 hours. Sign in again.'') Sign_In_Page, fresh, snd w)))"

fun allowed_before_change :: "request \<Rightarrow> bool" where
  "allowed_before_change (Change_Password _ _ _) = True"
| "allowed_before_change Logout = True"
| "allowed_before_change _ = False"

text \<open>A handler under \<open>login_required\<close>.\<close>

definition for_signed_in :: "(user \<Rightarrow> world \<Rightarrow> reply \<times> world) \<Rightarrow> world \<Rightarrow> reply \<times> world" where
  "for_signed_in f w = (case signed_in_account w of None \<Rightarrow> (go Signed_Out, w) | Some u \<Rightarrow> f u w)"

fun respond :: "env \<Rightarrow> int \<Rightarrow> request \<Rightarrow> world \<Rightarrow> reply \<times> world" where
  "respond e now (Login foreign new_id username password) w = login e now foreign new_id username password w"
| "respond e now (Enrol_Shown secret) w = otp_enroll_page secret w"
| "respond e now (Enrol_Code code) w = otp_enroll e now code w"
| "respond e now (Verify_Code code) w = otp_verify e now code w"
| "respond e now (Register new_id username email full_name position password) w =
     register e new_id username email full_name position password w"
| "respond e now Logout w = logout w"
| "respond e now (Change_Password current new confirm) w = for_signed_in (\<lambda>u. change_password e u current new confirm) w"
| "respond e now (Setup_Shown secret) w = for_signed_in (account_2fa_page secret) w"
| "respond e now (Setup_Code code) w = for_signed_in (account_2fa_setup e now code) w"
| "respond e now (Turn_Off password code) w = for_signed_in (account_2fa_off e now password code) w"
| "respond e now (Page name) w = for_signed_in (\<lambda>u w. (go (The_Page name), w)) w"

definition handle_request :: "env \<Rightarrow> int \<times> bool \<times> request \<Rightarrow> world \<Rightarrow> reply \<times> world" where
  "handle_request e r w =
     (let (now, background, req) = r in
      case enforce_session_lifetime e now background w of
        Inl answer \<Rightarrow> answer
      | Inr w1 \<Rightarrow>
          if (case signed_in_account w1 of None \<Rightarrow> False | Some u \<Rightarrow> us_must_change u) \<and> \<not> allowed_before_change req
          then (go Password_Page, w1)
          else respond e now req w1)"

fun handle_requests :: "env \<Rightarrow> (int \<times> bool \<times> request) list \<Rightarrow> world \<Rightarrow> reply list \<times> world" where
  "handle_requests e [] w = ([], w)"
| "handle_requests e (r # rs) w =
     (let (answer, w1) = handle_request e r w; (answers, w2) = handle_requests e rs w1 in (answer # answers, w2))"


section \<open>Many browsers, and the administrators\<close>

datatype event = By_Admin account_request | By_Browser nat int bool request

type_synonym system = "(nat \<Rightarrow> browser) \<times> site"

definition happens :: "env \<Rightarrow> (string \<Rightarrow> found_user) \<Rightarrow> (string \<Rightarrow> role) \<Rightarrow> event \<Rightarrow> system \<Rightarrow> system" where
  "happens e look ruled ev w =
     (case ev of
        By_Admin r \<Rightarrow> (fst w, handle (en_hash e) (en_sha e) (en_redis e) look ruled r (snd w))
      | By_Browser k now background req \<Rightarrow>
          (let (b, s) = snd (handle_request e (now, background, req) (fst w k, snd w)) in ((fst w)(k := b), s)))"

section \<open>What proves who someone is\<close>

text \<open>The account a typed name stands for.\<close>

definition account_for :: "string \<Rightarrow> site \<Rightarrow> user option" where
  "account_for typed s =
     (case by_name typed s of
        Some u \<Rightarrow> Some u
      | None \<Rightarrow> (let same = by_name_ci typed s; ldap = filter (\<lambda>u. us_auth u = Ldap) same
          in if length ldap = 1 \<and> length same = 1 then Some (hd ldap) else None))"

definition takes_password :: "env \<Rightarrow> site \<Rightarrow> user \<Rightarrow> string \<Rightarrow> bool" where
  "takes_password e s u password =
     (case us_auth u of
        Local \<Rightarrow> (case us_hash u of None \<Rightarrow> False | Some h \<Rightarrow> en_check e h password)
      | Ldap \<Rightarrow> (case server_of u s of
            None \<Rightarrow> False
          | Some srv \<Rightarrow> ls_active srv \<and> en_bind e (ls_id srv) (us_name u) password = Some True))"

definition member_of_group :: "env \<Rightarrow> string \<Rightarrow> string \<Rightarrow> site \<Rightarrow> bool" where
  "member_of_group e typed password s =
     (case List.find ls_active (si_servers s) of
        None \<Rightarrow> False
      | Some srv \<Rightarrow> (case en_member e (ls_id srv) typed password of Some (Some _) \<Rightarrow> True | _ \<Rightarrow> False))"

text \<open>Whose password a request proves: the account's, or that of the one made for a group's member.\<close>

fun password_proofs :: "env \<Rightarrow> request \<Rightarrow> site \<Rightarrow> string list" where
  "password_proofs e (Login foreign new_id typed password) s =
     (case account_for typed s of
        Some u \<Rightarrow> (if takes_password e s u password then [us_id u] else [])
      | None \<Rightarrow> (if member_of_group e typed password s then [new_id] else []))"
| "password_proofs e _ s = []"

text \<open>Whether a request proves, by a right code, that it comes from the half-done sign-in's user.\<close>

definition proves_code :: "env \<Rightarrow> int \<Rightarrow> request \<Rightarrow> string \<Rightarrow> world \<Rightarrow> bool" where
  "proves_code e now req i w =
     (br_pending (fst w) = Some i
      \<and> (case find_user i (snd w) of
           None \<Rightarrow> False
         | Some u \<Rightarrow> (case req of
               Verify_Code c \<Rightarrow> has_otp u \<and> en_code e now (en_decrypt e (the (us_otp u))) c
             | Enrol_Code c \<Rightarrow> \<not> has_otp u
                 \<and> (case br_totp (fst w) of None \<Rightarrow> False | Some secret \<Rightarrow> en_code e now secret c)
             | _ \<Rightarrow> False)))"

definition needs_no_code :: "string \<Rightarrow> site \<Rightarrow> bool" where
  "needs_no_code i s = list_ex (\<lambda>u. us_id u = i \<and> \<not> needs_second_factor u) (si_users s)"

text \<open>Every browser that gets signed in had the account's password accepted - in this request or an earlier one of its
  own (\<open>P\<close>) -, and now a right code, unless the account needs none.\<close>

fun all_proved :: "env \<Rightarrow> (string \<Rightarrow> found_user) \<Rightarrow> (string \<Rightarrow> role) \<Rightarrow> event list \<Rightarrow> (nat \<times> string) list \<Rightarrow> system \<Rightarrow> bool" where
  "all_proved e look ruled [] P w = True"
| "all_proved e look ruled (ev # evs) P w =
     (let w1 = happens e look ruled ev w in
      case ev of
        By_Admin _ \<Rightarrow> all_proved e look ruled evs P w1
      | By_Browser k now background req \<Rightarrow>
          (let P1 = map (Pair k) (password_proofs e req (snd w)) @ P in
           (case br_user (fst w1 k) of
              None \<Rightarrow> True
            | Some i \<Rightarrow> br_user (fst w k) = Some i
                \<or> (k, i) \<in> set P1 \<and> (proves_code e now req i (fst w k, snd w) \<or> needs_no_code i (snd w1)))
           \<and> all_proved e look ruled evs P1 w1))"

section \<open>Trying names and passwords\<close>

text \<open>What someone who tries sees: the message and the page.\<close>

fun tries_seen :: "env \<Rightarrow> (int \<times> string \<times> string \<times> string) list \<Rightarrow> world \<Rightarrow> (string option \<times> page) list" where
  "tries_seen e [] w = []"
| "tries_seen e ((now, new_id, typed, password) # tries) w =
     (let (answer, w1) = login e now False new_id typed password w
      in (re_says answer, re_to answer) # tries_seen e tries w1)"

text \<open>Every password is wrong: no hash matches it, and a directory that answers refuses it.\<close>

definition refusing :: "(string \<Rightarrow> bool) \<Rightarrow> env \<Rightarrow> env" where
  "refusing answers e = e\<lparr>en_check := \<lambda>_ _. False,
     en_bind := \<lambda>srv _ _. if answers srv then Some False else None,
     en_member := \<lambda>srv _ _. if answers srv then Some None else None\<rparr>"

text \<open>Wrong passwords in a row on one account.\<close>

fun wrong_passwords :: "int list \<Rightarrow> user \<Rightarrow> lockout list \<times> user" where
  "wrong_passwords [] u = ([], u)"
| "wrong_passwords (now # moments) u =
     (let (outcome, u1) = password_failed now u; (outcomes, u2) = wrong_passwords moments u1 in (outcome # outcomes, u2))"

end
