(* ===== verification/Account_Invariants.thy ===== *)
theory Account_Invariants
  imports Account_Properties Sign_In
begin

text \<open>
  What holds of the table of accounts whatever happens: ids are unique, no name - whatever its case - and no email
  belongs to two accounts, no account has the reserved name, every local account has a password. Each operation keeps
  it: most change nothing that it is about (\<open>similar\<close>), some remove accounts, two add one.
\<close>

section \<open>The invariant\<close>

definition person_ok :: "user \<Rightarrow> bool" where
  "person_ok u \<longleftrightarrow> \<not> is_reserved (us_name u) \<and> (us_auth u = Local \<longrightarrow> us_hash u \<noteq> None)"

definition apart :: "user \<Rightarrow> user \<Rightarrow> bool" where
  "apart u v \<longleftrightarrow> us_id u \<noteq> us_id v \<and> lower (us_name u) \<noteq> lower (us_name v) \<and> (us_email u = None \<or> us_email u \<noteq> us_email v)"

definition people_ok :: "user list \<Rightarrow> bool" where
  "people_ok us \<longleftrightarrow> list_all person_ok us \<and> sorted_wrt apart us"

definition site_ok :: "site \<Rightarrow> bool" where
  "site_ok s \<longleftrightarrow> people_ok (si_users s)"

definition similar :: "user \<Rightarrow> user \<Rightarrow> bool" where
  "similar u v \<longleftrightarrow> us_id v = us_id u \<and> us_name v = us_name u \<and> us_email v = us_email u \<and> us_auth v = us_auth u
     \<and> (us_hash u \<noteq> None \<longrightarrow> us_hash v \<noteq> None)"

lemma apart_sym: "apart u v \<Longrightarrow> apart v u"
  by (auto simp: apart_def)

lemma apart_members:
  "sorted_wrt apart us \<Longrightarrow> u \<in> set us \<Longrightarrow> v \<in> set us \<Longrightarrow> u = v \<or> apart u v"
  by (induction us) (auto intro: apart_sym)

lemma same_id: "people_ok us \<Longrightarrow> u \<in> set us \<Longrightarrow> v \<in> set us \<Longrightarrow> us_id u = us_id v \<Longrightarrow> u = v"
  using apart_members [of us u v] by (auto simp: people_ok_def apart_def)

lemma similar_refl [simp]: "similar u u" by (simp add: similar_def)

lemma people_ok_similar:
  assumes "people_ok us" "\<And>u. u \<in> set us \<Longrightarrow> similar u (f u)"
  shows "people_ok (map f us)"
proof -
  have "apart (f u) (f v)" if "u \<in> set us" "v \<in> set us" "apart u v" for u v
    using assms(2) [OF that(1)] assms(2) [OF that(2)] that(3) by (simp add: similar_def apart_def)
  then have "sorted_wrt apart (map f us)"
    using assms(1) unfolding people_ok_def sorted_wrt_map by (blast intro: sorted_wrt_mono_rel)
  moreover have "person_ok (f u)" if "u \<in> set us" for u
    using assms that by (auto simp: people_ok_def list_all_iff person_ok_def similar_def)
  ultimately show ?thesis by (simp add: people_ok_def list_all_iff)
qed

lemma people_ok_filter: "people_ok us \<Longrightarrow> people_ok (filter p us)"
  by (auto simp: people_ok_def list_all_iff sorted_wrt_filter)

lemma people_ok_snoc:
  assumes "people_ok us" "person_ok u" "\<And>v. v \<in> set us \<Longrightarrow> apart v u"
  shows "people_ok (us @ [u])"
  using assms by (auto simp: people_ok_def sorted_wrt_append list_all_iff)

lemma site_ok_users: "site_ok s \<Longrightarrow> si_users s' = si_users s \<Longrightarrow> site_ok s'"
  by (simp add: site_ok_def)

lemma change_user_ok:
  assumes "site_ok s" "\<And>u. u \<in> set (si_users s) \<Longrightarrow> us_id u = i \<Longrightarrow> similar u (f u)"
  shows "site_ok (change_user i f s)"
  using assms unfolding site_ok_def change_user_def by (auto intro!: people_ok_similar)

lemma remove_user_ok: "site_ok s \<Longrightarrow> site_ok (remove_user i s)"
  by (simp add: site_ok_def remove_user_def people_ok_filter)

lemma fold_ok: "site_ok s \<Longrightarrow> (\<And>x s. site_ok s \<Longrightarrow> site_ok (f x s)) \<Longrightarrow> site_ok (fold f xs s)"
  by (induction xs arbitrary: s) auto

lemma throttle_cleared_ok: "site_ok s \<Longrightarrow> site_ok (throttle_cleared sha up n s)"
  by (rule site_ok_users) (simp_all add: throttle_cleared_same)

lemma throttle_failed_same: "si_users (snd (throttle_failed sha up now n s)) = si_users s"
  "si_servers (snd (throttle_failed sha up now n s)) = si_servers s"
  by (simp_all add: throttle_failed_def Let_def)

section \<open>The administrators' operations keep it\<close>

lemma unlock_ok: "site_ok s \<Longrightarrow> site_ok (unlock sha up u s)"
  unfolding unlock_def by (intro throttle_cleared_ok change_user_ok) (simp_all add: similar_def clear_lockout_def)

lemma apply_action_ok: "site_ok s \<Longrightarrow> site_ok (apply_action sha up a u s)"
  by (cases a) (auto simp: apply_action_def similar_def intro!: unlock_ok change_user_ok remove_user_ok)

lemma or_same_ok: "site_ok s \<Longrightarrow> (\<And>s'. r = Some s' \<Longrightarrow> site_ok s') \<Longrightarrow> site_ok (or_same s r)"
  by (cases r) (simp_all add: or_same_def)

lemma user_action_ok: "site_ok s \<Longrightarrow> user_action sha up me a i s = Some s' \<Longrightarrow> site_ok s'"
  by (auto simp: user_action_def apply_action_ok split: if_splits option.splits)

lemma bulk_action_ok: "site_ok s \<Longrightarrow> map_option snd (bulk_action sha up me a ids s) = Some s' \<Longrightarrow> site_ok s'"
  by (auto simp: bulk_action_def Let_def split: if_splits intro!: fold_ok apply_action_ok)

lemma reset_password_ok: "site_ok s \<Longrightarrow> reset_password hash sha up me i t s = Some s' \<Longrightarrow> site_ok s'"
  by (auto simp: reset_password_def similar_def split: if_splits option.splits intro!: unlock_ok change_user_ok)

lemma reset_factory_admin_ok: "site_ok s \<Longrightarrow> reset_factory_admin hash t s = Some s' \<Longrightarrow> site_ok s'"
  by (auto simp: reset_factory_admin_def similar_def clear_lockout_def Let_def split: if_splits option.splits
      intro!: change_user_ok)

lemma set_directory_role_ok: "site_ok s \<Longrightarrow> site_ok (snd (set_directory_role i r s))"
  by (auto simp: set_directory_role_def similar_def split: option.splits intro!: change_user_ok)

lemma delete_directory_ok: "site_ok s \<Longrightarrow> delete_directory x d s = Some s' \<Longrightarrow> site_ok s'"
proof -
  assume ok: "site_ok s" and del: "delete_directory x d s = Some s'"
  define s1 where "s1 = (if d then fold remove_user (map us_id (filter (\<lambda>u. us_server u = Some x) (si_users s))) s
    else fold (\<lambda>i. change_user i (\<lambda>u. u\<lparr>us_active := False\<rparr>)) (map us_id (filter (\<lambda>u. us_server u = Some x) (si_users s))) s)"
  have s1: "site_ok s1"
    unfolding s1_def using ok by (auto intro!: fold_ok remove_user_ok change_user_ok simp: similar_def)
  have "si_users s' = map (\<lambda>u. if us_server u = Some x then u\<lparr>us_server := None\<rparr> else u) (si_users s1)"
    using del unfolding delete_directory_def s1_def by (auto simp: Let_def split: if_splits)
  then show "site_ok s'"
    using s1 unfolding site_ok_def by (auto intro!: people_ok_similar simp: similar_def)
qed

text \<open>An email that no other account has may be taken.\<close>

lemma change_email_ok:
  assumes ok: "site_ok s"
    and f: "\<And>u. u \<in> set (si_users s) \<Longrightarrow> us_id u = i \<Longrightarrow> similar u ((f u)\<lparr>us_email := us_email u\<rparr>)
      \<and> (us_email (f u) = us_email u \<or> (\<forall>v\<in>set (si_users s). us_id v \<noteq> i \<longrightarrow> us_email v \<noteq> us_email (f u)))"
  shows "site_ok (change_user i f s)"
proof -
  let ?g = "\<lambda>u. if us_id u = i then f u else u"
  have sim: "similar u ((?g u)\<lparr>us_email := us_email u\<rparr>)" if "u \<in> set (si_users s)" for u
    using f [OF that] by simp
  have "apart (?g u) (?g v)" if uv: "u \<in> set (si_users s)" "v \<in> set (si_users s)" "apart u v" for u v
  proof -
    have "us_id u \<noteq> us_id v" using uv(3) by (simp add: apart_def)
    then show ?thesis
      using sim [OF uv(1)] sim [OF uv(2)] f [OF uv(1)] f [OF uv(2)] uv by (auto simp: similar_def apart_def)
  qed
  then have "sorted_wrt apart (map ?g (si_users s))"
    using ok unfolding site_ok_def people_ok_def sorted_wrt_map by (blast intro: sorted_wrt_mono_rel)
  moreover have "person_ok (?g u)" if "u \<in> set (si_users s)" for u
    using ok sim [OF that] that by (auto simp: site_ok_def people_ok_def list_all_iff person_ok_def similar_def)
  ultimately have "people_ok (map ?g (si_users s))"
    unfolding people_ok_def list_all_iff by (simp only: set_map ball_simps) blast
  then show ?thesis by (simp add: site_ok_def change_user_def)
qed

lemma reconnect_each_ok: "site_ok s \<Longrightarrow> site_ok (reconnect_each server look us s)"
proof (induction us arbitrary: s)
  case (Cons u us)
  have "site_ok (change_user (us_id u) (\<lambda>w. reconnected server d w (si_users s)) s)" for d
    by (rule change_email_ok [OF Cons.prems]) (auto simp: reconnected_def similar_def list_ex_iff split: prod.split)
  then show ?case using Cons.IH by (simp add: Let_def)
qed simp

lemma reconnect_users_ok: "site_ok s \<Longrightarrow> reconnect_users ids x look ruled s = Some s' \<Longrightarrow> site_ok s'"
proof -
  assume ok: "site_ok s" and r: "reconnect_users ids x look ruled s = Some s'"
  obtain shown s1 where r1: "reconnect ids x look s = Inr (shown, s1)"
    and s': "s' = s1 \<or> s' = s1\<lparr>si_users := map (\<lambda>u. if us_id u \<in> set ids then u\<lparr>us_role := ruled (us_name u)\<rparr> else u) (si_users s1)\<rparr>"
    using r unfolding reconnect_users_def by (auto simp: Let_def split: if_splits sum.splits)
  have "s1 = reconnect_each x look (filter (\<lambda>u. us_id u \<in> set ids) (si_users s)) s"
    using r1 unfolding reconnect_def Let_def by (auto split: option.splits if_splits)
  then have "site_ok s1" using reconnect_each_ok [OF ok] by simp
  then show "site_ok s'" using s' unfolding site_ok_def by (auto intro!: people_ok_similar simp: similar_def)
qed

section \<open>New accounts\<close>

lemma new_problem_None:
  assumes "new_problem n e f p pw s = None"
  shows "\<not> is_reserved n" "by_name_ci n s = []" "\<not> list_ex (\<lambda>u. us_email u = Some e) (si_users s)"
    "n \<noteq> []" "length n \<le> 64" "username_shape n" "e \<noteq> []" "length e \<le> 120" "CHR ''@'' \<in> set e" "f \<noteq> []" "length f \<le> 120"
    "case pw of None \<Rightarrow> True | Some x \<Rightarrow> password_problem x (Some n) None = None"
  using assms unfolding new_problem_def Let_def by (auto split: option.splits if_splits)


lemma new_local_Inr:
  assumes "new_local hash i n e f p pw r app mc s = Inr s'"
  obtains u ps where "s' = s\<lparr>si_users := si_users s @ [u]\<rparr>" "us_id u = i" "us_name u = strip n" "us_auth u = Local"
    "us_email u = Some (strip e)" "us_hash u = Some (hash pw)" "us_active u = app" "us_approved u = app" "us_otp u = None"
    "new_problem (strip n) (strip e) (strip f) ps (if mc then None else Some pw) s = None"
proof -
  define st where "st = strip (case p of None \<Rightarrow> [] | Some x \<Rightarrow> x)"
  define ps where "ps = (if st = [] then None else Some st)"
  note unfolded = assms [unfolded new_local_def Let_def st_def [symmetric] ps_def [symmetric]]
  obtain role where r: "r = Some role" using unfolded by (cases r) simp_all
  have none: "new_problem (strip n) (strip e) (strip f) ps (if mc then None else Some pw) s = None"
    using unfolded unfolding r
    by (cases "new_problem (strip n) (strip e) (strip f) ps (if mc then None else Some pw) s") simp_all
  have "s' = s\<lparr>si_users := si_users s @ [\<lparr>us_id = i, us_name = strip n, us_hash = Some (hash pw), us_email = Some (strip e),
      us_full_name = Some (strip f), us_position = ps, us_role = role, us_active = app, us_approved = app, us_otp = None,
      us_must_change = mc, us_auth = Local, us_server = None, us_failed = 0, us_locked = None\<rparr>]\<rparr>"
    using unfolded none r by simp
  then show thesis by (rule that [OF _ _ _ _ _ _ _ _ _ none]) simp_all
qed

lemma new_local_ok:
  assumes "site_ok s" "new_id \<notin> set (map us_id (si_users s))" "new_local hash new_id n e f p pw r app mc s = Inr s'"
  shows "site_ok s'"
  using assms(3)
proof (rule new_local_Inr)
  fix u ps
  assume u: "s' = s\<lparr>si_users := si_users s @ [u]\<rparr>" "us_id u = new_id" "us_name u = strip n" "us_auth u = Local"
    "us_email u = Some (strip e)" "us_hash u = Some (hash pw)"
    and none: "new_problem (strip n) (strip e) (strip f) ps (if mc then None else Some pw) s = None"
  note facts = new_problem_None [OF none]
  have "apart v u" if "v \<in> set (si_users s)" for v
  proof -
    have "us_id v \<in> set (map us_id (si_users s))" using that by simp
    then have "us_id v \<noteq> us_id u" using u(2) assms(2) by metis
    then show ?thesis
      using that u(3,5) facts(2,3) by (auto simp: apart_def by_name_ci_def filter_empty_conv list_ex_iff)
  qed
  moreover have "person_ok u" using u facts(1) by (simp add: person_ok_def)
  ultimately show "site_ok s'" using assms(1) u(1) by (auto simp: site_ok_def intro: people_ok_snoc)
qed

lemma add_user_ok: "site_ok s \<Longrightarrow> add_user hash i n e f p t r s = Some s' \<Longrightarrow> site_ok s'"
  unfolding add_user_def by (auto split: if_splits sum.splits intro: new_local_ok [unfolded set_map])

lemma new_ldap_Inr:
  assumes "new_ldap i n server r d s = Some (Inr s')"
  obtains u where "s' = s\<lparr>si_users := si_users s @ [u]\<rparr>" "us_id u = i" "us_name u = n" "us_auth u = Ldap"
    "us_email u = fst d" "us_active u" "us_server u = Some server" "row_fits i n (fst d) (snd d) s" "\<not> is_reserved n" "us_otp u = None"
  using assms unfolding new_ldap_def by (auto split: if_splits)

lemma new_ldap_ok:
  assumes "site_ok s" "by_name_ci n s = []" "new_ldap i n server r d s = Some (Inr s')"
  shows "site_ok s'"
  using assms(3)
proof (rule new_ldap_Inr)
  fix u
  assume u: "s' = s\<lparr>si_users := si_users s @ [u]\<rparr>" "us_id u = i" "us_name u = n" "us_auth u = Ldap" "us_email u = fst d"
    "row_fits i n (fst d) (snd d) s" "\<not> is_reserved n"
  have "apart v u" if "v \<in> set (si_users s)" for v
  proof -
    have "us_id v \<noteq> i" using u(6) that by (auto simp: row_fits_def)
    moreover have "lower (us_name v) \<noteq> lower n" using assms(2) that by (auto simp: by_name_ci_def filter_empty_conv)
    moreover have "us_email v = None \<or> us_email v \<noteq> us_email u"
      using u(5,6) imageI [OF that, of us_email] by (cases "fst d") (auto simp: row_fits_def)
    ultimately show ?thesis using u(2,3) by (auto simp: apart_def)
  qed
  moreover have "person_ok u" using u by (simp add: person_ok_def)
  ultimately show "site_ok s'" using assms(1) u(1) by (auto simp: site_ok_def intro: people_ok_snoc)
qed

lemma handle_ok: "site_ok s \<Longrightarrow> site_ok (handle hash sha up look ruled r s)"
proof (cases r)
  case (Delete_Server me x d)
  assume "site_ok s"
  then have "site_ok s'" if "delete_server me x d s = Some s'" for s'
    using that by (auto simp: delete_server_def split: if_splits intro: delete_directory_ok)
  then show ?thesis using Delete_Server \<open>site_ok s\<close> by (simp add: or_same_ok)
qed (auto intro!: or_same_ok change_user_ok set_directory_role_ok
    intro: user_action_ok bulk_action_ok reset_password_ok add_user_ok reconnect_users_ok reset_factory_admin_ok
    simp: similar_def password_ok_def lock_minutes_left_def split: option.split)

section \<open>Signing in keeps it\<close>

definition world_ok :: "reply \<times> world \<Rightarrow> bool" where
  "world_ok rw \<longleftrightarrow> site_ok (snd (snd rw))"

lemma login_fail_users: "si_users (snd (snd (login_fail e now n r m (b, s)))) = si_users s"
  by (auto simp: login_fail_def Let_def throttle_failed_same split: prod.splits)
    (metis snd_conv throttle_failed_same(1))

lemma login_fail_ok: "site_ok s \<Longrightarrow> world_ok (login_fail e now n r m (b, s))"
  unfolding world_ok_def by (erule site_ok_users) (rule login_fail_users)

lemma sign_in_ok: "site_ok s \<Longrightarrow> world_ok (sign_in now u (b, s))"
  by (simp add: world_ok_def sign_in_def Let_def)

lemma start_otp_flow_ok: "site_ok s \<Longrightarrow> world_ok (start_otp_flow u (b, s))"
  by (simp add: world_ok_def start_otp_flow_def Let_def)

lemma by_name_SomeD: "by_name n s = Some u \<Longrightarrow> u \<in> set (si_users s) \<and> us_name u = n"
  unfolding by_name_def by (drule find_SomeD) simp

lemma replace_user_ok:
  assumes "site_ok s" "u \<in> set (si_users s)" "similar u v"
  shows "site_ok (change_user (us_id u) (\<lambda>_. v) s)"
proof (rule change_user_ok [OF assms(1)])
  fix w
  assume "w \<in> set (si_users s)" "us_id w = us_id u"
  then have "w = u" using same_id assms(1,2) by (simp add: site_ok_def)
  then show "similar w v" using assms(3) by simp
qed

lemma password_failed_similar: "similar u (snd (password_failed now u))"
  by (simp add: password_failed_def similar_def Let_def)

lemma lock_minutes_left_similar: "similar u (snd (lock_minutes_left now u))"
  by (simp add: lock_minutes_left_def similar_def split: option.split)

lemma similar_trans: "similar u v \<Longrightarrow> similar v w \<Longrightarrow> similar u w"
  by (simp add: similar_def)


lemma change_twice: "us_id w = i \<Longrightarrow> change_user i (\<lambda>_. v) (change_user i (\<lambda>_. w) s) = change_user i (\<lambda>_. v) s"
  by (simp add: change_user_def)

lemma login_local_ok:
  assumes ok: "site_ok s" and u: "u \<in> set (si_users s)"
  shows "world_ok (login_local e now u pw (b, s))"
proof -
  obtain m u1 where m: "lock_minutes_left now u = (m, u1)" by fastforce
  have u1: "similar u u1" using lock_minutes_left_similar [of u now] m by simp
  have i: "us_id u1 = us_id u" using u1 by (simp add: similar_def)
  have s1: "site_ok (change_user (us_id u) (\<lambda>_. u1) s)"
    by (rule replace_user_ok [OF ok u u1])
  have two: "site_ok (change_user (us_id u) (\<lambda>_. v) (change_user (us_id u) (\<lambda>_. u1) s))" if "similar u1 v" for v
    unfolding change_twice [OF i] by (rule replace_user_ok [OF ok u similar_trans [OF u1 that]])
  have right: "similar u1 (password_ok u1)" by (simp add: password_ok_def similar_def)
  show ?thesis
    unfolding login_local_def m Let_def prod.case
    using ok login_fail_ok [OF s1] login_fail_ok [OF two [OF password_failed_similar]]
      login_fail_ok [OF throttle_cleared_ok [OF two [OF right]]] sign_in_ok [OF throttle_cleared_ok [OF two [OF right]]]
      start_otp_flow_ok [OF throttle_cleared_ok [OF two [OF right]]]
    by (simp add: world_ok_def split: option.split)
qed

lemma login_ldap_existing_ok:
  assumes "site_ok s"
  shows "world_ok (login_ldap_existing e now u pw (b, s))"
proof -
  note cleared = throttle_cleared_ok [OF assms, of "en_sha e" "en_redis e" "us_name u"]
  show ?thesis
    unfolding login_ldap_existing_def Let_def prod.case
    using login_fail_ok [OF assms] login_fail_ok [OF cleared] sign_in_ok [OF cleared]
      sign_in_ok [OF set_directory_role_ok [OF cleared]]
    by (simp split: option.split bool.split)
qed

lemma by_name_ci_users: "si_users s' = si_users s \<Longrightarrow> by_name_ci n s' = by_name_ci n s"
  by (simp add: by_name_ci_def)

lemma login_ldap_group_ok:
  assumes "site_ok s" "by_name_ci n s = []"
  shows "world_ok (login_ldap_group e now i n pw (b, s))"
proof -
  let ?s1 = "throttle_cleared (en_sha e) (en_redis e) n s"
  have s1: "site_ok ?s1" by (rule throttle_cleared_ok [OF assms(1)])
  have none: "by_name_ci n ?s1 = []"
    using assms(2) by_name_ci_users [OF throttle_cleared_same(1), of n] by simp
  have new: "site_ok s2" if "new_ldap i n server r d ?s1 = Some (Inr s2)" for server r d s2
    by (rule new_ldap_ok [OF s1 none that])
  show ?thesis
    unfolding login_ldap_group_def Let_def prod.case
    using login_fail_ok [OF assms(1)] s1 new sign_in_ok
    by (auto split: option.split sum.split simp: world_ok_def)
qed

lemma login_ok: "site_ok s \<Longrightarrow> world_ok (login e now f i n pw (b, s))"
  unfolding login_def Let_def prod.case
  by (auto split: option.split auth_type.split dest: by_name_SomeD
      intro: login_fail_ok login_local_ok login_ldap_existing_ok login_ldap_group_ok simp: world_ok_def [of "(_, _)"])


lemma find_user_site: "si_users s' = si_users s \<Longrightarrow> find_user i s' = find_user i s"
  by (simp add: find_user_def)

lemma similar_otp [simp]: "similar u (u\<lparr>us_otp := x\<rparr>)" "similar u (u\<lparr>us_hash := Some h, us_must_change := m\<rparr>)"
  by (simp_all add: similar_def)

lemma wrong_code_ok: "site_ok (snd w) \<Longrightarrow> world_ok (wrong_code p w)"
  by (cases w) (simp add: wrong_code_def world_ok_def Let_def)

lemma sign_in_world_ok: "site_ok (snd w) \<Longrightarrow> world_ok (sign_in now u w)"
  by (cases w) (simp add: sign_in_ok)

lemma same_site_ok: "site_ok (snd w) \<Longrightarrow> world_ok (a, w)"
  by (simp add: world_ok_def)

lemma otp_pages_ok:
  assumes "site_ok (snd w)"
  shows "world_ok (otp_enroll_page secret w)" "world_ok (otp_enroll e now code w)" "world_ok (otp_verify e now code w)"
  using assms wrong_code_ok [OF assms] sign_in_world_ok [OF assms]
  unfolding otp_enroll_page_def otp_enroll_def otp_verify_def
  by (cases w; auto simp: world_ok_def Let_def split: option.split intro!: change_user_ok sign_in_ok [unfolded world_ok_def])+

lemma register_ok: "site_ok (snd w) \<Longrightarrow> world_ok (register e i n m f p pw w)"
  unfolding register_def Let_def
  by (cases w) (auto simp: world_ok_def split: sum.split intro: new_local_ok [unfolded set_map])

lemma own_account_ok:
  assumes "site_ok (snd w)"
  shows "world_ok (change_password e u a c d w)" "world_ok (account_2fa_page secret u w)"
    "world_ok (account_2fa_setup e now code u w)" "world_ok (account_2fa_off e now pw code u w)"
  using assms unfolding change_password_def account_2fa_page_def account_2fa_setup_def account_2fa_off_def
  by (cases w; auto simp: world_ok_def Let_def split: option.split intro!: change_user_ok)+

lemma for_signed_in_ok: "site_ok (snd w) \<Longrightarrow> (\<And>u. world_ok (f u w)) \<Longrightarrow> world_ok (for_signed_in f w)"
  by (simp add: for_signed_in_def same_site_ok split: option.split)

lemma respond_ok: "site_ok (snd w) \<Longrightarrow> world_ok (respond e now req w)"
  by (cases req; cases w)
    (auto intro!: login_ok otp_pages_ok register_ok for_signed_in_ok own_account_ok simp: logout_def world_ok_def [of "(_, _)"])

lemma enforce_site:
  "case enforce_session_lifetime e now bg w of Inl (a, w1) \<Rightarrow> snd w1 = snd w | Inr w1 \<Rightarrow> snd w1 = snd w"
  by (auto simp: enforce_session_lifetime_def Let_def split: prod.split)

lemma handle_request_ok: "site_ok (snd w) \<Longrightarrow> world_ok (handle_request e r w)"
proof (cases r)
  case (fields now bg req)
  assume ok: "site_ok (snd w)"
  show ?thesis
  proof (cases "enforce_session_lifetime e now bg w")
    case (Inl a)
    then show ?thesis
      using ok enforce_site [of w e now bg] fields by (cases a) (simp add: handle_request_def world_ok_def)
  next
    case (Inr w1)
    then have "site_ok (snd w1)" using ok enforce_site [of w e now bg] by simp
    then show ?thesis
      using Inr fields respond_ok [of w1 e now req] by (simp add: handle_request_def same_site_ok)
  qed
qed

lemma handle_requests_ok: "site_ok (snd w) \<Longrightarrow> site_ok (snd (snd (handle_requests e rs w)))"
proof (induction rs arbitrary: w)
  case (Cons r rs)
  obtain a w1 where r: "handle_request e r w = (a, w1)" using prod.exhaust by blast
  have "site_ok (snd w1)" using handle_request_ok [OF Cons.prems, of e r] r by (simp add: world_ok_def)
  then show ?case using Cons.IH r by (simp add: split: prod.split) (metis snd_conv)
qed simp

end
