(* ===== verification/Sign_In_Properties.thy ===== *)
theory Sign_In_Properties
  imports Account_Invariants Text_Facts
begin

text \<open>
  What NetRollout promises of its accounts and of signing in: an administrator remains, accounts stay apart, a sign-in
  is proved, what a failed try reads tells nothing of the accounts, wrong passwords lock and disable exactly as
  announced, a session ends.
\<close>

section \<open>Administrators and accounts\<close>


lemma wrong_passwords_local:
  assumes "us_auth u = Local" "us_approved u" "us_active u" "us_failed u < 10" "\<not> is_factory_admin u"
  shows "fst (wrong_passwords moments u)
      = map (\<lambda>n. if n = 5 then Locked_Out else if n = 10 then Disabled else Counted) [Suc (us_failed u) ..< Suc (us_failed u + length moments)]
    \<and> (us_active (snd (wrong_passwords moments u)) \<longleftrightarrow> us_failed u + length moments < 10)
    \<and> us_failed (snd (wrong_passwords moments u)) = min 10 (us_failed u + length moments)"
  using assms
proof (induction moments arbitrary: u)
  case (Cons now moments)
  have off: "wrong_passwords ts v = (replicate (length ts) Counted, v)" if "\<not> us_active v" for ts v
    using that by (induction ts) (auto simp: password_failed_def)
  have up: "[Suc (us_failed u)..<Suc (us_failed u + length (now # moments))]
      = Suc (us_failed u) # [Suc (Suc (us_failed u))..<Suc (Suc (us_failed u) + length moments)]"
    by (subst upt_conv_Cons) simp_all
  show ?case
  proof (cases "us_failed u = 9")
    case True
    let ?u1 = "u\<lparr>us_failed := Suc (us_failed u), us_active := False\<rparr>"
    have p: "password_failed now u = (Disabled, ?u1)"
      using Cons.prems True
      by (simp add: password_failed_def is_factory_admin_def disable_after_def max_failed_def Let_def)
    have "replicate (length moments) Counted = map (\<lambda>n. if n = 5 then Locked_Out else if n = 10 then Disabled else Counted)
        [Suc (Suc (us_failed u))..<Suc (Suc (us_failed u) + length moments)]"
      unfolding True by (rule nth_equalityI) auto
    then show ?thesis
      unfolding up using True p off [of ?u1 moments] by (simp del: upt_Suc)
  next
    case False
    let ?o = "if us_failed u = 4 then Locked_Out else Counted"
    define u1 where "u1 = snd (password_failed now u)"
    have "fst (password_failed now u) = ?o" and u1: "us_auth u1 = Local" "us_approved u1" "us_active u1"
      "us_failed u1 = Suc (us_failed u)" "\<not> is_factory_admin u1"
      using Cons.prems False unfolding u1_def
      by (auto simp: password_failed_def is_factory_admin_def disable_after_def max_failed_def Let_def)
    then have p: "password_failed now u = (?o, u1)" by (simp add: u1_def prod_eq_iff)
    show ?thesis
      unfolding up using Cons.IH [of u1] u1 p Cons.prems(4) False
      by (cases "wrong_passwords moments u1") (auto simp del: upt_Suc)
  qed
qed simp


lemma wrong_passwords_factory:
  assumes "us_auth u = Local" "us_approved u" "us_active u" "us_failed u < 5" "is_factory_admin u"
  shows "fst (wrong_passwords moments u)
      = map (\<lambda>n. if n mod 5 = 0 then Locked_Out else Counted) [Suc (us_failed u) ..< Suc (us_failed u + length moments)]
    \<and> us_active (snd (wrong_passwords moments u))
    \<and> us_failed (snd (wrong_passwords moments u)) = (us_failed u + length moments) mod 5"
  using assms
proof (induction moments arbitrary: u)
  case (Cons now moments)
  have up: "[Suc (us_failed u)..<Suc (us_failed u + length (now # moments))]
      = Suc (us_failed u) # [Suc (Suc (us_failed u))..<Suc (Suc (us_failed u) + length moments)]"
    by (subst upt_conv_Cons) simp_all
  show ?case
  proof (cases "us_failed u = 4")
    case True
    obtain u1 where p: "password_failed now u = (Locked_Out, u1)" and u1: "us_auth u1 = Local" "us_approved u1" "us_active u1"
      "us_failed u1 = 0" "is_factory_admin u1"
      using Cons.prems True by (auto simp: password_failed_def is_factory_admin_def max_failed_def Let_def)
    have "map (\<lambda>n. if n mod 5 = 0 then Locked_Out else Counted) [Suc 0..<Suc (length moments)]
        = map (\<lambda>n. if n mod 5 = 0 then Locked_Out else Counted) [Suc (Suc (us_failed u))..<Suc (Suc (us_failed u) + length moments)]"
      unfolding True by (rule nth_equalityI, simp_all del: upt_Suc) presburger
    moreover have "(5 + length moments) mod 5 = length moments mod 5" by simp
    ultimately show ?thesis
      unfolding up using Cons.IH [of u1] u1 p True
      by (cases "wrong_passwords moments u1") (simp del: upt_Suc)
  next
    case False
    obtain u1 where p: "password_failed now u = (Counted, u1)" and u1: "us_auth u1 = Local" "us_approved u1" "us_active u1"
      "us_failed u1 = Suc (us_failed u)" "is_factory_admin u1"
      using Cons.prems False by (auto simp: password_failed_def is_factory_admin_def max_failed_def Let_def)
    show ?thesis
      unfolding up using Cons.IH [of u1] u1 p Cons.prems(4) False
      by (cases "wrong_passwords moments u1") (auto simp del: upt_Suc)
  qed
qed simp

text \<open>Wrong passwords in a row on an approved, active local account: the fifth locks it, the tenth disables it and
  nothing is counted after - but for the factory admin, locked at every fifth and never disabled.\<close>

theorem lockout_exact:
  "(let v = u\<lparr>us_auth := Local, us_approved := True, us_active := True, us_failed := 0\<rparr>; n = length moments;
       (outcomes, w) = wrong_passwords moments v
    in if is_factory_admin v
       then outcomes = map (\<lambda>k. if k mod 5 = 0 then Locked_Out else Counted) [1 ..< Suc n]
            \<and> us_active w \<and> us_failed w = n mod 5
       else outcomes = map (\<lambda>k. if k = 5 then Locked_Out else if k = 10 then Disabled else Counted) [1 ..< Suc n]
            \<and> us_active w = (n < 10) \<and> us_failed w = min 10 n)"
  using wrong_passwords_local [of "u\<lparr>us_auth := Local, us_approved := True, us_active := True, us_failed := 0\<rparr>" moments]
    wrong_passwords_factory [of "u\<lparr>us_auth := Local, us_approved := True, us_active := True, us_failed := 0\<rparr>" moments]
  by (auto simp: Let_def simp del: upt_Suc split: prod.split)

text \<open>Yet wrong passwords take the last administrator: ten of them disable the only one who can sign in, unless it
  is the factory admin - from then on no administrator can sign in to enable it again.\<close>

theorem last_admin_can_be_disabled:
  assumes "admins_left [us_id u] s = 0" "us_auth u = Local" "us_approved u" "us_active u" "us_failed u = 0"
    "\<not> is_factory_admin u" "10 \<le> length moments"
  shows "admins_left [] (change_user (us_id u) (\<lambda>_. snd (wrong_passwords moments u)) s) = 0"
proof -
  have off: "\<not> us_active (snd (wrong_passwords moments u))"
    using wrong_passwords_local [of u moments] assms(2-7) by simp
  have others: "\<not> administers s v" if "v \<in> set (si_users s)" "us_id v \<noteq> us_id u" for v
    using admins_left_pos [of "[us_id u]" s] assms(1) that by auto
  have "\<not> administers s v" if "v \<in> set (si_users (change_user (us_id u) (\<lambda>_. snd (wrong_passwords moments u)) s))" for v
    using that off others by (auto simp: change_user_def administers_def split: if_splits)
  then show ?thesis
    using admins_left_pos [of "[]" "change_user (us_id u) (\<lambda>_. snd (wrong_passwords moments u)) s"]
    by (auto simp: administers_users change_user_def)
qed

definition lonely_admin :: user where
  "lonely_admin = \<lparr>us_id = ''1'', us_name = ''dana'', us_hash = Some ''h'', us_email = None, us_full_name = None, us_position = None,
     us_role = Admin, us_active = True, us_approved = True, us_otp = None, us_must_change = False, us_auth = Local,
     us_server = None, us_failed = 0, us_locked = None\<rparr>"

definition lonely_site :: site where
  "lonely_site = \<lparr>si_users = [lonely_admin], si_servers = [], si_fails = [], si_stops = []\<rparr>"

theorem last_admin_can_be_disabled_witness:
  "admins_left [] lonely_site = 1
    \<and> admins_left [] (change_user (us_id lonely_admin) (\<lambda>_. snd (wrong_passwords (replicate 10 0) lonely_admin)) lonely_site) = 0"
proof
  show "admins_left [] lonely_site = 1"
    by (simp add: admins_left_def administers_def lonely_site_def lonely_admin_def)
  show "admins_left [] (change_user (us_id lonely_admin) (\<lambda>_. snd (wrong_passwords (replicate 10 0) lonely_admin)) lonely_site) = 0"
    by (rule last_admin_can_be_disabled)
      (simp_all add: admins_left_def lonely_site_def lonely_admin_def is_factory_admin_def factory_username_def)
qed

lemma happens_ok: "site_ok (snd w) \<Longrightarrow> site_ok (snd (happens e look ruled ev w))"
proof (cases ev)
  case (By_Browser k now bg req)
  assume "site_ok (snd w)"
  then have "world_ok (handle_request e (now, bg, req) (fst w k, snd w))"
    by (intro handle_request_ok) simp
  then show ?thesis
    using By_Browser by (cases "snd (handle_request e (now, bg, req) (fst w k, snd w))") (simp add: happens_def world_ok_def)
qed (simp add: happens_def handle_ok)



text \<open>Someone made an account for twice the same name, in other capitals: the second is refused.\<close>

definition any_env :: env where
  "any_env = \<lparr>en_check = (=), en_hash = id, en_code = (\<lambda>_. (=)), en_encrypt = id, en_decrypt = id, en_sha = id, en_redis = True,
     en_bind = (\<lambda>_ _ _. Some False), en_rules = (\<lambda>_ _. Some []), en_member = (\<lambda>_ _ _. Some None), en_details = (\<lambda>_ _. None),
     en_idle = 1800\<rparr>"


section \<open>What a failed try reads\<close>

definition seen :: "reply \<times> world \<Rightarrow> (string option \<times> page) \<times> (string \<times> nat \<times> int) list \<times> (string \<times> int) list" where
  "seen r = ((re_says (fst r), re_to (fst r)), si_fails (snd (snd r)), si_stops (snd (snd r)))"

lemma throttle_failed_cong:
  assumes "throttle_key sha n = throttle_key sha m" "si_fails s = si_fails t" "si_stops s = si_stops t"
  shows "fst (throttle_failed sha up now n s) = fst (throttle_failed sha up now m t)
    \<and> si_fails (snd (throttle_failed sha up now n s)) = si_fails (snd (throttle_failed sha up now m t))
    \<and> si_stops (snd (throttle_failed sha up now n s)) = si_stops (snd (throttle_failed sha up now m t))"
  using assms by (simp add: throttle_failed_def throttle_count_def Let_def)

lemma login_fail_seen:
  assumes "r = r' \<or> r \<in> set counted_failures \<and> r' \<in> set counted_failures \<and> fail_message r = fail_message r'"
    "throttle_key (en_sha e) n = throttle_key (en_sha e) m" "si_fails s = si_fails t" "si_stops s = si_stops t"
  shows "seen (login_fail e now n r msg (b, s)) = seen (login_fail e now m r' msg (c, t))"
proof -
  obtain x s1 where s1: "throttle_failed (en_sha e) (en_redis e) (in_seconds now) n s = (x, s1)" by fastforce
  obtain y t1 where t1: "throttle_failed (en_sha e) (en_redis e) (in_seconds now) m t = (y, t1)" by fastforce
  have "x = y" "si_fails s1 = si_fails t1" "si_stops s1 = si_stops t1"
    using throttle_failed_cong [OF assms(2-4), of "en_redis e" "in_seconds now"] s1 t1 by simp_all
  then show ?thesis
    using assms(1,3,4) s1 t1 by (auto simp: login_fail_def seen_def split: option.split)
qed

lemma same_name_same_key: "lower n = lower m \<Longrightarrow> throttle_key sha n = throttle_key sha m"
  by (simp add: throttle_key_def lower_strip)


lemmas same_try = login_fail_seen [OF _ same_name_same_key]

text \<open>A wrong try on a name that isn't stopped reads, and leaves the throttle, as one on a name nobody has.\<close>

definition plain_fail :: "env \<Rightarrow> int \<Rightarrow> string \<Rightarrow> site \<Rightarrow> (string option \<times> page) \<times> (string \<times> nat \<times> int) list \<times> (string \<times> int) list" where
  "plain_fail e now typed s = seen (login_fail e now typed Invalid_Credentials None (fresh, s))"

lemma counted_simps [simp]:
  "Invalid_Credentials \<in> set counted_failures" "Account_Locked \<in> set counted_failures" "Ldap_Bind_Failed \<in> set counted_failures"
  "Ldap_Unavailable \<in> set counted_failures" "Ldap_Server_Inactive \<in> set counted_failures" "Ldap_Server_Missing \<in> set counted_failures"
  by (simp_all add: counted_failures_def)

lemma plain_try:
  assumes "r \<in> {Invalid_Credentials, Account_Locked, Ldap_Bind_Failed, Ldap_Unavailable, Ldap_Server_Inactive, Ldap_Server_Missing}"
    "lower n = lower typed" "si_fails s1 = si_fails s" "si_stops s1 = si_stops s"
  shows "seen (login_fail e now n r None (b, s1)) = plain_fail e now typed s"
  unfolding plain_fail_def using assms(1) by (intro same_try assms) auto

lemma change_user_throttle [simp]: "si_fails (change_user i f s) = si_fails s" "si_stops (change_user i f s) = si_stops s"
  by (simp_all add: change_user_def)

lemma refusing_simps [simp]:
  "en_check (refusing up e) h p = False" "en_sha (refusing up e) = en_sha e" "en_redis (refusing up e) = en_redis e"
  "en_bind (refusing up e) srv n p = (if up srv then Some False else None)"
  "en_member (refusing up e) srv n p = (if up srv then Some None else None)"
  by (simp_all add: refusing_def)

lemma refused_local:
  assumes "us_hash u \<noteq> None" "lower (us_name u) = lower typed"
  shows "seen (login_local (refusing up e) now u pw (b, s)) = plain_fail (refusing up e) now typed s"
proof -
  obtain h where "us_hash u = Some h" using assms(1) by blast
  then show ?thesis
    unfolding login_local_def Let_def using assms(2) by (auto intro!: plain_try split: prod.split)
qed

lemma refused_ldap:
  assumes "lower (us_name u) = lower typed"
  shows "seen (login_ldap_existing (refusing up e) now u pw (b, s)) = plain_fail (refusing up e) now typed s"
  unfolding login_ldap_existing_def Let_def using assms by (auto intro!: plain_try split: option.split)

lemma refused_group:
  assumes "\<not> is_reserved typed"
  shows "seen (login_ldap_group (refusing up e) now i typed pw (b, s)) = plain_fail (refusing up e) now typed s"
  unfolding login_ldap_group_def Let_def using assms by (auto intro!: plain_try split: option.split)

definition try_seen :: "env \<Rightarrow> int \<Rightarrow> string \<Rightarrow> site \<Rightarrow> (string option \<times> page) \<times> (string \<times> nat \<times> int) list \<times> (string \<times> int) list" where
  "try_seen e now typed s =
     (case throttle_seconds_left (en_sha e) (en_redis e) (in_seconds now) typed s of
        Some seconds \<Rightarrow> seen (login_fail e now typed Too_Many_Attempts (Some (lock_message (nat seconds))) (fresh, s))
      | None \<Rightarrow> plain_fail e now typed s)"

lemma by_name_ci_mem: "u \<in> set (by_name_ci n s) \<Longrightarrow> u \<in> set (si_users s) \<and> lower (us_name u) = lower n"
  by (simp add: by_name_ci_def)

lemma refused_login:
  assumes "site_ok s" "\<not> is_reserved typed"
  shows "seen (login (refusing up e) now False i typed pw (b, s)) = try_seen (refusing up e) now typed s"
proof (cases "throttle_seconds_left (en_sha e) (en_redis e) (in_seconds now) typed s")
  case (Some seconds)
  then show ?thesis by (auto simp: login_def try_seen_def intro!: same_try)
next
  case None
  have "seen (login (refusing up e) now False i typed pw (b, s)) = plain_fail (refusing up e) now typed s"
  proof (cases "by_name typed s")
    case (Some u)
    then have u: "u \<in> set (si_users s)" "us_name u = typed" using by_name_SomeD by blast+
    then have "us_auth u = Local \<longrightarrow> us_hash u \<noteq> None"
      using assms(1) by (auto simp: site_ok_def people_ok_def list_all_iff person_ok_def)
    then show ?thesis
      using None Some u by (cases "us_auth u") (simp_all add: login_def refused_local refused_ldap)
  next
    case noone: None
    let ?same = "by_name_ci typed s"
    let ?ldap = "filter (\<lambda>u. us_auth u = Ldap) ?same"
    have one: "lower (us_name (hd ?ldap)) = lower typed" if "length ?ldap = 1"
      using that by_name_ci_mem [of "hd ?ldap" typed s] by (cases ?ldap) (auto dest: filter_eq_ConsD)
    show ?thesis
      using None noone one refused_group [OF assms(2)]
      by (auto simp: login_def Let_def refused_ldap intro!: plain_try)
  qed
  then show ?thesis using None by (simp add: try_seen_def)
qed

lemma try_seen_cong:
  assumes "si_fails s = si_fails t" "si_stops s = si_stops t"
  shows "try_seen e now typed s = try_seen e now typed t"
proof -
  have "throttle_seconds_left sha up n m s = throttle_seconds_left sha up n m t" for sha up n m
    using assms(2) by (simp add: throttle_seconds_left_def)
  then show ?thesis
    unfolding try_seen_def plain_fail_def using assms by (auto intro!: login_fail_seen split: option.split)
qed

text \<open>C23: Before a password is proved, what a try reads tells nothing of the accounts: on any two tables of accounts -
  with whatever local and directory accounts, locked, disabled or none - with the same throttle, the same sequence of
  wrong tries reads the same messages and lands on the same pages.\<close>

theorem wrong_tries_read_alike:
  assumes "site_ok s" "site_ok t" "si_fails s = si_fails t" "si_stops s = si_stops t"
    "list_all (\<lambda>(now, new_id, typed, password). \<not> is_reserved typed) tries"
  shows "tries_seen (refusing answers e) tries (b, s) = tries_seen (refusing answers e) tries (c, t)"
  using assms
proof (induction tries arbitrary: b c s t)
  case (Cons one tries)
  obtain now i typed pw where one: "one = (now, i, typed, pw)" by (cases one)
  have free: "\<not> is_reserved typed" using Cons.prems(5) one by simp
  obtain r b1 s1 where l1: "login (refusing answers e) now False i typed pw (b, s) = (r, b1, s1)" using prod_cases3 by blast
  obtain q c1 t1 where l2: "login (refusing answers e) now False i typed pw (c, t) = (q, c1, t1)" using prod_cases3 by blast
  have "seen (r, b1, s1) = seen (q, c1, t1)"
    using refused_login [OF Cons.prems(1) free, of answers e now i pw b] refused_login [OF Cons.prems(2) free, of answers e now i pw c]
      try_seen_cong [OF Cons.prems(3,4)] l1 l2 by simp
  then have "re_says r = re_says q" "re_to r = re_to q" "si_fails s1 = si_fails t1" "si_stops s1 = si_stops t1"
    by (simp_all add: seen_def)
  moreover have "site_ok s1" "site_ok t1"
    using login_ok [OF Cons.prems(1), of "refusing answers e" now False i typed pw b]
      login_ok [OF Cons.prems(2), of "refusing answers e" now False i typed pw c] l1 l2 by (simp_all add: world_ok_def)
  ultimately show ?case using Cons.IH [of s1 t1 b1 c1] Cons.prems(5) one l1 l2 by simp
qed simp

theorem wrong_tries_read_alike_witness:
  "tries_seen (refusing (\<lambda>_. True) any_env) (replicate 12 (0, ''9'', ''dana'', ''guess'')) (fresh, lonely_site)
     = tries_seen (refusing (\<lambda>_. True) any_env) (replicate 12 (0, ''9'', ''dana'', ''guess'')) (fresh, lonely_site\<lparr>si_users := []\<rparr>)"
  by (rule wrong_tries_read_alike)
    (simp_all add: site_ok_def people_ok_def lonely_site_def lonely_admin_def person_ok_def is_reserved_def grafana_admin_def
      lower_def lower_char_def code_point_def strip_def strip_p_def lstrip_p_def rstrip_p_def is_space_def list_all_iff)


section \<open>Sign-ins are proved\<close>

text \<open>What one request may do to the browser: whom it waits for a code of, whom it signs in.\<close>

definition fair :: "env \<Rightarrow> int \<Rightarrow> request \<Rightarrow> world \<Rightarrow> reply \<times> world \<Rightarrow> bool" where
  "fair e now req w r \<longleftrightarrow>
     (let b = fst w; b1 = fst (snd r); s1 = snd (snd r) in
      (br_pending b1 \<in> {None, br_pending b} \<union> Some ` set (password_proofs e req (snd w)))
      \<and> (br_user b1 \<in> {None, br_user b}
        \<or> (\<exists>i. br_user b1 = Some i
          \<and> (i \<in> set (password_proofs e req (snd w)) \<and> needs_no_code i s1 \<or> proves_code e now req i w))))"

lemma fair_same: "br_pending (fst w1) \<in> {None, br_pending (fst w)} \<Longrightarrow> br_user (fst w1) \<in> {None, br_user (fst w)} \<Longrightarrow> fair e now req w (a, w1)"
  by (auto simp: fair_def Let_def)

lemma login_fail_browser:
  "fst (snd (login_fail e now n r m (b, s))) = b\<lparr>br_pending := None\<rparr>"
  by (simp add: login_fail_def Let_def split: prod.split)

lemma fair_login_fail: "fair e now req (b, s) (login_fail e' now' n r m (b, s1))"
  by (simp add: fair_def login_fail_browser Let_def)

lemma fair_sign_in:
  assumes "us_id u \<in> set (password_proofs e req s)" "needs_no_code (us_id u) s1"
  shows "fair e now req (b, s) (sign_in now u (b, s1))"
  using assms by (simp add: fair_def sign_in_def Let_def)

lemma fair_code:
  assumes "proves_code e now req (us_id u) (b, s)"
  shows "fair e now req (b, s) (sign_in now u (b, s1))"
  using assms by (simp add: fair_def sign_in_def Let_def)

lemma fair_otp:
  assumes "us_id u \<in> set (password_proofs e req s)"
  shows "fair e now req (b, s) (start_otp_flow u (b, s1))"
  using assms by (simp add: fair_def start_otp_flow_def Let_def)

lemma needs_no_codeI: "v \<in> set (si_users s) \<Longrightarrow> us_id v = i \<Longrightarrow> \<not> needs_second_factor v \<Longrightarrow> needs_no_code i s"
  by (auto simp: needs_no_code_def list_ex_iff)

lemma needs_no_code_users: "si_users s = si_users t \<Longrightarrow> needs_no_code i s = needs_no_code i t"
  by (simp add: needs_no_code_def)

lemma change_user_mem: "u \<in> set (si_users s) \<Longrightarrow> us_id u = i \<Longrightarrow> f u \<in> set (si_users (change_user i f s))"
  by (force simp: change_user_def)

lemma second_factor_cong:
  "us_name v = us_name u \<Longrightarrow> us_auth v = us_auth u \<Longrightarrow> us_otp v = us_otp u \<Longrightarrow> needs_second_factor v = needs_second_factor u"
  by (simp add: needs_second_factor_def is_factory_admin_def)

lemma fair_local:
  assumes u: "u \<in> set (si_users s)" and pw: "\<And>h. us_hash u = Some h \<Longrightarrow> en_check e h password \<Longrightarrow> us_id u \<in> set (password_proofs e req s)"
  shows "fair e now req (b, s) (login_local e now u password (b, s))"
proof -
  obtain m u1 where m: "lock_minutes_left now u = (m, u1)" by fastforce
  have u1: "us_id u1 = us_id u" "us_name u1 = us_name u" "us_auth u1 = us_auth u" "us_otp u1 = us_otp u"
    using m by (auto simp: lock_minutes_left_def split: option.splits if_splits)
  let ?s2 = "throttle_cleared (en_sha e) (en_redis e) (us_name u)
    (change_user (us_id u) (\<lambda>_. password_ok u1) (change_user (us_id u) (\<lambda>_. u1) s))"
  have mem: "password_ok u1 \<in> set (si_users ?s2)"
    unfolding throttle_cleared_same change_twice [OF u1(1)] using u by (rule change_user_mem) simp
  have "needs_second_factor (password_ok u1) = needs_second_factor u"
    by (rule second_factor_cong) (simp_all add: u1 password_ok_def)
  moreover have "us_id (password_ok u1) = us_id u" by (simp add: u1 password_ok_def)
  ultimately have none: "needs_no_code (us_id u) ?s2" if "\<not> needs_second_factor u"
    using needs_no_codeI [OF mem] that by simp
  show ?thesis
  proof (cases "us_hash u")
    case None
    then show ?thesis by (simp add: login_local_def Let_def m fair_same)
  next
    case (Some h)
    then show ?thesis
      unfolding login_local_def Let_def m
      using pw none by (auto intro!: fair_login_fail fair_sign_in fair_otp)
  qed
qed

lemma ldap_needs_none: "us_auth u = Ldap \<Longrightarrow> \<not> needs_second_factor u"
  by (simp add: needs_second_factor_def)

lemma change_keeps_none:
  assumes "needs_no_code i s" "\<And>u. us_id (f u) = us_id u" "\<And>u. needs_second_factor (f u) = needs_second_factor u"
  shows "needs_no_code i (change_user j f s)"
proof -
  obtain u where u: "u \<in> set (si_users s)" "us_id u = i" "\<not> needs_second_factor u"
    using assms(1) by (auto simp: needs_no_code_def list_ex_iff)
  let ?v = "if us_id u = j then f u else u"
  have "?v \<in> set (si_users (change_user j f s))" using u(1) by (force simp: change_user_def)
  then show ?thesis by (rule needs_no_codeI) (use u assms(2,3) in auto)
qed

lemma role_keeps_none:
  assumes "needs_no_code i s"
  shows "needs_no_code i (snd (set_directory_role j r s))"
proof -
  have "needs_second_factor (u\<lparr>us_role := r\<rparr>) = needs_second_factor u" for u
    by (rule second_factor_cong) simp_all
  then show ?thesis
    using assms by (auto simp: set_directory_role_def split: option.split intro!: change_keeps_none)
qed

lemma fair_ldap:
  assumes u: "u \<in> set (si_users s)" "us_auth u = Ldap"
    and pw: "takes_password e s u password \<Longrightarrow> us_id u \<in> set (password_proofs e req s)"
  shows "fair e now req (b, s) (login_ldap_existing e now u password (b, s))"
proof -
  have none: "needs_no_code (us_id u) s" using u ldap_needs_none by (auto intro: needs_no_codeI)
  have cleared: "needs_no_code (us_id u) (throttle_cleared (en_sha e) (en_redis e) n s)" for n
    using none needs_no_code_users [OF throttle_cleared_same(1)] by simp
  show ?thesis
    unfolding login_ldap_existing_def Let_def prod.case using pw u(2)
    by (auto split: option.split bool.split simp: takes_password_def
        intro!: fair_login_fail fair_sign_in role_keeps_none cleared)
qed

lemma fair_group:
  assumes "\<And>s. member_of_group e typed password s \<Longrightarrow> si_servers s = si_servers s0 \<Longrightarrow> new_id \<in> set (password_proofs e req s0)"
  shows "fair e now req (b, s0) (login_ldap_group e now new_id typed password (b, s0))"
proof -
  let ?s1 = "throttle_cleared (en_sha e) (en_redis e) typed s0"
  have signed: "fair e now req (b, s0) (sign_in now u (b, s2))"
    if new: "new_ldap new_id typed srv r d ?s1 = Some (Inr s2)" and u: "by_name typed s2 = Some u"
      and m: "member_of_group e typed password s0" for srv r d s2 u
    using new
  proof (rule new_ldap_Inr)
    fix v
    assume v: "s2 = ?s1\<lparr>si_users := si_users ?s1 @ [v]\<rparr>" "us_id v = new_id" "us_name v = typed" "us_auth v = Ldap"
      "row_fits new_id typed (fst d) (snd d) ?s1"
    have typed: "us_name u = typed" using by_name_SomeD [OF u] by simp
    have "us_name u \<in> set (map us_name (si_users ?s1))" if "u \<in> set (si_users ?s1)" using that by simp
    then have "u \<notin> set (si_users ?s1)" using v(5) unfolding typed row_fits_def by blast
    then have "u = v" using by_name_SomeD [OF u] v(1) by simp
    then have "needs_no_code (us_id u) s2"
      using v ldap_needs_none by (intro needs_no_codeI [of v]) auto
    then show "fair e now req (b, s0) (sign_in now u (b, s2))"
      using assms [OF m] v(2) \<open>u = v\<close> by (intro fair_sign_in) simp_all
  qed
  show ?thesis
    unfolding login_ldap_group_def Let_def prod.case
    by (auto split: option.split sum.split simp: member_of_group_def
        intro!: fair_login_fail fair_same signed)
qed

lemma fair_login: "fair e now (Login f i typed pw) (b, s) (login e now f i typed pw (b, s))"
proof -
  let ?req = "Login f i typed pw"
  let ?same = "by_name_ci typed s"
  let ?ldap = "filter (\<lambda>u. us_auth u = Ldap) ?same"
  have proofs: "us_id u \<in> set (password_proofs e ?req s)" if "account_for typed s = Some u" "takes_password e s u pw" for u
    using that by simp
  have named: "fair e now ?req (b, s) (case us_auth u of Local \<Rightarrow> login_local e now u pw (b, s) | Ldap \<Rightarrow> login_ldap_existing e now u pw (b, s))"
    if u: "by_name typed s = Some u" for u
  proof -
    have a: "account_for typed s = Some u" using u by (simp add: account_for_def)
    show ?thesis
      using by_name_SomeD [OF u] proofs [OF a]
      by (cases "us_auth u") (auto intro!: fair_local fair_ldap simp: takes_password_def)
  qed
  have same: "fair e now ?req (b, s) (login_ldap_existing e now (hd ?ldap) pw (b, s))"
    if "by_name typed s = None" "length ?ldap = 1" "length ?same = 1"
  proof -
    have a: "account_for typed s = Some (hd ?ldap)" using that by (simp add: account_for_def)
    have "hd ?ldap \<in> set ?ldap" using that(2) by (cases ?ldap) simp_all
    then have "hd ?ldap \<in> set (si_users s)" "us_auth (hd ?ldap) = Ldap" by (auto simp: by_name_ci_def)
    then show ?thesis using proofs [OF a] by (rule fair_ldap)
  qed
  have group: "fair e now ?req (b, s) (login_ldap_group e now i typed pw (b, s))"
    if "by_name typed s = None" "?same = []"
    using that by (intro fair_group) (simp add: account_for_def member_of_group_def)
  show ?thesis
    unfolding login_def Let_def prod.case using named same group
    by (auto split: option.split intro!: fair_login_fail fair_same)
qed


lemma pending_userD: "pending_user (b, s) = Some u \<Longrightarrow> br_pending b = Some (us_id u) \<and> find_user (us_id u) s = Some u"
  using find_user_SomeD by (auto simp: pending_user_def split: option.splits)

lemma fair_wrong_code: "fair e now req (b, s) (wrong_code p (b, s))"
  by (simp add: wrong_code_def Let_def fair_same)

lemma fair_enroll: "fair e now (Enrol_Code c) (b, s) (otp_enroll e now c (b, s))"
proof (cases "pending_user (b, s)")
  case (Some u)
  then show ?thesis
    using pending_userD [OF Some]
    by (auto simp: otp_enroll_def Let_def fair_same fair_wrong_code proves_code_def split: option.split intro!: fair_code)
qed (simp add: otp_enroll_def fair_same)

lemma fair_verify: "fair e now (Verify_Code c) (b, s) (otp_verify e now c (b, s))"
proof (cases "pending_user (b, s)")
  case (Some u)
  then show ?thesis
    using pending_userD [OF Some]
    by (auto simp: otp_verify_def fair_same fair_wrong_code proves_code_def intro!: fair_code)
qed (simp add: otp_verify_def fair_same)

lemma fair_for_signed_in:
  "(\<And>u. fair e now req (b, s) (f u (b, s))) \<Longrightarrow> fair e now req (b, s) (for_signed_in f (b, s))"
  by (simp add: for_signed_in_def fair_same split: option.split)

lemma fair_others:
  "fair e now req (b, s) (otp_enroll_page secret (b, s))"
  "fair e now req (b, s) (register e' i n m f p pw (b, s))"
  "fair e now req (b, s) (logout (b, s))"
  "fair e now req (b, s) (change_password e' u old new again (b, s))"
  "fair e now req (b, s) (account_2fa_page secret u (b, s))"
  "fair e now req (b, s) (account_2fa_setup e' now' c u (b, s))"
  "fair e now req (b, s) (account_2fa_off e' now' pw c u (b, s))"
  by (simp_all add: otp_enroll_page_def register_def logout_def change_password_def account_2fa_page_def
      account_2fa_setup_def account_2fa_off_def Let_def fair_same fresh_def split: option.split sum.split)

lemma fair_respond: "fair e now req (b, s) (respond e now req (b, s))"
  by (cases req) (simp_all add: fair_login fair_enroll fair_verify fair_others fair_for_signed_in fair_same)

lemma enforce_browser:
  "case enforce_session_lifetime e now bg w of
     Inl (a, w1) \<Rightarrow> fst w1 = fresh
   | Inr w1 \<Rightarrow> br_pending (fst w1) = br_pending (fst w) \<and> br_user (fst w1) = br_user (fst w) \<and> br_totp (fst w1) = br_totp (fst w)"
  by (auto simp: enforce_session_lifetime_def clocks_def Let_def split: prod.split)

lemma fair_gate:
  assumes "fair e now req w1 r" "snd w1 = snd w" "br_pending (fst w1) = br_pending (fst w)" "br_user (fst w1) = br_user (fst w)"
    "br_totp (fst w1) = br_totp (fst w)"
  shows "fair e now req w r"
proof -
  have "proves_code e now req i w1 = proves_code e now req i w" for i
    unfolding proves_code_def assms(2-5) by (rule refl)
  then show ?thesis using assms by (simp add: fair_def Let_def)
qed

lemma fair_request: "fair e now req w (handle_request e (now, bg, req) w)"
proof (cases "enforce_session_lifetime e now bg w")
  case (Inl r)
  then show ?thesis
    using enforce_browser [of w e now bg] by (cases r) (auto simp: handle_request_def fresh_def intro!: fair_same)
next
  case (Inr w1)
  have w1: "snd w1 = snd w" "br_pending (fst w1) = br_pending (fst w)" "br_user (fst w1) = br_user (fst w)"
    "br_totp (fst w1) = br_totp (fst w)"
    using enforce_browser [of w e now bg] enforce_site [of w e now bg] Inr by simp_all
  have "fair e now req w (respond e now req w1)"
    by (rule fair_gate [OF _ w1]) (use fair_respond [of e now req "fst w1" "snd w1"] in simp)
  then show ?thesis
    using Inr w1 by (simp add: handle_request_def fair_same)
qed

lemma proves_code_pending: "proves_code e now req i w \<Longrightarrow> br_pending (fst w) = Some i"
  by (simp add: proves_code_def)


section \<open>Sessions end\<close>

definition ask_pages :: "(int \<times> bool \<times> string) list \<Rightarrow> (int \<times> bool \<times> request) list" where
  "ask_pages asked_for = map (\<lambda>(now, background, name). (now, background, Page name)) asked_for"

definition session_state :: "int \<Rightarrow> int \<Rightarrow> browser \<Rightarrow> bool" where
  "session_state since active b \<longleftrightarrow> (br_user b \<noteq> None \<longrightarrow> br_signed_in b = Some since \<and> br_last b = Some active)"

lemma page_request:
  assumes "session_state since active b" "handle_request e (now, bg, Page name) (b, s) = (a, b1, s1)"
  shows "session_state since (if bg then active else in_seconds now) b1 \<or> session_state since active b1"
    "s1 = s" "bg \<Longrightarrow> session_state since active b1"
    "re_to a = The_Page name \<Longrightarrow> in_seconds now < since + 12 * 3600 \<and> in_seconds now < active + en_idle e"
  using assms unfolding session_state_def handle_request_def enforce_session_lifetime_def signed_in_account_def
  by (auto simp: clocks_def clock_or_def session_of_def seconds_left_def absolute_hours_def fresh_def go_def say_def
      for_signed_in_def signed_in_account_def Let_def split: option.splits if_splits)

lemma pages_end:
  assumes "session_state since active b"
  shows "list_all (\<lambda>((now, background, name), answer). re_to answer = The_Page name \<longrightarrow>
      in_seconds now < since + 12 * 3600
      \<and> (list_all (\<lambda>(_, background, _). background) asked_for \<longrightarrow> in_seconds now < active + en_idle e))
    (zip asked_for (fst (handle_requests e (ask_pages asked_for) (b, s))))"
  using assms
proof (induction asked_for arbitrary: b s active)
  case (Cons one asked_for)
  obtain now bg name where one: "one = (now, bg, name)" by (cases one)
  obtain a b1 s1 where r: "handle_request e (now, bg, Page name) (b, s) = (a, b1, s1)" using prod_cases3 by blast
  note facts = page_request [OF Cons.prems r]
  obtain t where t: "session_state since t b1" "bg \<longrightarrow> t = active" using facts(1,3) by (cases bg) auto
  have rest: "list_all (\<lambda>((now, background, name), answer). re_to answer = The_Page name \<longrightarrow>
      in_seconds now < since + 12 * 3600
      \<and> (list_all (\<lambda>(_, background, _). background) asked_for \<longrightarrow> in_seconds now < t + en_idle e))
    (zip asked_for (fst (handle_requests e (ask_pages asked_for) (b1, s1))))"
    by (rule Cons.IH [OF t(1)])
  have run: "fst (handle_requests e (ask_pages (one # asked_for)) (b, s)) = a # fst (handle_requests e (ask_pages asked_for) (b1, s1))"
    using r one by (simp add: ask_pages_def split: prod.split)
  show ?case
    unfolding run using facts(4) one rest t(2) by (auto simp: list_all_iff)
qed (simp add: ask_pages_def)

text \<open>A page is shown to a signed-in browser only within twelve hours of its sign-in, and - when nothing but a page's
  own background requests came - within the idle limit of its last activity.\<close>

theorem sessions_end:
  "list_all (\<lambda>((now, background, name), answer).
       if re_to answer = The_Page name
       then in_seconds now < since + 12 * 3600
         \<and> (if list_all (\<lambda>(_, background, _). background) asked_for then in_seconds now < active + en_idle e else True)
       else True)
     (zip asked_for (fst (handle_requests e (ask_pages asked_for)
       (b\<lparr>br_user := Some i, br_signed_in := Some since, br_last := Some active\<rparr>, s))))"
  using pages_end [of since active "b\<lparr>br_user := Some i, br_signed_in := Some since, br_last := Some active\<rparr>" asked_for e s]
  by (auto simp: session_state_def list_all_iff)

end
