(* ===== verification/Settings.thy ===== *)
theory Settings
  imports Inputs
begin

text \<open>
  \<open>src/db/settings.py\<close>: the registry of System Settings - what each setting accepts, what a stored row is read as - and
  the store: reading, planning and saving changes all or nothing, resetting, seeding. The state is the table: a row's
  stored value and who saved it. The pages' texts (help, units, placeholders) are left out.
\<close>

section \<open>Values, as typed, stored and read\<close>

datatype setting_value = Number int | Text string

text \<open>What was typed or stored: a JSON value; \<open>R_Other\<close> is any other one, as \<open>str()\<close> shows it.\<close>

datatype raw = R_None | R_Bool bool | R_Number int | R_Text string | R_Other string

definition raw_text :: "raw \<Rightarrow> string" where
  "raw_text r = (case r of
     R_None \<Rightarrow> ''None'' | R_Bool b \<Rightarrow> (if b then ''True'' else ''False'') | R_Number n \<Rightarrow> show_int n | R_Text s \<Rightarrow> s | R_Other s \<Rightarrow> s)"

text \<open>\<open>int()\<close> of a text: white space around it, a sign, digits with single underscores between them.\<close>

definition read_int :: "string \<Rightarrow> int option" where
  "read_int s =
     (let t = strip s;
          (negative, body) = (case t of
             [] \<Rightarrow> (False, [])
           | c # r \<Rightarrow> (if c = CHR ''-'' then (True, r) else if c = CHR ''+'' then (False, r) else (False, t)));
          groups = split_char (CHR ''_'') body
      in if list_all (\<lambda>g. g \<noteq> [] \<and> list_all is_dec g) groups
         then map_option (\<lambda>n. if negative then - int n else int n) (int_of_digits (concat groups))
         else None)"

section \<open>The kinds of settings\<close>

text \<open>\<open>IntSetting\<close>, \<open>TextSetting\<close> (a format with what to say when it isn't met, a length, required, lowercase),
  \<open>ChoiceSetting\<close>.\<close>

datatype setting_kind =
    Int_Setting "int option" "int option"
  | Text_Setting "((string \<Rightarrow> bool) \<times> string) option" "nat option" bool bool
  | Choice_Setting "(string \<times> string) list"

record system_setting =
  se_key :: string
  se_label :: string
  se_default :: setting_value
  se_kind :: setting_kind
  se_restart :: bool
  se_env :: "string option"

definition parse_int :: "int option \<Rightarrow> int option \<Rightarrow> raw \<Rightarrow> string + int" where
  "parse_int minimum maximum r =
     (case r of
        R_Bool _ \<Rightarrow> Inl ''must be a whole number''
      | _ \<Rightarrow> (case read_int (raw_text r) of
           None \<Rightarrow> Inl ''must be a whole number''
         | Some n \<Rightarrow>
             if (case minimum of None \<Rightarrow> False | Some m \<Rightarrow> n < m) then Inl (''must be at least '' @ show_int (the minimum))
             else if (case maximum of None \<Rightarrow> False | Some m \<Rightarrow> m < n) then Inl (''must be at most '' @ show_int (the maximum))
             else Inr n))"

definition typed_text :: "raw \<Rightarrow> string" where
  "typed_text r = (if r = R_None then [] else strip (raw_text r))"

definition parse_text :: "((string \<Rightarrow> bool) \<times> string) option \<Rightarrow> nat option \<Rightarrow> bool \<Rightarrow> bool \<Rightarrow> raw \<Rightarrow> string + string" where
  "parse_text pattern max_length required lowercase r =
     (let t = (if lowercase then lower (typed_text r) else typed_text r) in
      if required \<and> t = [] then Inl ''is required''
      else if (case max_length of None \<Rightarrow> False | Some n \<Rightarrow> n < length t)
        then Inl (''must be at most '' @ show_nat (the max_length) @ '' characters'')
      else if t \<noteq> [] \<and> (case pattern of None \<Rightarrow> False | Some (p, _) \<Rightarrow> \<not> p t)
        then Inl (case pattern of Some (_, hint) \<Rightarrow> if hint = [] then ''has an invalid format'' else hint | None \<Rightarrow> [])
      else Inr t)"

definition parse_choice :: "(string \<times> string) list \<Rightarrow> raw \<Rightarrow> string + string" where
  "parse_choice choices r =
     (let t = typed_text r in
      if t \<notin> set (map fst choices) then Inl (''must be one of: '' @ join '', '' (map snd choices)) else Inr t)"

definition parse_setting :: "system_setting \<Rightarrow> raw \<Rightarrow> string + setting_value" where
  "parse_setting s r =
     (case se_kind s of
        Int_Setting lo hi \<Rightarrow> (case parse_int lo hi r of Inl m \<Rightarrow> Inl m | Inr n \<Rightarrow> Inr (Number n))
      | Text_Setting p n req low \<Rightarrow> (case parse_text p n req low r of Inl m \<Rightarrow> Inl m | Inr t \<Rightarrow> Inr (Text t))
      | Choice_Setting cs \<Rightarrow> (case parse_choice cs r of Inl m \<Rightarrow> Inl m | Inr t \<Rightarrow> Inr (Text t)))"

text \<open>\<open>coerce\<close>: the value a stored one is read as, and what was wrong with it. A number out of range becomes the nearest
  valid one, anything else unreadable the default.\<close>

definition clamp :: "int option \<Rightarrow> int option \<Rightarrow> int \<Rightarrow> int" where
  "clamp minimum maximum n =
     (let lo = (case minimum of None \<Rightarrow> n | Some m \<Rightarrow> m); hi = (case maximum of None \<Rightarrow> n | Some m \<Rightarrow> m) in min (max n lo) hi)"

definition coerce :: "system_setting \<Rightarrow> raw \<Rightarrow> setting_value \<times> string option" where
  "coerce s stored =
     (case parse_setting s stored of
        Inr v \<Rightarrow> (v, None)
      | Inl m \<Rightarrow> (case se_kind s of
            Int_Setting lo hi \<Rightarrow> (case read_int (raw_text stored) of
                None \<Rightarrow> (se_default s, Some m)
              | Some n \<Rightarrow> (Number (clamp lo hi n), Some m))
          | _ \<Rightarrow> (se_default s, Some m)))"

section \<open>The registry\<close>

definition alnum :: "char \<Rightarrow> bool" where
  "alnum c \<longleftrightarrow> is_lower_az c \<or> is_upper_az c \<or> is_dec c"

text \<open>The pattern of a DNS name: labels of at most 63 letters, digits and inner hyphens.\<close>

definition dns_label :: "string \<Rightarrow> bool" where
  "dns_label t \<longleftrightarrow> t \<noteq> [] \<and> length t \<le> 63 \<and> alnum (hd t) \<and> alnum (last t) \<and> list_all (\<lambda>c. alnum c \<or> c = CHR ''-'') t"

definition dns_name :: "string \<Rightarrow> bool" where
  "dns_name t \<longleftrightarrow> list_all dns_label (split_char (CHR ''.'') t)"

text \<open>The pattern of a time: 00:00 to 23:59.\<close>

definition clock_time :: "string \<Rightarrow> bool" where
  "clock_time t \<longleftrightarrow> length t = 5
     \<and> (t ! 0 \<in> set ''01'' \<and> is_dec (t ! 1) \<or> t ! 0 = CHR ''2'' \<and> t ! 1 \<in> set ''0123'')
     \<and> t ! 2 = CHR '':'' \<and> t ! 3 \<in> set ''012345'' \<and> is_dec (t ! 4)"

definition number :: "string \<Rightarrow> string \<Rightarrow> int \<Rightarrow> int \<Rightarrow> int \<Rightarrow> system_setting" where
  "number name label start lo hi = \<lparr>se_key = name, se_label = label, se_default = Number start,
     se_kind = Int_Setting (Some lo) (Some hi), se_restart = False, se_env = None\<rparr>"

definition choice :: "string \<Rightarrow> string \<Rightarrow> string \<Rightarrow> (string \<times> string) list \<Rightarrow> system_setting" where
  "choice name label start cs = \<lparr>se_key = name, se_label = label, se_default = Text start,
     se_kind = Choice_Setting cs, se_restart = False, se_env = None\<rparr>"

definition weekdays :: "string list" where
  "weekdays = [''mon'', ''tue'', ''wed'', ''thu'', ''fri'', ''sat'', ''sun'']"

definition settings :: "system_setting list" where
  "settings =
    [number ''job_retention_days'' ''Keep job records for'' 30 1 3650,
     number ''config_snapshot_retention_days'' ''Keep config snapshots for'' 7 1 3650,
     number ''audit_retention_days'' ''Keep the audit log for'' 90 7 3650,
     number ''log_retention_days'' ''Keep log files for'' 30 1 3650,
     (number ''orchestrator_workers'' ''Rollouts at the same time'' 4 1 32)\<lparr>se_restart := True, se_env := Some ''ORCHESTRATOR_WORKERS''\<rparr>,
     number ''device_parallelism'' ''Devices at the same time, per rollout'' 10 1 64,
     number ''reachability_cache_seconds'' (''Reuse a device'' @ squote # ''s up/down status for'') 60 10 3600,
     choice ''host_key_mode'' ''Check device host keys'' ''off'' [(''off'', ''Off''), (''trust_first_use'', ''Trust on first use'')],
     \<lparr>se_key = ''dns_suffix'', se_label = ''Device DNS suffix'', se_default = Text [],
       se_kind = Text_Setting (Some (dns_name, ''must be a domain such as corp.local - no leading dot'')) (Some 200) False True,
       se_restart = False, se_env = None\<rparr>,
     \<lparr>se_key = ''public_hostname'', se_label = ''Hostname'', se_default = Text [],
       se_kind = Text_Setting (Some (dns_name, ''must be a hostname or IP address only - no https://, port or path'')) (Some 253) False True,
       se_restart = False, se_env = Some ''NETROLLOUT_PUBLIC_HOSTNAME''\<rparr>,
     number ''session_idle_minutes'' ''Sign out after inactivity'' 15 5 480,
     choice ''backup_schedule'' ''Scheduled backup'' ''daily'' [(''off'', ''Off''), (''daily'', ''Daily''), (''weekly'', ''Weekly'')],
     \<lparr>se_key = ''backup_time'', se_label = ''Time'', se_default = Text ''02:00'',
       se_kind = Text_Setting (Some (clock_time, ''must be a time like 02:00 (24-hour)'')) (Some 5) True False,
       se_restart = False, se_env = None\<rparr>,
     choice ''backup_weekday'' ''Day (weekly backups)'' ''sun'' [(''mon'', ''Monday''), (''tue'', ''Tuesday''), (''wed'', ''Wednesday''),
       (''thu'', ''Thursday''), (''fri'', ''Friday''), (''sat'', ''Saturday''), (''sun'', ''Sunday'')],
     number ''backup_keep'' ''Scheduled backups to keep'' 14 1 365,
     (number ''https_port'' ''HTTPS port'' 443 1 65535)\<lparr>se_env := Some ''NETROLLOUT_HTTPS_PORT''\<rparr>]"

definition find_setting :: "string \<Rightarrow> system_setting option" where
  "find_setting name = List.find (\<lambda>s. se_key s = name) settings"

text \<open>The rules between settings: left, whether it must be the greater one (else the smaller), right, the message.\<close>

definition rules :: "(string \<times> bool \<times> string \<times> string) list" where
  "rules =
    [(''log_retention_days'', True, ''job_retention_days'',
      ''Log files must be kept at least as long as job records - Download Log needs the file while the job exists.''),
     (''config_snapshot_retention_days'', False, ''job_retention_days'',
      ''Config snapshots can'' @ squote # ''t be kept longer than their job record.'')]"

type_synonym readings = "string \<Rightarrow> setting_value"

definition as_number :: "setting_value \<Rightarrow> int" where
  "as_number v = (case v of Number n \<Rightarrow> n | Text _ \<Rightarrow> 0)"

definition rule_holds :: "readings \<Rightarrow> string \<times> bool \<times> string \<times> string \<Rightarrow> bool" where
  "rule_holds vs rule = (case rule of (left, at_least, right, _) \<Rightarrow>
     (if at_least then as_number (vs right) \<le> as_number (vs left) else as_number (vs left) \<le> as_number (vs right)))"

definition public_url :: "string \<Rightarrow> int \<Rightarrow> string option" where
  "public_url hostname port =
     (if hostname = [] then None
      else Some (''https://'' @ hostname @ (if port = 443 then [] else '':'' @ show_int port)))"

section \<open>The store\<close>

text \<open>The table: by key, the stored value and who saved it (none: the system).\<close>

type_synonym rows = "(string \<times> raw \<times> string option) list"

definition stored_as :: "setting_value \<Rightarrow> raw" where
  "stored_as v = (case v of Number n \<Rightarrow> R_Number n | Text t \<Rightarrow> R_Text t)"

definition read_setting :: "system_setting \<Rightarrow> rows \<Rightarrow> setting_value" where
  "read_setting s t = (case map_of t (se_key s) of None \<Rightarrow> se_default s | Some (stored, _) \<Rightarrow> fst (coerce s stored))"

text \<open>\<open>values()\<close>: every setting's value; a name that is no setting has none (\<open>Text\<close> of nothing here, never asked).\<close>

definition read_settings :: "rows \<Rightarrow> readings" where
  "read_settings t name = (case find_setting name of None \<Rightarrow> Text [] | Some s \<Rightarrow> read_setting s t)"

definition seed_value :: "(string \<Rightarrow> string option) \<Rightarrow> system_setting \<Rightarrow> setting_value" where
  "seed_value environ s =
     (case se_env s of
        None \<Rightarrow> se_default s
      | Some name \<Rightarrow> (case environ name of
            None \<Rightarrow> se_default s
          | Some x \<Rightarrow> if x = [] then se_default s
              else (case parse_setting s (R_Text x) of Inr v \<Rightarrow> v | Inl _ \<Rightarrow> se_default s)))"

definition seed_settings :: "(string \<Rightarrow> string option) \<Rightarrow> rows \<Rightarrow> rows" where
  "seed_settings environ t =
     t @ map (\<lambda>s. (se_key s, stored_as (seed_value environ s), None)) (filter (\<lambda>s. map_of t (se_key s) = None) settings)"

text \<open>The rules that break, for the settings touched; they share one place in the errors, so the last one is shown.\<close>

definition check_rules :: "readings \<Rightarrow> string list \<Rightarrow> (string option \<times> string) list" where
  "check_rules merged touched =
     (case rev (filter (\<lambda>r. (fst r \<in> set touched \<or> fst (snd (snd r)) \<in> set touched) \<and> \<not> rule_holds merged r) rules) of
        [] \<Rightarrow> []
      | r # _ \<Rightarrow> [(None, snd (snd (snd r)))])"

record change =
  ch_key :: string
  ch_old :: setting_value
  ch_new :: setting_value

definition merged_with :: "readings \<Rightarrow> (string \<times> setting_value) list \<Rightarrow> readings" where
  "merged_with vs parsed name = (case map_of parsed name of None \<Rightarrow> vs name | Some v \<Rightarrow> v)"

text \<open>Each name typed: its error or its value.\<close>

fun parse_all :: "(string \<times> raw) list \<Rightarrow> (string option \<times> string) list \<times> (string \<times> setting_value) list" where
  "parse_all [] = ([], [])"
| "parse_all ((name, r) # rest) =
     (let (errors, parsed) = parse_all rest in
      case find_setting name of
        None \<Rightarrow> ((Some name, ''not an editable setting'') # errors, parsed)
      | Some s \<Rightarrow> (case parse_setting s r of
            Inl m \<Rightarrow> ((Some name, se_label s @ '': '' @ m) # errors, parsed)
          | Inr v \<Rightarrow> (errors, (name, v) # parsed)))"

definition plan :: "(string \<times> raw) list \<Rightarrow> rows \<Rightarrow> (string option \<times> string) list + change list" where
  "plan typed t =
     (let (errors, parsed) = parse_all typed; current = read_settings t in
      if errors \<noteq> [] then Inl errors
      else (let broken = check_rules (merged_with current parsed) (map fst parsed) in
        if broken \<noteq> [] then Inl broken
        else Inr (map (\<lambda>(k, v). \<lparr>ch_key = k, ch_old = current k, ch_new = v\<rparr>) (filter (\<lambda>(k, v). v \<noteq> current k) parsed))))"

definition write_rows :: "string option \<Rightarrow> (string \<times> setting_value) list \<Rightarrow> rows \<Rightarrow> rows" where
  "write_rows who vs t = fold (\<lambda>(k, v). AList.update k (stored_as v, who)) vs t"

definition save_changes :: "string option \<Rightarrow> change list \<Rightarrow> rows \<Rightarrow> rows" where
  "save_changes who cs t = write_rows who (map (\<lambda>c. (ch_key c, ch_new c)) cs) t"

definition update_settings :: "(string \<times> raw) list \<Rightarrow> string option \<Rightarrow> rows \<Rightarrow> ((string option \<times> string) list + change list) \<times> rows" where
  "update_settings typed who t =
     (case plan typed t of
        Inl errors \<Rightarrow> (Inl errors, t)
      | Inr cs \<Rightarrow> (Inr cs, save_changes who cs t))"

definition reset_setting :: "system_setting \<Rightarrow> string option \<Rightarrow> rows \<Rightarrow> ((string option \<times> string) list + change option) \<times> rows" where
  "reset_setting s who t =
     (let current = read_settings t; k = se_key s in
      if current k = se_default s then (Inr None, t)
      else (let broken = check_rules (merged_with current [(k, se_default s)]) [k] in
        if broken \<noteq> [] then (Inl broken, t)
        else (Inr (Some \<lparr>ch_key = k, ch_old = current k, ch_new = se_default s\<rparr>), write_rows who [(k, se_default s)] t)))"

definition restart_only_values :: "rows option \<Rightarrow> (string \<times> setting_value) list" where
  "restart_only_values answer =
     map (\<lambda>s. (se_key s, case answer of None \<Rightarrow> se_default s | Some t \<Rightarrow> read_setting s t)) (filter se_restart settings)"

definition restart_pending :: "(string \<times> setting_value) list \<Rightarrow> rows \<Rightarrow> string list" where
  "restart_pending started_with t =
     map (\<lambda>(k, v). case find_setting k of None \<Rightarrow> [] | Some s \<Rightarrow> se_label s) (filter (\<lambda>(k, v). read_settings t k \<noteq> v) started_with)"

text \<open>What reaches the store.\<close>

datatype settings_request =
    Update_Settings "(string \<times> raw) list" "string option"
  | Reset_Setting string "string option"
  | Seed_Settings

text \<open>A JSON object as a dict: the last value of a name given twice.\<close>

definition dict_of :: "(string \<times> raw) list \<Rightarrow> (string \<times> raw) list" where
  "dict_of typed = fold (\<lambda>(k, v). AList.update k v) typed []"

fun serve_settings :: "(string \<Rightarrow> string option) \<Rightarrow> settings_request \<Rightarrow> rows \<Rightarrow> rows" where
  "serve_settings environ (Update_Settings typed who) t = snd (update_settings (dict_of typed) who t)"
| "serve_settings environ (Reset_Setting name who) t =
     (case find_setting name of None \<Rightarrow> t | Some s \<Rightarrow> snd (reset_setting s who t))"
| "serve_settings environ Seed_Settings t = seed_settings environ t"

end
