(* ===== verification/Schedules.thy ===== *)
theory Schedules
  imports Settings
begin

text \<open>
  What NetRollout does by itself: scheduled backups (\<open>src/backup/schedule.py\<close>, with the folder's names of
  \<open>BackupFolder\<close> in \<open>src/backup/archive.py\<close>) and the nightly clean-up (\<open>src/db/retention.py\<close>). Local times are whole
  seconds since the Monday of 0001-01-01: slots, stamps and what is kept of a run have no fraction, and comparing a time
  with them never depends on its own.
\<close>

section \<open>When\<close>

definition day_seconds :: int where "day_seconds = 86400"

definition weekday_of :: "int \<Rightarrow> int" where
  "weekday_of moment = moment div day_seconds mod 7"

text \<open>\<open>_at\<close>: the day of \<open>now\<close> at "HH:MM" (\<open>None\<close>: not such a text, \<open>int()\<close> or the unpacking raises).\<close>

definition clock_seconds :: "string \<Rightarrow> int option" where
  "clock_seconds at =
     (case split_char (CHR '':'') at of
        [h, m] \<Rightarrow> (case (read_int h, read_int m) of
            (Some hour, Some minute) \<Rightarrow> if 0 \<le> hour \<and> hour < 24 \<and> 0 \<le> minute \<and> minute < 60 then Some (hour * 3600 + minute * 60) else None
          | _ \<Rightarrow> None)
      | _ \<Rightarrow> None)"

definition at_clock :: "int \<Rightarrow> int \<Rightarrow> int" where
  "at_clock moment clock = moment div day_seconds * day_seconds + clock"

datatype backup_schedule = Off | Daily | Weekly

definition last_slot :: "int \<Rightarrow> backup_schedule \<Rightarrow> int \<Rightarrow> int \<Rightarrow> int option" where
  "last_slot moment sched clock weekday =
     (case sched of
        Daily \<Rightarrow> (let slot = at_clock moment clock in Some (if slot \<le> moment then slot else slot - day_seconds))
      | Weekly \<Rightarrow> (let slot = at_clock moment clock - (weekday_of moment - weekday) mod 7 * day_seconds
          in Some (if slot \<le> moment then slot else slot - 7 * day_seconds))
      | Off \<Rightarrow> None)"

definition next_slot :: "int \<Rightarrow> backup_schedule \<Rightarrow> int \<Rightarrow> int \<Rightarrow> int option" where
  "next_slot moment sched clock weekday =
     map_option (\<lambda>slot. slot + (if sched = Daily then 1 else 7) * day_seconds) (last_slot moment sched clock weekday)"

definition retry_seconds :: int where "retry_seconds = 3600"

text \<open>The last run's outcome: when, and whether it succeeded.\<close>

record backup_status =
  bs_time :: int
  bs_ok :: bool

definition due :: "int \<Rightarrow> int option \<Rightarrow> int option \<Rightarrow> backup_status option \<Rightarrow> bool" where
  "due moment slot newest status =
     (case slot of
        None \<Rightarrow> False
      | Some s \<Rightarrow>
          if (case newest of None \<Rightarrow> False | Some n \<Rightarrow> s \<le> n) then False
          else (case status of
              None \<Rightarrow> True
            | Some st \<Rightarrow> bs_ok st \<or> \<not> (s \<le> bs_time st \<and> moment - bs_time st < retry_seconds)))"

section \<open>The folder\<close>

datatype backup_kind = Manual | Scheduled | Before_Restore | Before_Upgrade | Before_Move

text \<open>A backup, by its name: when it was made and what made it.\<close>

type_synonym backup = "int \<times> backup_kind"

record folder =
  fo_backups :: "backup list"
  fo_status :: "backup_status option"

text \<open>\<open>entries()\<close>: newest first, in the folder's order where the stamps are the same.\<close>

definition entries :: "folder \<Rightarrow> backup list" where
  "entries f = sort_key (\<lambda>b. - fst b) (fo_backups f)"

definition scheduled_backups :: "folder \<Rightarrow> backup list" where
  "scheduled_backups f = filter (\<lambda>b. snd b = Scheduled) (entries f)"

definition newest_scheduled :: "folder \<Rightarrow> int option" where
  "newest_scheduled f = (case scheduled_backups f of [] \<Rightarrow> None | b # _ \<Rightarrow> Some (fst b))"

text \<open>A folder has no order of its own: what stays is listed with the others first.\<close>

definition prune :: "nat \<Rightarrow> folder \<Rightarrow> folder" where
  "prune keep f = f\<lparr>fo_backups := filter (\<lambda>b. snd b \<noteq> Scheduled) (fo_backups f) @ take keep (scheduled_backups f)\<rparr>"

section \<open>Running\<close>

text \<open>How a backup may go: made (its retention too), made but something after it failed - before or after the retention -,
  not made.\<close>

datatype outcome = Made | Made_Then_Failed bool | Not_Made

definition run_scheduled :: "nat \<Rightarrow> int \<Rightarrow> outcome \<Rightarrow> folder \<Rightarrow> folder" where
  "run_scheduled keep moment how f =
     (let made = f\<lparr>fo_backups := (moment, Scheduled) # filter (\<lambda>b. b \<noteq> (moment, Scheduled)) (fo_backups f)\<rparr>;
          f1 = (case how of
             Made \<Rightarrow> prune keep made
           | Made_Then_Failed pruned \<Rightarrow> (if pruned then prune keep made else made)
           | Not_Made \<Rightarrow> f)
      in f1\<lparr>fo_status := Some \<lparr>bs_time = moment, bs_ok = (how = Made)\<rparr>\<rparr>)"

text \<open>The schedule as the settings give it: \<open>None\<close> - a text no clock reads.\<close>

definition schedule_of :: "readings \<Rightarrow> (backup_schedule \<times> int \<times> int) option" where
  "schedule_of vs =
     (let sched = (if vs ''backup_schedule'' = Text ''daily'' then Daily else if vs ''backup_schedule'' = Text ''weekly'' then Weekly else Off) in
      case (vs ''backup_time'', vs ''backup_weekday'') of
        (Text at, Text day) \<Rightarrow> (case (clock_seconds at, find_index (\<lambda>d. d = day) weekdays) of
            (Some clock, Some (i, _)) \<Rightarrow> Some (sched, clock, int i)
          | _ \<Rightarrow> None)
      | _ \<Rightarrow> None)"

definition keep_of :: "readings \<Rightarrow> nat" where
  "keep_of vs = nat (as_number (vs ''backup_keep''))"

text \<open>\<open>run_once\<close> of the scheduler: nothing while held; a schedule that can't be read raises, printed by the loop.\<close>

definition backup_tick :: "readings \<Rightarrow> int \<Rightarrow> bool \<Rightarrow> outcome \<Rightarrow> folder \<Rightarrow> bool \<times> folder" where
  "backup_tick vs moment hold how f =
     (if hold then (False, f)
      else (case schedule_of vs of
          None \<Rightarrow> (False, f)
        | Some (sched, clock, day) \<Rightarrow>
            if due moment (last_slot moment sched clock day) (newest_scheduled f) (fo_status f)
            then (True, run_scheduled (keep_of vs) moment how f) else (False, f)))"

section \<open>The nightly clean-up\<close>

record stored_result =
  rt_job :: string
  rt_completed :: "int option"
  rt_config :: bool

text \<open>What the statements touch: the results (with whether they hold a configuration or a diff), the jobs with when they
  were submitted, the audit rows' times.\<close>

record records =
  rc_results :: "stored_result list"
  rc_jobs :: "(string \<times> int) list"
  rc_audit :: "int list"

definition days_of :: "readings \<Rightarrow> string \<Rightarrow> int" where
  "days_of vs name = as_number (vs name) * day_seconds"

text \<open>A time that isn't there is older than nothing.\<close>

definition older_than :: "readings \<Rightarrow> int \<Rightarrow> string \<Rightarrow> int option \<Rightarrow> bool" where
  "older_than vs moment name t = (case t of None \<Rightarrow> False | Some x \<Rightarrow> x < moment - days_of vs name)"

definition run_retention :: "readings \<Rightarrow> int \<Rightarrow> records \<Rightarrow> nat list \<times> records" where
  "run_retention vs moment r =
     (let kept = filter (\<lambda>x. \<not> older_than vs moment ''job_retention_days'' (rt_completed x)) (rc_results r);
          jobs = filter (\<lambda>(j, t). \<not> (older_than vs moment ''job_retention_days'' (Some t) \<and> j \<notin> set (map rt_job kept))) (rc_jobs r);
          expired = (\<lambda>x. rt_config x \<and> older_than vs moment ''config_snapshot_retention_days'' (rt_completed x));
          audit = filter (\<lambda>t. \<not> older_than vs moment ''audit_retention_days'' (Some t)) (rc_audit r)
      in ([length (rc_results r) - length kept, length (rc_jobs r) - length jobs, length (filter expired kept),
           length (rc_audit r) - length audit],
          \<lparr>rc_results = map (\<lambda>x. if expired x then x\<lparr>rt_config := False\<rparr> else x) kept, rc_jobs = jobs, rc_audit = audit\<rparr>))"

definition run_at :: int where "run_at = 3 * 3600"

definition clean_up_due :: "int \<Rightarrow> int option \<Rightarrow> bool" where
  "clean_up_due moment last_run =
     (let today = moment div day_seconds * day_seconds + run_at
      in today \<le> moment \<and> (case last_run of None \<Rightarrow> True | Some t \<Rightarrow> t < today))"

record clean_up =
  cu_last :: "int option"
  cu_retry :: "int option"
  cu_records :: records

text \<open>One turn of the clean-up's loop: \<open>works\<close> - the database does; a failure is retried after an hour.\<close>

definition clean_up_turn :: "readings \<Rightarrow> int \<Rightarrow> bool \<Rightarrow> bool \<Rightarrow> clean_up \<Rightarrow> bool \<times> clean_up" where
  "clean_up_turn vs moment hold works c =
     (if (case cu_retry c of None \<Rightarrow> False | Some t \<Rightarrow> moment < t) \<or> \<not> clean_up_due moment (cu_last c) \<or> hold then (False, c)
      else if works then (True, c\<lparr>cu_last := Some moment, cu_retry := None, cu_records := snd (run_retention vs moment (cu_records c))\<rparr>)
      else (False, c\<lparr>cu_retry := Some (moment + 3600)\<rparr>))"


section \<open>Runs of the loops\<close>

text \<open>Turns at growing times: seconds since the turn before, held or not, how a backup goes; the times a backup was made.\<close>

fun backup_ticks :: "readings \<Rightarrow> int \<Rightarrow> (nat \<times> bool \<times> outcome) list \<Rightarrow> folder \<Rightarrow> int list \<times> folder" where
  "backup_ticks vs moment [] f = ([], f)"
| "backup_ticks vs moment ((later, hold, how) # ts) f =
     (let m = moment + int later; (did, f1) = backup_tick vs m hold how f; (made, f2) = backup_ticks vs m ts f1
      in (if did \<and> how \<noteq> Not_Made then m # made else made, f2))"

fun clean_up_turns :: "readings \<Rightarrow> int \<Rightarrow> (nat \<times> bool \<times> bool) list \<Rightarrow> clean_up \<Rightarrow> int list \<times> clean_up" where
  "clean_up_turns vs moment [] c = ([], c)"
| "clean_up_turns vs moment ((later, hold, works) # ts) c =
     (let m = moment + int later; (did, c1) = clean_up_turn vs m hold works c; (runs, c2) = clean_up_turns vs m ts c1
      in (if did then m # runs else runs, c2))"

end
