(* ===== verification/Settings_Properties.thy ===== *)
theory Settings_Properties
  imports Settings Text_Facts
begin

text \<open>
  What the settings promise: whatever the table holds, every setting reads as a valid value; the rules between settings
  hold after any sequence of saves, resets and starts; what is read is read again when it is stored.
\<close>

section \<open>Valid values\<close>

definition valid_value :: "setting_kind \<Rightarrow> setting_value \<Rightarrow> bool" where
  "valid_value k v =
     (case (k, v) of
        (Int_Setting lo hi, Number n) \<Rightarrow>
          (case lo of None \<Rightarrow> True | Some m \<Rightarrow> m \<le> n) \<and> (case hi of None \<Rightarrow> True | Some m \<Rightarrow> n \<le> m)
      | (Text_Setting p len req low, Text t) \<Rightarrow>
          strip t = t \<and> (low \<longrightarrow> lower t = t) \<and> (req \<longrightarrow> t \<noteq> []) \<and> (case len of None \<Rightarrow> True | Some n \<Rightarrow> length t \<le> n)
          \<and> (case p of None \<Rightarrow> True | Some (f, _) \<Rightarrow> t = [] \<or> f t)
      | (Choice_Setting cs, Text t) \<Rightarrow> t \<in> set (map fst cs)
      | _ \<Rightarrow> False)"

text \<open>What the registry has to be for this: valid defaults, ranges of a few digits, choices without white space around.\<close>

definition well_made :: "system_setting \<Rightarrow> bool" where
  "well_made s \<longleftrightarrow> valid_value (se_kind s) (se_default s)
     \<and> (case se_kind s of
          Int_Setting lo hi \<Rightarrow> (case (lo, hi) of (Some a, Some b) \<Rightarrow> 0 \<le> a \<and> a \<le> b \<and> b < 10 ^ 6 | _ \<Rightarrow> False)
        | Choice_Setting cs \<Rightarrow> list_all (\<lambda>c. strip (fst c) = fst c) cs
        | _ \<Rightarrow> True)"

lemma registry_well_made: "list_all well_made settings"
  by (simp add: settings_def well_made_def valid_value_def number_def choice_def clock_time_def is_dec_def code_point_def
      strip_def strip_p_def lstrip_p_def rstrip_p_def is_space_def lower_def)

lemma distinct_keys: "distinct (map se_key settings)"
  by (simp add: settings_def number_def choice_def)

lemma find_distinct: "distinct (map f xs) \<Longrightarrow> x \<in> set xs \<Longrightarrow> List.find (\<lambda>y. f y = f x) xs = Some x"
  by (induction xs) auto

lemma find_setting_mem: "s \<in> set settings \<Longrightarrow> find_setting (se_key s) = Some s"
  unfolding find_setting_def by (rule find_distinct [OF distinct_keys])

lemma find_settingD: "find_setting name = Some s \<Longrightarrow> s \<in> set settings \<and> se_key s = name"
  unfolding find_setting_def by (drule find_SomeD) simp

lemma well_made_mem: "s \<in> set settings \<Longrightarrow> well_made s"
  using registry_well_made by (simp add: list_all_iff)

lemma parse_valid: "parse_setting s r = Inr v \<Longrightarrow> valid_value (se_kind s) v"
proof (cases "se_kind s")
  case (Int_Setting lo hi)
  assume "parse_setting s r = Inr v"
  then show ?thesis
    using Int_Setting by (auto simp: parse_setting_def parse_int_def valid_value_def split: raw.splits option.splits if_splits)
next
  case (Text_Setting p n req low)
  assume "parse_setting s r = Inr v"
  then obtain t where v: "v = Text t" and t: "parse_text p n req low r = Inr t"
    using Text_Setting by (auto simp: parse_setting_def split: sum.splits)
  have "strip (typed_text r) = typed_text r"
    by (simp add: typed_text_def)
  then have "strip t = t \<and> (low \<longrightarrow> lower t = t)"
    using t by (auto simp: parse_text_def Let_def lower_strip [symmetric] split: if_splits)
  then show ?thesis
    using Text_Setting v t by (auto simp: valid_value_def parse_text_def Let_def split: if_splits option.splits)
next
  case (Choice_Setting cs)
  assume "parse_setting s r = Inr v"
  then show ?thesis
    using Choice_Setting by (auto simp: parse_setting_def parse_choice_def valid_value_def Let_def simp del: set_map split: sum.splits if_splits)
qed

lemma clamp_valid: "0 \<le> a \<Longrightarrow> a \<le> b \<Longrightarrow> valid_value (Int_Setting (Some a) (Some b)) (Number (clamp (Some a) (Some b) n))"
  by (simp add: valid_value_def clamp_def)

lemma coerce_valid: "well_made s \<Longrightarrow> valid_value (se_kind s) (fst (coerce s r))"
  using parse_valid [of s r] clamp_valid
  by (auto simp: coerce_def well_made_def split: sum.split setting_kind.splits option.splits)

lemma read_valid: "s \<in> set settings \<Longrightarrow> valid_value (se_kind s) (read_setting s t)"
  using well_made_mem coerce_valid by (auto simp: read_setting_def well_made_def split: option.split)

text \<open>C26: Whatever the table holds - nothing, values of another release, anything - every setting reads as a value it
  accepts: a number in its range, a trimmed text of its format and length, one of its choices.\<close>

theorem settings_always_valid:
  "list_all (\<lambda>s. valid_value (se_kind s) (read_settings t (se_key s))) settings"
  by (auto simp: list_all_iff read_settings_def find_setting_mem read_valid)

section \<open>What is read is stored and read again\<close>

lemma show_nat_parts: "c \<in> set (show_nat n) \<Longrightarrow> is_dec c"
  using show_nat_decimal [of n] by (simp add: list_all_iff)

lemma not_dec: "\<not> is_dec (CHR ''-'')" "\<not> is_dec (CHR ''+'')" "\<not> is_dec (CHR ''_'')" "is_dec c \<Longrightarrow> \<not> is_space c"
  by (auto simp: is_dec_def is_space_def code_point_def Let_def)

lemma read_digits:
  assumes "s \<noteq> []" "list_all is_dec s" "length s \<le> 4300"
  shows "read_int s = Some (int (digits_value 0 s))"
proof -
  have dec: "is_dec c" if "c \<in> set s" for c using that assms(2) by (simp add: list_all_iff)
  have strip: "strip s = s" by (rule strip_no_space) (use dec not_dec(4) in blast)
  obtain c r where s: "s = c # r" using assms(1) by (cases s) auto
  have c: "c \<noteq> CHR ''-''" "c \<noteq> CHR ''+''" using dec [of c] s not_dec by auto
  have split: "split_char (CHR ''_'') s = [s]"
    by (rule split_char_absent) (use dec [of "CHR ''_''"] not_dec(3) in blast)
  have sign: "(case s of [] \<Rightarrow> (False, []) | c # r \<Rightarrow>
      (if c = CHR ''-'' then (True, r) else if c = CHR ''+'' then (False, r) else (False, s))) = (False, s)"
    using c by (simp add: s)
  show ?thesis
    unfolding read_int_def Let_def strip sign prod.case split using assms by (simp add: int_of_digits_def)
qed

lemma read_show: "n < 10 ^ 6 \<Longrightarrow> read_int (show_nat n) = Some (int n)"
  using read_digits [of "show_nat n"] show_nat_decimal [of n] digits_value_show_nat [of n] length_show_nat [of n 5] by simp

lemma coerce_stored:
  assumes "well_made s" "valid_value (se_kind s) v"
  shows "coerce s (stored_as v) = (v, None)"
proof -
  have "parse_setting s (stored_as v) = Inr v"
  proof (cases "se_kind s")
    case (Int_Setting lo hi)
    then obtain n a b where v: "v = Number n" and lo: "lo = Some a" "hi = Some b" and n: "a \<le> n" "n \<le> b" "0 \<le> a" "b < 10 ^ 6"
      using assms by (cases v) (auto simp: valid_value_def well_made_def split: option.splits)
    have "read_int (show_int n) = Some n"
      using read_show [of "nat n"] n by (simp add: show_int_def)
    then show ?thesis
      using Int_Setting v lo n by (simp add: parse_setting_def stored_as_def parse_int_def raw_text_def)
  next
    case (Text_Setting p n req low)
    then show ?thesis
      using assms by (cases v) (auto simp: valid_value_def parse_setting_def stored_as_def parse_text_def typed_text_def raw_text_def
          Let_def split: option.splits)
  next
    case (Choice_Setting cs)
    then show ?thesis
      using assms by (cases v) (auto simp: valid_value_def well_made_def parse_setting_def stored_as_def parse_choice_def
          typed_text_def raw_text_def list_all_iff Let_def)
  qed
  then show ?thesis by (simp add: coerce_def)
qed

lemma write_rows_lookup:
  "map_of (write_rows who vs t) k = (case map_of (rev vs) k of None \<Rightarrow> map_of t k | Some v \<Rightarrow> Some (stored_as v, who))"
proof -
  have "map_of (fold (\<lambda>(k, v). AList.update k (stored_as v, who)) vs t) k
      = (case map_of (rev vs) k of None \<Rightarrow> map_of t k | Some v \<Rightarrow> Some (stored_as v, who))"
    by (induction vs arbitrary: t) (auto simp: update_conv' map_add_def split: option.split)
  then show ?thesis by (simp add: write_rows_def)
qed

lemma map_of_rev: "distinct (map fst vs) \<Longrightarrow> map_of (rev vs) = map_of vs"
  by (rule map_of_inject_set [THEN iffD2]) (simp_all add: rev_map [symmetric])

lemma read_written:
  assumes "distinct (map fst vs)" "\<And>k v. (k, v) \<in> set vs \<Longrightarrow> \<exists>s. find_setting k = Some s \<and> valid_value (se_kind s) v"
    "find_setting name = Some s"
  shows "read_settings (write_rows who vs t) name = merged_with (read_settings t) vs name"
proof (cases "map_of vs name")
  case None
  then show ?thesis
    using assms(3) find_settingD [OF assms(3)]
    by (simp add: read_settings_def merged_with_def read_setting_def write_rows_lookup map_of_rev [OF assms(1)])
next
  case (Some v)
  then have "(name, v) \<in> set vs" by (rule map_of_SomeD)
  then have "coerce s (stored_as v) = (v, None)"
    using assms(2) [of name v] assms(3) find_settingD [OF assms(3)] well_made_mem [of s] coerce_stored [of s v] by auto
  then show ?thesis
    using Some assms(3) find_settingD [OF assms(3)]
    by (simp add: read_settings_def merged_with_def read_setting_def write_rows_lookup map_of_rev [OF assms(1)])
qed

section \<open>The rules hold\<close>

definition rules_hold :: "rows \<Rightarrow> bool" where
  "rules_hold t \<longleftrightarrow> list_all (rule_holds (read_settings t)) rules"

lemma rules_cong:
  assumes "\<And>name. find_setting name \<noteq> None \<Longrightarrow> vs name = ws name"
  shows "list_all (rule_holds vs) rules = list_all (rule_holds ws) rules"
proof -
  have f: "find_setting ''log_retention_days'' \<noteq> None" "find_setting ''job_retention_days'' \<noteq> None"
    "find_setting ''config_snapshot_retention_days'' \<noteq> None"
    by (simp_all add: find_setting_def settings_def number_def choice_def)
  show ?thesis
    using assms [OF f(1)] assms [OF f(2)] assms [OF f(3)] by (simp add: rules_def rule_holds_def)
qed

lemma check_rules_Nil:
  "check_rules merged touched = [] \<longleftrightarrow>
     list_all (\<lambda>r. fst r \<in> set touched \<or> fst (snd (snd r)) \<in> set touched \<longrightarrow> rule_holds merged r) rules"
proof -
  let ?broken = "filter (\<lambda>r. (fst r \<in> set touched \<or> fst (snd (snd r)) \<in> set touched) \<and> \<not> rule_holds merged r) rules"
  have "check_rules merged touched = [] \<longleftrightarrow> ?broken = []"
    unfolding check_rules_def by (cases "rev ?broken") (auto simp del: rev_is_Nil_conv simp: rev_swap)
  then show ?thesis by (auto simp: filter_empty_conv list_all_iff)
qed

lemma rules_after:
  assumes "list_all (rule_holds vs) rules" "check_rules (merged_with vs parsed) (map fst parsed) = []"
  shows "list_all (rule_holds (merged_with vs parsed)) rules"
proof -
  have "rule_holds (merged_with vs parsed) r" if r: "r \<in> set rules" for r
  proof (cases "fst r \<in> set (map fst parsed) \<or> fst (snd (snd r)) \<in> set (map fst parsed)")
    case True
    then show ?thesis using assms(2) r by (auto simp: check_rules_Nil list_all_iff)
  next
    case False
    then have "map_of parsed (fst r) = None" "map_of parsed (fst (snd (snd r))) = None"
      by (simp_all add: map_of_eq_None_iff)
    then show ?thesis
      using assms(1) r by (cases r) (auto simp: list_all_iff rule_holds_def merged_with_def)
  qed
  then show ?thesis by (simp add: list_all_iff)
qed


lemma dict_of_distinct: "distinct (map fst (dict_of typed))"
proof -
  have "distinct (map fst (fold (\<lambda>(k, v). AList.update k v) typed d))" if "distinct (map fst d)" for d
    using that by (induction typed arbitrary: d) (auto simp: distinct_update)
  then show ?thesis by (simp add: dict_of_def)
qed

lemma parse_all_parts:
  "parse_all typed = (errors, parsed) \<Longrightarrow>
     (\<forall>(k, v)\<in>set parsed. \<exists>s. find_setting k = Some s \<and> valid_value (se_kind s) v)
     \<and> set (map fst parsed) \<subseteq> set (map fst typed) \<and> (distinct (map fst typed) \<longrightarrow> distinct (map fst parsed))"
proof (induction typed arbitrary: errors parsed)
  case (Cons x typed)
  obtain k r where x: "x = (k, r)" by (cases x)
  obtain e1 p1 where p1: "parse_all typed = (e1, p1)" by fastforce
  have "parsed = p1 \<or> (\<exists>v s. parsed = (k, v) # p1 \<and> find_setting k = Some s \<and> valid_value (se_kind s) v)"
    using Cons.prems p1 parse_valid by (auto simp: x split: option.splits sum.splits)
  then show ?case
  proof (elim disjE exE conjE)
    assume "parsed = p1"
    then show ?thesis using Cons.IH [OF p1] by (simp add: x) blast
  next
    fix v s
    assume p: "parsed = (k, v) # p1" "find_setting k = Some s" "valid_value (se_kind s) v"
    have "k \<notin> set (map fst p1)" if "k \<notin> set (map fst typed)" using that Cons.IH [OF p1] by blast
    then show ?thesis using Cons.IH [OF p1] p by (simp add: x del: set_map) (simp add: x, blast)
  qed
qed simp

definition pairs_of :: "change list \<Rightarrow> (string \<times> setting_value) list" where
  "pairs_of cs = map (\<lambda>c. (ch_key c, ch_new c)) cs"

lemma plan_parts:
  assumes "plan typed t = Inr cs" "distinct (map fst typed)"
  obtains parsed where "pairs_of cs = filter (\<lambda>(k, v). v \<noteq> read_settings t k) parsed" "distinct (map fst parsed)"
    "\<And>k v. (k, v) \<in> set parsed \<Longrightarrow> \<exists>s. find_setting k = Some s \<and> valid_value (se_kind s) v"
    "check_rules (merged_with (read_settings t) parsed) (map fst parsed) = []"
proof -
  obtain errors parsed where p: "parse_all typed = (errors, parsed)" by fastforce
  have e: "errors = []" and r: "check_rules (merged_with (read_settings t) parsed) (map fst parsed) = []"
    and cs: "cs = map (\<lambda>(k, v). \<lparr>ch_key = k, ch_old = read_settings t k, ch_new = v\<rparr>) (filter (\<lambda>(k, v). v \<noteq> read_settings t k) parsed)"
    using assms(1) p by (auto simp: plan_def Let_def split: if_splits)
  have "pairs_of cs = filter (\<lambda>(k, v). v \<noteq> read_settings t k) parsed"
    unfolding cs pairs_of_def map_map by (rule map_idI) (auto split: prod.split)
  then show thesis using that [of parsed] parse_all_parts [OF p] assms(2) r by blast
qed

lemma distinct_filter_fst: "distinct (map fst xs) \<Longrightarrow> distinct (map fst (filter p xs))"
  by (rule distinct_map_filter)

lemma merged_skips_same:
  "distinct (map fst parsed) \<Longrightarrow> merged_with vs (filter (\<lambda>(k, v). v \<noteq> vs k) parsed) = merged_with vs parsed"
proof
  fix k
  assume d: "distinct (map fst parsed)"
  have "map_of (filter (\<lambda>(k, v). v \<noteq> vs k) parsed) k = (case map_of parsed k of None \<Rightarrow> None | Some v \<Rightarrow> if v \<noteq> vs k then Some v else None)"
    using d by (induction parsed) (auto simp: map_of_eq_None_iff split: option.splits)
  then show "merged_with vs (filter (\<lambda>(k, v). v \<noteq> vs k) parsed) k = merged_with vs parsed k"
    by (simp add: merged_with_def split: option.split)
qed

lemma saved_rules:
  assumes "rules_hold t" "distinct (map fst vs)" "\<And>k v. (k, v) \<in> set vs \<Longrightarrow> \<exists>s. find_setting k = Some s \<and> valid_value (se_kind s) v"
    "list_all (rule_holds (merged_with (read_settings t) vs)) rules"
  shows "rules_hold (write_rows who vs t)"
  unfolding rules_hold_def
  by (subst rules_cong [where ws = "merged_with (read_settings t) vs"])
    (use assms read_written [OF assms(2,3)] in auto)

lemma update_keeps_rules:
  assumes "rules_hold t" "distinct (map fst typed)"
  shows "rules_hold (snd (update_settings typed who t))"
proof (cases "plan typed t")
  case (Inl e)
  then show ?thesis using assms by (simp add: update_settings_def)
next
  case (Inr cs)
  show ?thesis
    using Inr assms(2)
  proof (rule plan_parts)
    fix parsed
    assume p: "pairs_of cs = filter (\<lambda>(k, v). v \<noteq> read_settings t k) parsed" "distinct (map fst parsed)"
      "\<And>k v. (k, v) \<in> set parsed \<Longrightarrow> \<exists>s. find_setting k = Some s \<and> valid_value (se_kind s) v"
      "check_rules (merged_with (read_settings t) parsed) (map fst parsed) = []"
    have "rules_hold (write_rows who (pairs_of cs) t)"
    proof (rule saved_rules [OF assms(1)])
      show "distinct (map fst (pairs_of cs))" unfolding p(1) using p(2) by (rule distinct_filter_fst)
      show "\<exists>s. find_setting k = Some s \<and> valid_value (se_kind s) v" if "(k, v) \<in> set (pairs_of cs)" for k v
        using that p(3) unfolding p(1) by auto
      show "list_all (rule_holds (merged_with (read_settings t) (pairs_of cs))) rules"
        unfolding p(1) merged_skips_same [OF p(2)] by (rule rules_after [OF assms(1) [unfolded rules_hold_def] p(4)])
    qed
    then show ?thesis using Inr by (simp add: update_settings_def save_changes_def pairs_of_def)
  qed
qed

lemma reset_keeps_rules:
  assumes "rules_hold t" "find_setting k = Some s"
  shows "rules_hold (snd (reset_setting s who t))"
proof -
  have s: "s \<in> set settings" "se_key s = k" using find_settingD [OF assms(2)] by simp_all
  have v: "\<exists>s'. find_setting k' = Some s' \<and> valid_value (se_kind s') v" if "(k', v) \<in> set [(k, se_default s)]" for k' v
    using that assms(2) well_made_mem [OF s(1)] by (auto simp: well_made_def)
  have "rules_hold (write_rows who [(k, se_default s)] t)"
    if "check_rules (merged_with (read_settings t) [(k, se_default s)]) (map fst [(k, se_default s)]) = []"
    by (rule saved_rules [OF assms(1) _ v rules_after [OF assms(1) [unfolded rules_hold_def] that]]) simp
  then show ?thesis using assms(1) s(2) by (simp add: reset_setting_def Let_def)
qed

lemma seed_reads_same:
  assumes "s \<in> set settings" "se_env s = None"
  shows "read_setting s (seed_settings environ t) = read_setting s t"
proof (cases "map_of t (se_key s)")
  case None
  let ?new = "map (\<lambda>s. (se_key s, stored_as (seed_value environ s), None)) (filter (\<lambda>s. map_of t (se_key s) = None) settings)"
  have "distinct (map fst ?new)" using distinct_keys by (simp add: comp_def distinct_map_filter)
  moreover have "(se_key s, stored_as (se_default s), None) \<in> set ?new"
    using assms None by (auto simp: seed_value_def image_iff)
  ultimately have "map_of ?new (se_key s) = Some (stored_as (se_default s), None)" by (rule map_of_is_SomeI)
  then have "map_of (seed_settings environ t) (se_key s) = Some (stored_as (se_default s), None)"
    using None by (simp add: seed_settings_def map_add_def)
  moreover have "coerce s (stored_as (se_default s)) = (se_default s, None)"
    using well_made_mem [OF assms(1)] by (intro coerce_stored) (simp_all add: well_made_def)
  ultimately show ?thesis using None by (simp add: read_setting_def)
next
  case (Some x)
  then show ?thesis by (simp add: read_setting_def seed_settings_def map_add_def)
qed

lemma seed_keeps_rules:
  assumes "rules_hold t"
  shows "rules_hold (seed_settings environ t)"
proof -
  have same: "read_settings (seed_settings environ t) name = read_settings t name"
    if "name \<in> {''log_retention_days'', ''job_retention_days'', ''config_snapshot_retention_days''}" for name
  proof -
    have "list_all (\<lambda>name. case find_setting name of None \<Rightarrow> False | Some s \<Rightarrow> se_env s = None)
        [''log_retention_days'', ''job_retention_days'', ''config_snapshot_retention_days'']"
      by (simp add: find_setting_def settings_def number_def choice_def)
    then have "case find_setting name of None \<Rightarrow> False | Some s \<Rightarrow> se_env s = None" using that by auto
    then obtain s where s: "find_setting name = Some s" "se_env s = None" by (cases "find_setting name") simp_all
    then show ?thesis
      using seed_reads_same [of s environ t] find_settingD [OF s(1)] by (simp add: read_settings_def)
  qed
  show ?thesis using assms same by (simp add: rules_hold_def rules_def rule_holds_def)
qed

text \<open>C27: The rules between settings - log files kept at least as long as job records, snapshots no longer - hold after
  any sequence of saves, resets and starts of NetRollout on a new installation, whatever was typed.\<close>

theorem rules_always_hold: "rules_hold (fold (serve_settings environ) requests [])"
proof -
  have "rules_hold (serve_settings environ r t)" if "rules_hold t" for r t
    using that
    by (cases r) (auto simp: update_keeps_rules dict_of_distinct reset_keeps_rules seed_keeps_rules split: option.split)
  then have "rules_hold (fold (serve_settings environ) requests t)" if "rules_hold t" for t
    using that by (induction requests arbitrary: t) auto
  moreover have "rules_hold []"
    by (simp add: rules_hold_def rules_def rule_holds_def read_settings_def read_setting_def find_setting_def settings_def
        number_def choice_def as_number_def)
  ultimately show ?thesis by blast
qed


text \<open>A save plans on the values it read and writes later, in another session: two planned on the same values and written
  one after the other break a rule that each of them checked.\<close>

definition long_logs :: rows where
  "long_logs = [(''log_retention_days'', R_Number 100, None)]"

lemma two_saves_break_a_rule:
  "\<exists>a b. plan [(''job_retention_days'', R_Number 90)] long_logs = Inr a \<and> plan [(''log_retention_days'', R_Number 50)] long_logs = Inr b
    \<and> rules_hold long_logs \<and> \<not> rules_hold (save_changes None b (save_changes None a long_logs))"
proof -
  have r: "read_int (show_int 100) = Some 100" "read_int (show_int 90) = Some 90" "read_int (show_int 50) = Some 50"
    using read_show [of 100] read_show [of 90] read_show [of 50] by (simp_all add: show_int_def)
  note defs = plan_def Let_def check_rules_def rules_def rule_holds_def merged_with_def read_settings_def read_setting_def
    find_setting_def settings_def number_def choice_def long_logs_def coerce_def parse_setting_def parse_int_def raw_text_def
    as_number_def rules_hold_def save_changes_def write_rows_def stored_as_def
  have "plan [(''job_retention_days'', R_Number 90)] long_logs
      = Inr [\<lparr>ch_key = ''job_retention_days'', ch_old = Number 30, ch_new = Number 90\<rparr>]"
    "plan [(''log_retention_days'', R_Number 50)] long_logs
      = Inr [\<lparr>ch_key = ''log_retention_days'', ch_old = Number 100, ch_new = Number 50\<rparr>]"
    "rules_hold long_logs"
    by (simp_all add: defs r)
  moreover have "\<not> rules_hold (save_changes None [\<lparr>ch_key = ''log_retention_days'', ch_old = Number 100, ch_new = Number 50\<rparr>]
     (save_changes None [\<lparr>ch_key = ''job_retention_days'', ch_old = Number 30, ch_new = Number 90\<rparr>] long_logs))"
    by (simp add: defs r)
  ultimately show ?thesis by blast
qed

end
