(* ===== verification/Schedules_Properties.thy ===== *)
theory Schedules_Properties
  imports Schedules Settings_Properties
begin

text \<open>
  What the schedules promise, under any settings the table may hold: the slots are exactly the times asked for, every
  slot gets one backup, a failure is retried, the clean-up runs once a day and leaves no result without its job.
\<close>

section \<open>The slots\<close>

definition is_slot :: "backup_schedule \<Rightarrow> int \<Rightarrow> int \<Rightarrow> int \<Rightarrow> bool" where
  "is_slot sched clock weekday t \<longleftrightarrow>
     (case sched of
        Off \<Rightarrow> False
      | Daily \<Rightarrow> t mod day_seconds = clock
      | Weekly \<Rightarrow> t mod day_seconds = clock \<and> weekday_of t = weekday)"

lemma day_parts: "t = t div day_seconds * day_seconds + t mod day_seconds"
  by simp

lemma daily_slots:
  fixes m :: int
  assumes "0 \<le> clock" "clock < day_seconds"
  defines "s \<equiv> (if at_clock m clock \<le> m then at_clock m clock else at_clock m clock - day_seconds)"
  shows "s mod day_seconds = clock" "s \<le> m" "m < s + day_seconds"
proof -
  have m: "0 \<le> m mod day_seconds" "m mod day_seconds < day_seconds" by (simp_all add: day_seconds_def)
  have s: "s = (if at_clock m clock \<le> m then m div day_seconds else m div day_seconds - 1) * day_seconds + clock"
    by (simp add: s_def at_clock_def left_diff_distrib)
  show "s mod day_seconds = clock" unfolding s using assms(1,2) by simp
  have parts: "\<And>q r. q + r = m \<Longrightarrow> 0 \<le> r \<Longrightarrow> r < day_seconds \<Longrightarrow> q = m div day_seconds * day_seconds \<Longrightarrow> s \<le> m \<and> m < s + day_seconds"
    using assms(1,2) by (auto simp: s_def at_clock_def)
  show "s \<le> m" "m < s + day_seconds"
    using parts [of "m div day_seconds * day_seconds" "m mod day_seconds"] m by simp_all
qed

lemma same_rest_apart:
  assumes "s mod k = t mod k" "s < t" "(0::int) < k"
  shows "s + k \<le> t"
proof (rule ccontr)
  assume "\<not> s + k \<le> t"
  then have "t - s < k" "0 < t - s" using assms(2) by auto
  moreover have "(t - s) mod k = 0" using assms(1) by (metis mod_diff_cong diff_self mod_0)
  ultimately show False by (metis less_irrefl mod_pos_pos_trivial order_less_imp_le)
qed

lemma weekly_is:
  assumes "0 \<le> clock" "clock < day_seconds" "0 \<le> weekday" "weekday < 7"
  shows "is_slot Weekly clock weekday t \<longleftrightarrow> t mod (7 * day_seconds) = weekday * day_seconds + clock"
proof -
  have split: "t mod (7 * day_seconds) = day_seconds * (t div day_seconds mod 7) + t mod day_seconds"
    using zmod_zmult2_eq [of 7 t day_seconds] by (simp only: mult.commute [of 7])
  show ?thesis
  proof
    assume "is_slot Weekly clock weekday t"
    then show "t mod (7 * day_seconds) = weekday * day_seconds + clock"
      unfolding split by (simp add: is_slot_def weekday_of_def)
  next
    assume e: "t mod (7 * day_seconds) = weekday * day_seconds + clock"
    have r: "0 \<le> t mod day_seconds" "t mod day_seconds < day_seconds" by (simp_all add: day_seconds_def)
    have "(day_seconds * (t div day_seconds mod 7) + t mod day_seconds) mod day_seconds = (weekday * day_seconds + clock) mod day_seconds"
      using e split by simp
    then have c: "t mod day_seconds = clock" using assms(1,2) by simp
    have "day_seconds * (t div day_seconds mod 7) = weekday * day_seconds" using e split c by simp
    then have "t div day_seconds mod 7 = weekday" by (simp add: day_seconds_def)
    then show "is_slot Weekly clock weekday t" using c by (simp add: is_slot_def weekday_of_def)
  qed
qed

lemma weekly_slots:
  fixes m :: int
  assumes "0 \<le> clock" "clock < day_seconds" "0 \<le> weekday" "weekday < 7"
  defines "a \<equiv> at_clock m clock - (weekday_of m - weekday) mod 7 * day_seconds"
  defines "s \<equiv> (if a \<le> m then a else a - 7 * day_seconds)"
  shows "s mod (7 * day_seconds) = weekday * day_seconds + clock" "s \<le> m" "m < s + 7 * day_seconds"
proof -
  let ?d = "m div day_seconds" and ?off = "(weekday_of m - weekday) mod 7"
  have m: "0 \<le> m mod day_seconds" "m mod day_seconds < day_seconds" by (simp_all add: day_seconds_def)
  have b: "0 \<le> ?off" "?off < 7" by simp_all
  have a: "a = (?d - ?off) * day_seconds + clock" by (simp add: a_def at_clock_def left_diff_distrib)
  have turn: "(d - (d mod 7 - w) mod 7) mod 7 = w" if "0 \<le> w" "w < 7" for d w :: int
  proof -
    have "(d - (d mod 7 - w) mod 7) mod 7 = (d - (d mod 7 - w)) mod 7" by (rule mod_diff_right_eq)
    also have "d - (d mod 7 - w) = w + 7 * (d div 7)" using minus_mod_eq_mult_div [of d 7] by simp
    also have "(w + 7 * (d div 7)) mod 7 = w" using that by simp
    finally show ?thesis .
  qed
  have "(?d - ?off) mod 7 = weekday" unfolding weekday_of_def by (rule turn [OF assms(3,4)])
  then have w: "a div day_seconds mod 7 = weekday" "a mod day_seconds = clock"
    unfolding a using assms(1,2) by simp_all
  have "is_slot Weekly clock weekday a" using w by (simp add: is_slot_def weekday_of_def)
  then have am: "a mod (7 * day_seconds) = weekday * day_seconds + clock" using weekly_is [OF assms(1-4)] by simp
  have "(a - 7 * day_seconds) mod (7 * day_seconds) = a mod (7 * day_seconds)" by simp
  then show "s mod (7 * day_seconds) = weekday * day_seconds + clock" using am by (simp add: s_def)
  show "s \<le> m" "m < s + 7 * day_seconds"
    using m day_parts [of m] assms(1,2) b unfolding s_def a day_seconds_def by (auto simp: not_le left_diff_distrib)
qed


lemma last_slot_is:
  assumes "0 \<le> clock" "clock < day_seconds" "0 \<le> weekday" "weekday < 7"
  shows "case last_slot m sched clock weekday of
      None \<Rightarrow> sched = Off
    | Some s \<Rightarrow> is_slot sched clock weekday s \<and> s \<le> m \<and> m < the (next_slot m sched clock weekday)
        \<and> is_slot sched clock weekday (the (next_slot m sched clock weekday))
        \<and> (\<forall>t. is_slot sched clock weekday t \<longrightarrow> t \<le> s \<or> the (next_slot m sched clock weekday) \<le> t)"
proof (cases sched)
  case Daily
  define s where "s = (if at_clock m clock \<le> m then at_clock m clock else at_clock m clock - day_seconds)"
  have l: "last_slot m sched clock weekday = Some s" and n: "next_slot m sched clock weekday = Some (s + day_seconds)"
    using Daily by (simp_all add: next_slot_def last_slot_def s_def Let_def)
  note f = daily_slots [OF assms(1,2), of m, folded s_def]
  have "t \<le> s \<or> s + day_seconds \<le> t" if "t mod day_seconds = clock" for t
    using that f(1) same_rest_apart [of s day_seconds t] by (cases "s < t") (auto simp: day_seconds_def)
  then show ?thesis using f Daily l n by (auto simp: is_slot_def)
next
  case Weekly
  define s where "s = (let a = at_clock m clock - (weekday_of m - weekday) mod 7 * day_seconds in if a \<le> m then a else a - 7 * day_seconds)"
  have l: "last_slot m sched clock weekday = Some s" and n: "next_slot m sched clock weekday = Some (s + 7 * day_seconds)"
    using Weekly by (simp_all add: next_slot_def last_slot_def s_def Let_def)
  note f = weekly_slots [OF assms, of m, folded s_def [unfolded Let_def]]
  have slot: "is_slot sched clock weekday t \<longleftrightarrow> t mod (7 * day_seconds) = weekday * day_seconds + clock" for t
    using weekly_is [OF assms] Weekly by simp
  have "t \<le> s \<or> s + 7 * day_seconds \<le> t" if "t mod (7 * day_seconds) = weekday * day_seconds + clock" for t
    using that f(1) same_rest_apart [of s "7 * day_seconds" t] by (cases "s < t") (auto simp: day_seconds_def)
  then show ?thesis using f l n unfolding slot by auto
qed (simp add: last_slot_def)

lemma length_5: "length t = 5 \<longleftrightarrow> (\<exists>a b c d e. t = [a, b, c, d, e])"
  by (auto simp: length_Suc_conv numeral_eq_Suc)

lemma clock_readable:
  assumes "clock_time t"
  obtains c where "clock_seconds t = Some c" "0 \<le> c" "c < day_seconds"
proof -
  obtain a b d e where t: "t = [a, b, CHR '':'', d, e]"
    and ab: "a \<in> set ''01'' \<and> is_dec b \<or> a = CHR ''2'' \<and> b \<in> set ''0123''" and de: "d \<in> set ''012345''" "is_dec e"
    using assms by (auto simp: clock_time_def length_5 nth_Cons')
  have dec: "is_dec a" "is_dec b" "is_dec d" "is_dec e" using ab de by (auto simp: is_dec_def code_point_def)
  have colon: "\<not> is_dec (CHR '':'')" by (simp add: is_dec_def code_point_def)
  have split: "split_char (CHR '':'') t = [[a, b], [d, e]]" using dec colon by (auto simp: t)
  have h: "read_int [a, b] = Some (int (digits_value 0 [a, b]))" and m: "read_int [d, e] = Some (int (digits_value 0 [d, e]))"
    using dec by (simp_all add: read_digits)
  have "digits_value 0 [a, b] < 24" using ab by (auto simp: is_dec_def code_point_def Let_def)
  moreover have "digits_value 0 [d, e] < 60" using de by (auto simp: is_dec_def code_point_def Let_def)
  ultimately show thesis
    using that [of "int (digits_value 0 [a, b]) * 3600 + int (digits_value 0 [d, e]) * 60"]
    by (simp add: clock_seconds_def split h m day_seconds_def del: digits_value.simps)
qed

lemma schedule_readable:
  obtains sched clock day where "schedule_of (read_settings t) = Some (sched, clock, day)" "0 \<le> clock" "clock < day_seconds"
    "0 \<le> day" "day < 7"
proof -
  have mem: "list_ex (\<lambda>s. se_key s = ''backup_time'' \<and> se_kind s = Text_Setting (Some (clock_time, ''must be a time like 02:00 (24-hour)'')) (Some 5) True False) settings"
    "list_ex (\<lambda>s. se_key s = ''backup_weekday'' \<and> (\<exists>cs. se_kind s = Choice_Setting cs \<and> map fst cs = weekdays)) settings"
    by (simp_all add: settings_def number_def choice_def weekdays_def)
  obtain s1 where s1: "s1 \<in> set settings" "se_key s1 = ''backup_time''"
    "se_kind s1 = Text_Setting (Some (clock_time, ''must be a time like 02:00 (24-hour)'')) (Some 5) True False"
    using mem(1) by (auto simp: list_ex_iff)
  obtain s2 cs where s2: "s2 \<in> set settings" "se_key s2 = ''backup_weekday''" "se_kind s2 = Choice_Setting cs" "map fst cs = weekdays"
    using mem(2) by (auto simp: list_ex_iff)
  obtain at where at: "read_settings t ''backup_time'' = Text at" "clock_time at"
    using read_valid [OF s1(1), of t] find_setting_mem [OF s1(1)] s1(2,3)
    by (cases "read_setting s1 t") (auto simp: valid_value_def read_settings_def)
  obtain d where d: "read_settings t ''backup_weekday'' = Text d" "d \<in> set weekdays"
    using read_valid [OF s2(1), of t] find_setting_mem [OF s2(1)] s2(2,3,4)
    by (cases "read_setting s2 t") (auto simp: valid_value_def read_settings_def simp del: set_map)
  obtain c where c: "clock_seconds at = Some c" "0 \<le> c" "c < day_seconds" using clock_readable [OF at(2)] .
  obtain i x where i: "find_index (\<lambda>y. y = d) weekdays = Some (i, x)"
    using d(2) find_index_None_iff [of "\<lambda>y. y = d" weekdays] by (cases "find_index (\<lambda>y. y = d) weekdays") auto
  have "i < 7" using find_index_SomeD(1) [OF i] by (simp add: weekdays_def)
  then show thesis
    using that c at d i by (simp add: schedule_of_def Let_def)
qed

text \<open>Whatever the settings table holds, the backup schedule can be read, and its last and next slots are the latest
  time asked for - every day or every week on its day, at its clock time - at or before now and the next one after: no
  other lies between.\<close>

theorem slots_exact:
  "case schedule_of (read_settings t) of
     None \<Rightarrow> False
   | Some (sched, clock, day) \<Rightarrow>
       (case (last_slot m sched clock day, next_slot m sched clock day) of
          (Some s, Some n) \<Rightarrow> is_slot sched clock day s \<and> s \<le> m \<and> m < n \<and> is_slot sched clock day n
            \<and> {x. is_slot sched clock day x \<and> s < x \<and> x < n} = {}
        | (None, None) \<Rightarrow> sched = Off
        | _ \<Rightarrow> False)"
proof -
  obtain sched clock day where r: "schedule_of (read_settings t) = Some (sched, clock, day)" "0 \<le> clock" "clock < day_seconds"
    "0 \<le> day" "day < 7" using schedule_readable .
  show ?thesis
    using last_slot_is [OF r(2-5), where m = m and sched = sched] r(1)
    by (cases "last_slot m sched clock day") (auto simp: next_slot_def)
qed


section \<open>The scheduled backups\<close>

lemma scheduled_mem: "b \<in> set (scheduled_backups f) \<longleftrightarrow> b \<in> set (fo_backups f) \<and> snd b = Scheduled"
  by (auto simp: scheduled_backups_def entries_def)

lemma newest_of_list:
  assumes "sorted (map (\<lambda>b. - fst b) bs)" "b \<in> set bs"
  shows "(b::backup) \<in> set bs \<and> fst b \<le> fst (hd bs)"
  using assms by (cases bs) auto

lemma newest_bound:
  assumes "b \<in> set (fo_backups f)" "snd b = Scheduled"
  shows "\<exists>n. newest_scheduled f = Some n \<and> fst b \<le> n"
proof -
  have m: "b \<in> set (scheduled_backups f)" using assms by (simp add: scheduled_mem)
  have "sorted (map (\<lambda>b. - fst b) (scheduled_backups f))"
    unfolding scheduled_backups_def entries_def by (rule sorted_filter) simp
  from newest_of_list [OF this m] show ?thesis
    using m by (cases "scheduled_backups f") (auto simp: newest_scheduled_def)
qed

lemma prune_newest:
  assumes "0 < keep" "newest_scheduled f = Some n"
  shows "\<exists>n'. newest_scheduled (prune keep f) = Some n' \<and> n \<le> n'"
proof -
  obtain b bs where b: "scheduled_backups f = b # bs" "n = fst b"
    using assms(2) by (auto simp: newest_scheduled_def split: list.splits)
  have "b \<in> set (scheduled_backups f)" by (simp add: b(1))
  then have "snd b = Scheduled" by (simp add: scheduled_mem)
  moreover have "b \<in> set (fo_backups (prune keep f))" using assms(1) by (cases keep) (simp_all add: prune_def b(1))
  ultimately show ?thesis using newest_bound [of b "prune keep f"] b(2) by simp
qed

lemma made_newest:
  assumes "0 < keep" "how \<noteq> Not_Made"
  shows "\<exists>n. newest_scheduled (run_scheduled keep m how f) = Some n \<and> m \<le> n"
proof -
  let ?made = "f\<lparr>fo_backups := (m, Scheduled) # filter (\<lambda>b. b \<noteq> (m, Scheduled)) (fo_backups f)\<rparr>"
  have status: "newest_scheduled (g\<lparr>fo_status := st\<rparr>) = newest_scheduled g" for g :: folder and st
    by (simp add: newest_scheduled_def scheduled_backups_def entries_def)
  obtain n where n: "newest_scheduled ?made = Some n" "m \<le> n" using newest_bound [of "(m, Scheduled)" ?made] by auto
  obtain n' where n': "newest_scheduled (prune keep ?made) = Some n'" "n \<le> n'" using prune_newest [OF assms(1) n(1)] by blast
  show ?thesis
    using assms(2) n n' by (cases how) (auto simp: run_scheduled_def status Let_def)
qed

lemma keep_positive: "0 < keep_of (read_settings t)"
proof -
  have "list_ex (\<lambda>s. se_key s = ''backup_keep'' \<and> se_kind s = Int_Setting (Some 1) (Some 365)) settings"
    by (simp add: settings_def number_def choice_def)
  then obtain s where s: "s \<in> set settings" "se_key s = ''backup_keep''" "se_kind s = Int_Setting (Some 1) (Some 365)"
    by (auto simp: list_ex_iff)
  then show ?thesis
    using read_valid [OF s(1), of t] find_setting_mem [OF s(1)]
    by (cases "read_setting s t") (auto simp: valid_value_def read_settings_def keep_of_def as_number_def)
qed

lemma last_slot_le: "last_slot m sched clock day = Some s \<Longrightarrow> 0 \<le> clock \<Longrightarrow> clock < day_seconds \<Longrightarrow> 0 \<le> day \<Longrightarrow> day < 7 \<Longrightarrow> s \<le> m"
  using last_slot_is [where m = m and sched = sched and clock = clock and weekday = day] by simp

text \<open>C28: After every turn of the backup schedule that isn't held, the latest slot has its scheduled backup in the
  folder, or a failure for it within the last hour is on record - whatever the settings, the folder and the way the
  backup went; without a schedule nothing is made.\<close>

theorem every_slot_served:
  "(let (did, f1) = backup_tick (read_settings t) m False how f in
    case schedule_of (read_settings t) of
      None \<Rightarrow> False
    | Some (sched, clock, day) \<Rightarrow>
        (case last_slot m sched clock day of
           None \<Rightarrow> did = False \<and> f1 = f
         | Some s \<Rightarrow>
             (case newest_scheduled f1 of None \<Rightarrow> False | Some n \<Rightarrow> s \<le> n)
             \<or> (case fo_status f1 of None \<Rightarrow> False
               | Some st \<Rightarrow> bs_ok st = False \<and> s \<le> bs_time st \<and> m - bs_time st < retry_seconds)))"
proof -
  obtain sched clock day where r: "schedule_of (read_settings t) = Some (sched, clock, day)" "0 \<le> clock" "clock < day_seconds"
    "0 \<le> day" "day < 7" using schedule_readable .
  show ?thesis
  proof (cases "last_slot m sched clock day")
    case None
    then show ?thesis using r(1) by (simp add: backup_tick_def due_def)
  next
    case (Some s)
    have s: "s \<le> m" by (rule last_slot_le [OF Some r(2-5)])
    show ?thesis
    proof (cases "due m (Some s) (newest_scheduled f) (fo_status f)")
      case True
      have "fo_status (run_scheduled k m how f) = Some \<lparr>bs_time = m, bs_ok = (how = Made)\<rparr>" for k
        by (simp add: run_scheduled_def Let_def)
      then show ?thesis
        using True r(1) Some s made_newest [OF keep_positive, of how t m f]
        by (cases "how = Not_Made") (auto simp: backup_tick_def retry_seconds_def)
    next
      case False
      then show ?thesis
        using r(1) Some by (auto simp: backup_tick_def due_def split: option.splits if_splits)
    qed
  qed
qed

text \<open>A turn that makes a backup does so for a slot later than the newest backup's.\<close>

lemma tick_facts:
  assumes "schedule_of vs = Some (sched, clock, day)" "0 \<le> clock" "clock < day_seconds" "0 \<le> day" "day < 7" "0 < keep_of vs"
    "backup_tick vs m hold how f = (did, f1)" "did" "how \<noteq> Not_Made"
  shows "\<exists>s. last_slot m sched clock day = Some s \<and> s \<le> m \<and> (\<forall>n. newest_scheduled f = Some n \<longrightarrow> n < s)
    \<and> (\<exists>n. newest_scheduled f1 = Some n \<and> m \<le> n)"
proof -
  have hold: "\<not> hold" and d: "due m (last_slot m sched clock day) (newest_scheduled f) (fo_status f)"
    and f1: "f1 = run_scheduled (keep_of vs) m how f"
    using assms(1,7,8) by (auto simp: backup_tick_def split: if_splits)
  obtain s where s: "last_slot m sched clock day = Some s" using d by (cases "last_slot m sched clock day") (auto simp: due_def)
  have "n < s" if "newest_scheduled f = Some n" for n
    using d that by (auto simp: s due_def split: if_splits)
  then show ?thesis
    using s last_slot_le [OF s assms(2-5)] made_newest [OF assms(6,9)] f1 by blast
qed

lemma tick_keeps_newest:
  assumes "0 < keep_of vs" "backup_tick vs m hold how f = (did, f1)" "\<not> (did \<and> how \<noteq> Not_Made)"
  shows "newest_scheduled f1 = newest_scheduled f"
proof -
  have "newest_scheduled (f\<lparr>fo_status := st\<rparr>) = newest_scheduled f" for st
    by (simp add: newest_scheduled_def scheduled_backups_def entries_def)
  then show ?thesis
    using assms by (auto simp: backup_tick_def run_scheduled_def split: option.splits if_splits prod.splits)
qed

lemma made_slots:
  assumes "schedule_of vs = Some (sched, clock, day)" "0 \<le> clock" "clock < day_seconds" "0 \<le> day" "day < 7" "0 < keep_of vs"
    "backup_ticks vs m ts f = (made, f1)"
  shows "distinct (map (\<lambda>x. last_slot x sched clock day) made)
    \<and> (\<forall>x\<in>set made. \<exists>s. last_slot x sched clock day = Some s \<and> (\<forall>n. newest_scheduled f = Some n \<longrightarrow> n < s))"
  using assms(7)
proof (induction ts arbitrary: m f made f1)
  case (Cons one ts)
  obtain later hold how where one: "one = (later, hold, how)" by (cases one)
  define k where "k = m + int later"
  obtain did g where g: "backup_tick vs k hold how f = (did, g)" by fastforce
  obtain rest h where rest: "backup_ticks vs k ts g = (rest, h)" by fastforce
  note IH = Cons.IH [OF rest]
  have made: "made = (if did \<and> how \<noteq> Not_Made then k # rest else rest)"
    using Cons.prems g rest by (simp add: one k_def [symmetric] Let_def)
  show ?case
  proof (cases "did \<and> how \<noteq> Not_Made")
    case False
    then have "made = rest" using made by (simp only: if_False)
    then show ?thesis using IH tick_keeps_newest [OF assms(6) g False] by simp
  next
    case True
    obtain s n where s: "last_slot k sched clock day = Some s" "s \<le> k" "\<forall>n. newest_scheduled f = Some n \<longrightarrow> n < s"
      and n: "newest_scheduled g = Some n" "k \<le> n"
      using tick_facts [OF assms(1-6) g] True by blast
    have later: "\<exists>s'. last_slot x sched clock day = Some s' \<and> s < s'" if "x \<in> set rest" for x
      using IH that n s(2) by fastforce
    then have "last_slot k sched clock day \<notin> (\<lambda>x. last_slot x sched clock day) ` set rest" using s(1) by force
    moreover have "\<exists>s'. last_slot x sched clock day = Some s' \<and> (\<forall>n. newest_scheduled f = Some n \<longrightarrow> n < s')" if "x \<in> set rest" for x
      using later [OF that] s(3) by fastforce
    ultimately show ?thesis using IH made True s by auto
  qed
qed simp

text \<open>C29: However the turns come - held, failing, at whatever times -, no slot of the schedule gets two scheduled
  backups, under any settings that stay as they are.\<close>

theorem one_backup_per_slot:
  "(case schedule_of (read_settings t) of
      None \<Rightarrow> False
    | Some (sched, clock, day) \<Rightarrow> distinct (map (\<lambda>x. last_slot x sched clock day) (fst (backup_ticks (read_settings t) m ts f))))"
proof -
  obtain sched clock day where r: "schedule_of (read_settings t) = Some (sched, clock, day)" "0 \<le> clock" "clock < day_seconds"
    "0 \<le> day" "day < 7" using schedule_readable .
  show ?thesis
    using made_slots [OF r keep_positive, of m ts f] r(1) by (cases "backup_ticks (read_settings t) m ts f") simp
qed


section \<open>The nightly clean-up\<close>

definition jobs_there :: "records \<Rightarrow> bool" where
  "jobs_there r \<longleftrightarrow> list_all (\<lambda>x. rt_job x \<in> set (map fst (rc_jobs r))) (rc_results r)"

lemma retention_keeps_jobs: "jobs_there r \<Longrightarrow> jobs_there (snd (run_retention vs m r))"
proof -
  assume there: "jobs_there r"
  let ?old = "older_than vs m ''job_retention_days''"
  let ?kept = "filter (\<lambda>x. \<not> ?old (rt_completed x)) (rc_results r)"
  let ?jobs = "filter (\<lambda>(j, t). \<not> (?old (Some t) \<and> j \<notin> set (map rt_job ?kept))) (rc_jobs r)"
  have "rt_job x \<in> set (map fst ?jobs)" if x: "x \<in> set ?kept" for x
  proof -
    obtain t where t: "(rt_job x, t) \<in> set (rc_jobs r)" using there x by (auto simp: jobs_there_def list_all_iff)
    have "rt_job x \<in> set (map rt_job ?kept)" using imageI [OF x, of rt_job] by simp
    then have "(rt_job x, t) \<in> set ?jobs" using t by simp
    then show ?thesis by force
  qed
  then show ?thesis by (auto simp: jobs_there_def run_retention_def Let_def list_all_iff)
qed

lemma turn_facts:
  "clean_up_turn vs m hold works c = (did, c1) \<Longrightarrow>
     (if did then clean_up_due m (cu_last c) \<and> cu_last c1 = Some m \<and> cu_records c1 = snd (run_retention vs m (cu_records c))
      else cu_last c1 = cu_last c \<and> cu_records c1 = cu_records c)"
  by (auto simp: clean_up_turn_def split: if_splits)

lemma turns_days:
  assumes "clean_up_turns vs m ts c = (runs, c1)"
  shows "distinct (map (\<lambda>x. x div day_seconds) runs)
    \<and> (\<forall>x\<in>set runs. m \<le> x \<and> (\<forall>l. cu_last c = Some l \<longrightarrow> l < x div day_seconds * day_seconds + run_at))
    \<and> (jobs_there (cu_records c) \<longrightarrow> jobs_there (cu_records c1))"
  using assms
proof (induction ts arbitrary: m c runs c1)
  case (Cons one ts)
  obtain later hold works where one: "one = (later, hold, works)" by (cases one)
  define k where "k = m + int later"
  obtain did g where g: "clean_up_turn vs k hold works c = (did, g)" by fastforce
  obtain rest h where rest: "clean_up_turns vs k ts g = (rest, h)" by fastforce
  note IH = Cons.IH [OF rest]
  have runs: "runs = (if did then k # rest else rest)" and c1: "c1 = h"
    using Cons.prems g rest by (simp_all add: one k_def [symmetric] Let_def)
  have k: "m \<le> k" by (simp add: k_def)
  show ?case
  proof (cases did)
    case False
    then have "cu_last g = cu_last c" "cu_records g = cu_records c" using turn_facts [OF g] by simp_all
    then show ?thesis using IH runs c1 False k by (auto intro: order_trans)
  next
    case True
    have due: "clean_up_due k (cu_last c)" and last: "cu_last g = Some k"
      and records: "cu_records g = snd (run_retention vs k (cu_records c))" using turn_facts [OF g] True by simp_all
    have later: "k \<le> x \<and> k < x div day_seconds * day_seconds + run_at" if "x \<in> set rest" for x
      using IH that last by blast
    have today: "k div day_seconds * day_seconds + run_at \<le> k"
      and before_now: "\<forall>l. cu_last c = Some l \<longrightarrow> l < k div day_seconds * day_seconds + run_at"
      using due by (auto simp: clean_up_due_def Let_def)
    have "k div day_seconds \<noteq> x div day_seconds" if "x \<in> set rest" for x
      using later [OF that] today by auto
    then have "k div day_seconds \<notin> (\<lambda>x. x div day_seconds) ` set rest" by auto
    moreover have "m \<le> x \<and> (\<forall>l. cu_last c = Some l \<longrightarrow> l < x div day_seconds * day_seconds + run_at)" if "x \<in> set rest" for x
      using later [OF that] k before_now today by fastforce
    ultimately show ?thesis
      using IH runs c1 True k before_now records retention_keeps_jobs [of "cu_records c" vs k] by auto
  qed
qed simp

definition some_records :: records where
  "some_records = \<lparr>rc_results = [\<lparr>rt_job = ''a'', rt_completed = Some 10, rt_config = True\<rparr>], rc_jobs = [(''a'', 5)], rc_audit = [3]\<rparr>"

text \<open>However its turns come, the nightly clean-up succeeds at most once a day, and - where every result had its
  job - leaves every result its job.\<close>

theorem clean_up_once_a_day:
  assumes "jobs_there (cu_records c)"
  shows "(let (runs, c1) = clean_up_turns vs m ts c in
      distinct (map (\<lambda>x. x div day_seconds) runs) \<and> jobs_there (cu_records c1))"
  using turns_days [of vs m ts c] assms by (cases "clean_up_turns vs m ts c") simp

theorem clean_up_once_a_day_witness:
  "(let (runs, c1) = clean_up_turns (read_settings []) 0 [(20000, False, True), (5000000, False, False), (4000, False, True)]
        \<lparr>cu_last = None, cu_retry = None, cu_records = some_records\<rparr> in
      distinct (map (\<lambda>x. x div day_seconds) runs) \<and> jobs_there (cu_records c1))"
  by (rule clean_up_once_a_day) (simp add: jobs_there_def some_records_def)

end
