(* ===== verification/Backup_Lock.thy ===== *)
theory Backup_Lock
  imports Main
begin

text \<open>
  \<open>BackupLock\<close> of \<open>src/backup/archive.py\<close>: one backup or restore at a time, by a file with its holder's token whose
  time the holder refreshes. Processes - their tokens are numbers - take one step each, in any order, as time passes:
  each step is one access to the file. What the lock protects is not modelled.
\<close>

record lock_file =
  lf_token :: nat
  lf_time :: int

text \<open>Where a process is: outside; having seen a stale file's time, then its content; about to remove it; about to make
  its own; holding it; about to remove its own; refused.\<close>

datatype place =
    Outside | Seen_Stale int | Read_Stale int nat | Removing_Stale | Making | Holding | Removing_Own | Refused

record lock_state =
  lk_file :: "lock_file option"
  lk_time :: int
  lk_place :: "nat \<Rightarrow> place"

definition stale_lock_seconds :: int where "stale_lock_seconds = 300"

definition stale :: "lock_state \<Rightarrow> bool" where
  "stale s \<longleftrightarrow> (case lk_file s of None \<Rightarrow> False | Some f \<Rightarrow> stale_lock_seconds < lk_time s - lf_time f)"

definition ours :: "nat \<Rightarrow> lock_state \<Rightarrow> bool" where
  "ours p s \<longleftrightarrow> (case lk_file s of None \<Rightarrow> False | Some f \<Rightarrow> lf_token f = p)"

definition moves :: "nat \<Rightarrow> place \<Rightarrow> lock_state \<Rightarrow> lock_state" where
  "moves p x s = s\<lparr>lk_place := (lk_place s)(p := x)\<rparr>"

text \<open>A step of the work with a lock that isn't stale, and of taking over one that is.\<close>

datatype lock_action =
    Look nat | Make nat | Beat nat | Leave nat | Remove_Own nat | Time_Passes nat

datatype take_over =
    Look_Stale nat | Read_Content nat | Compare nat | Remove_Stale nat

text \<open>\<open>__enter__\<close>, \<open>_beat\<close>, \<open>__exit__\<close>; a step that isn't the process's turn changes nothing.\<close>

fun lock_step :: "lock_action \<Rightarrow> lock_state \<Rightarrow> lock_state" where
  "lock_step (Look p) s = (if lk_place s p = Outside \<and> \<not> stale s then moves p Making s else s)"
| "lock_step (Make p) s =
     (if lk_place s p \<noteq> Making then s
      else (case lk_file s of
          None \<Rightarrow> moves p Holding (s\<lparr>lk_file := Some \<lparr>lf_token = p, lf_time = lk_time s\<rparr>\<rparr>)
        | Some _ \<Rightarrow> moves p Refused s))"
| "lock_step (Beat p) s =
     (if lk_place s p = Holding \<and> ours p s then s\<lparr>lk_file := Some \<lparr>lf_token = p, lf_time = lk_time s\<rparr>\<rparr> else s)"
| "lock_step (Leave p) s =
     (if lk_place s p = Holding then moves p (if ours p s then Removing_Own else Outside) s
      else if lk_place s p = Refused then moves p Outside s else s)"
| "lock_step (Remove_Own p) s = (if lk_place s p = Removing_Own then moves p Outside (s\<lparr>lk_file := None\<rparr>) else s)"
| "lock_step (Time_Passes n) s = s\<lparr>lk_time := lk_time s + int n\<rparr>"

text \<open>\<open>_take_over_stale\<close>: the file's time, its content, both again, then the removal.\<close>

fun take_over_step :: "take_over \<Rightarrow> lock_state \<Rightarrow> lock_state" where
  "take_over_step (Look_Stale p) s =
     (case lk_file s of
        None \<Rightarrow> s
      | Some f \<Rightarrow> (if lk_place s p = Outside \<and> stale s then moves p (Seen_Stale (lf_time f)) s else s))"
| "take_over_step (Read_Content p) s =
     (case lk_place s p of
        Seen_Stale t \<Rightarrow> (case lk_file s of None \<Rightarrow> moves p Making s | Some f \<Rightarrow> moves p (Read_Stale t (lf_token f)) s)
      | _ \<Rightarrow> s)"
| "take_over_step (Compare p) s =
     (case lk_place s p of
        Read_Stale t token \<Rightarrow>
          (case lk_file s of
             None \<Rightarrow> moves p Making s
           | Some f \<Rightarrow> moves p (if lf_time f = t \<and> lf_token f = token then Removing_Stale else Making) s)
      | _ \<Rightarrow> s)"
| "take_over_step (Remove_Stale p) s =
     (if lk_place s p = Removing_Stale then moves p Making (s\<lparr>lk_file := None\<rparr>) else s)"

definition lock_start :: "int \<Rightarrow> lock_state" where
  "lock_start t = \<lparr>lk_file = None, lk_time = t, lk_place = \<lambda>_. Outside\<rparr>"

definition holders :: "lock_state \<Rightarrow> nat set" where
  "holders s = {p. lk_place s p = Holding \<or> lk_place s p = Removing_Own}"

section \<open>Exclusion\<close>

definition inside :: "place \<Rightarrow> bool" where
  "inside x \<longleftrightarrow> x = Holding \<or> x = Removing_Own"

definition lock_ok :: "lock_state \<Rightarrow> bool" where
  "lock_ok s \<longleftrightarrow> (\<forall>p. inside (lk_place s p) = ours p s)"

lemma holders_ok: "lock_ok s \<Longrightarrow> holders s = (case lk_file s of None \<Rightarrow> {} | Some f \<Rightarrow> {lf_token f})"
  by (auto simp: lock_ok_def holders_def inside_def ours_def split: option.splits)

lemma ours_unique: "ours p s \<Longrightarrow> ours q s \<Longrightarrow> p = q"
  by (auto simp: ours_def split: option.splits)

lemma ours_after_move [simp]: "ours q (moves p x s) = ours q s"
  by (simp add: moves_def ours_def)

lemma place_after_move [simp]: "lk_place (moves p x s) q = (if q = p then x else lk_place s q)"
  by (simp add: moves_def)

lemma move_keeps_ok: "lock_ok s \<Longrightarrow> inside x = inside (lk_place s p) \<Longrightarrow> lock_ok (moves p x s)"
  by (simp add: lock_ok_def)

lemma lock_step_ok:
  assumes "lock_ok s"
  shows "lock_ok (lock_step a s)"
proof (cases a)
  case (Look p)
  then show ?thesis using assms move_keeps_ok [of s Making p] by (auto simp: inside_def)
next
  case (Make p)
  show ?thesis
  proof (cases "lk_file s")
    case None
    then have "\<not> inside (lk_place s q)" for q using assms by (simp add: lock_ok_def ours_def)
    then show ?thesis using Make None assms by (auto simp: lock_ok_def inside_def ours_def moves_def)
  next
    case (Some f)
    then show ?thesis using Make assms move_keeps_ok [of s Refused p] by (auto simp: inside_def)
  qed
next
  case (Beat p)
  then show ?thesis using assms by (auto simp: lock_ok_def ours_def split: option.splits)
next
  case (Leave p)
  have "inside (lk_place s p) = ours p s" using assms by (simp add: lock_ok_def)
  then show ?thesis
    using Leave assms move_keeps_ok [of s Removing_Own p] move_keeps_ok [of s Outside p] by (auto simp: inside_def)
next
  case (Remove_Own p)
  have "inside (lk_place s q) \<longrightarrow> q = p" if "inside (lk_place s p)" for q
    using assms that ours_unique unfolding lock_ok_def by blast
  then show ?thesis
    using Remove_Own assms by (auto simp: lock_ok_def inside_def ours_def moves_def)
next
  case (Time_Passes n)
  then show ?thesis using assms by (simp add: lock_ok_def ours_def)
qed

text \<open>C30: While no lock is found stale - its holder refreshes it in time -, at most one process holds it, and the file is
  there, with its token, exactly while one does.\<close>

theorem lock_exclusive:
  "holders (fold lock_step actions (lock_start t))
     = (case lk_file (fold lock_step actions (lock_start t)) of None \<Rightarrow> {} | Some f \<Rightarrow> {lf_token f})"
proof -
  have "lock_ok (fold lock_step actions s)" if "lock_ok s" for s
    using that by (induction actions arbitrary: s) (simp_all add: lock_step_ok)
  moreover have "lock_ok (lock_start t)" by (simp add: lock_ok_def lock_start_def inside_def ours_def)
  ultimately show ?thesis using holders_ok by blast
qed

text \<open>Yet two processes that take over one stale lock can both end up holding: comparing the file and removing it are two
  accesses, and the second removes the first one's new lock.\<close>

definition left_lock :: lock_state where
  "left_lock = \<lparr>lk_file = Some \<lparr>lf_token = 0, lf_time = 0\<rparr>, lk_time = 1000, lk_place = \<lambda>_. Outside\<rparr>"

lemma stale_lock_taken_twice:
  "{1, 2} \<subseteq> holders (lock_step (Make 2) (take_over_step (Remove_Stale 2) (lock_step (Make 1) (fold take_over_step
     [Look_Stale 1, Look_Stale 2, Read_Content 1, Read_Content 2, Compare 1, Compare 2, Remove_Stale 1] left_lock))))"
  by (simp add: left_lock_def moves_def stale_def stale_lock_seconds_def holders_def)

end
