(* ===== verification/Scan.thy ===== *)
theory Scan
  imports Detect Host_Keys Discovery_Targets
begin

text \<open>
  \<open>src/discovery/scan.py\<close>: one discovery. The addresses' ports are checked by a pool, the open ones queue in
  address order, and \<open>SIGN_INS\<close> workers sign in to them; the page continues, cancels, claims. What the code does
  under \<open>_lock\<close> is one function of the scan's state (\<open>Scan\<close>, first half); the threads are a crew whose steps -
  one per lock block or queue operation - happen in any order (second half). The port check, the sign-in, the skip
  rule and \<open>stop_when\<close> are the steps' arguments: whatever they answer. Times are nanoseconds.
\<close>

section \<open>What a scan keeps\<close>

definition max_addresses :: nat where "max_addresses = 4096"
definition map_limit :: nat where "map_limit = 1024"
definition port_checks :: nat where "port_checks = 64"
definition sign_ins :: nat where "sign_ins = 4"
definition sign_in_gap :: int where "sign_in_gap = 5 * 10 ^ 8"
definition failures_before_pause :: nat where "failures_before_pause = 3"
definition detail_chars :: nat where "detail_chars = 200"

datatype phase = Phase_Running | Phase_Paused | Phase_Cancelling | Phase_Done | Phase_Cancelled

definition ended_phases :: "phase list" where
  "ended_phases = [Phase_Done, Phase_Cancelled]"

datatype reason =
    Wrong_Credentials | Sign_In_Timed_Out | Sign_In_Failed | Not_Supported | In_Inventory | In_Rollout
  | Host_Key_Changed | Not_Asked

definition all_reasons :: "reason list" where
  "all_reasons = [Wrong_Credentials, Sign_In_Timed_Out, Sign_In_Failed, Not_Supported, In_Inventory, In_Rollout,
     Host_Key_Changed, Not_Asked]"

record login =
  lo_username :: string
  lo_password :: string
  lo_secret :: string

record finding =
  fd_id :: nat
  fd_address :: string
  fd_port :: nat
  fd_banner :: string
  fd_hostname :: "string option"
  fd_platform :: "string option"
  fd_detected :: "string option"
  fd_evidence :: "string option"
  fd_problem :: "string option"
  fd_host_key :: "string option"
  fd_created :: bool

record no_card =
  nc_address :: string
  nc_reason :: reason
  nc_detail :: string

datatype page_event = Phase_Event phase | Port_Event string bool | Line_Event no_card | Finding_Event finding

record scan =
  sn_addresses :: "string list"
  sn_port :: nat
  sn_login :: "login option"
  sn_events :: "(nat \<times> page_event) list"
  sn_findings :: "(nat \<times> finding) list"
  sn_lines :: "no_card list"
  sn_phase :: phase
  sn_next_start :: int
  sn_continues :: nat
  sn_failures :: nat
  sn_checked :: nat
  sn_open :: nat
  sn_signing_in :: int
  sn_signed_in :: nat
  sn_cancelled_by :: "string option"
  sn_ended :: "int option"

definition new_scan :: "string list \<Rightarrow> nat \<Rightarrow> login \<Rightarrow> scan" where
  "new_scan addresses port lgn =
     \<lparr>sn_addresses = addresses, sn_port = port, sn_login = Some lgn, sn_events = [], sn_findings = [], sn_lines = [],
      sn_phase = Phase_Running, sn_next_start = 0, sn_continues = 0, sn_failures = 0, sn_checked = 0, sn_open = 0,
      sn_signing_in = 0, sn_signed_in = 0, sn_cancelled_by = None, sn_ended = None\<rparr>"

text \<open>\<open>_event\<close>, \<open>_set_phase\<close>.\<close>

definition add_event :: "page_event \<Rightarrow> scan \<Rightarrow> scan" where
  "add_event e s = s\<lparr>sn_events := sn_events s @ [(Suc (length (sn_events s)), e)]\<rparr>"

definition set_phase :: "phase \<Rightarrow> scan \<Rightarrow> scan" where
  "set_phase p s = add_event (Phase_Event p) (s\<lparr>sn_phase := p\<rparr>)"

section \<open>What the page and the routes ask\<close>

definition proceed :: "scan \<Rightarrow> bool \<times> scan" where
  "proceed s =
     (if sn_phase s \<noteq> Phase_Paused then (False, s)
      else (True, set_phase Phase_Running (s\<lparr>sn_continues := Suc (sn_continues s), sn_failures := 0\<rparr>)))"

definition cancel_scan :: "string \<Rightarrow> scan \<Rightarrow> bool \<times> scan" where
  "cancel_scan who s =
     (if sn_phase s \<noteq> Phase_Running \<and> sn_phase s \<noteq> Phase_Paused then (False, s)
      else (True, set_phase Phase_Cancelling (s\<lparr>sn_cancelled_by := Some who\<rparr>)))"

record scan_counts =
  sc_addresses :: nat
  sc_checked :: nat
  sc_open :: nat
  sc_signing_in :: int
  sc_signed_in :: nat
  sc_found :: nat
  sc_reasons :: "(reason \<times> nat) list"
  sc_continues :: nat

definition scan_counts_of :: "scan \<Rightarrow> scan_counts" where
  "scan_counts_of s =
     \<lparr>sc_addresses = length (sn_addresses s), sc_checked = sn_checked s, sc_open = sn_open s,
      sc_signing_in = sn_signing_in s, sc_signed_in = sn_signed_in s, sc_found = length (sn_findings s),
      sc_reasons = map (\<lambda>r. (r, length (filter (\<lambda>l. nc_reason l = r) (sn_lines s)))) all_reasons,
      sc_continues = sn_continues s\<rparr>"

record scan_status =
  ss_phase :: phase
  ss_counts :: scan_counts
  ss_seq :: nat
  ss_events :: "(nat \<times> page_event) list"

definition scan_status_of :: "int \<Rightarrow> scan \<Rightarrow> scan_status" where
  "scan_status_of since s =
     \<lparr>ss_phase = sn_phase s, ss_counts = scan_counts_of s, ss_seq = length (sn_events s),
      ss_events = drop (nat (max since 0)) (sn_events s)\<rparr>"

definition claim_finding :: "nat \<Rightarrow> scan \<Rightarrow> finding option \<times> scan" where
  "claim_finding i s =
     (case map_of (sn_findings s) i of
        None \<Rightarrow> (None, s)
      | Some f \<Rightarrow>
          (if fd_created f then (None, s)
           else (Some (f\<lparr>fd_created := True\<rparr>),
                 s\<lparr>sn_findings := AList.update i (f\<lparr>fd_created := True\<rparr>) (sn_findings s)\<rparr>)))"

definition release_finding :: "nat \<Rightarrow> scan \<Rightarrow> scan" where
  "release_finding i s =
     (case map_of (sn_findings s) i of
        None \<Rightarrow> s
      | Some f \<Rightarrow> s\<lparr>sn_findings := AList.update i (f\<lparr>fd_created := False\<rparr>) (sn_findings s)\<rparr>)"

section \<open>The locked blocks of the threads\<close>

text \<open>\<open>_check\<close>, after the port's check.\<close>

definition port_checked :: "string \<Rightarrow> string option \<Rightarrow> scan \<Rightarrow> scan" where
  "port_checked address banner s =
     (let counted = s\<lparr>sn_checked := Suc (sn_checked s),
                      sn_open := (if banner \<noteq> None then Suc (sn_open s) else sn_open s)\<rparr>
      in if length (sn_addresses s) \<le> map_limit then add_event (Port_Event address (banner \<noteq> None)) counted
         else counted)"

definition add_line :: "no_card \<Rightarrow> bool \<Rightarrow> bool \<Rightarrow> scan \<Rightarrow> scan" where
  "add_line l ended signed_in s =
     add_event (Line_Event l)
       (s\<lparr>sn_signing_in := (if ended then sn_signing_in s - 1 else sn_signing_in s),
          sn_signed_in := (if signed_in then Suc (sn_signed_in s) else sn_signed_in s),
          sn_lines := sn_lines s @ [l]\<rparr>)"

text \<open>The body of \<open>_wait_turn\<close>'s loop under the lock: it waits while paused (\<open>Stay\<close>), gives up, starts - with the
  Continue count it starts under -, or sleeps for the rest of the gap.\<close>

datatype turn = Stay | Give_Up | Start nat login | Sleep int

definition try_start :: "int \<Rightarrow> scan \<Rightarrow> turn \<times> scan" where
  "try_start now_ns s =
     (if sn_phase s = Phase_Paused then (Stay, s)
      else case sn_login s of
        None \<Rightarrow> (Give_Up, s)
      | Some lgn \<Rightarrow>
          (if sn_phase s \<noteq> Phase_Running then (Give_Up, s)
           else if sn_next_start s \<le> now_ns
             then (Start (sn_continues s) lgn,
                   s\<lparr>sn_next_start := now_ns + sign_in_gap, sn_signing_in := sn_signing_in s + 1\<rparr>)
           else (Sleep (sn_next_start s - now_ns), s)))"

definition sign_in_failed :: "string \<Rightarrow> nat \<Rightarrow> scan \<Rightarrow> scan" where
  "sign_in_failed address generation s =
     (let l = \<lparr>nc_address = address, nc_reason = Wrong_Credentials, nc_detail = []\<rparr>;
          lined = add_event (Line_Event l) (s\<lparr>sn_signing_in := sn_signing_in s - 1, sn_lines := sn_lines s @ [l]\<rparr>)
      in if generation \<noteq> sn_continues lined then lined
         else (let counted = lined\<lparr>sn_failures := Suc (sn_failures lined)\<rparr>
               in if failures_before_pause \<le> sn_failures counted \<and> sn_phase counted = Phase_Running
                  then set_phase Phase_Paused counted else counted))"

text \<open>\<open>_detected\<close>: a neighbour that isn't supported is a line, anything else a finding; the event shows the host
  key's fingerprint (a hash, a parameter), the finding keeps the key.\<close>

definition sign_in_detected ::
  "(string \<Rightarrow> string) \<Rightarrow> string \<Rightarrow> string \<Rightarrow> detection \<Rightarrow> string option \<Rightarrow> scan \<Rightarrow> scan" where
  "sign_in_detected fingerprint address banner found host_key s =
     (case (dt_platform found, dt_detected found) of
        (None, Some d) \<Rightarrow>
          add_line \<lparr>nc_address = address, nc_reason = Not_Supported,
                    nc_detail = (case map_of neighbour_names d of None \<Rightarrow> d | Some known_as \<Rightarrow> known_as)\<rparr> True True s
      | _ \<Rightarrow>
          (let f = \<lparr>fd_id = Suc (length (sn_findings s)), fd_address = address, fd_port = sn_port s,
                    fd_banner = banner, fd_hostname = dt_hostname found, fd_platform = dt_platform found,
                    fd_detected = dt_detected found, fd_evidence = dt_evidence found,
                    fd_problem = dt_problem found, fd_host_key = host_key, fd_created = False\<rparr>
           in add_event
                (Finding_Event (f\<lparr>fd_host_key := (case host_key of None \<Rightarrow> None
                                                  | Some k \<Rightarrow> if k = [] then None else Some (fingerprint k))\<rparr>))
                (s\<lparr>sn_signing_in := sn_signing_in s - 1, sn_signed_in := Suc (sn_signed_in s),
                   sn_findings := AList.update (fd_id f) f (sn_findings s)\<rparr>)))"

text \<open>The end of \<open>_run\<close>.\<close>

definition end_scan :: "int \<Rightarrow> scan \<Rightarrow> scan" where
  "end_scan at s =
     set_phase (if sn_phase s = Phase_Cancelling then Phase_Cancelled else Phase_Done)
       (s\<lparr>sn_login := None, sn_ended := Some at\<rparr>)"

definition error_detail :: "string \<Rightarrow> string \<Rightarrow> string" where
  "error_detail class text =
     take detail_chars (case splitlines (strip text) of [] \<Rightarrow> class | first # _ \<Rightarrow> first)"

section \<open>The threads\<close>

text \<open>Where a sign-in worker is: waiting for the queue; with an address, about to ask the skip rule; waiting for its
  turn; having it, about to ask \<open>stop_when\<close>; about to try; signing in, started under so many continues; ended.\<close>

datatype worker =
    Free | Taken string string | Queued string string | First string string | Trying string string
  | Signing string string nat | Gone

datatype main_thread = Checking | Joining | Over

text \<open>How a sign-in ends; an error with its class and its text; what is detected comes with the keys shown.\<close>

datatype sign_in_end =
    Key_Refused | Not_Let_In | No_Answer_In_Time | Other_Error string string | Found detection "string list"

text \<open>The crew; what it records beside the scan: the addresses found open, when sign-ins started, and the Continue
  count each failed sign-in had started under.\<close>

record crew =
  cw_scan :: scan
  cw_next :: nat
  cw_knocking :: "nat list"
  cw_answered :: "(nat \<times> string) list"
  cw_queue :: "(nat \<times> string \<times> string) list"
  cw_workers :: "worker list"
  cw_turn :: "nat option"
  cw_main :: main_thread
  cw_opened :: "nat list"
  cw_starts :: "int list"
  cw_failed :: "nat list"

definition start_crew :: "scan \<Rightarrow> crew" where
  "start_crew s = \<lparr>cw_scan = s, cw_next = 0, cw_knocking = [], cw_answered = [], cw_queue = [],
     cw_workers = replicate sign_ins Free, cw_turn = None, cw_main = Checking, cw_opened = [], cw_starts = [],
     cw_failed = []\<rparr>"

definition worker_at :: "crew \<Rightarrow> nat \<Rightarrow> worker" where
  "worker_at c w = (if w < length (cw_workers c) then cw_workers c ! w else Gone)"

definition becomes :: "nat \<Rightarrow> worker \<Rightarrow> crew \<Rightarrow> crew" where
  "becomes w x c = c\<lparr>cw_workers := (cw_workers c)[w := x]\<rparr>"

definition on_scan :: "(scan \<Rightarrow> scan) \<Rightarrow> crew \<Rightarrow> crew" where
  "on_scan f c = c\<lparr>cw_scan := f (cw_scan c)\<rparr>"

text \<open>The pool's steps: a check begins (a cancelled scan checks no more), is answered, its address queued.\<close>

definition begin_check :: "crew \<Rightarrow> crew" where
  "begin_check c =
     (if length (sn_addresses (cw_scan c)) \<le> cw_next c
         \<or> port_checks \<le> length (cw_knocking c) + length (cw_answered c) then c
      else if sn_phase (cw_scan c) = Phase_Cancelling then c\<lparr>cw_next := Suc (cw_next c)\<rparr>
      else c\<lparr>cw_next := Suc (cw_next c), cw_knocking := cw_knocking c @ [cw_next c]\<rparr>)"

definition answer_check :: "nat \<Rightarrow> string option \<Rightarrow> crew \<Rightarrow> crew" where
  "answer_check i banner c =
     (if i \<notin> set (cw_knocking c) then c
      else (let c' = on_scan (port_checked (sn_addresses (cw_scan c) ! i) banner)
                       (c\<lparr>cw_knocking := remove1 i (cw_knocking c)\<rparr>)
            in case banner of
                 None \<Rightarrow> c'
               | Some b \<Rightarrow> c'\<lparr>cw_answered := cw_answered c @ [(i, b)], cw_opened := cw_opened c @ [i]\<rparr>))"

definition put_open :: "nat \<Rightarrow> crew \<Rightarrow> crew" where
  "put_open i c =
     (case map_of (cw_answered c) i of
        None \<Rightarrow> c
      | Some b \<Rightarrow>
          c\<lparr>cw_answered := remove1 (i, b) (cw_answered c),
            cw_queue := insort_key fst (i, sn_addresses (cw_scan c) ! i, b) (cw_queue c)\<rparr>)"

text \<open>\<open>_run\<close>: once every check ended, a mark per worker - after every address -; once every worker ended, the end.\<close>

definition send_marks :: "crew \<Rightarrow> crew" where
  "send_marks c =
     (if cw_main c = Checking \<and> cw_next c = length (sn_addresses (cw_scan c)) \<and> cw_knocking c = []
         \<and> cw_answered c = []
      then c\<lparr>cw_main := Joining,
             cw_queue := cw_queue c @ replicate (length (cw_workers c)) (length (sn_addresses (cw_scan c)), [], [])\<rparr>
      else c)"

definition finish_run :: "int \<Rightarrow> crew \<Rightarrow> crew" where
  "finish_run at c =
     (if cw_main c = Joining \<and> list_all (\<lambda>x. x = Gone) (cw_workers c)
      then on_scan (end_scan at) (c\<lparr>cw_main := Over\<rparr>) else c)"

text \<open>A worker's steps.\<close>

definition get_next :: "nat \<Rightarrow> crew \<Rightarrow> crew" where
  "get_next w c =
     (case (worker_at c w, cw_queue c) of
        (Free, (i, address, b) # rest) \<Rightarrow>
          (if length (sn_addresses (cw_scan c)) \<le> i then becomes w Gone (c\<lparr>cw_queue := rest\<rparr>)
           else becomes w (Taken address b) (c\<lparr>cw_queue := rest\<rparr>))
      | _ \<Rightarrow> c)"

definition ask_skip :: "nat \<Rightarrow> (reason \<times> string) option \<Rightarrow> crew \<Rightarrow> crew" where
  "ask_skip w skipped c =
     (case worker_at c w of
        Taken address b \<Rightarrow>
          (case skipped of
             None \<Rightarrow> becomes w (Queued address b) c
           | Some (r, d) \<Rightarrow>
               becomes w Free (on_scan (add_line \<lparr>nc_address = address, nc_reason = r, nc_detail = d\<rparr> False False) c))
      | _ \<Rightarrow> c)"

definition take_turn :: "nat \<Rightarrow> crew \<Rightarrow> crew" where
  "take_turn w c =
     (case (worker_at c w, cw_turn c) of
        (Queued address b, None) \<Rightarrow> becomes w (First address b) (c\<lparr>cw_turn := Some w\<rparr>)
      | _ \<Rightarrow> c)"

definition ask_stop :: "nat \<Rightarrow> string option \<Rightarrow> crew \<Rightarrow> crew" where
  "ask_stop w stop c =
     (case worker_at c w of
        First address b \<Rightarrow>
          becomes w (Trying address b)
            (case stop of None \<Rightarrow> c | Some why \<Rightarrow> if why = [] then c else on_scan (\<lambda>s. snd (cancel_scan why s)) c)
      | _ \<Rightarrow> c)"

definition try_turn :: "nat \<Rightarrow> int \<Rightarrow> crew \<Rightarrow> crew" where
  "try_turn w now_ns c =
     (case worker_at c w of
        Trying address b \<Rightarrow>
          (case try_start now_ns (cw_scan c) of
             (Stay, s) \<Rightarrow> c
           | (Give_Up, s) \<Rightarrow>
               becomes w Free (on_scan (add_line \<lparr>nc_address = address, nc_reason = Not_Asked, nc_detail = []\<rparr>
                 False False) (c\<lparr>cw_turn := None\<rparr>))
           | (Start g lgn, s) \<Rightarrow>
               becomes w (Signing address b g) (c\<lparr>cw_scan := s, cw_turn := None, cw_starts := cw_starts c @ [now_ns]\<rparr>)
           | (Sleep d, s) \<Rightarrow> becomes w (First address b) c)
      | _ \<Rightarrow> c)"

definition end_sign_in :: "(string \<Rightarrow> string) \<Rightarrow> nat \<Rightarrow> sign_in_end \<Rightarrow> crew \<Rightarrow> crew" where
  "end_sign_in fingerprint w outcome c =
     (case worker_at c w of
        Signing address b g \<Rightarrow>
          becomes w Free (case outcome of
              Key_Refused \<Rightarrow>
                on_scan (add_line \<lparr>nc_address = address, nc_reason = Host_Key_Changed, nc_detail = []\<rparr> True False) c
            | Not_Let_In \<Rightarrow> on_scan (sign_in_failed address g) (c\<lparr>cw_failed := cw_failed c @ [g]\<rparr>)
            | No_Answer_In_Time \<Rightarrow>
                on_scan (add_line \<lparr>nc_address = address, nc_reason = Sign_In_Timed_Out, nc_detail = []\<rparr> True False) c
            | Other_Error class text \<Rightarrow>
                on_scan (add_line \<lparr>nc_address = address, nc_reason = Sign_In_Failed,
                  nc_detail = error_detail class text\<rparr> True False) c
            | Found found host_keys \<Rightarrow>
                on_scan (sign_in_detected fingerprint address b found
                  (case host_keys of [] \<Rightarrow> None | k # _ \<Rightarrow> Some k)) c)
      | _ \<Rightarrow> c)"

datatype scan_step =
    Begin_Check | Answer_Check nat "string option" | Put_Open nat | Send_Marks | Finish_Run int
  | Get_Next nat | Ask_Skip nat "(reason \<times> string) option" | Take_Turn nat | Ask_Stop nat "string option"
  | Try_Turn nat int | End_Sign_In nat sign_in_end
  | Continue_Scan | Cancel_Scan string | Claim_Finding nat | Release_Finding nat

text \<open>One step of a crew; a step whose turn it isn't changes nothing.\<close>

fun crew_step :: "(string \<Rightarrow> string) \<Rightarrow> scan_step \<Rightarrow> crew \<Rightarrow> crew" where
  "crew_step fp Begin_Check c = begin_check c"
| "crew_step fp (Answer_Check i banner) c = answer_check i banner c"
| "crew_step fp (Put_Open i) c = put_open i c"
| "crew_step fp Send_Marks c = send_marks c"
| "crew_step fp (Finish_Run at) c = finish_run at c"
| "crew_step fp (Get_Next w) c = get_next w c"
| "crew_step fp (Ask_Skip w skipped) c = ask_skip w skipped c"
| "crew_step fp (Take_Turn w) c = take_turn w c"
| "crew_step fp (Ask_Stop w stop) c = ask_stop w stop c"
| "crew_step fp (Try_Turn w now_ns) c = try_turn w now_ns c"
| "crew_step fp (End_Sign_In w outcome) c = end_sign_in fp w outcome c"
| "crew_step fp Continue_Scan c = on_scan (\<lambda>s. snd (proceed s)) c"
| "crew_step fp (Cancel_Scan who) c = on_scan (\<lambda>s. snd (cancel_scan who s)) c"
| "crew_step fp (Claim_Finding i) c = on_scan (\<lambda>s. snd (claim_finding i s)) c"
| "crew_step fp (Release_Finding i) c = on_scan (release_finding i) c"

definition scan_after :: "(string \<Rightarrow> string) \<Rightarrow> string list \<Rightarrow> nat \<Rightarrow> login \<Rightarrow> scan_step list \<Rightarrow> crew" where
  "scan_after fp addresses port lgn steps =
     fold (crew_step fp) steps (start_crew (new_scan addresses port lgn))"

end
