(* ===== verification/Scan_Properties.thy ===== *)
theory Scan_Properties
  imports Scan "HOL-Library.Multiset"
begin

text \<open>
  What a discovery keeps to, however its threads and the page interleave: every open address ends as one card or one
  line, starts keep their gap, wrong credentials are few per Continue, the events can be followed, and the run
  never stops half-way.
\<close>

section \<open>The locked blocks\<close>

text \<open>The addresses shown, as cards or as lines.\<close>

definition shown_addresses :: "scan \<Rightarrow> string multiset" where
  "shown_addresses s = mset (map (\<lambda>p. fd_address (snd p)) (sn_findings s)) + mset (map nc_address (sn_lines s))"

definition ids_ok :: "scan \<Rightarrow> bool" where
  "ids_ok s \<longleftrightarrow> map fst (sn_findings s) = [1..<Suc (length (sn_findings s))]"

lemmas page_defs = set_phase_def add_event_def proceed_def cancel_scan_def end_scan_def port_checked_def add_line_def
  sign_in_failed_def

lemma update_new: "i \<notin> fst ` set l \<Longrightarrow> AList.update i x l = l @ [(i, x)]"
  by (induction l) auto

lemma update_ids: "map_of l i = Some x \<Longrightarrow> map fst (AList.update i y l) = map fst l"
  by (induction l) (auto split: if_splits)

lemma update_shown: "map_of l i = Some f \<Longrightarrow> fd_address g = fd_address f \<Longrightarrow>
    map (\<lambda>p. fd_address (snd p)) (AList.update i g l) = map (\<lambda>p. fd_address (snd p)) l"
  by (induction l) (auto split: if_splits)

lemma update_length: "map_of l i = Some x \<Longrightarrow> length (AList.update i y l) = length l"
  by (induction l) (auto split: if_splits)

lemma new_id: "ids_ok s \<Longrightarrow> Suc (length (sn_findings s)) \<notin> fst ` set (sn_findings s)"
proof -
  assume "ids_ok s"
  then have "fst ` set (sn_findings s) = set [1..<Suc (length (sn_findings s))]"
    unfolding ids_ok_def using set_map by metis
  then show ?thesis by simp
qed

text \<open>What a block leaves alone.\<close>

lemma shown_same [simp]:
  "shown_addresses (set_phase p s) = shown_addresses s"
  "shown_addresses (snd (proceed s)) = shown_addresses s"
  "shown_addresses (snd (cancel_scan who s)) = shown_addresses s"
  "shown_addresses (end_scan at s) = shown_addresses s"
  "shown_addresses (port_checked a b s) = shown_addresses s"
  "shown_addresses (snd (claim_finding i s)) = shown_addresses s"
  "shown_addresses (release_finding i s) = shown_addresses s"
  by (auto simp: shown_addresses_def page_defs Let_def claim_finding_def release_finding_def update_shown
      simp del: mset_map split: option.splits)

lemma shown_one [simp]:
  "shown_addresses (add_line l e g s) = add_mset (nc_address l) (shown_addresses s)"
  "shown_addresses (sign_in_failed a n s) = add_mset a (shown_addresses s)"
  by (simp_all add: shown_addresses_def page_defs Let_def)

lemma detected_cases:
  obtains d where "sign_in_detected fp a b found k s = add_line \<lparr>nc_address = a, nc_reason = Not_Supported,
      nc_detail = d\<rparr> True True s"
  | f where "fd_id f = Suc (length (sn_findings s))" "fd_address f = a" "fd_created f = False"
      "sign_in_detected fp a b found k s =
        add_event (Finding_Event (f\<lparr>fd_host_key := (case k of None \<Rightarrow> None
             | Some k \<Rightarrow> if k = [] then None else Some (fp k))\<rparr>))
          (s\<lparr>sn_signing_in := sn_signing_in s - 1, sn_signed_in := Suc (sn_signed_in s),
             sn_findings := AList.update (fd_id f) f (sn_findings s)\<rparr>)"
proof (cases "dt_platform found = None \<and> dt_detected found \<noteq> None")
  case True
  then obtain d where "dt_platform found = None" "dt_detected found = Some d" by auto
  then show thesis by (intro that(1)) (simp add: sign_in_detected_def)
next
  case False
  let ?f = "\<lparr>fd_id = Suc (length (sn_findings s)), fd_address = a, fd_port = sn_port s,
      fd_banner = b, fd_hostname = dt_hostname found, fd_platform = dt_platform found,
      fd_detected = dt_detected found, fd_evidence = dt_evidence found,
      fd_problem = dt_problem found, fd_host_key = k, fd_created = False\<rparr>"
  show thesis
    by (rule that(2) [of ?f]) (use False in \<open>auto simp: sign_in_detected_def Let_def split: option.splits\<close>)
qed

lemma shown_detected [simp]:
  assumes "ids_ok s"
  shows "shown_addresses (sign_in_detected fp a b found k s) = add_mset a (shown_addresses s)"
  using new_id [OF assms]
  by (cases rule: detected_cases [of fp a b found k s])
    (simp_all add: shown_addresses_def add_event_def add_line_def update_new)

text \<open>The parts of a scan only some blocks change.\<close>

lemma addresses_same [simp]:
  "sn_addresses (set_phase p s) = sn_addresses s"
  "sn_addresses (snd (proceed s)) = sn_addresses s"
  "sn_addresses (snd (cancel_scan who s)) = sn_addresses s"
  "sn_addresses (end_scan at s) = sn_addresses s"
  "sn_addresses (port_checked a b s) = sn_addresses s"
  "sn_addresses (snd (claim_finding i s)) = sn_addresses s"
  "sn_addresses (release_finding i s) = sn_addresses s"
  "sn_addresses (add_line l e g s) = sn_addresses s"
  "sn_addresses (sign_in_failed a n s) = sn_addresses s"
  by (auto simp: page_defs Let_def claim_finding_def release_finding_def split: option.splits)

lemma addresses_detected [simp]: "sn_addresses (sign_in_detected fp a b found k s) = sn_addresses s"
  by (cases rule: detected_cases [of fp a b found k s]) (simp_all add: add_event_def)

lemma ids_kept [simp]:
  "ids_ok (set_phase p s) = ids_ok s"
  "ids_ok (snd (proceed s)) = ids_ok s"
  "ids_ok (snd (cancel_scan who s)) = ids_ok s"
  "ids_ok (end_scan at s) = ids_ok s"
  "ids_ok (port_checked a b s) = ids_ok s"
  "ids_ok (snd (claim_finding i s)) = ids_ok s"
  "ids_ok (release_finding i s) = ids_ok s"
  "ids_ok (add_line l e g s) = ids_ok s"
  "ids_ok (sign_in_failed a n s) = ids_ok s"
  by (auto simp: ids_ok_def page_defs Let_def claim_finding_def release_finding_def update_ids update_length
      split: option.splits)

lemma ids_detected [simp]: "ids_ok s \<Longrightarrow> ids_ok (sign_in_detected fp a b found k s)"
  using new_id [of s]
  by (cases rule: detected_cases [of fp a b found k s])
    (auto simp: ids_ok_def add_event_def add_line_def update_new)

text \<open>What a turn changes.\<close>

lemma try_cases:
  obtains "sn_phase s = Phase_Paused" "try_start t s = (Stay, s)"
  | "sn_phase s \<noteq> Phase_Paused" "sn_phase s \<noteq> Phase_Running \<or> sn_login s = None" "try_start t s = (Give_Up, s)"
  | lgn where "sn_phase s = Phase_Running" "sn_login s = Some lgn" "sn_next_start s \<le> t"
      "try_start t s = (Start (sn_continues s) lgn,
         s\<lparr>sn_next_start := t + sign_in_gap, sn_signing_in := sn_signing_in s + 1\<rparr>)"
  | "sn_phase s = Phase_Running" "t < sn_next_start s" "try_start t s = (Sleep (sn_next_start s - t), s)"
proof (cases "sn_phase s = Phase_Paused")
  case True
  then show thesis by (intro that(1)) (simp_all add: try_start_def)
next
  case awake: False
  show thesis
  proof (cases "sn_phase s \<noteq> Phase_Running \<or> sn_login s = None")
    case True
    then show thesis using awake by (intro that(2)) (auto simp: try_start_def split: option.splits)
  next
    case False
    then obtain lgn where r: "sn_phase s = Phase_Running" "sn_login s = Some lgn" by auto
    show thesis
    proof (cases "sn_next_start s \<le> t")
      case True
      show thesis by (rule that(3) [OF r True]) (simp add: try_start_def r True)
    next
      case False
      then show thesis using r by (intro that(4)) (simp_all add: try_start_def)
    qed
  qed
qed

section \<open>Every open address is accounted for\<close>

fun in_hand :: "worker \<Rightarrow> string multiset" where
  "in_hand (Taken a b) = {#a#}"
| "in_hand (Queued a b) = {#a#}"
| "in_hand (First a b) = {#a#}"
| "in_hand (Trying a b) = {#a#}"
| "in_hand (Signing a b g) = {#a#}"
| "in_hand _ = {#}"

definition in_hands :: "crew \<Rightarrow> string multiset" where
  "in_hands c = sum_list (map in_hand (cw_workers c))"

definition addresses_of :: "crew \<Rightarrow> nat list \<Rightarrow> string multiset" where
  "addresses_of c is = mset (map (\<lambda>i. sn_addresses (cw_scan c) ! i) is)"

definition queued :: "crew \<Rightarrow> string multiset" where
  "queued c = mset (map (\<lambda>q. fst (snd q)) (filter (\<lambda>q. fst q < length (sn_addresses (cw_scan c))) (cw_queue c)))"

definition whereabouts :: "crew \<Rightarrow> string multiset" where
  "whereabouts c = shown_addresses (cw_scan c) + in_hands c + queued c + addresses_of c (map fst (cw_answered c))"

lemma tally_update:
  fixes f :: "'a \<Rightarrow> 'b::comm_monoid_add"
  shows "i < length xs \<Longrightarrow> sum_list (map f (xs[i := x])) + f (xs ! i) = sum_list (map f xs) + f x"
proof (induction xs arbitrary: i)
  case (Cons y ys)
  show ?case
  proof (cases i)
    case (Suc j)
    then have "sum_list (map f (ys[j := x])) + f (ys ! j) = sum_list (map f ys) + f x" using Cons by simp
    then show ?thesis using Suc by (simp add: add.assoc)
  qed (simp add: ac_simps)
qed simp

lemma worker_there: "worker_at c w \<noteq> Gone \<Longrightarrow> w < length (cw_workers c) \<and> cw_workers c ! w = worker_at c w"
  by (simp add: worker_at_def split: if_splits)

lemma becomes_same [simp]:
  "cw_scan (becomes w x c) = cw_scan c" "cw_next (becomes w x c) = cw_next c"
  "cw_knocking (becomes w x c) = cw_knocking c" "cw_answered (becomes w x c) = cw_answered c"
  "cw_queue (becomes w x c) = cw_queue c" "cw_turn (becomes w x c) = cw_turn c"
  "cw_main (becomes w x c) = cw_main c" "cw_opened (becomes w x c) = cw_opened c"
  "cw_starts (becomes w x c) = cw_starts c" "cw_failed (becomes w x c) = cw_failed c"
  "cw_workers (becomes w x c) = (cw_workers c)[w := x]"
  by (simp_all add: becomes_def)

lemma on_scan_same [simp]:
  "cw_scan (on_scan f c) = f (cw_scan c)" "cw_next (on_scan f c) = cw_next c"
  "cw_knocking (on_scan f c) = cw_knocking c" "cw_answered (on_scan f c) = cw_answered c"
  "cw_queue (on_scan f c) = cw_queue c" "cw_turn (on_scan f c) = cw_turn c"
  "cw_main (on_scan f c) = cw_main c" "cw_opened (on_scan f c) = cw_opened c"
  "cw_starts (on_scan f c) = cw_starts c" "cw_failed (on_scan f c) = cw_failed c"
  "cw_workers (on_scan f c) = cw_workers c"
  by (simp_all add: on_scan_def)

text \<open>A worker's new place: what is in hands changes by what it held and holds.\<close>

lemma hands_become:
  assumes "worker_at c w \<noteq> Gone" "cw_workers c' = cw_workers c"
  shows "in_hands (becomes w x c') + in_hand (worker_at c w) = in_hands c + in_hand x"
  using worker_there [OF assms(1)] assms(2) tally_update [of w "cw_workers c" in_hand x] by (simp add: in_hands_def)

lemma hands_emptied:
  assumes "worker_at c w \<noteq> Gone" "in_hand (worker_at c w) = {#a#}" "cw_workers c' = cw_workers c"
  shows "in_hands c = add_mset a (in_hands (becomes w Free c'))"
  using hands_become [OF assms(1,3), of Free] assms(2) by simp

lemma hands_passed:
  assumes "worker_at c w \<noteq> Gone" "in_hand (worker_at c w) = in_hand x" "cw_workers c' = cw_workers c"
  shows "in_hands (becomes w x c') = in_hands c"
  using hands_become [OF assms(1,3), of x] assms(2) by simp

text \<open>What the threads hold between them: indices of the addresses, each checked once; marks only once every check
  has ended; the queue in order.\<close>

definition checks_ok :: "crew \<Rightarrow> bool" where
  "checks_ok c \<longleftrightarrow> cw_next c \<le> length (sn_addresses (cw_scan c))
     \<and> distinct (cw_knocking c @ cw_opened c) \<and> (\<forall>i\<in>set (cw_knocking c @ cw_opened c). i < cw_next c)
     \<and> fst ` set (cw_answered c) \<subseteq> set (cw_opened c)"

definition active :: "crew \<Rightarrow> nat" where
  "active c = sum_list (map (\<lambda>x. if x = Gone then 0 else 1) (cw_workers c))"

definition queue_ok :: "crew \<Rightarrow> bool" where
  "queue_ok c \<longleftrightarrow> sorted (map fst (cw_queue c))
     \<and> (if cw_main c = Checking
        then (\<forall>x\<in>set (cw_workers c). x \<noteq> Gone) \<and> (\<forall>q\<in>set (cw_queue c). fst q < length (sn_addresses (cw_scan c)))
        else cw_next c = length (sn_addresses (cw_scan c)) \<and> cw_knocking c = [] \<and> cw_answered c = []
          \<and> (\<forall>q\<in>set (cw_queue c). fst q \<le> length (sn_addresses (cw_scan c)))
          \<and> length (filter (\<lambda>q. fst q = length (sn_addresses (cw_scan c))) (cw_queue c))
              = active c
          \<and> (Gone \<in> set (cw_workers c) \<longrightarrow> (\<forall>q\<in>set (cw_queue c). fst q = length (sn_addresses (cw_scan c)))))
     \<and> (cw_main c = Over \<longrightarrow> list_all (\<lambda>x. x = Gone) (cw_workers c))
     \<and> length (cw_workers c) = sign_ins"

definition books_ok :: "crew \<Rightarrow> bool" where
  "books_ok c \<longleftrightarrow> ids_ok (cw_scan c) \<and> checks_ok c \<and> queue_ok c \<and> whereabouts c = addresses_of c (cw_opened c)"

text \<open>Two crews that differ in their scan, the turn and what is recorded, not in the work there is.\<close>

definition alike :: "crew \<Rightarrow> crew \<Rightarrow> bool" where
  "alike c c' \<longleftrightarrow> cw_next c' = cw_next c \<and> cw_knocking c' = cw_knocking c \<and> cw_answered c' = cw_answered c
     \<and> cw_queue c' = cw_queue c \<and> cw_workers c' = cw_workers c \<and> cw_main c' = cw_main c
     \<and> cw_opened c' = cw_opened c \<and> sn_addresses (cw_scan c') = sn_addresses (cw_scan c)"

lemma scan_step_ok:
  assumes "books_ok c" "alike c c'" "ids_ok (cw_scan c')" "shown_addresses (cw_scan c') = shown_addresses (cw_scan c)"
  shows "books_ok c'"
  using assms unfolding books_ok_def checks_ok_def queue_ok_def whereabouts_def addresses_of_def alike_def in_hands_def
    queued_def active_def by simp

lemma active_become:
  assumes "worker_at c w \<noteq> Gone" "cw_workers c' = cw_workers c"
  shows "active (becomes w x c') + 1 = active c + (if x = Gone then 0 else 1)"
proof -
  have w: "w < length (cw_workers c)" "cw_workers c ! w \<noteq> Gone" using worker_there [OF assms(1)] assms(1) by simp_all
  show ?thesis
    using tally_update [OF w(1), of "\<lambda>x. if x = Gone then 0 else 1 :: nat" x] w(2) by (simp add: active_def assms(2))
qed

lemma exchange:
  fixes s s' h h' x y :: "'a multiset"
  assumes "h' + y = h + x" "s' + x = s + y"
  shows "s' + h' = s + h"
proof (rule multiset_eqI)
  fix a
  have "count (h' + y) a = count (h + x) a" "count (s' + x) a = count (s + y) a" using assms by simp_all
  then show "count (s' + h') a = count (s + h) a" by simp
qed

lemma books_ids [simp]: "books_ok c \<Longrightarrow> ids_ok (cw_scan c)"
  by (simp add: books_ok_def)

lemma worker_step_ok:
  assumes ok: "books_ok c" and w: "worker_at c w \<noteq> Gone" and x: "x \<noteq> Gone" and "alike c c'" "ids_ok (cw_scan c')"
    and shown: "shown_addresses (cw_scan c') + in_hand x = shown_addresses (cw_scan c) + in_hand (worker_at c w)"
  shows "books_ok (becomes w x c')"
proof -
  have a: "cw_workers c' = cw_workers c" "cw_queue c' = cw_queue c" "cw_knocking c' = cw_knocking c"
      "cw_answered c' = cw_answered c" "cw_next c' = cw_next c" "cw_main c' = cw_main c" "cw_opened c' = cw_opened c"
      "sn_addresses (cw_scan c') = sn_addresses (cw_scan c)"
    using assms(4) by (simp_all add: alike_def)
  have there: "w < length (cw_workers c)" "cw_workers c ! w = worker_at c w" using worker_there [OF w] by simp_all
  have same: "active (becomes w x c') = active c" using active_become [OF w a(1), of x] x by simp
  have "\<not> list_all (\<lambda>x. x = Gone) (cw_workers c)" using there w by (auto simp: list_all_length)
  moreover have "\<forall>y\<in>set ((cw_workers c)[w := x]). y \<noteq> Gone" if "\<forall>y\<in>set (cw_workers c). y \<noteq> Gone"
    using that x set_update_subset_insert [of "cw_workers c" w x] by blast
  moreover have "Gone \<in> set (cw_workers c)" if "Gone \<in> set ((cw_workers c)[w := x])"
    using that x set_update_subset_insert [of "cw_workers c" w x] by blast
  ultimately have q: "queue_ok (becomes w x c')"
    using ok same unfolding books_ok_def queue_ok_def by (auto simp: a)
  have "whereabouts (becomes w x c') = whereabouts c"
  proof -
    have "in_hands (becomes w x c') + in_hand (worker_at c w) = in_hands c + in_hand x" by (rule hands_become [OF w a(1)])
    then have "shown_addresses (cw_scan c') + in_hands (becomes w x c') = shown_addresses (cw_scan c) + in_hands c"
      using shown by (rule exchange)
    then show ?thesis by (simp add: whereabouts_def queued_def addresses_of_def a)
  qed
  then show ?thesis
    using ok q assms(5) unfolding books_ok_def checks_ok_def addresses_of_def by (simp add: a)
qed

lemma alike_refl [simp]: "alike c c"
  by (simp add: alike_def)

lemma alike_scan [simp]: "sn_addresses (f (cw_scan c)) = sn_addresses (cw_scan c) \<Longrightarrow> alike c (on_scan f c)"
  by (simp add: alike_def)

lemma alike_fields:
  "alike c (c\<lparr>cw_turn := t\<rparr>)" "alike c (c\<lparr>cw_failed := fs\<rparr>)"
  by (simp_all add: alike_def)

lemma clock_moves [simp]:
  "shown_addresses (s\<lparr>sn_next_start := t, sn_signing_in := n\<rparr>) = shown_addresses s"
  "ids_ok (s\<lparr>sn_next_start := t, sn_signing_in := n\<rparr>) = ids_ok s"
  by (simp_all add: shown_addresses_def ids_ok_def)

lemma ask_skip_ok: "books_ok c \<Longrightarrow> books_ok (ask_skip w skipped c)"
  by (auto simp: ask_skip_def split: worker.split option.split intro!: worker_step_ok)

lemma take_turn_ok: "books_ok c \<Longrightarrow> books_ok (take_turn w c)"
  by (auto simp: take_turn_def alike_def split: worker.split option.split intro!: worker_step_ok)

lemma ask_stop_ok: "books_ok c \<Longrightarrow> books_ok (ask_stop w stop c)"
  by (auto simp: ask_stop_def split: worker.split option.split intro!: worker_step_ok)

lemma try_turn_ok: "books_ok c \<Longrightarrow> books_ok (try_turn w t c)"
proof (cases "worker_at c w")
  case (Trying a b)
  assume ok: "books_ok c"
  show ?thesis
    by (cases rule: try_cases [of "cw_scan c" t])
      (use ok Trying in \<open>auto simp: try_turn_def alike_def intro!: worker_step_ok [OF ok]\<close>)
qed (simp_all add: try_turn_def)

lemma end_sign_in_ok: "books_ok c \<Longrightarrow> books_ok (end_sign_in fp w outcome c)"
  by (auto simp: end_sign_in_def alike_def split: worker.split sign_in_end.split list.split intro!: worker_step_ok)

text \<open>The page's steps, the pool's and the main thread's.\<close>

lemma page_step_ok:
  assumes "books_ok c" "sn_addresses (f (cw_scan c)) = sn_addresses (cw_scan c)"
    "ids_ok (f (cw_scan c)) = ids_ok (cw_scan c)" "shown_addresses (f (cw_scan c)) = shown_addresses (cw_scan c)"
  shows "books_ok (on_scan f c)"
  by (rule scan_step_ok [OF assms(1)]) (use assms in simp_all)

lemma begin_check_ok: "books_ok c \<Longrightarrow> books_ok (begin_check c)"
proof (cases "cw_next c < length (sn_addresses (cw_scan c))")
  case True
  assume ok: "books_ok c"
  have main: "cw_main c = Checking" using True ok by (auto simp: books_ok_def queue_ok_def split: if_splits)
  have new: "cw_next c \<notin> set (cw_knocking c)" "cw_next c \<notin> set (cw_opened c)"
    using ok by (auto simp: books_ok_def checks_ok_def)
  have "checks_ok (begin_check c)"
    using ok True new unfolding books_ok_def checks_ok_def begin_check_def by (auto simp: less_Suc_eq)
  moreover have "queue_ok (begin_check c)"
    using ok main by (simp add: books_ok_def queue_ok_def begin_check_def)
  ultimately show ?thesis
    using ok by (simp add: books_ok_def begin_check_def whereabouts_def in_hands_def queued_def addresses_of_def)
qed (simp add: begin_check_def)

lemma remove1_knocking:
  "set (remove1 i xs) \<subseteq> set xs" "distinct (xs @ ys) \<Longrightarrow> i \<in> set xs \<Longrightarrow> distinct (remove1 i xs @ ys @ [i])"
  "distinct (xs @ ys) \<Longrightarrow> distinct (remove1 i xs @ ys)"
  using set_remove1_subset [of i xs] by auto

lemma answer_check_ok: "books_ok c \<Longrightarrow> books_ok (answer_check i banner c)"
proof (cases "i \<in> set (cw_knocking c)")
  case True
  assume ok: "books_ok c"
  have main: "cw_main c = Checking" using True ok by (auto simp: books_ok_def queue_ok_def split: if_splits)
  have "i < cw_next c" "distinct (cw_knocking c @ cw_opened c)"
    using True ok by (auto simp: books_ok_def checks_ok_def)
  then have "checks_ok (answer_check i banner c)"
    using ok True remove1_knocking(1) [of i "cw_knocking c"] remove1_knocking(2,3) [of "cw_knocking c" "cw_opened c" i]
    unfolding books_ok_def checks_ok_def answer_check_def Let_def by (auto split: option.split)
  moreover have "queue_ok (answer_check i banner c)"
    using ok main True by (simp add: books_ok_def queue_ok_def answer_check_def Let_def active_def split: option.split)
  ultimately show ?thesis
    using ok True by (simp add: books_ok_def answer_check_def Let_def whereabouts_def in_hands_def queued_def
        addresses_of_def split: option.split)
qed (simp add: answer_check_def)

lemma put_open_ok: "books_ok c \<Longrightarrow> books_ok (put_open i c)"
proof (cases "map_of (cw_answered c) i")
  case (Some b)
  assume ok: "books_ok c"
  have at: "(i, b) \<in> set (cw_answered c)" using Some by (rule map_of_SomeD)
  then have main: "cw_main c = Checking" using ok by (auto simp: books_ok_def queue_ok_def split: if_splits)
  have "i \<in> set (cw_opened c)" using at ok unfolding books_ok_def checks_ok_def by force
  then have "i < cw_next c" "cw_next c \<le> length (sn_addresses (cw_scan c))" using ok by (auto simp: books_ok_def checks_ok_def)
  then have i: "i < length (sn_addresses (cw_scan c))" by simp
  have "mset (map fst (cw_answered c)) = add_mset i (mset (map fst (remove1 (i, b) (cw_answered c))))"
  proof -
    have "mset (cw_answered c) = add_mset (i, b) (mset (remove1 (i, b) (cw_answered c)))" using at by simp
    then show ?thesis unfolding mset_map by (metis fst_conv image_mset_add_mset)
  qed
  then have "addresses_of c (map fst (cw_answered c))
      = add_mset (sn_addresses (cw_scan c) ! i) (addresses_of c (map fst (remove1 (i, b) (cw_answered c))))"
    unfolding addresses_of_def mset_map by simp
  moreover have "queued (put_open i c) = add_mset (sn_addresses (cw_scan c) ! i) (queued c)"
    using i Some by (simp add: put_open_def queued_def)
  ultimately have "whereabouts (put_open i c) = whereabouts c"
    using Some by (simp add: whereabouts_def put_open_def in_hands_def addresses_of_def)
  moreover have "queue_ok (put_open i c)"
    using ok Some i main by (auto simp: books_ok_def queue_ok_def put_open_def sorted_insort_key set_insort_key)
  moreover have "fst ` set (remove1 (i, b) (cw_answered c)) \<subseteq> set (cw_opened c)"
  proof -
    have "fst ` set (cw_answered c) \<subseteq> set (cw_opened c)" using ok by (simp add: books_ok_def checks_ok_def)
    then show ?thesis by (rule order_trans [OF image_mono [OF set_remove1_subset]])
  qed
  ultimately show ?thesis using ok Some unfolding books_ok_def checks_ok_def put_open_def addresses_of_def by simp
qed (simp add: put_open_def)

lemma send_marks_ok: "books_ok c \<Longrightarrow> books_ok (send_marks c)"
proof (cases "cw_main c = Checking \<and> cw_next c = length (sn_addresses (cw_scan c)) \<and> cw_knocking c = []
    \<and> cw_answered c = []")
  case True
  assume ok: "books_ok c"
  let ?n = "length (sn_addresses (cw_scan c))"
  have real: "\<forall>q\<in>set (cw_queue c). fst q < ?n" "\<forall>x\<in>set (cw_workers c). x \<noteq> Gone" "sorted (map fst (cw_queue c))"
    using ok True by (auto simp: books_ok_def queue_ok_def)
  have none: "filter (\<lambda>q. fst q = ?n) (cw_queue c) = []" using real(1) by (auto simp: filter_empty_conv)
  have "active c = sum_list (map (\<lambda>x. 1) (cw_workers c))"
    unfolding active_def using real(2) by (intro arg_cong [of _ _ sum_list] map_cong) auto
  then have "active c = length (cw_workers c)" by (simp add: sum_list_triv)
  moreover have "sorted (map fst (cw_queue c) @ replicate (length (cw_workers c)) ?n)"
    using real(1,3) by (auto simp: sorted_append less_imp_le)
  ultimately have "queue_ok (send_marks c)"
    using ok True real none by (auto simp: books_ok_def queue_ok_def send_marks_def active_def less_imp_le)
  then show ?thesis
    using ok True by (simp add: books_ok_def checks_ok_def send_marks_def whereabouts_def in_hands_def queued_def addresses_of_def)
qed (auto simp: send_marks_def)

lemma queue_joined:
  assumes "queue_ok c" "cw_main c \<noteq> Checking"
  shows "cw_next c = length (sn_addresses (cw_scan c))" "cw_knocking c = []" "cw_answered c = []"
    "\<forall>q\<in>set (cw_queue c). fst q \<le> length (sn_addresses (cw_scan c))"
    "length (filter (\<lambda>q. fst q = length (sn_addresses (cw_scan c))) (cw_queue c)) = active c"
    "length (cw_workers c) = sign_ins" "sorted (map fst (cw_queue c))"
    "Gone \<in> set (cw_workers c) \<longrightarrow> (\<forall>q\<in>set (cw_queue c). fst q = length (sn_addresses (cw_scan c)))"
  using assms unfolding queue_ok_def by simp_all

lemma queue_joinedI:
  assumes "cw_main c = Joining" "cw_next c = length (sn_addresses (cw_scan c))" "cw_knocking c = []" "cw_answered c = []"
    "\<forall>q\<in>set (cw_queue c). fst q \<le> length (sn_addresses (cw_scan c))"
    "length (filter (\<lambda>q. fst q = length (sn_addresses (cw_scan c))) (cw_queue c)) = active c"
    "length (cw_workers c) = sign_ins" "sorted (map fst (cw_queue c))"
    "Gone \<in> set (cw_workers c) \<longrightarrow> (\<forall>q\<in>set (cw_queue c). fst q = length (sn_addresses (cw_scan c)))"
  shows "queue_ok c"
  using assms unfolding queue_ok_def by simp

lemma queue_checking:
  assumes "queue_ok c" "cw_main c = Checking"
  shows "\<forall>x\<in>set (cw_workers c). x \<noteq> Gone" "\<forall>q\<in>set (cw_queue c). fst q < length (sn_addresses (cw_scan c))"
    "length (cw_workers c) = sign_ins" "sorted (map fst (cw_queue c))"
  using assms unfolding queue_ok_def by simp_all

lemma queue_checkingI:
  assumes "cw_main c = Checking" "\<forall>x\<in>set (cw_workers c). x \<noteq> Gone"
    "\<forall>q\<in>set (cw_queue c). fst q < length (sn_addresses (cw_scan c))" "length (cw_workers c) = sign_ins"
    "sorted (map fst (cw_queue c))"
  shows "queue_ok c"
  using assms unfolding queue_ok_def by simp

lemma finish_run_ok: "books_ok c \<Longrightarrow> books_ok (finish_run at c)"
proof (cases "cw_main c = Joining \<and> list_all (\<lambda>x. x = Gone) (cw_workers c)")
  case True
  assume ok: "books_ok c"
  let ?c = "on_scan (end_scan at) (c\<lparr>cw_main := Over\<rparr>)"
  have "queue_ok c" using ok by (simp add: books_ok_def)
  note joined = queue_joined [OF this]
  have "active ?c = active c" by (simp add: active_def)
  then have "queue_ok ?c"
    unfolding queue_ok_def using joined True by simp
  then show ?thesis
    using ok True unfolding books_ok_def checks_ok_def whereabouts_def in_hands_def queued_def addresses_of_def finish_run_def
    by simp
qed (auto simp: finish_run_def)

lemma get_next_ok: "books_ok c \<Longrightarrow> books_ok (get_next w c)"
proof (cases "worker_at c w = Free \<and> cw_queue c \<noteq> []")
  case True
  assume ok: "books_ok c"
  let ?n = "length (sn_addresses (cw_scan c))"
  from True obtain i address b rest where q: "cw_queue c = (i, address, b) # rest" by (cases "cw_queue c") auto
  have w: "worker_at c w \<noteq> Gone" "in_hand (worker_at c w) = {#}" using True by simp_all
  have there: "w < length (cw_workers c)" using worker_there [OF w(1)] by simp
  have qok: "queue_ok c" using ok by (simp add: books_ok_def)
  have over: "cw_main c \<noteq> Over" using qok w(1) worker_there [OF w(1)] by (auto simp: queue_ok_def list_all_length)
  show ?thesis
  proof (cases "?n \<le> i")
    case mark: True
    have c': "get_next w c = becomes w Gone (c\<lparr>cw_queue := rest\<rparr>)" using True q mark by (simp add: get_next_def)
    have "cw_main c \<noteq> Checking" using queue_checking(2) [OF qok] mark q by fastforce
    note joined = queue_joined [OF qok this]
    have "i = ?n" using joined(4) mark q by simp
    moreover have "active (get_next w c) + 1 = active c"
      unfolding c' using active_become [OF w(1), of "c\<lparr>cw_queue := rest\<rparr>" Gone] by simp
    moreover have "\<forall>q\<in>set rest. fst q = ?n" using joined(4,7) q \<open>i = ?n\<close> by fastforce
    moreover have "cw_main c = Joining" using over \<open>cw_main c \<noteq> Checking\<close> by (cases "cw_main c") simp_all
    ultimately have "queue_ok (get_next w c)"
      by (intro queue_joinedI) (use joined(1-7) in \<open>simp_all add: c' q\<close>)
    moreover have "in_hands (get_next w c) = in_hands c"
      unfolding c' by (rule hands_passed [OF w(1)]) (simp_all add: w(2))
    ultimately show ?thesis
      using ok q mark by (simp add: c' books_ok_def checks_ok_def whereabouts_def queued_def addresses_of_def)
  next
    case real: False
    have c': "get_next w c = becomes w (Taken address b) (c\<lparr>cw_queue := rest\<rparr>)" using True q real by (simp add: get_next_def)
    have "\<forall>y\<in>set (cw_workers (get_next w c)). y \<noteq> Gone" if "\<forall>y\<in>set (cw_workers c). y \<noteq> Gone"
      using that set_update_subset_insert [of "cw_workers c" w "Taken address b"] unfolding c' by auto
    moreover have "active (get_next w c) = active c"
      unfolding c' using active_become [OF w(1), of "c\<lparr>cw_queue := rest\<rparr>" "Taken address b"] by simp
    ultimately have "queue_ok (get_next w c)"
    proof (cases "cw_main c = Checking")
      case True
      with queue_checking [OF qok True] q \<open>_ \<Longrightarrow> \<forall>y\<in>_. _\<close> show ?thesis
        by (intro queue_checkingI) (simp_all add: c')
    next
      case False
      note joined = queue_joined [OF qok False]
      have "Gone \<notin> set (cw_workers c)" using joined(8) q real by auto
      then have "Gone \<notin> set ((cw_workers c)[w := Taken address b])"
        using set_update_subset_insert [of "cw_workers c" w "Taken address b"] by blast
      moreover have "cw_main c = Joining" using over False by (cases "cw_main c") simp_all
      ultimately show ?thesis
        using joined(1-7) q real \<open>active _ = _\<close> by (intro queue_joinedI) (simp_all add: c')
    qed
    moreover have "in_hands (get_next w c) = add_mset address (in_hands c)"
      unfolding c' using hands_become [OF w(1), of "c\<lparr>cw_queue := rest\<rparr>" "Taken address b"] w(2) by simp
    ultimately show ?thesis
      using ok q real by (simp add: c' books_ok_def checks_ok_def whereabouts_def queued_def addresses_of_def)
  qed
next
  case False
  then have "get_next w c = c" by (auto simp: get_next_def split: worker.split list.split)
  then show "books_ok c \<Longrightarrow> books_ok (get_next w c)" by simp
qed

lemma crew_step_ok: "books_ok c \<Longrightarrow> books_ok (crew_step fp e c)"
  by (cases e) (simp_all add: begin_check_ok answer_check_ok put_open_ok send_marks_ok finish_run_ok get_next_ok
      ask_skip_ok take_turn_ok ask_stop_ok try_turn_ok end_sign_in_ok page_step_ok)

lemma books_always: "books_ok (scan_after fp addresses port lgn steps)"
proof -
  have "books_ok (start_crew (new_scan addresses port lgn))"
    by (simp add: books_ok_def ids_ok_def checks_ok_def queue_ok_def whereabouts_def in_hands_def queued_def
        addresses_of_def start_crew_def new_scan_def shown_addresses_def sign_ins_def numeral_eq_Suc)
  moreover have "books_ok (fold (crew_step fp) steps c)" if "books_ok c" for c
    using that by (induction steps arbitrary: c) (simp_all add: crew_step_ok)
  ultimately show ?thesis by (simp add: scan_after_def)
qed

end
