(* ===== verification/Scan_Limits.thy ===== *)
theory Scan_Limits
  imports Scan_Properties
begin

text \<open>
  The limits a discovery keeps: the gap between sign-ins, how many are under way, how many may fail before an
  administrator continues; what it says at its end; how the page follows it; and that it gets there.
\<close>

section \<open>What decides whether a sign-in starts\<close>

record control =
  ct_phase :: phase
  ct_continues :: nat
  ct_failures :: nat
  ct_next :: int
  ct_login :: bool
  ct_cancelled :: bool
  ct_ended :: bool

definition control_of :: "scan \<Rightarrow> control" where
  "control_of s = \<lparr>ct_phase = sn_phase s, ct_continues = sn_continues s, ct_failures = sn_failures s,
     ct_next = sn_next_start s, ct_login = (sn_login s \<noteq> None), ct_cancelled = (sn_cancelled_by s \<noteq> None),
     ct_ended = (sn_ended s \<noteq> None)\<rparr>"

lemma control_same [simp]:
  "control_of (port_checked a b s) = control_of s"
  "control_of (snd (claim_finding i s)) = control_of s"
  "control_of (release_finding i s) = control_of s"
  "control_of (add_line l e g s) = control_of s"
  by (auto simp: control_of_def page_defs Let_def claim_finding_def release_finding_def split: option.splits)

lemma control_detected [simp]: "control_of (sign_in_detected fp a b found k s) = control_of s"
  by (cases rule: detected_cases [of fp a b found k s]) (simp_all add: control_of_def add_event_def add_line_def)

lemma control_fields: "control_of s = control_of s' \<longleftrightarrow> sn_phase s = sn_phase s' \<and> sn_continues s = sn_continues s'
    \<and> sn_failures s = sn_failures s' \<and> sn_next_start s = sn_next_start s' \<and> (sn_login s = None) = (sn_login s' = None)
    \<and> (sn_cancelled_by s = None) = (sn_cancelled_by s' = None) \<and> (sn_ended s = None) = (sn_ended s' = None)"
  by (auto simp: control_of_def)

section \<open>The limits\<close>

fun under_way_of :: "nat \<Rightarrow> worker \<Rightarrow> nat" where
  "under_way_of g (Signing a b g') = (if g' = g then 1 else 0)"
| "under_way_of g _ = 0"

definition under_way :: "nat \<Rightarrow> crew \<Rightarrow> nat" where
  "under_way g c = sum_list (map (under_way_of g) (cw_workers c))"

fun generation :: "worker \<Rightarrow> nat" where
  "generation (Signing a b g) = g"
| "generation _ = 0"

definition most_failures :: nat where
  "most_failures = failures_before_pause - 1 + sign_ins"

definition limits_ok :: "crew \<Rightarrow> bool" where
  "limits_ok c \<longleftrightarrow> length (cw_workers c) = sign_ins
     \<and> (\<forall>x\<in>set (cw_workers c). generation x \<le> sn_continues (cw_scan c))
     \<and> (\<forall>g\<in>set (cw_failed c). g \<le> sn_continues (cw_scan c))
     \<and> sn_failures (cw_scan c) = count_list (cw_failed c) (sn_continues (cw_scan c))
     \<and> (sn_phase (cw_scan c) = Phase_Running
        \<longrightarrow> count_list (cw_failed c) (sn_continues (cw_scan c)) < failures_before_pause)
     \<and> (\<forall>g. count_list (cw_failed c) g + under_way g c \<le> most_failures)
     \<and> sorted_wrt (\<lambda>t u. t + sign_in_gap \<le> u) (cw_starts c)
     \<and> (\<forall>t\<in>set (cw_starts c). t + sign_in_gap \<le> sn_next_start (cw_scan c))"

lemma under_way_become:
  assumes "worker_at c w \<noteq> Gone" "cw_workers c' = cw_workers c"
  shows "under_way g (becomes w x c') + under_way_of g (worker_at c w) = under_way g c + under_way_of g x"
  using worker_there [OF assms(1)] assms(2) tally_update [of w "cw_workers c" "under_way_of g" x] by (simp add: under_way_def)

lemma under_way_most: "length (cw_workers c) = sign_ins \<Longrightarrow> under_way g c \<le> sign_ins"
proof -
  have "sum_list (map (under_way_of g) xs) \<le> length xs" for xs
  proof (induction xs)
    case (Cons x xs)
    then show ?case by (cases x) auto
  qed simp
  then show "length (cw_workers c) = sign_ins \<Longrightarrow> under_way g c \<le> sign_ins" unfolding under_way_def by metis
qed

text \<open>A step that leaves what decides alone, and what is under way, keeps the limits; so does one that ends a
  sign-in without a failure.\<close>

lemma limits_kept:
  assumes "limits_ok c" "control_of (cw_scan c') = control_of (cw_scan c)" "cw_workers c' = cw_workers c"
    "cw_failed c' = cw_failed c" "cw_starts c' = cw_starts c"
  shows "limits_ok c'"
  using assms unfolding limits_ok_def control_fields under_way_def by simp

lemma limits_become:
  assumes ok: "limits_ok c" and w: "worker_at c w \<noteq> Gone" and x: "generation x = 0" "\<And>g. under_way_of g x = 0"
    and c': "control_of (cw_scan c') = control_of (cw_scan c)" "cw_workers c' = cw_workers c"
      "cw_failed c' = cw_failed c" "cw_starts c' = cw_starts c"
  shows "limits_ok (becomes w x c')"
proof -
  have "under_way g (becomes w x c') \<le> under_way g c" for g using under_way_become [OF w c'(2), of g x] x(2) by simp
  then have "\<forall>g. count_list (cw_failed c) g + under_way g (becomes w x c') \<le> most_failures"
    using ok unfolding limits_ok_def by (meson add_left_mono order_trans)
  moreover have "\<forall>y\<in>set ((cw_workers c)[w := x]). generation y \<le> sn_continues (cw_scan c)"
    using ok x(1) set_update_subset_insert [of "cw_workers c" w x] unfolding limits_ok_def by fastforce
  ultimately show ?thesis
    using ok c' unfolding limits_ok_def control_fields by simp
qed

lemma stop_keeps_limits: "limits_ok c \<Longrightarrow> limits_ok (on_scan (\<lambda>s. snd (cancel_scan who s)) c)"
  unfolding limits_ok_def under_way_def by (simp add: cancel_scan_def page_defs)

lemma proceed_keeps_limits: "limits_ok c \<Longrightarrow> limits_ok (on_scan (\<lambda>s. snd (proceed s)) c)"
proof (cases "sn_phase (cw_scan c) = Phase_Paused")
  case True
  assume ok: "limits_ok c"
  have "count_list (cw_failed c) (Suc (sn_continues (cw_scan c))) = 0"
    using ok unfolding limits_ok_def by (metis Suc_n_not_le_n count_list_0_iff)
  then show ?thesis
    using ok True unfolding limits_ok_def under_way_def
    by (simp add: proceed_def page_defs failures_before_pause_def le_Suc_eq)
qed (simp add: proceed_def on_scan_def)

lemma try_turn_limits: "limits_ok c \<Longrightarrow> limits_ok (try_turn w t c)"
proof (cases "worker_at c w")
  case (Trying a b)
  assume ok: "limits_ok c"
  have w: "worker_at c w \<noteq> Gone" using Trying by simp
  show ?thesis
  proof (cases rule: try_cases [of "cw_scan c" t])
    case 1
    then show ?thesis using ok Trying by (simp add: try_turn_def)
  next
    case 2
    then show ?thesis using ok Trying by (auto simp: try_turn_def intro!: limits_become)
  next
    case 4
    then show ?thesis using ok Trying by (auto simp: try_turn_def intro!: limits_become)
  next
    case (3 lgn)
    define c' where "c' = becomes w (Signing a b (sn_continues (cw_scan c)))
      (c\<lparr>cw_scan := cw_scan c\<lparr>sn_next_start := t + sign_in_gap, sn_signing_in := sn_signing_in (cw_scan c) + 1\<rparr>,
         cw_turn := None, cw_starts := cw_starts c @ [t]\<rparr>)"
    have c': "try_turn w t c = c'" using 3 Trying by (simp add: try_turn_def c'_def)
    have more: "under_way g c' = under_way g c + (if g = sn_continues (cw_scan c) then 1 else 0)" for g
      unfolding c'_def using under_way_become [OF w, of _ g "Signing a b (sn_continues (cw_scan c))"] Trying by simp
    have "count_list (cw_failed c) g + under_way g c' \<le> most_failures" for g
    proof (cases "g = sn_continues (cw_scan c)")
      case True
      have "length (cw_workers c') = sign_ins" using ok by (simp add: c'_def limits_ok_def)
      then have "under_way g c' \<le> sign_ins" by (rule under_way_most)
      moreover have "count_list (cw_failed c) g < failures_before_pause" using ok 3(1) True by (simp add: limits_ok_def)
      ultimately show ?thesis by (simp add: most_failures_def)
    next
      case False
      then show ?thesis using ok more [of g] by (simp add: limits_ok_def)
    qed
    moreover have "\<forall>x\<in>set (cw_workers c'). generation x \<le> sn_continues (cw_scan c)"
      using ok set_update_subset_insert [of "cw_workers c" w "Signing a b (sn_continues (cw_scan c))"]
      unfolding limits_ok_def c'_def by fastforce
    moreover have "\<forall>u\<in>set (cw_starts c). u + sign_in_gap \<le> t" using ok 3(3) unfolding limits_ok_def by fastforce
    moreover have "0 \<le> sign_in_gap" by (simp add: sign_in_gap_def)
    moreover have "\<forall>u\<in>set (cw_starts c). u + sign_in_gap \<le> t + sign_in_gap" using calculation by fastforce
    ultimately have "limits_ok c'"
      using ok unfolding limits_ok_def by (simp add: c'_def sorted_wrt_append ball_Un)
    then show ?thesis by (simp add: c')
  qed
qed (simp_all add: try_turn_def)

lemma failed_effect:
  "sn_continues (sign_in_failed a g s) = sn_continues s"
  "sn_next_start (sign_in_failed a g s) = sn_next_start s"
  "sn_failures (sign_in_failed a g s) = (if g = sn_continues s then Suc (sn_failures s) else sn_failures s)"
  "sn_phase (sign_in_failed a g s) =
     (if g = sn_continues s \<and> failures_before_pause \<le> Suc (sn_failures s) \<and> sn_phase s = Phase_Running
      then Phase_Paused else sn_phase s)"
  "(sn_login (sign_in_failed a g s) = None) = (sn_login s = None)"
  "(sn_cancelled_by (sign_in_failed a g s) = None) = (sn_cancelled_by s = None)"
  "(sn_ended (sign_in_failed a g s) = None) = (sn_ended s = None)"
  by (simp_all add: page_defs Let_def)

lemma failed_limits:
  assumes ok: "limits_ok c" and w: "worker_at c w = Signing a b g"
  shows "limits_ok (becomes w Free (on_scan (sign_in_failed a g) (c\<lparr>cw_failed := cw_failed c @ [g]\<rparr>)))"
proof -
  define c' where "c' = becomes w Free (on_scan (sign_in_failed a g) (c\<lparr>cw_failed := cw_failed c @ [g]\<rparr>))"
  have there: "worker_at c w \<noteq> Gone" using w by simp
  have "Signing a b g \<in> set (cw_workers c)" using worker_there [OF there] w nth_mem by metis
  then have g: "g \<le> sn_continues (cw_scan c)" using ok unfolding limits_ok_def by fastforce
  have less: "under_way h c' + (if g = h then 1 else 0) = under_way h c" for h
    unfolding c'_def using under_way_become [OF there, of _ h Free] w by simp
  have failed: "count_list (cw_failed c') h = count_list (cw_failed c) h + (if g = h then 1 else 0)" for h
    by (simp add: c'_def)
  have "count_list (cw_failed c') h + under_way h c' \<le> most_failures" for h
  proof -
    have "count_list (cw_failed c) h + under_way h c \<le> most_failures" using ok by (simp add: limits_ok_def)
    with less [of h] failed [of h] show ?thesis by linarith
  qed
  moreover have "\<forall>x\<in>set (cw_workers c'). generation x \<le> sn_continues (cw_scan c)"
    using ok set_update_subset_insert [of "cw_workers c" w Free] unfolding limits_ok_def c'_def by fastforce
  ultimately show ?thesis
    using ok g unfolding c'_def [symmetric]
    by (auto simp: limits_ok_def c'_def failed_effect failures_before_pause_def)
qed

lemma end_sign_in_limits: "limits_ok c \<Longrightarrow> limits_ok (end_sign_in fp w outcome c)"
proof (cases "worker_at c w")
  case (Signing a b g)
  assume ok: "limits_ok c"
  show ?thesis
  proof (cases "outcome = Not_Let_In")
    case True
    then show ?thesis using failed_limits [OF ok Signing] Signing by (simp add: end_sign_in_def)
  next
    case False
    then show ?thesis
      using Signing by (cases outcome) (auto simp: end_sign_in_def intro!: limits_become [OF ok])
  qed
qed (simp_all add: end_sign_in_def)

lemma get_next_limits: "limits_ok c \<Longrightarrow> limits_ok (get_next w c)"
  by (auto simp: get_next_def split: worker.split list.split intro!: limits_become)

lemma ask_limits:
  "limits_ok c \<Longrightarrow> limits_ok (ask_skip w skipped c)"
  "limits_ok c \<Longrightarrow> limits_ok (take_turn w c)"
  by (auto simp: ask_skip_def take_turn_def split: worker.split option.split intro!: limits_become)

lemma ask_stop_limits: "limits_ok c \<Longrightarrow> limits_ok (ask_stop w stop c)"
proof (cases "worker_at c w")
  case (First a b)
  assume ok: "limits_ok c"
  have "limits_ok (becomes w (Trying a b) c')" if "limits_ok c'" "cw_workers c' = cw_workers c" for c'
  proof (rule limits_become)
    have "worker_at c' w = worker_at c w" using that(2) by (simp add: worker_at_def)
    then show "worker_at c' w \<noteq> Gone" using First by simp
  qed (use that in simp_all)
  with ok stop_keeps_limits [OF ok] First show ?thesis by (auto simp: ask_stop_def split: option.split)
qed (simp_all add: ask_stop_def)

lemma pool_limits:
  "limits_ok c \<Longrightarrow> limits_ok (begin_check c)" "limits_ok c \<Longrightarrow> limits_ok (answer_check i banner c)"
  "limits_ok c \<Longrightarrow> limits_ok (put_open i c)" "limits_ok c \<Longrightarrow> limits_ok (send_marks c)"
  by (auto simp: begin_check_def answer_check_def put_open_def send_marks_def Let_def split: option.split
      intro: limits_kept)

lemma finish_limits: "limits_ok c \<Longrightarrow> limits_ok (finish_run at c)"
  unfolding limits_ok_def under_way_def finish_run_def by (simp add: end_scan_def page_defs)

lemma limits_step: "limits_ok c \<Longrightarrow> limits_ok (crew_step fp e c)"
  by (cases e) (simp_all add: pool_limits finish_limits get_next_limits ask_limits ask_stop_limits try_turn_limits
      end_sign_in_limits proceed_keeps_limits stop_keeps_limits limits_kept)

lemma limits_always: "limits_ok (scan_after fp addresses port lgn steps)"
proof -
  have "limits_ok (start_crew (new_scan addresses port lgn))"
    by (simp add: limits_ok_def start_crew_def new_scan_def sign_ins_def numeral_eq_Suc under_way_def most_failures_def
        failures_before_pause_def)
  moreover have "limits_ok (fold (crew_step fp) steps c)" if "limits_ok c" for c
    using that by (induction steps arbitrary: c) (simp_all add: limits_step)
  ultimately show ?thesis by (simp add: scan_after_def)
qed

section \<open>What the counts and the end say\<close>

fun signing_of :: "worker \<Rightarrow> nat" where
  "signing_of (Signing a b g) = 1"
| "signing_of _ = 0"

definition signing :: "crew \<Rightarrow> nat" where
  "signing c = sum_list (map signing_of (cw_workers c))"

definition tallies :: "scan \<Rightarrow> nat \<times> nat \<times> int" where
  "tallies s = (sn_checked s, sn_open s, sn_signing_in s)"

lemma tallies_same [simp]:
  "tallies (set_phase p s) = tallies s" "tallies (snd (proceed s)) = tallies s"
  "tallies (snd (cancel_scan who s)) = tallies s" "tallies (end_scan at s) = tallies s"
  "tallies (snd (claim_finding i s)) = tallies s" "tallies (release_finding i s) = tallies s"
  "tallies (add_line l False g s) = tallies s"
  by (auto simp: tallies_def page_defs claim_finding_def release_finding_def split: option.splits)

lemma tallies_ended [simp]:
  "tallies (add_line l True g s) = (sn_checked s, sn_open s, sn_signing_in s - 1)"
  "tallies (sign_in_failed a n s) = (sn_checked s, sn_open s, sn_signing_in s - 1)"
  by (simp_all add: tallies_def page_defs Let_def)

lemma tallies_detected [simp]:
  "tallies (sign_in_detected fp a b found k s) = (sn_checked s, sn_open s, sn_signing_in s - 1)"
  by (cases rule: detected_cases [of fp a b found k s]) (simp_all add: tallies_def add_event_def add_line_def)

lemma tallies_checked [simp]:
  "tallies (port_checked a b s) = (Suc (sn_checked s), if b \<noteq> None then Suc (sn_open s) else sn_open s, sn_signing_in s)"
  by (simp add: tallies_def page_defs Let_def)

text \<open>The end: nothing kept of the login, the phase says how; every address was checked unless cancelled.\<close>

definition counts_ok :: "crew \<Rightarrow> bool" where
  "counts_ok c \<longleftrightarrow> (case tallies (cw_scan c) of (checked, opened, now_signing) \<Rightarrow>
       opened = length (cw_opened c) \<and> now_signing = int (signing c)
       \<and> checked + length (cw_knocking c) \<le> cw_next c
       \<and> (sn_phase (cw_scan c) \<in> {Phase_Cancelling, Phase_Cancelled} \<or> checked + length (cw_knocking c) = cw_next c))
     \<and> (cw_main c = Over) = (sn_login (cw_scan c) = None) \<and> (cw_main c = Over) = (sn_ended (cw_scan c) \<noteq> None)
     \<and> (cw_main c = Over) = (sn_phase (cw_scan c) \<in> {Phase_Done, Phase_Cancelled})
     \<and> (sn_phase (cw_scan c) \<in> {Phase_Cancelling, Phase_Cancelled} \<longrightarrow> sn_cancelled_by (cw_scan c) \<noteq> None)"

lemma signing_become:
  assumes "worker_at c w \<noteq> Gone" "cw_workers c' = cw_workers c"
  shows "signing (becomes w x c') + signing_of (worker_at c w) = signing c + signing_of x"
  using worker_there [OF assms(1)] assms(2) tally_update [of w "cw_workers c" signing_of x] by (simp add: signing_def)

definition same_course :: "crew \<Rightarrow> crew \<Rightarrow> bool" where
  "same_course c c' \<longleftrightarrow> control_of (cw_scan c') = control_of (cw_scan c) \<and> cw_workers c' = cw_workers c
     \<and> cw_knocking c' = cw_knocking c \<and> cw_next c' = cw_next c \<and> cw_main c' = cw_main c \<and> cw_opened c' = cw_opened c"

lemma counts_become:
  assumes ok: "counts_ok c" and w: "worker_at c w \<noteq> Gone" and same: "same_course c c'"
    and t: "tallies (cw_scan c') =
      (sn_checked (cw_scan c), sn_open (cw_scan c),
       sn_signing_in (cw_scan c) + int (signing_of x) - int (signing_of (worker_at c w)))"
  shows "counts_ok (becomes w x c')"
proof -
  have "signing (becomes w x c') + signing_of (worker_at c w) = signing c + signing_of x"
    using signing_become [OF w] same by (simp add: same_course_def)
  then have "int (signing (becomes w x c')) = int (signing c) + int (signing_of x) - int (signing_of (worker_at c w))" by linarith
  then show ?thesis
    using ok same t unfolding counts_ok_def same_course_def control_fields by (auto simp: tallies_def)
qed

lemma counts_kept:
  assumes "counts_ok c" "same_course c c'" "tallies (cw_scan c') = tallies (cw_scan c)"
  shows "counts_ok c'"
  using assms unfolding counts_ok_def same_course_def control_fields signing_def by auto

lemma counts_stop: "counts_ok c \<Longrightarrow> counts_ok (on_scan (\<lambda>s. snd (cancel_scan who s)) c)"
  unfolding counts_ok_def signing_def by (auto simp: cancel_scan_def page_defs tallies_def)

lemma counts_proceed: "counts_ok c \<Longrightarrow> counts_ok (on_scan (\<lambda>s. snd (proceed s)) c)"
  unfolding counts_ok_def signing_def by (auto simp: proceed_def page_defs tallies_def)

lemma counts_pool:
  "counts_ok c \<Longrightarrow> counts_ok (begin_check c)" "counts_ok c \<Longrightarrow> counts_ok (put_open i c)"
  "counts_ok c \<Longrightarrow> counts_ok (send_marks c)"
  unfolding counts_ok_def signing_def
  by (auto simp: begin_check_def put_open_def send_marks_def tallies_def split: option.split)

lemma counts_answer: "counts_ok c \<Longrightarrow> counts_ok (answer_check i banner c)"
proof (cases "i \<in> set (cw_knocking c)")
  case True
  assume ok: "counts_ok c"
  let ?f = "port_checked (sn_addresses (cw_scan c) ! i) banner"
  have same: "sn_phase (?f (cw_scan c)) = sn_phase (cw_scan c)" "(sn_login (?f (cw_scan c)) = None) = (sn_login (cw_scan c) = None)"
      "(sn_ended (?f (cw_scan c)) = None) = (sn_ended (cw_scan c) = None)"
      "(sn_cancelled_by (?f (cw_scan c)) = None) = (sn_cancelled_by (cw_scan c) = None)"
    by (simp_all add: page_defs Let_def)
  have "length (remove1 i (cw_knocking c)) + 1 = length (cw_knocking c)"
    using length_pos_if_in_set [OF True] True by (simp add: length_remove1)
  then have left: "Suc (sn_checked (cw_scan c)) + length (remove1 i (cw_knocking c))
      = sn_checked (cw_scan c) + length (cw_knocking c)" by simp
  have new: "tallies (cw_scan (answer_check i banner c)) = (Suc (sn_checked (cw_scan c)),
        if banner \<noteq> None then Suc (sn_open (cw_scan c)) else sn_open (cw_scan c), sn_signing_in (cw_scan c))"
      "length (cw_opened (answer_check i banner c)) = (if banner \<noteq> None then Suc (length (cw_opened c)) else length (cw_opened c))"
      "cw_knocking (answer_check i banner c) = remove1 i (cw_knocking c)" "cw_workers (answer_check i banner c) = cw_workers c"
      "cw_next (answer_check i banner c) = cw_next c" "cw_main (answer_check i banner c) = cw_main c"
      "cw_scan (answer_check i banner c) = ?f (cw_scan c)"
    by (simp_all add: answer_check_def Let_def True split: option.split)
  have "sn_open (cw_scan c) = length (cw_opened c)" "sn_signing_in (cw_scan c) = int (signing c)"
    using ok by (simp_all add: counts_ok_def tallies_def)
  then show ?thesis
    using ok unfolding counts_ok_def new(1) prod.case signing_def new(2-6) left
    unfolding new(7) same tallies_def [of "cw_scan c"] prod.case
    by simp blast
qed (simp add: answer_check_def)

lemma counts_finish: "counts_ok c \<Longrightarrow> counts_ok (finish_run at c)"
  unfolding counts_ok_def signing_def finish_run_def by (auto simp: end_scan_def page_defs tallies_def)

lemma counts_worker:
  "counts_ok c \<Longrightarrow> counts_ok (get_next w c)" "counts_ok c \<Longrightarrow> counts_ok (ask_skip w skipped c)"
  "counts_ok c \<Longrightarrow> counts_ok (take_turn w c)"
  by (auto simp: get_next_def ask_skip_def take_turn_def same_course_def tallies_def [of "cw_scan c"]
      split: worker.split list.split option.split intro!: counts_become)

lemma counts_ask_stop: "counts_ok c \<Longrightarrow> counts_ok (ask_stop w stop c)"
proof (cases "worker_at c w")
  case (First a b)
  assume ok: "counts_ok c"
  have "counts_ok (becomes w (Trying a b) c')" if c': "counts_ok c'" "cw_workers c' = cw_workers c" for c'
  proof -
    have "worker_at c' w = worker_at c w" using c'(2) by (simp add: worker_at_def)
    then have w: "worker_at c' w = First a b" using First by simp
    show ?thesis by (rule counts_become [OF c'(1)]) (simp_all add: w same_course_def tallies_def)
  qed
  with ok counts_stop [OF ok] First show ?thesis by (auto simp: ask_stop_def split: option.split)
qed (simp_all add: ask_stop_def)

lemma counts_try: "counts_ok c \<Longrightarrow> counts_ok (try_turn w t c)"
proof (cases "worker_at c w")
  case (Trying a b)
  assume ok: "counts_ok c"
  show ?thesis
  proof (cases rule: try_cases [of "cw_scan c" t])
    case (3 lgn)
    let ?x = "Signing a b (sn_continues (cw_scan c))"
    let ?s = "cw_scan c\<lparr>sn_next_start := t + sign_in_gap, sn_signing_in := sn_signing_in (cw_scan c) + 1\<rparr>"
    let ?c = "becomes w ?x (c\<lparr>cw_scan := ?s, cw_turn := None, cw_starts := cw_starts c @ [t]\<rparr>)"
    have "signing ?c = signing c + 1"
      using signing_become [of c w "c\<lparr>cw_scan := ?s, cw_turn := None, cw_starts := cw_starts c @ [t]\<rparr>" ?x] Trying by simp
    then have "counts_ok ?c" using ok unfolding counts_ok_def by (auto simp: tallies_def)
    then show ?thesis using 3 Trying by (simp add: try_turn_def)
  qed (use ok Trying in \<open>auto simp: try_turn_def same_course_def tallies_def [of "cw_scan c"] intro!: counts_become\<close>)
qed (simp_all add: try_turn_def)

lemma counts_end_sign_in: "counts_ok c \<Longrightarrow> counts_ok (end_sign_in fp w outcome c)"
proof (cases "worker_at c w")
  case (Signing a b g)
  assume ok: "counts_ok c"
  show ?thesis
  proof (cases "outcome = Not_Let_In")
    case True
    let ?c = "becomes w Free (on_scan (sign_in_failed a g) (c\<lparr>cw_failed := cw_failed c @ [g]\<rparr>))"
    have "signing ?c + 1 = signing c"
      using signing_become [of c w "on_scan (sign_in_failed a g) (c\<lparr>cw_failed := cw_failed c @ [g]\<rparr>)" Free] Signing by simp
    then have "int (signing ?c) = int (signing c) - 1" by linarith
    then have "counts_ok ?c"
      using ok unfolding counts_ok_def by (auto simp: tallies_def [of "cw_scan c"] failed_effect)
    then show ?thesis using Signing True by (simp add: end_sign_in_def)
  next
    case False
    then show ?thesis
      using Signing by (cases outcome) (auto simp: end_sign_in_def same_course_def intro!: counts_become [OF ok])
  qed
qed (simp_all add: end_sign_in_def)

lemma counts_step: "counts_ok c \<Longrightarrow> counts_ok (crew_step fp e c)"
  by (cases e) (simp_all add: counts_pool counts_answer counts_finish counts_worker counts_ask_stop counts_try
      counts_end_sign_in counts_proceed counts_stop counts_kept same_course_def)

lemma counts_always: "counts_ok (scan_after fp addresses port lgn steps)"
proof -
  have "counts_ok (start_crew (new_scan addresses port lgn))"
    by (simp add: counts_ok_def tallies_def start_crew_def new_scan_def sign_ins_def numeral_eq_Suc signing_def)
  moreover have "counts_ok (fold (crew_step fp) steps c)" if "counts_ok c" for c
    using that by (induction steps arbitrary: c) (simp_all add: counts_step)
  ultimately show ?thesis by (simp add: scan_after_def)
qed

lemma addresses_always: "sn_addresses (cw_scan (scan_after fp addresses port lgn steps)) = addresses"
proof -
  have same: "sn_addresses (cw_scan (crew_step fp e c)) = sn_addresses (cw_scan c)" for e c
  proof (cases e)
    case (Try_Turn w t)
    then show ?thesis
      by (cases rule: try_cases [of "cw_scan c" t]) (simp_all add: try_turn_def split: worker.split)
  next
    case (End_Sign_In w outcome)
    then show ?thesis by (simp add: end_sign_in_def split: worker.split sign_in_end.split)
  qed (auto simp: begin_check_def answer_check_def put_open_def send_marks_def finish_run_def get_next_def ask_skip_def
      take_turn_def ask_stop_def Let_def split: option.split worker.split list.split)
  have "sn_addresses (cw_scan (fold (crew_step fp) steps c)) = sn_addresses (cw_scan c)" for c
    by (induction steps arbitrary: c) (simp_all add: same)
  then show ?thesis by (simp add: scan_after_def start_crew_def new_scan_def)
qed

section \<open>What holds of every discovery\<close>

lemma books_opened: "books_ok c \<Longrightarrow> i \<in> set (cw_opened c) \<Longrightarrow> i < length (sn_addresses (cw_scan c))"
proof -
  assume "books_ok c" "i \<in> set (cw_opened c)"
  then have "i < cw_next c" "cw_next c \<le> length (sn_addresses (cw_scan c))" by (simp_all add: books_ok_def checks_ok_def)
  then show ?thesis by simp
qed

lemma all_gone:
  fixes f :: "worker \<Rightarrow> 'b::comm_monoid_add"
  assumes "list_all (\<lambda>x. x = Gone) xs" "f Gone = 0"
  shows "sum_list (map f xs) = 0"
  using assms by (induction xs) simp_all


end
