(* ===== verification/Scan_Ends.thy ===== *)
theory Scan_Ends
  imports Scan_Limits
begin

text \<open>
  What holds of every discovery, on the invariants of \<open>Scan_Properties\<close> and \<open>Scan_Limits\<close>: the limits, the page's
  view, and that a discovery that isn't paused can always go on to its end, whatever the network answers.
\<close>

section \<open>The turn\<close>

fun has_turn :: "worker \<Rightarrow> bool" where
  "has_turn (First a b) = True"
| "has_turn (Trying a b) = True"
| "has_turn _ = False"

definition turn_ok :: "crew \<Rightarrow> bool" where
  "turn_ok c \<longleftrightarrow> (\<forall>w. has_turn (worker_at c w) = (cw_turn c = Some w))"

lemma worker_become: "worker_at c w \<noteq> Gone \<Longrightarrow> cw_workers c' = cw_workers c \<Longrightarrow>
    worker_at (becomes w x c') v = (if v = w then x else worker_at c v)"
proof -
  assume "worker_at c w \<noteq> Gone" "cw_workers c' = cw_workers c"
  moreover from worker_there [OF this(1)] have "w < length (cw_workers c)" by (rule conjunct1)
  ultimately show ?thesis by (cases "v = w") (simp_all add: worker_at_def)
qed

lemma turn_become:
  assumes "turn_ok c" "worker_at c w \<noteq> Gone" "cw_workers c' = cw_workers c"
    "cw_turn c' = (if has_turn (worker_at c w) = has_turn x then cw_turn c else if has_turn x then Some w else None)"
    "has_turn x \<and> \<not> has_turn (worker_at c w) \<longrightarrow> cw_turn c = None"
  shows "turn_ok (becomes w x c')"
  using assms(1,4,5) unfolding turn_ok_def becomes_same worker_become [OF assms(2,3)]
  by (auto split: if_splits)

lemma turn_kept: "turn_ok c \<Longrightarrow> cw_workers c' = cw_workers c \<Longrightarrow> cw_turn c' = cw_turn c \<Longrightarrow> turn_ok c'"
proof -
  assume "turn_ok c" "cw_workers c' = cw_workers c" "cw_turn c' = cw_turn c"
  moreover from this(2) have "worker_at c' = worker_at c" by (intro ext) (simp add: worker_at_def)
  ultimately show ?thesis by (simp add: turn_ok_def)
qed

lemma turn_step: "turn_ok c \<Longrightarrow> turn_ok (crew_step fp e c)"
proof -
  assume ok: "turn_ok c"
  have worker: "turn_ok (becomes w x c')" if "worker_at c w \<noteq> Gone" "has_turn (worker_at c w) = has_turn x"
      "cw_workers c' = cw_workers c" "cw_turn c' = cw_turn c" for w x c'
    by (rule turn_become [OF ok that(1,3)]) (use that in simp_all)
  show ?thesis
  proof (cases e)
    case (Try_Turn w t)
    show ?thesis
    proof (cases "worker_at c w")
      case (Trying a b)
      have "turn_ok (becomes w x c')" if "\<not> has_turn x" "cw_workers c' = cw_workers c" "cw_turn c' = None" for x c'
        by (rule turn_become [OF ok _ that(2)]) (use that Trying in simp_all)
      then show ?thesis
        using ok Try_Turn Trying worker
        by (cases rule: try_cases [of "cw_scan c" t]) (simp_all add: try_turn_def)
    qed (use ok Try_Turn in \<open>simp_all add: try_turn_def\<close>)
  next
    case (Take_Turn w)
    then show ?thesis
      using ok by (auto simp: take_turn_def split: worker.split option.split intro!: turn_become)
  next
    case (Ask_Stop w stop)
    then show ?thesis using ok worker by (auto simp: ask_stop_def split: worker.split option.split)
  next
    case (Get_Next w)
    then show ?thesis using ok worker by (auto simp: get_next_def split: worker.split list.split)
  next
    case (Ask_Skip w skipped)
    then show ?thesis using ok worker by (auto simp: ask_skip_def split: worker.split option.split)
  next
    case (End_Sign_In w outcome)
    then show ?thesis using ok worker by (auto simp: end_sign_in_def split: worker.split sign_in_end.split)
  qed (auto simp: begin_check_def answer_check_def put_open_def send_marks_def finish_run_def Let_def
      split: option.split intro: turn_kept [OF ok] ok)
qed

lemma turn_always: "turn_ok (scan_after fp addresses port lgn steps)"
proof -
  have "turn_ok (start_crew (new_scan addresses port lgn))"
    by (simp add: turn_ok_def worker_at_def start_crew_def)
  moreover have "turn_ok (fold (crew_step fp) steps c)" if "turn_ok c" for c
    using that by (induction steps arbitrary: c) (simp_all add: turn_step)
  ultimately show ?thesis by (simp add: scan_after_def)
qed

section \<open>What is left to do\<close>

fun effort :: "worker \<Rightarrow> nat" where
  "effort (Taken a b) = 6"
| "effort (Queued a b) = 5"
| "effort (First a b) = 4"
| "effort (Trying a b) = 3"
| "effort (Signing a b g) = 2"
| "effort Free = 1"
| "effort Gone = 0"

definition work :: "crew \<Rightarrow> nat" where
  "work c = 10 * (length (sn_addresses (cw_scan c)) - cw_next c) + 9 * length (cw_knocking c)
     + 8 * length (cw_answered c) + 7 * length (filter (\<lambda>q. fst q < length (sn_addresses (cw_scan c))) (cw_queue c))
     + sum_list (map effort (cw_workers c)) + (case cw_main c of Checking \<Rightarrow> 2 | Joining \<Rightarrow> 1 | Over \<Rightarrow> 0)"

lemma effort_become:
  assumes "worker_at c w \<noteq> Gone" "cw_workers c' = cw_workers c"
  shows "sum_list (map effort (cw_workers (becomes w x c'))) + effort (worker_at c w)
    = sum_list (map effort (cw_workers c)) + effort x"
  using worker_there [OF assms(1)] assms(2) tally_update [of w "cw_workers c" effort x] by simp

lemma less_work:
  assumes "worker_at c w \<noteq> Gone" "alike c c'" "effort x < effort (worker_at c w)"
  shows "work (becomes w x c') < work c"
  using effort_become [OF assms(1), of c' x] assms(2,3) by (simp add: work_def alike_def)

text \<open>The steps of the threads when the network answers so and so: each address's port, why it is skipped, how its
  sign-in ends; nobody stops, and a start may wait for its time.\<close>

fun answered_by :: "(nat \<Rightarrow> string option) \<Rightarrow> (string \<Rightarrow> (reason \<times> string) option) \<Rightarrow> (string \<Rightarrow> sign_in_end)
    \<Rightarrow> crew \<Rightarrow> scan_step \<Rightarrow> bool" where
  "answered_by knock skip detects c (Answer_Check i banner) = (banner = knock i)"
| "answered_by knock skip detects c (Ask_Skip w skipped) =
     (case worker_at c w of Taken a b \<Rightarrow> skipped = skip a | _ \<Rightarrow> False)"
| "answered_by knock skip detects c (Ask_Stop w stop) = (stop = None)"
| "answered_by knock skip detects c (End_Sign_In w outcome) =
     (case worker_at c w of Signing a b g \<Rightarrow> outcome = detects a | _ \<Rightarrow> False)"
| "answered_by knock skip detects c Continue_Scan = False"
| "answered_by knock skip detects c (Cancel_Scan who) = False"
| "answered_by knock skip detects c (Claim_Finding i) = False"
| "answered_by knock skip detects c (Release_Finding i) = False"
| "answered_by knock skip detects c _ = True"

inductive goes_to :: "(string \<Rightarrow> string) \<Rightarrow> (nat \<Rightarrow> string option) \<Rightarrow> (string \<Rightarrow> (reason \<times> string) option)
    \<Rightarrow> (string \<Rightarrow> sign_in_end) \<Rightarrow> crew \<Rightarrow> crew \<Rightarrow> bool" for fp knock skip detects where
  "goes_to fp knock skip detects c c"
| "answered_by knock skip detects c e \<Longrightarrow> goes_to fp knock skip detects (crew_step fp e c) c'
     \<Longrightarrow> goes_to fp knock skip detects c c'"

lemma pool_moves:
  assumes "books_ok c" "cw_main c = Checking"
  shows "\<exists>e. answered_by knock skip detects c e \<and> work (crew_step fp e c) < work c"
proof (cases "cw_answered c")
  case (Cons p rest)
  obtain i b where p: "p = (i, b)" by (cases p)
  have "i \<in> set (cw_opened c)" using assms(1) Cons p by (simp add: books_ok_def checks_ok_def)
  then have "i < length (sn_addresses (cw_scan c))" by (rule books_opened [OF assms(1)])
  have "length (filter P (insort_key fst x xs)) = length (filter P xs) + (if P x then 1 else 0)" for P x
    and xs :: "(nat \<times> string \<times> string) list"
    by (induction xs) auto
  then have "work (put_open i c) < work c" using Cons p by (simp add: work_def put_open_def)
  then show ?thesis by (intro exI [of _ "Put_Open i"]) simp
next
  case none: Nil
  show ?thesis
  proof (cases "cw_knocking c")
    case (Cons i rest)
    then have "work (answer_check i (knock i) c) < work c"
      using none by (simp add: work_def answer_check_def Let_def split: option.split)
    then show ?thesis by (intro exI [of _ "Answer_Check i (knock i)"]) simp
  next
    case Nil
    show ?thesis
    proof (cases "cw_next c < length (sn_addresses (cw_scan c))")
      case True
      then have "length (sn_addresses (cw_scan c)) - cw_next c = Suc (length (sn_addresses (cw_scan c)) - Suc (cw_next c))"
        by (rule Suc_diff_Suc [symmetric])
      then have "work (begin_check c) < work c"
        using True none Nil by (simp add: work_def begin_check_def port_checks_def)
      then show ?thesis by (intro exI [of _ Begin_Check]) simp
    next
      case False
      then have "cw_next c = length (sn_addresses (cw_scan c))" using assms(1) by (simp add: books_ok_def checks_ok_def)
      then have "work (send_marks c) < work c" using none Nil assms(2) by (simp add: work_def send_marks_def)
      then show ?thesis by (intro exI [of _ Send_Marks]) simp
    qed
  qed
qed

lemma worker_moves:
  assumes ok: "books_ok c" "turn_ok c" and main: "cw_main c = Joining" and phase: "sn_phase (cw_scan c) \<noteq> Phase_Paused"
  shows "\<exists>e. answered_by knock skip detects c e \<and> work (crew_step fp e c) < work c"
proof -
  have holder: ?thesis if "worker_at c w = First a b \<or> worker_at c w = Trying a b" for w a b
    using that
  proof
    assume w: "worker_at c w = First a b"
    then have "work (ask_stop w None c) < work c" by (auto simp: ask_stop_def intro: less_work)
    then show ?thesis by (intro exI [of _ "Ask_Stop w None"]) simp
  next
    assume w: "worker_at c w = Trying a b"
    let ?t = "sn_next_start (cw_scan c)"
    have "work (try_turn w ?t c) < work c"
      by (cases rule: try_cases [of "cw_scan c" ?t]) (use w phase in \<open>auto simp: try_turn_def alike_def intro!: less_work\<close>)
    then show ?thesis by (intro exI [of _ "Try_Turn w ?t"]) simp
  qed
  show ?thesis
  proof (cases "list_all (\<lambda>x. x = Gone) (cw_workers c)")
    case True
    have "work (finish_run 0 c) < work c" using main True by (simp add: work_def finish_run_def)
    then show ?thesis by (intro exI [of _ "Finish_Run 0"]) simp
  next
    case False
    then obtain w where "w < length (cw_workers c)" "cw_workers c ! w \<noteq> Gone" by (auto simp: list_all_length)
    then have w: "worker_at c w \<noteq> Gone" by (simp add: worker_at_def)
    show ?thesis
    proof (cases "worker_at c w")
      case (Taken a b)
      have "work (ask_skip w (skip a) c) < work c"
        using Taken by (auto simp: ask_skip_def split: option.split intro!: less_work)
      then show ?thesis using Taken by (intro exI [of _ "Ask_Skip w (skip a)"]) simp
    next
      case (Signing a b g)
      have "work (end_sign_in fp w (detects a) c) < work c"
        using Signing by (cases "detects a") (auto simp: end_sign_in_def alike_def intro!: less_work)
      then show ?thesis using Signing by (intro exI [of _ "End_Sign_In w (detects a)"]) simp
    next
      case (Queued a b)
      show ?thesis
      proof (cases "cw_turn c")
        case None
        then have "work (take_turn w c) < work c" using Queued by (auto simp: take_turn_def alike_def intro!: less_work)
        then show ?thesis by (intro exI [of _ "Take_Turn w"]) simp
      next
        case (Some v)
        then have "has_turn (worker_at c v)" using ok(2) by (simp add: turn_ok_def)
        then obtain a b where "worker_at c v = First a b \<or> worker_at c v = Trying a b"
          by (cases "worker_at c v") simp_all
        then show ?thesis by (rule holder)
      qed
    next
      case Free
      have q: "queue_ok c" using ok(1) by (simp add: books_ok_def)
      have "active c \<noteq> 0"
        using active_become [OF w refl, of Gone] by simp
      then obtain i a b rest where "cw_queue c = (i, a, b) # rest"
        using queue_joined(5) [OF q] main by (cases "cw_queue c") auto
      then have "work (get_next w c) < work c"
        using effort_become [OF w, of "c\<lparr>cw_queue := rest\<rparr>" Gone]
          effort_become [OF w, of "c\<lparr>cw_queue := rest\<rparr>" "Taken a b"] Free by (simp add: work_def get_next_def)
      then show ?thesis by (intro exI [of _ "Get_Next w"]) simp
    qed (use holder w in auto)
  qed
qed

lemma goes_on:
  assumes "books_ok c" "turn_ok c"
  shows "\<exists>c'. goes_to fp knock skip detects c c' \<and> (cw_main c' = Over \<or> sn_phase (cw_scan c') = Phase_Paused)"
  using assms
proof (induction "work c" arbitrary: c rule: less_induct)
  case less
  show ?case
  proof (cases "cw_main c = Over \<or> sn_phase (cw_scan c) = Phase_Paused")
    case True
    then show ?thesis using goes_to.intros(1) by blast
  next
    case False
    have "\<exists>e. answered_by knock skip detects c e \<and> work (crew_step fp e c) < work c"
    proof (cases "cw_main c")
      case Checking
      then show ?thesis by (rule pool_moves [OF less.prems(1)])
    next
      case Joining
      then show ?thesis using False by (intro worker_moves [OF less.prems]) simp_all
    qed (use False in simp)
    then obtain e where e: "answered_by knock skip detects c e" "work (crew_step fp e c) < work c" by blast
    from less.hyps [OF e(2) crew_step_ok [OF less.prems(1)] turn_step [OF less.prems(2)]]
    show ?thesis using goes_to.intros(2) [OF e(1)] by blast
  qed
qed

section \<open>What holds of every discovery\<close>

text \<open>C33: A discovery that isn't paused can always go on until it is over or pauses, by its own threads' steps alone,
  wherever it is and whatever the network answers.\<close>

theorem discovery_goes_on:
  "\<exists>c'. goes_to fp knock skip detects (scan_after fp addresses port lgn steps) c'
     \<and> (cw_main c' = Over \<or> sn_phase (cw_scan c') = Phase_Paused)"
  by (rule goes_on) (rule books_always turn_always)+

text \<open>C32: The limits of a discovery: two sign-ins start at least \<open>SIGN_IN_GAP\<close> apart, at most four are under way, and of
  those that had started under one Continue count at most six fail on wrong credentials (three pause it, three
  more can be under way) - so at most six times one more than the continues.\<close>

theorem sign_ins_limited:
  "let c = scan_after fp addresses port lgn steps in
     sorted_wrt (\<lambda>t u. t + 5 * 10 ^ 8 \<le> u) (cw_starts c) \<and> sn_signing_in (cw_scan c) \<le> 4
     \<and> (\<forall>g. count_list (cw_failed c) g \<le> 6) \<and> length (cw_failed c) \<le> 6 * Suc (sn_continues (cw_scan c))"
proof -
  define c where "c = scan_after fp addresses port lgn steps"
  have limits: "limits_ok c" and counts: "counts_ok c" unfolding c_def by (rule limits_always counts_always)+
  have six: "count_list (cw_failed c) g \<le> 6" for g
  proof -
    have "count_list (cw_failed c) g + under_way g c \<le> most_failures" using limits by (simp add: limits_ok_def)
    then show ?thesis by (simp add: most_failures_def failures_before_pause_def sign_ins_def)
  qed
  have "sum_list (map signing_of xs) \<le> length xs" for xs
  proof (induction xs)
    case (Cons x xs)
    then show ?case by (cases x) auto
  qed simp
  then have "signing c \<le> sign_ins" using limits unfolding signing_def limits_ok_def by metis
  moreover have "sn_signing_in (cw_scan c) = int (signing c)" using counts by (simp add: counts_ok_def tallies_def)
  moreover have "length (cw_failed c) \<le> 6 * Suc (sn_continues (cw_scan c))"
  proof -
    have "set (cw_failed c) \<subseteq> {..sn_continues (cw_scan c)}" using limits by (auto simp: limits_ok_def)
    then have "length (cw_failed c) = sum (count_list (cw_failed c)) {..sn_continues (cw_scan c)}"
      by (rule sum_count_set [symmetric]) simp
    also have "\<dots> \<le> sum (\<lambda>_. 6) {..sn_continues (cw_scan c)}" by (rule sum_mono) (rule six)
    finally show ?thesis by simp
  qed
  ultimately show ?thesis
    using six limits unfolding c_def [symmetric] Let_def limits_ok_def sign_in_gap_def sign_ins_def by simp
qed

section \<open>What the page is told\<close>

fun tell :: "(nat \<times> page_event) list \<Rightarrow> page_event list \<Rightarrow> (nat \<times> page_event) list" where
  "tell es [] = es"
| "tell es (k # ks) = tell (es @ [(Suc (length es), k)]) ks"

definition told :: "scan \<Rightarrow> scan \<Rightarrow> bool" where
  "told s s' \<longleftrightarrow> (\<exists>ks. sn_events s' = tell (sn_events s) ks)"

lemma tell_append: "tell (tell es ks) ks' = tell es (ks @ ks')"
  by (induction ks arbitrary: es) simp_all

lemma tell_grows: "\<exists>new. tell es ks = es @ new"
proof (induction ks arbitrary: es)
  case (Cons k ks)
  from Cons [of "es @ [(Suc (length es), k)]"] show ?case by auto
qed simp

lemma tell_numbered: "map fst es = [1..<Suc (length es)] \<Longrightarrow> map fst (tell es ks) = [1..<Suc (length (tell es ks))]"
  by (induction ks arbitrary: es) simp_all

lemma told_same: "sn_events s' = sn_events s \<Longrightarrow> told s s'"
  unfolding told_def by (rule exI [of _ "[]"]) simp

lemma told_trans: "told s s' \<Longrightarrow> told s' s'' \<Longrightarrow> told s s''"
  unfolding told_def using tell_append by metis

lemma told_add: "sn_events s' = sn_events s \<Longrightarrow> told s (add_event k s')"
  unfolding told_def by (rule exI [of _ "[k]"]) (simp add: add_event_def)

lemma told_blocks [intro, simp]:
  "told s s"
  "told s (set_phase p s)" "told s (snd (proceed s))" "told s (snd (cancel_scan who s))" "told s (end_scan at s)"
  "told s (port_checked a b s)" "told s (snd (claim_finding i s))" "told s (release_finding i s)"
  "told s (add_line l e g s)"
  by (auto simp: set_phase_def proceed_def cancel_scan_def end_scan_def port_checked_def add_line_def
      claim_finding_def release_finding_def Let_def split: option.split intro: told_add told_same)

lemma told_failed [intro, simp]: "told s (sign_in_failed a g s)"
proof -
  let ?l = "\<lparr>nc_address = a, nc_reason = Wrong_Credentials, nc_detail = []\<rparr>"
  let ?s = "add_event (Line_Event ?l) (s\<lparr>sn_signing_in := sn_signing_in s - 1, sn_lines := sn_lines s @ [?l]\<rparr>)"
  have "told s ?s" by (rule told_add) simp
  moreover have after: "told s x" if "sn_events x = sn_events ?s" for x
    using \<open>told s ?s\<close> told_same [OF that] by (rule told_trans)
  moreover have "told s (set_phase Phase_Paused x)" if "sn_events x = sn_events ?s" for x
    by (rule told_trans [OF after [OF that]]) simp
  ultimately show ?thesis unfolding sign_in_failed_def Let_def by simp
qed

lemma told_detected [intro, simp]: "told s (sign_in_detected fp a b found k s)"
  by (cases rule: detected_cases [of fp a b found k s]) (auto intro: told_add)

lemma told_step: "told (cw_scan c) (cw_scan (crew_step fp e c))"
proof (cases e)
  case (Try_Turn w t)
  then show ?thesis
    by (cases rule: try_cases [of "cw_scan c" t]) (auto simp: try_turn_def split: worker.split intro: told_same)
next
  case (End_Sign_In w outcome)
  then show ?thesis by (auto simp: end_sign_in_def split: worker.split sign_in_end.split)
qed (auto simp: begin_check_def answer_check_def put_open_def send_marks_def finish_run_def get_next_def ask_skip_def
    take_turn_def ask_stop_def Let_def split: option.split worker.split list.split)

lemma told_steps: "told (cw_scan c) (cw_scan (fold (crew_step fp) steps c))"
proof (induction steps arbitrary: c)
  case (Cons e steps)
  from told_trans [OF told_step Cons] show ?case by simp
qed simp

text \<open>A page that asks for what came after the last event it has gets exactly that, whenever it asks: the events
  it had and the answer's are all there are, numbered from one.\<close>

theorem page_misses_nothing:
  "let had = cw_scan (scan_after fp addresses port lgn earlier);
       s = cw_scan (fold (crew_step fp) later (scan_after fp addresses port lgn earlier))
   in sn_events had @ ss_events (scan_status_of (int (ss_seq (scan_status_of 0 had))) s) = sn_events s
     \<and> map fst (sn_events s) = [1..<Suc (ss_seq (scan_status_of 0 s))]"
proof -
  define had where "had = cw_scan (scan_after fp addresses port lgn earlier)"
  define s where "s = cw_scan (fold (crew_step fp) later (scan_after fp addresses port lgn earlier))"
  have "told had s" unfolding had_def s_def by (rule told_steps)
  then obtain new where new: "sn_events s = sn_events had @ new" unfolding told_def using tell_grows by metis
  have "told (new_scan addresses port lgn) had"
    unfolding had_def scan_after_def using told_steps [of "start_crew (new_scan addresses port lgn)"]
    by (simp add: start_crew_def)
  from told_trans [OF this \<open>told had s\<close>] obtain ks where "sn_events s = tell [] ks"
    by (auto simp: told_def new_scan_def)
  then have "map fst (sn_events s) = [1..<Suc (length (sn_events s))]" using tell_numbered [of "[]" ks] by simp
  with new show ?thesis unfolding had_def [symmetric] s_def [symmetric] by (simp add: scan_status_of_def)
qed

end
