(* ===== verification/Maintenance.thy ===== *)
theory Maintenance
  imports Orchestrator
begin

text \<open>
  \<open>src/webapp/lifecycle.py\<close> - maintenance's state, its gate before every request, the one stop of the process - and
  \<open>src/webapp/db_move.py\<close>: the database move's thread and the Redis switch. The requests, the rollouts, the move and
  the background threads are a site whose steps happen in any order; its database is the list of the rows written,
  each by its writer. What the databases answer (checks, copy, switch) is the steps' argument.
\<close>

section \<open>Maintenance\<close>

datatype maintenance_state = Maint_Idle | Maint_Waiting | Maint_Locked

record maintenance =
  mt_state :: maintenance_state
  mt_what :: string
  mt_progress :: string
  mt_actor :: "string option"
  mt_under_way :: int

definition new_maintenance :: maintenance where
  "new_maintenance = \<lparr>mt_state = Maint_Idle, mt_what = [], mt_progress = [], mt_actor = None, mt_under_way = 0\<rparr>"

definition maint_active :: "maintenance \<Rightarrow> bool" where
  "maint_active m \<longleftrightarrow> mt_state m \<noteq> Maint_Idle"

definition writes_blocked :: "maintenance \<Rightarrow> bool" where
  "writes_blocked m \<longleftrightarrow> mt_state m = Maint_Locked"

definition begin_maintenance ::
  "string \<Rightarrow> string option \<Rightarrow> maintenance \<times> orch \<Rightarrow> bool \<times> maintenance \<times> orch" where
  "begin_maintenance what actor mq = (case mq of (m, q) \<Rightarrow>
     if mt_state m \<noteq> Maint_Idle then (False, m, q)
     else (True, m\<lparr>mt_state := Maint_Waiting, mt_what := what, mt_actor := actor,
                   mt_progress := ''Waiting for rollouts to finish''\<rparr>, pause_orch q))"

definition lock_maintenance :: "maintenance \<times> orch \<Rightarrow> bool \<times> maintenance" where
  "lock_maintenance mq = (case mq of (m, q) \<Rightarrow>
     if mt_state m \<noteq> Maint_Waiting then (False, m)
     else if mt_under_way m \<noteq> 0 \<or> \<not> idle q then (False, m)
     else (True, m\<lparr>mt_state := Maint_Locked\<rparr>))"

definition enter_request :: "maintenance \<Rightarrow> bool \<times> maintenance" where
  "enter_request m =
     (if mt_state m = Maint_Locked then (False, m) else (True, m\<lparr>mt_under_way := mt_under_way m + 1\<rparr>))"

definition leave_request :: "maintenance \<Rightarrow> maintenance" where
  "leave_request m = m\<lparr>mt_under_way := mt_under_way m - 1\<rparr>"

definition report_progress :: "string \<Rightarrow> maintenance \<Rightarrow> maintenance" where
  "report_progress progress m = m\<lparr>mt_progress := progress\<rparr>"

definition end_maintenance :: "maintenance \<times> orch \<Rightarrow> maintenance \<times> orch" where
  "end_maintenance mq = (case mq of (m, q) \<Rightarrow>
     (m\<lparr>mt_state := Maint_Idle, mt_what := [], mt_progress := [], mt_actor := None\<rparr>, resume_orch q))"

text \<open>\<open>snapshot\<close>, and what the banner shows.\<close>

definition maint_snapshot :: "maintenance \<Rightarrow> maintenance_state \<times> string \<times> string \<times> string option" where
  "maint_snapshot m = (mt_state m, mt_what m, mt_progress m, mt_actor m)"

definition maint_banner :: "maintenance \<Rightarrow> (maintenance_state \<times> string \<times> string \<times> string option) option" where
  "maint_banner m = (if mt_state m = Maint_Waiting then Some (maint_snapshot m) else None)"

text \<open>The gate: a view marked \<open>@during_maintenance\<close> or always served passes, the live log's stream passes unless
  locked - neither is counted -, every other request is counted or refused.\<close>

datatype view_kind = Always_Served | Not_Waited_For | Counted_View

datatype gate_answer = Pass_Uncounted | Pass_Counted | Under_Maintenance string

definition endpoint_kind :: "string option \<Rightarrow> bool \<Rightarrow> view_kind" where
  "endpoint_kind endpoint during_maintenance =
     (if endpoint \<in> Some ` {''static'', ''prometheus_metrics''} \<or> during_maintenance then Always_Served
      else if endpoint = Some ''rollout.rollout_stream'' then Not_Waited_For else Counted_View)"

definition maintenance_gate :: "view_kind \<Rightarrow> maintenance \<Rightarrow> gate_answer \<times> maintenance" where
  "maintenance_gate kind m =
     (let refused = Under_Maintenance (''NetRollout is under maintenance - '' @ mt_what m @ ''. Try again in a few minutes.'')
      in case kind of
           Always_Served \<Rightarrow> (Pass_Uncounted, m)
         | Not_Waited_For \<Rightarrow> if \<not> writes_blocked m then (Pass_Uncounted, m) else (refused, m)
         | Counted_View \<Rightarrow> (case enter_request m of (True, m1) \<Rightarrow> (Pass_Counted, m1) | (False, m1) \<Rightarrow> (refused, m1)))"

text \<open>\<open>Shutdown.begin\<close>: at most one stop, its kind kept.\<close>

definition begin_shutdown :: "bool \<Rightarrow> bool option \<Rightarrow> bool \<times> bool option" where
  "begin_shutdown restart begun = (case begun of Some r \<Rightarrow> (False, Some r) | None \<Rightarrow> (True, Some restart))"

section \<open>The database move\<close>

datatype move_state = Move_Idle | Move_Waiting | Move_Copying | Move_Switching | Move_Done | Move_Failed | Move_Cancelled

record move_status =
  mv_state :: move_state
  mv_step :: "string option"
  mv_what :: "string option"
  mv_homeward :: "bool option"
  mv_deadline :: "int option"
  mv_message :: "string option"

definition no_move :: move_status where
  "no_move = \<lparr>mv_state = Move_Idle, mv_step = None, mv_what = None, mv_homeward = None, mv_deadline = None, mv_message = None\<rparr>"

definition move_running :: "move_status \<Rightarrow> bool" where
  "move_running st \<longleftrightarrow> mv_state st \<in> {Move_Waiting, Move_Copying, Move_Switching}"

definition seconds_left :: "int \<Rightarrow> move_status \<Rightarrow> int" where
  "seconds_left now_s st = (case mv_deadline st of None \<Rightarrow> 0 | Some d \<Rightarrow> d) - now_s"

definition wait_seconds :: int where "wait_seconds = 30 * 60"

text \<open>Who wrote a row: a request, a rollout, a background thread, the move.\<close>

datatype writer = By_Request | By_Rollout | By_Background | By_Move

type_synonym row_written = "writer \<times> nat"

text \<open>Where the move's thread is.\<close>

datatype mover = No_Mover | Polling | Copying_Data | Switching_To "row_written list" | Closing move_state string

text \<open>The site: beside the program's state, the requests in progress (each counted), the background threads about to
  write, the threads of ended moves about to record their end, those of a Redis switch; every row written.\<close>

record site =
  si_maint :: maintenance
  si_orch :: orch
  si_requests :: "nat list"
  si_background :: "nat list"
  si_mover :: mover
  si_status :: move_status
  si_cancel :: bool
  si_late :: "(move_state \<times> string) list"
  si_redis :: "(nat \<times> bool) list"
  si_rows :: "row_written list"
  si_written :: "row_written list"

definition start_site :: site where
  "start_site = \<lparr>si_maint = new_maintenance, si_orch = start_orch, si_requests = [], si_background = [],
     si_mover = No_Mover, si_status = no_move, si_cancel = False, si_late = [], si_redis = [], si_rows = [],
     si_written = []\<rparr>"

definition write_row :: "row_written \<Rightarrow> site \<Rightarrow> site" where
  "write_row r s = s\<lparr>si_rows := si_rows s @ [r], si_written := si_written s @ [r]\<rparr>"

text \<open>\<open>DatabaseMove.start\<close>, in a request: what checking the target answers is given - its problems, whether it is the
  database in use, whether it holds a NetRollout database.\<close>

record target_check =
  tc_same :: bool
  tc_problems :: "string list"
  tc_netrollout :: bool

definition move_refusal :: "target_check \<Rightarrow> bool \<Rightarrow> string option" where
  "move_refusal check replace =
     (if tc_same check then Some ''That is the database NetRollout uses now.''
      else if tc_problems check \<noteq> [] then Some (join '' '' (tc_problems check))
      else if tc_netrollout check \<and> \<not> replace
        then Some ''It holds a NetRollout database - tick 'replace' to overwrite it.''
      else None)"

definition start_move :: "target_check \<Rightarrow> bool \<Rightarrow> bool \<Rightarrow> string option \<Rightarrow> int \<Rightarrow> site \<Rightarrow> (string + site)" where
  "start_move check homeward replace actor now_s s =
     (case move_refusal check replace of
        Some why \<Rightarrow> Inl why
      | None \<Rightarrow>
          (let what = (if homeward then ''moving back to the bundled database'' else ''moving to another database'')
           in case begin_maintenance what actor (si_maint s, si_orch s) of
                (False, _) \<Rightarrow> Inl ''A move is under way already.''
              | (True, m, q) \<Rightarrow>
                  Inr (s\<lparr>si_maint := m, si_orch := q, si_cancel := False, si_mover := Polling,
                         si_status := \<lparr>mv_state = Move_Waiting, mv_step = Some ''Waiting for rollouts to finish'',
                           mv_what = Some what, mv_homeward = Some homeward, mv_deadline = Some (now_s + wait_seconds),
                           mv_message = None\<rparr>\<rparr>)))"

definition cancel_move :: "site \<Rightarrow> bool \<times> site" where
  "cancel_move s = (if mv_state (si_status s) \<noteq> Move_Waiting then (False, s) else (True, s\<lparr>si_cancel := True\<rparr>))"

text \<open>\<open>_step\<close>.\<close>

definition move_step :: "move_state \<Rightarrow> string \<Rightarrow> site \<Rightarrow> site" where
  "move_step state step s =
     s\<lparr>si_status := (si_status s)\<lparr>mv_state := state, mv_step := Some step\<rparr>,
       si_maint := report_progress step (si_maint s)\<rparr>"

text \<open>\<open>_run\<close>, from one step of its thread to the next: it polls for the lock (cancelled, out of time), copies - the
  copy, or why it failed -, switches, and closes: maintenance ends, then a move that didn't happen is recorded, then
  its status is final.\<close>

definition cancelled_message :: string where
  "cancelled_message = ''Cancelled - NetRollout stays on its database.''"

definition gave_up_message :: string where
  "gave_up_message = ''Rollouts were still running after '' @ show_int (wait_seconds div 60)
     @ '' minutes - the move was given up and rollouts resumed. Cancel the stuck rollouts, then move again.''"

definition poll_move :: "int \<Rightarrow> site \<Rightarrow> site" where
  "poll_move now_s s =
     (if si_mover s \<noteq> Polling then s
      else case lock_maintenance (si_maint s, si_orch s) of
        (True, m) \<Rightarrow> move_step Move_Copying ''Copying the data'' (s\<lparr>si_maint := m, si_mover := Copying_Data\<rparr>)
      | (False, m) \<Rightarrow>
          (if si_cancel s then s\<lparr>si_mover := Closing Move_Cancelled cancelled_message\<rparr>
           else if (case mv_deadline (si_status s) of None \<Rightarrow> 0 | Some d \<Rightarrow> d) \<le> now_s
             then s\<lparr>si_mover := Closing Move_Failed gave_up_message\<rparr>
           else s))"

definition copy_data :: "string option \<Rightarrow> nat \<Rightarrow> site \<Rightarrow> site" where
  "copy_data failure moved s =
     (if si_mover s \<noteq> Copying_Data then s
      else case failure of
        Some why \<Rightarrow> s\<lparr>si_mover := Closing Move_Failed why\<rparr>
      | None \<Rightarrow> move_step Move_Switching ''Switching to the new database''
                 (s\<lparr>si_mover := Switching_To (si_rows s @ [(By_Move, moved)])\<rparr>))"

definition switch_database :: "string option \<Rightarrow> string \<Rightarrow> site \<Rightarrow> site" where
  "switch_database failure target s =
     (case si_mover s of
        Switching_To copied \<Rightarrow>
          (case failure of
             Some why \<Rightarrow>
               s\<lparr>si_mover := Closing Move_Failed (''Switching failed: '' @ why @ '' - NetRollout stays on its database.'')\<rparr>
           | None \<Rightarrow> s\<lparr>si_rows := copied, si_mover := Closing Move_Done (''NetRollout now uses '' @ target @ ''.'')\<rparr>)
      | _ \<Rightarrow> s)"

definition close_move :: "site \<Rightarrow> site" where
  "close_move s =
     (case si_mover s of
        Closing outcome message \<Rightarrow>
          (case end_maintenance (si_maint s, si_orch s) of (m, q) \<Rightarrow>
             s\<lparr>si_maint := m, si_orch := q, si_mover := No_Mover, si_late := si_late s @ [(outcome, message)]\<rparr>)
      | _ \<Rightarrow> s)"

definition record_failure :: "nat \<Rightarrow> nat \<Rightarrow> site \<Rightarrow> site" where
  "record_failure i row s =
     (if i < length (si_late s) \<and> fst (si_late s ! i) \<noteq> Move_Done then write_row (By_Move, row) s else s)"

definition final_status :: "nat \<Rightarrow> site \<Rightarrow> site" where
  "final_status i s =
     (if i < length (si_late s)
      then s\<lparr>si_status := (si_status s)\<lparr>mv_state := fst (si_late s ! i), mv_step := Some [],
               mv_message := Some (snd (si_late s ! i))\<rparr>,
             si_late := take i (si_late s) @ drop (Suc i) (si_late s)\<rparr>
      else s)"

section \<open>The Redis switch\<close>

text \<open>\<open>switch_redis\<close>, in a request: the pause with what it was, the counts; the end puts the pause back.\<close>

definition redis_begin :: "nat \<Rightarrow> site \<Rightarrow> site" where
  "redis_begin r s =
     (if r \<in> set (si_requests s)
      then s\<lparr>si_orch := pause_orch (si_orch s), si_redis := si_redis s @ [(r, q_paused (si_orch s))]\<rparr> else s)"

definition redis_refused :: "site \<Rightarrow> bool" where
  "redis_refused s \<longleftrightarrow> running_count (si_orch s) \<noteq> 0 \<or> queued_count (si_orch s) \<noteq> 0"

definition redis_end :: "nat \<Rightarrow> site \<Rightarrow> site" where
  "redis_end r s =
     (case map_of (si_redis s) r of
        None \<Rightarrow> s
      | Some was_paused \<Rightarrow>
          s\<lparr>si_redis := AList.delete r (si_redis s),
            si_orch := (if was_paused then si_orch s else resume_orch (si_orch s))\<rparr>)"

section \<open>The site's steps\<close>

datatype site_step =
    Request_Comes nat | Request_Writes nat nat | Request_Ends nat
  | Submit_Job nat string job | Dispatch_Job string string | Cancel_Job string string | Job_Writes nat
  | Job_Ends string | Job_Saved | Withdraw_Job string | Drain_Jobs string
  | Background_Looks nat | Background_Writes nat nat
  | Start_Move nat target_check bool bool "string option" int | Cancel_Move | Poll_Move int
  | Copy_Data "string option" nat | Switch_Database "string option" string | Close_Move
  | Record_Failure nat nat | Final_Status nat | Redis_Begin nat | Redis_End nat

text \<open>A step that can't happen now - a request that isn't there, a rollout's write without a rollout - changes
  nothing. A background thread looks whether writes are blocked, then writes.\<close>

fun serve :: "site_step \<Rightarrow> site \<Rightarrow> site" where
  "serve (Request_Comes r) s =
     (case maintenance_gate Counted_View (si_maint s) of
        (Pass_Counted, m) \<Rightarrow> if r \<in> set (si_requests s) then s else s\<lparr>si_maint := m, si_requests := si_requests s @ [r]\<rparr>
      | _ \<Rightarrow> s)"
| "serve (Request_Writes r row) s = (if r \<in> set (si_requests s) then write_row (By_Request, row) s else s)"
| "serve (Request_Ends r) s =
     (if r \<in> set (si_requests s) \<and> map_of (si_redis s) r = None
      then s\<lparr>si_maint := leave_request (si_maint s), si_requests := remove1 r (si_requests s)\<rparr> else s)"
| "serve (Submit_Job r i j) s =
     (if r \<notin> set (si_requests s) then s
      else case submit_claim i j (si_orch s) of Inl _ \<Rightarrow> s | Inr q \<Rightarrow> s\<lparr>si_orch := q\<rparr>)"
| "serve (Dispatch_Job i time) s = s\<lparr>si_orch := snd (dispatch_claim i time (si_orch s))\<rparr>"
| "serve (Cancel_Job i time) s = s\<lparr>si_orch := snd (cancel_claim i time (si_orch s))\<rparr>"
| "serve (Job_Writes row) s = (if idle (si_orch s) then s else write_row (By_Rollout, row) s)"
| "serve (Job_Ends i) s = s\<lparr>si_orch := snd (finalize_take i (si_orch s))\<rparr>"
| "serve Job_Saved s = s\<lparr>si_orch := saved_one (si_orch s)\<rparr>"
| "serve (Withdraw_Job i) s = s\<lparr>si_orch := snd (remove_job i (si_orch s))\<rparr>"
| "serve (Drain_Jobs time) s = s\<lparr>si_orch := snd (drain_claim time (si_orch s))\<rparr>"
| "serve (Background_Looks b) s =
     (if writes_blocked (si_maint s) then s else s\<lparr>si_background := si_background s @ [b]\<rparr>)"
| "serve (Background_Writes b row) s =
     (if b \<in> set (si_background s)
      then write_row (By_Background, row) (s\<lparr>si_background := remove1 b (si_background s)\<rparr>) else s)"
| "serve (Start_Move r check homeward replace actor now_s) s =
     (if r \<notin> set (si_requests s) then s
      else case start_move check homeward replace actor now_s s of Inl _ \<Rightarrow> s | Inr s1 \<Rightarrow> s1)"
| "serve Cancel_Move s = snd (cancel_move s)"
| "serve (Poll_Move now_s) s = poll_move now_s s"
| "serve (Copy_Data failure moved) s = copy_data failure moved s"
| "serve (Switch_Database failure target) s = switch_database failure target s"
| "serve Close_Move s = close_move s"
| "serve (Record_Failure i row) s = record_failure i row s"
| "serve (Final_Status i) s = final_status i s"
| "serve (Redis_Begin r) s = redis_begin r s"
| "serve (Redis_End r) s = redis_end r s"

section \<open>Quiet while locked\<close>

text \<open>While the move copies and switches it is locked; locked, there is no request that may write and no rollout, and
  the copy is the database.\<close>

fun fits :: "maintenance_state \<Rightarrow> mover \<Rightarrow> bool" where
  "fits Maint_Idle No_Mover = True"
| "fits Maint_Waiting Polling = True"
| "fits Maint_Waiting (Closing x y) = True"
| "fits Maint_Locked Copying_Data = True"
| "fits Maint_Locked (Switching_To rows) = True"
| "fits Maint_Locked (Closing x y) = True"
| "fits _ _ = False"

definition site_ok :: "site \<Rightarrow> bool" where
  "site_ok s \<longleftrightarrow> mt_under_way (si_maint s) = int (length (si_requests s))
     \<and> (mt_state (si_maint s) = Maint_Locked \<longrightarrow> si_requests s = [] \<and> idle (si_orch s))
     \<and> fits (mt_state (si_maint s)) (si_mover s)"

text \<open>The rows of requests and rollouts.\<close>

definition served :: "row_written list \<Rightarrow> row_written list" where
  "served rows = filter (\<lambda>r. fst r \<in> {By_Request, By_Rollout}) rows"

definition rows_ok :: "site \<Rightarrow> bool" where
  "rows_ok s \<longleftrightarrow> served (si_rows s) = served (si_written s)
     \<and> (case si_mover s of Switching_To copied \<Rightarrow> served copied = served (si_rows s) | _ \<Rightarrow> True)"

lemma idle_kept:
  "idle (pause_orch q) = idle q" "idle (resume_orch q) = idle q"
  "idle q \<Longrightarrow> idle (snd (dispatch_claim i t q))" "idle q \<Longrightarrow> idle (snd (cancel_claim i t q))"
  "idle q \<Longrightarrow> idle (snd (finalize_take i q))" "idle q \<Longrightarrow> idle (saved_one q)" "idle q \<Longrightarrow> idle (snd (remove_job i q))"
  "idle q \<Longrightarrow> idle (snd (drain_claim t q))"
  by (auto simp: idle_def pause_orch_def resume_orch_def dispatch_claim_def cancel_claim_def finalize_take_def
      saved_one_def remove_job_def drain_claim_def)

lemma site_step_ok: "site_ok s \<Longrightarrow> site_ok (serve e s)"
proof (cases e)
  case (Request_Comes r)
  assume ok: "site_ok s"
  show ?thesis
  proof (cases "mt_state (si_maint s) = Maint_Locked")
    case True
    then show ?thesis using ok Request_Comes by (simp add: maintenance_gate_def enter_request_def)
  next
    case False
    then show ?thesis using ok Request_Comes by (simp add: site_ok_def maintenance_gate_def enter_request_def)
  qed
next
  case (Request_Ends r)
  assume ok: "site_ok s"
  have "int (length (remove1 r (si_requests s))) = int (length (si_requests s)) - 1" if "r \<in> set (si_requests s)"
    using that length_pos_if_in_set [OF that] by (simp add: length_remove1 of_nat_diff Suc_leI)
  then show ?thesis using ok Request_Ends by (auto simp: site_ok_def leave_request_def)
next
  case (Submit_Job r i j)
  then show "site_ok s \<Longrightarrow> ?thesis" by (auto simp: site_ok_def split: sum.split)
next
  case (Start_Move r check homeward replace actor now_s)
  assume ok: "site_ok s"
  show ?thesis
    using ok Start_Move
    by (cases "move_refusal check replace"; cases "mt_state (si_maint s)")
      (simp_all add: site_ok_def start_move_def begin_maintenance_def Let_def)
next
  case (Copy_Data failure moved)
  assume ok: "site_ok s"
  then show ?thesis
    using Copy_Data by (cases "mt_state (si_maint s)"; cases "si_mover s")
      (simp_all add: site_ok_def copy_data_def move_step_def report_progress_def split: option.split)
next
  case (Switch_Database failure target)
  assume ok: "site_ok s"
  then show ?thesis
    using Switch_Database by (cases "mt_state (si_maint s)"; cases "si_mover s")
      (simp_all add: site_ok_def switch_database_def split: option.split)
next
  case Close_Move
  assume ok: "site_ok s"
  then show ?thesis
    using Close_Move by (cases "si_mover s") (simp_all add: site_ok_def close_move_def end_maintenance_def)
next
  case (Poll_Move now_s)
  assume ok: "site_ok s"
  show ?thesis
  proof (cases "si_mover s = Polling")
    case True
    then have "mt_state (si_maint s) = Maint_Waiting" using ok by (cases "mt_state (si_maint s)") (simp_all add: site_ok_def)
    then show ?thesis
      using ok Poll_Move True
      by (simp add: site_ok_def poll_move_def lock_maintenance_def move_step_def report_progress_def)
  qed (use ok Poll_Move in \<open>simp add: poll_move_def\<close>)
qed (auto simp: site_ok_def write_row_def idle_kept cancel_move_def copy_data_def move_step_def report_progress_def
    switch_database_def close_move_def end_maintenance_def record_failure_def final_status_def redis_begin_def
    redis_end_def split: option.split mover.split)

lemma site_always: "site_ok (fold serve steps start_site)"
proof -
  have "site_ok start_site" by (simp add: site_ok_def start_site_def new_maintenance_def)
  moreover have "site_ok (fold serve steps s)" if "site_ok s" for s
    using that by (induction steps arbitrary: s) (simp_all add: site_step_ok)
  ultimately show ?thesis by blast
qed

section \<open>No row is lost\<close>

lemma served_append [simp]: "served (xs @ ys) = served xs @ served ys"
  by (simp add: served_def)

lemma served_other [simp]: "w \<notin> {By_Request, By_Rollout} \<Longrightarrow> served [(w, n)] = []"
  by (simp add: served_def)

definition switching :: "mover \<Rightarrow> bool" where
  "switching m = (case m of Switching_To rows \<Rightarrow> True | _ \<Rightarrow> False)"

lemma write_row_ok:
  assumes "rows_ok s" "\<not> switching (si_mover s) \<or> w \<notin> {By_Request, By_Rollout}"
  shows "rows_ok (write_row (w, n) s)"
  using assms by (auto simp: rows_ok_def write_row_def switching_def split: mover.splits)

lemma switching_quiet:
  assumes "site_ok s" "switching (si_mover s)"
  shows "si_requests s = []" "idle (si_orch s)"
  using assms by (cases "mt_state (si_maint s)"; cases "si_mover s"; simp add: site_ok_def switching_def)+

lemma rows_kept: "rows_ok s \<Longrightarrow> si_rows s' = si_rows s \<Longrightarrow> si_written s' = si_written s
    \<Longrightarrow> si_mover s' = si_mover s \<or> \<not> switching (si_mover s') \<Longrightarrow> rows_ok s'"
  by (auto simp: rows_ok_def switching_def split: mover.splits)

lemma rows_step: "site_ok s \<Longrightarrow> rows_ok s \<Longrightarrow> rows_ok (serve e s)"
proof (cases e)
  case (Request_Comes r)
  then show "rows_ok s \<Longrightarrow> ?thesis"
    by (cases "mt_state (si_maint s) = Maint_Locked")
      (auto simp: maintenance_gate_def enter_request_def intro: rows_kept)
next
  case (Request_Writes r n)
  assume "site_ok s" "rows_ok s"
  then show ?thesis using Request_Writes switching_quiet(1) [of s] by (auto intro!: write_row_ok)
next
  case (Job_Writes n)
  assume "site_ok s" "rows_ok s"
  then show ?thesis using Job_Writes switching_quiet(2) [of s] by (auto intro!: write_row_ok)
next
  case (Background_Writes b n)
  assume ok: "rows_ok s"
  have "rows_ok (s\<lparr>si_background := remove1 b (si_background s)\<rparr>)" by (rule rows_kept [OF ok]) simp_all
  then show ?thesis using Background_Writes ok by (auto intro!: write_row_ok)
next
  case (Submit_Job r i j)
  then show "rows_ok s \<Longrightarrow> ?thesis" by (auto split: sum.split intro: rows_kept)
next
  case (Start_Move r check homeward replace actor now_s)
  then show "rows_ok s \<Longrightarrow> ?thesis"
    by (cases "move_refusal check replace"; cases "mt_state (si_maint s)")
      (auto simp: start_move_def begin_maintenance_def Let_def switching_def intro: rows_kept)
next
  case (Poll_Move now_s)
  assume ok: "rows_ok s"
  have "si_rows (poll_move now_s s) = si_rows s" "si_written (poll_move now_s s) = si_written s"
      "si_mover (poll_move now_s s) = si_mover s \<or> \<not> switching (si_mover (poll_move now_s s))"
    by (auto simp: poll_move_def move_step_def switching_def split: prod.splits bool.splits)
  then show ?thesis using Poll_Move ok by (auto intro: rows_kept)
next
  case (Copy_Data failure moved)
  assume "rows_ok s"
  then show ?thesis
    using Copy_Data by (auto simp: rows_ok_def copy_data_def move_step_def split: option.split)
next
  case (Switch_Database failure target)
  assume "rows_ok s"
  then show ?thesis
    using Switch_Database by (auto simp: rows_ok_def switch_database_def split: option.split mover.split)
next
  case Close_Move
  assume "rows_ok s"
  then show ?thesis
    using Close_Move by (auto simp: rows_ok_def close_move_def end_maintenance_def split: mover.split)
next
  case (Record_Failure i n)
  assume "rows_ok s"
  then show ?thesis using Record_Failure by (auto simp: record_failure_def intro!: write_row_ok)
qed (auto simp: leave_request_def cancel_move_def final_status_def redis_begin_def redis_end_def
    split: option.split intro: rows_kept)

text \<open>C35: While the move has the site locked, no request that may write is being answered and no rollout is queued,
  running or being saved - whatever requests, rollouts, cancels, Redis switches and moves do in whatever order.\<close>

theorem locked_is_quiet:
  "let s = fold serve steps start_site in
     if writes_blocked (si_maint s)
     then si_requests s = [] \<and> mt_under_way (si_maint s) = 0 \<and> q_jobs (si_orch s) = [] \<and> q_saving (si_orch s) = 0
     else mt_under_way (si_maint s) = int (length (si_requests s)) \<and> si_mover s \<noteq> Copying_Data"
proof -
  have "site_ok (fold serve steps start_site)" by (rule site_always)
  then show ?thesis
    by (cases "mt_state (si_maint (fold serve steps start_site))"; cases "si_mover (fold serve steps start_site)")
      (simp_all add: site_ok_def writes_blocked_def idle_def Let_def)
qed

text \<open>C36: A database move loses nothing of the requests and rollouts: the database in use holds every row they wrote, in
  order, before, during and after any number of moves - done, failed or cancelled.\<close>

theorem moves_lose_nothing:
  "served (si_rows (fold serve steps start_site)) = served (si_written (fold serve steps start_site))"
proof -
  have "site_ok (fold serve steps s) \<and> rows_ok (fold serve steps s)" if "site_ok s" "rows_ok s" for s
    using that by (induction steps arbitrary: s) (simp_all add: site_step_ok rows_step)
  moreover have "site_ok start_site" "rows_ok start_site"
    by (simp_all add: site_ok_def rows_ok_def start_site_def new_maintenance_def served_def)
  ultimately show ?thesis by (simp add: rows_ok_def)
qed

section \<open>What escapes\<close>

text \<open>A background thread that looked before the lock and writes after the copy loses its row: nothing waits for it.\<close>

definition fine_target :: target_check where
  "fine_target = \<lparr>tc_same = False, tc_problems = [], tc_netrollout = False\<rparr>"

definition move_steps :: "site_step list" where
  "move_steps = [Request_Comes 1, Start_Move 1 fine_target False False None 0, Request_Ends 1]"

lemma background_row_lost:
  "let s = fold serve (move_steps @ [Background_Looks 7, Poll_Move 1, Copy_Data None 100, Background_Writes 7 42,
      Switch_Database None ''db'']) start_site
   in (By_Background, 42) \<in> set (si_written s) \<and> (By_Background, 42) \<notin> set (si_rows s)"
  by code_simp

text \<open>A move's last thread sets the status after maintenance ended: a new move begun in between is shown as the old
  one ended, and can't be cancelled any more though it waits.\<close>

lemma old_status_on_new_move:
  "let s = fold serve (move_steps @ [Cancel_Move, Request_Comes 3, Poll_Move 1, Close_Move, Request_Ends 3] @ move_steps
      @ [Final_Status 0]) start_site
   in si_mover s = Polling \<and> mv_state (si_status s) = Move_Cancelled \<and> fst (cancel_move s) = False"
  by code_simp

text \<open>A Redis switch begun before a move ends it its pause: while the move waits, new rollouts are accepted.\<close>

lemma redis_switch_unpauses_move:
  "let s = fold serve ([Request_Comes 5, Redis_Begin 5] @ move_steps @ [Redis_End 5]) start_site
   in mt_state (si_maint s) = Maint_Waiting \<and> q_paused (si_orch s) = False"
  by code_simp

end
