(* ===== verification/Discoveries.thy ===== *)
theory Discoveries
  imports Scan_Ends Maintenance Inventory_View
begin

text \<open>
  \<open>src/webapp/discoveries.py\<close>: the server's one discovery - started, looked at, cancelled, its audit row -, over the
  crews of \<open>Scan\<close>; and \<open>src/webapp/device_holds.py\<close>: which inventory rows are in a rollout, and the refusals' words.
  A discovery has its number (the object it is in Python). The owners' names and the clock's text are parameters.
\<close>

section \<open>The server's one discovery\<close>

definition keep_for :: int where "keep_for = 3600"

record starter =
  sr_id :: string
  sr_name :: string
  sr_ip :: "string option"

record discovery =
  dv_no :: nat
  dv_crew :: crew
  dv_entries :: "string list"
  dv_starter :: starter
  dv_profile :: string
  dv_profile_label :: string
  dv_sources :: "string list"
  dv_started :: int

record discovery_summary =
  du_phase :: phase
  du_by :: string
  du_started :: int
  du_ended :: "int option"
  du_entries :: "string list"
  du_port :: nat
  du_profile :: string
  du_cancelled_by :: "string option"
  du_counts :: scan_counts

definition discovery_summary_of :: "discovery \<Rightarrow> discovery_summary" where
  "discovery_summary_of d = (let s = cw_scan (dv_crew d) in
     \<lparr>du_phase = sn_phase s, du_by = sr_name (dv_starter d), du_started = dv_started d, du_ended = sn_ended s,
      du_entries = dv_entries d, du_port = sn_port s, du_profile = dv_profile_label d,
      du_cancelled_by = sn_cancelled_by s, du_counts = scan_counts_of s\<rparr>)"

text \<open>The skip rule: a known endpoint, else one a rollout holds; \<open>None\<close> is the exception of a missing holder.\<close>

definition skip_rule ::
  "(string \<times> string) list \<Rightarrow> orch \<Rightarrow> (rollout_row \<Rightarrow> string) \<Rightarrow> string \<Rightarrow> (reason \<times> string) option option" where
  "skip_rule known q owner target =
     (case map_of known target of
        Some label \<Rightarrow> Some (Some (In_Inventory, label))
      | None \<Rightarrow>
          (case conflict_rows q [target] of
             None \<Rightarrow> None
           | Some rows \<Rightarrow> Some (map_option (\<lambda>row. (In_Rollout, owner row @ squote # ''s rollout'')) (map_of rows target))))"

definition discovery_refusal :: "orch \<Rightarrow> maintenance \<Rightarrow> string option" where
  "discovery_refusal q m =
     (if q_draining q then Some ''NetRollout is stopping or restarting - start the discovery once it's back.''
      else if maint_active m \<or> q_paused q
        then Some ''NetRollout is moving to another database - start the discovery after the move.''
      else None)"

definition stop_now :: "orch \<Rightarrow> maintenance \<Rightarrow> string option" where
  "stop_now q m =
     (if q_draining q then Some ''restart'' else if maint_active m \<or> q_paused q then Some ''maintenance'' else None)"

text \<open>\<open>start\<close>: refused with its HTTP status while NetRollout stops or moves, or another discovery runs; else it takes the
  last one's place. \<open>hhmm\<close> is a time's text.\<close>

definition running_message :: "(int \<Rightarrow> string) \<Rightarrow> discovery \<Rightarrow> string" where
  "running_message hhmm d = sr_name (dv_starter d) @ squote # ''s discovery is running (started '' @ hhmm (dv_started d)
     @ '') - wait for it to end, or cancel it.''"

record discovery_request =
  dr_addresses :: "string list"
  dr_entries :: "string list"
  dr_port :: nat
  dr_login :: login
  dr_starter :: starter
  dr_profile :: string
  dr_profile_label :: string
  dr_sources :: "string list"

definition new_discovery :: "nat \<Rightarrow> discovery_request \<Rightarrow> int \<Rightarrow> discovery" where
  "new_discovery no req now_s =
     \<lparr>dv_no = no, dv_crew = start_crew (new_scan (dr_addresses req) (dr_port req) (dr_login req)),
      dv_entries = dr_entries req, dv_starter = dr_starter req, dv_profile = dr_profile req,
      dv_profile_label = dr_profile_label req, dv_sources = dr_sources req, dv_started = now_s\<rparr>"

definition start_discovery ::
  "(int \<Rightarrow> string) \<Rightarrow> orch \<Rightarrow> maintenance \<Rightarrow> nat \<Rightarrow> discovery_request \<Rightarrow> int \<Rightarrow> discovery option
     \<Rightarrow> (string \<times> nat) + discovery" where
  "start_discovery hhmm q m no req now_s current =
     (case discovery_refusal q m of
        Some why \<Rightarrow> Inl (why, 503)
      | None \<Rightarrow>
          (case current of
             Some d \<Rightarrow>
               (if sn_phase (cw_scan (dv_crew d)) \<notin> set ended_phases then Inl (running_message hhmm d, 409)
                else Inr (new_discovery no req now_s))
           | None \<Rightarrow> Inr (new_discovery no req now_s)))"

text \<open>\<open>current\<close>: the last one is kept for an hour after its end. \<open>cancel\<close> goes through it.\<close>

definition current_discovery :: "int \<Rightarrow> discovery option \<Rightarrow> discovery option" where
  "current_discovery now_s current =
     (case current of
        None \<Rightarrow> None
      | Some d \<Rightarrow>
          (case sn_ended (cw_scan (dv_crew d)) of
             None \<Rightarrow> Some d
           | Some at \<Rightarrow> if keep_for < now_s - at then None else Some d))"

definition with_crew :: "(crew \<Rightarrow> crew) \<Rightarrow> discovery \<Rightarrow> discovery" where
  "with_crew f d = d\<lparr>dv_crew := f (dv_crew d)\<rparr>"

definition cancel_discovery :: "string \<Rightarrow> int \<Rightarrow> discovery option \<Rightarrow> bool \<times> discovery option" where
  "cancel_discovery who now_s current =
     (case current_discovery now_s current of
        None \<Rightarrow> (False, None)
      | Some d \<Rightarrow>
          (fst (cancel_scan who (cw_scan (dv_crew d))),
           Some (with_crew (on_scan (\<lambda>s. snd (cancel_scan who s))) d)))"

text \<open>\<open>_ended\<close>: what the audit is given, unless another discovery took the place or writes are blocked.\<close>

record discovery_audit =
  da_label :: string
  da_entries :: "string list"
  da_addresses :: nat
  da_port :: nat
  da_profile :: string
  da_counts :: scan_counts
  da_finished :: bool
  da_cancelled_by :: "string option"
  da_continues :: nat
  da_sources :: "string list"

definition ended_audit :: "maintenance \<Rightarrow> nat \<Rightarrow> scan \<Rightarrow> discovery option \<Rightarrow> discovery_audit option" where
  "ended_audit m no s current =
     (case current of
        None \<Rightarrow> None
      | Some d \<Rightarrow>
          (if dv_no d \<noteq> no \<or> writes_blocked m then None
           else Some \<lparr>da_label = take 255 (join '', '' (dv_entries d)), da_entries = dv_entries d,
             da_addresses = length (sn_addresses s), da_port = sn_port s, da_profile = dv_profile_label d,
             da_counts = scan_counts_of s, da_finished = (sn_phase s \<noteq> Phase_Cancelled),
             da_cancelled_by = sn_cancelled_by s, da_continues = sn_continues s, da_sources = dv_sources d\<rparr>))"

text \<open>What happens to the server's discovery: requests - with the orchestrator and the maintenance they find -, and its
  crew's steps.\<close>

datatype discovery_event =
    Start_Discovery orch maintenance nat discovery_request int | Look_Discovery int | Cancel_Discovery string int
  | Crew_Goes scan_step

fun discovery_step ::
  "(string \<Rightarrow> string) \<Rightarrow> (int \<Rightarrow> string) \<Rightarrow> discovery_event \<Rightarrow> discovery option \<Rightarrow> discovery option" where
  "discovery_step fp hhmm (Start_Discovery q m no req now_s) current =
     (case start_discovery hhmm q m no req now_s current of Inl _ \<Rightarrow> current | Inr d \<Rightarrow> Some d)"
| "discovery_step fp hhmm (Look_Discovery now_s) current = current_discovery now_s current"
| "discovery_step fp hhmm (Cancel_Discovery who now_s) current = snd (cancel_discovery who now_s current)"
| "discovery_step fp hhmm (Crew_Goes e) current = map_option (with_crew (crew_step fp e)) current"

section \<open>One at a time\<close>

definition current_ok :: "discovery option \<Rightarrow> bool" where
  "current_ok current = pred_option (\<lambda>d. counts_ok (dv_crew d)) current"

lemma new_ok: "counts_ok (start_crew (new_scan addresses port lgn))"
  using counts_always [of _ addresses port lgn "[]"] by (simp add: scan_after_def)

lemma discovery_step_ok: "current_ok current \<Longrightarrow> current_ok (discovery_step fp hhmm e current)"
proof (cases e)
  case (Start_Discovery q m no req now_s)
  then show "current_ok current \<Longrightarrow> ?thesis"
    by (auto simp: current_ok_def start_discovery_def new_discovery_def new_ok split: option.splits)
next
  case (Look_Discovery now_s)
  then show "current_ok current \<Longrightarrow> ?thesis"
    by (auto simp: current_ok_def current_discovery_def split: option.splits)
next
  case (Cancel_Discovery who now_s)
  then show "current_ok current \<Longrightarrow> ?thesis"
    by (auto simp: current_ok_def current_discovery_def cancel_discovery_def with_crew_def counts_stop split: option.splits)
next
  case (Crew_Goes e)
  then show "current_ok current \<Longrightarrow> ?thesis" by (cases current) (simp_all add: current_ok_def with_crew_def counts_step)
qed

lemma current_always: "current_ok (fold (discovery_step fp hhmm) events None)"
proof -
  have "current_ok (fold (discovery_step fp hhmm) events c)" if "current_ok c" for c
    using that by (induction events arbitrary: c) (simp_all add: discovery_step_ok)
  then show ?thesis by (simp add: current_ok_def)
qed

text \<open>C34: One discovery at a time: while one isn't over - its threads run or wait, its login is kept -, whatever
  happens next leaves it the server's discovery, and a start is refused; a discovery is dropped only more than an
  hour after its end, or for a new one.\<close>

theorem one_discovery_at_a_time:
  "case fold (discovery_step fp hhmm) events None of
     None \<Rightarrow> True
   | Some d \<Rightarrow>
       (let next_one = discovery_step fp hhmm e (Some d)
        in if cw_main (dv_crew d) = Over
           then (case next_one of
                   None \<Rightarrow> (case e of
                       Look_Discovery now_s \<Rightarrow> keep_for < now_s - the (sn_ended (cw_scan (dv_crew d)))
                     | Cancel_Discovery who now_s \<Rightarrow> keep_for < now_s - the (sn_ended (cw_scan (dv_crew d)))
                     | _ \<Rightarrow> False)
                 | Some d' \<Rightarrow> True)
           else (\<exists>d'. next_one = Some d' \<and> dv_no d' = dv_no d \<and> dv_starter d' = dv_starter d)
             \<and> (case e of Start_Discovery q m no req now_s \<Rightarrow> isl (start_discovery hhmm q m no req now_s (Some d)) | _ \<Rightarrow> True))"
proof (cases "fold (discovery_step fp hhmm) events None")
  case (Some d)
  have ok: "counts_ok (dv_crew d)" using current_always [of fp hhmm events] Some by (simp add: current_ok_def)
  show ?thesis
  proof (cases "cw_main (dv_crew d) = Over")
    case True
    then obtain at where "sn_ended (cw_scan (dv_crew d)) = Some at" using ok by (auto simp: counts_ok_def)
    then show ?thesis
      using Some True
      by (cases e) (auto simp: current_discovery_def cancel_discovery_def Let_def split: option.split sum.split)
  next
    case False
    then have "sn_ended (cw_scan (dv_crew d)) = None" "sn_phase (cw_scan (dv_crew d)) \<notin> set ended_phases"
      using ok by (auto simp: counts_ok_def ended_phases_def)
    then show ?thesis
      using Some False
      by (cases e) (auto simp: start_discovery_def current_discovery_def cancel_discovery_def with_crew_def
          split: option.split)
  qed
qed simp

text \<open>A sign-in that asks while NetRollout stops or moves doesn't start: its address is a line, not asked.\<close>

lemma no_start_when_stopping:
  assumes "worker_at c w = First a b" "stop_now q m = Some why"
  shows "worker_at (try_turn w t (ask_stop w (stop_now q m) c)) w \<in> {Free, Trying a b}"
    and "cw_starts (try_turn w t (ask_stop w (stop_now q m) c)) = cw_starts c"
proof -
  have why: "why \<noteq> []" using assms(2) by (auto simp: stop_now_def split: if_splits)
  define c' where "c' = ask_stop w (stop_now q m) c"
  have c': "c' = becomes w (Trying a b) (on_scan (\<lambda>s. snd (cancel_scan why s)) c)"
    using assms why by (simp add: c'_def ask_stop_def)
  have w: "worker_at c' w = Trying a b" unfolding c' by (subst worker_become [of c]) (simp_all add: assms(1))
  have "sn_phase (cw_scan c') \<noteq> Phase_Running"
    unfolding c' by (auto simp: cancel_scan_def set_phase_def add_event_def)
  then have "try_turn w t c' = c' \<or> (\<exists>s. try_turn w t c' = becomes w Free (on_scan s (c'\<lparr>cw_turn := None\<rparr>)))"
    using w by (cases rule: try_cases [of "cw_scan c'" t]) (auto simp: try_turn_def)
  moreover have "worker_at (becomes w Free (on_scan s (c'\<lparr>cw_turn := None\<rparr>))) w = Free" for s
    by (subst worker_become [of c']) (simp_all add: w)
  ultimately show "worker_at (try_turn w t (ask_stop w (stop_now q m) c)) w \<in> {Free, Trying a b}"
    "cw_starts (try_turn w t (ask_stop w (stop_now q m) c)) = cw_starts c"
    unfolding c'_def [symmetric] using w by (auto simp: c')
qed

end
