(* ===== verification/Device_Holds.thy ===== *)
theory Device_Holds
  imports Inventory_View Orchestrator
begin

text \<open>
  \<open>src/webapp/device_holds.py\<close>: which inventory rows are in a rollout now - a row is held when its box is, as the
  orchestrator counts boxes -, the dashboard's card, and the words of a refused launch. Usernames are a parameter.
\<close>

section \<open>What the pages show\<close>

definition row_target :: "inventory_device \<Rightarrow> string" where
  "row_target d =
     endpoint (if is_ip (iv_ip d) then iv_ip d
               else (case iv_resolved d of None \<Rightarrow> iv_ip d | Some a \<Rightarrow> if a = [] then iv_ip d else a))
       (show_nat (iv_port d))"

text \<open>\<open>_named\<close>: a row per job, its owner's name.\<close>

definition named_jobs :: "(rollout_row list \<Rightarrow> (rollout_row \<times> string) list) \<Rightarrow> rollout_row list \<Rightarrow> (string \<times> string) list" where
  "named_jobs named_by rows =
     map (\<lambda>(r, n). (rr_job r, n)) (named_by (map snd (fold (\<lambda>r. AList.update (rr_job r) r) rows [])))"

definition name_of :: "(string \<times> string) list \<Rightarrow> rollout_row \<Rightarrow> string" where
  "name_of user_names r = (case map_of user_names (rr_job r) of None \<Rightarrow> ''?'' | Some n \<Rightarrow> n)"

definition owner_words :: "string \<Rightarrow> (string \<times> string) list \<Rightarrow> rollout_row \<Rightarrow> string" where
  "owner_words me user_names r = (if rr_user r = me then ''your'' else name_of user_names r @ squote # ''s'')"

definition since_words :: "rollout_row \<Rightarrow> string" where
  "since_words r = (if rr_state r = ''running'' then ''running since '' @ row_clock r else rr_state r)"

record hold =
  ho_user :: string
  ho_mine :: bool
  ho_state :: string
  ho_since :: string
  ho_text :: string
  ho_job :: "string option"

definition hold_of :: "string \<Rightarrow> bool \<Rightarrow> (string \<times> string) list \<Rightarrow> rollout_row \<Rightarrow> hold" where
  "hold_of me admin user_names r =
     \<lparr>ho_user = name_of user_names r, ho_mine = (rr_user r = me), ho_state = rr_state r,
      ho_since = (if (case rr_started r of None \<Rightarrow> False | Some t \<Rightarrow> t \<noteq> []) then row_clock r else []),
      ho_text = ''In '' @ owner_words me user_names r @ '' rollout, '' @ since_words r @ '' - free when it ends.'',
      ho_job = (if rr_user r = me \<or> admin then Some (rr_job r) else None)\<rparr>"

text \<open>\<open>holds\<close>: by device id, the rows whose box a rollout holds (\<open>busy\<close>: target to the holding job's row).\<close>

definition held_rows :: "(string \<times> rollout_row) list \<Rightarrow> inventory_device list \<Rightarrow> (string \<times> rollout_row) list" where
  "held_rows busy rows =
     List.map_filter (\<lambda>d. map_option (Pair (iv_id d)) (map_of busy (row_target d))) rows"

definition holds ::
  "(rollout_row list \<Rightarrow> (rollout_row \<times> string) list) \<Rightarrow> string \<Rightarrow> bool \<Rightarrow> (string \<times> rollout_row) list
     \<Rightarrow> inventory_device list \<Rightarrow> (string \<times> hold) list" where
  "holds named_by me admin busy rows =
     (let held = held_rows busy rows
      in map (\<lambda>(i, r). (i, hold_of me admin (named_jobs named_by (map snd held)) r)) held)"

text \<open>\<open>in_rollouts\<close>: the dashboard's card.\<close>

record hold_line =
  hl_hold :: hold
  hl_label :: string
  hl_target :: string

fun hold_lines :: "(string \<times> hold) list \<Rightarrow> inventory_device list \<Rightarrow> hold_line list \<Rightarrow> hold_line list" where
  "hold_lines held [] ls = ls"
| "hold_lines held (d # ds) ls =
     hold_lines held ds
       (case map_of held (iv_id d) of
          None \<Rightarrow> ls
        | Some h \<Rightarrow>
            (if row_target d \<in> hl_target ` set ls then ls
             else ls @ [\<lparr>hl_hold = h, hl_label = (if iv_label d = [] then iv_ip d else iv_label d), hl_target = row_target d\<rparr>]))"

definition line_order :: "hold_line \<Rightarrow> bool \<times> string" where
  "line_order l = (ho_state (hl_hold l) \<noteq> ''running'', lower (hl_label l))"

definition in_rollouts ::
  "(rollout_row list \<Rightarrow> (rollout_row \<times> string) list) \<Rightarrow> string \<Rightarrow> bool \<Rightarrow> (string \<times> rollout_row) list
     \<Rightarrow> inventory_device list \<Rightarrow> hold_line list" where
  "in_rollouts named_by me admin busy rows =
     sort_key line_order (hold_lines (holds named_by me admin busy rows) rows [])"

text \<open>\<open>busy_message\<close>.\<close>

definition busy_message ::
  "(rollout_row list \<Rightarrow> (rollout_row \<times> string) list) \<Rightarrow> string \<Rightarrow> (string \<times> rollout_row) list \<Rightarrow> device list
     \<Rightarrow> (string \<times> string) list \<Rightarrow> string" where
  "busy_message named_by me blocked devices addresses =
     (let labels = fold (\<lambda>d. dict_append (device_target addresses d) (if d_label d = [] then d_ip d else d_label d)) devices [];
          user_names = named_jobs named_by (map snd blocked);
          label_words = (\<lambda>t alone. case map_of labels t of None \<Rightarrow> alone | Some ls \<Rightarrow> join '' / '' ls);
          parts = map (\<lambda>(t, r). label_words t t @ '' ('' @ t @ '') is in '' @ owner_words me user_names r @ '' rollout, ''
                    @ since_words r) blocked;
          one = (length parts = 1)
      in ''Rollout blocked: '' @ join ''; '' parts @ ''. A device takes one rollout at a time - try again when ''
         @ (if one then ''that rollout ends'' else ''those rollouts end'') @ '', or leave ''
         @ (if one then label_words (fst (hd blocked)) ''it'' else ''those devices'') @ '' out.'')"

section \<open>The card\<close>

lemma hold_lines_targets:
  assumes "distinct (map hl_target ls)"
  shows "distinct (map hl_target (hold_lines held ds ls))"
    "hl_target ` set (hold_lines held ds ls)
       = hl_target ` set ls \<union> row_target ` {d \<in> set ds. map_of held (iv_id d) \<noteq> None}"
  using assms
proof (induction ds arbitrary: ls)
  case (Cons d ds)
  { case 1
    then show ?case using Cons.IH by (auto split: option.split) }
  { case 2
    then show ?case
      by (cases "map_of held (iv_id d)"; cases "row_target d \<in> hl_target ` set ls") (auto simp: Cons.IH) }
qed simp_all

lemma held_keys: "map_of (holds named_by me admin busy rows) i \<noteq> None
    \<longleftrightarrow> (\<exists>d\<in>set rows. iv_id d = i \<and> map_of busy (row_target d) \<noteq> None)"
proof -
  have "map fst (held_rows busy rows) = map iv_id (filter (\<lambda>d. map_of busy (row_target d) \<noteq> None) rows)"
    by (induction rows) (auto simp: held_rows_def List.map_filter_simps split: option.split)
  moreover have "map fst (holds named_by me admin busy rows) = map fst (held_rows busy rows)"
    by (auto simp: holds_def Let_def)
  ultimately have "fst ` set (holds named_by me admin busy rows)
      = iv_id ` {d \<in> set rows. map_of busy (row_target d) \<noteq> None}"
    by (metis list.set_map set_filter)
  then have "i \<in> fst ` set (holds named_by me admin busy rows)
      \<longleftrightarrow> (\<exists>d\<in>set rows. iv_id d = i \<and> map_of busy (row_target d) \<noteq> None)" by auto
  then show ?thesis by (simp add: map_of_eq_None_iff [of "holds named_by me admin busy rows"])
qed

text \<open>With the rows' ids distinct, the card names each box a rollout holds exactly once however many of the rows
  are it, no other box, the running ones first.\<close>

theorem card_names_held_boxes:
  "if distinct (map iv_id rows)
   then (let card = in_rollouts named_by me admin busy rows
         in distinct (map hl_target card)
           \<and> set (map hl_target card) = {t \<in> set (map row_target rows). map_of busy t \<noteq> None}
           \<and> sorted (map (\<lambda>l. ho_state (hl_hold l) \<noteq> ''running'') card))
   else True"
proof -
  define ls where "ls = hold_lines (holds named_by me admin busy rows) rows []"
  have card: "in_rollouts named_by me admin busy rows = sort_key line_order ls" by (simp add: in_rollouts_def ls_def)
  have "distinct (map hl_target ls)" unfolding ls_def by (rule hold_lines_targets) simp
  then have "distinct (map hl_target (sort_key line_order ls))" by (simp add: distinct_map)
  moreover have "set (map hl_target ls) = {t \<in> set (map row_target rows). map_of busy t \<noteq> None}"
    if "distinct (map iv_id rows)"
  proof -
    have same: "d = d'" if "d \<in> set rows" "d' \<in> set rows" "iv_id d = iv_id d'" for d d'
      using \<open>distinct (map iv_id rows)\<close> that by (auto simp: distinct_map inj_on_def)
    have "hl_target ` set ls = row_target ` {d \<in> set rows. map_of (holds named_by me admin busy rows) (iv_id d) \<noteq> None}"
      unfolding ls_def by (subst hold_lines_targets(2)) simp_all
    also have "\<dots> = row_target ` {d \<in> set rows. map_of busy (row_target d) \<noteq> None}"
      unfolding held_keys using same by (metis (lifting))
    finally show ?thesis by auto
  qed
  moreover have "sorted (map (\<lambda>l. ho_state (hl_hold l) \<noteq> ''running'') (sort_key line_order ls))"
  proof -
    have "sorted (map line_order (sort_key line_order ls))" by simp
    then show ?thesis
      unfolding sorted_map by (rule sorted_wrt_mono_rel [rotated]) (auto simp: line_order_def less_eq_prod_def)
  qed
  ultimately show ?thesis by (simp add: card Let_def)
qed

text \<open>A row saved by a bare name without an address: the launch counts it with its DNS suffix, the pages as written -
  they don't show it as held.\<close>

lemma bare_name_not_shown:
  "row_target \<lparr>iv_id = ''1'', iv_ip = ''core'', iv_resolved = None, iv_type = ''cisco_ios'', iv_port = 22, iv_label = [],
     iv_values = [], iv_global = True, iv_user = None\<rparr> = ''core:22''
   \<and> device_target [] \<lparr>d_ip = ''core'', d_label = [], d_type = ''cisco_ios'', d_port = 22, d_dns_suffix = ''lab'',
     d_mappings = m\<rparr> = ''core.lab:22''"
proof -
  have "qualify ''core'' ''lab'' = ''core.lab''" "is_ip ''core'' = False" "is_ip ''core.lab'' = False"
    "endpoint ''core'' (show_nat 22) = ''core:22''" "endpoint ''core.lab'' (show_nat 22) = ''core.lab:22''" by code_simp+
  then show ?thesis by (simp add: row_target_def device_target_def device_host_def)
qed

end
