(* ===== verification/Env_Files.thy ===== *)
theory Env_Files
  imports Settings Text_Facts
begin

text \<open>
  The two files of keys and values NetRollout shares with the components outside it: \<open>config/nginx/site.env\<close>
  (\<open>src/access/site_env.py\<close>) and the installation's \<open>.env\<close> (\<open>src/setup/env.py\<close>, its reading and editing). A
  file is its text, or \<open>None\<close> when it isn't there; a dict is an association list.
\<close>

section \<open>site.env\<close>

definition site_order :: "string list" where
  "site_order = [''NETROLLOUT_HOSTNAME'', ''NETROLLOUT_HTTPS_PORT'', ''NETROLLOUT_PORT_REQUEST'',
     ''NETROLLOUT_PORT_REQUEST_ID'', ''NETROLLOUT_PORT_REQUESTED_AT'', ''NETROLLOUT_PORT_CONFIRMED'']"

definition equals_sign :: char where "equals_sign = CHR ''=''"

definition line_pair :: "string \<Rightarrow> (string \<times> string) option" where
  "line_pair l = (case partition_char equals_sign l of (k, sep, v) \<Rightarrow>
     if sep \<and> strip k \<noteq> [] then Some (strip k, strip v) else None)"

definition add_pair :: "string \<Rightarrow> (string \<times> string) list \<Rightarrow> (string \<times> string) list" where
  "add_pair l d = (case line_pair l of None \<Rightarrow> d | Some (k, v) \<Rightarrow> AList.update k v d)"

definition site_read :: "string option \<Rightarrow> (string \<times> string) list" where
  "site_read file = (case file of None \<Rightarrow> [] | Some t \<Rightarrow> fold add_pair (splitlines t) [])"

definition change_key :: "string \<times> string option \<Rightarrow> (string \<times> string) list \<Rightarrow> (string \<times> string) list" where
  "change_key kv d = (case kv of (k, None) \<Rightarrow> AList.delete k d | (k, Some v) \<Rightarrow> AList.update k v d)"

definition site_keys :: "(string \<times> string) list \<Rightarrow> string list" where
  "site_keys d = filter (\<lambda>k. k \<in> fst ` set d) site_order @ sort (filter (\<lambda>k. k \<notin> set site_order) (map fst d))"

definition env_line :: "string \<Rightarrow> string \<Rightarrow> string" where
  "env_line k v = k @ equals_sign # v"

definition site_text :: "(string \<times> string) list \<Rightarrow> string" where
  "site_text d = concat (map (\<lambda>k. env_line k (the (map_of d k)) @ [newline]) (site_keys d))"

definition same_dict :: "(string \<times> string) list \<Rightarrow> (string \<times> string) list \<Rightarrow> bool" where
  "same_dict a b \<longleftrightarrow> length a = length b \<and> list_all (\<lambda>(k, v). map_of b k = Some v) a"

text \<open>\<open>_update\<close>: an unchanged file isn't rewritten.\<close>

definition site_update :: "(string \<times> string option) list \<Rightarrow> string option \<Rightarrow> bool \<times> string option" where
  "site_update new_values file =
     (let current = site_read file; new = fold change_key new_values current
      in if same_dict new current \<and> file \<noteq> None then (False, file) else (True, Some (site_text new)))"

text \<open>\<open>put_back\<close>: nothing while the guard's key was changed since; else each key that still holds what was written.\<close>

definition put_back ::
  "(string \<times> string) list \<Rightarrow> (string \<times> string) list \<Rightarrow> bool \<Rightarrow> string \<Rightarrow> string option \<Rightarrow> string list \<times> string option" where
  "put_back previous written existed guard_key file =
     (let current = site_read file
      in if map_of current guard_key \<noteq> map_of written guard_key then (map fst written, file)
         else (let left = map fst (filter (\<lambda>(k, v). map_of current k \<noteq> Some v) written);
                   file1 = snd (site_update (map (\<lambda>k. (k, map_of previous k)) (filter (\<lambda>k. k \<notin> set left) (map fst written))) file)
               in (left, if \<not> existed \<and> site_read file1 = [] then None else file1)))"

section \<open>.env\<close>

definition script_keys :: "string list" where
  "script_keys = [''COMPOSE_FILE'', ''NETROLLOUT_SERVER_IPS'', ''HTTPS_PORT'', ''COMPOSE_PROFILES'', ''TZ'']"

definition env_pair :: "string \<Rightarrow> (string \<times> string) option" where
  "env_pair l = (case partition_char equals_sign l of (k, sep, v) \<Rightarrow>
     if sep \<and> k \<noteq> [] \<and> hd k \<noteq> CHR ''#'' then Some (strip k, strip v) else None)"

definition env_read :: "string \<Rightarrow> (string \<times> string) list" where
  "env_read t = fold (\<lambda>l d. case env_pair l of None \<Rightarrow> d | Some (k, v) \<Rightarrow> AList.update k v d) (splitlines t) []"

fun env_lines :: "string list \<Rightarrow> (string \<times> string) list \<Rightarrow> string list" where
  "env_lines [] pending = map (\<lambda>(k, v). env_line k v) pending"
| "env_lines (l # ls) pending =
     (let k = strip (fst (partition_char equals_sign l))
      in case map_of pending k of
           None \<Rightarrow> l # env_lines ls pending
         | Some v \<Rightarrow>
             (if take 1 (lstrip_p is_space l) = ''#'' then l # env_lines ls pending
              else env_line k v # env_lines ls (AList.delete k pending)))"

definition env_write :: "(string \<times> string) list \<Rightarrow> string \<Rightarrow> bool \<times> string" where
  "env_write updates t =
     (let text = join [newline] (env_lines (splitlines t) updates) @ [newline] in (text \<noteq> t, text))"

definition env_set :: "(string \<times> string) list \<Rightarrow> string \<Rightarrow> string + (bool \<times> string)" where
  "env_set updates t =
     (let bad = filter (\<lambda>k. k \<notin> set script_keys) (map fst updates)
      in if bad \<noteq> [] then Inl (''not a script-owned .env key: '' @ join '', '' bad) else Inr (env_write updates t))"

text \<open>Read by their keys.\<close>

definition published_port :: "(string \<Rightarrow> string option) \<Rightarrow> int" where
  "published_port env =
     (case read_int (case env ''HTTPS_PORT'' of None \<Rightarrow> ''443'' | Some t \<Rightarrow> t) of None \<Rightarrow> 443 | Some p \<Rightarrow> p)"

definition compose_files :: "(string \<Rightarrow> string option) \<Rightarrow> string list" where
  "compose_files env =
     filter (\<lambda>f. f \<noteq> [])
       (split_char (CHR '','') (case env ''COMPOSE_FILE'' of None \<Rightarrow> ''compose.yaml'' | Some t \<Rightarrow> t))"

section \<open>Lines\<close>

definition no_breaks :: "string \<Rightarrow> bool" where
  "no_breaks s \<longleftrightarrow> list_all (\<lambda>c. \<not> is_break c) s"

lemma newline_breaks [simp]: "is_break newline"
  by (simp add: is_break_def newline_def code_point_def)

lemma splitlines_first: "no_breaks l \<Longrightarrow> splitlines (l @ newline # rest) = l # splitlines rest"
proof -
  assume l: "no_breaks l"
  then have "dropWhile (\<lambda>x. \<not> is_break x) (l @ newline # rest) = newline # rest"
    "takeWhile (\<lambda>x. \<not> is_break x) (l @ newline # rest) = l"
    by (induction l) (simp_all add: no_breaks_def)
  moreover obtain c cs where "l @ newline # rest = c # cs" by (cases l) auto
  moreover have "newline \<noteq> CHR 0x0D" by (simp add: newline_def)
  ultimately show ?thesis by simp
qed

lemma splitlines_lines: "list_all no_breaks ls \<Longrightarrow> splitlines (concat (map (\<lambda>l. l @ [newline]) ls)) = ls"
  by (induction ls) (simp_all add: splitlines_first)

lemma splitlines_no_breaks: "list_all no_breaks (splitlines s)"
proof (induction s rule: splitlines.induct)
  case (2 c cs)
  have taken: "no_breaks (takeWhile (\<lambda>x. \<not> is_break x) (c # cs))"
    unfolding no_breaks_def list_all_iff using set_takeWhileD by metis
  show ?case
  proof (cases "dropWhile (\<lambda>x. \<not> is_break x) (c # cs)")
    case Nil
    then have "takeWhile (\<lambda>x. \<not> is_break x) (c # cs) = c # cs" by (metis append_Nil2 takeWhile_dropWhile_id)
    then show ?thesis using Nil taken by simp
  next
    case (Cons b rest)
    then show ?thesis using 2 taken by simp
  qed
qed simp

lemma strip_set: "set (strip s) \<subseteq> set s"
  unfolding strip_def strip_p_def rstrip_p_def lstrip_p_def
  by (metis set_dropWhileD set_rev subsetI)

lemma strip_no_breaks: "no_breaks s \<Longrightarrow> no_breaks (strip s)"
  using strip_set unfolding no_breaks_def list_all_iff by blast

text \<open>A key and a value that are read as written.\<close>

definition clean_key :: "string \<Rightarrow> bool" where
  "clean_key k \<longleftrightarrow> k \<noteq> [] \<and> strip k = k \<and> equals_sign \<notin> set k \<and> no_breaks k"

definition clean_value :: "string \<Rightarrow> bool" where
  "clean_value v \<longleftrightarrow> strip v = v \<and> no_breaks v"

lemma partition_line: "c \<notin> set k \<Longrightarrow> partition_char c (k @ c # v) = (k, True, v)"
proof -
  assume "c \<notin> set k"
  then have "dropWhile (\<lambda>x. x \<noteq> c) (k @ c # v) = c # v" "takeWhile (\<lambda>x. x \<noteq> c) (k @ c # v) = k"
    by (induction k) auto
  then show ?thesis by (simp add: partition_char_def)
qed

lemma pair_of_line: "clean_key k \<Longrightarrow> clean_value v \<Longrightarrow> line_pair (env_line k v) = Some (k, v)"
  by (simp add: line_pair_def env_line_def partition_line clean_key_def clean_value_def)

lemma line_no_breaks: "clean_key k \<Longrightarrow> clean_value v \<Longrightarrow> no_breaks (env_line k v)"
  by (simp add: env_line_def clean_key_def clean_value_def no_breaks_def equals_sign_def is_break_def code_point_def Let_def)

lemma pair_clean: "no_breaks l \<Longrightarrow> line_pair l = Some (k, v) \<Longrightarrow> clean_key k \<and> clean_value v"
proof -
  assume l: "no_breaks l" and p: "line_pair l = Some (k, v)"
  obtain k' sep v' where part: "partition_char equals_sign l = (k', sep, v')" by (cases "partition_char equals_sign l")
  have kv: "sep" "k = strip k'" "k \<noteq> []" "v = strip v'" using p part by (auto simp: line_pair_def split: if_splits)
  have whole: "l = k' @ equals_sign # v' \<and> equals_sign \<notin> set k'"
  proof (cases "dropWhile (\<lambda>x. x \<noteq> equals_sign) l")
    case Nil
    show ?thesis using part kv(1) unfolding partition_char_def Nil by simp
  next
    case (Cons c rest)
    then have "c = equals_sign" using hd_dropWhile [of "\<lambda>x. x \<noteq> equals_sign" l] by simp
    moreover have "l = takeWhile (\<lambda>x. x \<noteq> equals_sign) l @ c # rest" using Cons takeWhile_dropWhile_id by metis
    moreover have "equals_sign \<notin> set (takeWhile (\<lambda>x. x \<noteq> equals_sign) l)" by (auto dest: set_takeWhileD)
    ultimately show ?thesis using part Cons by (simp add: partition_char_def)
  qed
  have "no_breaks k'" "no_breaks v'" using l whole by (simp_all add: no_breaks_def)
  then show ?thesis
    using kv whole strip_set [of k'] by (auto simp: clean_key_def clean_value_def strip_no_breaks)
qed

section \<open>What is read again\<close>

definition clean_dict :: "(string \<times> string) list \<Rightarrow> bool" where
  "clean_dict d \<longleftrightarrow> list_all (\<lambda>(k, v). clean_key k \<and> clean_value v) d \<and> distinct (map fst d)"

definition clean_changes :: "(string \<times> string option) list \<Rightarrow> bool" where
  "clean_changes new_values \<longleftrightarrow>
     list_all (\<lambda>(k, v). clean_key k \<and> (case v of None \<Rightarrow> True | Some x \<Rightarrow> clean_value x)) new_values"

lemma set_update: "set (AList.update k v d) \<subseteq> insert (k, v) (set d)"
  by (induction d) auto

lemma clean_update: "clean_dict d \<Longrightarrow> clean_key k \<Longrightarrow> clean_value v \<Longrightarrow> clean_dict (AList.update k v d)"
  using set_update [of k v d] by (fastforce simp: clean_dict_def list_all_iff distinct_update)

lemma clean_delete: "clean_dict d \<Longrightarrow> clean_dict (AList.delete k d)"
  by (auto simp: clean_dict_def list_all_iff AList.delete_eq distinct_map_filter)

lemma clean_read: "clean_dict (site_read file)"
proof (cases "file")
  case (Some t)
  have "clean_dict (fold add_pair ls d)" if "clean_dict d" "list_all no_breaks ls" for ls d
    using that
  proof (induction ls arbitrary: d)
    case (Cons l ls)
    have "clean_dict (add_pair l d)"
      using Cons.prems pair_clean [of l] by (auto simp: add_pair_def clean_update split: option.split)
    then show ?case using Cons by simp
  qed simp
  then show ?thesis using Some splitlines_no_breaks by (simp add: site_read_def clean_dict_def)
qed (simp add: site_read_def clean_dict_def)

lemma clean_changed: "clean_dict d \<Longrightarrow> clean_changes new_values \<Longrightarrow> clean_dict (fold change_key new_values d)"
proof (induction new_values arbitrary: d)
  case (Cons kv rest)
  obtain k v where kv: "kv = (k, v)" by (cases kv)
  have "clean_dict (change_key kv d)"
    using Cons.prems kv by (cases v) (simp_all add: change_key_def clean_changes_def clean_update clean_delete)
  then show ?case using Cons by (simp add: clean_changes_def)
qed simp

definition set_keys :: "(string \<times> string option) list \<Rightarrow> (string \<Rightarrow> string option) \<Rightarrow> string \<Rightarrow> string option" where
  "set_keys new_values m = fold (\<lambda>(k, v) m. m(k := v)) new_values m"

lemma changed_map: "map_of (fold change_key new_values d) = set_keys new_values (map_of d)"
proof (induction new_values arbitrary: d)
  case (Cons kv rest)
  have "map_of (change_key kv d) = (\<lambda>(k, v) m. m(k := v)) kv (map_of d)"
    by (cases kv; cases "snd kv") (auto simp: change_key_def update_conv' delete_conv' fun_upd_def)
  then show ?case using Cons by (simp add: set_keys_def)
qed (simp add: set_keys_def)

lemma set_site_keys: "set (site_keys d) = fst ` set d"
  by (auto simp: site_keys_def)

lemma read_text: "clean_dict d \<Longrightarrow> map_of (site_read (Some (site_text d))) = map_of d"
proof -
  assume d: "clean_dict d"
  let ?v = "\<lambda>k. the (map_of d k)"
  have clean: "clean_key k \<and> clean_value (?v k)" if k: "k \<in> set (site_keys d)" for k
  proof -
    obtain v where "map_of d k = Some v" using k by (cases "map_of d k") (auto simp: set_site_keys map_of_eq_None_iff)
    moreover from this have "(k, v) \<in> set d" by (rule map_of_SomeD)
    ultimately show ?thesis using d by (auto simp: clean_dict_def list_all_iff)
  qed
  then have "list_all no_breaks (map (\<lambda>k. env_line k (?v k)) (site_keys d))"
    by (simp add: list_all_iff line_no_breaks)
  then have ls: "splitlines (site_text d) = map (\<lambda>k. env_line k (?v k)) (site_keys d)"
    using splitlines_lines [of "map (\<lambda>k. env_line k (?v k)) (site_keys d)"] by (simp add: site_text_def comp_def)
  have "fold add_pair (map (\<lambda>k. env_line k (?v k)) ks) e = fold (\<lambda>k. AList.update k (?v k)) ks e"
    if "set ks \<subseteq> set (site_keys d)" for ks e
    using that clean by (induction ks arbitrary: e) (simp_all add: add_pair_def pair_of_line)
  moreover have "map_of (fold (\<lambda>k. AList.update k (?v k)) ks e) x = (if x \<in> set ks then Some (?v x) else map_of e x)" for ks e x
    by (induction ks arbitrary: e) (auto simp: update_conv')
  ultimately have "map_of (site_read (Some (site_text d))) x = (if x \<in> fst ` set d then Some (?v x) else None)" for x
    by (simp add: site_read_def ls set_site_keys)
  moreover have "map_of d x = (if x \<in> fst ` set d then Some (?v x) else None)" for x
    by (cases "map_of d x") (simp_all add: map_of_eq_None_iff, force dest: map_of_SomeD)
  ultimately show ?thesis by (intro ext) simp
qed

lemma same_dict_map:
  assumes "same_dict a b" "distinct (map fst a)" "distinct (map fst b)"
  shows "map_of a = map_of b"
proof -
  have "set a \<subseteq> set b" using assms(1) by (auto simp: same_dict_def list_all_iff dest: map_of_SomeD)
  moreover have "card (set a) = card (set b)"
    using assms by (simp add: same_dict_def distinct_card distinct_map)
  ultimately have "set a = set b" by (simp add: card_subset_eq)
  then show ?thesis using assms(2,3) by (simp add: map_of_inject_set)
qed

text \<open>C39: What is written to site.env is read again: after an update with keys and values that are one line each
  without white space around them, every key reads as changed and every other as before - whether or not the file
  was rewritten, and whatever it held.\<close>

theorem site_env_reads_back:
  "if clean_changes new_values
   then map_of (site_read (snd (site_update new_values file))) = set_keys new_values (map_of (site_read file))
   else True"
proof -
  let ?new = "fold change_key new_values (site_read file)"
  have clean: "clean_dict ?new" if "clean_changes new_values" by (rule clean_changed [OF clean_read that])
  show ?thesis
  proof (cases "same_dict ?new (site_read file) \<and> file \<noteq> None")
    case True
    then have "map_of ?new = map_of (site_read file)" if "clean_changes new_values"
      using same_dict_map clean [OF that] clean_read [of "file"] by (simp add: clean_dict_def)
    then show ?thesis using True by (auto simp: site_update_def changed_map)
  next
    case False
    then have "snd (site_update new_values file) = Some (site_text ?new)" by (auto simp: site_update_def Let_def)
    then show ?thesis using read_text [OF clean] by (simp add: changed_map)
  qed
qed

text \<open>A key on two lines of .env: the edit changes the first, the reading takes the last.\<close>

lemma second_line_stays:
  "map_of (env_read (snd (env_write [(''TZ'', ''UTC'')] (''TZ=A'' @ [newline] @ ''TZ=B'' @ [newline])))) ''TZ'' = Some ''B''"
  by code_simp

end
