(* ===== verification/Port_Trial.thy ===== *)
theory Port_Trial
  imports Env_Files Settings_Properties
begin

text \<open>
  The HTTPS port changed in System Settings: the app's side (\<open>src/access/port.py\<close>), which writes requests and
  confirmations into site.env, and the port helper's (\<open>src/setup/port.py\<close>), which tries a port next to the current
  one and keeps it only once confirmed. Both run in their own processes, with the administrators at their browsers
  and \<open>netrollout port\<close>: a server whose steps happen in any order. site.env and .env are read and changed by their
  keys (\<open>site_env_reads_back\<close>); ids of requests are fresh; times are seconds.
\<close>

section \<open>The helper's answer\<close>

datatype apply_state = Ap_Unset | Ap_Trying | Ap_Applied | Ap_Rolled_Back | Ap_Failed | Ap_Unknown

record apply_status =
  ap_id :: string
  ap_state :: apply_state
  ap_port :: "int option"
  ap_trying :: "int option"
  ap_deadline :: "int option"
  ap_message :: string

definition blank_status :: apply_status where
  "blank_status = \<lparr>ap_id = [], ap_state = Ap_Unset, ap_port = None, ap_trying = None, ap_deadline = None, ap_message = []\<rparr>"

datatype status_file = No_Status | Bad_Status | Status apply_status

text \<open>The app reads an unreadable file as unknown; the helper as none.\<close>

definition app_status :: "status_file \<Rightarrow> apply_status option" where
  "app_status f = (case f of No_Status \<Rightarrow> None | Bad_Status \<Rightarrow> Some (blank_status\<lparr>ap_state := Ap_Unknown\<rparr>) | Status st \<Rightarrow> Some st)"

definition helper_status :: "status_file \<Rightarrow> apply_status option" where
  "helper_status f = (case f of Status st \<Rightarrow> Some st | _ \<Rightarrow> None)"

definition or_blank :: "apply_status option \<Rightarrow> apply_status" where
  "or_blank s = (case s of None \<Rightarrow> blank_status | Some st \<Rightarrow> st)"

section \<open>The server\<close>

definition site_port_in_use :: string where "site_port_in_use = ''NETROLLOUT_HTTPS_PORT''"
definition site_request :: string where "site_request = ''NETROLLOUT_PORT_REQUEST''"
definition site_request_id :: string where "site_request_id = ''NETROLLOUT_PORT_REQUEST_ID''"
definition site_requested_at :: string where "site_requested_at = ''NETROLLOUT_PORT_REQUESTED_AT''"
definition site_confirmed :: string where "site_confirmed = ''NETROLLOUT_PORT_CONFIRMED''"

definition trial_entry :: string where "trial_entry = ''config/port-trial.yaml''"
definition trial_seconds :: int where "trial_seconds = 120"
definition answer_wait :: int where "answer_wait = 30"

text \<open>Beside the files: the trial's compose file (the port it adds), what the script is about to do, what the undos of
  the requests put back, and - for what is shown - which port each id asked for, the ports confirmed, those set by
  hand.\<close>

datatype step_action = Do_Nothing | Do_Wait | Do_Try | Do_Keep | Do_Rollback

record helper_step =
  hs_action :: step_action
  hs_port :: "int option"
  hs_id :: string
  hs_message :: string

record server =
  sv_site :: "string \<Rightarrow> string option"
  sv_env :: "string \<Rightarrow> string option"
  sv_status :: status_file
  sv_trial_file :: "int option"
  sv_doing :: "helper_step option"
  sv_undos :: "(string \<times> string option) list list"
  sv_asked :: "(string \<times> int) list"
  sv_confirmed :: "int list"
  sv_by_hand :: "int list"

definition site_set :: "(string \<times> string option) list \<Rightarrow> server \<Rightarrow> server" where
  "site_set new_values s = s\<lparr>sv_site := set_keys new_values (sv_site s)\<rparr>"

definition env_change :: "(string \<times> string) list \<Rightarrow> server \<Rightarrow> server" where
  "env_change new_values s = s\<lparr>sv_env := set_keys (map (\<lambda>(k, v). (k, Some v)) new_values) (sv_env s)\<rparr>"

definition current_port :: "server \<Rightarrow> int" where
  "current_port s = published_port (sv_env s)"

definition write_status :: "string \<Rightarrow> apply_state \<Rightarrow> int \<Rightarrow> int option \<Rightarrow> int option \<Rightarrow> string \<Rightarrow> server \<Rightarrow> server" where
  "write_status i state port trying deadline message s =
     s\<lparr>sv_status := Status \<lparr>ap_id = i, ap_state = state, ap_port = Some port, ap_trying = trying,
        ap_deadline = deadline, ap_message = message\<rparr>\<rparr>"

section \<open>The app's side\<close>

definition as_port :: "raw \<Rightarrow> int option" where
  "as_port r = (case parse_int (Some 1) (Some 65535) r of Inl _ \<Rightarrow> None | Inr p \<Rightarrow> Some p)"

definition port_of :: "int option \<Rightarrow> int option" where
  "port_of p = (case p of None \<Rightarrow> None | Some n \<Rightarrow> as_port (R_Number n))"

record port_request =
  pq_port :: "int option"
  pq_id :: string
  pq_time :: int

definition read_request :: "server \<Rightarrow> port_request option" where
  "read_request s =
     (case sv_site s site_request_id of
        None \<Rightarrow> None
      | Some i \<Rightarrow>
          (if i = [] then None
           else Some \<lparr>pq_port = (case sv_site s site_request of None \<Rightarrow> None | Some t \<Rightarrow> as_port (R_Text t)), pq_id = i,
             pq_time = (case sv_site s site_requested_at of None \<Rightarrow> 0
                        | Some t \<Rightarrow> (case read_int t of None \<Rightarrow> 0 | Some n \<Rightarrow> n))\<rparr>))"

definition confirmed_id :: "server \<Rightarrow> string" where
  "confirmed_id s = (case sv_site s site_confirmed of None \<Rightarrow> [] | Some i \<Rightarrow> i)"

text \<open>\<open>serving_port\<close>; \<open>published\<close> is the environment's NETROLLOUT_HTTPS_PORT.\<close>

definition env_published :: "string option \<Rightarrow> int" where
  "env_published published =
     (case as_port (R_Text (case published of None \<Rightarrow> ''443'' | Some t \<Rightarrow> t)) of None \<Rightarrow> 443 | Some p \<Rightarrow> p)"

definition serving_port :: "string option \<Rightarrow> server \<Rightarrow> int" where
  "serving_port published s =
     (case app_status (sv_status s) of
        None \<Rightarrow> env_published published
      | Some st \<Rightarrow>
          (case (if ap_state st = Ap_Trying \<and> ap_id st \<noteq> [] \<and> ap_id st = confirmed_id s then port_of (ap_trying st) else None) of
             Some p \<Rightarrow> p
           | None \<Rightarrow> (case port_of (ap_port st) of Some p \<Rightarrow> p | None \<Rightarrow> env_published published)))"

text \<open>\<open>request_port\<close>: the previous request's keys are what its undo puts back.\<close>

definition request_keys :: "string list" where
  "request_keys = [site_request, site_request_id, site_requested_at, site_confirmed]"

definition request_port :: "raw \<Rightarrow> string \<Rightarrow> int \<Rightarrow> server \<Rightarrow> (server \<times> (string \<times> string option) list) option" where
  "request_port wanted i now_s s =
     (case as_port wanted of
        None \<Rightarrow> None
      | Some p \<Rightarrow>
          Some (site_set [(site_request, Some (show_int p)), (site_request_id, Some i),
                          (site_requested_at, Some (show_int now_s)), (site_confirmed, None)] s,
                map (\<lambda>k. (k, sv_site s k)) request_keys))"

definition confirm_port :: "string \<Rightarrow> int \<Rightarrow> int \<Rightarrow> server \<Rightarrow> string option \<times> server" where
  "confirm_port i reached now_s s =
     (let st = or_blank (app_status (sv_status s));
          tried = (case ap_trying st of None \<Rightarrow> ''None'' | Some p \<Rightarrow> show_int p)
      in if ap_state st \<noteq> Ap_Trying \<or> i = [] \<or> ap_id st \<noteq> i
           then (Some ''There is no port change waiting for confirmation.'', s)
         else if port_of (ap_trying st) \<noteq> Some reached
           then (Some (''Open NetRollout on port '' @ tried @ '' to confirm - this page came through port '' @ show_int reached @ ''.''), s)
         else if (case ap_deadline st of None \<Rightarrow> False | Some d \<Rightarrow> d \<noteq> 0 \<and> d < now_s)
           then (Some ''Too late: the trial ended, the previous port is back.'', s)
         else (None, site_set [(site_confirmed, Some i)] s))"

text \<open>\<open>state\<close>: what System Settings shows.\<close>

datatype port_page =
    Pg_Applied | Pg_Manual | Pg_Waiting | Pg_No_Helper_Answer | Pg_Trying string "int option" "int option" | Pg_Confirming
  | Pg_Rolled_Back string | Pg_Failed string

definition port_page_state :: "string option \<Rightarrow> int \<Rightarrow> int \<Rightarrow> server \<Rightarrow> port_page" where
  "port_page_state published saved now_s s =
     (let st = app_status (sv_status s); req = read_request s;
          rest = (if saved = serving_port published s then Pg_Applied
                  else if st = None then Pg_Manual
                  else (case req of
                      Some r \<Rightarrow> if pq_port r = Some saved \<and> answer_wait < now_s - pq_time r then Pg_No_Helper_Answer else Pg_Waiting
                    | None \<Rightarrow> Pg_Waiting))
      in case (st, req) of
           (Some x, Some r) \<Rightarrow>
             (if pq_id r = [] \<or> ap_id x \<noteq> pq_id r then rest
              else if ap_state x = Ap_Trying \<and> confirmed_id s = pq_id r then Pg_Confirming
              else if ap_state x = Ap_Trying then Pg_Trying (pq_id r) (port_of (ap_trying x)) (ap_deadline x)
              else if ap_state x = Ap_Rolled_Back then Pg_Rolled_Back (ap_message x)
              else if ap_state x = Ap_Failed then Pg_Failed (ap_message x)
              else rest)
         | _ \<Rightarrow> rest)"

section \<open>The helper's side\<close>

definition wanted_port :: "string option \<Rightarrow> int option" where
  "wanted_port t =
     (case read_int (strip (case t of None \<Rightarrow> ''None'' | Some x \<Rightarrow> x)) of
        None \<Rightarrow> None
      | Some p \<Rightarrow> if 1 \<le> p \<and> p \<le> 65535 \<and> p \<noteq> 80 then Some p else None)"

definition timed_out_words :: "int option \<Rightarrow> string" where
  "timed_out_words p = ''not confirmed within '' @ show_int trial_seconds @ '' s - port ''
     @ (case p of None \<Rightarrow> ''None'' | Some n \<Rightarrow> show_int n) @ '' didn't open from a browser (a firewall?)''"

definition a_step :: "step_action \<Rightarrow> int option \<Rightarrow> string \<Rightarrow> string \<Rightarrow> helper_step" where
  "a_step act p i message = \<lparr>hs_action = act, hs_port = p, hs_id = i, hs_message = message\<rparr>"

text \<open>\<open>next_step\<close>: a trial's own outcome first; a request is tried, or recorded as failed or in use already. \<open>busy\<close>: the
  ports other programs listen on, with their names.\<close>

definition next_step :: "(int \<times> string) list \<Rightarrow> int \<Rightarrow> server \<Rightarrow> helper_step \<times> server" where
  "next_step busy now_s s =
     (let req_id = (case sv_site s site_request_id of None \<Rightarrow> [] | Some i \<Rightarrow> i);
          st = or_blank (helper_status (sv_status s)); current = current_port s
      in if ap_state st = Ap_Trying then
           (if ap_id st \<noteq> req_id then (a_step Do_Rollback None (ap_id st) ''replaced by a newer request'', s)
            else if sv_site s site_confirmed = Some req_id then (a_step Do_Keep (ap_trying st) req_id [], s)
            else if (case ap_deadline st of None \<Rightarrow> 0 | Some d \<Rightarrow> d) < now_s
              then (a_step Do_Rollback None req_id (timed_out_words (ap_trying st)), s)
            else (a_step Do_Wait (ap_trying st) req_id [], s))
         else if req_id = [] \<or> ap_id st = req_id then (a_step Do_Nothing None [] [], s)
         else (case wanted_port (sv_site s site_request) of
             None \<Rightarrow>
               (let message = (case sv_site s site_request of None \<Rightarrow> ''None'' | Some t \<Rightarrow> py_repr t) @ '' isn't a usable HTTPS port''
                in (a_step Do_Nothing None req_id message, write_status req_id Ap_Failed current None None message s))
           | Some p \<Rightarrow>
               (if p = current
                then (a_step Do_Nothing (Some current) req_id (''port '' @ show_int p @ '' is in use already''),
                      write_status req_id Ap_Applied current None None [] s)
                else (case map_of busy p of
                    None \<Rightarrow> (a_step Do_Try (Some p) req_id [], s)
                  | Some who \<Rightarrow>
                      (let message = ''port '' @ show_int p @ '' is in use on this computer''
                                 @ (if who = [] then [] else '' (by '' @ who @ '')'')
                       in (a_step Do_Nothing (Some p) req_id message,
                           write_status req_id Ap_Failed current None None message s))))))"

definition open_trial :: "int \<Rightarrow> server \<Rightarrow> server" where
  "open_trial p s =
     (let s1 = s\<lparr>sv_trial_file := Some p\<rparr>; compose = compose_files (sv_env s)
      in if trial_entry \<in> set compose then s1
         else env_change [(''COMPOSE_FILE'', join '','' (compose @ [trial_entry]))] s1)"

definition trying_port :: "int \<Rightarrow> string \<Rightarrow> int \<Rightarrow> server \<Rightarrow> server" where
  "trying_port p i now_s s = write_status i Ap_Trying (current_port s) (Some p) (Some (now_s + trial_seconds)) [] s"

datatype trial_outcome = Trial_Keep | Trial_Rollback | Trial_Failed

definition close_trial :: "trial_outcome \<Rightarrow> string \<Rightarrow> string \<Rightarrow> bool \<Rightarrow> server \<Rightarrow> server" where
  "close_trial outcome i message timed_out s =
     (let new = ap_trying (or_blank (helper_status (sv_status s)));
          said = (if timed_out then timed_out_words new else message);
          s1 = (case new of
              Some p \<Rightarrow>
                (if outcome = Trial_Keep \<and> p \<noteq> 0
                 then site_set [(site_port_in_use, Some (show_int p))] (env_change [(''HTTPS_PORT'', show_int p)] s) else s)
            | None \<Rightarrow> s);
          compose = compose_files (sv_env s1);
          s2 = (if trial_entry \<in> set compose
                then env_change [(''COMPOSE_FILE'', join '','' (filter (\<lambda>f. f \<noteq> trial_entry) compose))] s1 else s1);
          s3 = s2\<lparr>sv_trial_file := None\<rparr>
      in write_status i (case outcome of Trial_Keep \<Rightarrow> Ap_Applied | Trial_Rollback \<Rightarrow> Ap_Rolled_Back | Trial_Failed \<Rightarrow> Ap_Failed)
           (current_port s3) None None said s3)"

definition helper_ready :: "server \<Rightarrow> bool \<times> server" where
  "helper_ready s =
     (if sv_status s \<noteq> No_Status then (False, s) else (True, write_status [] Ap_Applied (current_port s) None None [] s))"

text \<open>\<open>netrollout port\<close>.\<close>

definition set_by_hand :: "string option \<Rightarrow> (int \<times> string) list option \<Rightarrow> bool \<Rightarrow> server \<Rightarrow> string + (int \<times> server)" where
  "set_by_hand wanted busy check_only s =
     (case wanted_port wanted of
        None \<Rightarrow> Inl ((case wanted of None \<Rightarrow> ''None'' | Some t \<Rightarrow> py_repr t) @ '' isn't a usable HTTPS port (1-65535, not 80).'')
      | Some p \<Rightarrow>
          (if (case helper_status (sv_status s) of None \<Rightarrow> False | Some st \<Rightarrow> ap_state st = Ap_Trying)
               \<or> trial_entry \<in> set (compose_files (sv_env s))
           then Inl ''A port change from System Settings is being tried - wait until it ends (2 minutes at most), then try again.''
           else (let previous = current_port s
             in case (case busy of None \<Rightarrow> None | Some b \<Rightarrow>
                   (if p = previous then Some (''Port '' @ show_int p @ '' is the port in use already.'')
                    else (case map_of b p of
                        None \<Rightarrow> None
                      | Some who \<Rightarrow> Some (''Port '' @ show_int p @ '' is in use by ''
                          @ (if who = [] then ''another program'' else who) @ '' - pick another one.'')))) of
                  Some why \<Rightarrow> Inl why
                | None \<Rightarrow>
                    (if check_only then Inr (previous, s)
                     else Inr (previous,
                       write_status [] Ap_Applied p None None ''set with netrollout port''
                         (site_set [(site_port_in_use, Some (show_int p)), (site_request, None), (site_request_id, None),
                            (site_requested_at, None), (site_confirmed, None)]
                           (env_change [(''HTTPS_PORT'', show_int p)] s)))))))"

section \<open>The server's steps\<close>

datatype port_step =
    App_Requests raw string int | App_Undoes nat | App_Confirms string int int
  | Helper_Looks "(int \<times> string) list" int | Helper_Opens | Helper_Tries int | Helper_Fails string | Helper_Closes
  | Helper_Times_Out | Helper_Stops | Helper_Ready | By_Hand "string option" "(int \<times> string) list option" bool

definition doing :: "step_action \<Rightarrow> server \<Rightarrow> (int option \<times> string \<times> string) option" where
  "doing act s = (case sv_doing s of
     None \<Rightarrow> None
   | Some st \<Rightarrow> if hs_action st = act then Some (hs_port st, hs_id st, hs_message st) else None)"

text \<open>A request's id is fresh; the script does what \<open>next_step\<close> said, one thing at a time, and may stop anywhere.\<close>

fun port_serve :: "port_step \<Rightarrow> server \<Rightarrow> server" where
  "port_serve (App_Requests wanted i now_s) s =
     (if i = [] \<or> i \<in> fst ` set (sv_asked s) then s
      else case (request_port wanted i now_s s, as_port wanted) of
        (Some (s1, undo), Some p) \<Rightarrow> s1\<lparr>sv_undos := sv_undos s @ [undo], sv_asked := (i, p) # sv_asked s\<rparr>
      | _ \<Rightarrow> s)"
| "port_serve (App_Undoes n) s = (if n < length (sv_undos s) then site_set (sv_undos s ! n) s else s)"
| "port_serve (App_Confirms i reached now_s) s =
     (case confirm_port i reached now_s s of
        (None, s1) \<Rightarrow> s1\<lparr>sv_confirmed := reached # sv_confirmed s\<rparr>
      | (Some _, s1) \<Rightarrow> s1)"
| "port_serve (Helper_Looks busy now_s) s =
     (if sv_doing s \<noteq> None \<and> doing Do_Wait s = None then s
      else case next_step busy now_s s of (st, s1) \<Rightarrow> s1\<lparr>sv_doing := (if hs_action st = Do_Nothing then None else Some st)\<rparr>)"
| "port_serve Helper_Opens s =
     (case doing Do_Try s of Some (Some p, i, m) \<Rightarrow> open_trial p s | _ \<Rightarrow> s)"
| "port_serve (Helper_Tries now_s) s =
     (case doing Do_Try s of
        Some (Some p, i, m) \<Rightarrow> (if sv_trial_file s = Some p then (trying_port p i now_s s)\<lparr>sv_doing := None\<rparr> else s)
      | _ \<Rightarrow> s)"
| "port_serve (Helper_Fails message) s =
     (case doing Do_Try s of Some (p, i, m) \<Rightarrow> (close_trial Trial_Failed i message False s)\<lparr>sv_doing := None\<rparr> | None \<Rightarrow> s)"
| "port_serve Helper_Closes s =
     (case (doing Do_Keep s, doing Do_Rollback s) of
        (Some (p, i, m), _) \<Rightarrow> (close_trial Trial_Keep i [] False s)\<lparr>sv_doing := None\<rparr>
      | (None, Some (p, i, m)) \<Rightarrow> (close_trial Trial_Rollback i m False s)\<lparr>sv_doing := None\<rparr>
      | _ \<Rightarrow> s)"
| "port_serve Helper_Times_Out s =
     (case doing Do_Wait s of Some (p, i, m) \<Rightarrow> (close_trial Trial_Rollback i [] True s)\<lparr>sv_doing := None\<rparr> | None \<Rightarrow> s)"
| "port_serve Helper_Stops s = s\<lparr>sv_doing := None\<rparr>"
| "port_serve Helper_Ready s = snd (helper_ready s)"
| "port_serve (By_Hand wanted busy check_only) s =
     (case set_by_hand wanted busy check_only s of
        Inl _ \<Rightarrow> s
      | Inr (previous, s1) \<Rightarrow>
          (if check_only then s1
           else s1\<lparr>sv_by_hand := (case wanted_port wanted of None \<Rightarrow> [] | Some p \<Rightarrow> [p]) @ sv_by_hand s\<rparr>))"

definition new_server :: "(string \<Rightarrow> string option) \<Rightarrow> server" where
  "new_server env = \<lparr>sv_site = Map.empty, sv_env = env, sv_status = No_Status, sv_trial_file = None, sv_doing = None,
     sv_undos = [], sv_asked = [], sv_confirmed = [], sv_by_hand = []\<rparr>"

text \<open>A pass of the script: it looks, and does what it is told.\<close>

definition helper_pass :: "(int \<times> string) list \<Rightarrow> int \<Rightarrow> server \<Rightarrow> server" where
  "helper_pass busy now_s s =
     (case next_step busy now_s s of (st, s1) \<Rightarrow>
        (case (hs_action st, hs_port st) of
           (Do_Try, Some p) \<Rightarrow> trying_port p (hs_id st) now_s (open_trial p s1)
         | (Do_Keep, _) \<Rightarrow> close_trial Trial_Keep (hs_id st) [] False s1
         | (Do_Rollback, _) \<Rightarrow> close_trial Trial_Rollback (hs_id st) (hs_message st) False s1
         | _ \<Rightarrow> s1))"

end
