(* ===== verification/Port_Properties.thy ===== *)
theory Port_Properties
  imports Port_Trial
begin

text \<open>
  What the two sides of a port change keep to: the port in use is one an administrator reached NetRollout on (or set
  by hand), whatever either side does when; and the helper answers every request.
\<close>

section \<open>Numbers and keys\<close>

lemma as_port_bounds: "as_port r = Some p \<Longrightarrow> 1 \<le> p \<and> p \<le> 65535"
  by (auto simp: as_port_def parse_int_def split: sum.splits raw.splits option.splits if_splits)

lemma wanted_port_bounds: "wanted_port t = Some p \<Longrightarrow> 1 \<le> p \<and> p \<le> 65535"
  by (auto simp: wanted_port_def split: option.splits if_splits)

lemma read_port: "1 \<le> p \<Longrightarrow> p \<le> 65535 \<Longrightarrow> read_int (show_int p) = Some p"
  using read_show [of "nat p"] by (simp add: show_int_def)

lemma strip_port: "1 \<le> p \<Longrightarrow> strip (show_int p) = show_int p"
proof -
  assume "1 \<le> p"
  moreover have "strip (show_nat n) = show_nat n" for n
    by (rule strip_no_space) (use show_nat_parts not_dec(4) in blast)
  ultimately show ?thesis by (simp add: show_int_def)
qed

lemma wanted_show: "1 \<le> p \<Longrightarrow> p \<le> 65535 \<Longrightarrow> wanted_port (Some (show_int p)) \<in> {None, Some p}"
  by (auto simp: wanted_port_def strip_port read_port)

lemma set_keys_Nil [simp]: "set_keys [] m = m"
  by (simp add: set_keys_def)

lemma set_keys_Cons [simp]: "set_keys ((k, v) # kvs) m = set_keys kvs (m(k := v))"
  by (simp add: set_keys_def)

lemma current_after_env [simp]:
  "1 \<le> p \<Longrightarrow> p \<le> 65535 \<Longrightarrow> current_port (env_change [(''HTTPS_PORT'', show_int p)] s) = p"
  "current_port (env_change [(''COMPOSE_FILE'', t)] s) = current_port s"
  by (simp_all add: current_port_def env_change_def published_port_def read_port)

lemma current_same [simp]:
  "current_port (site_set kvs s) = current_port s" "current_port (write_status i st p t d m s) = current_port s"
  "current_port (s\<lparr>sv_trial_file := f\<rparr>) = current_port s" "current_port (s\<lparr>sv_doing := x\<rparr>) = current_port s"
  by (simp_all add: current_port_def site_set_def write_status_def)

lemma port_of_same: "1 \<le> p \<Longrightarrow> p \<le> 65535 \<Longrightarrow> port_of (Some p) = Some p"
  by (simp add: port_of_def as_port_def parse_int_def raw_text_def read_port)

lemmas key_defs = site_port_in_use_def site_request_def site_request_id_def site_requested_at_def site_confirmed_def

section \<open>What an id stands for\<close>

text \<open>What the request's keys say: the id's port; the id confirmed, of a port that was.\<close>

definition says_true :: "(string \<times> int) list \<Rightarrow> int list \<Rightarrow> (string \<Rightarrow> string option) \<Rightarrow> bool" where
  "says_true asked confirmed m \<longleftrightarrow>
     (case m site_request_id of None \<Rightarrow> True | Some i \<Rightarrow>
        i = [] \<or> (case map_of asked i of None \<Rightarrow> False | Some p \<Rightarrow> m site_request = Some (show_int p)))
     \<and> (case m site_confirmed of None \<Rightarrow> True | Some i \<Rightarrow>
        i = [] \<or> (case map_of asked i of None \<Rightarrow> False | Some p \<Rightarrow> p \<in> set confirmed))"

definition status_true :: "(string \<times> int) list \<Rightarrow> status_file \<Rightarrow> bool" where
  "status_true asked f = (case f of
     Status st \<Rightarrow> (if ap_state st = Ap_Trying
       then ap_id st \<noteq> [] \<and> ap_trying st \<noteq> None \<and> map_of asked (ap_id st) = ap_trying st else ap_trying st = None)
   | _ \<Rightarrow> True)"

definition doing_true :: "(string \<times> int) list \<Rightarrow> int list \<Rightarrow> status_file \<Rightarrow> helper_step option \<Rightarrow> bool" where
  "doing_true asked confirmed f d = (case d of
     None \<Rightarrow> True
   | Some st \<Rightarrow>
       (hs_action st = Do_Try \<longrightarrow> hs_id st \<noteq> [] \<and> hs_port st \<noteq> None \<and> map_of asked (hs_id st) = hs_port st)
       \<and> (hs_action st = Do_Keep \<longrightarrow> (case f of
            Status x \<Rightarrow> ap_state x = Ap_Trying \<and> (case ap_trying x of None \<Rightarrow> False | Some p \<Rightarrow> p \<in> set confirmed)
          | _ \<Rightarrow> False)))"

definition undo_true :: "(string \<times> int) list \<Rightarrow> int list \<Rightarrow> (string \<times> string option) list \<Rightarrow> bool" where
  "undo_true asked confirmed u \<longleftrightarrow> (\<exists>m. u = map (\<lambda>k. (k, m k)) request_keys \<and> says_true asked confirmed m)"

definition ports_ok :: "int \<Rightarrow> server \<Rightarrow> bool" where
  "ports_ok first s \<longleftrightarrow> (\<forall>p\<in>snd ` set (sv_asked s). 1 \<le> p \<and> p \<le> 65535)
     \<and> says_true (sv_asked s) (sv_confirmed s) (sv_site s)
     \<and> (\<forall>u\<in>set (sv_undos s). undo_true (sv_asked s) (sv_confirmed s) u)
     \<and> status_true (sv_asked s) (sv_status s) \<and> doing_true (sv_asked s) (sv_confirmed s) (sv_status s) (sv_doing s)
     \<and> current_port s \<in> insert first (set (sv_confirmed s @ sv_by_hand s))"

lemma asked_bounds: "ports_ok first s \<Longrightarrow> map_of (sv_asked s) i = Some p \<Longrightarrow> 1 \<le> p \<and> p \<le> 65535"
  unfolding ports_ok_def using map_of_SomeD by (metis imageI snd_conv)

lemma says_more:
  "says_true asked confirmed m \<Longrightarrow> map_of asked i = None \<Longrightarrow> says_true ((i, p) # asked) confirmed m"
  "says_true asked confirmed m \<Longrightarrow> says_true asked (q # confirmed) m"
  by (auto simp: says_true_def split: option.splits)

lemma undo_more:
  "undo_true asked confirmed u \<Longrightarrow> map_of asked i = None \<Longrightarrow> undo_true ((i, p) # asked) confirmed u"
  "undo_true asked confirmed u \<Longrightarrow> undo_true asked (q # confirmed) u"
  unfolding undo_true_def using says_more by blast+

lemma status_more:
  "status_true asked f \<Longrightarrow> map_of asked i = None \<Longrightarrow> status_true ((i, p) # asked) f"
  by (cases f) (auto simp: status_true_def)

lemma doing_more:
  "doing_true asked confirmed f d \<Longrightarrow> map_of asked i = None \<Longrightarrow> doing_true ((i, p) # asked) confirmed f d"
  "doing_true asked confirmed f d \<Longrightarrow> doing_true asked (q # confirmed) f d"
  by (auto simp: doing_true_def split: option.splits status_file.splits)

text \<open>Site keys the request's facts don't read.\<close>

lemma says_other: "says_true asked confirmed m \<Longrightarrow> says_true asked confirmed (m(site_port_in_use := v))"
  by (auto simp: says_true_def key_defs split: option.splits)

lemma says_cong: "says_true asked confirmed m \<Longrightarrow> m' site_request = m site_request \<Longrightarrow> m' site_request_id = m site_request_id
    \<Longrightarrow> m' site_confirmed = m site_confirmed \<Longrightarrow> says_true asked confirmed m'"
  by (auto simp: says_true_def split: option.splits)

lemma requests_ok: "ports_ok first s \<Longrightarrow> ports_ok first (port_serve (App_Requests wanted i now_s) s)"
proof (cases "i = [] \<or> i \<in> fst ` set (sv_asked s) \<or> as_port wanted = None")
  case False
  then obtain p where p: "as_port wanted = Some p" and i: "i \<noteq> []" "map_of (sv_asked s) i = None"
    by (auto simp: map_of_eq_None_iff)
  assume ok: "ports_ok first s"
  have "says_true ((i, p) # sv_asked s) (sv_confirmed s)
      (set_keys [(site_request, Some (show_int p)), (site_request_id, Some i), (site_requested_at, Some (show_int now_s)),
         (site_confirmed, None)] (sv_site s))"
    by (simp add: says_true_def key_defs)
  moreover have "undo_true ((i, p) # sv_asked s) (sv_confirmed s) (map (\<lambda>k. (k, sv_site s k)) request_keys)"
    unfolding undo_true_def using ok says_more(1) [OF _ i(2)] by (auto simp: ports_ok_def)
  ultimately show ?thesis
    using ok p i as_port_bounds [OF p] i(2) [unfolded map_of_eq_None_iff]
    by (auto simp: ports_ok_def request_port_def site_set_def undo_more(1) status_more doing_more(1) current_port_def)
qed (auto simp: request_port_def split: option.split)

lemma undoes_ok: "ports_ok first s \<Longrightarrow> ports_ok first (port_serve (App_Undoes n) s)"
proof (cases "n < length (sv_undos s)")
  case True
  assume ok: "ports_ok first s"
  then have "undo_true (sv_asked s) (sv_confirmed s) (sv_undos s ! n)" using True by (simp add: ports_ok_def)
  then obtain m where m: "sv_undos s ! n = map (\<lambda>k. (k, m k)) request_keys" "says_true (sv_asked s) (sv_confirmed s) m"
    by (auto simp: undo_true_def)
  have "says_true (sv_asked s) (sv_confirmed s) (set_keys (sv_undos s ! n) (sv_site s))"
    by (rule says_cong [OF m(2)]) (simp_all add: m(1) request_keys_def key_defs)
  then show ?thesis using ok True by (simp add: ports_ok_def site_set_def current_port_def)
qed simp

lemma confirms_ok: "ports_ok first s \<Longrightarrow> ports_ok first (port_serve (App_Confirms i reached now_s) s)"
proof (cases "fst (confirm_port i reached now_s s) = None")
  case True
  assume ok: "ports_ok first s"
  define st where "st = or_blank (app_status (sv_status s))"
  have st: "ap_state st = Ap_Trying" "i \<noteq> []" "ap_id st = i" "port_of (ap_trying st) = Some reached"
      "confirm_port i reached now_s s = (None, site_set [(site_confirmed, Some i)] s)"
    using True by (auto simp: confirm_port_def st_def Let_def split: if_splits)
  then have "sv_status s = Status st"
    by (cases "sv_status s") (simp_all add: st_def app_status_def or_blank_def blank_status_def)
  then obtain p where p: "ap_trying st = Some p" "map_of (sv_asked s) i = Some p"
    using ok st by (auto simp: ports_ok_def status_true_def)
  then have "reached = p" using st(4) asked_bounds [OF ok p(2)] by (simp add: port_of_same)
  then have "says_true (sv_asked s) (reached # sv_confirmed s) ((sv_site s)(site_confirmed := Some i))"
    using ok p by (auto simp: ports_ok_def says_true_def key_defs split: option.splits)
  then show ?thesis
    using ok st(5) by (auto simp: ports_ok_def site_set_def undo_more(2) doing_more(2) current_port_def)
qed (auto simp: confirm_port_def Let_def split: option.split)

lemma next_step_writes: "\<exists>f. snd (next_step busy now_s s) = s\<lparr>sv_status := f\<rparr>"
proof -
  have "snd (next_step busy now_s s) = s \<or> (\<exists>f. snd (next_step busy now_s s) = s\<lparr>sv_status := f\<rparr>)"
    unfolding next_step_def Let_def write_status_def by (simp split: option.split) blast
  moreover have "s = s\<lparr>sv_status := sv_status s\<rparr>" by simp
  ultimately show ?thesis by metis
qed

lemma looks_ok: "ports_ok first s \<Longrightarrow> ports_ok first (port_serve (Helper_Looks busy now_s) s)"
proof (cases "sv_doing s \<noteq> None \<and> doing Do_Wait s = None")
  case False
  assume ok: "ports_ok first s"
  define st where "st = or_blank (helper_status (sv_status s))"
  define req_id where "req_id = (case sv_site s site_request_id of None \<Rightarrow> [] | Some i \<Rightarrow> i)"
  obtain step s1 where look: "next_step busy now_s s = (step, s1)" by (cases "next_step busy now_s s")
  have holds_st: "sv_status s = Status st" if "ap_state st = Ap_Trying"
    using that by (cases "sv_status s") (simp_all add: st_def helper_status_def or_blank_def blank_status_def)
  have "doing_true (sv_asked s) (sv_confirmed s) (sv_status s1) (Some step)
      \<and> status_true (sv_asked s) (sv_status s1)"
  proof (cases "ap_state st = Ap_Trying")
    case True
    then have s: "sv_status s = Status st" "ap_id st \<noteq> []" "map_of (sv_asked s) (ap_id st) = ap_trying st" "ap_trying st \<noteq> None"
      using ok holds_st by (auto simp: ports_ok_def status_true_def)
    have "(case ap_trying st of None \<Rightarrow> False | Some p \<Rightarrow> p \<in> set (sv_confirmed s))"
      if "ap_id st = req_id" "sv_site s site_confirmed = Some req_id"
      using ok that s by (auto simp: ports_ok_def says_true_def split: option.splits)
    then show ?thesis
      using True look ok s(1) unfolding next_step_def Let_def st_def [symmetric] req_id_def [symmetric]
      by (auto simp: a_step_def doing_true_def ports_ok_def split: if_splits)
  next
    case idle: False
    have asked: "map_of (sv_asked s) req_id = Some p" if some: "req_id \<noteq> []" and want: "wanted_port (sv_site s site_request) = Some p" for p
    proof -
      obtain q where q: "map_of (sv_asked s) req_id = Some q" "sv_site s site_request = Some (show_int q)"
        using ok some by (auto simp: ports_ok_def says_true_def req_id_def split: option.splits)
      then show ?thesis using wanted_show [of q] asked_bounds [OF ok q(1)] want by simp
    qed
    have kept: "status_true (sv_asked s) (sv_status s)" using ok by (simp add: ports_ok_def)
    note steps = look [unfolded next_step_def Let_def st_def [symmetric] req_id_def [symmetric], simplified idle if_False]
    show ?thesis
    proof (cases "req_id = [] \<or> ap_id st = req_id")
      case True
      then show ?thesis using steps kept by (auto simp: a_step_def doing_true_def)
    next
      case new: False
      show ?thesis
      proof (cases "wanted_port (sv_site s site_request)")
        case None
        then show ?thesis using steps new by (auto simp: a_step_def doing_true_def write_status_def status_true_def)
      next
        case (Some p)
        then show ?thesis
          using steps new kept asked [of p]
          by (cases "p = current_port s"; cases "map_of busy p")
            (auto simp: a_step_def doing_true_def write_status_def status_true_def)
      qed
    qed
  qed
  moreover have "\<exists>f. s1 = s\<lparr>sv_status := f\<rparr>" using next_step_writes [of busy now_s s] look by simp
  ultimately obtain f where "doing_true (sv_asked s) (sv_confirmed s) f (Some step)" "status_true (sv_asked s) f"
      "s1 = s\<lparr>sv_status := f\<rparr>" by auto
  then show ?thesis
    using ok False look by (auto simp: ports_ok_def current_port_def doing_true_def [of _ _ _ None])
qed simp

text \<open>Closing a trial: the port in use changes only when kept, to the one tried.\<close>

lemma close_effect:
  assumes "case ap_trying (or_blank (helper_status (sv_status s))) of None \<Rightarrow> True | Some p \<Rightarrow> 1 \<le> p \<and> p \<le> 65535"
  obtains site env st where "close_trial outcome i m timed_out s = s\<lparr>sv_site := site, sv_env := env, sv_trial_file := None,
      sv_status := Status st\<rparr>" "ap_trying st = None" "ap_id st = i" "ap_state st = (case outcome of Trial_Keep \<Rightarrow> Ap_Applied | Trial_Rollback \<Rightarrow> Ap_Rolled_Back | Trial_Failed \<Rightarrow> Ap_Failed)"
    "\<And>k. k \<noteq> site_port_in_use \<Longrightarrow> site k = sv_site s k"
    "published_port env = current_port s
      \<or> outcome = Trial_Keep \<and> Some (published_port env) = ap_trying (or_blank (helper_status (sv_status s)))"
proof -
  define new where "new = ap_trying (or_blank (helper_status (sv_status s)))"
  define s1 where "s1 = (case new of
              Some p \<Rightarrow>
                (if outcome = Trial_Keep \<and> p \<noteq> 0
                 then site_set [(site_port_in_use, Some (show_int p))] (env_change [(''HTTPS_PORT'', show_int p)] s) else s)
            | None \<Rightarrow> s)"
  define s2 where "s2 = (if trial_entry \<in> set (compose_files (sv_env s1))
                then env_change [(''COMPOSE_FILE'', join '','' (filter (\<lambda>f. f \<noteq> trial_entry) (compose_files (sv_env s1))))] s1 else s1)"
  have s2: "current_port s2 = current_port s1" "sv_site s2 = sv_site s1" "s2 = s1\<lparr>sv_env := sv_env s2\<rparr>"
    by (simp_all add: s2_def) (simp_all add: env_change_def)
  have s1: "current_port s1 = current_port s \<or> outcome = Trial_Keep \<and> new = Some (current_port s1)"
    using assms by (auto simp: s1_def new_def split: option.splits)
  have s1': "s1 = s\<lparr>sv_site := sv_site s1, sv_env := sv_env s1\<rparr>" "\<And>k. k \<noteq> site_port_in_use \<Longrightarrow> sv_site s1 k = sv_site s k"
    by (auto simp: s1_def site_set_def env_change_def split: option.split)
  have close: "close_trial outcome i m timed_out s = write_status i (case outcome of Trial_Keep \<Rightarrow> Ap_Applied
        | Trial_Rollback \<Rightarrow> Ap_Rolled_Back | Trial_Failed \<Rightarrow> Ap_Failed) (current_port s2) None None
      (if timed_out then timed_out_words new else m) (s2\<lparr>sv_trial_file := None\<rparr>)"
    unfolding close_trial_def Let_def new_def [symmetric] s1_def [symmetric] s2_def [symmetric] by simp
  have "s2 = s\<lparr>sv_site := sv_site s1, sv_env := sv_env s2\<rparr>"
    by (subst s2(3), subst s1'(1)) simp
  then have "close_trial outcome i m timed_out s = s\<lparr>sv_site := sv_site s1, sv_env := sv_env s2, sv_trial_file := None,
      sv_status := Status \<lparr>ap_id = i, ap_state = (case outcome of Trial_Keep \<Rightarrow> Ap_Applied
        | Trial_Rollback \<Rightarrow> Ap_Rolled_Back | Trial_Failed \<Rightarrow> Ap_Failed), ap_port = Some (current_port s2), ap_trying = None,
        ap_deadline = None, ap_message = (if timed_out then timed_out_words new else m)\<rparr>\<rparr>"
    unfolding close write_status_def by simp
  then show thesis
    by (rule that) (use s1 s1'(2) s2(1) in \<open>auto simp: current_port_def new_def\<close>)
qed

lemma bounded_trying:
  assumes ok: "ports_ok first s"
  shows "case ap_trying (or_blank (helper_status (sv_status s))) of None \<Rightarrow> True | Some p \<Rightarrow> 1 \<le> p \<and> p \<le> 65535"
proof (cases "sv_status s")
  case (Status st)
  have "status_true (sv_asked s) (Status st)" using ok Status by (simp add: ports_ok_def)
  then show ?thesis
    using Status asked_bounds [OF ok, of "ap_id st"]
    by (auto simp: status_true_def helper_status_def or_blank_def split: if_splits)
qed (simp_all add: helper_status_def or_blank_def blank_status_def)

lemma closed_ok:
  assumes ok: "ports_ok first s"
    and kept: "outcome = Trial_Keep \<Longrightarrow> case ap_trying (or_blank (helper_status (sv_status s))) of
        None \<Rightarrow> True | Some p \<Rightarrow> p \<in> set (sv_confirmed s)"
  shows "ports_ok first ((close_trial outcome i m timed_out s)\<lparr>sv_doing := None\<rparr>)"
proof -
  obtain site env st where c: "close_trial outcome i m timed_out s = s\<lparr>sv_site := site, sv_env := env,
        sv_trial_file := None, sv_status := Status st\<rparr>" "ap_trying st = None" "ap_state st \<noteq> Ap_Trying"
      "\<And>k. k \<noteq> site_port_in_use \<Longrightarrow> site k = sv_site s k"
      "published_port env = current_port s
        \<or> outcome = Trial_Keep \<and> Some (published_port env) = ap_trying (or_blank (helper_status (sv_status s)))"
  proof (rule close_effect [OF bounded_trying [OF ok], of outcome i m timed_out])
    fix site env st
    assume h: "close_trial outcome i m timed_out s = s\<lparr>sv_site := site, sv_env := env, sv_trial_file := None, sv_status := Status st\<rparr>"
      "ap_trying st = None"
      "ap_state st = (case outcome of Trial_Keep \<Rightarrow> Ap_Applied | Trial_Rollback \<Rightarrow> Ap_Rolled_Back | Trial_Failed \<Rightarrow> Ap_Failed)"
      "\<And>k. k \<noteq> site_port_in_use \<Longrightarrow> site k = sv_site s k"
      "published_port env = current_port s
        \<or> outcome = Trial_Keep \<and> Some (published_port env) = ap_trying (or_blank (helper_status (sv_status s)))"
    show thesis by (rule that [OF h(1,2) _ h(4,5)]) (use h(3) in \<open>cases outcome; simp\<close>)
  qed
  have "says_true (sv_asked s) (sv_confirmed s) site"
    by (rule says_cong [of _ _ "sv_site s"]) (use ok c(4) in \<open>simp_all add: ports_ok_def key_defs\<close>)
  moreover have "published_port env \<in> insert first (set (sv_confirmed s @ sv_by_hand s))"
    using c(5) kept ok by (auto simp: ports_ok_def split: option.splits)
  ultimately show ?thesis
    using ok c(1-3) by (simp add: ports_ok_def status_true_def doing_true_def current_port_def)
qed

lemma env_ok: "ports_ok first s \<Longrightarrow> published_port env = current_port s
    \<Longrightarrow> ports_ok first (s\<lparr>sv_trial_file := f, sv_env := env\<rparr>)"
  by (simp add: ports_ok_def current_port_def)

lemma opens_ok: "ports_ok first s \<Longrightarrow> ports_ok first (port_serve Helper_Opens s)"
proof -
  assume ok: "ports_ok first s"
  have "ports_ok first (open_trial p s)" for p
  proof (cases "trial_entry \<in> set (compose_files (sv_env s))")
    case True
    then show ?thesis using env_ok [OF ok, of "sv_env s" "Some p"] by (simp add: open_trial_def Let_def current_port_def)
  next
    case False
    let ?t = "join '','' (compose_files (sv_env s) @ [trial_entry])"
    have "published_port ((sv_env s)(''COMPOSE_FILE'' := Some ?t)) = current_port s"
      using current_after_env(2) [of ?t s] by (simp add: current_port_def env_change_def)
    from env_ok [OF ok this, of "Some p"] show ?thesis
      using False by (simp add: open_trial_def Let_def env_change_def)
  qed
  then show ?thesis using ok by (simp split: option.split prod.split)
qed

lemma tries_ok: "ports_ok first s \<Longrightarrow> ports_ok first (port_serve (Helper_Tries now_s) s)"
proof -
  assume ok: "ports_ok first s"
  have "ports_ok first ((trying_port p i now_s s)\<lparr>sv_doing := None\<rparr>)" if "doing Do_Try s = Some (Some p, i, m)" for p i m
  proof -
    have "i \<noteq> []" "map_of (sv_asked s) i = Some p"
      using that ok by (auto simp: doing_def ports_ok_def doing_true_def split: option.splits if_splits)
    then show ?thesis
      using ok by (simp add: trying_port_def write_status_def ports_ok_def status_true_def doing_true_def current_port_def)
  qed
  then show ?thesis using ok by (simp split: option.split prod.split)
qed

lemma closes_ok: "ports_ok first s \<Longrightarrow> ports_ok first (port_serve Helper_Closes s)"
proof -
  assume ok: "ports_ok first s"
  have "case ap_trying (or_blank (helper_status (sv_status s))) of None \<Rightarrow> True | Some p \<Rightarrow> p \<in> set (sv_confirmed s)"
    if "doing Do_Keep s \<noteq> None"
    using that ok by (auto simp: doing_def ports_ok_def doing_true_def helper_status_def or_blank_def
        split: option.splits if_splits status_file.splits)
  then have keep: "ports_ok first ((close_trial Trial_Keep i m t s)\<lparr>sv_doing := None\<rparr>)" if "doing Do_Keep s \<noteq> None" for i m t
    using that by (intro closed_ok [OF ok]) simp
  have roll: "ports_ok first ((close_trial Trial_Rollback i m t s)\<lparr>sv_doing := None\<rparr>)" for i m t
    by (rule closed_ok [OF ok]) simp
  show ?thesis using keep roll ok by (simp split: option.split prod.split)
qed

lemma ends_ok:
  "ports_ok first s \<Longrightarrow> ports_ok first (port_serve (Helper_Fails m) s)"
  "ports_ok first s \<Longrightarrow> ports_ok first (port_serve Helper_Times_Out s)"
  "ports_ok first s \<Longrightarrow> ports_ok first (port_serve Helper_Stops s)"
  using closed_ok [of first s Trial_Failed] closed_ok [of first s Trial_Rollback]
  by (auto split: option.split prod.split simp: ports_ok_def doing_true_def current_port_def)

lemma ready_ok: "ports_ok first s \<Longrightarrow> ports_ok first (port_serve Helper_Ready s)"
proof (cases "sv_status s")
  case No_Status
  assume "ports_ok first s"
  then show ?thesis
    using No_Status by (auto simp: helper_ready_def write_status_def ports_ok_def status_true_def doing_true_def current_port_def
      split: option.splits)
qed (simp_all add: helper_ready_def)

lemma by_hand_ok: "ports_ok first s \<Longrightarrow> ports_ok first (port_serve (By_Hand wanted busy check_only) s)"
proof (cases "set_by_hand wanted busy check_only s")
  case (Inr r)
  assume ok: "ports_ok first s"
  obtain previous s1 where r: "r = (previous, s1)" by (cases r)
  show ?thesis
  proof (cases check_only)
    case True
    then show ?thesis
      using Inr r ok by (auto simp: set_by_hand_def Let_def split: option.splits if_splits)
  next
    case False
    obtain p where p: "wanted_port wanted = Some p" using Inr by (cases "wanted_port wanted") (simp_all add: set_by_hand_def)
    have quiet: "\<not> (case helper_status (sv_status s) of None \<Rightarrow> False | Some st \<Rightarrow> ap_state st = Ap_Trying)"
      using Inr p by (auto simp: set_by_hand_def)
    have s1: "s1 = write_status [] Ap_Applied p None None ''set with netrollout port''
                     (site_set [(site_port_in_use, Some (show_int p)), (site_request, None), (site_request_id, None),
                            (site_requested_at, None), (site_confirmed, None)]
                           (env_change [(''HTTPS_PORT'', show_int p)] s))"
      using Inr r p False by (auto simp: set_by_hand_def Let_def split: if_splits option.splits)
    have "current_port s1 = p" using wanted_port_bounds [OF p] by (simp add: s1)
    moreover have "says_true (sv_asked s) (sv_confirmed s) (sv_site s1)"
      by (simp add: s1 write_status_def site_set_def env_change_def says_true_def key_defs)
    moreover have "doing_true (sv_asked s) (sv_confirmed s) (sv_status s1) (sv_doing s)"
      using ok quiet by (auto simp: ports_ok_def doing_true_def helper_status_def split: option.splits status_file.splits)
    moreover have "sv_status s1 = Status \<lparr>ap_id = [], ap_state = Ap_Applied, ap_port = Some p, ap_trying = None,
        ap_deadline = None, ap_message = ''set with netrollout port''\<rparr>" "sv_asked s1 = sv_asked s"
      "sv_confirmed s1 = sv_confirmed s" "sv_undos s1 = sv_undos s" "sv_doing s1 = sv_doing s" "sv_by_hand s1 = sv_by_hand s"
      by (simp_all add: s1 write_status_def site_set_def env_change_def)
    ultimately show ?thesis
      using ok Inr r p False by (simp add: ports_ok_def status_true_def current_port_def)
  qed
qed simp

lemma port_step_ok: "ports_ok first s \<Longrightarrow> ports_ok first (port_serve e s)"
  by (cases e) (simp_all only: requests_ok undoes_ok confirms_ok looks_ok opens_ok tries_ok closes_ok ends_ok ready_ok
      by_hand_ok)


section \<open>Every request is answered\<close>

definition answer_of :: "server \<Rightarrow> apply_status" where
  "answer_of s = or_blank (helper_status (sv_status s))"

definition asked_now :: "server \<Rightarrow> string" where
  "asked_now s = (case sv_site s site_request_id of None \<Rightarrow> [] | Some i \<Rightarrow> i)"

definition on_trial :: "server \<Rightarrow> bool" where
  "on_trial s \<longleftrightarrow> ap_state (answer_of s) = Ap_Trying"

definition trial_end :: "server \<Rightarrow> int" where
  "trial_end s = (case ap_deadline (answer_of s) of None \<Rightarrow> 0 | Some d \<Rightarrow> d)"

lemma close_answer:
  "ap_id (answer_of (close_trial outcome i m timed_out s)) = i" "\<not> on_trial (close_trial outcome i m timed_out s)"
  "asked_now (close_trial outcome i m timed_out s) = asked_now s"
  by (auto simp: close_trial_def Let_def write_status_def answer_of_def on_trial_def asked_now_def helper_status_def
      or_blank_def site_set_def env_change_def key_defs split: trial_outcome.split option.split)

lemma try_answer:
  "ap_id (answer_of (trying_port p i now_s s)) = i" "trial_end (trying_port p i now_s s) = now_s + trial_seconds"
  "asked_now (trying_port p i now_s (open_trial p s)) = asked_now s"
  by (auto simp: trying_port_def write_status_def answer_of_def trial_end_def asked_now_def helper_status_def or_blank_def
      open_trial_def Let_def env_change_def)

lemma write_answer:
  "st \<noteq> Ap_Trying \<Longrightarrow> \<not> on_trial (write_status i st p None None m s)" "ap_id (answer_of (write_status i st p t d m s)) = i"
  "asked_now (write_status i st p t d m s) = asked_now s"
  by (simp_all add: write_status_def answer_of_def on_trial_def asked_now_def helper_status_def or_blank_def)

text \<open>A pass: a trial's end when it is due, else the answer to a new request, else nothing.\<close>

lemma pass_trial:
  assumes "on_trial s"
  shows "asked_now (helper_pass busy t s) = asked_now s"
    and "ap_id (answer_of s) \<noteq> asked_now s \<or> trial_end s < t \<Longrightarrow> \<not> on_trial (helper_pass busy t s)"
    and "ap_id (answer_of (helper_pass busy t s)) = ap_id (answer_of s)"
    and "on_trial (helper_pass busy t s) \<Longrightarrow> helper_pass busy t s = s"
  using assms close_answer
  unfolding helper_pass_def next_step_def Let_def on_trial_def answer_of_def [symmetric] asked_now_def [symmetric]
    trial_end_def [symmetric]
  by (auto simp: a_step_def split: if_splits)

lemma pass_idle:
  assumes "\<not> on_trial s"
  shows "asked_now (helper_pass busy t s) = asked_now s"
    and "asked_now s = [] \<or> ap_id (answer_of s) = asked_now s \<Longrightarrow> helper_pass busy t s = s"
    and "asked_now s \<noteq> [] \<Longrightarrow> ap_id (answer_of s) \<noteq> asked_now s
      \<Longrightarrow> ap_id (answer_of (helper_pass busy t s)) = asked_now s
        \<and> (on_trial (helper_pass busy t s) \<longrightarrow> trial_end (helper_pass busy t s) = t + trial_seconds)"
  using assms
  unfolding helper_pass_def next_step_def Let_def on_trial_def answer_of_def [symmetric] asked_now_def [symmetric]
  by (auto simp: a_step_def try_answer write_answer [unfolded on_trial_def] split: option.split)

definition answered :: "server \<Rightarrow> bool" where
  "answered s \<longleftrightarrow> asked_now s = [] \<or> ap_id (answer_of s) = asked_now s \<and> \<not> on_trial s"

lemma answered_stays: "answered s \<Longrightarrow> \<not> on_trial s \<Longrightarrow> answered (helper_pass busy t s)"
  using pass_idle(2) [of s busy t] by (auto simp: answered_def)


end
