(* ===== verification/Stored_Keys.thy ===== *)
theory Stored_Keys
  imports Host_Keys
begin

text \<open>
  \<open>src/host_keys.py\<close>: the devices' SSH host keys as stored (table host_keys, a list of rows, unique by target and
  key), what a connection checks against (\<open>HostKeyPolicies\<close>), and what it records. Times are seconds; the
  fingerprint (a hash) and new ids are parameters.
\<close>

section \<open>The table\<close>

datatype key_state = Key_Accepted | Key_Refused

record key_row =
  kr_id :: string
  kr_target :: string
  kr_type :: string
  kr_key :: string
  kr_print :: string
  kr_state :: key_state
  kr_first :: int
  kr_last :: int
  kr_seen_by :: string
  kr_accepted_by :: "string option"
  kr_accepted_at :: "int option"

type_synonym key_table = "key_row list"

definition is_row :: "string \<Rightarrow> string \<Rightarrow> key_row \<Rightarrow> bool" where
  "is_row target k r \<longleftrightarrow> kr_target r = target \<and> kr_key r = k"

definition accepted_keys :: "string \<Rightarrow> key_table \<Rightarrow> string list" where
  "accepted_keys target t =
     map kr_key (sort_key kr_first (filter (\<lambda>r. kr_target r = target \<and> kr_state r = Key_Accepted) t))"

definition new_key_row :: "(string \<Rightarrow> string) \<Rightarrow> string \<Rightarrow> string \<Rightarrow> string \<Rightarrow> key_state \<Rightarrow> int \<Rightarrow> string \<Rightarrow> key_row" where
  "new_key_row print i target k state now_s seen_by =
     \<lparr>kr_id = i, kr_target = target, kr_type = key_type k, kr_key = k, kr_print = print k, kr_state = state,
      kr_first = now_s, kr_last = now_s, kr_seen_by = take 128 seen_by, kr_accepted_by = None, kr_accepted_at = None\<rparr>"

text \<open>\<open>learn\<close>: a key refused earlier is accepted, else inserted unless there.\<close>

definition learn_key ::
  "(string \<Rightarrow> string) \<Rightarrow> string \<Rightarrow> string \<Rightarrow> string \<Rightarrow> int \<Rightarrow> string \<Rightarrow> key_table \<Rightarrow> bool \<times> key_table" where
  "learn_key print i target k now_s seen_by t =
     (if list_ex (\<lambda>r. is_row target k r \<and> kr_state r = Key_Refused) t
      then (True, map (\<lambda>r. if is_row target k r \<and> kr_state r = Key_Refused
                           then r\<lparr>kr_state := Key_Accepted, kr_last := now_s, kr_seen_by := take 128 seen_by\<rparr> else r) t)
      else if list_ex (is_row target k) t then (False, t)
      else (True, t @ [new_key_row print i target k Key_Accepted now_s seen_by]))"

definition seen_key :: "string \<Rightarrow> string \<Rightarrow> int \<Rightarrow> key_table \<Rightarrow> key_table" where
  "seen_key target k now_s t = map (\<lambda>r. if is_row target k r then r\<lparr>kr_last := now_s\<rparr> else r) t"

definition day_of :: "int \<Rightarrow> int" where "day_of t = t div 86400"

text \<open>\<open>refuse\<close>: kept for an admin; whether it's the first of the day.\<close>

definition refuse_key ::
  "(string \<Rightarrow> string) \<Rightarrow> string \<Rightarrow> string \<Rightarrow> string \<Rightarrow> int \<Rightarrow> string \<Rightarrow> key_table \<Rightarrow> bool \<times> key_table" where
  "refuse_key print i target k now_s seen_by t =
     (case List.find (is_row target k) t of
        None \<Rightarrow> (True, t @ [new_key_row print i target k Key_Refused now_s seen_by])
      | Some row \<Rightarrow> (day_of (kr_last row) \<noteq> day_of now_s,
          map (\<lambda>r. if kr_id r = kr_id row then r\<lparr>kr_last := now_s\<rparr> else r) t))"

definition key_listing :: "key_table \<Rightarrow> key_table" where
  "key_listing t = sort_key kr_target (sort_key (\<lambda>r. kr_state r = Key_Accepted) (sort_key kr_first t))"

definition refused_targets :: "string list \<Rightarrow> key_table \<Rightarrow> string set" where
  "refused_targets targets t = kr_target ` set (filter (\<lambda>r. kr_target r \<in> set targets \<and> kr_state r = Key_Refused) t)"

datatype key_error = Key_Not_Stored | Key_Accepted_Already string string

definition find_key :: "string \<Rightarrow> key_table \<Rightarrow> key_row option" where
  "find_key i t = List.find (\<lambda>r. kr_id r = i) t"

text \<open>\<open>accept\<close>: the target's other accepted keys of that type go, unless kept.\<close>

definition accept_key :: "string \<Rightarrow> string \<Rightarrow> bool \<Rightarrow> int \<Rightarrow> key_table \<Rightarrow> key_error + (key_row \<times> key_table)" where
  "accept_key i who keep_others now_s t =
     (case find_key i t of
        None \<Rightarrow> Inl Key_Not_Stored
      | Some row \<Rightarrow>
          (if kr_state row = Key_Accepted then Inl (Key_Accepted_Already (kr_print row) (kr_target row))
           else (let accepted = row\<lparr>kr_state := Key_Accepted, kr_accepted_by := Some (take 64 who), kr_accepted_at := Some now_s\<rparr>;
                     others = (if keep_others then t
                               else filter (\<lambda>r. \<not> (kr_target r = kr_target row \<and> kr_type r = kr_type row \<and> kr_id r \<noteq> i
                                                 \<and> kr_state r = Key_Accepted)) t)
                 in Inr (accepted, map (\<lambda>r. if kr_id r = i then accepted else r) others))))"

definition remove_key :: "string \<Rightarrow> key_table \<Rightarrow> key_error + (key_row \<times> key_table)" where
  "remove_key i t =
     (case find_key i t of None \<Rightarrow> Inl Key_Not_Stored | Some row \<Rightarrow> Inr (row, filter (\<lambda>r. kr_id r \<noteq> i) t))"

definition reset_target :: "string \<Rightarrow> key_table \<Rightarrow> nat \<times> key_table" where
  "reset_target target t =
     (length (filter (\<lambda>r. kr_target r = target) t), filter (\<lambda>r. kr_target r \<noteq> target) t)"

section \<open>What a connection checks against and records\<close>

definition known_keys :: "bool \<Rightarrow> string \<Rightarrow> key_table \<Rightarrow> string list" where
  "known_keys checking target t = (if checking then accepted_keys target t else [])"

definition key_policy :: "bool \<Rightarrow> bool \<Rightarrow> string \<Rightarrow> key_table \<Rightarrow> policy" where
  "key_policy checking learn target t =
     (if \<not> checking then checks_off
      else (let known = known_keys checking target t in \<lparr>hk_known = known, hk_learn = (learn \<and> known = [])\<rparr>))"

text \<open>\<open>_seen\<close> and \<open>_refused\<close>, not while a move blocks writes; whether the audit is told.\<close>

definition record_seen ::
  "(string \<Rightarrow> string) \<Rightarrow> bool \<Rightarrow> string \<Rightarrow> string \<Rightarrow> string \<Rightarrow> bool \<Rightarrow> int \<Rightarrow> string \<Rightarrow> key_table \<Rightarrow> bool \<times> key_table" where
  "record_seen print blocked i target k learned now_s who t =
     (if blocked then (False, t)
      else (let (stored, t1) = (if learned \<and> accepted_keys target t = [] then learn_key print i target k now_s who t
                                else (False, t))
            in if stored then (True, t1) else (False, seen_key target k now_s t1)))"

definition record_refused ::
  "(string \<Rightarrow> string) \<Rightarrow> bool \<Rightarrow> string \<Rightarrow> string \<Rightarrow> string \<Rightarrow> int \<Rightarrow> string \<Rightarrow> key_table \<Rightarrow> bool \<times> key_table" where
  "record_refused print blocked i target k now_s who t =
     (if blocked then (False, t) else refuse_key print i target k now_s who t)"

definition store_key ::
  "(string \<Rightarrow> string) \<Rightarrow> bool \<Rightarrow> bool \<Rightarrow> string \<Rightarrow> string \<Rightarrow> string \<Rightarrow> int \<Rightarrow> string \<Rightarrow> key_table \<Rightarrow> bool \<times> key_table" where
  "store_key print checking blocked i target k now_s who t =
     (if checking then record_seen print blocked i target k True now_s who t else (False, t))"

section \<open>What happens to the keys\<close>

text \<open>
  A connection's policy may be old: what it learned is decided when it is recorded. Each recording is one transaction
  here, and new ids are fresh.
\<close>

datatype key_event =
    Key_Seen bool string string string bool int string | Key_Shown bool string string string int string
  | Accept_Key string string bool int | Remove_Key string | Reset_Target string

fun key_step :: "(string \<Rightarrow> string) \<Rightarrow> key_event \<Rightarrow> key_table \<Rightarrow> key_table" where
  "key_step print (Key_Seen blocked i target k learned now_s who) t =
     (if i \<in> kr_id ` set t then t else snd (record_seen print blocked i target k learned now_s who t))"
| "key_step print (Key_Shown blocked i target k now_s who) t =
     (if i \<in> kr_id ` set t then t else snd (record_refused print blocked i target k now_s who t))"
| "key_step print (Accept_Key i who keep_others now_s) t =
     (case accept_key i who keep_others now_s t of Inl _ \<Rightarrow> t | Inr (row, t1) \<Rightarrow> t1)"
| "key_step print (Remove_Key i) t = (case remove_key i t of Inl _ \<Rightarrow> t | Inr (row, t1) \<Rightarrow> t1)"
| "key_step print (Reset_Target target) t = snd (reset_target target t)"

fun by_admin :: "key_event \<Rightarrow> bool" where
  "by_admin (Accept_Key i who keep_others now_s) = True"
| "by_admin (Remove_Key i) = True"
| "by_admin (Reset_Target target) = True"
| "by_admin _ = False"

section \<open>Trust on first use, and no further\<close>

definition keys_ok :: "key_table \<Rightarrow> bool" where
  "keys_ok t \<longleftrightarrow> distinct (map kr_id t) \<and> distinct (map (\<lambda>r. (kr_target r, kr_key r)) t)"

lemma sort_map_key: "sort_key f (map g xs) = map g (sort_key (\<lambda>x. f (g x)) xs)"
proof (induction xs)
  case (Cons x xs)
  have "insort_key f (g x) (map g ys) = map g (insort_key (\<lambda>x. f (g x)) x ys)" for ys by (induction ys) auto
  then show ?case using Cons by simp
qed simp

lemma accepted_keys_same:
  assumes "\<And>r. kr_target (g r) = kr_target r" "\<And>r. kr_key (g r) = kr_key r" "\<And>r. kr_state (g r) = kr_state r"
    "\<And>r. kr_first (g r) = kr_first r"
  shows "accepted_keys target (map g t) = accepted_keys target t"
  by (simp add: accepted_keys_def filter_map comp_def sort_map_key assms)

lemma accepted_keys_append:
  "kr_target r \<noteq> target \<or> kr_state r = Key_Refused \<Longrightarrow> accepted_keys target (t @ [r]) = accepted_keys target t"
  by (auto simp: accepted_keys_def)

lemma seen_key_accepted [simp]: "accepted_keys target (seen_key other k now_s t) = accepted_keys target t"
  unfolding seen_key_def by (rule accepted_keys_same) auto

lemma refuse_key_accepted [simp]:
  "accepted_keys target (snd (refuse_key print i other k now_s who t)) = accepted_keys target t"
  unfolding refuse_key_def
  by (auto simp: accepted_keys_append new_key_row_def split: option.split intro!: accepted_keys_same)

lemma learn_key_elsewhere:
  assumes "target \<noteq> other"
  shows "accepted_keys target (snd (learn_key print i other k now_s who t)) = accepted_keys target t"
proof -
  have "filter (\<lambda>r. kr_target r = target \<and> kr_state r = Key_Accepted) (map g t)
      = filter (\<lambda>r. kr_target r = target \<and> kr_state r = Key_Accepted) t"
    if "\<And>r. g r = r \<or> kr_target r = other \<and> kr_target (g r) = other" for g
    by (induction t) (use that assms in force)+
  then show ?thesis using assms
    by (auto simp: learn_key_def accepted_keys_append new_key_row_def)
       (simp add: accepted_keys_def is_row_def)
qed

lemma learn_key_stored:
  "\<not> fst (learn_key print i target k now_s who t) \<Longrightarrow> snd (learn_key print i target k now_s who t) = t"
  by (auto simp: learn_key_def split: if_splits)

lemma record_seen_accepted:
  "accepted_keys target (snd (record_seen print blocked i other k learned now_s who t)) =
     (if \<not> blocked \<and> learned \<and> target = other \<and> accepted_keys target t = []
      then accepted_keys target (snd (learn_key print i other k now_s who t)) else accepted_keys target t)"
  by (auto simp: record_seen_def split_beta Let_def learn_key_elsewhere)

lemma unasked_step_kept:
  "\<not> by_admin e \<Longrightarrow> accepted_keys target t \<noteq> [] \<Longrightarrow>
     accepted_keys target (key_step print e t) = accepted_keys target t"
  by (cases e) (auto simp: record_seen_accepted record_refused_def)

lemma unasked_kept:
  assumes "\<forall>e \<in> set es. \<not> by_admin e" "accepted_keys target t \<noteq> []"
  shows "accepted_keys target (fold (key_step print) es t) = accepted_keys target t"
  using assms by (induction es arbitrary: t) (auto simp: unasked_step_kept)

text \<open>Rows are told apart by id, and by target and key.\<close>

lemma keys_ok_same:
  assumes "keys_ok t" "\<And>r. kr_id (g r) = kr_id r" "\<And>r. kr_target (g r) = kr_target r" "\<And>r. kr_key (g r) = kr_key r"
  shows "keys_ok (map g t)"
  using assms by (simp add: keys_ok_def comp_def)

lemma keys_ok_filter: "keys_ok t \<Longrightarrow> keys_ok (filter P t)"
  by (simp add: keys_ok_def distinct_map_filter)

lemma keys_ok_append:
  "keys_ok t \<Longrightarrow> kr_id r \<notin> kr_id ` set t \<Longrightarrow> \<not> list_ex (is_row (kr_target r) (kr_key r)) t \<Longrightarrow> keys_ok (t @ [r])"
  by (auto simp: keys_ok_def is_row_def list_ex_iff)

lemma keys_ok_learn:
  assumes "keys_ok t" "i \<notin> kr_id ` set t"
  shows "keys_ok (snd (learn_key print i target k now_s who t))"
  using assms unfolding learn_key_def by (auto simp: new_key_row_def intro!: keys_ok_same keys_ok_append)

lemma keys_ok_seen: "keys_ok t \<Longrightarrow> keys_ok (seen_key target k now_s t)"
  unfolding seen_key_def by (rule keys_ok_same) auto

lemma keys_ok_record_seen:
  assumes "keys_ok t" "i \<notin> kr_id ` set t"
  shows "keys_ok (snd (record_seen print blocked i target k learned now_s who t))"
  using keys_ok_learn [OF assms] assms(1) by (auto simp: record_seen_def split_beta Let_def keys_ok_seen)

lemma keys_ok_refuse:
  assumes "keys_ok t" "i \<notin> kr_id ` set t"
  shows "keys_ok (snd (refuse_key print i target k now_s who t))"
  using assms unfolding refuse_key_def
  by (auto simp: new_key_row_def list_ex_iff find_None_iff split: option.split intro!: keys_ok_same keys_ok_append)

lemma find_key_some: "find_key i t = Some row \<Longrightarrow> row \<in> set t \<and> kr_id row = i"
  by (auto simp: find_key_def find_Some_iff)

lemma map_replace_id:
  assumes "keys_ok t" "row \<in> set t" "kr_id row = i" "kr_id new = i" "kr_target new = kr_target row"
    "kr_key new = kr_key row"
  shows "keys_ok (map (\<lambda>r. if kr_id r = i then new else r) t)"
proof -
  have "r = row" if "r \<in> set t" "kr_id r = i" for r
    using assms(1,2,3) that by (auto simp: keys_ok_def distinct_map dest: inj_onD)
  then have same: "map kr_id (map (\<lambda>r. if kr_id r = i then new else r) t) = map kr_id t"
    "map (\<lambda>r. (kr_target r, kr_key r)) (map (\<lambda>r. if kr_id r = i then new else r) t)
       = map (\<lambda>r. (kr_target r, kr_key r)) t"
    using assms(4-6) by auto
  show ?thesis using assms(1) unfolding keys_ok_def same .
qed

lemma keys_ok_accept:
  assumes "keys_ok t" "accept_key i who keep_others now_s t = Inr (row, t1)"
  shows "keys_ok t1"
proof -
  obtain r where r: "find_key i t = Some r" using assms(2) by (cases "find_key i t") (auto simp: accept_key_def)
  note here = find_key_some [OF r]
  show ?thesis using assms(2) here
    by (auto simp: accept_key_def r Let_def split: if_splits
        intro!: map_replace_id [where row = r] keys_ok_filter assms(1))
qed

lemma keys_ok_step: "keys_ok t \<Longrightarrow> keys_ok (key_step print e t)"
  by (cases e) (auto simp: keys_ok_record_seen keys_ok_refuse record_refused_def remove_key_def reset_target_def
      keys_ok_filter split: sum.split option.split dest: keys_ok_accept)

lemma keys_ok_steps: "keys_ok t \<Longrightarrow> keys_ok (fold (key_step print) es t)"
  by (induction es arbitrary: t) (auto simp: keys_ok_step)

lemma keys_ok_start: "keys_ok []" by (simp add: keys_ok_def)

lemma one_row:
  assumes "keys_ok t"
  shows "length (filter (is_row target k) t) \<le> 1"
proof -
  let ?f = "\<lambda>r. (kr_target r, kr_key r)"
  let ?here = "filter (is_row target k) t"
  have "distinct (map ?f ?here)" using assms by (simp add: keys_ok_def distinct_map_filter)
  then have "length ?here = card (set (map ?f ?here))" by (simp only: distinct_card length_map)
  also have "\<dots> \<le> card {(target, k)}" by (rule card_mono) (auto simp: is_row_def)
  finally show ?thesis by simp
qed

lemma accepted_length:
  "length (accepted_keys target t) = length (filter (\<lambda>r. kr_target r = target \<and> kr_state r = Key_Accepted) t)"
  by (simp add: accepted_keys_def)

lemma accepted_none:
  "accepted_keys target t = [] \<longleftrightarrow> (\<forall>r \<in> set t. \<not> (kr_target r = target \<and> kr_state r = Key_Accepted))"
  by (metis (mono_tags, lifting) accepted_length filter_empty_conv length_0_conv)

lemma learned_one:
  assumes "keys_ok t" "accepted_keys target t = []"
  shows "length (accepted_keys target (snd (learn_key print i target k now_s who t))) \<le> 1"
proof -
  note free = assms(2) [unfolded accepted_none]
  let ?g = "\<lambda>r. if is_row target k r \<and> kr_state r = Key_Refused
                 then r\<lparr>kr_state := Key_Accepted, kr_last := now_s, kr_seen_by := take 128 who\<rparr> else r"
  have "length (filter (\<lambda>r. kr_target r = target \<and> kr_state r = Key_Accepted) (map ?g u))
      \<le> length (filter (is_row target k) u)" if "set u \<subseteq> set t" for u
    using that free by (induction u) (auto simp: is_row_def)
  from this [of t] have "length (accepted_keys target (map ?g t)) \<le> 1"
    using one_row [OF assms(1), of target k] by (simp add: accepted_length)
  moreover have "length (accepted_keys target (t @ [r])) \<le> 1" for r
    using assms(2) by (auto simp: accepted_none accepted_length filter_empty_conv [THEN iffD2])
  ultimately show ?thesis by (auto simp: learn_key_def assms(2))
qed

lemma unasked_step_one:
  assumes "keys_ok t" "\<not> by_admin e" "length (accepted_keys target t) \<le> 1"
  shows "length (accepted_keys target (key_step print e t)) \<le> 1"
  using assms by (cases e) (auto simp: record_seen_accepted record_refused_def dest: learned_one)

lemma unasked_one:
  assumes "\<forall>e \<in> set es. \<not> by_admin e" "keys_ok t" "length (accepted_keys target t) \<le> 1"
  shows "length (accepted_keys target (fold (key_step print) es t)) \<le> 1"
  using assms by (induction es arbitrary: t) (auto simp: unasked_step_one keys_ok_step simp del: One_nat_def)


text \<open>What a connection gets: the keys accepted, or the right to learn one.\<close>

lemma policy_learns_first:
  "hk_learn (key_policy checking learn target t) \<Longrightarrow> accepted_keys target t = []"
  "hk_known (key_policy checking learn target t) = (if checking then accepted_keys target t else [])"
  by (auto simp: key_policy_def known_keys_def Let_def checks_off_def split: if_splits)

text \<open>An accepted replacement's key takes its predecessor's place: the target's other accepted keys of that type are
  gone.\<close>

lemma accept_replaces:
  assumes "keys_ok t" "accept_key i who False now_s t = Inr (row, t1)" "r \<in> set t1"
    "kr_target r = kr_target row" "kr_type r = kr_type row" "kr_state r = Key_Accepted"
  shows "kr_id r = i"
  using assms(2-6)
  by (auto simp: accept_key_def Let_def split: option.splits if_splits dest!: find_key_some)

end
