(* ===== verification/Spec2Isabelle.thy ===== *)
theory Spec2Isabelle
  imports Evidence_Properties Log_Properties Engine_Token_Properties Engine_Properties
    Platform_Properties Session_Calls Host_Key_Properties Orchestrator_Properties Jobs_Properties
    Results_Properties Discovery_Properties Detect_Properties Input_Properties Inventory_Properties Sign_In_Properties Schedules_Properties Backup_Lock
    Discoveries Device_Holds Port_Properties Stored_Keys
begin

text \<open>
  A verification library of NetRollout: a web application (and a CLI) that pushes configuration commands to
  network devices over SSH and decides, from the configuration read before and after, whether each command
  took effect.

  \<^bold>\<open>The parts and how they meet.\<close> A rollout is submitted with its devices and commands; the orchestrator
  (\<open>src/jobs.py\<close>) admits it when no running or queued rollout holds one of its devices, keeps it in Redis, and
  runs it on one of its slots. The engine (\<open>src/rollout/engine.py\<close>) fills each device's commands in, pushes to
  each device through a session (\<open>src/rollout/session.py\<close>, the platform's dialect from \<open>platforms.py\<close>, the host
  key from \<open>host_keys.py\<close>), and classifies what came back. What came back is judged by \<open>evidence.py\<close>: every
  command gets a verdict from the lines of the two configurations. The lines a person sees go through
  \<open>log.py\<close>, which hides secrets; the results are stored and reviewed through \<open>src/results.py\<close>. Around it: the
  inventory (\<open>src/inventory.py\<close>) says which devices a user sees, edits and logs in to, and which values their
  tokens get; the discovery (\<open>src/discovery\<close>, \<open>rollout/detect.py\<close>) finds devices and tells their platform.

  \<^bold>\<open>Which theory models what.\<close>
  \<^item> \<open>Prelude\<close>: Python's text and container operations on \<open>string\<close>; \<open>Regex\<close>: its regular expressions as a matcher
    whose recursion ends for every expression and text.
  \<^item> \<open>Evidence_Lines\<close>, \<open>Evidence_Diff\<close>, \<open>Evidence_Judge\<close> (\<open>rollout/evidence.py\<close>): \<open>Line\<close>, \<open>parse\<close>, \<open>compare\<close>, \<open>noise\<close>, each method
    of \<open>_Judge\<close> as a function of its state. \<open>Evidence_Parse\<close>, \<open>Judge_Passes\<close>, \<open>Judge_Soundness\<close>, \<open>Evidence_Properties\<close>: what a
    verdict rests on (\<open>all_justified\<close>, stated apart from the judge), one line for one command, every changed line accounted for.
  \<^item> \<open>Log\<close> (\<open>rollout/log.py\<close>), \<open>Address\<close> (\<open>address.py\<close>), \<open>Run_Report\<close> (the reporting half of \<open>session.py\<close>),
    \<open>Engine_Tokens\<close>, \<open>Engine\<close> (\<open>engine.py\<close>), with \<open>Log_Properties\<close>, \<open>Engine_Token_Properties\<close>, \<open>Engine_Properties\<close>.
  \<^item> \<open>Session_Io\<close>, \<open>Session\<close> (\<open>session.py\<close>): programs over an outside world (Netmiko, the device, the clock, the resolver) given as
    a record of functions on an unknown state, with the trace of the calls made. \<open>Session_Policy\<close>, \<open>Session_Outcome\<close>,
    \<open>Session_Properties\<close>, \<open>Session_Calls\<close>: rules that compose along a program for what it calls and how it ends.
    \<open>Host_Keys\<close> (\<open>host_keys.py\<close>), \<open>Platform_Text\<close>, \<open>Platforms\<close>, \<open>Platform_Table\<close> (\<open>platforms.py\<close>, the twelve rows as data).
  \<^item> \<open>Detect\<close> (\<open>detect.py\<close>), \<open>Inputs\<close> (\<open>inputs.py\<close>), \<open>Discovery_Targets\<close> (\<open>discovery/targets.py\<close>), each with its \<open>_Properties\<close>.
  \<^item> \<open>Jobs\<close>, \<open>Orchestrator\<close> (\<open>src/jobs.py\<close>): Redis as a record of its keys, every locked block as a function;
    \<open>Orchestrator_Steps\<close>: the threads as one step relation, whose steps are the blocks; \<open>Lock_Table\<close>: the contract the device
    locks keep, as a locale interpreted on the orchestrator's; \<open>Orchestrator_Invariants\<close>, \<open>Orchestrator_Flow\<close>,
    \<open>Orchestrator_Properties\<close>: what holds in every reachable state, whatever the interleaving.
  \<^item> \<open>Results\<close>, \<open>Results_Queries\<close> (\<open>src/results.py\<close>): queries as functions of the list of rows; \<open>Results_Properties\<close>: SQL
    conditions equal their definition, filters and pages keep whole jobs, decisions are taken once.
  \<^item> \<open>Inventory_View\<close>, \<open>Inventory_Rules\<close> (\<open>src/inventory.py\<close>), \<open>Inventory_Actions\<close> (the database blocks of the handlers that
    change the tables, as requests); \<open>Inventory_Invariants\<close>, \<open>Inventory_Properties\<close>: what hangs on a device is of users who
    see it, and a request leaves the others' own alone.

  \<^bold>\<open>How code becomes definitions.\<close> A \<open>str\<close> is a \<^typ>\<open>string\<close> of code points 0 to 255; a class is a record, an enumeration a
  datatype, an exception a value (\<open>Inl\<close>, \<open>None\<close>) of the result; a dict with an order is an association list; Python's integers
  are \<open>int\<close> or \<open>nat\<close> (nothing in the program wraps). A lock's block is atomic: the threads interleave between blocks.
  The database's tables are lists of rows; a unique key that refuses an insert refuses the request.

  \<^bold>\<open>Parameters.\<close> What is not the repository's is an argument: the outside world of a session, the channel of a detection, the
  resolver, whether a name or port answers, the database's \<open>ILIKE\<close> and collation, the percentage and logarithm of floats, the
  cipher, new ids, the time.

  \<^bold>\<open>Bounds and fuel.\<close> A detection runs with as many rounds as there are nanoseconds in \<open>DETECT_SECONDS\<close>: each round reads the
  channel, which takes time, so the deadline comes first (\<open>detection_ends_and_never_guesses\<close>). Connecting tries each accepted
  host key once. Every other loop is structural recursion or has its measure proved.

  \<^bold>\<open>Not modelled, and why.\<close> The web pages (routes' form reading, templates, scripts), the database's connections, moves, settings
  and migrations, LDAP, TLS certificates, nginx and the port helper, backups, the installer and the release updates: mostly
  input and output around small decisions; the decisions among them are the plan's next parts. The CLI and the audit log's
  vocabulary are glue. Code in other languages (the Windows service, scripts, pages) is outside this library.

  \<^bold>\<open>Plan.\<close> In this order: the reachability cache and the CSV import of the inventory; the scan of a discovery; the schedule of
  backups and retention; the settings' registry; the directory's group rules.
\<close>

section \<open>From the device to the result\<close>

text \<open>What a device's success rests on: it was to be verified, every command was sent and answered, and
  each has a verdict that the configurations read before and after prove (\<open>all_justified\<close>), none of
  them a rejection or an open question.\<close>

definition success_proven :: "platform \<Rightarrow> string list \<Rightarrow> bool \<Rightarrow> push_result \<Rightarrow> bool" where
  "success_proven p commands verify r \<longleftrightarrow> verify \<and> p_applied r \<and> length (p_replies r) = length commands
     \<and> (\<exists>prior after again view judged.
          p_after r = Some after \<and> p_outcome r = Some judged
          \<and> set (map j_verdict (o_commands judged)) \<subseteq> {TookEffect, InPlace, Removed, Navigation, Exec}
          \<and> all_justified
              (judge_env_for (pl_grammar p) prior after again (map (\<lambda>r. r \<noteq> []) (p_replies r)) view)
              (typed_for (pl_grammar p) commands) (o_commands judged))"


end
